(* ===== verification/Prelude.thy ===== *)
theory Prelude
  imports Complex_Main "HOL-Library.Signed_Division"
begin

text \<open>
  Shared vocabulary of the development: the exceptions a request handler throws and
  the result type that carries them, the two loop shapes the services use
  (\<open>traverse\<close> for a loop that builds a list, \<open>foldE\<close> for a loop that
  threads state), the Prisma row operations (first match, update by filter, delete by
  filter) as list functions, and the JavaScript numbers: \<open>bigint\<close> as \<open>int\<close>
  with truncating division, \<open>number\<close> as exact rationals with \<open>Math.round\<close>.
\<close>

named_theorems result_simps \<open>rewrites for computations that may throw\<close>
named_theorems row_simps \<open>rewrites for table rows under update, delete and append\<close>

section \<open>Exceptions and results\<close>

text \<open>
  The first six are NestJS HTTP exceptions (the string is an abbreviated message);
  \<open>JsError\<close> is a plain \<open>throw new Error\<close>, \<open>RangeError\<close> is what
  \<open>BigInt\<close> throws; the last two are the database refusing a write (Prisma P2002
  and P2003).
\<close>

datatype exn =
    BadRequest string
  | NotFound string
  | Conflict string
  | Forbidden string
  | Unauthorized string
  | TooManyRequests string
  | JsError string
  | RangeError string
  | UniqueViolation
  | ForeignKeyViolation

type_synonym 'a result = "exn + 'a"

lemma not_isl_Inr: "\<not> isl r \<Longrightarrow> \<exists>x. r = Inr x"
  by (cases r) simp_all

text \<open>The state after a call: a call that throws is rolled back.\<close>

definition state_after :: "('a \<times> 's) result \<Rightarrow> 's \<Rightarrow> 's" where
  "state_after r s = (case r of Inl e \<Rightarrow> s | Inr (x, s') \<Rightarrow> s')"

lemma state_after_Inr [simp]: "state_after (Inr (x, s')) s = s'"
  by (simp add: state_after_def)

definition bindE :: "'a result \<Rightarrow> ('a \<Rightarrow> 'b result) \<Rightarrow> 'b result" where
  "bindE m f = (case m of Inl e \<Rightarrow> Inl e | Inr x \<Rightarrow> f x)"

lemma bindE_Inl [simp]: "bindE (Inl e) f = Inl e"
  by (simp add: bindE_def)

lemma bindE_Inr [simp]: "bindE (Inr x) f = f x"
  by (simp add: bindE_def)

lemma bindE_eq_Inr [simp]: "bindE m f = Inr y \<longleftrightarrow> (\<exists>x. m = Inr x \<and> f x = Inr y)"
  by (cases m) simp_all

lemma bindE_eq_Inl:
  "bindE m f = Inl e \<longleftrightarrow> m = Inl e \<or> (\<exists>x. m = Inr x \<and> f x = Inl e)"
  by (cases m) simp_all

lemma bindE_assoc: "bindE (bindE m f) g = bindE m (\<lambda>x. bindE (f x) g)"
  by (cases m) simp_all

text \<open>\<open>if (!ok) throw e\<close>.\<close>

definition ensure :: "bool \<Rightarrow> exn \<Rightarrow> unit result" where
  "ensure ok e = (if ok then Inr () else Inl e)"

lemma ensure_True [simp]: "ensure True e = Inr ()"
  by (simp add: ensure_def)

lemma ensure_False [simp]: "ensure False e = Inl e"
  by (simp add: ensure_def)

lemma ensure_eq_Inr [simp]: "ensure ok e = Inr u \<longleftrightarrow> ok"
  by (simp add: ensure_def)

lemma ensure_eq_Inl [simp]: "ensure ok e = Inl e' \<longleftrightarrow> \<not> ok \<and> e' = e"
  by (auto simp: ensure_def)

text \<open>\<open>findFirst\<close> followed by \<open>if (!row) throw e\<close>.\<close>

definition orFail :: "exn \<Rightarrow> 'a option \<Rightarrow> 'a result" where
  "orFail e v = (case v of None \<Rightarrow> Inl e | Some x \<Rightarrow> Inr x)"

lemma orFail_None [simp]: "orFail e None = Inl e"
  by (simp add: orFail_def)

lemma orFail_Some [simp]: "orFail e (Some x) = Inr x"
  by (simp add: orFail_def)

lemma orFail_eq_Inr [simp]: "orFail e v = Inr x \<longleftrightarrow> v = Some x"
  by (cases v) simp_all

lemma orFail_eq_Inl [simp]: "orFail e v = Inl e' \<longleftrightarrow> v = None \<and> e' = e"
  by (cases v) auto

text \<open>Elimination of a run that returned, one step of the handler at a time.\<close>

lemma bind_ensure_InrE:
  assumes "bindE (ensure ok e) f = Inr y" obtains "ok" "f () = Inr y"
  using assms by auto

lemma bind_orFail_InrE:
  assumes "bindE (orFail e v) f = Inr y" obtains x where "v = Some x" "f x = Inr y"
  using assms by auto

lemma bind_InrE:
  assumes "bindE m f = Inr y" obtains x where "m = Inr x" "f x = Inr y"
  using assms by auto

lemma case_prod_InrE:
  assumes "(case p of (a, b) \<Rightarrow> f a b) = Inr y" obtains a b where "p = (a, b)" "f a b = Inr y"
  using assms by (cases p) auto

lemma Inr_returnE:
  assumes "Inr x = Inr y" obtains "x = y"
  using assms by simp

lemmas returnedE = bind_ensure_InrE bind_orFail_InrE bind_InrE case_prod_InrE Inr_returnE Pair_inject

fun traverse :: "('a \<Rightarrow> 'b result) \<Rightarrow> 'a list \<Rightarrow> 'b list result" where
  "traverse f [] = Inr []"
| "traverse f (x # xs) =
     bindE (f x) (\<lambda>y. bindE (traverse f xs) (\<lambda>ys. Inr (y # ys)))"

lemma traverse_length: "traverse f xs = Inr ys \<Longrightarrow> length ys = length xs"
  by (induction xs arbitrary: ys) auto

lemma traverse_nth:
  "traverse f xs = Inr ys \<Longrightarrow> i < length xs \<Longrightarrow> f (xs ! i) = Inr (ys ! i)"
  by (induction xs arbitrary: ys i) (auto simp: nth_Cons split: nat.splits)

lemma traverse_list_all2:
  "traverse f xs = Inr ys \<Longrightarrow> list_all2 (\<lambda>x y. f x = Inr y) xs ys"
  by (induction xs arbitrary: ys) auto

lemma traverse_in_set:
  "traverse f xs = Inr ys \<Longrightarrow> y \<in> set ys \<Longrightarrow> \<exists>x\<in>set xs. f x = Inr y"
  by (induction xs arbitrary: ys) auto

fun foldE :: "('a \<Rightarrow> 's \<Rightarrow> 's result) \<Rightarrow> 'a list \<Rightarrow> 's \<Rightarrow> 's result" where
  "foldE f [] s = Inr s"
| "foldE f (x # xs) s = bindE (f x s) (foldE f xs)"

lemma foldE_append: "foldE f (xs @ ys) s = bindE (foldE f xs s) (foldE f ys)"
proof (induction xs arbitrary: s)
  case (Cons x xs)
  then show ?case by (cases "f x s") simp_all
qed simp

lemma foldE_invariant:
  assumes "foldE f xs s = Inr s'" and "P s"
    and "\<And>x s s'. x \<in> set xs \<Longrightarrow> P s \<Longrightarrow> f x s = Inr s' \<Longrightarrow> P s'"
  shows "P s'"
  using assms by (induction xs arbitrary: s) auto

section \<open>Rows of a table\<close>

text \<open>\<open>update\<close> and \<open>updateMany\<close>: change every row the filter selects.\<close>

definition update_rows :: "('r \<Rightarrow> bool) \<Rightarrow> ('r \<Rightarrow> 'r) \<Rightarrow> 'r list \<Rightarrow> 'r list" where
  "update_rows p f rs = map (\<lambda>r. if p r then f r else r) rs"

text \<open>\<open>deleteMany\<close>: drop every row the filter selects.\<close>

definition delete_rows :: "('r \<Rightarrow> bool) \<Rightarrow> 'r list \<Rightarrow> 'r list" where
  "delete_rows p rs = filter (\<lambda>r. \<not> p r) rs"

lemma length_update_rows [row_simps, simp]: "length (update_rows p f rs) = length rs"
  by (simp add: update_rows_def)

lemma map_update_rows [row_simps]:
  "(\<And>r. g (f r) = g r) \<Longrightarrow> map g (update_rows p f rs) = map g rs"
  by (simp add: update_rows_def)

lemma set_update_rows:
  "set (update_rows p f rs) = {if p r then f r else r | r. r \<in> set rs}"
  by (auto simp: update_rows_def)

lemma filter_update_rows:
  assumes "\<And>r. q (f r) = q r" and "\<And>r. q r \<Longrightarrow> \<not> p r"
  shows "filter q (update_rows p f rs) = filter q rs"
  using assms by (induction rs) (auto simp: update_rows_def)

lemma filter_delete_rows:
  assumes "\<And>r. q r \<Longrightarrow> \<not> p r"
  shows "filter q (delete_rows p rs) = filter q rs"
  using assms by (induction rs) (auto simp: delete_rows_def)

lemma set_delete_rows [simp]: "set (delete_rows p rs) = {r \<in> set rs. \<not> p r}"
  by (auto simp: delete_rows_def)

lemma find_update_rows_Some:
  assumes "List.find q rs = Some r" and "\<And>r. q (f r) = q r"
  shows "List.find q (update_rows p f rs) = Some (if p r then f r else r)"
  using assms by (induction rs) (auto simp: update_rows_def split: if_splits)

lemma find_update_rows_None:
  assumes "List.find q rs = None" and "\<And>r. q (f r) = q r"
  shows "List.find q (update_rows p f rs) = None"
  using assms by (induction rs) (auto simp: update_rows_def split: if_splits)

lemma find_update_rows:
  assumes "\<And>r. q (f r) = q r"
  shows "List.find q (update_rows p f rs) =
           map_option (\<lambda>r. if p r then f r else r) (List.find q rs)"
  using assms by (induction rs) (auto simp: update_rows_def)

lemma find_append:
  "List.find q (xs @ ys) = (case List.find q xs of None \<Rightarrow> List.find q ys | Some x \<Rightarrow> Some x)"
  by (induction xs) auto

lemma find_SomeD: "List.find q xs = Some x \<Longrightarrow> x \<in> set xs \<and> q x"
  by (induction xs) (auto split: if_splits)

lemma find_NoneD: "List.find q xs = None \<Longrightarrow> x \<in> set xs \<Longrightarrow> \<not> q x"
  by (induction xs) (auto split: if_splits)

lemma find_eq_None_iff: "List.find q xs = None \<longleftrightarrow> (\<forall>x\<in>set xs. \<not> q x)"
  by (induction xs) auto

section \<open>JavaScript numbers\<close>

text \<open>
  A JavaScript \<open>number\<close> is modelled by the exact rational it denotes; the rates and
  percentages the code handles have at most three decimals, where the final
  \<open>Math.round\<close> absorbs the binary rounding of the product before it.
\<close>

type_synonym number = rat

definition math_round :: "number \<Rightarrow> int" where
  "math_round x = \<lfloor>x + 1 / 2\<rfloor>"

lemma floor_rat_numeral_divide [simp]:
  "\<lfloor>(numeral a :: rat) / numeral b\<rfloor> = numeral a div numeral b"
  using floor_divide_of_int_eq [of "numeral a" "numeral b", where ?'a = rat] by simp

lemma floor_rat_one_divide [simp]: "\<lfloor>(1 :: rat) / numeral b\<rfloor> = 1 div numeral b"
  using floor_divide_of_int_eq [of 1 "numeral b", where ?'a = rat] by simp

lemma math_round_of_int [simp]: "math_round (of_int k) = k"
  by (simp add: math_round_def floor_eq_iff)

lemma math_round_mono: "x \<le> y \<Longrightarrow> math_round x \<le> math_round y"
  by (simp add: math_round_def floor_mono)

lemma math_round_nonneg: "0 \<le> x \<Longrightarrow> 0 \<le> math_round x"
  by (simp add: math_round_def)

text \<open>\<open>BigInt(x)\<close> on a number throws a \<open>RangeError\<close> unless it is an integer.\<close>

definition bigint_of_number :: "number \<Rightarrow> int result" where
  "bigint_of_number x =
     (if of_int \<lfloor>x\<rfloor> = x then Inr \<lfloor>x\<rfloor> else Inl (RangeError ''not an integer''))"

lemma bigint_of_number_of_int [simp]: "bigint_of_number (of_int k) = Inr k"
  by (simp add: bigint_of_number_def)

text \<open>\<open>a / b\<close> on \<open>bigint\<close> truncates towards zero and throws on a zero divisor.\<close>

definition bigint_div :: "int \<Rightarrow> int \<Rightarrow> int result" where
  "bigint_div a b = (if b = 0 then Inl (RangeError ''division by zero'') else Inr (a sdiv b))"

lemma sdiv_nonneg: "0 \<le> a \<Longrightarrow> 0 < b \<Longrightarrow> a sdiv b = a div (b::int)"
  by (cases "a = 0") (auto simp: signed_divide_int_def sgn_1_pos)

lemma smod_nonneg: "0 \<le> a \<Longrightarrow> 0 < b \<Longrightarrow> a smod b = a mod (b::int)"
  by (cases "a = 0") (simp_all add: signed_modulo_int_def sgn_if)

section \<open>Sums over lists\<close>

lemma sum_list_map_zero [simp]: "(\<And>x. x \<in> set xs \<Longrightarrow> f x = (0::int)) \<Longrightarrow> sum_list (map f xs) = 0"
  by (induction xs) auto

lemma sum_list_map_uminus: "sum_list (map (\<lambda>x. - f x) xs) = - sum_list (map f (xs :: 'a list) :: int list)"
  by (induction xs) auto

lemma sum_list_filter_split:
  "sum_list (map f (filter p xs)) + sum_list (map f (filter (\<lambda>x. \<not> p x) xs))
     = (sum_list (map f xs) :: int)"
  by (induction xs) auto

lemma sum_list_if:
  "sum_list (map (\<lambda>x. if p x then f x else 0) xs) = (sum_list (map f (filter p xs)) :: int)"
  by (induction xs) auto

lemma update_rows_none: "(\<And>r. r \<in> set rs \<Longrightarrow> \<not> p r) \<Longrightarrow> update_rows p f rs = rs"
  unfolding update_rows_def by (rule map_idI) simp

lemma delete_rows_append [row_simps]: "delete_rows p (xs @ ys) = delete_rows p xs @ delete_rows p ys"
  by (simp add: delete_rows_def)

lemma delete_rows_none: "(\<And>r. r \<in> set rs \<Longrightarrow> \<not> p r) \<Longrightarrow> delete_rows p rs = rs"
  by (simp add: delete_rows_def filter_id_conv)

end
