(* ===== verification/Text.thy ===== *)
theory Text
  imports Prelude
begin

text \<open>
  The string operations of the JavaScript standard library that the code uses, on lists
  of characters: \<open>toString\<close> of a non-negative integer, \<open>padStart\<close>,
  \<open>padEnd\<close>, \<open>slice\<close>, reading decimal digits back with \<open>BigInt(s)\<close>, and
  the facts about decimal notation that the formatting and parsing lemmas share.
\<close>

section \<open>Decimal digits\<close>

definition digit_char :: "nat \<Rightarrow> char" where
  "digit_char d = char_of (48 + d)"

definition is_digit :: "char \<Rightarrow> bool" where
  "is_digit c \<longleftrightarrow> 48 \<le> (of_char c :: nat) \<and> (of_char c :: nat) \<le> 57"

definition digit_val :: "char \<Rightarrow> nat" where
  "digit_val c = of_char c - 48"

lemma is_digit_digit_char [simp]: "d < 10 \<Longrightarrow> is_digit (digit_char d)"
  by (simp add: is_digit_def digit_char_def)

lemma digit_val_digit_char [simp]: "d < 10 \<Longrightarrow> digit_val (digit_char d) = d"
  by (simp add: digit_val_def digit_char_def)

lemma digit_val_less [simp]: "is_digit c \<Longrightarrow> digit_val c < 10"
  by (auto simp: digit_val_def is_digit_def)

lemma digit_char_digit_val [simp]: "is_digit c \<Longrightarrow> digit_char (digit_val c) = c"
  by (simp add: digit_val_def is_digit_def digit_char_def)

lemma digit_char_inject: "a < 10 \<Longrightarrow> b < 10 \<Longrightarrow> digit_char a = digit_char b \<longleftrightarrow> a = b"
  using digit_val_digit_char by metis

lemma digit_char_not_special:
  assumes "d < 10"
  shows "digit_char d \<noteq> CHR ''.''" and "digit_char d \<noteq> CHR ''-''" and "digit_char d \<noteq> CHR '',''"
  using is_digit_digit_char [OF assms] by (auto simp: is_digit_def)

lemma is_digit_special [simp]:
  "\<not> is_digit (CHR ''.'')" "\<not> is_digit (CHR ''-'')" "\<not> is_digit (CHR '','')" "\<not> is_digit (CHR '' '')"
  by (simp_all add: is_digit_def)

section \<open>Numbers to strings and back\<close>

fun show_nat :: "nat \<Rightarrow> string" where
  "show_nat n = (if n < 10 then [digit_char n] else show_nat (n div 10) @ [digit_char (n mod 10)])"

declare show_nat.simps [simp del]

text \<open>\<open>n.toString()\<close> for any integer.\<close>

definition show_int :: "int \<Rightarrow> string" where
  "show_int k = (if k < 0 then ''-'' @ show_nat (nat (- k)) else show_nat (nat k))"

text \<open>The value of a string of decimal digits (\<open>BigInt(s)\<close>, \<open>Number(s)\<close>).\<close>

definition digits_val :: "string \<Rightarrow> nat" where
  "digits_val s = foldl (\<lambda>v c. 10 * v + digit_val c) 0 s"

lemma digits_val_Nil [simp]: "digits_val [] = 0"
  by (simp add: digits_val_def)

lemma digits_val_snoc [simp]: "digits_val (s @ [c]) = 10 * digits_val s + digit_val c"
  by (simp add: digits_val_def)

lemma digits_val_append: "digits_val (s @ t) = digits_val s * 10 ^ length t + digits_val t"
proof (induction t rule: rev_induct)
  case (snoc c t)
  have "digits_val (s @ t @ [c]) = digits_val ((s @ t) @ [c])" by simp
  then show ?case by (simp only: digits_val_snoc snoc) (simp add: algebra_simps)
qed simp

lemma digits_val_less:
  "list_all is_digit s \<Longrightarrow> digits_val s < 10 ^ length s"
proof (induction s rule: rev_induct)
  case (snoc c s)
  then have "digits_val s < 10 ^ length s" and "digit_val c < 10"
    by simp_all
  then show ?case by simp
qed simp

lemma digits_val_show_nat [simp]: "digits_val (show_nat n) = n"
proof (induction n rule: show_nat.induct)
  case (1 n)
  show ?case
  proof (cases "n < 10")
    case True
    then show ?thesis
      by (subst show_nat.simps) (simp add: digits_val_def)
  next
    case False
    with 1 have "digits_val (show_nat (n div 10)) = n div 10" by simp
    with False show ?thesis by (subst show_nat.simps) simp
  qed
qed

lemma list_all_digit_show_nat [simp]: "list_all is_digit (show_nat n)"
proof (induction n rule: show_nat.induct)
  case (1 n)
  then show ?case by (subst show_nat.simps) (simp add: show_nat.simps)
qed

lemma show_nat_nonempty [simp]: "show_nat n \<noteq> []"
  by (subst show_nat.simps) simp

lemma show_nat_inject [simp]: "show_nat m = show_nat n \<longleftrightarrow> m = n"
  using digits_val_show_nat by metis

lemma length_show_nat_le: "n < 10 ^ k \<Longrightarrow> 0 < k \<Longrightarrow> length (show_nat n) \<le> k"
proof (induction n arbitrary: k rule: show_nat.induct)
  case (1 n)
  show ?case
  proof (cases "n < 10")
    case True
    with "1.prems" show ?thesis by (subst show_nat.simps) simp
  next
    case False
    with "1.prems" obtain j where k: "k = Suc j" and j: "0 < j"
      by (cases k; cases "k - 1") auto
    from "1.prems" k have "n div 10 < 10 ^ j" by auto
    from "1.IH" [OF False this j] have "length (show_nat (n div 10)) \<le> j" .
    with False k show ?thesis by (subst show_nat.simps) simp
  qed
qed

section \<open>Padding and slicing\<close>

definition padStart :: "nat \<Rightarrow> char \<Rightarrow> string \<Rightarrow> string" where
  "padStart n c s = replicate (n - length s) c @ s"

definition padEnd :: "nat \<Rightarrow> char \<Rightarrow> string \<Rightarrow> string" where
  "padEnd n c s = s @ replicate (n - length s) c"

lemma length_padStart [simp]: "length (padStart n c s) = max n (length s)"
  by (simp add: padStart_def)

lemma length_padEnd [simp]: "length (padEnd n c s) = max n (length s)"
  by (simp add: padEnd_def)

lemma digits_val_zeros [simp]: "digits_val (replicate k (CHR ''0'')) = 0"
proof (induction k)
  case (Suc k)
  then show ?case
    by (simp only: replicate_Suc replicate_append_same [symmetric] digits_val_snoc)
       (simp add: digit_val_def)
qed simp

lemma digits_val_padStart [simp]: "digits_val (padStart n (CHR ''0'') s) = digits_val s"
  by (simp add: padStart_def digits_val_append)

lemma list_all_digit_zeros [simp]: "list_all is_digit (replicate k (CHR ''0''))"
  by (induction k) (simp_all add: is_digit_def)

lemma list_all_digit_padStart [simp]:
  "list_all is_digit s \<Longrightarrow> list_all is_digit (padStart n (CHR ''0'') s)"
  by (simp add: padStart_def)

text \<open>\<open>s.slice(-k)\<close> and \<open>s.slice(0, -k)\<close>.\<close>

definition slice_last :: "nat \<Rightarrow> string \<Rightarrow> string" where
  "slice_last k s = drop (length s - k) s"

definition slice_butlast :: "nat \<Rightarrow> string \<Rightarrow> string" where
  "slice_butlast k s = take (length s - k) s"

lemma slice_butlast_last [simp]: "slice_butlast k s @ slice_last k s = s"
  by (simp add: slice_butlast_def slice_last_def)

lemma length_slice_last [simp]: "length (slice_last k s) = min k (length s)"
  by (simp add: slice_last_def)

lemma length_slice_butlast [simp]: "length (slice_butlast k s) = length s - k"
  by (simp add: slice_butlast_def)

text \<open>\<open>xs.join(sep)\<close>.\<close>

fun join :: "string \<Rightarrow> string list \<Rightarrow> string" where
  "join sep [] = ''''"
| "join sep [x] = x"
| "join sep (x # y # zs) = x @ sep @ join sep (y # zs)"

lemma filter_join:
  assumes "filter p sep = []" and "\<And>x. x \<in> set xs \<Longrightarrow> list_all p x"
  shows "filter p (join sep xs) = concat xs"
  using assms
proof (induction sep xs rule: join.induct)
  case (2 sep x)
  then show ?case by (simp add: filter_id_conv list_all_iff)
next
  case (3 sep x y zs)
  have "filter p x = x" using "3.prems"(2) [of x] by (simp add: filter_id_conv list_all_iff)
  moreover have "filter p (join sep (y # zs)) = concat (y # zs)"
    using 3 by simp
  ultimately show ?case using "3.prems"(1) by simp
qed simp

text \<open>\<open>s.trim()\<close>: white space is dropped from both ends.\<close>

definition is_space :: "char \<Rightarrow> bool" where
  "is_space c \<longleftrightarrow> c \<in> {CHR '' '', CHR 0x09, CHR 0x0A, CHR 0x0B, CHR 0x0C, CHR 0x0D, CHR 0xA0}"

definition trim :: "string \<Rightarrow> string" where
  "trim s = rev (dropWhile is_space (rev (dropWhile is_space s)))"

lemma trim_id:
  assumes "s \<noteq> []" and "\<not> is_space (hd s)" and "\<not> is_space (last s)"
  shows "trim s = s"
proof -
  have "dropWhile is_space s = s" using assms(1,2) by (cases s) auto
  moreover have "dropWhile is_space (rev s) = rev s"
    using assms(1,3) by (cases "rev s") (auto simp: last_rev [symmetric] hd_rev)
  ultimately show ?thesis by (simp add: trim_def)
qed

end
