(* ===== verification/Rounding.thy ===== *)
theory Rounding
  imports Prelude
begin

text \<open>
  The rounding contract that \<open>money.ts\<close> and \<open>area.ts\<close> each implement in their
  own way: divide and round to the nearest integer, ties away from zero. The abstract
  function is \<open>half_away\<close>; the locale \<open>rounding\<close> states what a provider
  promises and derives the error bound, exactness, symmetry and monotonicity once.
\<close>

definition half_away :: "int \<Rightarrow> int \<Rightarrow> int" where
  "half_away n d = (if 0 \<le> n then (2 * n + d) div (2 * d) else - ((2 * (- n) + d) div (2 * d)))"

lemma half_away_pos_bounds:
  assumes "0 < d" and "0 \<le> n"
  shows "2 * (half_away n d * d) \<le> 2 * n + d" and "2 * n < 2 * (half_away n d * d) + d"
proof -
  let ?q = "(2 * n + d) div (2 * d)"
  have eq: "?q * (2 * d) + (2 * n + d) mod (2 * d) = 2 * n + d" by (rule div_mult_mod_eq)
  have m: "0 \<le> (2 * n + d) mod (2 * d)" "(2 * n + d) mod (2 * d) < 2 * d"
    using assms by simp_all
  have h: "half_away n d = ?q" using assms by (simp add: half_away_def)
  show "2 * (half_away n d * d) \<le> 2 * n + d" using eq m(1) unfolding h by (simp add: algebra_simps)
  show "2 * n < 2 * (half_away n d * d) + d" using eq m(2) unfolding h by (simp add: algebra_simps)
qed

lemma half_away_minus [simp]: "half_away (- n) d = - half_away n d"
  if "0 < d"
  using that by (cases "n = 0") (simp_all add: half_away_def)

lemma half_away_nonneg: "0 < d \<Longrightarrow> 0 \<le> n \<Longrightarrow> 0 \<le> half_away n d"
  by (simp add: half_away_def pos_imp_zdiv_nonneg_iff)

lemma half_bounds_error:
  fixes x n d :: int
  assumes "2 * x \<le> 2 * n + d" and "2 * n < 2 * x + d"
  shows "2 * \<bar>x - n\<bar> \<le> d"
    and "2 * \<bar>x - n\<bar> = d \<Longrightarrow> 0 \<le> n \<Longrightarrow> 0 < d \<Longrightarrow> \<bar>n\<bar> < \<bar>x\<bar>"
  using assms by arith+

lemma half_away_neg_arg:
  assumes "0 < d"
  shows "half_away n d * d - n = - (half_away (- n) d * d - (- n))"
  using half_away_minus [OF assms, of n] by simp

lemma half_away_error:
  assumes "0 < d"
  shows "2 * \<bar>half_away n d * d - n\<bar> \<le> d"
proof (cases "0 \<le> n")
  case True
  show ?thesis by (rule half_bounds_error [OF half_away_pos_bounds [OF assms True]])
next
  case False
  then have "0 \<le> - n" by simp
  from half_bounds_error(1) [OF half_away_pos_bounds [OF assms this]]
  show ?thesis by (simp only: half_away_neg_arg [OF assms, of n] abs_minus_cancel)
qed

lemma half_away_tie:
  assumes "0 < d" and "2 * \<bar>half_away n d * d - n\<bar> = d"
  shows "\<bar>n\<bar> < \<bar>half_away n d * d\<bar>"
proof (cases "0 \<le> n")
  case True
  from half_bounds_error(2) [OF half_away_pos_bounds [OF assms(1) True] assms(2) True assms(1)]
  show ?thesis .
next
  case False
  then have n: "0 \<le> - n" by simp
  from assms(2) have "2 * \<bar>half_away (- n) d * d - (- n)\<bar> = d"
    by (simp only: half_away_neg_arg [OF assms(1), of n] abs_minus_cancel)
  from half_bounds_error(2) [OF half_away_pos_bounds [OF assms(1) n] this n assms(1)]
  show ?thesis using assms(1) by simp
qed

lemma near_same_point:
  fixes x y n d :: int
  shows "2 * \<bar>x - n\<bar> \<le> d \<Longrightarrow> 2 * \<bar>y - n\<bar> < d \<Longrightarrow> \<bar>x - y\<bar> < d"
  by (auto simp: abs_if split: if_splits)

lemma half_away_unique:
  assumes "0 < d" and "2 * \<bar>q * d - n\<bar> < d"
  shows "half_away n d = q"
proof -
  have "2 * \<bar>half_away n d * d - n\<bar> \<le> d" by (rule half_away_error [OF assms(1)])
  from near_same_point [OF this assms(2)]
  have "\<bar>(half_away n d - q) * d\<bar> < d" by (simp add: left_diff_distrib)
  then have "\<bar>half_away n d - q\<bar> * d < 1 * d" using assms(1) by (simp add: abs_mult)
  then show ?thesis using assms(1) by (simp add: mult_less_cancel_right)
qed

lemma half_away_exact [simp]: "0 < d \<Longrightarrow> half_away (k * d) d = k"
  by (rule half_away_unique) simp_all

lemma half_away_zero [simp]: "0 < d \<Longrightarrow> half_away 0 d = 0"
  using half_away_exact [of d 0] by simp

lemma half_away_scale:
  assumes "0 < c" and "0 < d"
  shows "half_away (c * n) (c * d) = half_away n d"
proof -
  have "(2 * (c * m) + c * d) div (2 * (c * d)) = (2 * m + d) div (2 * d)" for m
  proof -
    have "(2 * (c * m) + c * d) div (2 * (c * d)) = (c * (2 * m + d)) div (c * (2 * d))"
      by (simp add: algebra_simps)
    also have "\<dots> = (2 * m + d) div (2 * d)" using assms(1) by simp
    finally show ?thesis .
  qed
  from this [of n] this [of "- n"] assms show ?thesis
    by (simp add: half_away_def zero_le_mult_iff)
qed

lemma half_away_mono:
  assumes "0 < d" and "n \<le> m"
  shows "half_away n d \<le> half_away m d"
proof -
  have pos: "half_away a d \<le> half_away b d" if "0 \<le> a" "a \<le> b" for a b
    using that assms(1) by (simp add: half_away_def zdiv_mono1)
  consider "0 \<le> n" | "n < 0" "0 \<le> m" | "m < 0" by linarith
  then show ?thesis
  proof cases
    case 1
    then show ?thesis using pos assms(2) by blast
  next
    case 2
    then have "0 \<le> half_away (- n) d" "0 \<le> half_away m d"
      using half_away_nonneg [OF assms(1)] by simp_all
    then show ?thesis using half_away_minus [OF assms(1), of n] by linarith
  next
    case 3
    then have "half_away (- m) d \<le> half_away (- n) d" using pos assms(2) by simp
    then show ?thesis using half_away_minus [OF assms(1)] by simp
  qed
qed

section \<open>The contract\<close>

locale rounding =
  fixes rdiv :: "int \<Rightarrow> int \<Rightarrow> int result"
  assumes rdiv_pos: "0 < d \<Longrightarrow> rdiv n d = Inr (half_away n d)"
    and rdiv_neg: "d < 0 \<Longrightarrow> rdiv n d = Inr (half_away (- n) (- d))"
    and rdiv_zero: "\<exists>e. rdiv n 0 = Inl e"
begin

lemma rdiv_total: "d \<noteq> 0 \<Longrightarrow> \<exists>q. rdiv n d = Inr q"
  using rdiv_pos [of d n] rdiv_neg [of d n] by (cases "0 < d") auto

lemma rdiv_error:
  assumes "rdiv n d = Inr q"
  shows "2 * \<bar>q * d - n\<bar> \<le> \<bar>d\<bar>"
proof -
  consider "0 < d" | "d < 0" | "d = 0" by linarith
  then show ?thesis
  proof cases
    case 1
    then show ?thesis using assms rdiv_pos half_away_error [of d n] by simp
  next
    case 2
    then have "q = half_away (- n) (- d)" using assms rdiv_neg [of d n] by simp
    then have "2 * \<bar>- (q * d - n)\<bar> \<le> - d"
      using half_away_error [of "- d" "- n"] 2 by (simp add: algebra_simps)
    then show ?thesis using 2 by (simp only: abs_minus_cancel abs_of_neg)
  next
    case 3
    then show ?thesis using assms rdiv_zero [of n] by auto
  qed
qed

lemma rdiv_exact: "d \<noteq> 0 \<Longrightarrow> rdiv (k * d) d = Inr k"
  using rdiv_pos [of d "k * d"] rdiv_neg [of d "k * d"] half_away_exact [of "- d" k]
  by (cases "0 < d") auto

lemma rdiv_odd:
  assumes "rdiv n d = Inr q"
  shows "rdiv (- n) d = Inr (- q)"
proof -
  consider "0 < d" | "d < 0" | "d = 0" by linarith
  then show ?thesis
    using assms rdiv_pos [of d] rdiv_neg [of d] rdiv_zero [of n]
      half_away_minus [of d n] half_away_minus [of "- d" n]
    by cases (auto simp del: half_away_minus)
qed

lemma rdiv_sign: "rdiv (- n) (- d) = rdiv n d \<or> d = 0"
  using rdiv_pos [of d n] rdiv_neg [of "- d" "- n"] rdiv_pos [of "- d" "- n"] rdiv_neg [of d n]
  by (cases "0 < d"; cases "d < 0") auto

end

end
