(* ===== verification/Money.thy ===== *)
theory Money
  imports Text Rounding "HOL-Library.Multiset"
begin

text \<open>
  \<open>packages/shared/src/money.ts\<close>: conversions and formatting of paise amounts,
  rounded division, percentages in basis points, the largest-remainder allocation and the
  GST components. Amounts are \<open>bigint\<close>, hence \<open>int\<close>; the functions that can
  throw return a result. The lemmas establish half-away-from-zero rounding, the exact sum
  and the per-share bound of \<open>allocate\<close>, and the CGST/SGST/IGST identities.
\<close>

section \<open>Conversions and formatting\<close>

definition PAISE_PER_RUPEE :: int where
  "PAISE_PER_RUPEE = 100"

definition rupeesToPaise :: "number \<Rightarrow> int" where
  "rupeesToPaise rupees = math_round (rupees * 100)"

definition paiseToRupees :: "int \<Rightarrow> number" where
  "paiseToRupees paise = of_int paise / 100"

lemma rupeesToPaise_paiseToRupees: "rupeesToPaise (paiseToRupees p) = p"
  by (simp add: rupeesToPaise_def paiseToRupees_def)

text \<open>The \<open>while\<close> loop of \<open>formatWithLakhCrore\<close>: \<open>groups\<close> is the list built so far.\<close>

function lakh_groups :: "string \<Rightarrow> string list \<Rightarrow> string list" where
  "lakh_groups rest groups =
     (if 2 < length rest then lakh_groups (slice_butlast 2 rest) (slice_last 2 rest # groups)
      else if 0 < length rest then rest # groups
      else groups)"
  by pat_completeness auto
termination
  by (relation "measure (\<lambda>(rest, groups). length rest)") auto

declare lakh_groups.simps [simp del]

definition formatWithLakhCrore :: "int \<Rightarrow> string" where
  "formatWithLakhCrore n =
     (let s = show_int n
      in if length s \<le> 3 then s
         else join '','' (lakh_groups (slice_butlast 3 s) [slice_last 3 s]))"

text \<open>The rupee sign U+20B9 is written as its three UTF-8 bytes.\<close>

definition rupee_sign :: string where
  "rupee_sign = [CHR 0xE2, CHR 0x82, CHR 0xB9]"

definition formatInr :: "int \<Rightarrow> string" where
  "formatInr paise =
     (let negative = paise < 0;
          abs = (if negative then - paise else paise);
          rupees = abs sdiv PAISE_PER_RUPEE;
          remainder = abs smod PAISE_PER_RUPEE;
          rupeePart = formatWithLakhCrore rupees;
          paisePart = padStart 2 (CHR ''0'') (show_int remainder)
      in (if negative then ''-'' else '''') @ rupee_sign @ rupeePart @ ''.'' @ paisePart)"

lemma concat_lakh_groups: "concat (lakh_groups rest groups) = rest @ concat groups"
proof (induction rest groups rule: lakh_groups.induct)
  case (1 rest groups)
  then show ?case by (subst lakh_groups.simps) auto
qed

lemma lakh_groups_shape:
  "rest \<noteq> [] \<Longrightarrow>
   \<exists>h mid. lakh_groups rest groups = h # mid @ groups \<and> h \<noteq> [] \<and> length h \<le> 2
         \<and> (\<forall>g\<in>set mid. length g = 2)"
proof (induction rest groups rule: lakh_groups.induct)
  case (1 rest groups)
  show ?case
  proof (cases "2 < length rest")
    case True
    then have "slice_butlast 2 rest \<noteq> []" by (auto simp: slice_butlast_def)
    from "1.IH" [OF True this] obtain h mid where
      "lakh_groups (slice_butlast 2 rest) (slice_last 2 rest # groups)
         = h # mid @ slice_last 2 rest # groups"
      and h: "h \<noteq> []" "length h \<le> 2" "\<forall>g\<in>set mid. length g = 2"
      by blast
    with True have "lakh_groups rest groups = h # (mid @ [slice_last 2 rest]) @ groups"
      by (subst lakh_groups.simps) simp
    moreover from h(3) True have "\<forall>g\<in>set (mid @ [slice_last 2 rest]). length g = 2" by simp
    ultimately show ?thesis using h(1,2) by blast
  next
    case False
    with "1.prems" show ?thesis by (subst lakh_groups.simps) auto
  qed
qed

text \<open>Removing the separators gives back the plain decimal digits.\<close>

lemma formatWithLakhCrore_digits:
  assumes "0 \<le> n"
  shows "filter is_digit (formatWithLakhCrore n) = show_nat (nat n)"
proof -
  let ?s = "show_nat (nat n)"
  let ?gs = "lakh_groups (slice_butlast 3 ?s) [slice_last 3 ?s]"
  have c: "concat ?gs = ?s" by (simp add: concat_lakh_groups)
  have "list_all is_digit x" if "x \<in> set ?gs" for x
  proof -
    have "set x \<subseteq> set (concat ?gs)" using that by auto
    with c have "set x \<subseteq> set ?s" by simp
    moreover have "\<forall>c\<in>set ?s. is_digit c"
      using list_all_digit_show_nat [of "nat n"] by (simp add: list_all_iff del: list_all_digit_show_nat)
    ultimately show ?thesis by (auto simp: list_all_iff)
  qed
  then have "filter is_digit (join '','' ?gs) = ?s"
    using filter_join [of is_digit "'',''" ?gs] c by simp
  moreover have "filter is_digit ?s = ?s"
    using list_all_digit_show_nat [of "nat n"]
    by (simp add: filter_id_conv list_all_iff del: list_all_digit_show_nat)
  ultimately show ?thesis
    using assms by (simp add: formatWithLakhCrore_def show_int_def Let_def)
qed

section \<open>Arithmetic\<close>

definition addPaise :: "int \<Rightarrow> int \<Rightarrow> int" where
  "addPaise a b = a + b"

definition subtractPaise :: "int \<Rightarrow> int \<Rightarrow> int" where
  "subtractPaise a b = a - b"

definition multiplyPaise :: "int \<Rightarrow> int \<Rightarrow> int" where
  "multiplyPaise paise factor = paise * factor"

function roundedDiv :: "int \<Rightarrow> int \<Rightarrow> int result" where
  "roundedDiv numerator denominator =
     (if denominator < 0 then roundedDiv (- numerator) (- denominator)
      else if numerator \<ge> 0 then bigint_div (numerator + denominator sdiv 2) denominator
      else bindE (bigint_div (- numerator + denominator sdiv 2) denominator) (\<lambda>q. Inr (- q)))"
  by pat_completeness auto
termination
  by (relation "measure (\<lambda>(n, d). if d < 0 then 1 else 0)") auto

declare roundedDiv.simps [simp del]

lemma half_div: "0 < d \<Longrightarrow> (2 * n + d) div (2 * d) = (n + d div 2) div (d::int)"
proof -
  assume "0 < d"
  then have "(2 * n + d) div (2 * d) = (2 * n + d) div 2 div d"
    by (simp add: zdiv_zmult2_eq)
  also have "(2 * n + d) div 2 = n + d div 2" by simp
  finally show ?thesis .
qed

lemma roundedDiv_pos: "0 < d \<Longrightarrow> roundedDiv n d = Inr (half_away n d)"
  using half_div [of d n] half_div [of d "- n"]
  by (subst roundedDiv.simps) (auto simp: bigint_div_def half_away_def sdiv_nonneg)

interpretation paise: rounding roundedDiv
proof unfold_locales
  show "0 < d \<Longrightarrow> roundedDiv n d = Inr (half_away n d)" for n d by (rule roundedDiv_pos)
  show "d < 0 \<Longrightarrow> roundedDiv n d = Inr (half_away (- n) (- d))" for n d
    by (subst roundedDiv.simps) (simp add: roundedDiv_pos)
  show "\<exists>e. roundedDiv n 0 = Inl e" for n
    by (subst roundedDiv.simps) (simp add: bigint_div_def)
qed

definition percentOf :: "int \<Rightarrow> number \<Rightarrow> int result" where
  "percentOf paise basisPoints =
     bindE (bigint_of_number basisPoints) (\<lambda>bp. roundedDiv (paise * bp) 10000)"

lemma percentOf_int [simp]: "percentOf p (of_int bp) = Inr (half_away (p * bp) 10000)"
  by (simp add: percentOf_def roundedDiv_pos)

section \<open>Largest-remainder allocation\<close>

text \<open>
  The second loop of \<open>allocate\<close>: one paisa to each remainder in turn while any are left over.
\<close>

fun hand_out :: "int \<Rightarrow> (nat \<times> int) list \<Rightarrow> int list \<Rightarrow> int list" where
  "hand_out leftover [] shares = shares"
| "hand_out leftover ((i, r) # rs) shares =
     (if leftover > 0 then hand_out (leftover - 1) rs (shares[i := shares ! i + 1]) else shares)"

text \<open>
  The comparator orders by larger remainder, then lower index; indices are distinct, so
  the order is total and the key below sorts the same way.
\<close>

definition by_remainder :: "(nat \<times> int) list \<Rightarrow> (nat \<times> int) list" where
  "by_remainder rs = sort_key (\<lambda>(i, r). - r) rs"

function allocate :: "int \<Rightarrow> int list \<Rightarrow> int list result" where
  "allocate tot weights =
     (if weights = [] then Inl (JsError ''allocate: weights must be non-empty'')
      else if tot < 0 then
        bindE (allocate (- tot) weights) (\<lambda>shares. Inr (map (\<lambda>s. - s) shares))
      else
        let weightSum = sum_list weights in
        if weightSum \<le> 0 then Inl (JsError ''allocate: sum of weights must be positive'')
        else
          let shares = map (\<lambda>w. (tot * w) sdiv weightSum) weights;
              remainders = zip [0..<length weights] (map (\<lambda>w. (tot * w) smod weightSum) weights);
              leftover = tot - sum_list shares
          in Inr (hand_out leftover (by_remainder remainders) shares))"
  by pat_completeness auto
termination
  by (relation "measure (\<lambda>(t, ws). if t < 0 then 1 else 0)") auto

declare allocate.simps [simp del]

lemma length_hand_out [simp]: "length (hand_out l rs shares) = length shares"
  by (induction l rs shares rule: hand_out.induct) simp_all

lemma sum_list_increment:
  "i < length xs \<Longrightarrow> sum_list (xs[i := xs ! i + 1]) = sum_list xs + (1::int)"
  by (induction xs arbitrary: i) (auto split: nat.splits)

lemma sum_hand_out:
  assumes "\<forall>p\<in>set rs. fst p < length shares" and "0 \<le> l" and "l \<le> int (length rs)"
  shows "sum_list (hand_out l rs shares) = sum_list shares + l"
  using assms
proof (induction l rs shares rule: hand_out.induct)
  case (2 l i r rs shares)
  then show ?case by (auto simp: sum_list_increment)
qed simp

lemma nth_hand_out:
  assumes "distinct (map fst rs)" and "j < length shares"
  shows "hand_out l rs shares ! j = shares ! j \<or> hand_out l rs shares ! j = shares ! j + 1
         \<and> j \<in> set (map fst rs)"
  using assms
proof (induction l rs shares rule: hand_out.induct)
  case (2 l i r rs shares)
  then show ?case by (cases "l > 0"; cases "i = j") (auto simp: nth_list_update)
qed simp

lemma by_remainder_props:
  fixes weights :: "int list" and f :: "int \<Rightarrow> int"
  defines "rs \<equiv> by_remainder (zip [0..<length weights] (map f weights))"
  shows "length rs = length weights" and "\<forall>p\<in>set rs. fst p < length weights"
    and "distinct (map fst rs)"
proof -
  let ?z = "zip [0..<length weights] (map f weights)"
  have m: "mset rs = mset ?z" by (simp add: rs_def by_remainder_def)
  from mset_eq_length [OF m] show "length rs = length weights" by simp
  from mset_eq_setD [OF m] show "\<forall>p\<in>set rs. fst p < length weights"
    by (auto dest: set_zip_leftD)
  have "mset (map fst rs) = mset (map fst ?z)" using m by (metis mset_map)
  moreover have "map fst ?z = [0..<length weights]" by simp
  ultimately show "distinct (map fst rs)" by (metis distinct_upt mset_eq_imp_distinct_iff)
qed

text \<open>The floor shares of a non-negative total over non-negative weights.\<close>

lemma floor_shares:
  fixes W t :: int
  assumes "\<forall>w\<in>set weights. 0 \<le> w" and "0 < W" and "0 \<le> t"
  shows "map (\<lambda>w. (t * w) sdiv W) weights = map (\<lambda>w. t * w div W) weights"
    and "map (\<lambda>w. (t * w) smod W) weights = map (\<lambda>w. t * w mod W) weights"
  using assms by (simp_all add: sdiv_nonneg smod_nonneg mult_nonneg_nonneg)

lemma leftover_bounds:
  fixes W t :: int
  assumes "W = sum_list weights" and "0 < W" and "weights \<noteq> []"
  defines "left \<equiv> t - sum_list (map (\<lambda>w. t * w div W) weights)"
  shows "0 \<le> left" and "left \<le> int (length weights)"
proof -
  have split: "sum_list (map (\<lambda>w. t * w) ws)
      = W * sum_list (map (\<lambda>w. t * w div W) ws) + sum_list (map (\<lambda>w. t * w mod W) ws)" for ws
    by (induction ws) (simp_all add: algebra_simps)
  have "sum_list (map (\<lambda>w. t * w) weights) = t * W"
    by (simp add: assms(1) sum_list_const_mult)
  with split [of weights] have eq: "W * left = sum_list (map (\<lambda>w. t * w mod W) weights)"
    by (simp add: left_def algebra_simps)
  have lo: "0 \<le> sum_list (map (\<lambda>w. t * w mod W) ws)" for ws
    using assms(2) by (induction ws) simp_all
  have hi: "sum_list (map (\<lambda>w. t * w mod W) ws) \<le> W * int (length ws)" for ws
  proof (induction ws)
    case (Cons w ws)
    have "t * w mod W < W" using assms(2) by simp
    with Cons show ?case by (simp add: algebra_simps)
  qed simp
  have "0 \<le> W * left" using eq lo [of weights] by linarith
  then show "0 \<le> left" using assms(2) by (simp add: zero_le_mult_iff)
  show "left \<le> int (length weights)" using eq hi [of weights] assms(2)
    by (metis mult_le_cancel_left_pos)
qed

lemma sum_list_nonneg_pos: "\<forall>w\<in>set ws. 0 \<le> (w::int) \<Longrightarrow> sum_list ws \<noteq> 0 \<Longrightarrow> 0 < sum_list ws"
  using sum_list_nonneg [of ws] by auto

lemma allocate_nonneg:
  assumes "\<forall>w\<in>set weights. 0 \<le> w" and "0 < sum_list weights" and "0 \<le> t"
    and "allocate t weights = Inr shares"
  shows "length shares = length weights" and "sum_list shares = t"
    and "\<And>i. i < length weights \<Longrightarrow>
      shares ! i = t * weights ! i div sum_list weights \<or>
      shares ! i = t * weights ! i div sum_list weights + 1"
proof -
  let ?W = "sum_list weights"
  let ?fl = "map (\<lambda>w. t * w div ?W) weights"
  let ?rs = "by_remainder (zip [0..<length weights] (map (\<lambda>w. t * w mod ?W) weights))"
  have ne: "weights \<noteq> []" using assms(2) by auto
  have sh: "shares = hand_out (t - sum_list ?fl) ?rs ?fl"
    using assms ne by (subst (asm) allocate.simps) (simp add: Let_def floor_shares)
  note br = by_remainder_props [of weights "\<lambda>w. t * w mod ?W"]
  note lb = leftover_bounds [OF refl assms(2) ne, of t]
  show "length shares = length weights" by (simp add: sh)
  show "sum_list shares = t"
    unfolding sh using br(1,2) lb by (subst sum_hand_out) simp_all
  fix i assume "i < length weights"
  then show "shares ! i = t * weights ! i div ?W \<or> shares ! i = t * weights ! i div ?W + 1"
    using nth_hand_out [OF br(3), of i ?fl "t - sum_list ?fl"] by (auto simp: sh)
qed

lemma allocate_neg:
  assumes "t < 0" and "allocate t weights = Inr shares"
  obtains pos where "allocate (- t) weights = Inr pos" and "shares = map uminus pos"
  using assms by (subst (asm) (2) allocate.simps) (auto split: if_splits)

lemma allocate_weights_pos: "allocate t weights = Inr shares \<Longrightarrow> 0 < sum_list weights"
proof (induction t weights arbitrary: shares rule: allocate.induct)
  case (1 t weights)
  show ?case
  proof (cases "weights \<noteq> [] \<and> t < 0")
    case True
    from allocate_neg [OF _ "1.prems"] True obtain pos where "allocate (- t) weights = Inr pos"
      by blast
    with 1 True show ?thesis by blast
  next
    case False
    with "1.prems" show ?thesis
      by (subst (asm) allocate.simps) (auto simp: Let_def split: if_splits)
  qed
qed

lemma allocate_sum:
  assumes "\<forall>w\<in>set weights. 0 \<le> w" and "allocate t weights = Inr shares"
  shows "sum_list shares = t"
proof (cases "t < 0")
  case True
  from allocate_neg [OF this assms(2)] obtain pos
    where pos: "allocate (- t) weights = Inr pos" "shares = map uminus pos" .
  have "sum_list pos = - t"
    using allocate_nonneg(2) [OF assms(1) allocate_weights_pos [OF pos(1)] _ pos(1)] True by simp
  then show ?thesis using pos(2) sum_list_map_uminus [of "\<lambda>x. x" pos] by simp
next
  case False
  then show ?thesis
    using allocate_nonneg(2) [OF assms(1) allocate_weights_pos [OF assms(2)] _ assms(2)] by simp
qed

lemma allocate_length: "allocate t weights = Inr shares \<Longrightarrow> length shares = length weights"
proof (induction t weights arbitrary: shares rule: allocate.induct)
  case (1 t weights)
  show ?case
  proof (cases "t < 0")
    case True
    from allocate_neg [OF this "1.prems"] obtain pos
      where pos: "allocate (- t) weights = Inr pos" "shares = map uminus pos" .
    have "weights \<noteq> []" using allocate_weights_pos [OF "1.prems"] by auto
    from "1.IH" [OF this True pos(1)] pos(2) show ?thesis by simp
  next
    case False
    with "1.prems" show ?thesis
      by (subst (asm) allocate.simps) (auto simp: Let_def split: if_splits)
  qed
qed

text \<open>The failures, exactly: no weights, or weights that do not sum to a positive value.\<close>

lemma allocate_fails_iff:
  "(\<exists>e. allocate t weights = Inl e) \<longleftrightarrow> sum_list weights \<le> 0"
proof (induction t weights rule: allocate.induct)
  case (1 t weights)
  show ?case
  proof (cases "weights \<noteq> [] \<and> t < 0")
    case True
    then have "(\<exists>e. allocate t weights = Inl e) \<longleftrightarrow> (\<exists>e. allocate (- t) weights = Inl e)"
      by (subst allocate.simps) (auto simp: bindE_eq_Inl)
    with 1 True show ?thesis by simp
  next
    case False
    then show ?thesis by (subst allocate.simps) (auto simp: Let_def)
  qed
qed

section \<open>GST components\<close>

record gst_components =
  cgstPaise :: int
  sgstPaise :: int
  igstPaise :: int

definition gstComponents :: "int \<Rightarrow> number \<Rightarrow> bool \<Rightarrow> gst_components result" where
  "gstComponents basePaise rateBasisPoints intraState =
     bindE (percentOf basePaise (rateBasisPoints / 2)) (\<lambda>half.
     bindE (percentOf basePaise rateBasisPoints) (\<lambda>full.
       Inr (if intraState
            then \<lparr>cgstPaise = half, sgstPaise = half, igstPaise = 0\<rparr>
            else \<lparr>cgstPaise = 0, sgstPaise = 0, igstPaise = full\<rparr>)))"

definition gstTotal :: "gst_components \<Rightarrow> int" where
  "gstTotal c = cgstPaise c + sgstPaise c + igstPaise c"

text \<open>
  C39: an allocation is exact and fair. The shares of a total over non-negative
  weights sum to the total, one per weight, and each is within one paisa of its exact
  proportional part.
\<close>

theorem allocate_fair:
  assumes "\<forall>w\<in>set weights. 0 \<le> w" and "allocate t weights = Inr shares"
  shows "sum_list shares = t \<and> length shares = length weights \<and>
    (\<forall>i<length weights. \<bar>shares ! i * sum_list weights - t * weights ! i\<bar> \<le> sum_list weights)"
proof -
  let ?W = "sum_list weights"
  have W: "0 < ?W" by (rule allocate_weights_pos [OF assms(2)])
  have near: "\<bar>q * ?W - a\<bar> \<le> ?W" if "q = a div ?W \<or> q = a div ?W + 1" for q a :: int
  proof -
    have "a = a div ?W * ?W + a mod ?W" "0 \<le> a mod ?W" "a mod ?W < ?W" using W by simp_all
    moreover have "q * ?W = a div ?W * ?W \<or> q * ?W = a div ?W * ?W + ?W"
      using that by (auto simp: distrib_right)
    ultimately show ?thesis by linarith
  qed
  have "\<bar>shares ! i * ?W - t * weights ! i\<bar> \<le> ?W" if i: "i < length weights" for i
  proof (cases "t < 0")
    case False
    with near allocate_nonneg(3) [OF assms(1) W _ assms(2) i] show ?thesis by simp
  next
    case True
    then obtain pos where pos: "allocate (- t) weights = Inr pos" "shares = map uminus pos"
      using allocate_neg [OF _ assms(2)] by blast
    have "\<bar>pos ! i * ?W - (- t) * weights ! i\<bar> \<le> ?W"
      using allocate_nonneg(3) [OF assms(1) W _ pos(1) i] True by (intro near) simp
    then show ?thesis using pos(2) i allocate_length [OF pos(1)] by (simp add: abs_minus_commute)
  qed
  with allocate_sum [OF assms] allocate_length [OF assms(2)] show ?thesis by blast
qed

theorem allocate_fair_witness:
  "allocate 100 [1, 1, 1] = Inr [34, 33, 33] \<and> sum_list [34, 33, 33] = (100 :: int)"
proof -
  have "allocate 100 [1, 1, 1] = Inr [34, 33, 33]" by code_simp
  from allocate_fair [OF _ this] this show ?thesis by simp
qed

end
