(* ===== verification/Gst.thy ===== *)
theory Gst
  imports Money
begin

text \<open>
  \<open>apps/api/src/postsales/gst.util.ts\<close>: the GST of one cost line, on top of
  \<open>gstComponents\<close> of \<open>money.ts\<close>. The lemmas give the components in closed form
  for whole half-rates, the one-paisa identity between CGST + SGST and IGST, and the
  exception the code throws on an odd number of basis points.
\<close>

definition percentToBasisPoints :: "number \<Rightarrow> int" where
  "percentToBasisPoints ratePercent = math_round (ratePercent * 100)"

record cost_line_gst = gst_components +
  rateBasisPoints :: int
  taxTotalPaise :: int
  lineTotalPaise :: int

definition computeCostLineGst :: "int \<Rightarrow> number \<Rightarrow> bool \<Rightarrow> cost_line_gst result" where
  "computeCostLineGst basePaise ratePercent intraState =
     (let bps = percentToBasisPoints ratePercent
      in bindE (gstComponents basePaise (of_int bps) intraState) (\<lambda>c.
           let tax = cgstPaise c + sgstPaise c + igstPaise c
           in Inr \<lparr>cgstPaise = cgstPaise c, sgstPaise = sgstPaise c, igstPaise = igstPaise c,
                   rateBasisPoints = bps, taxTotalPaise = tax,
                   lineTotalPaise = basePaise + tax\<rparr>))"

lemma half_bps_integer: "bigint_of_number (of_int bps / 2) =
  (if even bps then Inr (bps div 2) else Inl (RangeError ''not an integer''))"
proof -
  have fl: "\<lfloor>(of_int bps :: rat) / 2\<rfloor> = bps div 2"
    using floor_divide_of_int_eq [of bps 2, where ?'a = rat] by simp
  have "(of_int (bps div 2) :: rat) = of_int bps / 2 \<longleftrightarrow> of_int (2 * (bps div 2)) = (of_int bps :: rat)"
    by auto
  also have "\<dots> \<longleftrightarrow> 2 * (bps div 2) = bps" by (rule of_int_eq_iff)
  also have "\<dots> \<longleftrightarrow> even bps" by presburger
  finally show ?thesis by (simp add: bigint_of_number_def fl)
qed

lemma gstComponents_even:
  "even bps \<Longrightarrow> gstComponents base (of_int bps) intra =
     Inr (if intra
          then \<lparr>cgstPaise = half_away (base * (bps div 2)) 10000,
                sgstPaise = half_away (base * (bps div 2)) 10000, igstPaise = 0\<rparr>
          else \<lparr>cgstPaise = 0, sgstPaise = 0, igstPaise = half_away (base * bps) 10000\<rparr>)"
  by (simp add: gstComponents_def percentOf_def [of base "of_int bps / 2"] half_bps_integer roundedDiv_pos)

lemma gstComponents_odd:
  "odd bps \<Longrightarrow> gstComponents base (of_int bps) intra = Inl (RangeError ''not an integer'')"
  by (simp add: gstComponents_def percentOf_def half_bps_integer)

lemma two_halves_arith:
  fixes h f x y :: int
  assumes "2 * \<bar>h * 10000 - x\<bar> \<le> 10000" and "2 * \<bar>f * 10000 - y\<bar> \<le> 10000" and "y = 2 * x"
  shows "\<bar>2 * h - f\<bar> \<le> 1"
proof -
  have "- 5000 \<le> h * 10000 - x" "h * 10000 - x \<le> 5000"
       "- 5000 \<le> f * 10000 - 2 * x" "f * 10000 - 2 * x \<le> 5000"
    using assms by (simp_all add: abs_le_iff)
  then show ?thesis by (simp add: abs_le_iff)
qed

text \<open>Two rounded halves against the rounded whole.\<close>

lemma two_halves:
  assumes "even bps"
  shows "\<bar>2 * half_away (base * (bps div 2)) 10000 - half_away (base * bps) 10000\<bar> \<le> 1"
proof -
  let ?h = "half_away (base * (bps div 2)) 10000" and ?f = "half_away (base * bps) 10000"
  have eq: "base * bps = 2 * (base * (bps div 2))" using assms by simp
  have "2 * \<bar>?h * 10000 - base * (bps div 2)\<bar> \<le> 10000" by (rule half_away_error) simp
  moreover have "2 * \<bar>?f * 10000 - base * bps\<bar> \<le> 10000" by (rule half_away_error) simp
  ultimately show ?thesis using two_halves_arith eq by blast
qed

lemma computeCostLineGst_total:
  "computeCostLineGst base rate intra = Inr g \<Longrightarrow>
   lineTotalPaise g = base + cgstPaise g + sgstPaise g + igstPaise g \<and>
   taxTotalPaise g = cgstPaise g + sgstPaise g + igstPaise g"
  by (auto simp: computeCostLineGst_def Let_def)

lemma gstComponents_split:
  "gstComponents base bps intra = Inr c \<Longrightarrow>
   cgstPaise c = sgstPaise c \<and> (intra \<longrightarrow> igstPaise c = 0) \<and> (\<not> intra \<longrightarrow> cgstPaise c = 0)"
  by (auto simp: gstComponents_def)

lemma computeCostLineGst_components:
  "computeCostLineGst base rate intra = Inr g \<Longrightarrow>
   \<exists>c. gstComponents base (of_int (percentToBasisPoints rate)) intra = Inr c \<and>
       cgstPaise g = cgstPaise c \<and> sgstPaise g = sgstPaise c \<and> igstPaise g = igstPaise c"
  by (auto simp: computeCostLineGst_def Let_def)

text \<open>
  C40: the place of supply decides where the tax goes, not how much it is. At an even
  rate in basis points the intra-state halves are equal and together within one paisa of the
  inter-state tax; an odd rate (say 0.25%) has no integer half and is rejected, the
  inter-state case included.
\<close>

theorem gst_place_of_supply:
  "(odd bps \<longrightarrow> gstComponents base (of_int bps) intra = Inl (RangeError ''not an integer'')) \<and>
   (even bps \<longrightarrow> (\<exists>cgst igst. gstComponents base (of_int bps) True = Inr \<lparr>cgstPaise = cgst, sgstPaise = cgst, igstPaise = 0\<rparr> \<and>
      gstComponents base (of_int bps) False = Inr \<lparr>cgstPaise = 0, sgstPaise = 0, igstPaise = igst\<rparr> \<and>
      \<bar>2 * cgst - igst\<bar> \<le> 1))"
  using gstComponents_odd [of bps] two_halves [of bps base] by (auto simp: gstComponents_even)

theorem gst_place_of_supply_witness:
  "gstComponents 1003 500 True = Inr \<lparr>cgstPaise = 25, sgstPaise = 25, igstPaise = 0\<rparr> \<and>
   gstComponents 1003 500 False = Inr \<lparr>cgstPaise = 0, sgstPaise = 0, igstPaise = 50\<rparr> \<and>
   gstComponents 1003 25 True = Inl (RangeError ''not an integer'')"
proof -
  have "half_away (1003 * (500 div 2)) 10000 = 25" "half_away (1003 * 500) 10000 = 50" by code_simp+
  with gst_place_of_supply [of 500 1003 True] gst_place_of_supply [of 25 1003 True]
    gstComponents_even [of 500 1003]
  show ?thesis by simp
qed

end
