(* ===== verification/Finance.thy ===== *)
theory Finance
  imports Text
begin

text \<open>
  \<open>packages/shared/src/finance.ts\<close>: the enumerations of the financial core, the
  financial-year label, document numbers and the GST place-of-supply test; and the
  arithmetic of the JavaScript \<open>Date\<close> (milliseconds since 1970-01-01 UTC, an \<open>int\<close>)
  that the financial services rely on. The lemmas show that document numbers determine
  their year label and sequence value.
\<close>

section \<open>Enumerations\<close>

datatype booking_status =
    BOOKING_APPLICATION | BOOKING_BOOKED | BOOKING_ALLOTTED | BOOKING_REGISTERED
  | BOOKING_CANCELLED | BOOKING_SURRENDERED | BOOKING_TRANSFERRED_OUT

datatype ledger_entry_type =
    CHARGE | EXTRA_CHARGE | RECEIPT_ALLOC | INTEREST | INTEREST_WAIVER | BOUNCE_REVERSAL
  | BOUNCE_CHARGE | REFUND_APPROVED | REFUND_BOUNCE_REVERSAL | TRANSFER_CARRY_OUT
  | TRANSFER_CARRY_IN | TRANSFER_FEE | CANCELLATION_SETTLEMENT | CANCELLATION_DEDUCTION
  | TDS_RECEIVABLE | TDS_CERT_ADJUSTMENT | ADJUSTMENT

definition COMPANY_LEVY_ENTRY_TYPES :: "ledger_entry_type list" where
  "COMPANY_LEVY_ENTRY_TYPES = [TRANSFER_FEE, CANCELLATION_DEDUCTION, BOUNCE_CHARGE]"

datatype receipt_mode = CASH | CHEQUE | DD | NEFT | RTGS | UPI | CARD

datatype cheque_clearance_status =
    CLEARANCE_NOT_APPLICABLE | CLEARANCE_RECEIVED | CLEARANCE_DEPOSITED
  | CLEARANCE_CLEARED | CLEARANCE_BOUNCED

datatype installment_status = UNPAID | PART_PAID | PAID

datatype milestone_type = DATE_LINKED | STAGE_LINKED

datatype cost_line_kind =
    KIND_BASE | KIND_PLC | KIND_PARKING | KIND_CLUB | KIND_MAINTENANCE | KIND_OTHER

datatype refund_status = REFUND_REQUESTED | REFUND_APPROVED_STATUS | REFUND_PAID | REFUND_REJECTED

datatype cancellation_type = CANCEL | SURRENDER

datatype transfer_type = TRANSFER_UNIT | TRANSFER_APPLICANT

datatype voucher_status = VOUCHER_ISSUED | VOUCHER_CLEARED | VOUCHER_BOUNCED

datatype interest_rate_type = SIMPLE | COMPOUND

section \<open>Dates\<close>

type_synonym date = int

definition DAY_MS :: int where
  "DAY_MS = 86400000"

text \<open>
  The day number of a time value and the proleptic Gregorian year and month it falls in
  (\<open>getUTCFullYear\<close>, \<open>getUTCMonth() + 1\<close>), by the usual 400-year era arithmetic
  with years that start in March.
\<close>

definition utc_day :: "date \<Rightarrow> int" where
  "utc_day t = t div DAY_MS"

definition civil_year_month :: "int \<Rightarrow> int \<times> int" where
  "civil_year_month day =
     (let z = day + 719468;
          era = z div 146097;
          doe = z mod 146097;
          yoe = (doe - doe div 1460 + doe div 36524 - doe div 146096) div 365;
          doy = doe - (365 * yoe + yoe div 4 - yoe div 100);
          mp = (5 * doy + 2) div 153;
          month = (if mp < 10 then mp + 3 else mp - 9)
      in (yoe + era * 400 + (if month \<le> 2 then 1 else 0), month))"

definition getUTCFullYear :: "date \<Rightarrow> int" where
  "getUTCFullYear t = fst (civil_year_month (utc_day t))"

definition getUTCMonth1 :: "date \<Rightarrow> int" where
  "getUTCMonth1 t = snd (civil_year_month (utc_day t))"

text \<open>\<open>Date.UTC(y, m, d)\<close> of a date's own UTC parts: midnight of that day. A \<open>DATE\<close> column keeps this.\<close>

definition toUtcMidnight :: "date \<Rightarrow> date" where
  "toUtcMidnight t = utc_day t * DAY_MS"

definition date_column :: "date \<Rightarrow> date" where
  "date_column t = toUtcMidnight t"

text \<open>\<open>d.setUTCDate(d.getUTCDate() + days)\<close>.\<close>

definition addDays :: "date \<Rightarrow> int \<Rightarrow> date" where
  "addDays t days = t + days * DAY_MS"

lemma utc_day_midnight [simp]: "utc_day (toUtcMidnight t) = utc_day t"
  unfolding toUtcMidnight_def utc_day_def DAY_MS_def by simp

lemma toUtcMidnight_idem [simp]: "toUtcMidnight (toUtcMidnight t) = toUtcMidnight t"
  by (metis toUtcMidnight_def utc_day_midnight)

lemma toUtcMidnight_le: "toUtcMidnight t \<le> t"
  unfolding toUtcMidnight_def utc_day_def DAY_MS_def by simp

lemma utc_day_addDays [simp]: "utc_day (addDays t k) = utc_day t + k"
  by (simp add: utc_day_def addDays_def DAY_MS_def)

lemma civil_samples:
  "civil_year_month 0 = (1970, 1)" "civil_year_month 20605 = (2026, 6)"
  "civil_year_month 20850 = (2027, 2)" "civil_year_month 11016 = (2000, 2)"
  by code_simp+

section \<open>Financial year and document numbers\<close>

definition financialYearLabel :: "date \<Rightarrow> int \<Rightarrow> string" where
  "financialYearLabel d fyStartMonth =
     (let y = getUTCFullYear d;
          m = getUTCMonth1 d;
          startYear = (if m \<ge> fyStartMonth then y else y - 1);
          endYY = padStart 2 (CHR ''0'') (show_int ((startYear + 1) smod 100))
      in show_int startYear @ ''-'' @ endYY)"

definition formatReceiptNumber :: "string \<Rightarrow> nat \<Rightarrow> string" where
  "formatReceiptNumber fyLabel seq = ''RCP/'' @ fyLabel @ ''/'' @ padStart 6 (CHR ''0'') (show_nat seq)"

definition formatBookingNumber :: "string \<Rightarrow> nat \<Rightarrow> string" where
  "formatBookingNumber fyLabel seq = ''BKG/'' @ fyLabel @ ''/'' @ padStart 6 (CHR ''0'') (show_nat seq)"

lemma padded_number_inject:
  "padStart 6 (CHR ''0'') (show_nat a) = padStart 6 (CHR ''0'') (show_nat b) \<longleftrightarrow> a = b"
  by (metis digits_val_padStart digits_val_show_nat)

text \<open>A separator absent from both parts makes the split unique.\<close>

lemma split_at_separator:
  assumes "xs @ c # ys = xs' @ c # ys'" and "c \<notin> set ys" and "c \<notin> set ys'"
  shows "xs = xs' \<and> ys = ys'"
proof -
  have "rev ys @ c # rev xs = rev ys' @ c # rev xs'"
    using assms(1) by (metis append.assoc append_Cons append_Nil rev.simps(2) rev_append)
  moreover have "takeWhile (\<lambda>x. x \<noteq> c) (rev zs @ c # ws) = rev zs" if "c \<notin> set zs" for zs ws
    using that by (subst takeWhile_append2) auto
  ultimately have "rev ys = rev ys'" using assms(2,3) by metis
  with assms(1) show ?thesis by simp
qed

lemma slash_not_in_padded: "CHR ''/'' \<notin> set (padStart 6 (CHR ''0'') (show_nat n))"
proof -
  have "list_all is_digit (padStart 6 (CHR ''0'') (show_nat n))" by simp
  then show ?thesis by (auto simp: list_all_iff is_digit_def simp del: list_all_digit_padStart)
qed

lemma formatReceiptNumber_inject:
  "formatReceiptNumber fy n = formatReceiptNumber fy' n' \<longleftrightarrow> fy = fy' \<and> n = n'"
proof
  assume "formatReceiptNumber fy n = formatReceiptNumber fy' n'"
  then have "fy @ CHR ''/'' # padStart 6 (CHR ''0'') (show_nat n)
           = fy' @ CHR ''/'' # padStart 6 (CHR ''0'') (show_nat n')"
    by (simp add: formatReceiptNumber_def)
  from split_at_separator [OF this slash_not_in_padded slash_not_in_padded]
  show "fy = fy' \<and> n = n'" by (simp add: padded_number_inject)
qed simp

lemma formatBookingNumber_inject:
  "formatBookingNumber fy n = formatBookingNumber fy' n' \<longleftrightarrow> fy = fy' \<and> n = n'"
proof
  assume "formatBookingNumber fy n = formatBookingNumber fy' n'"
  then have "fy @ CHR ''/'' # padStart 6 (CHR ''0'') (show_nat n)
           = fy' @ CHR ''/'' # padStart 6 (CHR ''0'') (show_nat n')"
    by (simp add: formatBookingNumber_def)
  from split_at_separator [OF this slash_not_in_padded slash_not_in_padded]
  show "fy = fy' \<and> n = n'" by (simp add: padded_number_inject)
qed simp

section \<open>Place of supply\<close>

text \<open>A state code is missing when it is null or the empty string.\<close>

definition missing :: "string option \<Rightarrow> bool" where
  "missing s \<longleftrightarrow> s = None \<or> s = Some ''''"

definition isIntraStateSupply :: "string option \<Rightarrow> string option \<Rightarrow> bool result" where
  "isIntraStateSupply companyStateCode placeOfSupplyStateCode =
     (if missing companyStateCode then Inl (JsError ''company GST state code is not set'')
      else if missing placeOfSupplyStateCode then Inl (JsError ''place-of-supply state code is not set'')
      else Inr (companyStateCode = placeOfSupplyStateCode))"

text \<open>The services rethrow its error as a \<open>BadRequestException\<close>.\<close>

definition intraStateOrBadRequest :: "string option \<Rightarrow> string option \<Rightarrow> bool result" where
  "intraStateOrBadRequest a b =
     (case isIntraStateSupply a b of
        Inl (JsError m) \<Rightarrow> Inl (BadRequest m)
      | r \<Rightarrow> r)"

lemma intraStateOrBadRequest_Inr:
  "intraStateOrBadRequest a b = Inr i \<longleftrightarrow> \<not> missing a \<and> \<not> missing b \<and> i = (a = b)"
  by (auto simp: intraStateOrBadRequest_def isIntraStateSupply_def)

end
