(* ===== verification/Area.thy ===== *)
theory Area
  imports Text Rounding
begin

text \<open>
  \<open>packages/shared/src/area.ts\<close>: land areas as fixed-point integers. Entered areas are
  scaled by 10^6 and the square feet of one unit by 10^10. The lemmas show that the
  module's own rounding division meets the \<open>rounding\<close> contract, that pricing in the
  entered unit cancels the conversion factor, that conversion to square feet and back is
  the identity for every unit, and that printing and reading a scaled area round-trip.
\<close>

datatype area_unit = SQFT | SQYD | SQM | ACRE | GUNTA

definition AREA_UNITS :: "area_unit list" where
  "AREA_UNITS = [SQFT, SQYD, SQM, ACRE, GUNTA]"

definition AREA_SCALE :: int where
  "AREA_SCALE = 1000000"

definition SQFT_SCALE :: int where
  "SQFT_SCALE = 10000000000"

fun SQFT_PER_UNIT_SCALED :: "area_unit \<Rightarrow> int" where
  "SQFT_PER_UNIT_SCALED SQFT = 10000000000"
| "SQFT_PER_UNIT_SCALED SQYD = 90000000000"
| "SQFT_PER_UNIT_SCALED GUNTA = 10890000000000"
| "SQFT_PER_UNIT_SCALED ACRE = 435600000000000"
| "SQFT_PER_UNIT_SCALED SQM = 107639104167"

lemma sqft_factor_pos [simp]: "0 < SQFT_PER_UNIT_SCALED u"
  by (cases u) simp_all

lemma area_scale_pos [simp]: "0 < AREA_SCALE" "0 < SQFT_SCALE"
  by (simp_all add: AREA_SCALE_def SQFT_SCALE_def)

section \<open>Rounded division\<close>

definition divRoundHalfUp :: "int \<Rightarrow> int \<Rightarrow> int result" where
  "divRoundHalfUp num den =
     (if den = 0 then Inl (JsError ''divRoundHalfUp: division by zero'')
      else
        let negative = ((num < 0) \<noteq> (den < 0));
            absNum = (if num < 0 then - num else num);
            absDen = (if den < 0 then - den else den);
            quotient = absNum sdiv absDen;
            remainder = absNum smod absDen;
            rounded = (if remainder * 2 \<ge> absDen then quotient + 1 else quotient)
        in Inr (if negative then - rounded else rounded))"

lemma half_up_split:
  fixes d r m q :: int
  assumes "0 < d" "0 \<le> r" "r < d" and m: "m = q * d + r"
  shows "(2 * m + d) div (2 * d) = (if r * 2 \<ge> d then q + 1 else q)"
proof -
  have "2 * m + d = q * (2 * d) + (2 * r + d)" using m by (simp add: algebra_simps)
  moreover have "2 * d \<noteq> 0" using assms(1) by simp
  ultimately have "(2 * m + d) div (2 * d) = q + (2 * r + d) div (2 * d)"
    by (metis div_mult_self3)
  moreover have "(2 * r + d) div (2 * d) = (if r * 2 \<ge> d then 1 else 0)"
  proof (cases "r * 2 \<ge> d")
    case True
    with assms have "2 * r + d = 2 * d * 1 + (2 * r - d)" "0 \<le> 2 * r - d" "2 * r - d < 2 * d"
      by simp_all
    then have "(2 * r + d) div (2 * d) = 1" by (rule int_div_pos_eq)
    with True show ?thesis by simp
  next
    case False
    with assms show ?thesis by simp
  qed
  ultimately show ?thesis by simp
qed

lemma quotient_round_up:
  fixes n d :: int
  assumes "0 \<le> n" and "0 < d"
  shows "(if (n mod d) * 2 \<ge> d then n div d + 1 else n div d) = half_away n d"
proof -
  have "(2 * n + d) div (2 * d) = (if (n mod d) * 2 \<ge> d then n div d + 1 else n div d)"
    by (rule half_up_split) (use assms in simp_all)
  with assms(1) show ?thesis by (simp only: half_away_def if_True)
qed

lemma divRoundHalfUp_pos:
  assumes "0 < d"
  shows "divRoundHalfUp n d = Inr (half_away n d)"
proof (cases "n < 0")
  case True
  then have "divRoundHalfUp n d =
      Inr (- (if ((- n) smod d) * 2 \<ge> d then (- n) sdiv d + 1 else (- n) sdiv d))"
    using assms by (simp only: divRoundHalfUp_def Let_def) simp
  also have "\<dots> = Inr (- half_away (- n) d)"
    using True assms quotient_round_up [of "- n" d] sdiv_nonneg [of "- n" d] smod_nonneg [of "- n" d]
    by (simp only: neg_0_le_iff_le less_imp_le)
  finally show ?thesis using assms by simp
next
  case False
  then show ?thesis
    using assms quotient_round_up [of n d]
    by (simp add: divRoundHalfUp_def Let_def sdiv_nonneg smod_nonneg split: if_splits)
qed

interpretation area: rounding divRoundHalfUp
proof unfold_locales
  show "0 < d \<Longrightarrow> divRoundHalfUp n d = Inr (half_away n d)" for n d by (rule divRoundHalfUp_pos)
  show "divRoundHalfUp n d = Inr (half_away (- n) (- d))" if "d < 0" for n d
  proof (cases "n = 0")
    case True
    with that show ?thesis by (simp add: divRoundHalfUp_def smod_nonneg sdiv_nonneg)
  next
    case False
    with that have "divRoundHalfUp n d = divRoundHalfUp (- n) (- d)"
      by (auto simp: divRoundHalfUp_def Let_def)
    with that show ?thesis by (simp add: divRoundHalfUp_pos)
  qed
  show "\<exists>e. divRoundHalfUp n 0 = Inl e" for n by (simp add: divRoundHalfUp_def)
qed

section \<open>Conversion and pricing\<close>

definition convertToSqftScaled :: "int \<Rightarrow> area_unit \<Rightarrow> int result" where
  "convertToSqftScaled enteredScaled enteredUnit =
     (let numerator = enteredScaled * SQFT_PER_UNIT_SCALED enteredUnit
      in divRoundHalfUp numerator SQFT_SCALE)"

definition convertFromSqftScaled :: "int \<Rightarrow> area_unit \<Rightarrow> int result" where
  "convertFromSqftScaled sqftScaled targetUnit =
     (let numerator = sqftScaled * SQFT_SCALE
      in divRoundHalfUp numerator (SQFT_PER_UNIT_SCALED targetUnit))"

definition computeBaseAmountPaise :: "int \<Rightarrow> area_unit \<Rightarrow> int \<Rightarrow> area_unit \<Rightarrow> int result" where
  "computeBaseAmountPaise ratePaise rateUnit landAreaEnteredScaled landAreaEnteredUnit =
     (let numerator = ratePaise * landAreaEnteredScaled * SQFT_PER_UNIT_SCALED landAreaEnteredUnit;
          denominator = AREA_SCALE * SQFT_PER_UNIT_SCALED rateUnit
      in divRoundHalfUp numerator denominator)"

lemma convertToSqftScaled_eq:
  "convertToSqftScaled x u = Inr (half_away (x * SQFT_PER_UNIT_SCALED u) SQFT_SCALE)"
  by (simp add: convertToSqftScaled_def divRoundHalfUp_pos)

lemma computeBaseAmountPaise_eq:
  "computeBaseAmountPaise rate ru x eu =
     Inr (half_away (rate * x * SQFT_PER_UNIT_SCALED eu) (AREA_SCALE * SQFT_PER_UNIT_SCALED ru))"
  by (simp add: computeBaseAmountPaise_def divRoundHalfUp_pos)

lemma computeBaseAmountPaise_matched:
  "computeBaseAmountPaise rate u x u = Inr (half_away (rate * x) AREA_SCALE)"
proof -
  have "half_away (SQFT_PER_UNIT_SCALED u * (rate * x)) (SQFT_PER_UNIT_SCALED u * AREA_SCALE)
      = half_away (rate * x) AREA_SCALE"
    by (rule half_away_scale) simp_all
  then show ?thesis by (simp add: computeBaseAmountPaise_eq mult.commute)
qed

lemma sqft_scale_or_less:
  "SQFT_PER_UNIT_SCALED u = SQFT_SCALE \<or> SQFT_SCALE < SQFT_PER_UNIT_SCALED u"
  by (cases u) (simp_all add: SQFT_SCALE_def)

lemma sqft_round_trip:
  assumes "convertToSqftScaled x u = Inr y"
  shows "convertFromSqftScaled y u = Inr x"
proof -
  let ?F = "SQFT_PER_UNIT_SCALED u"
  have y: "y = half_away (x * ?F) SQFT_SCALE" using assms by (simp add: convertToSqftScaled_eq)
  have "half_away (y * SQFT_SCALE) ?F = x"
  proof (cases "?F = SQFT_SCALE")
    case True
    then show ?thesis using y area_scale_pos(2) by simp
  next
    case False
    have "2 * \<bar>y * SQFT_SCALE - x * ?F\<bar> \<le> SQFT_SCALE"
      unfolding y by (rule half_away_error) simp
    moreover have "SQFT_SCALE < ?F" using False sqft_scale_or_less [of u] by simp
    ultimately have "2 * \<bar>x * ?F - y * SQFT_SCALE\<bar> < ?F"
      by (simp add: abs_minus_commute)
    then show ?thesis by (rule half_away_unique [OF sqft_factor_pos])
  qed
  then show ?thesis by (simp add: convertFromSqftScaled_def divRoundHalfUp_pos)
qed

section \<open>Text form\<close>

text \<open>\<open>BigInt(s)\<close>: white space trimmed, the empty string is zero, a hexadecimal,
  octal or binary prefix selects the radix, a decimal number may have a sign.\<close>

definition hex_digit :: "char \<Rightarrow> nat option" where
  "hex_digit c =
     (let n = of_char c :: nat
      in if is_digit c then Some (digit_val c)
         else if 97 \<le> n \<and> n \<le> 102 then Some (n - 87)
         else if 65 \<le> n \<and> n \<le> 70 then Some (n - 55)
         else None)"

fun radix_digits :: "nat \<Rightarrow> nat \<Rightarrow> string \<Rightarrow> nat option" where
  "radix_digits r v [] = Some v"
| "radix_digits r v (c # cs) =
     (case hex_digit c of
        Some d \<Rightarrow> if d < r then radix_digits r (r * v + d) cs else None
      | None \<Rightarrow> None)"

definition radix_nat :: "nat \<Rightarrow> string \<Rightarrow> int result" where
  "radix_nat r s =
     (case (if s = [] then None else radix_digits r 0 s) of
        Some n \<Rightarrow> Inr (int n)
      | None \<Rightarrow> Inl (JsError ''SyntaxError''))"

definition bigint_of_string :: "string \<Rightarrow> int result" where
  "bigint_of_string s =
     (let t = trim s
      in if t = [] then Inr 0
         else if take 2 t \<in> {''0x'', ''0X''} then radix_nat 16 (drop 2 t)
         else if take 2 t \<in> {''0o'', ''0O''} then radix_nat 8 (drop 2 t)
         else if take 2 t \<in> {''0b'', ''0B''} then radix_nat 2 (drop 2 t)
         else if hd t = CHR ''-'' then bindE (radix_nat 10 (tl t)) (\<lambda>n. Inr (- n))
         else if hd t = CHR ''+'' then radix_nat 10 (tl t)
         else radix_nat 10 t)"

lemma radix_digits_decimal:
  "list_all is_digit s \<Longrightarrow> radix_digits 10 v s = Some (v * 10 ^ length s + digits_val s)"
proof (induction s arbitrary: v)
  case (Cons c s)
  have "digits_val ([c] @ s) = digit_val c * 10 ^ length s + digits_val s"
    unfolding digits_val_append by (simp add: digits_val_def)
  then show ?case using Cons by (simp add: hex_digit_def algebra_simps)
qed simp

lemma digit_no_space: "is_digit c \<Longrightarrow> \<not> is_space c"
  by (auto simp: is_digit_def is_space_def)

lemma digits_hd_last:
  assumes "list_all is_digit s" and "s \<noteq> []"
  shows "is_digit (hd s)" and "is_digit (last s)"
  using assms by (auto simp: list_all_iff)

lemma second_digit:
  assumes "list_all is_digit s"
  shows "take 2 s \<notin> {''0x'', ''0X'', ''0o'', ''0O'', ''0b'', ''0B''}"
proof -
  have "list_all is_digit (take 2 s)"
    using assms by (meson in_set_takeD list_all_iff)
  then show ?thesis by (auto simp: is_digit_def)
qed

lemma bigint_of_string_digits:
  assumes "list_all is_digit s" and "s \<noteq> []"
  shows "bigint_of_string s = Inr (int (digits_val s))"
proof -
  have t: "trim s = s"
    using digits_hd_last [OF assms] digit_no_space assms(2) by (intro trim_id) auto
  have "hd s \<noteq> CHR ''-''" "hd s \<noteq> CHR ''+''"
    using digits_hd_last(1) [OF assms] by (auto simp: is_digit_def)
  moreover have "take 2 s \<notin> {''0x'', ''0X''}" "take 2 s \<notin> {''0o'', ''0O''}" "take 2 s \<notin> {''0b'', ''0B''}"
    using second_digit [OF assms(1)] by blast+
  ultimately show ?thesis
    using assms t by (simp only: bigint_of_string_def Let_def t if_False)
       (simp add: radix_nat_def radix_digits_decimal)
qed

text \<open>\<open>Number(c)\<close> of one character, with \<open>None\<close> for \<open>NaN\<close>; the carry
  loop over the reversed digits, \<open>None\<close> once a \<open>NaN\<close> got into them.\<close>

definition number_of_char :: "char \<Rightarrow> nat option" where
  "number_of_char c =
     (if is_digit c then Some (digit_val c) else if is_space c then Some 0 else None)"

fun carry_loop :: "char list \<Rightarrow> (char list \<times> bool) option" where
  "carry_loop [] = Some ([], True)"
| "carry_loop (c # cs) =
     (case number_of_char c of
        None \<Rightarrow> None
      | Some n \<Rightarrow>
          let d = n + 1
          in if d < 10 then Some (digit_char d # cs, False)
             else map_option (\<lambda>(r, k). (digit_char (d mod 10) # r, k)) (carry_loop cs))"

definition round_up_seventh :: "string \<Rightarrow> bool" where
  "round_up_seventh s \<longleftrightarrow>
     6 < length s \<and> (case number_of_char (s ! 6) of Some d \<Rightarrow> 5 \<le> d | None \<Rightarrow> False)"

datatype area_value = AreaBigint int | AreaText string

fun toAreaScaled :: "area_value \<Rightarrow> int result" where
  "toAreaScaled (AreaBigint k) = Inr k"
| "toAreaScaled (AreaText s) =
     (let t = trim s;
          whole = takeWhile (\<lambda>c. c \<noteq> CHR ''.'') t;
          frac = takeWhile (\<lambda>c. c \<noteq> CHR ''.'') (drop 1 (dropWhile (\<lambda>c. c \<noteq> CHR ''.'') t));
          isNegative = (whole \<noteq> [] \<and> hd whole = CHR ''-'');
          sign = (if isNegative then -1 else 1 :: int);
          wholeAbs = (let w = (if isNegative then tl whole else whole) in if w = [] then ''0'' else w);
          fracDigits = padEnd 6 (CHR ''0'') (take 6 frac)
      in if round_up_seventh frac
         then (case carry_loop (rev fracDigits) of
                 None \<Rightarrow> Inl (JsError ''SyntaxError'')
               | Some (arr, carry) \<Rightarrow>
                   bindE (bigint_of_string wholeAbs) (\<lambda>w.
                     if carry then Inr (sign * (w + 1) * AREA_SCALE)
                     else bindE (bigint_of_string (rev arr)) (\<lambda>f.
                            Inr (sign * (w * AREA_SCALE + f)))))
         else bindE (bigint_of_string wholeAbs) (\<lambda>w.
              bindE (bigint_of_string fracDigits) (\<lambda>f.
                Inr (sign * (w * AREA_SCALE + f)))))"

definition strip_trailing_zeros :: "string \<Rightarrow> string" where
  "strip_trailing_zeros s = rev (dropWhile (\<lambda>c. c = CHR ''0'') (rev s))"

definition fromAreaScaled :: "int \<Rightarrow> string" where
  "fromAreaScaled scaled =
     (let negative = scaled < 0;
          abs = (if negative then - scaled else scaled);
          whole = abs sdiv AREA_SCALE;
          frac = abs smod AREA_SCALE;
          fracStr = strip_trailing_zeros (padStart 6 (CHR ''0'') (show_int frac));
          body = (if 0 < length fracStr then show_int whole @ ''.'' @ fracStr else show_int whole)
      in if negative then ''-'' @ body else body)"

definition formatFixed :: "int \<Rightarrow> nat \<Rightarrow> string" where
  "formatFixed scaled digits =
     (let negative = scaled < 0;
          abs = (if negative then - scaled else scaled);
          whole = abs sdiv AREA_SCALE;
          frac = abs smod AREA_SCALE;
          fracPadded = padStart 6 (CHR ''0'') (show_int frac);
          truncated = take digits fracPadded;
          body = (if 0 < digits then show_int whole @ ''.'' @ truncated else show_int whole)
      in if negative then ''-'' @ body else body)"

fun displayLabel :: "area_unit \<Rightarrow> string" where
  "displayLabel SQFT = ''sq ft''"
| "displayLabel SQYD = ''sq yd''"
| "displayLabel SQM = ''sq m''"
| "displayLabel ACRE = ''acre''"
| "displayLabel GUNTA = ''gunta''"

definition formatArea :: "int \<Rightarrow> area_unit \<Rightarrow> string" where
  "formatArea scaled unit =
     (let isInteger = (scaled smod AREA_SCALE = 0);
          digits = (if isInteger then 0 else 2)
      in formatFixed scaled digits @ '' '' @ displayLabel unit)"

section \<open>Round trip\<close>

lemma strip_trailing_zeros_decomp:
  "\<exists>k. z = strip_trailing_zeros z @ replicate k (CHR ''0'')"
proof -
  let ?p = "\<lambda>c. c = CHR ''0''"
  have "replicate (length (takeWhile ?p (rev z))) (CHR ''0'') = takeWhile ?p (rev z)"
    by (rule replicate_length_same) (auto dest: set_takeWhileD)
  then have "rev z = replicate (length (takeWhile ?p (rev z))) (CHR ''0'') @ dropWhile ?p (rev z)"
    by simp
  then have "rev (rev z) = rev (replicate (length (takeWhile ?p (rev z))) (CHR ''0'') @ dropWhile ?p (rev z))"
    by (rule arg_cong)
  then show ?thesis by (auto simp: strip_trailing_zeros_def)
qed

lemma strip_pad: "padEnd (length z) (CHR ''0'') (strip_trailing_zeros z) = z"
proof -
  obtain k where k: "z = strip_trailing_zeros z @ replicate k (CHR ''0'')"
    using strip_trailing_zeros_decomp by blast
  from arg_cong [OF k, of length] have "length z - length (strip_trailing_zeros z) = k" by simp
  with k show ?thesis by (simp add: padEnd_def)
qed

lemma strip_digits:
  assumes "list_all is_digit z"
  shows "list_all is_digit (strip_trailing_zeros z)"
  using assms unfolding strip_trailing_zeros_def
  by (metis list_all_append rev_append rev_rev_ident takeWhile_dropWhile_id)

lemma length_strip: "length (strip_trailing_zeros z) \<le> length z"
  unfolding strip_trailing_zeros_def by (metis length_dropWhile_le length_rev)

lemma digits_no_dot: "list_all is_digit s \<Longrightarrow> \<forall>c\<in>set s. c \<noteq> CHR ''.''"
  by (auto simp: list_all_iff)

lemma toAreaScaled_plain:
  fixes s w f :: string
  assumes s: "s = (if neg then ''-'' else '''') @ w @ (if f = [] then '''' else CHR ''.'' # f)"
    and w: "list_all is_digit w" "w \<noteq> []"
    and f: "list_all is_digit f" "length f \<le> 6"
  shows "toAreaScaled (AreaText s) =
    Inr ((if neg then -1 else 1) * (int (digits_val w) * AREA_SCALE
          + int (digits_val (padEnd 6 (CHR ''0'') f))))"
proof -
  let ?h = "(if neg then ''-'' else '''') @ w"
  have wd: "\<forall>c\<in>set ?h. c \<noteq> CHR ''.''" using w(1) by (auto simp: list_all_iff)
  have fd: "\<forall>c\<in>set f. c \<noteq> CHR ''.''" using f(1) by (rule digits_no_dot)
  have "\<not> is_space (CHR ''-'')" by (simp add: is_space_def)
  then have "\<not> is_space (hd s)" "\<not> is_space (last s)" "s \<noteq> []"
    using digits_hd_last [OF w, THEN digit_no_space] digits_hd_last(2) [OF f(1), THEN digit_no_space] w(2)
    by (auto simp: s)
  then have t: "trim s = s" by (intro trim_id)
  have tw: "takeWhile (\<lambda>c. c \<noteq> CHR ''.'') s = ?h"
    using wd unfolding s append_assoc [symmetric] by (subst takeWhile_append2) auto
  have dw: "dropWhile (\<lambda>c. c \<noteq> CHR ''.'') s = (if f = [] then '''' else CHR ''.'' # f)"
    using wd unfolding s append_assoc [symmetric] by (subst dropWhile_append2) auto
  have fr: "takeWhile (\<lambda>c. c \<noteq> CHR ''.'') (drop 1 (dropWhile (\<lambda>c. c \<noteq> CHR ''.'') s)) = f"
    using fd by (auto simp: dw takeWhile_eq_all_conv)
  have neg: "(?h \<noteq> [] \<and> hd ?h = CHR ''-'') = neg"
    using digits_hd_last(1) [OF w] by (auto simp: w(2))
  have tail: "(if neg then tl ?h else ?h) = w" by simp
  have pad: "list_all is_digit (padEnd 6 (CHR ''0'') f)" "padEnd 6 (CHR ''0'') f \<noteq> []"
    using f by (auto simp: padEnd_def)
  have r: "round_up_seventh f = False" using f(2) by (simp add: round_up_seventh_def)
  have tk: "take 6 f = f" using f(2) by simp
  show ?thesis
    unfolding toAreaScaled.simps Let_def t tw fr neg tail r tk
    by (simp only: bigint_of_string_digits [OF w] bigint_of_string_digits [OF pad] w(2) if_False bindE_Inr)
qed

lemma area_parts:
  fixes a :: int
  assumes "0 \<le> a"
  shows "a sdiv AREA_SCALE = a div AREA_SCALE" "a smod AREA_SCALE = a mod AREA_SCALE"
    "0 \<le> a div AREA_SCALE" "0 \<le> a mod AREA_SCALE" "a mod AREA_SCALE < 1000000"
  using assms by (simp_all add: sdiv_nonneg smod_nonneg AREA_SCALE_def)

lemma area_text_abs:
  fixes a :: int
  assumes "0 \<le> a"
  defines "w \<equiv> show_nat (nat (a div AREA_SCALE))"
    and "z \<equiv> padStart 6 (CHR ''0'') (show_nat (nat (a mod AREA_SCALE)))"
  shows "toAreaScaled (AreaText ((if neg then ''-'' else '''') @ w @
           (if strip_trailing_zeros z = [] then '''' else CHR ''.'' # strip_trailing_zeros z)))
         = Inr ((if neg then -1 else 1) * a)"
proof -
  note parts = area_parts [OF assms(1)]
  have "nat (a mod AREA_SCALE) < 10 ^ 6" using parts(5) by simp
  then have "length (show_nat (nat (a mod AREA_SCALE))) \<le> 6" by (rule length_show_nat_le) simp
  then have len: "length z = 6" by (simp add: z_def)
  have val: "digits_val (padEnd 6 (CHR ''0'') (strip_trailing_zeros z)) = nat (a mod AREA_SCALE)"
    using strip_pad [of z] unfolding len by (simp add: z_def)
  have "list_all is_digit (strip_trailing_zeros z)" by (rule strip_digits) (simp add: z_def)
  then have "toAreaScaled (AreaText ((if neg then ''-'' else '''') @ w @
           (if strip_trailing_zeros z = [] then '''' else CHR ''.'' # strip_trailing_zeros z)))
     = Inr ((if neg then -1 else 1) * (int (digits_val w) * AREA_SCALE + int (nat (a mod AREA_SCALE))))"
    using length_strip [of z] len unfolding val [symmetric]
    by (intro toAreaScaled_plain [OF refl]) (simp_all add: w_def)
  moreover have "int (digits_val w) * AREA_SCALE + int (nat (a mod AREA_SCALE)) = a"
    using parts by (simp add: w_def)
  ultimately show ?thesis by simp
qed

lemma fromAreaScaled_text:
  fixes n :: int
  defines "a \<equiv> \<bar>n\<bar>"
  defines "z \<equiv> padStart 6 (CHR ''0'') (show_nat (nat (a mod AREA_SCALE)))"
  shows "fromAreaScaled n = (if n < 0 then ''-'' else '''') @ show_nat (nat (a div AREA_SCALE)) @
           (if strip_trailing_zeros z = [] then '''' else CHR ''.'' # strip_trailing_zeros z)"
proof -
  have abs: "(if n < 0 then - n else n) = a" by (simp add: a_def)
  have "0 \<le> a" by (simp add: a_def)
  note parts = area_parts [OF this]
  have show_parts: "show_int (a div AREA_SCALE) = show_nat (nat (a div AREA_SCALE))"
    "show_int (a mod AREA_SCALE) = show_nat (nat (a mod AREA_SCALE))"
    using parts(3,4) by (simp_all add: show_int_def not_less)
  show ?thesis
    unfolding fromAreaScaled_def Let_def abs parts(1,2) show_parts z_def [symmetric] by simp
qed

lemma toAreaScaled_fromAreaScaled: "toAreaScaled (AreaText (fromAreaScaled n)) = Inr n"
proof -
  have "(if n < 0 then -1 else 1) * \<bar>n\<bar> = n" by simp
  with area_text_abs [of "\<bar>n\<bar>" "n < 0"] show ?thesis
    unfolding fromAreaScaled_text by (simp only: abs_ge_zero)
qed

text \<open>
  An area printed as text parses back to itself, negative and fractional areas
  included.
\<close>

theorem area_text_roundtrip: "toAreaScaled (AreaText (fromAreaScaled n)) = Inr n"
  by (rule toAreaScaled_fromAreaScaled)

end
