(* ===== verification/Aadhaar.thy ===== *)
theory Aadhaar
  imports Text
begin

text \<open>
  \<open>packages/shared/src/aadhaar-guard.ts\<close>: the Verhoeff checksum, the scan for
  Aadhaar-like numbers in free text and the two rewrites built on it (redact, mask). The
  lemmas show that the check digit completes a valid number and that the checksum detects
  every single-digit error and every transposition of neighbours. The keyword layer
  (\<open>containsAadhaarKeyword\<close>) rests on Unicode normalisation and is not modelled.
\<close>

section \<open>The checksum\<close>

definition D :: "nat list list" where
  "D = [[0, 1, 2, 3, 4, 5, 6, 7, 8, 9],
        [1, 2, 3, 4, 0, 6, 7, 8, 9, 5],
        [2, 3, 4, 0, 1, 7, 8, 9, 5, 6],
        [3, 4, 0, 1, 2, 8, 9, 5, 6, 7],
        [4, 0, 1, 2, 3, 9, 5, 6, 7, 8],
        [5, 9, 8, 7, 6, 0, 4, 3, 2, 1],
        [6, 5, 9, 8, 7, 1, 0, 4, 3, 2],
        [7, 6, 5, 9, 8, 2, 1, 0, 4, 3],
        [8, 7, 6, 5, 9, 3, 2, 1, 0, 4],
        [9, 8, 7, 6, 5, 4, 3, 2, 1, 0]]"

definition P :: "nat list list" where
  "P = [[0, 1, 2, 3, 4, 5, 6, 7, 8, 9],
        [1, 5, 7, 6, 2, 8, 3, 0, 9, 4],
        [5, 8, 0, 3, 7, 9, 6, 1, 4, 2],
        [8, 9, 1, 6, 0, 4, 3, 5, 2, 7],
        [9, 4, 5, 3, 1, 2, 6, 8, 7, 0],
        [4, 2, 8, 6, 5, 7, 3, 9, 0, 1],
        [2, 7, 9, 3, 8, 0, 6, 4, 1, 5],
        [7, 0, 4, 6, 9, 1, 3, 2, 5, 8]]"

definition INV :: "nat list" where
  "INV = [0, 4, 3, 2, 1, 5, 6, 7, 8, 9]"

text \<open>
  Both loops run over the digits from the right; \<open>i\<close> is the loop counter and the
  list holds the digits still to come, rightmost first. The inputs are strings of 0-9.
\<close>

fun verhoeff_loop :: "nat \<Rightarrow> nat \<Rightarrow> nat list \<Rightarrow> nat" where
  "verhoeff_loop i c [] = c"
| "verhoeff_loop i c (x # xs) = verhoeff_loop (i + 1) (D ! c ! (P ! (i mod 8) ! x)) xs"

definition verhoeffCheckDigit :: "string \<Rightarrow> nat" where
  "verhoeffCheckDigit digits = INV ! verhoeff_loop 1 0 (map digit_val (rev digits))"

definition isValidVerhoeff :: "string \<Rightarrow> bool" where
  "isValidVerhoeff digits \<longleftrightarrow> verhoeff_loop 0 0 (map digit_val (rev digits)) = 0"

definition digits10 :: "nat list" where
  "digits10 = [0, 1, 2, 3, 4, 5, 6, 7, 8, 9]"

lemma set_digits10: "set digits10 = {..<10}"
  by (auto simp: digits10_def)

lemma all_digits10: "list_all p digits10 \<Longrightarrow> a < 10 \<Longrightarrow> p a"
  using set_digits10 by (auto simp: list_all_iff)

lemma D_table:
  "list_all (\<lambda>a. list_all (\<lambda>b. D ! a ! b < 10) digits10) digits10"
  "list_all (\<lambda>a. distinct (map (\<lambda>b. D ! a ! b) digits10)) digits10"
  "list_all (\<lambda>b. distinct (map (\<lambda>a. D ! a ! b) digits10)) digits10"
  "list_all (\<lambda>a. list_all (\<lambda>b. list_all (\<lambda>c. D ! (D ! a ! b) ! c = D ! a ! (D ! b ! c))
     digits10) digits10) digits10"
  "list_all (\<lambda>a. D ! 0 ! a = a \<and> D ! (INV ! a) ! a = 0 \<and> D ! a ! (INV ! a) = 0 \<and> INV ! a < 10) digits10"
  by code_simp+

lemma P_table:
  "list_all (\<lambda>i. list_all (\<lambda>a. P ! i ! a < 10) digits10) [0..<8]"
  "list_all (\<lambda>i. distinct (map (\<lambda>a. P ! i ! a) digits10)) [0..<8]"
  "list_all (\<lambda>i. list_all (\<lambda>a. list_all (\<lambda>b. a = b \<or>
     D ! (P ! i ! a) ! (P ! ((i + 1) mod 8) ! b) \<noteq> D ! (P ! i ! b) ! (P ! ((i + 1) mod 8) ! a))
     digits10) digits10) [0..<8]"
  by code_simp+

lemma D_closed: "a < 10 \<Longrightarrow> b < 10 \<Longrightarrow> D ! a ! b < 10"
  using D_table(1) by (blast dest: all_digits10)

lemma D_assoc:
  assumes "a < 10" "b < 10" "c < 10"
  shows "D ! (D ! a ! b) ! c = D ! a ! (D ! b ! c)"
  using all_digits10 [OF all_digits10 [OF all_digits10 [OF D_table(4) assms(1)] assms(2)] assms(3)] .

lemma distinct_map_digits10:
  "distinct (map f digits10) \<Longrightarrow> a < 10 \<Longrightarrow> b < 10 \<Longrightarrow> f a = f b \<longleftrightarrow> a = b"
  using set_digits10 by (auto simp: distinct_map inj_on_def)

lemma D_cancel_left: "a < 10 \<Longrightarrow> b < 10 \<Longrightarrow> c < 10 \<Longrightarrow> D ! a ! b = D ! a ! c \<longleftrightarrow> b = c"
  using all_digits10 [OF D_table(2)] distinct_map_digits10 [of "\<lambda>b. D ! a ! b"] by blast

lemma D_cancel_right: "a < 10 \<Longrightarrow> b < 10 \<Longrightarrow> c < 10 \<Longrightarrow> D ! b ! a = D ! c ! a \<longleftrightarrow> b = c"
  using all_digits10 [OF D_table(3)] distinct_map_digits10 [of "\<lambda>b. D ! b ! a"] by blast

lemma D_inv: "a < 10 \<Longrightarrow> D ! 0 ! a = a" "a < 10 \<Longrightarrow> D ! (INV ! a) ! a = 0" "a < 10 \<Longrightarrow> INV ! a < 10"
  using all_digits10 [OF D_table(5)] by blast+

lemma P_digit:
  assumes "a < 10"
  shows "P ! (i mod 8) ! a < 10"
proof -
  have "i mod 8 \<in> set [0..<8]" by simp
  then have "list_all (\<lambda>a. P ! (i mod 8) ! a < 10) digits10"
    using P_table(1) by (auto simp only: list_all_iff)
  then show ?thesis using assms by (rule all_digits10)
qed

lemma P_cancel:
  assumes "a < 10" "b < 10"
  shows "P ! (i mod 8) ! a = P ! (i mod 8) ! b \<longleftrightarrow> a = b"
proof -
  have "i mod 8 \<in> set [0..<8]" by simp
  then have "distinct (map (\<lambda>a. P ! (i mod 8) ! a) digits10)"
    using P_table(2) by (auto simp only: list_all_iff)
  then show ?thesis using assms by (rule distinct_map_digits10)
qed

lemma P_neighbours:
  assumes "a < 10" "b < 10" "a \<noteq> b"
  shows "D ! (P ! (i mod 8) ! a) ! (P ! ((i + 1) mod 8) ! b)
       \<noteq> D ! (P ! (i mod 8) ! b) ! (P ! ((i + 1) mod 8) ! a)"
proof -
  have "i mod 8 \<in> set [0..<8]" by simp
  with P_table(3) have "list_all (\<lambda>a. list_all (\<lambda>b. a = b \<or>
     D ! (P ! (i mod 8) ! a) ! (P ! ((i mod 8 + 1) mod 8) ! b)
       \<noteq> D ! (P ! (i mod 8) ! b) ! (P ! ((i mod 8 + 1) mod 8) ! a)) digits10) digits10"
    by (auto simp only: list_all_iff)
  then have "a = b \<or>
     D ! (P ! (i mod 8) ! a) ! (P ! ((i mod 8 + 1) mod 8) ! b)
       \<noteq> D ! (P ! (i mod 8) ! b) ! (P ! ((i mod 8 + 1) mod 8) ! a)"
    by (rule all_digits10 [OF all_digits10 [OF _ assms(1)] assms(2)])
  moreover have "(i mod 8 + 1) mod 8 = (i + 1) mod 8" by (rule mod_add_left_eq)
  ultimately show ?thesis using assms(3) by (simp only: simp_thms)
qed

lemma verhoeff_loop_append:
  "verhoeff_loop i c (xs @ ys) = verhoeff_loop (i + length xs) (verhoeff_loop i c xs) ys"
  by (induction xs arbitrary: i c) (simp_all add: add.assoc)

lemma verhoeff_loop_digit:
  "c < 10 \<Longrightarrow> list_all (\<lambda>x. x < 10) xs \<Longrightarrow> verhoeff_loop i c xs < 10"
  by (induction i c xs rule: verhoeff_loop.induct) (simp_all add: D_closed P_digit)

lemma verhoeff_loop_inject:
  "c < 10 \<Longrightarrow> c' < 10 \<Longrightarrow> list_all (\<lambda>x. x < 10) xs \<Longrightarrow>
   verhoeff_loop i c xs = verhoeff_loop i c' xs \<longleftrightarrow> c = c'"
proof (induction xs arbitrary: i c c')
  case (Cons x xs)
  then show ?case by (simp add: D_closed P_digit D_cancel_right)
qed simp

text \<open>The state after the digits is the state before composed with their product.\<close>

lemma verhoeff_loop_D:
  "c < 10 \<Longrightarrow> list_all (\<lambda>x. x < 10) xs \<Longrightarrow>
   verhoeff_loop i c xs = D ! c ! verhoeff_loop i 0 xs"
proof (induction xs arbitrary: c rule: rev_induct)
  case Nil
  have "list_all (\<lambda>a. D ! a ! 0 = a) digits10" by code_simp
  then have "D ! c ! 0 = c" using Nil(1) by (rule all_digits10)
  then show ?case by simp
next
  case (snoc x xs)
  let ?L = "verhoeff_loop i 0 xs" and ?p = "P ! ((i + length xs) mod 8) ! x"
  have lt: "?L < 10" "?p < 10" using snoc.prems by (simp_all add: verhoeff_loop_digit P_digit)
  have "verhoeff_loop i c (xs @ [x]) = D ! (verhoeff_loop i c xs) ! ?p"
    by (simp only: verhoeff_loop_append verhoeff_loop.simps)
  also have "verhoeff_loop i c xs = D ! c ! ?L"
    using snoc.prems by (intro snoc.IH) simp_all
  also have "D ! (D ! c ! ?L) ! ?p = D ! c ! (D ! ?L ! ?p)"
    using snoc.prems(1) lt by (rule D_assoc)
  also have "D ! ?L ! ?p = verhoeff_loop i 0 (xs @ [x])"
    by (simp only: verhoeff_loop_append verhoeff_loop.simps)
  finally show ?case .
qed

lemma digit_list: "list_all is_digit s \<Longrightarrow> list_all (\<lambda>x. x < 10) (map digit_val (rev s))"
  by (auto simp: list_all_iff)

lemma check_digit_completes:
  assumes "list_all is_digit s"
  shows "isValidVerhoeff (s @ [digit_char (verhoeffCheckDigit s)])"
proof -
  let ?xs = "map digit_val (rev s)" and ?k = "verhoeffCheckDigit s"
  have xs: "list_all (\<lambda>x. x < 10) ?xs" using assms by (rule digit_list)
  have l: "verhoeff_loop 1 0 ?xs < 10" using xs by (simp add: verhoeff_loop_digit)
  have k: "?k < 10" using l by (simp add: verhoeffCheckDigit_def D_inv(3))
  have "P ! 0 ! ?k = ?k"
  proof -
    have "list_all (\<lambda>a. P ! 0 ! a = a) digits10" by code_simp
    then show ?thesis using k by (rule all_digits10)
  qed
  then have "verhoeff_loop 0 0 (?k # ?xs) = D ! ?k ! verhoeff_loop 1 0 ?xs"
    using k xs by (simp add: D_inv verhoeff_loop_D [of ?k ?xs])
  also have "\<dots> = 0" using l by (simp add: verhoeffCheckDigit_def D_inv(2))
  finally show ?thesis using k by (simp add: isValidVerhoeff_def)
qed

lemma valid_split:
  "isValidVerhoeff (p @ [x] @ q) \<longleftrightarrow>
     verhoeff_loop (Suc (length q)) (D ! verhoeff_loop 0 0 (map digit_val (rev q)) !
       (P ! (length q mod 8) ! digit_val x)) (map digit_val (rev p)) = 0"
  by (simp add: isValidVerhoeff_def verhoeff_loop_append)

lemma single_error_detected:
  assumes "list_all is_digit (p @ [x] @ q)" and "is_digit y" and "x \<noteq> y"
    and "isValidVerhoeff (p @ [x] @ q)"
  shows "\<not> isValidVerhoeff (p @ [y] @ q)"
proof
  assume v: "isValidVerhoeff (p @ [y] @ q)"
  let ?c = "verhoeff_loop 0 0 (map digit_val (rev q))"
  let ?s = "\<lambda>z. D ! ?c ! (P ! (length q mod 8) ! digit_val z)"
  have dig: "list_all is_digit p" "list_all is_digit q" "is_digit x" using assms(1) by simp_all
  have c: "?c < 10" using dig(2) by (intro verhoeff_loop_digit) (simp_all add: digit_list)
  have z: "digit_val x < 10" "digit_val y < 10" using dig(3) assms(2) by simp_all
  have "digit_val x \<noteq> digit_val y" using assms(2,3) dig(3) by (metis digit_char_digit_val)
  then have "?s x \<noteq> ?s y" using c z by (simp add: D_cancel_left P_digit P_cancel)
  moreover have "?s x < 10" "?s y < 10" using c z by (simp_all add: D_closed P_digit)
  ultimately show False
    using v assms(4) verhoeff_loop_inject [OF _ _ digit_list [OF dig(1)]]
    unfolding valid_split by metis
qed

lemma transposition_detected:
  assumes "list_all is_digit (p @ [x, y] @ q)" and "x \<noteq> y"
    and "isValidVerhoeff (p @ [x, y] @ q)"
  shows "\<not> isValidVerhoeff (p @ [y, x] @ q)"
proof
  assume v: "isValidVerhoeff (p @ [y, x] @ q)"
  let ?c = "verhoeff_loop 0 0 (map digit_val (rev q))" and ?i = "length q"
  let ?s = "\<lambda>u w. D ! (D ! ?c ! (P ! (?i mod 8) ! digit_val u)) ! (P ! ((?i + 1) mod 8) ! digit_val w)"
  have dig: "list_all is_digit p" "list_all is_digit q" "is_digit x" "is_digit y"
    using assms(1) by simp_all
  have eq: "isValidVerhoeff (p @ [u, w] @ q) \<longleftrightarrow>
      verhoeff_loop (?i + 2) (?s w u) (map digit_val (rev p)) = 0" for u w
    by (simp add: isValidVerhoeff_def verhoeff_loop_append)
  have c: "?c < 10" using dig(2) by (intro verhoeff_loop_digit) (simp_all add: digit_list)
  have z: "digit_val x < 10" "digit_val y < 10" using dig by simp_all
  have ne: "digit_val x \<noteq> digit_val y" using assms(2) dig(3,4) by (metis digit_char_digit_val)
  have "?s x y \<noteq> ?s y x"
    using P_neighbours [OF z ne, of ?i] c z
    by (simp add: D_assoc P_digit D_cancel_left D_closed del: One_nat_def)
  moreover have "?s x y < 10" "?s y x < 10" using c z by (simp_all add: D_closed P_digit)
  ultimately show False
    using v assms(3) verhoeff_loop_inject [OF _ _ digit_list [OF dig(1)]] unfolding eq by metis
qed

section \<open>Scanning free text\<close>

text \<open>
  \<open>CANDIDATE\<close>: not preceded by a digit; four digits of which the first is 2-9, an
  optional space or hyphen, four digits, an optional space or hyphen, four digits; not
  followed by a digit. The pattern is a zero-width lookahead, so \<open>matchAll\<close> tries
  every position.
\<close>

fun take_digits :: "nat \<Rightarrow> string \<Rightarrow> (string \<times> string) option" where
  "take_digits 0 s = Some ([], s)"
| "take_digits (Suc n) [] = None"
| "take_digits (Suc n) (c # s) =
     (if is_digit c then map_option (\<lambda>(d, r). (c # d, r)) (take_digits n s) else None)"

fun optional_separator :: "string \<Rightarrow> string \<times> string" where
  "optional_separator [] = ([], [])"
| "optional_separator (c # s) = (if c = CHR '' '' \<or> c = CHR ''-'' then ([c], s) else ([], c # s))"

definition starts_2_to_9 :: "string \<Rightarrow> bool" where
  "starts_2_to_9 s \<longleftrightarrow> s \<noteq> [] \<and> is_digit (hd s) \<and> 2 \<le> digit_val (hd s)"

definition candidate_at :: "string \<Rightarrow> string option" where
  "candidate_at s =
     (if \<not> starts_2_to_9 s then None
      else case take_digits 4 s of
        None \<Rightarrow> None
      | Some (d1, r1) \<Rightarrow>
          (case optional_separator r1 of (s1, r2) \<Rightarrow>
            (case take_digits 4 r2 of
               None \<Rightarrow> None
             | Some (d2, r3) \<Rightarrow>
                 (case optional_separator r3 of (s2, r4) \<Rightarrow>
                   (case take_digits 4 r4 of
                      None \<Rightarrow> None
                    | Some (d3, r5) \<Rightarrow>
                        if r5 \<noteq> [] \<and> is_digit (hd r5) then None
                        else Some (d1 @ s1 @ d2 @ s2 @ d3))))))"

record aadhaar_match =
  am_start :: nat
  am_end :: nat
  am_digits :: string

fun matches_from :: "nat \<Rightarrow> bool \<Rightarrow> string \<Rightarrow> aadhaar_match list" where
  "matches_from i after_digit [] = []"
| "matches_from i after_digit (c # s) =
     (let rest = matches_from (i + 1) (is_digit c) s
      in case (if after_digit then None else candidate_at (c # s)) of
           None \<Rightarrow> rest
         | Some m \<Rightarrow>
             let digits = filter (\<lambda>x. x \<noteq> CHR '' '' \<and> x \<noteq> CHR ''-'') m
             in if isValidVerhoeff digits
                then \<lparr>am_start = i, am_end = i + length m, am_digits = digits\<rparr> # rest
                else rest)"

definition findAadhaarLikeNumbers :: "string \<Rightarrow> aadhaar_match list" where
  "findAadhaarLikeNumbers text = matches_from 0 False text"

datatype field_value = NumberValue number | StringValue string | OtherValue

definition isAadhaarLikeValue :: "field_value \<Rightarrow> bool" where
  "isAadhaarLikeValue v =
     (case v of
        NumberValue x \<Rightarrow> of_int \<lfloor>x\<rfloor> = x \<and> findAadhaarLikeNumbers (show_int \<lfloor>x\<rfloor>) \<noteq> []
      | StringValue s \<Rightarrow> findAadhaarLikeNumbers s \<noteq> []
      | OtherValue \<Rightarrow> False)"

definition slice :: "nat \<Rightarrow> nat \<Rightarrow> string \<Rightarrow> string" where
  "slice i j s = drop i (take j s)"

fun replace_loop :: "string \<Rightarrow> (aadhaar_match \<Rightarrow> string) \<Rightarrow> aadhaar_match list \<Rightarrow> nat \<Rightarrow> string" where
  "replace_loop text r [] cursor = drop cursor text"
| "replace_loop text r (m # ms) cursor =
     (if am_start m < cursor then replace_loop text r ms cursor
      else slice cursor (am_start m) text @ r m @ replace_loop text r ms (am_end m))"

definition replaceMatches :: "string \<Rightarrow> (aadhaar_match \<Rightarrow> string) \<Rightarrow> string" where
  "replaceMatches text r =
     (let ms = findAadhaarLikeNumbers text
      in if ms = [] then text else replace_loop text r ms 0)"

definition AADHAAR_REDACTION :: string where
  "AADHAAR_REDACTION = ''[Aadhaar-like number removed]''"

definition redactAadhaarLike :: "string \<Rightarrow> string" where
  "redactAadhaarLike text = replaceMatches text (\<lambda>m. AADHAAR_REDACTION)"

definition maskAadhaarLike :: "string \<Rightarrow> string" where
  "maskAadhaarLike text = replaceMatches text (\<lambda>m. ''XXXX XXXX '' @ drop 8 (am_digits m))"

text \<open>
  The checksum of the Aadhaar guard detects every single wrong digit and every
  exchange of two different neighbouring digits.
\<close>

theorem verhoeff_detects:
  assumes "list_all is_digit (p @ [x, y] @ q)" and "isValidVerhoeff (p @ [x, y] @ q)"
  shows "(is_digit z \<and> z \<noteq> x \<longrightarrow> \<not> isValidVerhoeff (p @ [z, y] @ q)) \<and>
    (x \<noteq> y \<longrightarrow> \<not> isValidVerhoeff (p @ [y, x] @ q))"
  using assms single_error_detected [of p x "y # q" z] transposition_detected [of p x y q] by auto

theorem verhoeff_detects_witness:
  "isValidVerhoeff ''2363'' \<and> \<not> isValidVerhoeff ''3263'' \<and> \<not> isValidVerhoeff ''9363''"
proof -
  have "list_all is_digit ([] @ [CHR ''2'', CHR ''3''] @ ''63'')" "isValidVerhoeff ([] @ [CHR ''2'', CHR ''3''] @ ''63'')"
    by code_simp+
  from verhoeff_detects [OF this, of "CHR ''9''"] this(2) show ?thesis by (simp add: is_digit_def)
qed

end
