(* ===== verification/CommissionMath.thy ===== *)
theory CommissionMath
  imports Money
begin

text \<open>
  \<open>packages/shared/src/commission.ts\<close>: the enumerations of the broker-commission
  subsystem, the validation of slabs and milestones and the computation of a commission.
  The lemmas show that slabs the validator accepts cover every non-negative basis, and
  what \<open>computeCommissionPaise\<close> returns for each rule type.
\<close>

datatype commission_entry_type =
    ACCRUAL | TDS_WITHHELD | PAYMENT | CLAWBACK_REVERSAL | CLAWBACK_RECOVERY | CLAWBACK_WRITEOFF

datatype commission_payment_status = CP_REQUESTED | CP_APPROVED | CP_PAID | CP_REJECTED

datatype noc_status = NOC_REQUESTED | NOC_APPROVED | NOC_REJECTED

datatype commission_type = FLAT_PERCENT | FLAT_AMOUNT | SLAB

datatype commission_accrual_trigger = ON_BOOKING | ON_COLLECTION_MILESTONE

datatype commission_clawback_policy = RECOVER | WRITE_OFF

definition COMMISSION_CLAWBACK_ENTRY_TYPES :: "commission_entry_type list" where
  "COMMISSION_CLAWBACK_ENTRY_TYPES = [CLAWBACK_REVERSAL, CLAWBACK_RECOVERY, CLAWBACK_WRITEOFF]"

section \<open>Slabs\<close>

record commission_slab =
  cs_seq :: int
  cs_fromPaise :: int
  cs_toPaise :: "int option"
  cs_ratePercent :: number

definition slab_matches :: "int \<Rightarrow> commission_slab \<Rightarrow> bool" where
  "slab_matches basisPaise s \<longleftrightarrow>
     basisPaise \<ge> cs_fromPaise s \<and>
     (case cs_toPaise s of None \<Rightarrow> True | Some hi \<Rightarrow> basisPaise < hi)"

definition matchCommissionSlab :: "int \<Rightarrow> commission_slab list \<Rightarrow> commission_slab result" where
  "matchCommissionSlab basisPaise slabs =
     (let sorted = sort_key cs_seq slabs
      in orFail (JsError ''No matching commission slab'') (List.find (slab_matches basisPaise) sorted))"

text \<open>
  \<open>validateSlabContiguity\<close>: \<open>None\<close> is \<open>valid: true\<close>, otherwise the
  error. The loop looks at each slab and its successor; the last slab is checked after it.
\<close>

fun slab_chain_error :: "commission_slab list \<Rightarrow> string option" where
  "slab_chain_error [] = None"
| "slab_chain_error [s] =
     (if cs_toPaise s \<noteq> None then Some ''The last slab (highest seq) must be unbounded (no toPaise)''
      else None)"
| "slab_chain_error (s # t # rest) =
     (if cs_toPaise s = None then Some ''only the last slab can be unbounded''
      else if cs_toPaise s \<noteq> Some (cs_fromPaise t) then Some ''Slabs must be contiguous''
      else slab_chain_error (t # rest))"

definition validateSlabContiguity :: "commission_slab list \<Rightarrow> string option" where
  "validateSlabContiguity slabs =
     (if slabs = [] then Some ''At least one slab is required''
      else
        let sorted = sort_key cs_seq slabs
        in if cs_fromPaise (sorted ! 0) \<noteq> 0 then Some ''The first slab must start at 0''
           else slab_chain_error sorted)"

lemma slab_chain_covers:
  "slab_chain_error ss = None \<Longrightarrow> ss \<noteq> [] \<Longrightarrow> cs_fromPaise (ss ! 0) \<le> b \<Longrightarrow>
   \<exists>s. List.find (slab_matches b) ss = Some s"
  by (induction ss rule: slab_chain_error.induct)
     (auto simp: slab_matches_def split: if_splits option.splits)

lemma valid_slabs_cover:
  assumes "validateSlabContiguity slabs = None" and "0 \<le> basis"
  shows "\<exists>s. matchCommissionSlab basis slabs = Inr s"
proof -
  have "slabs \<noteq> []" using assms(1) by (auto simp: validateSlabContiguity_def)
  then have ne: "sort_key cs_seq slabs \<noteq> []" by (metis length_0_conv length_sort)
  from assms(1) have "slab_chain_error (sort_key cs_seq slabs) = None"
    and "cs_fromPaise (sort_key cs_seq slabs ! 0) = 0"
    by (auto simp: validateSlabContiguity_def Let_def split: if_splits)
  with slab_chain_covers [OF _ ne, of basis] assms(2) show ?thesis
    by (auto simp: matchCommissionSlab_def)
qed

lemma matchCommissionSlab_matches:
  "matchCommissionSlab basis slabs = Inr s \<Longrightarrow> s \<in> set slabs \<and> slab_matches basis s"
  by (auto simp: matchCommissionSlab_def dest!: find_SomeD)

lemma sort_key_sorted_id: "sorted (map f xs) \<Longrightarrow> sort_key f xs = xs"
  by (induction xs) (auto simp: insort_is_Cons)

text \<open>The bound of a slab that matches is exclusive.\<close>

lemma slab_match_exclusive: "slab_matches b s \<Longrightarrow> cs_toPaise s = Some hi \<Longrightarrow> b < hi"
  by (simp add: slab_matches_def)

section \<open>Milestones\<close>

fun ascending :: "int list \<Rightarrow> bool" where
  "ascending (x # y # zs) \<longleftrightarrow> y > x \<and> ascending (y # zs)"
| "ascending _ \<longleftrightarrow> True"

definition commissionMilestonesSchema :: "int list \<Rightarrow> bool" where
  "commissionMilestonesSchema arr \<longleftrightarrow>
     1 \<le> length arr \<and> list_all (\<lambda>m. 1 \<le> m \<and> m \<le> 100) arr \<and> ascending arr"

lemma ascending_sorted_distinct: "ascending xs \<longleftrightarrow> sorted xs \<and> distinct xs"
  by (induction xs rule: ascending.induct) (auto simp: less_le, meson order_trans)

lemma milestones_distinct: "commissionMilestonesSchema ms \<Longrightarrow> distinct ms"
  by (simp add: commissionMilestonesSchema_def ascending_sorted_distinct)

section \<open>The commission\<close>

record commission_rule_like =
  crl_commissionType :: commission_type
  crl_flatPercent :: "number option"
  crl_flatPaise :: "int option"

definition or_zero :: "'a::zero option \<Rightarrow> 'a" where
  "or_zero v = (case v of None \<Rightarrow> 0 | Some x \<Rightarrow> x)"

definition computeCommissionPaise ::
  "int \<Rightarrow> commission_rule_like \<Rightarrow> commission_slab list option \<Rightarrow> int result" where
  "computeCommissionPaise basisPaise rule slabs =
     (if crl_commissionType rule = FLAT_AMOUNT then Inr (or_zero (crl_flatPaise rule))
      else if crl_commissionType rule = FLAT_PERCENT then
        percentOf basisPaise (of_int (math_round (or_zero (crl_flatPercent rule) * 100)))
      else
        bindE (matchCommissionSlab basisPaise (case slabs of None \<Rightarrow> [] | Some ss \<Rightarrow> ss)) (\<lambda>matched.
          percentOf basisPaise (of_int (math_round (cs_ratePercent matched * 100)))))"

lemma or_zero_simps [simp]: "or_zero None = 0" "or_zero (Some x) = x"
  by (simp_all add: or_zero_def)

lemma computeCommissionPaise_slab_total:
  assumes "crl_commissionType rule = SLAB" and "validateSlabContiguity slabs = None" and "0 \<le> basis"
  shows "\<exists>s c. s \<in> set slabs \<and> slab_matches basis s \<and>
    computeCommissionPaise basis rule (Some slabs) = Inr c \<and>
    2 * \<bar>c * 10000 - basis * math_round (cs_ratePercent s * 100)\<bar> \<le> 10000"
proof -
  obtain s where s: "matchCommissionSlab basis slabs = Inr s"
    using valid_slabs_cover [OF assms(2,3)] by blast
  then have "computeCommissionPaise basis rule (Some slabs)
      = Inr (half_away (basis * math_round (cs_ratePercent s * 100)) 10000)"
    using assms(1) by (simp add: computeCommissionPaise_def)
  moreover have "2 * \<bar>half_away (basis * math_round (cs_ratePercent s * 100)) 10000 * 10000
      - basis * math_round (cs_ratePercent s * 100)\<bar> \<le> 10000"
    by (rule half_away_error) simp
  ultimately show ?thesis using matchCommissionSlab_matches [OF s] by blast
qed

lemma flat_percent_bound:
  assumes "0 \<le> basis" and "0 \<le> p" and "p \<le> 10000"
  shows "half_away (basis * p) 10000 \<le> basis"
proof -
  have "half_away (basis * p) 10000 \<le> half_away (basis * 10000) 10000"
    by (rule half_away_mono) (use assms in \<open>simp_all add: mult_left_mono\<close>)
  then show ?thesis by simp
qed

end
