(* ===== verification/Inventory.thy ===== *)
theory Inventory
  imports Area
begin

text \<open>
  \<open>packages/shared/src/inventory.ts\<close>: the inventory shapes, the unit statuses and the
  table of transitions between them.
\<close>

datatype inventory_shape = HIGH_RISE | LAND_BASED

datatype unit_status = AVAILABLE | HELD | BLOCKED | BOOKED | ALLOTTED | REGISTERED | CANCELLED

fun UNIT_TRANSITIONS :: "unit_status \<Rightarrow> unit_status list" where
  "UNIT_TRANSITIONS AVAILABLE = [HELD, BLOCKED, BOOKED]"
| "UNIT_TRANSITIONS HELD = [BOOKED, AVAILABLE]"
| "UNIT_TRANSITIONS BLOCKED = [AVAILABLE]"
| "UNIT_TRANSITIONS BOOKED = [ALLOTTED, CANCELLED]"
| "UNIT_TRANSITIONS ALLOTTED = [REGISTERED, CANCELLED]"
| "UNIT_TRANSITIONS REGISTERED = []"
| "UNIT_TRANSITIONS CANCELLED = [AVAILABLE]"

datatype actor_type = user | system

definition isValidTransition :: "unit_status \<Rightarrow> unit_status \<Rightarrow> bool" where
  "isValidTransition from to \<longleftrightarrow> to \<in> set (UNIT_TRANSITIONS from)"

definition REASON_REQUIRED_STATUSES :: "unit_status list" where
  "REASON_REQUIRED_STATUSES = [BLOCKED, CANCELLED]"

definition SYSTEM_ONLY_TARGET_STATUSES :: "unit_status list" where
  "SYSTEM_ONLY_TARGET_STATUSES = [BOOKED, ALLOTTED, REGISTERED, CANCELLED]"

definition isSystemOnlyTarget :: "unit_status \<Rightarrow> bool" where
  "isSystemOnlyTarget toStatus \<longleftrightarrow> toStatus \<in> set SYSTEM_ONLY_TARGET_STATUSES"

text \<open>The edges of the table, as rewrite rules.\<close>

lemma isValidTransition_simps [simp]:
  "isValidTransition AVAILABLE s \<longleftrightarrow> s = HELD \<or> s = BLOCKED \<or> s = BOOKED"
  "isValidTransition HELD s \<longleftrightarrow> s = BOOKED \<or> s = AVAILABLE"
  "isValidTransition BLOCKED s \<longleftrightarrow> s = AVAILABLE"
  "isValidTransition BOOKED s \<longleftrightarrow> s = ALLOTTED \<or> s = CANCELLED"
  "isValidTransition ALLOTTED s \<longleftrightarrow> s = REGISTERED \<or> s = CANCELLED"
  "\<not> isValidTransition REGISTERED s"
  "isValidTransition CANCELLED s \<longleftrightarrow> s = AVAILABLE"
  by (auto simp: isValidTransition_def)

lemma isSystemOnlyTarget_iff:
  "isSystemOnlyTarget s \<longleftrightarrow> s = BOOKED \<or> s = ALLOTTED \<or> s = REGISTERED \<or> s = CANCELLED"
  by (auto simp: isSystemOnlyTarget_def SYSTEM_ONLY_TARGET_STATUSES_def)

lemma to_booked: "isValidTransition s BOOKED \<longleftrightarrow> s = AVAILABLE \<or> s = HELD"
  by (cases s) auto

lemma to_cancelled: "isValidTransition s CANCELLED \<longleftrightarrow> s = BOOKED \<or> s = ALLOTTED"
  by (cases s) auto

lemma to_allotted: "isValidTransition s ALLOTTED \<longleftrightarrow> s = BOOKED"
  by (cases s) auto

lemma to_registered: "isValidTransition s REGISTERED \<longleftrightarrow> s = ALLOTTED"
  by (cases s) auto

end
