(* ===== verification/Rows.thy ===== *)
theory Rows
  imports Finance Area Inventory CommissionMath
begin

text \<open>
  The rows of the database tables the financial core reads or writes: one record per
  Prisma model (\<open>packages/db/prisma/schema.prisma\<close>). Ids are numbers. A
  \<open>DATE\<close> column keeps the UTC day of the value written, a \<open>DECIMAL\<close> column a
  rational. The columns \<open>createdAt\<close> and \<open>updatedAt\<close> are left out; the insertion
  order of a table stands for \<open>createdAt\<close>.
\<close>

type_synonym id = nat

section \<open>Masters\<close>

record company_config =
  cc_companyId :: id
  cc_fyStartMonth :: int
  cc_gstStateCode :: "string option"
  cc_chequeBounceChargePaise :: int
  cc_commissionAccrualTrigger :: commission_accrual_trigger
  cc_commissionClawbackPolicy :: commission_clawback_policy

record area_location =
  al_id :: id
  al_companyId :: id
  al_stateCode :: "string option"

record project =
  pj_id :: id
  pj_companyId :: id
  pj_shape :: inventory_shape
  pj_areaLocationId :: "id option"

text \<open>\<open>un_towerProjectId\<close> is the project reached through floor and tower, \<open>None\<close> for
  a unit without a floor. The DECIMAL(20, 6) areas are held scaled by 10^6; their text is
  \<open>fromAreaScaled\<close> of that number.\<close>

record inventory_unit =
  un_id :: id
  un_companyId :: id
  un_projectId :: id
  un_shape :: inventory_shape
  un_towerProjectId :: "id option"
  un_number :: string
  un_status :: unit_status
  un_landAreaEntered :: "int option"
  un_landAreaEnteredUnit :: "area_unit option"
  un_landAreaSqft :: "int option"
  un_baseRatePaise :: int
  un_rateUnit :: area_unit
  un_isActive :: bool

record applicant =
  ap_id :: id
  ap_companyId :: id
  ap_mergedIntoId :: "id option"

record charge_type =
  ct_id :: id
  ct_companyId :: id
  ct_gstRateId :: "id option"

record gst_rate =
  gr_id :: id
  gr_companyId :: id
  gr_rate :: number

record tds_rule =
  tr_id :: id
  tr_companyId :: id
  tr_section :: string
  tr_ratePercent :: number
  tr_thresholdPaise :: int
  tr_effectiveFrom :: date
  tr_effectiveTo :: "date option"

record interest_rule =
  ir_id :: id
  ir_companyId :: id
  ir_name :: string
  ir_rateType :: interest_rate_type
  ir_ratePercent :: number

record transfer_fee_rule =
  tf_id :: id
  tf_companyId :: id
  tf_feeType :: string
  tf_amountPaise :: "int option"
  tf_percentage :: "number option"

record cancellation_rule =
  cr_id :: id
  cr_companyId :: id
  cr_deductionType :: string
  cr_deductionPercent :: "number option"
  cr_deductionAmountPaise :: "int option"
  cr_forfeitBookingAmount :: bool

record payment_plan_template =
  pt_id :: id
  pt_companyId :: id
  pt_name :: string

record payment_plan_milestone =
  pm_id :: id
  pm_companyId :: id
  pm_templateId :: id
  pm_seq :: int
  pm_label :: string
  pm_percent :: number
  pm_milestoneType :: milestone_type
  pm_dueOffsetDays :: int
  pm_graceDaysAfterRaise :: int

record stage_raise =
  sr_id :: id
  sr_companyId :: id
  sr_projectId :: id
  sr_templateId :: id
  sr_milestoneSeq :: int
  sr_label :: string
  sr_stageCompletedOn :: date
  sr_raisedById :: "id option"

section \<open>Units, bookings and plans\<close>

record unit_status_change =
  usc_id :: id
  usc_companyId :: id
  usc_unitId :: id
  usc_fromStatus :: unit_status
  usc_toStatus :: unit_status
  usc_reason :: "string option"
  usc_actorType :: actor_type
  usc_actorId :: "id option"

record booking =
  bk_id :: id
  bk_companyId :: id
  bk_unitId :: id
  bk_primaryApplicantId :: id
  bk_bookingNumber :: string
  bk_status :: booking_status
  bk_agreedPricePaise :: int
  bk_placeOfSupplyStateCode :: "string option"
  bk_paymentPlanTemplateId :: "id option"
  bk_interestRuleId :: "id option"
  bk_brokerId :: "id option"
  bk_bookingDate :: date
  bk_allotmentDate :: "date option"
  bk_registrationDate :: "date option"
  bk_cancelledAt :: "date option"
  bk_createdById :: "id option"

record booking_co_applicant =
  bca_id :: id
  bca_companyId :: id
  bca_bookingId :: id
  bca_applicantId :: id
  bca_ordinal :: int

record booking_cost_line =
  bcl_id :: id
  bcl_companyId :: id
  bcl_bookingId :: id
  bcl_kind :: cost_line_kind
  bcl_chargeTypeId :: "id option"
  bcl_label :: string
  bcl_baseAmountPaise :: int
  bcl_gstRateId :: "id option"
  bcl_gstRatePercentSnapshot :: number
  bcl_cgstPaise :: int
  bcl_sgstPaise :: int
  bcl_igstPaise :: int
  bcl_lineTotalPaise :: int
  bcl_sortOrder :: int

record payment_plan =
  pp_id :: id
  pp_companyId :: id
  pp_bookingId :: id
  pp_templateId :: "id option"
  pp_name :: string
  pp_isCustom :: bool
  pp_version :: int
  pp_isActive :: bool
  pp_createdById :: "id option"

record installment =
  in_id :: id
  in_companyId :: id
  in_bookingId :: id
  in_planId :: id
  in_seq :: int
  in_label :: string
  in_milestoneType :: milestone_type
  in_milestoneSeq :: "int option"
  in_dueDate :: "date option"
  in_amountPaise :: int
  in_milestonePercent :: "number option"
  in_allocatedPaise :: int
  in_status :: installment_status
  in_isActive :: bool
  in_stageRaiseId :: "id option"

section \<open>Ledger, receipts and numbers\<close>

record ledger_entry =
  le_id :: id
  le_companyId :: id
  le_bookingId :: id
  le_entryType :: ledger_entry_type
  le_signedAmountPaise :: int
  le_installmentId :: "id option"
  le_receiptId :: "id option"
  le_reversalOfEntryId :: "id option"
  le_reason :: "string option"
  le_effectiveDate :: date
  le_createdById :: "id option"

record receipt =
  rc_id :: id
  rc_companyId :: id
  rc_bookingId :: id
  rc_receiptNumber :: string
  rc_fyLabel :: string
  rc_seqValue :: nat
  rc_receiptDate :: date
  rc_mode :: receipt_mode
  rc_grossAmountPaise :: int
  rc_receiptTypeId :: "id option"
  rc_bankId :: "id option"
  rc_instrumentNumber :: "string option"
  rc_instrumentDate :: "date option"
  rc_utr :: "string option"
  rc_clearanceStatus :: cheque_clearance_status
  rc_isReversed :: bool
  rc_reversalReason :: "string option"
  rc_reprintCount :: nat
  rc_createdById :: "id option"

record receipt_allocation =
  ra_id :: id
  ra_companyId :: id
  ra_receiptId :: id
  ra_installmentId :: id
  ra_amountPaise :: int

record cheque_status_event =
  ce_id :: id
  ce_companyId :: id
  ce_receiptId :: id
  ce_status :: cheque_clearance_status
  ce_eventDate :: date
  ce_reason :: "string option"
  ce_createdById :: "id option"

record number_sequence =
  ns_id :: id
  ns_companyId :: id
  ns_kind :: string
  ns_scopeLabel :: string
  ns_nextValue :: nat

record tds_deduction =
  td_id :: id
  td_companyId :: id
  td_bookingId :: id
  td_receiptId :: "id option"
  td_sectionSnapshot :: string
  td_ratePercentSnapshot :: number
  td_deductedPaise :: int
  td_receivableLedgerEntryId :: "id option"
  td_createdById :: "id option"

record tds_certificate =
  tc_id :: id
  tc_companyId :: id
  tc_tdsDeductionId :: id
  tc_certificateNumber :: string
  tc_certificateDate :: date
  tc_adjustmentLedgerEntryId :: "id option"
  tc_createdById :: "id option"

section \<open>Post-sales events\<close>

record transfer =
  tx_id :: id
  tx_companyId :: id
  tx_fromBookingId :: id
  tx_toBookingId :: "id option"
  tx_transferType :: transfer_type
  tx_transferFeeRuleId :: "id option"
  tx_transferFeePaise :: int
  tx_carryForwardPaise :: int
  tx_reason :: "string option"
  tx_createdById :: "id option"

record cancellation =
  cn_id :: id
  cn_companyId :: id
  cn_bookingId :: id
  cn_cancellationType :: cancellation_type
  cn_cancellationRuleId :: "id option"
  cn_deductionTypeSnapshot :: string
  cn_deductionPaise :: int
  cn_refundablePaise :: int
  cn_reason :: "string option"
  cn_createdById :: "id option"

record refund =
  rf_id :: id
  rf_companyId :: id
  rf_bookingId :: id
  rf_amountPaise :: int
  rf_status :: refund_status
  rf_mode :: "receipt_mode option"
  rf_approvedById :: "id option"
  rf_approvedAt :: "date option"
  rf_createdById :: "id option"

record payment_voucher =
  pv_id :: id
  pv_companyId :: id
  pv_bookingId :: id
  pv_refundId :: "id option"
  pv_amountPaise :: int
  pv_mode :: receipt_mode
  pv_bankId :: "id option"
  pv_instrumentNumber :: "string option"
  pv_instrumentDate :: "date option"
  pv_status :: voucher_status
  pv_createdById :: "id option"

record extra_charge =
  ec_id :: id
  ec_companyId :: id
  ec_bookingId :: id
  ec_chargeTypeId :: "id option"
  ec_label :: string
  ec_baseAmountPaise :: int
  ec_gstRateId :: "id option"
  ec_gstRatePercentSnapshot :: number
  ec_cgstPaise :: int
  ec_sgstPaise :: int
  ec_igstPaise :: int
  ec_lineTotalPaise :: int
  ec_createdById :: "id option"

record interest_accrual =
  ia_id :: id
  ia_companyId :: id
  ia_bookingId :: id
  ia_installmentId :: "id option"
  ia_interestRuleId :: "id option"
  ia_rateType :: interest_rate_type
  ia_ratePercentSnapshot :: number
  ia_periodStart :: date
  ia_periodEnd :: date
  ia_principalPaise :: int
  ia_accruedPaise :: int
  ia_ledgerEntryId :: "id option"

section \<open>Brokers and commission\<close>

record broker =
  br_id :: id
  br_companyId :: id
  br_name :: string
  br_phone :: string
  br_email :: "string option"
  br_reraAgentNo :: "string option"
  br_panCiphertext :: "string option"
  br_panMasked :: "string option"
  br_isActive :: bool
  br_deactivatedAt :: "date option"

record broker_bank_detail =
  bbd_id :: id
  bbd_companyId :: id
  bbd_brokerId :: id
  bbd_accountHolder :: string
  bbd_accountNumber :: string
  bbd_ifsc :: string
  bbd_bankName :: string
  bbd_isPrimary :: bool

record broker_commission_rule =
  bcr_id :: id
  bcr_companyId :: id
  bcr_brokerId :: id
  bcr_projectId :: "id option"
  bcr_commissionType :: commission_type
  bcr_flatPercent :: "number option"
  bcr_flatPaise :: "int option"
  bcr_milestonesJson :: "int list option"
  bcr_isActive :: bool

record broker_commission_slab =
  bcs_companyId :: id
  bcs_ruleId :: id
  bcs_slab :: commission_slab

record broker_booking_commission =
  bbc_id :: id
  bbc_companyId :: id
  bbc_bookingId :: id
  bbc_brokerId :: id
  bbc_ruleId :: id
  bbc_totalCommissionPaise :: int

record commission_ledger_entry =
  cle_id :: id
  cle_companyId :: id
  cle_brokerId :: id
  cle_bookingId :: id
  cle_entryType :: commission_entry_type
  cle_signedAmountPaise :: int
  cle_milestonePercent :: "int option"
  cle_reason :: "string option"
  cle_effectiveDate :: date
  cle_createdById :: "id option"

record commission_payment =
  cp_id :: id
  cp_companyId :: id
  cp_brokerId :: id
  cp_amountPaise :: int
  cp_status :: commission_payment_status
  cp_mode :: "receipt_mode option"
  cp_bankId :: "id option"
  cp_instrumentNumber :: "string option"
  cp_approvedById :: "id option"
  cp_approvedAt :: "date option"
  cp_paidAt :: "date option"
  cp_createdById :: "id option"

record broker_noc =
  noc_id :: id
  noc_companyId :: id
  noc_bookingId :: id
  noc_brokerId :: id
  noc_status :: noc_status
  noc_reason :: "string option"
  noc_requestedById :: "id option"
  noc_approvedById :: "id option"
  noc_approvedAt :: "date option"

end
