(* ===== verification/Store.thy ===== *)
theory Store
  imports Rows
begin

text \<open>
  The database: the \<open>masters\<close> no modelled operation writes, and one list of rows per
  table, in insertion order. A generated id is the next unused number.

  Every write goes through an \<open>add_*\<close>, \<open>upd_*\<close> or \<open>del_*\<close> function; the
  last two select their rows by company as well, as the tenant extension makes every
  \<open>update\<close> and \<open>delete\<close> do. \<open>foreign\<close> is the part of the database that
  belongs to the other companies; the lemmas of the \<open>foreign_simps\<close> collection say
  that no such function changes it.
\<close>

named_theorems store_defs \<open>the write functions, for unfolding\<close>
named_theorems foreign_simps \<open>the write functions leave other companies' rows alone\<close>

record masters =
  companyConfigs :: "company_config list"
  areaLocations :: "area_location list"
  projects :: "project list"
  applicants :: "applicant list"
  chargeTypes :: "charge_type list"
  gstRates :: "gst_rate list"
  tdsRules :: "tds_rule list"
  interestRules :: "interest_rule list"
  transferFeeRules :: "transfer_fee_rule list"
  cancellationRules :: "cancellation_rule list"
  planTemplates :: "payment_plan_template list"
  planMilestones :: "payment_plan_milestone list"

record db =
  next_id :: id
  masters_of :: masters
  units :: "inventory_unit list"
  statusChanges :: "unit_status_change list"
  stageRaises :: "stage_raise list"
  bookings :: "booking list"
  coApplicants :: "booking_co_applicant list"
  costLines :: "booking_cost_line list"
  plans :: "payment_plan list"
  installments :: "installment list"
  ledger :: "ledger_entry list"
  receipts :: "receipt list"
  allocations :: "receipt_allocation list"
  chequeEvents :: "cheque_status_event list"
  sequences :: "number_sequence list"
  tdsDeductions :: "tds_deduction list"
  tdsCertificates :: "tds_certificate list"
  transfers :: "transfer list"
  cancellations :: "cancellation list"
  refunds :: "refund list"
  vouchers :: "payment_voucher list"
  extraCharges :: "extra_charge list"
  interestAccruals :: "interest_accrual list"
  brokers :: "broker list"
  bankDetails :: "broker_bank_detail list"
  commissionRules :: "broker_commission_rule list"
  commissionSlabs :: "broker_commission_slab list"
  bookingCommissions :: "broker_booking_commission list"
  commissionLedger :: "commission_ledger_entry list"
  commissionPayments :: "commission_payment list"
  nocs :: "broker_noc list"

section \<open>Writes\<close>

definition add_status_change :: "unit_status_change \<Rightarrow> db \<Rightarrow> db" where
  [store_defs]: "add_status_change r d = d\<lparr>statusChanges := statusChanges d @ [r], next_id := next_id d + 1\<rparr>"

definition add_stage_raise :: "stage_raise \<Rightarrow> db \<Rightarrow> db" where
  [store_defs]: "add_stage_raise r d = d\<lparr>stageRaises := stageRaises d @ [r], next_id := next_id d + 1\<rparr>"

definition add_booking :: "booking \<Rightarrow> db \<Rightarrow> db" where
  [store_defs]: "add_booking r d = d\<lparr>bookings := bookings d @ [r], next_id := next_id d + 1\<rparr>"

definition add_co_applicant :: "booking_co_applicant \<Rightarrow> db \<Rightarrow> db" where
  [store_defs]: "add_co_applicant r d = d\<lparr>coApplicants := coApplicants d @ [r], next_id := next_id d + 1\<rparr>"

definition add_cost_line :: "booking_cost_line \<Rightarrow> db \<Rightarrow> db" where
  [store_defs]: "add_cost_line r d = d\<lparr>costLines := costLines d @ [r], next_id := next_id d + 1\<rparr>"

definition add_plan :: "payment_plan \<Rightarrow> db \<Rightarrow> db" where
  [store_defs]: "add_plan r d = d\<lparr>plans := plans d @ [r], next_id := next_id d + 1\<rparr>"

definition add_installment :: "installment \<Rightarrow> db \<Rightarrow> db" where
  [store_defs]: "add_installment r d = d\<lparr>installments := installments d @ [r], next_id := next_id d + 1\<rparr>"

definition add_ledger :: "ledger_entry \<Rightarrow> db \<Rightarrow> db" where
  [store_defs]: "add_ledger r d = d\<lparr>ledger := ledger d @ [r], next_id := next_id d + 1\<rparr>"

definition add_receipt :: "receipt \<Rightarrow> db \<Rightarrow> db" where
  [store_defs]: "add_receipt r d = d\<lparr>receipts := receipts d @ [r], next_id := next_id d + 1\<rparr>"

definition add_allocation :: "receipt_allocation \<Rightarrow> db \<Rightarrow> db" where
  [store_defs]: "add_allocation r d = d\<lparr>allocations := allocations d @ [r], next_id := next_id d + 1\<rparr>"

definition add_cheque_event :: "cheque_status_event \<Rightarrow> db \<Rightarrow> db" where
  [store_defs]: "add_cheque_event r d = d\<lparr>chequeEvents := chequeEvents d @ [r], next_id := next_id d + 1\<rparr>"

definition add_sequence :: "number_sequence \<Rightarrow> db \<Rightarrow> db" where
  [store_defs]: "add_sequence r d = d\<lparr>sequences := sequences d @ [r], next_id := next_id d + 1\<rparr>"

definition add_tds_deduction :: "tds_deduction \<Rightarrow> db \<Rightarrow> db" where
  [store_defs]: "add_tds_deduction r d = d\<lparr>tdsDeductions := tdsDeductions d @ [r], next_id := next_id d + 1\<rparr>"

definition add_tds_certificate :: "tds_certificate \<Rightarrow> db \<Rightarrow> db" where
  [store_defs]: "add_tds_certificate r d = d\<lparr>tdsCertificates := tdsCertificates d @ [r], next_id := next_id d + 1\<rparr>"

definition add_transfer :: "transfer \<Rightarrow> db \<Rightarrow> db" where
  [store_defs]: "add_transfer r d = d\<lparr>transfers := transfers d @ [r], next_id := next_id d + 1\<rparr>"

definition add_cancellation :: "cancellation \<Rightarrow> db \<Rightarrow> db" where
  [store_defs]: "add_cancellation r d = d\<lparr>cancellations := cancellations d @ [r], next_id := next_id d + 1\<rparr>"

definition add_refund :: "refund \<Rightarrow> db \<Rightarrow> db" where
  [store_defs]: "add_refund r d = d\<lparr>refunds := refunds d @ [r], next_id := next_id d + 1\<rparr>"

definition add_voucher :: "payment_voucher \<Rightarrow> db \<Rightarrow> db" where
  [store_defs]: "add_voucher r d = d\<lparr>vouchers := vouchers d @ [r], next_id := next_id d + 1\<rparr>"

definition add_extra_charge :: "extra_charge \<Rightarrow> db \<Rightarrow> db" where
  [store_defs]: "add_extra_charge r d = d\<lparr>extraCharges := extraCharges d @ [r], next_id := next_id d + 1\<rparr>"

definition add_interest_accrual :: "interest_accrual \<Rightarrow> db \<Rightarrow> db" where
  [store_defs]: "add_interest_accrual r d = d\<lparr>interestAccruals := interestAccruals d @ [r], next_id := next_id d + 1\<rparr>"

definition add_broker :: "broker \<Rightarrow> db \<Rightarrow> db" where
  [store_defs]: "add_broker r d = d\<lparr>brokers := brokers d @ [r], next_id := next_id d + 1\<rparr>"

definition add_bank_detail :: "broker_bank_detail \<Rightarrow> db \<Rightarrow> db" where
  [store_defs]: "add_bank_detail r d = d\<lparr>bankDetails := bankDetails d @ [r], next_id := next_id d + 1\<rparr>"

definition add_commission_rule :: "broker_commission_rule \<Rightarrow> db \<Rightarrow> db" where
  [store_defs]: "add_commission_rule r d = d\<lparr>commissionRules := commissionRules d @ [r], next_id := next_id d + 1\<rparr>"

definition add_commission_slab :: "broker_commission_slab \<Rightarrow> db \<Rightarrow> db" where
  [store_defs]: "add_commission_slab r d = d\<lparr>commissionSlabs := commissionSlabs d @ [r], next_id := next_id d + 1\<rparr>"

definition add_booking_commission :: "broker_booking_commission \<Rightarrow> db \<Rightarrow> db" where
  [store_defs]: "add_booking_commission r d = d\<lparr>bookingCommissions := bookingCommissions d @ [r], next_id := next_id d + 1\<rparr>"

definition add_commission_ledger :: "commission_ledger_entry \<Rightarrow> db \<Rightarrow> db" where
  [store_defs]: "add_commission_ledger r d = d\<lparr>commissionLedger := commissionLedger d @ [r], next_id := next_id d + 1\<rparr>"

definition add_commission_payment :: "commission_payment \<Rightarrow> db \<Rightarrow> db" where
  [store_defs]: "add_commission_payment r d = d\<lparr>commissionPayments := commissionPayments d @ [r], next_id := next_id d + 1\<rparr>"

definition add_noc :: "broker_noc \<Rightarrow> db \<Rightarrow> db" where
  [store_defs]: "add_noc r d = d\<lparr>nocs := nocs d @ [r], next_id := next_id d + 1\<rparr>"

definition upd_unit :: "id \<Rightarrow> id \<Rightarrow> (inventory_unit \<Rightarrow> inventory_unit) \<Rightarrow> db \<Rightarrow> db" where
  [store_defs]: "upd_unit c i f d =
     d\<lparr>units := update_rows (\<lambda>r. un_companyId r = c \<and> un_id r = i) f (units d)\<rparr>"

definition upd_booking :: "id \<Rightarrow> id \<Rightarrow> (booking \<Rightarrow> booking) \<Rightarrow> db \<Rightarrow> db" where
  [store_defs]: "upd_booking c i f d =
     d\<lparr>bookings := update_rows (\<lambda>r. bk_companyId r = c \<and> bk_id r = i) f (bookings d)\<rparr>"

definition upd_plan :: "id \<Rightarrow> id \<Rightarrow> (payment_plan \<Rightarrow> payment_plan) \<Rightarrow> db \<Rightarrow> db" where
  [store_defs]: "upd_plan c i f d =
     d\<lparr>plans := update_rows (\<lambda>r. pp_companyId r = c \<and> pp_id r = i) f (plans d)\<rparr>"

definition upd_installment :: "id \<Rightarrow> id \<Rightarrow> (installment \<Rightarrow> installment) \<Rightarrow> db \<Rightarrow> db" where
  [store_defs]: "upd_installment c i f d =
     d\<lparr>installments := update_rows (\<lambda>r. in_companyId r = c \<and> in_id r = i) f (installments d)\<rparr>"

definition upd_receipt :: "id \<Rightarrow> id \<Rightarrow> (receipt \<Rightarrow> receipt) \<Rightarrow> db \<Rightarrow> db" where
  [store_defs]: "upd_receipt c i f d =
     d\<lparr>receipts := update_rows (\<lambda>r. rc_companyId r = c \<and> rc_id r = i) f (receipts d)\<rparr>"

definition upd_refund :: "id \<Rightarrow> id \<Rightarrow> (refund \<Rightarrow> refund) \<Rightarrow> db \<Rightarrow> db" where
  [store_defs]: "upd_refund c i f d =
     d\<lparr>refunds := update_rows (\<lambda>r. rf_companyId r = c \<and> rf_id r = i) f (refunds d)\<rparr>"

definition upd_voucher :: "id \<Rightarrow> id \<Rightarrow> (payment_voucher \<Rightarrow> payment_voucher) \<Rightarrow> db \<Rightarrow> db" where
  [store_defs]: "upd_voucher c i f d =
     d\<lparr>vouchers := update_rows (\<lambda>r. pv_companyId r = c \<and> pv_id r = i) f (vouchers d)\<rparr>"

definition upd_broker :: "id \<Rightarrow> id \<Rightarrow> (broker \<Rightarrow> broker) \<Rightarrow> db \<Rightarrow> db" where
  [store_defs]: "upd_broker c i f d =
     d\<lparr>brokers := update_rows (\<lambda>r. br_companyId r = c \<and> br_id r = i) f (brokers d)\<rparr>"

definition upd_commission_rule :: "id \<Rightarrow> id \<Rightarrow> (broker_commission_rule \<Rightarrow> broker_commission_rule) \<Rightarrow> db \<Rightarrow> db" where
  [store_defs]: "upd_commission_rule c i f d =
     d\<lparr>commissionRules := update_rows (\<lambda>r. bcr_companyId r = c \<and> bcr_id r = i) f (commissionRules d)\<rparr>"

definition upd_commission_payment :: "id \<Rightarrow> id \<Rightarrow> (commission_payment \<Rightarrow> commission_payment) \<Rightarrow> db \<Rightarrow> db" where
  [store_defs]: "upd_commission_payment c i f d =
     d\<lparr>commissionPayments := update_rows (\<lambda>r. cp_companyId r = c \<and> cp_id r = i) f (commissionPayments d)\<rparr>"

definition upd_noc :: "id \<Rightarrow> id \<Rightarrow> (broker_noc \<Rightarrow> broker_noc) \<Rightarrow> db \<Rightarrow> db" where
  [store_defs]: "upd_noc c i f d =
     d\<lparr>nocs := update_rows (\<lambda>r. noc_companyId r = c \<and> noc_id r = i) f (nocs d)\<rparr>"

text \<open>\<open>updateMany\<close> and \<open>deleteMany\<close> with a filter of their own.\<close>

definition updm_installment :: "id \<Rightarrow> (installment \<Rightarrow> bool) \<Rightarrow> (installment \<Rightarrow> installment) \<Rightarrow> db \<Rightarrow> db" where
  [store_defs]: "updm_installment c p f d =
     d\<lparr>installments := update_rows (\<lambda>r. in_companyId r = c \<and> p r) f (installments d)\<rparr>"

definition updm_bank_detail :: "id \<Rightarrow> (broker_bank_detail \<Rightarrow> bool) \<Rightarrow> (broker_bank_detail \<Rightarrow> broker_bank_detail) \<Rightarrow> db \<Rightarrow> db" where
  [store_defs]: "updm_bank_detail c p f d =
     d\<lparr>bankDetails := update_rows (\<lambda>r. bbd_companyId r = c \<and> p r) f (bankDetails d)\<rparr>"

definition delm_commission_slab :: "id \<Rightarrow> (broker_commission_slab \<Rightarrow> bool) \<Rightarrow> db \<Rightarrow> db" where
  [store_defs]: "delm_commission_slab c p d =
     d\<lparr>commissionSlabs := delete_rows (\<lambda>r. bcs_companyId r = c \<and> p r) (commissionSlabs d)\<rparr>"

text \<open>
  Ledger entries, interest accruals and receipt allocations refer to installments with
  \<open>ON DELETE RESTRICT\<close> (migration 20261022000000), so the delete is refused while
  one of them points to a row it would remove.
\<close>

definition installment_referenced :: "db \<Rightarrow> id \<Rightarrow> bool" where
  "installment_referenced d i \<longleftrightarrow>
     list_ex (\<lambda>e. le_installmentId e = Some i) (ledger d) \<or>
     list_ex (\<lambda>a. ia_installmentId a = Some i) (interestAccruals d) \<or>
     list_ex (\<lambda>a. ra_installmentId a = i) (allocations d)"

definition delm_installment :: "id \<Rightarrow> (installment \<Rightarrow> bool) \<Rightarrow> db \<Rightarrow> db result" where
  "delm_installment c p d =
     (if list_ex (\<lambda>r. in_companyId r = c \<and> p r \<and> installment_referenced d (in_id r)) (installments d)
      then Inl ForeignKeyViolation
      else Inr (d\<lparr>installments := delete_rows (\<lambda>r. in_companyId r = c \<and> p r) (installments d)\<rparr>))"

lemma delm_installment_Inr:
  "delm_installment c p d = Inr d' \<longleftrightarrow>
     (\<forall>r\<in>set (installments d). in_companyId r = c \<and> p r \<longrightarrow> \<not> installment_referenced d (in_id r)) \<and>
     d' = d\<lparr>installments := delete_rows (\<lambda>r. in_companyId r = c \<and> p r) (installments d)\<rparr>"
  by (auto simp: delm_installment_def list_ex_iff)

section \<open>Rows of other companies\<close>

definition foreign :: "id \<Rightarrow> db \<Rightarrow> db" where
  "foreign c d = \<lparr>next_id = 0, masters_of = masters_of d,
     units = filter (\<lambda>r. un_companyId r \<noteq> c) (units d),
     statusChanges = filter (\<lambda>r. usc_companyId r \<noteq> c) (statusChanges d),
     stageRaises = filter (\<lambda>r. sr_companyId r \<noteq> c) (stageRaises d),
     bookings = filter (\<lambda>r. bk_companyId r \<noteq> c) (bookings d),
     coApplicants = filter (\<lambda>r. bca_companyId r \<noteq> c) (coApplicants d),
     costLines = filter (\<lambda>r. bcl_companyId r \<noteq> c) (costLines d),
     plans = filter (\<lambda>r. pp_companyId r \<noteq> c) (plans d),
     installments = filter (\<lambda>r. in_companyId r \<noteq> c) (installments d),
     ledger = filter (\<lambda>r. le_companyId r \<noteq> c) (ledger d),
     receipts = filter (\<lambda>r. rc_companyId r \<noteq> c) (receipts d),
     allocations = filter (\<lambda>r. ra_companyId r \<noteq> c) (allocations d),
     chequeEvents = filter (\<lambda>r. ce_companyId r \<noteq> c) (chequeEvents d),
     sequences = filter (\<lambda>r. ns_companyId r \<noteq> c) (sequences d),
     tdsDeductions = filter (\<lambda>r. td_companyId r \<noteq> c) (tdsDeductions d),
     tdsCertificates = filter (\<lambda>r. tc_companyId r \<noteq> c) (tdsCertificates d),
     transfers = filter (\<lambda>r. tx_companyId r \<noteq> c) (transfers d),
     cancellations = filter (\<lambda>r. cn_companyId r \<noteq> c) (cancellations d),
     refunds = filter (\<lambda>r. rf_companyId r \<noteq> c) (refunds d),
     vouchers = filter (\<lambda>r. pv_companyId r \<noteq> c) (vouchers d),
     extraCharges = filter (\<lambda>r. ec_companyId r \<noteq> c) (extraCharges d),
     interestAccruals = filter (\<lambda>r. ia_companyId r \<noteq> c) (interestAccruals d),
     brokers = filter (\<lambda>r. br_companyId r \<noteq> c) (brokers d),
     bankDetails = filter (\<lambda>r. bbd_companyId r \<noteq> c) (bankDetails d),
     commissionRules = filter (\<lambda>r. bcr_companyId r \<noteq> c) (commissionRules d),
     commissionSlabs = filter (\<lambda>r. bcs_companyId r \<noteq> c) (commissionSlabs d),
     bookingCommissions = filter (\<lambda>r. bbc_companyId r \<noteq> c) (bookingCommissions d),
     commissionLedger = filter (\<lambda>r. cle_companyId r \<noteq> c) (commissionLedger d),
     commissionPayments = filter (\<lambda>r. cp_companyId r \<noteq> c) (commissionPayments d),
     nocs = filter (\<lambda>r. noc_companyId r \<noteq> c) (nocs d)\<rparr>"

lemma foreign_add_status_change [foreign_simps, simp]:
  "usc_companyId r = c \<Longrightarrow> foreign c (add_status_change r d) = foreign c d"
  by (simp add: foreign_def add_status_change_def)

lemma foreign_add_stage_raise [foreign_simps, simp]:
  "sr_companyId r = c \<Longrightarrow> foreign c (add_stage_raise r d) = foreign c d"
  by (simp add: foreign_def add_stage_raise_def)

lemma foreign_add_booking [foreign_simps, simp]:
  "bk_companyId r = c \<Longrightarrow> foreign c (add_booking r d) = foreign c d"
  by (simp add: foreign_def add_booking_def)

lemma foreign_add_co_applicant [foreign_simps, simp]:
  "bca_companyId r = c \<Longrightarrow> foreign c (add_co_applicant r d) = foreign c d"
  by (simp add: foreign_def add_co_applicant_def)

lemma foreign_add_cost_line [foreign_simps, simp]:
  "bcl_companyId r = c \<Longrightarrow> foreign c (add_cost_line r d) = foreign c d"
  by (simp add: foreign_def add_cost_line_def)

lemma foreign_add_plan [foreign_simps, simp]:
  "pp_companyId r = c \<Longrightarrow> foreign c (add_plan r d) = foreign c d"
  by (simp add: foreign_def add_plan_def)

lemma foreign_add_installment [foreign_simps, simp]:
  "in_companyId r = c \<Longrightarrow> foreign c (add_installment r d) = foreign c d"
  by (simp add: foreign_def add_installment_def)

lemma foreign_add_ledger [foreign_simps, simp]:
  "le_companyId r = c \<Longrightarrow> foreign c (add_ledger r d) = foreign c d"
  by (simp add: foreign_def add_ledger_def)

lemma foreign_add_receipt [foreign_simps, simp]:
  "rc_companyId r = c \<Longrightarrow> foreign c (add_receipt r d) = foreign c d"
  by (simp add: foreign_def add_receipt_def)

lemma foreign_add_allocation [foreign_simps, simp]:
  "ra_companyId r = c \<Longrightarrow> foreign c (add_allocation r d) = foreign c d"
  by (simp add: foreign_def add_allocation_def)

lemma foreign_add_cheque_event [foreign_simps, simp]:
  "ce_companyId r = c \<Longrightarrow> foreign c (add_cheque_event r d) = foreign c d"
  by (simp add: foreign_def add_cheque_event_def)

lemma foreign_add_sequence [foreign_simps, simp]:
  "ns_companyId r = c \<Longrightarrow> foreign c (add_sequence r d) = foreign c d"
  by (simp add: foreign_def add_sequence_def)

lemma foreign_add_tds_deduction [foreign_simps, simp]:
  "td_companyId r = c \<Longrightarrow> foreign c (add_tds_deduction r d) = foreign c d"
  by (simp add: foreign_def add_tds_deduction_def)

lemma foreign_add_tds_certificate [foreign_simps, simp]:
  "tc_companyId r = c \<Longrightarrow> foreign c (add_tds_certificate r d) = foreign c d"
  by (simp add: foreign_def add_tds_certificate_def)

lemma foreign_add_transfer [foreign_simps, simp]:
  "tx_companyId r = c \<Longrightarrow> foreign c (add_transfer r d) = foreign c d"
  by (simp add: foreign_def add_transfer_def)

lemma foreign_add_cancellation [foreign_simps, simp]:
  "cn_companyId r = c \<Longrightarrow> foreign c (add_cancellation r d) = foreign c d"
  by (simp add: foreign_def add_cancellation_def)

lemma foreign_add_refund [foreign_simps, simp]:
  "rf_companyId r = c \<Longrightarrow> foreign c (add_refund r d) = foreign c d"
  by (simp add: foreign_def add_refund_def)

lemma foreign_add_voucher [foreign_simps, simp]:
  "pv_companyId r = c \<Longrightarrow> foreign c (add_voucher r d) = foreign c d"
  by (simp add: foreign_def add_voucher_def)

lemma foreign_add_extra_charge [foreign_simps, simp]:
  "ec_companyId r = c \<Longrightarrow> foreign c (add_extra_charge r d) = foreign c d"
  by (simp add: foreign_def add_extra_charge_def)

lemma foreign_add_interest_accrual [foreign_simps, simp]:
  "ia_companyId r = c \<Longrightarrow> foreign c (add_interest_accrual r d) = foreign c d"
  by (simp add: foreign_def add_interest_accrual_def)

lemma foreign_add_broker [foreign_simps, simp]:
  "br_companyId r = c \<Longrightarrow> foreign c (add_broker r d) = foreign c d"
  by (simp add: foreign_def add_broker_def)

lemma foreign_add_bank_detail [foreign_simps, simp]:
  "bbd_companyId r = c \<Longrightarrow> foreign c (add_bank_detail r d) = foreign c d"
  by (simp add: foreign_def add_bank_detail_def)

lemma foreign_add_commission_rule [foreign_simps, simp]:
  "bcr_companyId r = c \<Longrightarrow> foreign c (add_commission_rule r d) = foreign c d"
  by (simp add: foreign_def add_commission_rule_def)

lemma foreign_add_commission_slab [foreign_simps, simp]:
  "bcs_companyId r = c \<Longrightarrow> foreign c (add_commission_slab r d) = foreign c d"
  by (simp add: foreign_def add_commission_slab_def)

lemma foreign_add_booking_commission [foreign_simps, simp]:
  "bbc_companyId r = c \<Longrightarrow> foreign c (add_booking_commission r d) = foreign c d"
  by (simp add: foreign_def add_booking_commission_def)

lemma foreign_add_commission_ledger [foreign_simps, simp]:
  "cle_companyId r = c \<Longrightarrow> foreign c (add_commission_ledger r d) = foreign c d"
  by (simp add: foreign_def add_commission_ledger_def)

lemma foreign_add_commission_payment [foreign_simps, simp]:
  "cp_companyId r = c \<Longrightarrow> foreign c (add_commission_payment r d) = foreign c d"
  by (simp add: foreign_def add_commission_payment_def)

lemma foreign_add_noc [foreign_simps, simp]:
  "noc_companyId r = c \<Longrightarrow> foreign c (add_noc r d) = foreign c d"
  by (simp add: foreign_def add_noc_def)

lemma foreign_upd_unit [foreign_simps, simp]:
  "(\<And>r. un_companyId (f r) = un_companyId r) \<Longrightarrow> foreign c (upd_unit c i f d) = foreign c d"
  by (simp add: foreign_def upd_unit_def filter_update_rows)

lemma foreign_upd_booking [foreign_simps, simp]:
  "(\<And>r. bk_companyId (f r) = bk_companyId r) \<Longrightarrow> foreign c (upd_booking c i f d) = foreign c d"
  by (simp add: foreign_def upd_booking_def filter_update_rows)

lemma foreign_upd_plan [foreign_simps, simp]:
  "(\<And>r. pp_companyId (f r) = pp_companyId r) \<Longrightarrow> foreign c (upd_plan c i f d) = foreign c d"
  by (simp add: foreign_def upd_plan_def filter_update_rows)

lemma foreign_upd_installment [foreign_simps, simp]:
  "(\<And>r. in_companyId (f r) = in_companyId r) \<Longrightarrow> foreign c (upd_installment c i f d) = foreign c d"
  by (simp add: foreign_def upd_installment_def filter_update_rows)

lemma foreign_upd_receipt [foreign_simps, simp]:
  "(\<And>r. rc_companyId (f r) = rc_companyId r) \<Longrightarrow> foreign c (upd_receipt c i f d) = foreign c d"
  by (simp add: foreign_def upd_receipt_def filter_update_rows)

lemma foreign_upd_refund [foreign_simps, simp]:
  "(\<And>r. rf_companyId (f r) = rf_companyId r) \<Longrightarrow> foreign c (upd_refund c i f d) = foreign c d"
  by (simp add: foreign_def upd_refund_def filter_update_rows)

lemma foreign_upd_voucher [foreign_simps, simp]:
  "(\<And>r. pv_companyId (f r) = pv_companyId r) \<Longrightarrow> foreign c (upd_voucher c i f d) = foreign c d"
  by (simp add: foreign_def upd_voucher_def filter_update_rows)

lemma foreign_upd_broker [foreign_simps, simp]:
  "(\<And>r. br_companyId (f r) = br_companyId r) \<Longrightarrow> foreign c (upd_broker c i f d) = foreign c d"
  by (simp add: foreign_def upd_broker_def filter_update_rows)

lemma foreign_upd_commission_rule [foreign_simps, simp]:
  "(\<And>r. bcr_companyId (f r) = bcr_companyId r) \<Longrightarrow> foreign c (upd_commission_rule c i f d) = foreign c d"
  by (simp add: foreign_def upd_commission_rule_def filter_update_rows)

lemma foreign_upd_commission_payment [foreign_simps, simp]:
  "(\<And>r. cp_companyId (f r) = cp_companyId r) \<Longrightarrow> foreign c (upd_commission_payment c i f d) = foreign c d"
  by (simp add: foreign_def upd_commission_payment_def filter_update_rows)

lemma foreign_upd_noc [foreign_simps, simp]:
  "(\<And>r. noc_companyId (f r) = noc_companyId r) \<Longrightarrow> foreign c (upd_noc c i f d) = foreign c d"
  by (simp add: foreign_def upd_noc_def filter_update_rows)

lemma foreign_updm_installment [foreign_simps, simp]:
  "(\<And>r. in_companyId (f r) = in_companyId r) \<Longrightarrow> foreign c (updm_installment c p f d) = foreign c d"
  by (simp add: foreign_def updm_installment_def filter_update_rows)

lemma foreign_updm_bank_detail [foreign_simps, simp]:
  "(\<And>r. bbd_companyId (f r) = bbd_companyId r) \<Longrightarrow> foreign c (updm_bank_detail c p f d) = foreign c d"
  by (simp add: foreign_def updm_bank_detail_def filter_update_rows)

lemma foreign_delm_commission_slab [foreign_simps, simp]:
  "foreign c (delm_commission_slab c p d) = foreign c d"
  by (simp add: foreign_def delm_commission_slab_def filter_delete_rows)

lemma foreign_delm_installment:
  "delm_installment c p d = Inr d' \<Longrightarrow> foreign c d' = foreign c d"
  by (auto simp: delm_installment_Inr foreign_def filter_delete_rows)

text \<open>The company's configuration row.\<close>

definition find_config :: "id \<Rightarrow> db \<Rightarrow> company_config option" where
  "find_config c d = List.find (\<lambda>r. cc_companyId r = c) (companyConfigs (masters_of d))"

definition fy_start_month :: "id \<Rightarrow> db \<Rightarrow> int" where
  "fy_start_month c d = (case find_config c d of None \<Rightarrow> 4 | Some cfg \<Rightarrow> cc_fyStartMonth cfg)"

definition gst_state_code :: "id \<Rightarrow> db \<Rightarrow> string option" where
  "gst_state_code c d = (case find_config c d of None \<Rightarrow> None | Some cfg \<Rightarrow> cc_gstStateCode cfg)"

definition bounce_charge :: "id \<Rightarrow> db \<Rightarrow> int" where
  "bounce_charge c d = (case find_config c d of None \<Rightarrow> 0 | Some cfg \<Rightarrow> cc_chequeBounceChargePaise cfg)"

end
