(* ===== verification/Ledger.thy ===== *)
theory Ledger
  imports Store
begin

text \<open>
  \<open>apps/api/src/postsales/ledger.service.ts\<close>: the append-only customer ledger. The
  balance of a booking is the sum of its signed entries; posting appends rows. The locale
  \<open>ledger\<close> is the contract the post-sales and commission services rely on; it is
  interpreted here on \<open>post\<close> and \<open>balanceInTx\<close>.
\<close>

section \<open>The contract\<close>

locale ledger_contract =
  fixes append_entries :: "'e list \<Rightarrow> 's \<Rightarrow> 's"
    and balance_of :: "'a \<Rightarrow> 's \<Rightarrow> int"
    and rows_of :: "'s \<Rightarrow> 'r list"
    and amount :: "'e \<Rightarrow> int"
    and account :: "'e \<Rightarrow> 'a"
  assumes balance_append:
      "balance_of a (append_entries es s)
         = balance_of a s + sum_list (map amount (filter (\<lambda>e. account e = a) es))"
    and rows_append: "\<exists>new. rows_of (append_entries es s) = rows_of s @ new \<and> length new = length es"
begin

lemma balance_other:
  "(\<And>e. e \<in> set es \<Longrightarrow> account e \<noteq> a) \<Longrightarrow> balance_of a (append_entries es s) = balance_of a s"
  by (simp add: balance_append filter_False)

lemma balance_all:
  "(\<And>e. e \<in> set es \<Longrightarrow> account e = a) \<Longrightarrow>
   balance_of a (append_entries es s) = balance_of a s + sum_list (map amount es)"
  by (simp add: balance_append filter_True)

lemma balance_single:
  "balance_of a (append_entries [e] s) = balance_of a s + (if account e = a then amount e else 0)"
  by (simp add: balance_append)

text \<open>An entry that negates the balance closes the account.\<close>

lemma balance_close:
  "account e = a \<Longrightarrow> amount e = - balance_of a s \<Longrightarrow> balance_of a (append_entries [e] s) = 0"
  by (simp add: balance_single)

text \<open>Two opposite entries on two accounts keep the total.\<close>

lemma balance_carry:
  assumes "account e = a" and "account f = b" and "a \<noteq> b" and "amount f = - amount e"
  shows "balance_of a (append_entries [e, f] s) + balance_of b (append_entries [e, f] s)
       = balance_of a s + balance_of b s"
  using assms by (simp add: balance_append)

lemma rows_prefix: "take (length (rows_of s)) (rows_of (append_entries es s)) = rows_of s"
  using rows_append [of es s] by auto

lemma rows_kept: "set (rows_of s) \<subseteq> set (rows_of (append_entries es s))"
  using rows_append [of es s] by auto

end

section \<open>The customer ledger\<close>

record ledger_input =
  li_bookingId :: id
  li_entryType :: ledger_entry_type
  li_signedAmountPaise :: int
  li_installmentId :: "id option"
  li_receiptId :: "id option"
  li_reversalOfEntryId :: "id option"
  li_reason :: "string option"
  li_effectiveDate :: date
  li_createdById :: "id option"

text \<open>An input whose optional members are absent.\<close>

definition entry_in :: "id \<Rightarrow> ledger_entry_type \<Rightarrow> int \<Rightarrow> date \<Rightarrow> ledger_input" where
  "entry_in b ty amt date =
     \<lparr>li_bookingId = b, li_entryType = ty, li_signedAmountPaise = amt, li_installmentId = None,
      li_receiptId = None, li_reversalOfEntryId = None, li_reason = None,
      li_effectiveDate = date, li_createdById = None\<rparr>"

lemma entry_in_simps [simp]:
  "li_bookingId (entry_in b ty amt d) = b" "li_entryType (entry_in b ty amt d) = ty"
  "li_signedAmountPaise (entry_in b ty amt d) = amt" "li_installmentId (entry_in b ty amt d) = None"
  "li_receiptId (entry_in b ty amt d) = None" "li_reversalOfEntryId (entry_in b ty amt d) = None"
  "li_effectiveDate (entry_in b ty amt d) = d"
  by (simp_all add: entry_in_def)

definition ledger_row :: "id \<Rightarrow> id \<Rightarrow> ledger_input \<Rightarrow> ledger_entry" where
  "ledger_row companyId new e =
     \<lparr>le_id = new, le_companyId = companyId, le_bookingId = li_bookingId e,
      le_entryType = li_entryType e, le_signedAmountPaise = li_signedAmountPaise e,
      le_installmentId = li_installmentId e, le_receiptId = li_receiptId e,
      le_reversalOfEntryId = li_reversalOfEntryId e, le_reason = li_reason e,
      le_effectiveDate = date_column (li_effectiveDate e), le_createdById = li_createdById e\<rparr>"

lemma ledger_row_simps [simp]:
  "le_id (ledger_row c n e) = n" "le_companyId (ledger_row c n e) = c"
  "le_bookingId (ledger_row c n e) = li_bookingId e" "le_entryType (ledger_row c n e) = li_entryType e"
  "le_signedAmountPaise (ledger_row c n e) = li_signedAmountPaise e"
  "le_installmentId (ledger_row c n e) = li_installmentId e"
  "le_receiptId (ledger_row c n e) = li_receiptId e"
  "le_reversalOfEntryId (ledger_row c n e) = li_reversalOfEntryId e"
  by (simp_all add: ledger_row_def)

fun post :: "id \<Rightarrow> ledger_input list \<Rightarrow> db \<Rightarrow> ledger_entry list \<times> db" where
  "post companyId [] d = ([], d)"
| "post companyId (e # es) d =
     (let row = ledger_row companyId (next_id d) e;
          (created, d') = post companyId es (add_ledger row d)
      in (row # created, d'))"

definition balanceInTx :: "id \<Rightarrow> id \<Rightarrow> db \<Rightarrow> int" where
  "balanceInTx companyId bookingId d =
     sum_list (map le_signedAmountPaise
       (filter (\<lambda>e. le_companyId e = companyId \<and> le_bookingId e = bookingId) (ledger d)))"

definition sumByTypesInTx :: "id \<Rightarrow> id \<Rightarrow> ledger_entry_type list \<Rightarrow> db \<Rightarrow> int" where
  "sumByTypesInTx companyId bookingId entryTypes d =
     sum_list (map le_signedAmountPaise
       (filter (\<lambda>e. le_companyId e = companyId \<and> le_bookingId e = bookingId \<and>
                    le_entryType e \<in> set entryTypes) (ledger d)))"

section \<open>Posting in closed form\<close>

text \<open>The rows a call creates, numbered from \<open>n\<close>.\<close>

fun post_rows :: "id \<Rightarrow> id \<Rightarrow> ledger_input list \<Rightarrow> ledger_entry list" where
  "post_rows c n [] = []"
| "post_rows c n (e # es) = ledger_row c n e # post_rows c (n + 1) es"

lemma post_eq:
  "post c es d = (post_rows c (next_id d) es,
     d\<lparr>ledger := ledger d @ post_rows c (next_id d) es, next_id := next_id d + length es\<rparr>)"
  by (induction c es d rule: post.induct) (simp_all add: add_ledger_def Let_def)

lemma length_post_rows [simp]: "length (post_rows c n es) = length es"
  by (induction c n es rule: post_rows.induct) simp_all

lemma post_rows_company [simp]: "r \<in> set (post_rows c n es) \<Longrightarrow> le_companyId r = c"
  by (induction c n es rule: post_rows.induct) auto

lemma post_rows_id: "r \<in> set (post_rows c n es) \<Longrightarrow> n \<le> le_id r \<and> le_id r < n + length es"
  by (induction c n es rule: post_rows.induct) fastforce+

lemma distinct_post_rows: "distinct (map le_id (post_rows c n es))"
  by (induction c n es rule: post_rows.induct) (auto dest: post_rows_id)

lemma post_rows_append:
  "post_rows c n (xs @ ys) = post_rows c n xs @ post_rows c (n + length xs) ys"
  by (induction c n xs rule: post_rows.induct) simp_all

lemma post_rows_nth: "i < length es \<Longrightarrow> post_rows c n es ! i = ledger_row c (n + i) (es ! i)"
  by (induction es arbitrary: n i) (auto simp: nth_Cons split: nat.splits)

lemma filter_post_rows_amounts:
  "map le_signedAmountPaise (filter (\<lambda>e. le_bookingId e = b) (post_rows c n es))
     = map li_signedAmountPaise (filter (\<lambda>e. li_bookingId e = b) es)"
  by (induction c n es rule: post_rows.induct) simp_all

lemma balance_add_rows:
  assumes "ledger d' = ledger d @ post_rows c n es"
  shows "balanceInTx c b d' = balanceInTx c b d +
           sum_list (map li_signedAmountPaise (filter (\<lambda>e. li_bookingId e = b) es))"
proof -
  have "filter (\<lambda>e. le_companyId e = c \<and> le_bookingId e = b) (post_rows c n es)
      = filter (\<lambda>e. le_bookingId e = b) (post_rows c n es)"
    by (rule filter_cong) auto
  then show ?thesis
    by (simp add: balanceInTx_def assms filter_post_rows_amounts)
qed

interpretation booking_ledger: ledger_contract "\<lambda>es d. snd (post c es d)" "balanceInTx c" ledger
  li_signedAmountPaise li_bookingId for c
proof unfold_locales
  show "balanceInTx c a (snd (post c es d)) = balanceInTx c a d +
      sum_list (map li_signedAmountPaise (filter (\<lambda>e. li_bookingId e = a) es))" for a es d
    by (rule balance_add_rows [of _ d c "next_id d" es]) (simp add: post_eq)
  show "\<exists>new. ledger (snd (post c es d)) = ledger d @ new \<and> length new = length es" for es d
    by (simp add: post_eq)
qed

lemma foreign_post [foreign_simps, simp]: "foreign c (snd (post c es d)) = foreign c d"
  by (simp add: post_eq foreign_def)

lemma foreign_post_let [foreign_simps, simp]:
  "foreign c (d\<lparr>ledger := ledger d @ post_rows c n es, next_id := m\<rparr>) = foreign c d"
  by (simp add: foreign_def)

lemma balance_cong: "ledger d' = ledger d \<Longrightarrow> balanceInTx c b d' = balanceInTx c b d"
  by (simp add: balanceInTx_def)

text \<open>An entry of a company-wide row list only counts for its own booking.\<close>

lemma balance_by_types:
  assumes "distinct tys"
    and "\<And>e. e \<in> set (ledger d) \<Longrightarrow> le_entryType e \<in> set tys"
  shows "sumByTypesInTx c b tys d = balanceInTx c b d"
proof -
  have "filter (\<lambda>e. le_companyId e = c \<and> le_bookingId e = b \<and> le_entryType e \<in> set tys) (ledger d)
      = filter (\<lambda>e. le_companyId e = c \<and> le_bookingId e = b) (ledger d)"
    using assms(2) by (intro filter_cong) auto
  then show ?thesis by (simp add: sumByTypesInTx_def balanceInTx_def)
qed

section \<open>Entries posted by a whole operation\<close>

text \<open>
  The operations interleave postings with other writes, so the ids of the entries they
  create need not be consecutive: they are increasing and new.
\<close>

definition posted :: "id \<Rightarrow> ledger_input list \<Rightarrow> db \<Rightarrow> db \<Rightarrow> bool" where
  "posted c es d d' \<longleftrightarrow>
     (\<exists>ns. length ns = length es \<and> sorted_wrt (<) ns \<and>
           (\<forall>n\<in>set ns. next_id d \<le> n \<and> n < next_id d') \<and> next_id d \<le> next_id d' \<and>
           ledger d' = ledger d @ map2 (ledger_row c) ns es)"

lemma posted_Nil [intro]:
  "ledger d' = ledger d \<Longrightarrow> next_id d \<le> next_id d' \<Longrightarrow> posted c [] d d'"
  by (simp add: posted_def)

lemma posted_refl [simp]: "posted c [] d d"
  by (rule posted_Nil) simp_all

lemma posted_next_id: "posted c es d d' \<Longrightarrow> next_id d \<le> next_id d'"
  by (auto simp: posted_def)

lemma posted_trans [trans]:
  assumes "posted c es d d'" and "posted c fs d' d''"
  shows "posted c (es @ fs) d d''"
proof -
  obtain ns where ns: "length ns = length es" "sorted_wrt (<) ns" "\<forall>n\<in>set ns. next_id d \<le> n \<and> n < next_id d'"
    and le: "next_id d \<le> next_id d'" and l1: "ledger d' = ledger d @ map2 (ledger_row c) ns es"
    using assms(1) unfolding posted_def by blast
  obtain ms where ms: "length ms = length fs" "sorted_wrt (<) ms" "\<forall>n\<in>set ms. next_id d' \<le> n \<and> n < next_id d''"
    and le2: "next_id d' \<le> next_id d''" and l2: "ledger d'' = ledger d' @ map2 (ledger_row c) ms fs"
    using assms(2) unfolding posted_def by blast
  have "sorted_wrt (<) (ns @ ms)"
    using ns(2,3) ms(2,3) by (force simp: sorted_wrt_append)
  moreover have "\<forall>n\<in>set (ns @ ms). next_id d \<le> n \<and> n < next_id d''"
    using ns(3) ms(3) le le2 by fastforce
  moreover have "ledger d'' = ledger d @ map2 (ledger_row c) (ns @ ms) (es @ fs)"
    using ns(1) ms(1) by (simp add: l1 l2)
  ultimately show ?thesis
    unfolding posted_def using ns(1) ms(1) le le2 by (intro exI [of _ "ns @ ms"]) simp
qed

text \<open>Writes to other tables do not matter.\<close>

lemma posted_cong:
  assumes "posted c es d d'" and "ledger e = ledger d" and "next_id e \<le> next_id d"
    and "ledger e' = ledger d'" and "next_id d' \<le> next_id e'"
  shows "posted c es e e'"
proof -
  have "posted c [] e d" "posted c [] d' e'" using assms(2-5) by (auto intro: posted_Nil)
  from posted_trans [OF posted_trans [OF this(1) assms(1)] this(2)] show ?thesis by simp
qed

lemma post_rows_map2: "post_rows c n es = map2 (ledger_row c) [n ..< n + length es] es"
  by (induction c n es rule: post_rows.induct) (simp_all add: upt_rec)

lemma posted_post: "posted c es d (snd (post c es d))"
  unfolding posted_def
  by (rule exI [of _ "[next_id d ..< next_id d + length es]"])
     (simp add: post_eq post_rows_map2 sorted_wrt_upt)

lemma posted_post_rows:
  "ledger d' = ledger d @ post_rows c n es \<Longrightarrow> next_id d \<le> n \<Longrightarrow> n + length es \<le> next_id d' \<Longrightarrow>
   posted c es d d'"
  unfolding posted_def post_rows_map2
  by (rule exI [of _ "[n ..< n + length es]"]) (auto simp: sorted_wrt_upt)

lemma map2_rows_amounts:
  "length ns = length es \<Longrightarrow>
   map le_signedAmountPaise (filter (\<lambda>e. le_companyId e = c \<and> le_bookingId e = b) (map2 (ledger_row c) ns es))
     = map li_signedAmountPaise (filter (\<lambda>e. li_bookingId e = b) es)"
  by (induction ns es rule: list_induct2) simp_all

lemma posted_balance:
  "posted c es d d' \<Longrightarrow> balanceInTx c b d' = balanceInTx c b d +
     sum_list (map li_signedAmountPaise (filter (\<lambda>e. li_bookingId e = b) es))"
  by (auto simp: posted_def balanceInTx_def map2_rows_amounts)

lemma posted_new_rows:
  assumes "posted c es d d'" and "r \<in> set (ledger d')"
  shows "r \<in> set (ledger d) \<or> (\<exists>n e. e \<in> set es \<and> next_id d \<le> n \<and> n < next_id d' \<and> r = ledger_row c n e)"
proof -
  obtain ns where ns: "\<forall>n\<in>set ns. next_id d \<le> n \<and> n < next_id d'"
    and l: "ledger d' = ledger d @ map2 (ledger_row c) ns es"
    using assms(1) unfolding posted_def by blast
  show ?thesis
  proof (cases "r \<in> set (ledger d)")
    case False
    then obtain n e where ne: "(n, e) \<in> set (zip ns es)" "r = ledger_row c n e"
      using assms(2) by (auto simp: l)
    then have "n \<in> set ns" "e \<in> set es" by (auto dest: set_zip_leftD set_zip_rightD)
    then show ?thesis using ns ne(2) by blast
  qed simp
qed

lemma posted_old_rows: "posted c es d d' \<Longrightarrow> set (ledger d) \<subseteq> set (ledger d')"
  by (auto simp: posted_def)

text \<open>A statistic of the ledger that ignores ids and companies moves by the posted entries.\<close>

lemma posted_sum:
  assumes "posted c es d d'" and "\<And>n e. g (ledger_row c n e) = h e"
  shows "sum_list (map g (ledger d')) = sum_list (map g (ledger d)) + (sum_list (map h es) :: int)"
proof -
  obtain ns where len: "length ns = length es" and l: "ledger d' = ledger d @ map2 (ledger_row c) ns es"
    using assms(1) by (auto simp: posted_def)
  have "map g (map2 (ledger_row c) ns es) = map h es"
    using len by (induction ns es rule: list_induct2) (simp_all add: assms(2))
  then show ?thesis by (simp add: l)
qed

lemma posted_foldl:
  assumes "\<And>x s. posted c (g x) s (f s x)"
  shows "posted c (concat (map g xs)) d (foldl f d xs)"
proof (induction xs arbitrary: d)
  case (Cons x xs)
  from posted_trans [OF assms Cons.IH] show ?case by simp
qed simp

lemma posted_single: "ledger d1 = ledger d \<Longrightarrow> next_id d \<le> next_id d1 \<Longrightarrow> posted c [e] d (snd (post c [e] d1))"
  by (rule posted_cong [OF posted_post [of c "[e]" d1]]) simp_all

end
