(* ===== verification/NumberSeq.thy ===== *)
theory NumberSeq
  imports Store
begin

text \<open>
  \<open>apps/api/src/postsales/number-sequence.service.ts\<close>: the gap-free allocator of
  document numbers. The upsert takes a row lock, so allocations in one scope are ordered;
  here an allocation is a step of the database state. The locale \<open>allocator\<close> states
  what the booking and receipt services need.
\<close>

section \<open>The contract\<close>

locale allocator =
  fixes alloc :: "'k \<Rightarrow> 's \<Rightarrow> nat \<times> 's"
    and upcoming :: "'k \<Rightarrow> 's \<Rightarrow> nat"
  assumes alloc_value: "fst (alloc k s) = upcoming k s"
    and alloc_next: "upcoming k (snd (alloc k s)) = upcoming k s + 1"
    and alloc_other: "k' \<noteq> k \<Longrightarrow> upcoming k' (snd (alloc k s)) = upcoming k' s"
begin

fun run :: "'k list \<Rightarrow> 's \<Rightarrow> ('k \<times> nat) list" where
  "run [] s = []"
| "run (k # ks) s = (k, fst (alloc k s)) # run ks (snd (alloc k s))"

text \<open>Whatever the interleaving, the numbers one scope receives are consecutive.\<close>

lemma run_consecutive:
  "map snd (filter (\<lambda>p. fst p = k) (run ks s))
     = [upcoming k s ..< upcoming k s + length (filter (\<lambda>x. x = k) ks)]"
proof (induction ks arbitrary: s)
  case (Cons x ks)
  then show ?case
    by (cases "x = k") (simp_all add: alloc_value alloc_next alloc_other upt_rec)
qed simp

lemma run_distinct: "distinct (map snd (filter (\<lambda>p. fst p = k) (run ks s)))"
  by (simp add: run_consecutive)

end

section \<open>The allocator\<close>

definition is_sequence :: "id \<Rightarrow> string \<Rightarrow> string \<Rightarrow> number_sequence \<Rightarrow> bool" where
  "is_sequence companyId kind scopeLabel r \<longleftrightarrow>
     ns_companyId r = companyId \<and> ns_kind r = kind \<and> ns_scopeLabel r = scopeLabel"

text \<open>
  \<open>INSERT ... VALUES (2) ON CONFLICT DO UPDATE SET next_value = next_value + 1
  RETURNING next_value - 1\<close>.
\<close>

definition allocate_number :: "id \<Rightarrow> string \<Rightarrow> string \<Rightarrow> db \<Rightarrow> nat \<times> db" where
  "allocate_number companyId kind scopeLabel d =
     (case List.find (is_sequence companyId kind scopeLabel) (sequences d) of
        None \<Rightarrow>
          (2 - 1,
           add_sequence \<lparr>ns_id = next_id d, ns_companyId = companyId, ns_kind = kind,
                         ns_scopeLabel = scopeLabel, ns_nextValue = 2\<rparr> d)
      | Some r \<Rightarrow>
          let next_value = ns_nextValue r + 1
          in (next_value - 1,
              d\<lparr>sequences := update_rows (is_sequence companyId kind scopeLabel)
                               (\<lambda>r. r\<lparr>ns_nextValue := next_value\<rparr>) (sequences d)\<rparr>))"

definition allocateForFy :: "id \<Rightarrow> string \<Rightarrow> date \<Rightarrow> int \<Rightarrow> db \<Rightarrow> (nat \<times> string) \<times> db" where
  "allocateForFy companyId kind date fyStartMonth d =
     (let fyLabel = financialYearLabel date fyStartMonth;
          (seq, d') = allocate_number companyId kind fyLabel d
      in ((seq, fyLabel), d'))"

text \<open>The number the next allocation returns.\<close>

definition upcoming_number :: "id \<Rightarrow> string \<times> string \<Rightarrow> db \<Rightarrow> nat" where
  "upcoming_number c k d =
     (case List.find (is_sequence c (fst k) (snd k)) (sequences d) of
        None \<Rightarrow> 1 | Some r \<Rightarrow> ns_nextValue r)"

lemma is_sequence_set_next [simp]:
  "is_sequence c k s (r\<lparr>ns_nextValue := n\<rparr>) = is_sequence c k s r"
  by (simp add: is_sequence_def)

lemma is_sequence_disjoint:
  "is_sequence c k s r \<Longrightarrow> (k', s') \<noteq> (k, s) \<Longrightarrow> \<not> is_sequence c k' s' r"
  by (auto simp: is_sequence_def)

interpretation numbers: allocator "\<lambda>k. allocate_number c (fst k) (snd k)" "upcoming_number c" for c
proof unfold_locales
  fix k k' :: "string \<times> string" and d
  let ?q = "is_sequence c (fst k) (snd k)"
  show "fst (allocate_number c (fst k) (snd k) d) = upcoming_number c k d"
    by (simp add: allocate_number_def upcoming_number_def split: option.split)
  show "upcoming_number c k (snd (allocate_number c (fst k) (snd k) d)) = upcoming_number c k d + 1"
  proof (cases "List.find ?q (sequences d)")
    case None
    then show ?thesis
      by (simp add: allocate_number_def upcoming_number_def add_sequence_def find_append is_sequence_def)
  next
    case (Some r)
    then show ?thesis
      using find_SomeD [OF Some]
      by (simp add: allocate_number_def upcoming_number_def find_update_rows)
  qed
  assume ne: "k' \<noteq> k"
  then have dis: "\<not> is_sequence c (fst k') (snd k') r" if "?q r" for r
    using that by (auto simp: is_sequence_def prod_eq_iff)
  show "upcoming_number c k' (snd (allocate_number c (fst k) (snd k) d)) = upcoming_number c k' d"
  proof (cases "List.find ?q (sequences d)")
    case None
    then show ?thesis
      using ne by (auto simp: allocate_number_def upcoming_number_def add_sequence_def find_append
        is_sequence_def prod_eq_iff split: option.split)
  next
    case (Some r)
    then show ?thesis
      using dis by (auto simp: allocate_number_def upcoming_number_def find_update_rows Let_def
        dest!: find_SomeD split: option.split)
  qed
qed

lemma foreign_allocate_number [foreign_simps, simp]:
  "foreign c (snd (allocate_number c k s d)) = foreign c d"
proof -
  have "filter (\<lambda>r. ns_companyId r \<noteq> c) (update_rows (is_sequence c k s) (\<lambda>r. r\<lparr>ns_nextValue := n\<rparr>) rs)
      = filter (\<lambda>r. ns_companyId r \<noteq> c) rs" for n rs
    by (rule filter_update_rows) (auto simp: is_sequence_def)
  then show ?thesis
    by (auto simp: allocate_number_def Let_def foreign_def add_sequence_def split: option.split)
qed

text \<open>An allocation touches the sequences and nothing else.\<close>

lemma allocate_number_frame:
  "\<exists>qs n. snd (allocate_number c k s d) = d\<lparr>sequences := qs, next_id := n\<rparr> \<and> next_id d \<le> n"
proof (cases "List.find (is_sequence c k s) (sequences d)")
  case None
  show ?thesis
    by (rule exI, rule exI [of _ "next_id d + 1"], rule conjI)
       (simp_all add: allocate_number_def None add_sequence_def)
next
  case (Some r)
  then show ?thesis
    by (auto simp: allocate_number_def Let_def intro!: exI [of _ "next_id d"])
qed

lemma allocateForFy_eq:
  "allocateForFy c kind date m d =
     (let fy = financialYearLabel date m in
      ((upcoming_number c (kind, fy) d, fy), snd (allocate_number c kind fy d)))"
  using numbers.alloc_value [of c "(kind, financialYearLabel date m)" d]
  by (simp add: allocateForFy_def Let_def split_beta)

end
