(* ===== verification/UnitMachine.thy ===== *)
theory UnitMachine
  imports Store
begin

text \<open>
  \<open>apps/api/src/inventory/unit-state-machine.service.ts\<close>: the transition of a unit's
  status, with its guards and its audit row. The locale \<open>status_machine\<close> is the contract
  of a status column moved along fixed edges; it is interpreted on the unit machine here
  and on the refund, commission payment and NOC workflows in their own theories.
\<close>

section \<open>The contract\<close>

locale status_machine =
  fixes status_of :: "'k \<Rightarrow> 's \<Rightarrow> 'st option"
    and move :: "'k \<Rightarrow> 'st \<Rightarrow> 's \<Rightarrow> 's result"
    and edge :: "'st \<Rightarrow> 'st \<Rightarrow> bool"
  assumes move_edge: "move k t s = Inr s' \<Longrightarrow> \<exists>f. status_of k s = Some f \<and> edge f t"
    and move_target: "move k t s = Inr s' \<Longrightarrow> status_of k s' = Some t"
    and move_other: "move k t s = Inr s' \<Longrightarrow> k' \<noteq> k \<Longrightarrow> status_of k' s' = status_of k' s"
begin

definition moves :: "('k \<times> 'st) list \<Rightarrow> 's \<Rightarrow> 's result" where
  "moves = foldE (\<lambda>(k, t) s. move k t s)"

lemma moves_Nil [simp]: "moves [] s = Inr s"
  by (simp add: moves_def)

lemma moves_Cons [simp]: "moves ((k, t) # ms) s = bindE (move k t s) (moves ms)"
  by (simp add: moves_def)

text \<open>A status without successors is final.\<close>

lemma final_stuck:
  "status_of k s = Some f \<Longrightarrow> (\<And>t. \<not> edge f t) \<Longrightarrow> \<exists>e. move k t s = Inl e"
  by (cases "move k t s") (auto dest: move_edge)

lemma no_edge_fails: "status_of k s = Some f \<Longrightarrow> \<not> edge f t \<Longrightarrow> \<exists>e. move k t s = Inl e"
  by (cases "move k t s") (auto dest: move_edge)

text \<open>Any sequence of moves takes every key along the edges.\<close>

lemma moves_along_edges:
  "moves ms s = Inr s' \<Longrightarrow> status_of k s = Some f \<Longrightarrow>
   \<exists>f'. status_of k s' = Some f' \<and> edge\<^sup>*\<^sup>* f f'"
proof (induction ms arbitrary: s f)
  case (Cons m ms)
  obtain k0 t where m: "m = (k0, t)" by (cases m)
  from Cons.prems(1) m obtain s1 where s1: "move k0 t s = Inr s1" and r: "moves ms s1 = Inr s'"
    by auto
  show ?case
  proof (cases "k0 = k")
    case True
    from move_edge [OF s1] Cons.prems(2) True have e: "edge f t" by auto
    from move_target [OF s1] True have "status_of k s1 = Some t" by simp
    from Cons.IH [OF r this] e show ?thesis by (meson converse_rtranclp_into_rtranclp)
  next
    case False
    with move_other [OF s1] Cons.prems(2) have "status_of k s1 = Some f" by simp
    from Cons.IH [OF r this] show ?thesis .
  qed
qed auto

end

section \<open>The unit machine\<close>

definition find_unit :: "id \<Rightarrow> id \<Rightarrow> db \<Rightarrow> inventory_unit option" where
  "find_unit companyId unitId d =
     List.find (\<lambda>u. un_id u = unitId \<and> un_companyId u = companyId) (units d)"

record transition_result =
  tr_unitId :: id
  tr_fromStatus :: unit_status
  tr_toStatus :: unit_status

definition transition ::
  "id \<Rightarrow> id \<Rightarrow> unit_status \<Rightarrow> actor_type \<Rightarrow> id option \<Rightarrow> string option \<Rightarrow> db \<Rightarrow>
   (transition_result \<times> db) result" where
  "transition companyId unitId toStatus actorType actorId reason d =
     (if toStatus \<in> set REASON_REQUIRED_STATUSES \<and> missing reason then
        Inl (BadRequest ''Reason is mandatory'')
      else if actorType = user \<and> isSystemOnlyTarget toStatus then
        Inl (BadRequest ''Transition is system-only'')
      else
        bindE (orFail (NotFound ''Unit not found'') (find_unit companyId unitId d)) (\<lambda>unit.
          let fromStatus = un_status unit
          in if \<not> isValidTransition fromStatus toStatus then
               Inl (BadRequest ''Invalid transition'')
             else
               let d1 = upd_unit companyId unitId (\<lambda>u. u\<lparr>un_status := toStatus\<rparr>) d;
                   d2 = add_status_change
                     \<lparr>usc_id = next_id d1, usc_companyId = companyId, usc_unitId = unitId,
                      usc_fromStatus = fromStatus, usc_toStatus = toStatus, usc_reason = reason,
                      usc_actorType = actorType, usc_actorId = actorId\<rparr> d1
               in Inr (\<lparr>tr_unitId = unitId, tr_fromStatus = fromStatus, tr_toStatus = toStatus\<rparr>, d2)))"

definition unit_status_of :: "id \<Rightarrow> id \<Rightarrow> db \<Rightarrow> unit_status option" where
  "unit_status_of c u d = map_option un_status (find_unit c u d)"

text \<open>A successful transition in closed form.\<close>

lemma transition_Inr:
  "transition c u t ac ai r d = Inr (x, d') \<longleftrightarrow>
     (t \<in> set REASON_REQUIRED_STATUSES \<longrightarrow> \<not> missing r) \<and>
     (ac = user \<longrightarrow> \<not> isSystemOnlyTarget t) \<and>
     (\<exists>f. unit_status_of c u d = Some f \<and> isValidTransition f t \<and>
        x = \<lparr>tr_unitId = u, tr_fromStatus = f, tr_toStatus = t\<rparr> \<and>
        d' = add_status_change
               \<lparr>usc_id = next_id d, usc_companyId = c, usc_unitId = u, usc_fromStatus = f,
                usc_toStatus = t, usc_reason = r, usc_actorType = ac, usc_actorId = ai\<rparr>
               (upd_unit c u (\<lambda>u. u\<lparr>un_status := t\<rparr>) d))"
  by (auto simp: transition_def unit_status_of_def Let_def upd_unit_def)

lemma unit_status_after_upd:
  "unit_status_of c k (upd_unit c u (\<lambda>u. u\<lparr>un_status := t\<rparr>) d) =
     (if k = u then map_option (\<lambda>_. t) (unit_status_of c u d) else unit_status_of c k d)"
proof -
  have "List.find (\<lambda>x. un_id x = k \<and> un_companyId x = c)
          (update_rows (\<lambda>r. un_companyId r = c \<and> un_id r = u) (\<lambda>u. u\<lparr>un_status := t\<rparr>) (units d))
      = map_option (\<lambda>r. if un_companyId r = c \<and> un_id r = u then r\<lparr>un_status := t\<rparr> else r)
          (find_unit c k d)"
    unfolding find_unit_def by (rule find_update_rows) simp
  then show ?thesis
    by (auto simp: unit_status_of_def find_unit_def upd_unit_def option.map_comp o_def
        map_option_case split: option.splits dest!: find_SomeD)
qed

lemma unit_status_cong: "units d' = units d \<Longrightarrow> unit_status_of c u d' = unit_status_of c u d"
  by (simp add: unit_status_of_def find_unit_def)

lemma units_add_status_change [simp]: "units (add_status_change r d) = units d"
  by (simp add: add_status_change_def)

lemma unit_status_add_status_change [simp]:
  "unit_status_of c u (add_status_change r d) = unit_status_of c u d"
  by (rule unit_status_cong) simp

lemma transition_status:
  assumes "transition c u t ac ai r d = Inr (x, d')"
  shows "unit_status_of c k d' = (if k = u then Some t else unit_status_of c k d)"
  using assms by (auto simp: transition_Inr unit_status_after_upd)

text \<open>The fields a transition may change.\<close>

lemma transition_db:
  "transition c u t ac ai r d = Inr (x, d') \<Longrightarrow>
   \<exists>cs. d' = d\<lparr>units := update_rows (\<lambda>r. un_companyId r = c \<and> un_id r = u)
                            (\<lambda>u. u\<lparr>un_status := t\<rparr>) (units d),
                 statusChanges := cs, next_id := next_id d + 1\<rparr>"
  by (auto simp: transition_Inr add_status_change_def upd_unit_def)

lemma foreign_transition [foreign_simps]:
  "transition c u t ac ai r d = Inr (x, d') \<Longrightarrow> foreign c d' = foreign c d"
  by (auto simp: transition_Inr)

definition system_move :: "id \<Rightarrow> id option \<Rightarrow> string option \<Rightarrow> id \<Rightarrow> unit_status \<Rightarrow> db \<Rightarrow> db result" where
  "system_move c actor reason u t d =
     bindE (transition c u t system actor reason d) (\<lambda>(_, d'). Inr d')"

definition user_move :: "id \<Rightarrow> id option \<Rightarrow> string option \<Rightarrow> id \<Rightarrow> unit_status \<Rightarrow> db \<Rightarrow> db result" where
  "user_move c actor reason u t d =
     bindE (transition c u t user actor reason d) (\<lambda>(_, d'). Inr d')"

definition user_edge :: "unit_status \<Rightarrow> unit_status \<Rightarrow> bool" where
  "user_edge f t \<longleftrightarrow> isValidTransition f t \<and> \<not> isSystemOnlyTarget t"

interpretation system_units: status_machine "unit_status_of c" "system_move c actor reason" isValidTransition
  for c actor reason
  by unfold_locales (auto simp: system_move_def transition_Inr unit_status_after_upd)

interpretation user_units: status_machine "unit_status_of c" "user_move c actor reason" user_edge
  for c actor reason
  by unfold_locales (auto simp: user_move_def user_edge_def transition_Inr unit_status_after_upd)

lemma user_edge_targets: "user_edge f t \<Longrightarrow> t = AVAILABLE \<or> t = HELD \<or> t = BLOCKED"
  by (cases t) (auto simp: user_edge_def isSystemOnlyTarget_iff)

lemma user_edge_sources:
  "user_edge f t \<Longrightarrow> f = AVAILABLE \<or> f = HELD \<or> f = BLOCKED \<or> f = CANCELLED"
  by (cases f) (auto simp: user_edge_def isSystemOnlyTarget_iff)

lemma user_path_from_sold:
  "user_edge\<^sup>*\<^sup>* f t \<Longrightarrow> f = BOOKED \<or> f = ALLOTTED \<or> f = REGISTERED \<Longrightarrow> t = f"
  by (induction rule: converse_rtranclp_induct) (auto dest: user_edge_sources)

section \<open>Frames\<close>

text \<open>From \<open>d\<close> to \<open>d'\<close> only units, their status history and the id supply move.\<close>

definition only_units :: "db \<Rightarrow> db \<Rightarrow> bool" where
  "only_units d d' \<longleftrightarrow>
     d' = d\<lparr>units := units d', statusChanges := statusChanges d', next_id := next_id d'\<rparr> \<and>
     next_id d \<le> next_id d'"

lemma only_units_refl [simp]: "only_units d d"
  by (simp add: only_units_def)

lemma only_units_trans [trans]:
  assumes "only_units d e" and "only_units e f"
  shows "only_units d f"
proof -
  obtain us scs n us' scs' m where "e = d\<lparr>units := us, statusChanges := scs, next_id := n\<rparr>"
    and "f = e\<lparr>units := us', statusChanges := scs', next_id := m\<rparr>" and "next_id d \<le> n" "n \<le> m"
    using assms unfolding only_units_def by (metis db.select_convs(1) db.update_convs(1))
  then show ?thesis by (simp add: only_units_def)
qed

lemma only_units_transition: "transition c u t ac ai r d = Inr (x, d') \<Longrightarrow> only_units d d'"
  by (auto simp: only_units_def transition_Inr add_status_change_def upd_unit_def)

end
