(* ===== verification/Samples.thy ===== *)
theory Samples
  imports Store
begin

text \<open>
  A small concrete database on which the theorems are applied: company 1 with one project
  of two flats and one plot, two applicants, the masters of the financial core and one
  broker; company 2 with one applicant. Ids below 100 are taken.
\<close>

definition demo_masters :: masters where
  "demo_masters = \<lparr>
     companyConfigs = [\<lparr>cc_companyId = 1, cc_fyStartMonth = 4, cc_gstStateCode = Some ''27'',
        cc_chequeBounceChargePaise = 50000, cc_commissionAccrualTrigger = ON_BOOKING,
        cc_commissionClawbackPolicy = RECOVER\<rparr>],
     areaLocations = [\<lparr>al_id = 2, al_companyId = 1, al_stateCode = Some ''27''\<rparr>],
     projects = [\<lparr>pj_id = 3, pj_companyId = 1, pj_shape = HIGH_RISE, pj_areaLocationId = Some 2\<rparr>],
     applicants = [\<lparr>ap_id = 4, ap_companyId = 1, ap_mergedIntoId = None\<rparr>,
                   \<lparr>ap_id = 5, ap_companyId = 1, ap_mergedIntoId = None\<rparr>,
                   \<lparr>ap_id = 6, ap_companyId = 2, ap_mergedIntoId = None\<rparr>],
     chargeTypes = [\<lparr>ct_id = 7, ct_companyId = 1, ct_gstRateId = Some 8\<rparr>],
     gstRates = [\<lparr>gr_id = 8, gr_companyId = 1, gr_rate = 18\<rparr>, \<lparr>gr_id = 9, gr_companyId = 1, gr_rate = 5\<rparr>],
     tdsRules = [\<lparr>tr_id = 10, tr_companyId = 1, tr_section = ''194-IA'', tr_ratePercent = 1,
        tr_thresholdPaise = 1000, tr_effectiveFrom = 0, tr_effectiveTo = None\<rparr>,
        \<lparr>tr_id = 11, tr_companyId = 1, tr_section = ''194-H'', tr_ratePercent = 5,
        tr_thresholdPaise = 0, tr_effectiveFrom = 0, tr_effectiveTo = None\<rparr>],
     interestRules = [\<lparr>ir_id = 12, ir_companyId = 1, ir_name = ''delay'', ir_rateType = SIMPLE,
        ir_ratePercent = 18\<rparr>],
     transferFeeRules = [\<lparr>tf_id = 13, tf_companyId = 1, tf_feeType = ''FIXED'',
        tf_amountPaise = Some 2500, tf_percentage = None\<rparr>],
     cancellationRules = [\<lparr>cr_id = 14, cr_companyId = 1, cr_deductionType = ''FLAT'',
        cr_deductionPercent = None, cr_deductionAmountPaise = Some 700,
        cr_forfeitBookingAmount = False\<rparr>],
     planTemplates = [\<lparr>pt_id = 15, pt_companyId = 1, pt_name = ''CLP''\<rparr>],
     planMilestones =
       [\<lparr>pm_id = 16, pm_companyId = 1, pm_templateId = 15, pm_seq = 1, pm_label = ''Booking'',
         pm_percent = 20, pm_milestoneType = DATE_LINKED, pm_dueOffsetDays = 7,
         pm_graceDaysAfterRaise = 0\<rparr>,
        \<lparr>pm_id = 17, pm_companyId = 1, pm_templateId = 15, pm_seq = 2, pm_label = ''Plinth'',
         pm_percent = 80, pm_milestoneType = STAGE_LINKED, pm_dueOffsetDays = 0,
         pm_graceDaysAfterRaise = 15\<rparr>]\<rparr>"

definition demo_flat :: "id \<Rightarrow> unit_status \<Rightarrow> inventory_unit" where
  "demo_flat i s =
     \<lparr>un_id = i, un_companyId = 1, un_projectId = 3, un_shape = HIGH_RISE, un_towerProjectId = Some 3,
      un_number = ''A-101'', un_status = s, un_landAreaEntered = None, un_landAreaEnteredUnit = None,
      un_landAreaSqft = None, un_baseRatePaise = 100000, un_rateUnit = SQFT, un_isActive = True\<rparr>"

definition demo_plot :: inventory_unit where
  "demo_plot =
     \<lparr>un_id = 22, un_companyId = 1, un_projectId = 3, un_shape = LAND_BASED, un_towerProjectId = None,
      un_number = ''P-1'', un_status = AVAILABLE, un_landAreaEntered = Some 2500000,
      un_landAreaEnteredUnit = Some ACRE, un_landAreaSqft = Some 108900000000,
      un_baseRatePaise = 40000, un_rateUnit = ACRE, un_isActive = True\<rparr>"

definition empty_db :: "masters \<Rightarrow> inventory_unit list \<Rightarrow> id \<Rightarrow> db" where
  "empty_db m us n =
     \<lparr>next_id = n, masters_of = m, units = us, statusChanges = [], stageRaises = [], bookings = [],
      coApplicants = [], costLines = [], plans = [], installments = [], ledger = [], receipts = [],
      allocations = [], chequeEvents = [], sequences = [], tdsDeductions = [], tdsCertificates = [],
      transfers = [], cancellations = [], refunds = [], vouchers = [], extraCharges = [],
      interestAccruals = [], brokers = [], bankDetails = [], commissionRules = [], commissionSlabs = [],
      bookingCommissions = [], commissionLedger = [], commissionPayments = [], nocs = []\<rparr>"

definition demo_broker :: broker where
  "demo_broker = \<lparr>br_id = 30, br_companyId = 1, br_name = ''B'', br_phone = ''1'', br_email = None, br_reraAgentNo = None,
     br_panCiphertext = None,
     br_panMasked = None, br_isActive = True, br_deactivatedAt = None\<rparr>"

definition demo_db :: db where
  "demo_db = (empty_db demo_masters [demo_flat 20 AVAILABLE, demo_flat 21 HELD, demo_plot] 100)
     \<lparr>brokers := [demo_broker],
      commissionRules := [\<lparr>bcr_id = 31, bcr_companyId = 1, bcr_brokerId = 30, bcr_projectId = None,
        bcr_commissionType = FLAT_PERCENT, bcr_flatPercent = Some 2, bcr_flatPaise = None,
        bcr_milestonesJson = Some [25, 50, 100], bcr_isActive = True\<rparr>]\<rparr>"

text \<open>1 June 2026.\<close>

definition demo_day :: date where
  "demo_day = 20605 * DAY_MS"

text \<open>
  The same database later: flat 20 is booked (booking 40, agreed price 110900 paise, two
  opening charges), with a plan of two installments from the template; the second waits
  for its stage.
\<close>

definition demo_installment :: "id \<Rightarrow> int \<Rightarrow> date option \<Rightarrow> int \<Rightarrow> int \<Rightarrow> installment" where
  "demo_installment i s due amount alloc =
     \<lparr>in_id = i, in_companyId = 1, in_bookingId = 40, in_planId = 43, in_seq = s, in_label = ''I'',
      in_milestoneType = (if due = None then STAGE_LINKED else DATE_LINKED), in_milestoneSeq = Some s,
      in_dueDate = due, in_amountPaise = amount, in_milestonePercent = None, in_allocatedPaise = alloc,
      in_status = (if alloc = 0 then UNPAID else if alloc < amount then PART_PAID else PAID),
      in_isActive = True, in_stageRaiseId = None\<rparr>"

definition demo_entry :: "id \<Rightarrow> ledger_entry_type \<Rightarrow> int \<Rightarrow> ledger_entry" where
  "demo_entry i ty amount =
     \<lparr>le_id = i, le_companyId = 1, le_bookingId = 40, le_entryType = ty, le_signedAmountPaise = amount,
      le_installmentId = None, le_receiptId = None, le_reversalOfEntryId = None, le_reason = None,
      le_effectiveDate = demo_day, le_createdById = None\<rparr>"

definition demo_booking :: booking where
  "demo_booking =
     \<lparr>bk_id = 40, bk_companyId = 1, bk_unitId = 20, bk_primaryApplicantId = 4, bk_bookingNumber = ''B'',
      bk_status = BOOKING_BOOKED, bk_agreedPricePaise = 110900, bk_placeOfSupplyStateCode = Some ''27'',
      bk_paymentPlanTemplateId = Some 15, bk_interestRuleId = Some 12, bk_brokerId = None,
      bk_bookingDate = demo_day, bk_allotmentDate = None, bk_registrationDate = None,
      bk_cancelledAt = None, bk_createdById = None\<rparr>"

definition demo_sold :: db where
  "demo_sold = demo_db
     \<lparr>units := [demo_flat 20 BOOKED, demo_flat 21 HELD, demo_plot],
      bookings := [demo_booking],
      plans := [\<lparr>pp_id = 43, pp_companyId = 1, pp_bookingId = 40, pp_templateId = Some 15, pp_name = ''CLP'',
        pp_isCustom = False, pp_version = 1, pp_isActive = True, pp_createdById = None\<rparr>],
      installments := [demo_installment 44 1 (Some demo_day) 22180 0, demo_installment 45 2 None 88720 0],
      ledger := [demo_entry 46 CHARGE 105000, demo_entry 47 CHARGE 5900]\<rparr>"

end
