(* ===== verification/Booking.thy ===== *)
theory Booking
  imports Ledger NumberSeq UnitMachine Gst Samples
begin

text \<open>
  \<open>apps/api/src/postsales/booking.service.ts\<close> and
  \<open>booking-cost-line-verifier.service.ts\<close>: creating a booking (GST resolution, number,
  co-applicants, cost lines, opening charges, unit status), allotting and registering it,
  and the recomputation of BASE lines from a plot's rate and area. The lemmas give the
  opening balance, the status the unit ends in, and the guards.
\<close>

section \<open>Requests\<close>

record booking_cost_line_input =
  cl_kind :: cost_line_kind
  cl_chargeTypeId :: "id option"
  cl_label :: string
  cl_baseAmountPaise :: int
  cl_gstRateId :: "id option"

record create_booking_dto =
  cb_unitId :: id
  cb_primaryApplicantId :: id
  cb_coApplicantIds :: "id list"
  cb_bookingDate :: date
  cb_placeOfSupplyStateCode :: "string option"
  cb_paymentPlanTemplateId :: "id option"
  cb_costLines :: "booking_cost_line_input list"

definition bookingCostLineInputSchema :: "booking_cost_line_input \<Rightarrow> bool" where
  "bookingCostLineInputSchema l \<longleftrightarrow>
     1 \<le> length (cl_label l) \<and> length (cl_label l) \<le> 255 \<and> 0 \<le> cl_baseAmountPaise l"

definition createBookingSchema :: "create_booking_dto \<Rightarrow> bool" where
  "createBookingSchema dto \<longleftrightarrow>
     length (cb_coApplicantIds dto) \<le> 5 \<and>
     (case cb_placeOfSupplyStateCode dto of None \<Rightarrow> True | Some s \<Rightarrow> length s = 2) \<and>
     1 \<le> length (cb_costLines dto) \<and> list_all bookingCostLineInputSchema (cb_costLines dto)"

section \<open>Verifying BASE lines\<close>

definition ALLOWED_SLACK_PAISE :: int where
  "ALLOWED_SLACK_PAISE = 1"

definition verify_line :: "inventory_unit \<Rightarrow> int \<Rightarrow> area_unit \<Rightarrow> booking_cost_line_input \<Rightarrow> unit result" where
  "verify_line u landAreaEnteredScaled enteredUnit line =
     (if cl_kind line \<noteq> KIND_BASE then Inr ()
      else
        bindE (computeBaseAmountPaise (un_baseRatePaise u) (un_rateUnit u) landAreaEnteredScaled enteredUnit)
          (\<lambda>expected.
            let diff = (if expected > cl_baseAmountPaise line then expected - cl_baseAmountPaise line
                        else cl_baseAmountPaise line - expected)
            in ensure (\<not> diff > ALLOWED_SLACK_PAISE)
                 (BadRequest ''submitted amount does not match the rate x area'')))"

definition verifyForCreate :: "id \<Rightarrow> id \<Rightarrow> booking_cost_line_input list \<Rightarrow> db \<Rightarrow> unit result" where
  "verifyForCreate companyId unitId cost_lines d =
     (case find_unit companyId unitId d of
        None \<Rightarrow> Inr ()
      | Some u \<Rightarrow>
          if un_shape u \<noteq> LAND_BASED then Inr ()
          else (case (un_landAreaEntered u, un_landAreaEnteredUnit u) of
                  (Some a, Some eu) \<Rightarrow>
                    bindE (toAreaScaled (AreaText (fromAreaScaled a))) (\<lambda>landAreaEnteredScaled.
                      bindE (traverse (verify_line u landAreaEnteredScaled eu) cost_lines) (\<lambda>_. Inr ()))
                | _ \<Rightarrow> Inr ()))"

section \<open>Resolving the cost lines\<close>

record resolved_line =
  rl_kind :: cost_line_kind
  rl_chargeTypeId :: "id option"
  rl_label :: string
  rl_baseAmountPaise :: int
  rl_gstRateId :: id
  rl_gstRatePercentSnapshot :: number
  rl_cgstPaise :: int
  rl_sgstPaise :: int
  rl_igstPaise :: int
  rl_lineTotalPaise :: int
  rl_sortOrder :: int

definition find_charge_type :: "id \<Rightarrow> id \<Rightarrow> db \<Rightarrow> charge_type option" where
  "find_charge_type c i d = List.find (\<lambda>r. ct_id r = i \<and> ct_companyId r = c) (chargeTypes (masters_of d))"

definition find_gst_rate :: "id \<Rightarrow> id \<Rightarrow> db \<Rightarrow> gst_rate option" where
  "find_gst_rate c i d = List.find (\<lambda>r. gr_id r = i \<and> gr_companyId r = c) (gstRates (masters_of d))"

text \<open>A line's own rate, else its charge type's, else the BASE line's.\<close>

definition effective_gst_rate ::
  "id \<Rightarrow> db \<Rightarrow> id option \<Rightarrow> booking_cost_line_input \<Rightarrow> id option result" where
  "effective_gst_rate companyId d baseLineGstRateId line =
     bindE (case (cl_gstRateId line, cl_chargeTypeId line) of
              (None, Some ct) \<Rightarrow>
                bindE (orFail (NotFound ''Charge type not found'') (find_charge_type companyId ct d))
                  (\<lambda>r. Inr (ct_gstRateId r))
            | (own, _) \<Rightarrow> Inr own)
       (\<lambda>eff. Inr (case eff of None \<Rightarrow> baseLineGstRateId | Some g \<Rightarrow> Some g))"

definition resolve_line ::
  "id \<Rightarrow> db \<Rightarrow> bool \<Rightarrow> id option \<Rightarrow> nat \<times> booking_cost_line_input \<Rightarrow> resolved_line result" where
  "resolve_line companyId d intraState baseLineGstRateId il =
     (case il of (i, line) \<Rightarrow>
       bindE (effective_gst_rate companyId d baseLineGstRateId line) (\<lambda>eff.
       bindE (orFail (BadRequest ''Cannot determine GST for cost line'') eff) (\<lambda>rateId.
       bindE (orFail (NotFound ''GST rate not found'') (find_gst_rate companyId rateId d)) (\<lambda>gr.
       bindE (computeCostLineGst (cl_baseAmountPaise line) (gr_rate gr) intraState) (\<lambda>gst.
         Inr \<lparr>rl_kind = cl_kind line, rl_chargeTypeId = cl_chargeTypeId line, rl_label = cl_label line,
              rl_baseAmountPaise = cl_baseAmountPaise line, rl_gstRateId = rateId,
              rl_gstRatePercentSnapshot = gr_rate gr, rl_cgstPaise = cgstPaise gst,
              rl_sgstPaise = sgstPaise gst, rl_igstPaise = igstPaise gst,
              rl_lineTotalPaise = lineTotalPaise gst, rl_sortOrder = int i\<rparr>)))))"

definition resolve_lines ::
  "id \<Rightarrow> db \<Rightarrow> bool \<Rightarrow> booking_cost_line_input list \<Rightarrow> resolved_line list result" where
  "resolve_lines companyId d intraState cost_lines =
     (let baseLineGstRateId = (case List.find (\<lambda>l. cl_kind l = KIND_BASE) cost_lines of
                                 None \<Rightarrow> None | Some l \<Rightarrow> cl_gstRateId l)
      in traverse (resolve_line companyId d intraState baseLineGstRateId) (List.enumerate 0 cost_lines))"

definition find_project :: "id \<Rightarrow> db \<Rightarrow> project option" where
  "find_project i d = List.find (\<lambda>p. pj_id p = i) (projects (masters_of d))"

text \<open>\<open>unit.project.areaLocation?.stateCode ?? null\<close>, through the relations.\<close>

definition project_state_code :: "inventory_unit \<Rightarrow> db \<Rightarrow> string option" where
  "project_state_code u d =
     (case find_project (un_projectId u) d of
        None \<Rightarrow> None
      | Some p \<Rightarrow> (case pj_areaLocationId p of
          None \<Rightarrow> None
        | Some a \<Rightarrow> (case List.find (\<lambda>l. al_id l = a) (areaLocations (masters_of d)) of
            None \<Rightarrow> None | Some l \<Rightarrow> al_stateCode l)))"

definition place_of_supply :: "create_booking_dto \<Rightarrow> inventory_unit \<Rightarrow> db \<Rightarrow> string option" where
  "place_of_supply dto u d =
     (case cb_placeOfSupplyStateCode dto of Some s \<Rightarrow> Some s | None \<Rightarrow> project_state_code u d)"

section \<open>Creating the rows\<close>

definition BOOKABLE_FROM :: "unit_status list" where
  "BOOKABLE_FROM = [AVAILABLE, HELD]"

text \<open>
  One co-applicant: \<open>(bookingId, applicantId)\<close> is unique and the applicant must exist.
  Nothing ties the applicant to the company: the id is not looked up before.
\<close>

definition add_co_applicant_checked :: "id \<Rightarrow> id \<Rightarrow> nat \<times> id \<Rightarrow> db \<Rightarrow> db result" where
  "add_co_applicant_checked companyId bookingId ia d =
     (if list_ex (\<lambda>r. bca_bookingId r = bookingId \<and> bca_applicantId r = snd ia) (coApplicants d)
      then Inl UniqueViolation
      else if \<not> list_ex (\<lambda>a. ap_id a = snd ia) (applicants (masters_of d))
      then Inl ForeignKeyViolation
      else Inr (add_co_applicant \<lparr>bca_id = next_id d, bca_companyId = companyId,
                  bca_bookingId = bookingId, bca_applicantId = snd ia, bca_ordinal = int (fst ia) + 2\<rparr> d))"

definition cost_line_row :: "id \<Rightarrow> id \<Rightarrow> id \<Rightarrow> resolved_line \<Rightarrow> booking_cost_line" where
  "cost_line_row new companyId bookingId l =
     \<lparr>bcl_id = new, bcl_companyId = companyId, bcl_bookingId = bookingId, bcl_kind = rl_kind l,
      bcl_chargeTypeId = rl_chargeTypeId l, bcl_label = rl_label l,
      bcl_baseAmountPaise = rl_baseAmountPaise l, bcl_gstRateId = Some (rl_gstRateId l),
      bcl_gstRatePercentSnapshot = rl_gstRatePercentSnapshot l, bcl_cgstPaise = rl_cgstPaise l,
      bcl_sgstPaise = rl_sgstPaise l, bcl_igstPaise = rl_igstPaise l,
      bcl_lineTotalPaise = rl_lineTotalPaise l, bcl_sortOrder = rl_sortOrder l\<rparr>"

fun add_cost_lines :: "id \<Rightarrow> id \<Rightarrow> resolved_line list \<Rightarrow> db \<Rightarrow> db" where
  "add_cost_lines companyId bookingId [] d = d"
| "add_cost_lines companyId bookingId (l # ls) d =
     add_cost_lines companyId bookingId ls
       (add_cost_line (cost_line_row (next_id d) companyId bookingId l) d)"

definition charge_entries :: "id \<Rightarrow> date \<Rightarrow> id option \<Rightarrow> resolved_line list \<Rightarrow> ledger_input list" where
  "charge_entries bookingId date actorId ls =
     map (\<lambda>l. (entry_in bookingId CHARGE (rl_lineTotalPaise l) date)
                \<lparr>li_reason := Some (rl_label l), li_createdById := actorId\<rparr>) ls"

text \<open>The first half of the handler: the guards and the resolved cost breakup.\<close>

definition check_booking ::
  "id \<Rightarrow> create_booking_dto \<Rightarrow> db \<Rightarrow> (string option \<times> resolved_line list) result" where
  "check_booking companyId dto d =
     bindE (orFail (NotFound ''Unit not found'') (find_unit companyId (cb_unitId dto) d)) (\<lambda>u.
     bindE (ensure (un_status u \<in> set BOOKABLE_FROM)
              (BadRequest ''only AVAILABLE or HELD units can be booked'')) (\<lambda>_.
     bindE (orFail (NotFound ''Primary applicant not found'')
              (List.find (\<lambda>a. ap_id a = cb_primaryApplicantId dto \<and> ap_companyId a = companyId)
                 (applicants (masters_of d)))) (\<lambda>applicant.
     bindE (ensure (ap_mergedIntoId applicant = None)
              (BadRequest ''Primary applicant has been merged into another applicant'')) (\<lambda>_.
     let placeOfSupplyStateCode = place_of_supply dto u d in
     bindE (intraStateOrBadRequest (gst_state_code companyId d) placeOfSupplyStateCode) (\<lambda>intraState.
     bindE (resolve_lines companyId d intraState (cb_costLines dto)) (\<lambda>ls.
     Inr (placeOfSupplyStateCode, ls)))))))"

definition new_booking ::
  "id \<Rightarrow> id \<Rightarrow> create_booking_dto \<Rightarrow> id option \<Rightarrow> string \<Rightarrow> string option \<Rightarrow> resolved_line list \<Rightarrow> booking" where
  "new_booking new companyId dto actorId bookingNumber placeOfSupplyStateCode ls =
     \<lparr>bk_id = new, bk_companyId = companyId, bk_unitId = cb_unitId dto,
      bk_primaryApplicantId = cb_primaryApplicantId dto, bk_bookingNumber = bookingNumber,
      bk_status = BOOKING_BOOKED, bk_agreedPricePaise = sum_list (map rl_lineTotalPaise ls),
      bk_placeOfSupplyStateCode = placeOfSupplyStateCode,
      bk_paymentPlanTemplateId = cb_paymentPlanTemplateId dto, bk_interestRuleId = None,
      bk_brokerId = None, bk_bookingDate = date_column (cb_bookingDate dto),
      bk_allotmentDate = None, bk_registrationDate = None, bk_cancelledAt = None,
      bk_createdById = actorId\<rparr>"

text \<open>The second half: the number, the rows, the opening charges and the unit.\<close>

definition write_booking ::
  "id \<Rightarrow> create_booking_dto \<Rightarrow> id option \<Rightarrow> string option \<Rightarrow> resolved_line list \<Rightarrow> db \<Rightarrow>
   (booking \<times> db) result" where
  "write_booking companyId dto actorId placeOfSupplyStateCode ls d =
     (let ((seq, fyLabel), d1) =
            allocateForFy companyId ''BOOKING'' (cb_bookingDate dto) (fy_start_month companyId d) d;
          bookingNumber = formatBookingNumber fyLabel seq;
          b = new_booking (next_id d1) companyId dto actorId bookingNumber placeOfSupplyStateCode ls;
          d2 = add_booking b d1
      in bindE (foldE (add_co_applicant_checked companyId (bk_id b))
                  (List.enumerate 0 (cb_coApplicantIds dto)) d2) (\<lambda>d3.
         let d4 = add_cost_lines companyId (bk_id b) ls d3;
             (_, d5) = post companyId (charge_entries (bk_id b) (cb_bookingDate dto) actorId ls) d4
         in bindE (transition companyId (cb_unitId dto) BOOKED system actorId
                     (Some (''Booking '' @ bookingNumber)) d5) (\<lambda>(_, d6).
            Inr (b, d6))))"

definition createBooking ::
  "id \<Rightarrow> create_booking_dto \<Rightarrow> id option \<Rightarrow> db \<Rightarrow> (booking \<times> db) result" where
  "createBooking companyId dto actorId d =
     bindE (check_booking companyId dto d) (\<lambda>(placeOfSupplyStateCode, ls).
       write_booking companyId dto actorId placeOfSupplyStateCode ls d)"

section \<open>Allotment and registration\<close>

definition find_booking :: "id \<Rightarrow> id \<Rightarrow> db \<Rightarrow> booking option" where
  "find_booking companyId bookingId d =
     List.find (\<lambda>b. bk_id b = bookingId \<and> bk_companyId b = companyId) (bookings d)"

datatype advance_to = TO_ALLOTTED | TO_REGISTERED

definition expected_from :: "advance_to \<Rightarrow> booking_status" where
  "expected_from to = (case to of TO_ALLOTTED \<Rightarrow> BOOKING_BOOKED | TO_REGISTERED \<Rightarrow> BOOKING_ALLOTTED)"

text \<open>The row and the unit status an advance writes.\<close>

definition advanced :: "advance_to \<Rightarrow> date \<Rightarrow> booking \<Rightarrow> booking" where
  "advanced to date b = (case to of
     TO_ALLOTTED \<Rightarrow> b\<lparr>bk_status := BOOKING_ALLOTTED, bk_allotmentDate := Some (date_column date)\<rparr>
   | TO_REGISTERED \<Rightarrow> b\<lparr>bk_status := BOOKING_REGISTERED, bk_registrationDate := Some (date_column date)\<rparr>)"

definition advance_target :: "advance_to \<Rightarrow> unit_status" where
  "advance_target to = (case to of TO_ALLOTTED \<Rightarrow> ALLOTTED | TO_REGISTERED \<Rightarrow> REGISTERED)"

definition advance ::
  "id \<Rightarrow> id \<Rightarrow> advance_to \<Rightarrow> date \<Rightarrow> id option \<Rightarrow> db \<Rightarrow> (id \<times> advance_to \<times> db) result" where
  "advance companyId bookingId to date actorId d =
     bindE (orFail (NotFound ''Booking not found'') (find_booking companyId bookingId d)) (\<lambda>booking.
     bindE (ensure (bk_status booking = expected_from to) (BadRequest ''unexpected booking status'')) (\<lambda>_.
     let d1 = upd_booking companyId bookingId (advanced to date) d in
     bindE (transition companyId (bk_unitId booking) (advance_target to) system actorId
              (Some (''Booking '' @ bk_bookingNumber booking)) d1) (\<lambda>(_, d2).
     Inr (bookingId, to, d2))))"

definition allot :: "id \<Rightarrow> id \<Rightarrow> date \<Rightarrow> id option \<Rightarrow> db \<Rightarrow> (id \<times> advance_to \<times> db) result" where
  "allot companyId bookingId allotmentDate actorId d =
     advance companyId bookingId TO_ALLOTTED allotmentDate actorId d"

definition register :: "id \<Rightarrow> id \<Rightarrow> date \<Rightarrow> id option \<Rightarrow> db \<Rightarrow> (id \<times> advance_to \<times> db) result" where
  "register companyId bookingId registrationDate actorId d =
     advance companyId bookingId TO_REGISTERED registrationDate actorId d"

record booking_view =
  bv_booking :: booking
  bv_unit :: "inventory_unit option"
  bv_coApplicants :: "booking_co_applicant list"
  bv_costLines :: "booking_cost_line list"
  bv_paymentPlans :: "(payment_plan \<times> installment list) list"
  bv_balancePaise :: string

definition findOne :: "id \<Rightarrow> id \<Rightarrow> db \<Rightarrow> booking_view result" where
  "findOne companyId i d =
     bindE (orFail (NotFound ''Booking not found'') (find_booking companyId i d)) (\<lambda>booking.
       Inr \<lparr>bv_booking = booking,
            bv_unit = List.find (\<lambda>u. un_id u = bk_unitId booking) (units d),
            bv_coApplicants = filter (\<lambda>r. bca_bookingId r = i) (coApplicants d),
            bv_costLines = sort_key bcl_sortOrder (filter (\<lambda>r. bcl_bookingId r = i) (costLines d)),
            bv_paymentPlans =
              map (\<lambda>p. (p, sort_key in_seq (filter (\<lambda>r. in_planId r = pp_id p) (installments d))))
                (filter (\<lambda>p. pp_bookingId p = i \<and> pp_isActive p) (plans d)),
            bv_balancePaise = show_int (balanceInTx companyId i d)\<rparr>)"

section \<open>Frames\<close>

lemma add_cost_lines_frame:
  "\<exists>cls. add_cost_lines c b ls d = d\<lparr>costLines := cls, next_id := next_id d + length ls\<rparr>"
proof (induction ls arbitrary: d)
  case Nil
  show ?case by (auto intro: exI [of _ "costLines d"])
next
  case (Cons l ls)
  from Cons.IH [of "add_cost_line (cost_line_row (next_id d) c b l) d"] show ?case
    by (auto simp: add_cost_line_def)
qed

lemma co_applicants_frame:
  "foldE (add_co_applicant_checked c b) ias d = Inr d' \<Longrightarrow>
   \<exists>cas m. d' = d\<lparr>coApplicants := cas, next_id := m\<rparr> \<and> next_id d \<le> m"
proof (induction ias arbitrary: d)
  case Nil
  then show ?case by (intro exI [of _ "coApplicants d"] exI [of _ "next_id d"]) simp
next
  case (Cons ia ias)
  then obtain d1 where 1: "add_co_applicant_checked c b ia d = Inr d1"
    and 2: "foldE (add_co_applicant_checked c b) ias d1 = Inr d'" by auto
  from 1 obtain cas where d1: "d1 = d\<lparr>coApplicants := cas, next_id := next_id d + 1\<rparr>"
    by (auto simp: add_co_applicant_checked_def add_co_applicant_def split: if_splits)
  from Cons.IH [OF 2] obtain cas' m
    where "d' = d1\<lparr>coApplicants := cas', next_id := m\<rparr>" and m: "next_id d1 \<le> m" by blast
  then have "d' = d\<lparr>coApplicants := cas', next_id := m\<rparr>" by (simp add: d1)
  moreover have "next_id d \<le> m" using m by (simp add: d1)
  ultimately show ?case by blast
qed

lemma resolve_lines_totals:
  assumes "resolve_lines c d intra ls = Inr rs"
  shows "length rs = length ls"
    and "\<And>r. r \<in> set rs \<Longrightarrow>
      rl_lineTotalPaise r = rl_baseAmountPaise r + rl_cgstPaise r + rl_sgstPaise r + rl_igstPaise r"
proof -
  from assms obtain base where t: "traverse (resolve_line c d intra base) (List.enumerate 0 ls) = Inr rs"
    by (auto simp: resolve_lines_def Let_def)
  from traverse_length [OF t] show "length rs = length ls" by simp
  have lines: "rl_lineTotalPaise r = rl_baseAmountPaise r + rl_cgstPaise r + rl_sgstPaise r + rl_igstPaise r"
    if "resolve_line c d intra base il = Inr r" for il r
    using that by (auto simp: resolve_line_def split: prod.splits dest!: computeCostLineGst_total)
  from traverse_list_all2 [OF t] show "\<And>r. r \<in> set rs \<Longrightarrow>
      rl_lineTotalPaise r = rl_baseAmountPaise r + rl_cgstPaise r + rl_sgstPaise r + rl_igstPaise r"
    by (auto simp: list_all2_conv_all_nth in_set_conv_nth intro: lines)
qed

lemma check_booking_Inr:
  "check_booking c dto d = Inr (pos, ls) \<Longrightarrow>
   \<exists>u. find_unit c (cb_unitId dto) d = Some u \<and> un_status u \<in> {AVAILABLE, HELD} \<and>
       pos = place_of_supply dto u d \<and> \<not> missing pos \<and> \<not> missing (gst_state_code c d) \<and>
       resolve_lines c d (gst_state_code c d = pos) (cb_costLines dto) = Inr ls"
  by (auto simp: check_booking_def Let_def intraStateOrBadRequest_Inr BOOKABLE_FROM_def)

lemma new_booking_simps [simp]:
  "bk_id (new_booking n c dto a num pos ls) = n" "bk_companyId (new_booking n c dto a num pos ls) = c"
  "bk_unitId (new_booking n c dto a num pos ls) = cb_unitId dto"
  "bk_status (new_booking n c dto a num pos ls) = BOOKING_BOOKED"
  "bk_agreedPricePaise (new_booking n c dto a num pos ls) = sum_list (map rl_lineTotalPaise ls)"
  "bk_bookingNumber (new_booking n c dto a num pos ls) = num"
  "bk_brokerId (new_booking n c dto a num pos ls) = None"
  by (simp_all add: new_booking_def)

text \<open>The state a successful call leaves.\<close>

lemma write_booking_effect:
  assumes "write_booking c dto actor pos ls d = Inr (b, d')"
  shows "\<exists>qs n cas cls scs m new num.
    b = new_booking new c dto actor num pos ls \<and>
    num = formatBookingNumber (financialYearLabel (cb_bookingDate dto) (fy_start_month c d))
       (upcoming_number c (''BOOKING'', financialYearLabel (cb_bookingDate dto) (fy_start_month c d)) d) \<and>
    qs = sequences (snd (allocate_number c ''BOOKING''
            (financialYearLabel (cb_bookingDate dto) (fy_start_month c d)) d)) \<and>
    next_id d \<le> new \<and> new < n \<and> n + length ls \<le> m \<and>
    d' = d\<lparr>sequences := qs, bookings := bookings d @ [b], coApplicants := cas, costLines := cls,
            ledger := ledger d @ post_rows c n (charge_entries (bk_id b) (cb_bookingDate dto) actor ls),
            units := update_rows (\<lambda>r. un_companyId r = c \<and> un_id r = cb_unitId dto)
                       (\<lambda>u. u\<lparr>un_status := BOOKED\<rparr>) (units d),
            statusChanges := scs, next_id := m\<rparr>"
proof -
  let ?fy = "financialYearLabel (cb_bookingDate dto) (fy_start_month c d)"
  let ?num = "formatBookingNumber ?fy (upcoming_number c (''BOOKING'', ?fy) d)"
  obtain qs k where al: "snd (allocate_number c ''BOOKING'' ?fy d) = d\<lparr>sequences := qs, next_id := k\<rparr>"
    and k: "next_id d \<le> k"
    using allocate_number_frame [of c "''BOOKING''" ?fy d] by blast
  let ?b = "new_booking k c dto actor ?num pos ls"
  let ?d2 = "d\<lparr>sequences := qs, bookings := bookings d @ [?b], next_id := k + 1\<rparr>"
  from assms obtain d3 x where
    co: "foldE (add_co_applicant_checked c k) (List.enumerate 0 (cb_coApplicantIds dto)) ?d2 = Inr d3"
    and tr: "transition c (cb_unitId dto) BOOKED system actor (Some (''Booking '' @ ?num))
               (snd (post c (charge_entries k (cb_bookingDate dto) actor ls)
                 (add_cost_lines c k ls d3))) = Inr x"
    and b: "b = ?b" and x: "snd x = d'"
    unfolding write_booking_def
    by (auto simp: Let_def allocateForFy_eq al add_booking_def case_prod_beta)
  from co_applicants_frame [OF co] obtain cas m where
    d3: "d3 = ?d2\<lparr>coApplicants := cas, next_id := m\<rparr>" and m: "k < m" by auto
  obtain cls where d4: "add_cost_lines c k ls d3 = d3\<lparr>costLines := cls, next_id := m + length ls\<rparr>"
    using add_cost_lines_frame [of c k ls d3] d3 by auto
  have len: "length (charge_entries k (cb_bookingDate dto) actor ls) = length ls"
    by (simp add: charge_entries_def)
  obtain y where y: "x = (y, d')" using x by (cases x) simp
  from transition_db [OF tr [unfolded y d4 post_eq snd_conv]] obtain scs where
    "d' = d\<lparr>sequences := qs, bookings := bookings d @ [?b], coApplicants := cas, costLines := cls,
        ledger := ledger d @ post_rows c (m + length ls) (charge_entries k (cb_bookingDate dto) actor ls),
        units := update_rows (\<lambda>r. un_companyId r = c \<and> un_id r = cb_unitId dto)
                   (\<lambda>u. u\<lparr>un_status := BOOKED\<rparr>) (units d),
        statusChanges := scs, next_id := m + length ls + length ls + 1\<rparr>"
    by (auto simp: d3 len)
  with k m show ?thesis
    unfolding b al
    by (intro exI [of _ qs] exI [of _ "m + length ls"] exI [of _ cas] exI [of _ cls] exI [of _ scs]
        exI [of _ "m + length ls + length ls + 1"] exI [of _ k] exI [of _ ?num]) simp
qed

section \<open>What a booking establishes\<close>

text \<open>Ids handed out so far are below \<open>next_id\<close>; the ledger only knows such bookings.\<close>

definition ledger_ids_ok :: "db \<Rightarrow> bool" where
  "ledger_ids_ok d \<longleftrightarrow> list_all (\<lambda>e. le_id e < next_id d \<and> le_bookingId e < next_id d) (ledger d)"

lemma balance_unknown_booking:
  assumes "ledger_ids_ok d" and "next_id d \<le> b"
  shows "balanceInTx c b d = 0"
proof -
  have "filter (\<lambda>e. le_companyId e = c \<and> le_bookingId e = b) (ledger d) = []"
    using assms by (auto simp: ledger_ids_ok_def list_all_iff filter_empty_conv)
  then show ?thesis by (simp add: balanceInTx_def)
qed

lemma charge_entries_sum:
  "sum_list (map li_signedAmountPaise (filter (\<lambda>e. li_bookingId e = b) (charge_entries b dt actor ls)))
     = sum_list (map rl_lineTotalPaise ls)"
  by (induction ls) (simp_all add: charge_entries_def)

lemma write_booking_balance:
  assumes "write_booking c dto actor pos ls d = Inr (b, d')" and "ledger_ids_ok d"
  shows "balanceInTx c (bk_id b) d' = bk_agreedPricePaise b"
proof -
  obtain n where led: "ledger d' = ledger d @ post_rows c n (charge_entries (bk_id b) (cb_bookingDate dto) actor ls)"
    and new: "next_id d \<le> bk_id b" and price: "bk_agreedPricePaise b = sum_list (map rl_lineTotalPaise ls)"
    using write_booking_effect [OF assms(1)] by auto
  show ?thesis
    using balance_add_rows [OF led, of "bk_id b"] balance_unknown_booking [OF assms(2) new]
    by (simp add: charge_entries_sum price)
qed

lemma write_booking_unit:
  assumes "write_booking c dto actor pos ls d = Inr (b, d')"
  shows "unit_status_of c k d' =
    (if k = cb_unitId dto then map_option (\<lambda>_. BOOKED) (unit_status_of c k d) else unit_status_of c k d)"
proof -
  from write_booking_effect [OF assms]
  have "units d' = units (upd_unit c (cb_unitId dto) (\<lambda>u. u\<lparr>un_status := BOOKED\<rparr>) d)"
    by (auto simp: upd_unit_def)
  then have "unit_status_of c k d' =
      unit_status_of c k (upd_unit c (cb_unitId dto) (\<lambda>u. u\<lparr>un_status := BOOKED\<rparr>) d)"
    by (rule unit_status_cong)
  then show ?thesis by (auto simp: unit_status_after_upd)
qed

lemma createBooking_Inr:
  "createBooking c dto actor d = Inr (b, d') \<longleftrightarrow>
   (\<exists>pos ls. check_booking c dto d = Inr (pos, ls) \<and> write_booking c dto actor pos ls d = Inr (b, d'))"
  by (auto simp: createBooking_def)

text \<open>
  C26: a successful \<open>createBooking\<close> opens the booking's ledger with a balance equal to
  its agreed price, which is the sum over the resolved cost lines of base amount and GST;
  the booking is BOOKED, and so is its unit, which was AVAILABLE or HELD before.
\<close>

theorem createBooking_opens_at_agreed_price:
  assumes "createBooking c dto actor d = Inr (b, d')" and "ledger_ids_ok d"
  shows "balanceInTx c (bk_id b) d' = bk_agreedPricePaise b \<and> bk_status b = BOOKING_BOOKED \<and>
    (\<exists>pos ls. check_booking c dto d = Inr (pos, ls) \<and>
       bk_agreedPricePaise b = sum_list (map (\<lambda>l. rl_baseAmountPaise l + rl_cgstPaise l
                                                   + rl_sgstPaise l + rl_igstPaise l) ls)) \<and>
    unit_status_of c (cb_unitId dto) d \<in> {Some AVAILABLE, Some HELD} \<and>
    unit_status_of c (cb_unitId dto) d' = Some BOOKED"
proof -
  from assms(1) obtain pos ls where ck: "check_booking c dto d = Inr (pos, ls)"
    and wr: "write_booking c dto actor pos ls d = Inr (b, d')" by (auto simp: createBooking_Inr)
  obtain u where u: "find_unit c (cb_unitId dto) d = Some u" "un_status u \<in> {AVAILABLE, HELD}"
    and ls: "resolve_lines c d (gst_state_code c d = pos) (cb_costLines dto) = Inr ls"
    using check_booking_Inr [OF ck] by blast
  have b: "bk_status b = BOOKING_BOOKED" "bk_agreedPricePaise b = sum_list (map rl_lineTotalPaise ls)"
    using write_booking_effect [OF wr] by auto
  have "map rl_lineTotalPaise ls =
      map (\<lambda>l. rl_baseAmountPaise l + rl_cgstPaise l + rl_sgstPaise l + rl_igstPaise l) ls"
    using resolve_lines_totals(2) [OF ls] by simp
  then have price: "bk_agreedPricePaise b = sum_list (map (\<lambda>l. rl_baseAmountPaise l + rl_cgstPaise l
      + rl_sgstPaise l + rl_igstPaise l) ls)" using b(2) by (simp only:)
  show ?thesis
    using write_booking_balance [OF wr assms(2)] write_booking_unit [OF wr, of "cb_unitId dto"] u b(1) ck price
    by (auto simp: unit_status_of_def)
qed

lemma find_booking_upd:
  assumes "\<And>b. bk_id (f b) = bk_id b" and "\<And>b. bk_companyId (f b) = bk_companyId b"
  shows "find_booking c k (upd_booking c i f d) =
    map_option (\<lambda>b. if k = i then f b else b) (find_booking c k d)"
proof -
  have "find_booking c k (upd_booking c i f d) =
      map_option (\<lambda>r. if bk_companyId r = c \<and> bk_id r = i then f r else r) (find_booking c k d)"
    unfolding find_booking_def upd_booking_def using assms by (simp add: find_update_rows)
  then show ?thesis
    by (cases "find_booking c k d") (auto simp: find_booking_def dest!: find_SomeD)
qed

lemma advanced_simps [simp]:
  "bk_id (advanced to date b) = bk_id b" "bk_companyId (advanced to date b) = bk_companyId b"
  "bk_unitId (advanced to date b) = bk_unitId b"
  "bk_status (advanced to date b) =
     (case to of TO_ALLOTTED \<Rightarrow> BOOKING_ALLOTTED | TO_REGISTERED \<Rightarrow> BOOKING_REGISTERED)"
  by (cases to; simp add: advanced_def)+

lemma advance_effect:
  assumes "advance c i to date actor d = Inr (x, y, d')"
  shows "\<exists>b scs s. find_booking c i d = Some b \<and> bk_status b = expected_from to \<and>
    unit_status_of c (bk_unitId b) d = Some s \<and> isValidTransition s (advance_target to) \<and>
    d' = d\<lparr>bookings := update_rows (\<lambda>r. bk_companyId r = c \<and> bk_id r = i) (advanced to date) (bookings d),
           units := update_rows (\<lambda>r. un_companyId r = c \<and> un_id r = bk_unitId b)
                      (\<lambda>u. u\<lparr>un_status := advance_target to\<rparr>) (units d),
           statusChanges := scs, next_id := next_id d + 1\<rparr>"
proof -
  from assms obtain b t where b: "find_booking c i d = Some b" "bk_status b = expected_from to"
    and tr: "transition c (bk_unitId b) (advance_target to) system actor
      (Some (''Booking '' @ bk_bookingNumber b)) (upd_booking c i (advanced to date) d) = Inr (t, d')"
    by (auto simp: advance_def)
  obtain s where "unit_status_of c (bk_unitId b) (upd_booking c i (advanced to date) d) = Some s"
      "isValidTransition s (advance_target to)"
    using tr by (auto simp: transition_Inr)
  moreover have "unit_status_of c (bk_unitId b) (upd_booking c i (advanced to date) d)
      = unit_status_of c (bk_unitId b) d"
    by (rule unit_status_cong) (simp add: upd_booking_def)
  moreover obtain scs where
    "d' = d\<lparr>bookings := update_rows (\<lambda>r. bk_companyId r = c \<and> bk_id r = i) (advanced to date) (bookings d),
           units := update_rows (\<lambda>r. un_companyId r = c \<and> un_id r = bk_unitId b)
                      (\<lambda>u. u\<lparr>un_status := advance_target to\<rparr>) (units d),
           statusChanges := scs, next_id := next_id d + 1\<rparr>"
    using transition_db [OF tr] by (auto simp: upd_booking_def)
  ultimately show ?thesis using b by (intro exI [of _ b] exI [of _ scs] exI [of _ s]) simp
qed

section \<open>A concrete booking\<close>

definition demo_booking_dto :: create_booking_dto where
  "demo_booking_dto =
     \<lparr>cb_unitId = 20, cb_primaryApplicantId = 4, cb_coApplicantIds = [5], cb_bookingDate = demo_day,
      cb_placeOfSupplyStateCode = None, cb_paymentPlanTemplateId = Some 15,
      cb_costLines =
        [\<lparr>cl_kind = KIND_BASE, cl_chargeTypeId = None, cl_label = ''Base'',
          cl_baseAmountPaise = 100000, cl_gstRateId = Some 9\<rparr>,
         \<lparr>cl_kind = KIND_PARKING, cl_chargeTypeId = Some 7, cl_label = ''Parking'',
          cl_baseAmountPaise = 5000, cl_gstRateId = None\<rparr>]\<rparr>"

lemma demo_booking_succeeds: "\<not> isl (createBooking 1 demo_booking_dto (Some 99) demo_db)"
  by code_simp

lemma demo_ids_ok: "ledger_ids_ok demo_db"
  by code_simp

theorem createBooking_opens_at_agreed_price_witness:
  "\<exists>b d'. createBooking 1 demo_booking_dto (Some 99) demo_db = Inr (b, d') \<and>
     balanceInTx 1 (bk_id b) d' = bk_agreedPricePaise b"
proof -
  obtain b d' where r: "createBooking 1 demo_booking_dto (Some 99) demo_db = Inr (b, d')"
    using not_isl_Inr [OF demo_booking_succeeds] by auto
  with createBooking_opens_at_agreed_price [OF r demo_ids_ok] show ?thesis by blast
qed

end
