(* ===== verification/PaymentPlan.thy ===== *)
theory PaymentPlan
  imports Booking
begin

text \<open>
  \<open>apps/api/src/postsales/payment-plan.service.ts\<close>, \<open>stage-raise.util.ts\<close> and
  \<open>stage-raise.service.ts\<close>: instantiating a plan from a template or from explicit
  installments, editing it, and raising a construction stage. The lemmas show that a plan
  always sums to the agreed price, that an edit leaves frozen installments alone, and that
  raising a stage is idempotent.
\<close>

section \<open>Stage raises\<close>

definition computeRaisedDueDate :: "date \<Rightarrow> int \<Rightarrow> date" where
  "computeRaisedDueDate stageCompletedOn graceDaysAfterRaise = addDays stageCompletedOn graceDaysAfterRaise"

definition findStageRaise :: "id \<Rightarrow> id \<Rightarrow> id \<Rightarrow> int \<Rightarrow> db \<Rightarrow> stage_raise option" where
  "findStageRaise companyId projectId templateId milestoneSeq d =
     List.find (\<lambda>r. sr_companyId r = companyId \<and> sr_projectId r = projectId \<and>
                    sr_templateId r = templateId \<and> sr_milestoneSeq r = milestoneSeq) (stageRaises d)"

section \<open>Helpers of the plan service\<close>

record installment_input =
  ii_label :: string
  ii_dueDate :: date
  ii_amountPaise :: "int option"
  ii_milestonePercent :: "number option"

definition installmentInputSchema :: "installment_input \<Rightarrow> bool" where
  "installmentInputSchema i \<longleftrightarrow>
     1 \<le> length (ii_label i) \<and> length (ii_label i) \<le> 255 \<and>
     (case ii_amountPaise i of None \<Rightarrow> True | Some a \<Rightarrow> 0 \<le> a) \<and>
     (case ii_milestonePercent i of None \<Rightarrow> True | Some p \<Rightarrow> 0 \<le> p \<and> p \<le> 100) \<and>
     (ii_amountPaise i \<noteq> None \<or> ii_milestonePercent i \<noteq> None)"

record create_payment_plan_dto =
  cpp_name :: string
  cpp_installments :: "installment_input list"

definition createPaymentPlanSchema :: "create_payment_plan_dto \<Rightarrow> bool" where
  "createPaymentPlanSchema dto \<longleftrightarrow>
     1 \<le> length (cpp_name dto) \<and> length (cpp_name dto) \<le> 255 \<and>
     1 \<le> length (cpp_installments dto) \<and> list_all installmentInputSchema (cpp_installments dto)"

text \<open>The weight of a percentage, \<open>BigInt(Math.round(p * 1000))\<close>; a missing one is \<open>NaN\<close>.\<close>

definition percent_weight :: "number \<Rightarrow> int" where
  "percent_weight p = math_round (p * 1000)"

definition resolveAmounts :: "installment_input list \<Rightarrow> int \<Rightarrow> int list result" where
  "resolveAmounts ins tot =
     (let anyPercent = list_ex (\<lambda>i. ii_milestonePercent i \<noteq> None) ins;
          anyAmount = list_ex (\<lambda>i. ii_amountPaise i \<noteq> None) ins
      in if anyPercent \<and> anyAmount then Inl (BadRequest ''Use either amounts or percents'')
         else if anyPercent then
           bindE (traverse (\<lambda>i. bindE (orFail (RangeError ''NaN'') (ii_milestonePercent i))
                                  (\<lambda>p. Inr (percent_weight p))) ins) (\<lambda>weights.
             allocate tot weights)
         else
           bindE (traverse (\<lambda>i. orFail (JsError ''TypeError'') (ii_amountPaise i)) ins) (\<lambda>amounts.
             if sum_list amounts \<noteq> tot
             then Inl (BadRequest ''Installment amounts must sum to the amount to schedule'')
             else Inr amounts))"

definition deactivate_plan :: "id \<Rightarrow> installment list \<Rightarrow> payment_plan \<Rightarrow> db \<Rightarrow> db result" where
  "deactivate_plan companyId loaded p d =
     (if list_ex (\<lambda>i. in_planId i = pp_id p \<and> in_allocatedPaise i > 0) loaded
      then Inl (BadRequest ''Cannot replace a plan that already has paid installments'')
      else bindE (delm_installment companyId (\<lambda>i. in_planId i = pp_id p) d) (\<lambda>d1.
             Inr (upd_plan companyId (pp_id p) (\<lambda>p. p\<lparr>pp_isActive := False\<rparr>) d1)))"

definition is_active_plan_of :: "id \<Rightarrow> id \<Rightarrow> payment_plan \<Rightarrow> bool" where
  "is_active_plan_of companyId bookingId p \<longleftrightarrow>
     pp_companyId p = companyId \<and> pp_bookingId p = bookingId \<and> pp_isActive p"

definition deactivateExistingPlans :: "id \<Rightarrow> id \<Rightarrow> db \<Rightarrow> db result" where
  "deactivateExistingPlans companyId bookingId d =
     foldE (deactivate_plan companyId (installments d))
       (filter (is_active_plan_of companyId bookingId) (plans d)) d"

definition loadBookingForPlan :: "id \<Rightarrow> id \<Rightarrow> db \<Rightarrow> (booking \<times> id) result" where
  "loadBookingForPlan companyId bookingId d =
     bindE (orFail (NotFound ''Booking not found'') (find_booking companyId bookingId d)) (\<lambda>b.
     bindE (orFail (JsError ''unit relation'') (List.find (\<lambda>u. un_id u = bk_unitId b) (units d))) (\<lambda>u.
       Inr (b, un_projectId u)))"

definition loadActivePlanInTx :: "id \<Rightarrow> id \<Rightarrow> db \<Rightarrow> (payment_plan \<times> installment list) result" where
  "loadActivePlanInTx companyId bookingId d =
     bindE (orFail (NotFound ''No active payment plan'')
              (List.find (is_active_plan_of companyId bookingId) (plans d))) (\<lambda>p.
       Inr (p, sort_key in_seq (filter (\<lambda>i. in_planId i = pp_id p) (installments d))))"

definition getActivePlan :: "id \<Rightarrow> id \<Rightarrow> db \<Rightarrow> (payment_plan \<times> installment list) result" where
  "getActivePlan companyId bookingId d = loadActivePlanInTx companyId bookingId d"

section \<open>Instantiation from a template\<close>

definition template_milestones :: "id \<Rightarrow> db \<Rightarrow> payment_plan_milestone list" where
  "template_milestones templateId d =
     sort_key pm_seq (filter (\<lambda>m. pm_templateId m = templateId) (planMilestones (masters_of d)))"

text \<open>One iteration of the loop: a STAGE_LINKED installment is due only if its stage was raised.\<close>

definition template_installment ::
  "id \<Rightarrow> booking \<Rightarrow> id \<Rightarrow> id \<Rightarrow> id \<Rightarrow> payment_plan_milestone \<Rightarrow> int \<Rightarrow> db \<Rightarrow> installment" where
  "template_installment companyId b projectId templateId planId m amount d =
     (let row = \<lparr>in_id = next_id d, in_companyId = companyId, in_bookingId = bk_id b, in_planId = planId,
                 in_seq = pm_seq m, in_label = pm_label m, in_milestoneType = DATE_LINKED,
                 in_milestoneSeq = Some (pm_seq m),
                 in_dueDate = Some (addDays (bk_bookingDate b) (pm_dueOffsetDays m)),
                 in_amountPaise = amount, in_milestonePercent = Some (pm_percent m),
                 in_allocatedPaise = 0, in_status = UNPAID, in_isActive = True, in_stageRaiseId = None\<rparr>
      in if pm_milestoneType m = STAGE_LINKED then
           let existingRaise = findStageRaise companyId projectId templateId (pm_seq m) d
           in row\<lparr>in_milestoneType := STAGE_LINKED,
                   in_dueDate := map_option
                     (\<lambda>r. date_column (computeRaisedDueDate (sr_stageCompletedOn r) (pm_graceDaysAfterRaise m)))
                     existingRaise,
                   in_stageRaiseId := map_option sr_id existingRaise\<rparr>
         else row\<lparr>in_dueDate := map_option date_column (in_dueDate row)\<rparr>)"

fun create_template_installments ::
  "id \<Rightarrow> booking \<Rightarrow> id \<Rightarrow> id \<Rightarrow> id \<Rightarrow> (payment_plan_milestone \<times> int) list \<Rightarrow> db \<Rightarrow> db" where
  "create_template_installments companyId b projectId templateId planId [] d = d"
| "create_template_installments companyId b projectId templateId planId ((m, amount) # rest) d =
     create_template_installments companyId b projectId templateId planId rest
       (add_installment (template_installment companyId b projectId templateId planId m amount d) d)"

definition new_plan :: "id \<Rightarrow> id \<Rightarrow> id \<Rightarrow> id option \<Rightarrow> string \<Rightarrow> bool \<Rightarrow> id option \<Rightarrow> payment_plan" where
  "new_plan new companyId bookingId templateId name isCustom actorId =
     \<lparr>pp_id = new, pp_companyId = companyId, pp_bookingId = bookingId, pp_templateId = templateId,
      pp_name = name, pp_isCustom = isCustom, pp_version = 1, pp_isActive = True,
      pp_createdById = actorId\<rparr>"

definition instantiateFromTemplate ::
  "id \<Rightarrow> id \<Rightarrow> id \<Rightarrow> id option \<Rightarrow> db \<Rightarrow> ((payment_plan \<times> installment list) \<times> db) result" where
  "instantiateFromTemplate companyId bookingId templateId actorId d =
     bindE (loadBookingForPlan companyId bookingId d) (\<lambda>(b, projectId).
     bindE (orFail (NotFound ''Payment plan template not found'')
              (List.find (\<lambda>t. pt_id t = templateId \<and> pt_companyId t = companyId)
                 (planTemplates (masters_of d)))) (\<lambda>template.
     let milestones = template_milestones templateId d in
     bindE (ensure (milestones \<noteq> []) (BadRequest ''Template has no milestones'')) (\<lambda>_.
     bindE (deactivateExistingPlans companyId bookingId d) (\<lambda>d1.
     bindE (allocate (bk_agreedPricePaise b) (map (\<lambda>m. percent_weight (pm_percent m)) milestones))
       (\<lambda>amounts.
     let plan = new_plan (next_id d1) companyId bookingId (Some templateId) (pt_name template) False actorId;
         d2 = add_plan plan d1;
         d3 = create_template_installments companyId b projectId templateId (pp_id plan)
                (zip milestones amounts) d2 in
     bindE (loadActivePlanInTx companyId bookingId d3) (\<lambda>r. Inr (r, d3)))))))"

section \<open>Custom plans and edits\<close>

definition custom_installment :: "id \<Rightarrow> id \<Rightarrow> id \<Rightarrow> id \<Rightarrow> int \<Rightarrow> installment_input \<Rightarrow> int \<Rightarrow> installment" where
  "custom_installment new companyId bookingId planId s i amount =
     \<lparr>in_id = new, in_companyId = companyId, in_bookingId = bookingId, in_planId = planId,
      in_seq = s, in_label = ii_label i, in_milestoneType = DATE_LINKED, in_milestoneSeq = None,
      in_dueDate = Some (date_column (ii_dueDate i)), in_amountPaise = amount,
      in_milestonePercent = ii_milestonePercent i, in_allocatedPaise = 0, in_status = UNPAID,
      in_isActive = True, in_stageRaiseId = None\<rparr>"

text \<open>The creation loops number the installments on from \<open>s\<close>.\<close>

fun create_custom_installments ::
  "id \<Rightarrow> id \<Rightarrow> id \<Rightarrow> int \<Rightarrow> (installment_input \<times> int) list \<Rightarrow> db \<Rightarrow> db" where
  "create_custom_installments companyId bookingId planId s [] d = d"
| "create_custom_installments companyId bookingId planId s ((i, amount) # rest) d =
     create_custom_installments companyId bookingId planId (s + 1) rest
       (add_installment (custom_installment (next_id d) companyId bookingId planId s i amount) d)"

definition createCustomPlan ::
  "id \<Rightarrow> id \<Rightarrow> create_payment_plan_dto \<Rightarrow> id option \<Rightarrow> db \<Rightarrow>
   ((payment_plan \<times> installment list) \<times> db) result" where
  "createCustomPlan companyId bookingId dto actorId d =
     bindE (loadBookingForPlan companyId bookingId d) (\<lambda>(b, _).
     bindE (deactivateExistingPlans companyId bookingId d) (\<lambda>d1.
     bindE (resolveAmounts (cpp_installments dto) (bk_agreedPricePaise b)) (\<lambda>amounts.
     let plan = new_plan (next_id d1) companyId bookingId None (cpp_name dto) True actorId;
         d2 = add_plan plan d1;
         d3 = create_custom_installments companyId bookingId (pp_id plan) 1
                (zip (cpp_installments dto) amounts) d2 in
     bindE (loadActivePlanInTx companyId bookingId d3) (\<lambda>r. Inr (r, d3)))))"

definition max_seq :: "installment list \<Rightarrow> int" where
  "max_seq xs = foldl (\<lambda>mx i. max mx (in_seq i)) 0 xs"

definition editPlan ::
  "id \<Rightarrow> id \<Rightarrow> installment_input list \<Rightarrow> db \<Rightarrow> ((payment_plan \<times> installment list) \<times> db) result" where
  "editPlan companyId bookingId ins d =
     bindE (loadBookingForPlan companyId bookingId d) (\<lambda>(b, _).
     bindE (orFail (NotFound ''No active payment plan to edit'')
              (List.find (is_active_plan_of companyId bookingId) (plans d))) (\<lambda>plan.
     let own = filter (\<lambda>i. in_planId i = pp_id plan) (installments d);
         frozen = filter (\<lambda>i. in_allocatedPaise i > 0) own;
         unpaid = filter (\<lambda>i. in_allocatedPaise i = 0) own;
         frozenSum = sum_list (map in_amountPaise frozen);
         residual = bk_agreedPricePaise b - frozenSum in
     bindE (ensure (\<not> residual < 0) (BadRequest ''Frozen installments already exceed the agreed price''))
       (\<lambda>_.
     bindE (resolveAmounts ins residual) (\<lambda>amounts.
     bindE (delm_installment companyId (\<lambda>i. in_id i \<in> set (map in_id unpaid)) d) (\<lambda>d1.
     let d2 = create_custom_installments companyId bookingId (pp_id plan) (max_seq frozen + 1)
                (zip ins amounts) d1;
         d3 = upd_plan companyId (pp_id plan) (\<lambda>p. p\<lparr>pp_version := pp_version p + 1\<rparr>) d2 in
     bindE (loadActivePlanInTx companyId bookingId d3) (\<lambda>r. Inr (r, d3)))))))"

section \<open>Raising a stage\<close>

record raise_stage_dto =
  rs_templateId :: id
  rs_milestoneSeq :: int
  rs_stageCompletedOn :: date

record raise_result =
  rr_stageRaiseId :: id
  rr_raisedCount :: nat
  rr_stageCompletedOn :: date

text \<open>The filter of the bulk update, with its conditions on the related plan, booking and unit.\<close>

definition awaiting_stage :: "id \<Rightarrow> id \<Rightarrow> id option \<Rightarrow> int option \<Rightarrow> db \<Rightarrow> installment \<Rightarrow> bool" where
  "awaiting_stage companyId projectId templateId milestoneSeq d i \<longleftrightarrow>
     in_companyId i = companyId \<and> in_isActive i \<and> in_milestoneType i = STAGE_LINKED \<and>
     in_milestoneSeq i = milestoneSeq \<and> in_dueDate i = None \<and>
     list_ex (\<lambda>p. pp_id p = in_planId i \<and> pp_isActive p \<and> (templateId = None \<or> pp_templateId p = templateId))
       (plans d) \<and>
     list_ex (\<lambda>b. bk_id b = in_bookingId i \<and>
        list_ex (\<lambda>u. un_id u = bk_unitId b \<and> un_projectId u = projectId) (units d)) (bookings d)"

definition raiseStage ::
  "id \<Rightarrow> id \<Rightarrow> raise_stage_dto \<Rightarrow> id option \<Rightarrow> db \<Rightarrow> (raise_result \<times> db) result" where
  "raiseStage companyId projectId dto actorId d =
     bindE (orFail (NotFound ''Project not found'')
              (List.find (\<lambda>p. pj_id p = projectId \<and> pj_companyId p = companyId) (projects (masters_of d))))
       (\<lambda>_.
     bindE (orFail (NotFound ''Milestone not found on this template'')
              (List.find (\<lambda>m. pm_companyId m = companyId \<and> pm_templateId m = rs_templateId dto \<and>
                              pm_seq m = rs_milestoneSeq dto) (planMilestones (masters_of d)))) (\<lambda>milestone.
     bindE (ensure (pm_milestoneType milestone = STAGE_LINKED) (BadRequest ''This milestone is DATE_LINKED''))
       (\<lambda>_.
     let (stageRaise, d1) =
           (case findStageRaise companyId projectId (rs_templateId dto) (rs_milestoneSeq dto) d of
              Some r \<Rightarrow> (r, d)
            | None \<Rightarrow>
                let r = \<lparr>sr_id = next_id d, sr_companyId = companyId, sr_projectId = projectId,
                         sr_templateId = rs_templateId dto, sr_milestoneSeq = rs_milestoneSeq dto,
                         sr_label = pm_label milestone,
                         sr_stageCompletedOn = date_column (rs_stageCompletedOn dto),
                         sr_raisedById = actorId\<rparr>
                in (r, add_stage_raise r d));
         dueDate = computeRaisedDueDate (sr_stageCompletedOn stageRaise) (pm_graceDaysAfterRaise milestone);
         sel = awaiting_stage companyId projectId (Some (rs_templateId dto)) (Some (rs_milestoneSeq dto)) d1;
         count = length (filter sel (installments d1));
         d2 = updm_installment companyId sel
                (\<lambda>i. i\<lparr>in_dueDate := Some (date_column dueDate), in_stageRaiseId := Some (sr_id stageRaise)\<rparr>) d1
     in Inr (\<lparr>rr_stageRaiseId = sr_id stageRaise, rr_raisedCount = count,
              rr_stageCompletedOn = sr_stageCompletedOn stageRaise\<rparr>, d2))))"

record pending_stage =
  ps_templateId :: id
  ps_milestoneSeq :: "int option"
  ps_label :: string
  ps_pendingCount :: nat

text \<open>\<open>groupBy: ['milestoneSeq']\<close>, then one sample installment per group.\<close>

definition listPending :: "id \<Rightarrow> id \<Rightarrow> db \<Rightarrow> pending_stage list" where
  "listPending companyId projectId d =
     (let pending = (\<lambda>s. filter (awaiting_stage companyId projectId None s d) (installments d));
          seqs = remdups (map in_milestoneSeq
                   (filter (\<lambda>i. awaiting_stage companyId projectId None (in_milestoneSeq i) d i) (installments d)))
      in List.map_filter (\<lambda>s.
           case pending s of
             [] \<Rightarrow> None
           | sample # _ \<Rightarrow>
               (case List.find (\<lambda>p. pp_id p = in_planId sample) (plans d) of
                  None \<Rightarrow> None
                | Some p \<Rightarrow> map_option (\<lambda>t. \<lparr>ps_templateId = t, ps_milestoneSeq = s,
                     ps_label = in_label sample, ps_pendingCount = length (pending s)\<rparr>) (pp_templateId p)))
         seqs)"

section \<open>What the loops create\<close>

definition fresh_installment :: "id \<Rightarrow> id \<Rightarrow> id \<Rightarrow> id \<Rightarrow> id \<Rightarrow> installment \<Rightarrow> bool" where
  "fresh_installment c b p lo hi i \<longleftrightarrow>
     in_companyId i = c \<and> in_bookingId i = b \<and> in_planId i = p \<and> in_allocatedPaise i = 0 \<and>
     in_status i = UNPAID \<and> in_isActive i \<and> lo \<le> in_id i \<and> in_id i < hi"

lemma fresh_installment_mono:
  "fresh_installment c b p lo hi i \<Longrightarrow> lo' \<le> lo \<Longrightarrow> hi \<le> hi' \<Longrightarrow> fresh_installment c b p lo' hi' i"
  by (simp add: fresh_installment_def)

definition created :: "id \<Rightarrow> id \<Rightarrow> id \<Rightarrow> int list \<Rightarrow> db \<Rightarrow> db \<Rightarrow> bool" where
  "created c b p amounts d d' \<longleftrightarrow>
     (\<exists>rows. d' = d\<lparr>installments := installments d @ rows, next_id := next_id d + length amounts\<rparr> \<and>
        map in_amountPaise rows = amounts \<and> distinct (map in_id rows) \<and>
        list_all (fresh_installment c b p (next_id d) (next_id d + length amounts)) rows)"

lemma created_Nil: "created c b p [] d d"
  by (auto simp: created_def)

lemma created_Cons:
  assumes "fresh_installment c b p (next_id d) (next_id d + 1) i" and "in_amountPaise i = a"
    and "created c b p as (add_installment i d) d'"
  shows "created c b p (a # as) d d'"
proof -
  from assms(3) obtain rows where
    d': "d' = d\<lparr>installments := installments d @ i # rows, next_id := next_id d + length (a # as)\<rparr>"
    and rows: "map in_amountPaise rows = as" "distinct (map in_id rows)"
      "list_all (fresh_installment c b p (next_id d + 1) (next_id d + 1 + length as)) rows"
    by (auto simp: created_def add_installment_def)
  have "in_id i \<notin> set (map in_id rows)"
    using assms(1) rows(3) by (force simp: list_all_iff fresh_installment_def)
  moreover have "list_all (fresh_installment c b p (next_id d) (next_id d + length (a # as))) (i # rows)"
    using assms(1) rows(3) by (auto simp: list_all_iff fresh_installment_def)
  ultimately show ?thesis
    unfolding created_def using d' rows assms(2) by (intro exI [of _ "i # rows"]) simp
qed

lemma create_custom_created:
  "created c b p (map snd xs) d (create_custom_installments c b p s xs d)"
proof (induction c b p s xs d rule: create_custom_installments.induct)
  case (1 c b p s d)
  show ?case by (simp add: created_Nil)
next
  case (2 c b p s i amount rest d)
  then show ?case
    by (auto intro!: created_Cons simp: fresh_installment_def custom_installment_def)
qed

lemma create_template_created:
  "created c (bk_id b) p (map snd xs) d (create_template_installments c b prj t p xs d)"
proof (induction c b prj t p xs d rule: create_template_installments.induct)
  case (1 c b prj t p d)
  show ?case by (simp add: created_Nil)
next
  case (2 c b prj t p m amount rest d)
  then show ?case
    by (auto intro!: created_Cons simp: fresh_installment_def template_installment_def Let_def)
qed

text \<open>The active plans of the booking lose their installments and become inactive.\<close>

lemma deactivate_plans_effect:
  "foldE (deactivate_plan c loaded) ps d = Inr d' \<Longrightarrow>
   d' = d\<lparr>installments := delete_rows (\<lambda>i. in_companyId i = c \<and> in_planId i \<in> pp_id ` set ps) (installments d),
          plans := update_rows (\<lambda>p. pp_companyId p = c \<and> pp_id p \<in> pp_id ` set ps)
                     (\<lambda>p. p\<lparr>pp_isActive := False\<rparr>) (plans d)\<rparr>
   \<and> (\<forall>i\<in>set loaded. in_planId i \<in> pp_id ` set ps \<longrightarrow> in_allocatedPaise i \<le> 0)
   \<and> (\<forall>i\<in>set (installments d). in_companyId i = c \<and> in_planId i \<in> pp_id ` set ps
        \<longrightarrow> \<not> installment_referenced d (in_id i))"
proof (induction ps arbitrary: d)
  case Nil
  then show ?case by (simp add: delete_rows_def update_rows_def)
next
  case (Cons p ps)
  then obtain d1 where one: "deactivate_plan c loaded p d = Inr d1"
    and rest: "foldE (deactivate_plan c loaded) ps d1 = Inr d'" by auto
  from one have d1: "d1 = d\<lparr>installments := delete_rows (\<lambda>i. in_companyId i = c \<and> in_planId i = pp_id p) (installments d),
      plans := update_rows (\<lambda>r. pp_companyId r = c \<and> pp_id r = pp_id p) (\<lambda>p. p\<lparr>pp_isActive := False\<rparr>) (plans d)\<rparr>"
    and al: "\<forall>i\<in>set loaded. in_planId i = pp_id p \<longrightarrow> in_allocatedPaise i \<le> 0"
    and fk: "\<forall>i\<in>set (installments d). in_companyId i = c \<and> in_planId i = pp_id p
        \<longrightarrow> \<not> installment_referenced d (in_id i)"
    by (auto simp: deactivate_plan_def delm_installment_Inr upd_plan_def list_ex_iff split: if_splits)
  have ref: "installment_referenced d1 k = installment_referenced d k" for k
    by (simp add: d1 installment_referenced_def)
  note ih = Cons.IH [OF rest]
  have "delete_rows (\<lambda>i. in_companyId i = c \<and> in_planId i \<in> pp_id ` set ps) (installments d1)
      = delete_rows (\<lambda>i. in_companyId i = c \<and> in_planId i \<in> pp_id ` set (p # ps)) (installments d)"
    by (auto simp: d1 delete_rows_def intro!: filter_cong)
  moreover have "update_rows (\<lambda>p. pp_companyId p = c \<and> pp_id p \<in> pp_id ` set ps) (\<lambda>p. p\<lparr>pp_isActive := False\<rparr>) (plans d1)
      = update_rows (\<lambda>q. pp_companyId q = c \<and> pp_id q \<in> pp_id ` set (p # ps)) (\<lambda>p. p\<lparr>pp_isActive := False\<rparr>) (plans d)"
    by (auto simp: d1 update_rows_def)
  ultimately have "d' = d\<lparr>installments := delete_rows (\<lambda>i. in_companyId i = c \<and> in_planId i \<in> pp_id ` set (p # ps)) (installments d),
          plans := update_rows (\<lambda>q. pp_companyId q = c \<and> pp_id q \<in> pp_id ` set (p # ps))
                     (\<lambda>p. p\<lparr>pp_isActive := False\<rparr>) (plans d)\<rparr>"
    using ih by (simp add: d1)
  then show ?case using ih al fk ref by (auto simp: d1)
qed

lemma deactivateExistingPlans_effect:
  assumes "deactivateExistingPlans c b d = Inr d1"
  shows "\<exists>is ps. d1 = d\<lparr>installments := is, plans := ps\<rparr> \<and> set is \<subseteq> set (installments d) \<and>
    (\<forall>p\<in>set ps. \<not> is_active_plan_of c b p)"
proof -
  let ?ids = "pp_id ` set (filter (is_active_plan_of c b) (plans d))"
  let ?ps = "update_rows (\<lambda>p. pp_companyId p = c \<and> pp_id p \<in> ?ids) (\<lambda>p. p\<lparr>pp_isActive := False\<rparr>) (plans d)"
  have "d1 = d\<lparr>installments := delete_rows (\<lambda>i. in_companyId i = c \<and> in_planId i \<in> ?ids) (installments d),
               plans := ?ps\<rparr>"
    by (rule deactivate_plans_effect [OF assms [unfolded deactivateExistingPlans_def], THEN conjunct1])
  moreover have "\<forall>p\<in>set ?ps. \<not> is_active_plan_of c b p"
  proof
    fix p assume "p \<in> set ?ps"
    then obtain q where q: "q \<in> set (plans d)"
      and p: "p = (if pp_companyId q = c \<and> pp_id q \<in> ?ids then q\<lparr>pp_isActive := False\<rparr> else q)"
      unfolding update_rows_def set_map by blast
    show "\<not> is_active_plan_of c b p"
    proof (cases "is_active_plan_of c b q")
      case True
      with q have "pp_companyId q = c \<and> pp_id q \<in> ?ids" by (auto simp: is_active_plan_of_def)
      then show ?thesis by (simp only: p if_True) (simp add: is_active_plan_of_def)
    next
      case False
      then show ?thesis by (simp add: p is_active_plan_of_def)
    qed
  qed
  moreover have "set (delete_rows (\<lambda>i. in_companyId i = c \<and> in_planId i \<in> ?ids) (installments d))
      \<subseteq> set (installments d)" by auto
  ultimately show ?thesis by blast
qed

lemma sum_list_sort_key: "sum_list (map f (sort_key k xs)) = (sum_list (map f xs) :: int)"
  by (metis mset_map mset_sort sum_mset_sum_list)

lemma resolveAmounts_sum:
  assumes "resolveAmounts ins tot = Inr amounts" and "list_all installmentInputSchema ins"
  shows "sum_list amounts = tot" and "length amounts = length ins"
proof -
  consider ws where "traverse (\<lambda>i. bindE (orFail (RangeError ''NaN'') (ii_milestonePercent i))
                                  (\<lambda>p. Inr (percent_weight p))) ins = Inr ws" "allocate tot ws = Inr amounts"
    | "traverse (\<lambda>i. orFail (JsError ''TypeError'') (ii_amountPaise i)) ins = Inr amounts" "sum_list amounts = tot"
    using assms(1) by (auto simp: resolveAmounts_def Let_def split: if_splits)
  then have "sum_list amounts = tot \<and> length amounts = length ins"
  proof cases
    case (1 ws)
    have nn: "\<forall>w\<in>set ws. 0 \<le> w"
    proof
      fix w assume "w \<in> set ws"
      then obtain i p where "i \<in> set ins" "ii_milestonePercent i = Some p" "w = percent_weight p"
        using traverse_in_set [OF 1(1)] by fastforce
      moreover from this have "0 \<le> p"
        using assms(2) by (auto simp: list_all_iff installmentInputSchema_def)
      ultimately show "0 \<le> w" by (simp add: percent_weight_def math_round_nonneg)
    qed
    show ?thesis
      using allocate_sum [OF nn 1(2)] allocate_length [OF 1(2)] traverse_length [OF 1(1)] by simp
  next
    case 2
    then show ?thesis using traverse_length by blast
  qed
  then show "sum_list amounts = tot" and "length amounts = length ins" by auto
qed

section \<open>A plan sums to the agreed price\<close>

definition installments_ok :: "db \<Rightarrow> bool" where
  "installments_ok d \<longleftrightarrow>
     distinct (map in_id (installments d)) \<and>
     list_all (\<lambda>i. in_id i < next_id d \<and> in_planId i < next_id d \<and> 0 \<le> in_allocatedPaise i)
       (installments d) \<and>
     list_all (\<lambda>p. list_all (\<lambda>i. in_planId i = pp_id p \<longrightarrow> in_companyId i = pp_companyId p)
       (installments d)) (plans d)"

lemma new_plan_simps [simp]:
  "pp_id (new_plan n c b t nm cu a) = n" "pp_companyId (new_plan n c b t nm cu a) = c"
  "pp_bookingId (new_plan n c b t nm cu a) = b" "pp_isActive (new_plan n c b t nm cu a)"
  by (simp_all add: new_plan_def)

text \<open>After the old plans are inactive, the new plan is the one that is loaded.\<close>

lemma load_created_plan:
  assumes "\<forall>p\<in>set ps. \<not> is_active_plan_of c b p" and "is_active_plan_of c b plan"
    and "plans d' = ps @ [plan]" and "installments d' = is @ rows"
    and "\<forall>i\<in>set is. in_planId i \<noteq> pp_id plan" and "\<forall>i\<in>set rows. in_planId i = pp_id plan"
  shows "loadActivePlanInTx c b d' = Inr (plan, sort_key in_seq rows)"
    and "\<forall>q\<in>set (plans d'). is_active_plan_of c b q \<longrightarrow> q = plan"
proof -
  have "List.find (is_active_plan_of c b) ps = None"
    using assms(1) by (simp add: find_eq_None_iff)
  then have "List.find (is_active_plan_of c b) (plans d') = Some plan"
    using assms(2,3) by (simp add: find_append)
  moreover have "filter (\<lambda>i. in_planId i = pp_id plan) (installments d') = rows"
    using assms(4-6) by (simp add: filter_False filter_True)
  ultimately show "loadActivePlanInTx c b d' = Inr (plan, sort_key in_seq rows)"
    by (simp add: loadActivePlanInTx_def)
  show "\<forall>q\<in>set (plans d'). is_active_plan_of c b q \<longrightarrow> q = plan"
    using assms(1,3) by auto
qed

lemma fresh_plan_loaded:
  assumes "deactivateExistingPlans c b d = Inr d1" and "installments_ok d"
    and "created c b (next_id d1) amounts (add_plan (new_plan (next_id d1) c b t nm cu actor) d1) d3"
    and "loadActivePlanInTx c b d3 = Inr (p, is)"
  shows "p = new_plan (next_id d1) c b t nm cu actor \<and> sum_list (map in_amountPaise is) = sum_list amounts
    \<and> (\<forall>q\<in>set (plans d3). is_active_plan_of c b q \<longrightarrow> q = p)"
proof -
  obtain is0 ps where d1: "d1 = d\<lparr>installments := is0, plans := ps\<rparr>"
    and sub: "set is0 \<subseteq> set (installments d)" and inact: "\<forall>p\<in>set ps. \<not> is_active_plan_of c b p"
    using deactivateExistingPlans_effect [OF assms(1)] by blast
  obtain rows where pl: "plans d3 = ps @ [new_plan (next_id d1) c b t nm cu actor]"
    and ins: "installments d3 = is0 @ rows" and am: "map in_amountPaise rows = amounts"
    and rows: "\<forall>i\<in>set rows. in_planId i = next_id d1"
    using assms(3) by (auto simp: created_def add_plan_def d1 list_all_iff fresh_installment_def)
  have old: "\<forall>i\<in>set is0. in_planId i \<noteq> next_id d1"
    using assms(2) sub by (force simp: installments_ok_def list_all_iff d1)
  note ld = load_created_plan [OF inact _ pl ins, simplified is_active_plan_of_def, simplified, OF old rows]
  have "p = new_plan (next_id d1) c b t nm cu actor" "is = sort_key in_seq rows"
    using assms(4) ld(1) by simp_all
  then show ?thesis
    using ld(2) am by (simp add: sum_list_sort_key is_active_plan_of_def)
qed

text \<open>
  C29: a plan instantiated from a template schedules the whole agreed price: the amounts of
  the installments the call returns sum to it exactly, and the new plan is the only active
  plan of the booking (template percentages not negative).
\<close>

theorem instantiateFromTemplate_sums_to_price:
  assumes "instantiateFromTemplate c b t actor d = Inr ((p, is), d')" and "installments_ok d"
    and "list_all (\<lambda>m. 0 \<le> pm_percent m) (template_milestones t d)"
  shows "\<exists>bk. find_booking c b d = Some bk \<and>
    sum_list (map in_amountPaise is) = bk_agreedPricePaise bk \<and>
    (\<forall>q\<in>set (plans d'). is_active_plan_of c b q \<longrightarrow> q = p)"
proof -
  let ?ws = "map (\<lambda>m. percent_weight (pm_percent m)) (template_milestones t d)"
  from assms(1) obtain bk prj nm d1 amounts where
    bk: "find_booking c b d = Some bk" and de: "deactivateExistingPlans c b d = Inr d1"
    and al: "allocate (bk_agreedPricePaise bk) ?ws = Inr amounts"
    and d': "d' = create_template_installments c bk prj t (next_id d1) (zip (template_milestones t d) amounts)
          (add_plan (new_plan (next_id d1) c b (Some t) nm False actor) d1)"
    and ld: "loadActivePlanInTx c b d' = Inr (p, is)"
    by atomize_elim (auto simp: instantiateFromTemplate_def loadBookingForPlan_def Let_def, blast)
  have id: "bk_id bk = b" using bk by (auto simp: find_booking_def dest: find_SomeD)
  have len: "length amounts = length (template_milestones t d)" using allocate_length [OF al] by simp
  have nn: "\<forall>w\<in>set ?ws. 0 \<le> w"
    using assms(3) by (auto simp: list_all_iff percent_weight_def math_round_nonneg)
  have "created c b (next_id d1) amounts
      (add_plan (new_plan (next_id d1) c b (Some t) nm False actor) d1) d'"
    using create_template_created [of c bk "next_id d1" "zip (template_milestones t d) amounts"] len
    by (simp add: d' id)
  from fresh_plan_loaded [OF de assms(2) this ld] bk allocate_sum [OF nn al] show ?thesis by metis
qed

text \<open>
  A custom plan schedules the whole agreed price, whether its installments are given as
  amounts or as percentages.
\<close>

theorem createCustomPlan_sums_to_price:
  assumes "createCustomPlan c b dto actor d = Inr ((p, is), d')" and "installments_ok d"
    and "createPaymentPlanSchema dto"
  shows "\<exists>bk. find_booking c b d = Some bk \<and>
    sum_list (map in_amountPaise is) = bk_agreedPricePaise bk \<and>
    (\<forall>q\<in>set (plans d'). is_active_plan_of c b q \<longrightarrow> q = p)"
proof -
  from assms(1) obtain bk d1 amounts where
    bk: "find_booking c b d = Some bk" and de: "deactivateExistingPlans c b d = Inr d1"
    and am: "resolveAmounts (cpp_installments dto) (bk_agreedPricePaise bk) = Inr amounts"
    and d': "d' = create_custom_installments c b (next_id d1) 1 (zip (cpp_installments dto) amounts)
          (add_plan (new_plan (next_id d1) c b None (cpp_name dto) True actor) d1)"
    and ld: "loadActivePlanInTx c b d' = Inr (p, is)"
    by (auto simp: createCustomPlan_def loadBookingForPlan_def Let_def)
  note sum = resolveAmounts_sum [OF am]
  have schema: "list_all installmentInputSchema (cpp_installments dto)"
    using assms(3) by (simp add: createPaymentPlanSchema_def)
  have "created c b (next_id d1) amounts
      (add_plan (new_plan (next_id d1) c b None (cpp_name dto) True actor) d1) d'"
    using create_custom_created [of c b "next_id d1" "zip (cpp_installments dto) amounts"] sum(2) [OF schema]
    by (simp add: d')
  from fresh_plan_loaded [OF de assms(2) this ld] bk sum(1) [OF schema] show ?thesis by metis
qed

lemma loadBookingForPlan_Inr:
  assumes "loadBookingForPlan c b d = Inr (bk, prj)"
  shows "find_booking c b d = Some bk"
  using assms by (auto simp: loadBookingForPlan_def)

section \<open>Editing a plan\<close>

lemma find_plan_upd_version:
  "List.find (is_active_plan_of c b) (update_rows q (\<lambda>p. p\<lparr>pp_version := pp_version p + 1\<rparr>) ps)
     = map_option (\<lambda>p. if q p then p\<lparr>pp_version := pp_version p + 1\<rparr> else p)
         (List.find (is_active_plan_of c b) ps)"
  by (rule find_update_rows) (simp add: is_active_plan_of_def)

lemma delete_unpaid_keeps_frozen:
  assumes "installments_ok d" and "pl \<in> set (plans d)" and "pp_companyId pl = c"
  defines "own \<equiv> filter (\<lambda>i. in_planId i = pp_id pl) (installments d)"
  shows "filter (\<lambda>i. in_planId i = pp_id pl)
      (delete_rows (\<lambda>i. in_companyId i = c \<and> in_id i \<in> set (map in_id (filter (\<lambda>i. in_allocatedPaise i = 0) own)))
        (installments d)) = filter (\<lambda>i. in_allocatedPaise i > 0) own"
proof -
  have inj: "in_id i = in_id j \<longrightarrow> i = j" if "i \<in> set (installments d)" "j \<in> set (installments d)" for i j
    using assms(1) that by (auto simp: installments_ok_def distinct_map inj_on_def)
  have nn: "0 \<le> in_allocatedPaise i" if "i \<in> set (installments d)" for i
    using assms(1) that by (auto simp: installments_ok_def list_all_iff)
  have co: "in_companyId i = c" if "i \<in> set (installments d)" "in_planId i = pp_id pl" for i
    using assms(1-3) that by (auto simp: installments_ok_def list_all_iff)
  show ?thesis
    unfolding delete_rows_def own_def filter_filter
  proof (rule filter_cong [OF refl])
    fix i assume i: "i \<in> set (installments d)"
    show "((\<not> (in_companyId i = c \<and> in_id i \<in> set (map in_id (filter (\<lambda>i. in_planId i = pp_id pl \<and> in_allocatedPaise i = 0)
              (installments d))))) \<and> in_planId i = pp_id pl) =
        (in_planId i = pp_id pl \<and> 0 < in_allocatedPaise i)"
      using i inj nn [OF i] co [OF i] by (auto simp: order_less_le)
  qed
qed

text \<open>
  C30: an edit regenerates only the unpaid part of a schedule. Every installment of the
  active plan that has received money is still there, unchanged, and the edited plan again
  sums to the agreed price.
\<close>

theorem editPlan_keeps_frozen_and_sum:
  assumes "editPlan c b ins d = Inr ((p, is), d')" and "installments_ok d"
    and "list_all installmentInputSchema ins"
  shows "\<exists>bk pl. find_booking c b d = Some bk \<and>
    List.find (is_active_plan_of c b) (plans d) = Some pl \<and>
    sum_list (map in_amountPaise is) = bk_agreedPricePaise bk \<and>
    (\<forall>i\<in>set (installments d). in_planId i = pp_id pl \<and> in_allocatedPaise i > 0 \<longrightarrow> i \<in> set is)"
proof -
  let ?own = "\<lambda>pl. filter (\<lambda>i. in_planId i = pp_id pl) (installments d)"
  let ?frozen = "\<lambda>pl. filter (\<lambda>i. in_allocatedPaise i > 0) (?own pl)"
  let ?unpaid = "\<lambda>pl. filter (\<lambda>i. in_allocatedPaise i = 0) (?own pl)"
  from assms(1) obtain bk prj pl amounts d1 where
    lb: "loadBookingForPlan c b d = Inr (bk, prj)" and pl: "List.find (is_active_plan_of c b) (plans d) = Some pl"
    and am: "resolveAmounts ins (bk_agreedPricePaise bk - sum_list (map in_amountPaise (?frozen pl))) = Inr amounts"
    and de: "delm_installment c (\<lambda>i. in_id i \<in> set (map in_id (?unpaid pl))) d = Inr d1"
    and ld: "loadActivePlanInTx c b (upd_plan c (pp_id pl) (\<lambda>p. p\<lparr>pp_version := pp_version p + 1\<rparr>)
        (create_custom_installments c b (pp_id pl) (max_seq (?frozen pl) + 1) (zip ins amounts) d1)) = Inr (p, is)"
    unfolding editPlan_def Let_def
    apply -
    apply (elim returnedE)
    apply (rule that)
        apply hypsubst
        apply assumption+
      apply hypsubst
      apply assumption+
    done
  define d2 where "d2 = create_custom_installments c b (pp_id pl) (max_seq (?frozen pl) + 1) (zip ins amounts) d1"
  note ld2 = ld [folded d2_def]
  have bk: "find_booking c b d = Some bk" by (rule loadBookingForPlan_Inr [OF lb])
  note sum = resolveAmounts_sum [OF am assms(3)]
  have plc: "pl \<in> set (plans d)" "pp_companyId pl = c"
    using find_SomeD [OF pl] by (simp_all add: is_active_plan_of_def)
  have "created c b (pp_id pl) amounts d1 d2"
    using create_custom_created [of c b "pp_id pl" "zip ins amounts" d1] sum(2) by (simp add: d2_def)
  then obtain rows where
    d2: "d2 = d1\<lparr>installments := installments d1 @ rows, next_id := next_id d1 + length amounts\<rparr>"
    and am2: "map in_amountPaise rows = amounts"
    and fresh: "list_all (fresh_installment c b (pp_id pl) (next_id d1) (next_id d1 + length amounts)) rows"
    unfolding created_def by blast
  have ins2: "installments d2 = installments d1 @ rows" and plans2: "plans d2 = plans d1"
    by (simp_all add: d2)
  have rows: "map in_amountPaise rows = amounts" "\<forall>i\<in>set rows. in_planId i = pp_id pl"
    using am2 fresh by (auto simp: list_all_iff fresh_installment_def)
  have keep: "filter (\<lambda>i. in_planId i = pp_id pl) (installments d1) = ?frozen pl"
    using de delete_unpaid_keeps_frozen [OF assms(2) plc] by (auto simp: delm_installment_Inr)
  have plans1: "plans d1 = plans d" using de by (auto simp: delm_installment_Inr)
  let ?v = "\<lambda>p. p\<lparr>pp_version := pp_version p + 1\<rparr>"
  have "List.find (is_active_plan_of c b) (plans (upd_plan c (pp_id pl) ?v d2)) = Some (?v pl)"
    using pl plc(2) by (simp add: upd_plan_def plans2 plans1 find_plan_upd_version)
  then have "is = sort_key in_seq (filter (\<lambda>i. in_planId i = pp_id pl) (installments d2))"
    using ld2 by (auto simp: loadActivePlanInTx_def upd_plan_def)
  then have "is = sort_key in_seq (?frozen pl @ rows)"
    using rows(2) by (simp add: ins2 keep filter_True)
  then show ?thesis
    using bk pl rows(1) sum(1) by (simp add: sum_list_sort_key)
qed

section \<open>Raising a stage\<close>

lemma awaiting_stage_cong:
  "plans d' = plans d \<Longrightarrow> bookings d' = bookings d \<Longrightarrow> units d' = units d \<Longrightarrow>
   awaiting_stage c p t m d' = awaiting_stage c p t m d"
  by (simp add: awaiting_stage_def fun_eq_iff)

lemma raiseStage_effect:
  assumes "raiseStage c prj dto actor d = Inr (r, d')"
  shows "\<exists>m sr n srs.
    List.find (\<lambda>m. pm_companyId m = c \<and> pm_templateId m = rs_templateId dto \<and> pm_seq m = rs_milestoneSeq dto)
      (planMilestones (masters_of d)) = Some m \<and> pm_milestoneType m = STAGE_LINKED \<and>
    findStageRaise c prj (rs_templateId dto) (rs_milestoneSeq dto) d' = Some sr \<and>
    rr_stageRaiseId r = sr_id sr \<and> rr_stageCompletedOn r = sr_stageCompletedOn sr \<and>
    (findStageRaise c prj (rs_templateId dto) (rs_milestoneSeq dto) d = Some sr \<longrightarrow> srs = stageRaises d \<and> n = next_id d) \<and>
    next_id d \<le> n \<and>
    d' = d\<lparr>stageRaises := srs, next_id := n, installments := update_rows
        (\<lambda>i. in_companyId i = c \<and> awaiting_stage c prj (Some (rs_templateId dto)) (Some (rs_milestoneSeq dto)) d i)
        (\<lambda>i. i\<lparr>in_dueDate := Some (date_column (computeRaisedDueDate (sr_stageCompletedOn sr) (pm_graceDaysAfterRaise m))),
               in_stageRaiseId := Some (sr_id sr)\<rparr>) (installments d)\<rparr> \<and>
    rr_raisedCount r = length (filter
      (awaiting_stage c prj (Some (rs_templateId dto)) (Some (rs_milestoneSeq dto)) d) (installments d))"
proof -
  let ?t = "rs_templateId dto" and ?s = "rs_milestoneSeq dto"
  from assms obtain m where
    m: "List.find (\<lambda>m. pm_companyId m = c \<and> pm_templateId m = ?t \<and> pm_seq m = ?s) (planMilestones (masters_of d)) = Some m"
      "pm_milestoneType m = STAGE_LINKED"
    by (auto simp: raiseStage_def)
  show ?thesis
  proof (cases "findStageRaise c prj ?t ?s d")
    case (Some sr)
    have "findStageRaise c prj ?t ?s (d\<lparr>installments := is\<rparr>) = Some sr" for "is"
      using Some by (simp add: findStageRaise_def)
    with assms m Some show ?thesis
      by (intro exI [of _ m] exI [of _ sr] exI [of _ "next_id d"] exI [of _ "stageRaises d"])
         (auto simp: raiseStage_def Let_def updm_installment_def)
  next
    case None
    define sr where "sr = \<lparr>sr_id = next_id d, sr_companyId = c, sr_projectId = prj, sr_templateId = ?t,
      sr_milestoneSeq = ?s, sr_label = pm_label m, sr_stageCompletedOn = date_column (rs_stageCompletedOn dto),
      sr_raisedById = actor\<rparr>"
    have "findStageRaise c prj ?t ?s (d\<lparr>stageRaises := stageRaises d @ [sr], next_id := k, installments := is\<rparr>) = Some sr"
      for k "is"
      using None by (simp add: findStageRaise_def find_append sr_def)
    moreover have "awaiting_stage c prj (Some ?t) (Some ?s) (add_stage_raise sr d)
        = awaiting_stage c prj (Some ?t) (Some ?s) d"
      by (rule awaiting_stage_cong) (simp_all add: add_stage_raise_def)
    moreover have "sr_id sr = next_id d" "sr_stageCompletedOn sr = date_column (rs_stageCompletedOn dto)"
      by (simp_all add: sr_def)
    ultimately show ?thesis
      using assms m None
      by (intro exI [of _ m] exI [of _ sr] exI [of _ "next_id d + 1"] exI [of _ "stageRaises d @ [sr]"])
         (auto simp: raiseStage_def Let_def updm_installment_def sr_def [symmetric], auto simp: add_stage_raise_def)
  qed
qed

text \<open>
  C31: raising a stage is idempotent. A second raise of the same stage succeeds, raises no
  installment, keeps the recorded completion date and leaves the database as it was.
\<close>

theorem raiseStage_idempotent:
  assumes "raiseStage c prj dto actor d = Inr (r, d')"
    and "rs_templateId dto2 = rs_templateId dto" and "rs_milestoneSeq dto2 = rs_milestoneSeq dto"
  shows "raiseStage c prj dto2 actor2 d' = Inr (r\<lparr>rr_raisedCount := 0\<rparr>, d')"
proof -
  let ?t = "rs_templateId dto" and ?s = "rs_milestoneSeq dto"
  let ?aw = "awaiting_stage c prj (Some ?t) (Some ?s)"
  obtain m sr n srs where
    m: "List.find (\<lambda>m. pm_companyId m = c \<and> pm_templateId m = ?t \<and> pm_seq m = ?s) (planMilestones (masters_of d)) = Some m"
      "pm_milestoneType m = STAGE_LINKED"
    and sr: "findStageRaise c prj ?t ?s d' = Some sr"
    and r: "rr_stageRaiseId r = sr_id sr" "rr_stageCompletedOn r = sr_stageCompletedOn sr"
    and d': "d' = d\<lparr>stageRaises := srs, next_id := n, installments := update_rows
        (\<lambda>i. in_companyId i = c \<and> ?aw d i)
        (\<lambda>i. i\<lparr>in_dueDate := Some (date_column (computeRaisedDueDate (sr_stageCompletedOn sr) (pm_graceDaysAfterRaise m))),
               in_stageRaiseId := Some (sr_id sr)\<rparr>) (installments d)\<rparr>"
    using raiseStage_effect [OF assms(1)] by blast
  have aw: "?aw d' = ?aw d" by (rule awaiting_stage_cong) (simp_all add: d')
  have none: "\<not> ?aw d' i" if i: "i \<in> set (installments d')" for i
  proof -
    obtain j where "j \<in> set (installments d)"
      and j: "i = (if in_companyId j = c \<and> ?aw d j then j\<lparr>in_dueDate := Some (date_column (computeRaisedDueDate
          (sr_stageCompletedOn sr) (pm_graceDaysAfterRaise m))), in_stageRaiseId := Some (sr_id sr)\<rparr> else j)"
      using i by (auto simp: d' update_rows_def)
    show ?thesis
    proof (cases "in_companyId j = c \<and> ?aw d j")
      case True
      then show ?thesis unfolding aw by (simp only: j if_True) (simp add: awaiting_stage_def)
    next
      case False
      then show ?thesis unfolding aw by (auto simp: j awaiting_stage_def)
    qed
  qed
  have prj: "\<exists>p. List.find (\<lambda>p. pj_id p = prj \<and> pj_companyId p = c) (projects (masters_of d)) = Some p"
    using assms(1) by (auto simp: raiseStage_def)
  have same: "updm_installment c (?aw d') f d' = d'" for f
    using none by (simp add: updm_installment_def update_rows_none)
  have zero: "filter (?aw d') (installments d') = []"
    using none by (simp add: filter_empty_conv)
  have mast: "masters_of d' = masters_of d" by (simp add: d')
  show ?thesis
    using prj m sr r unfolding raiseStage_def assms(2,3) mast
    by (auto simp: Let_def same zero)
qed

section \<open>Concrete plans\<close>

definition demo_plan_dto :: create_payment_plan_dto where
  "demo_plan_dto = \<lparr>cpp_name = ''Two halves'', cpp_installments =
     [\<lparr>ii_label = ''First'', ii_dueDate = demo_day, ii_amountPaise = None, ii_milestonePercent = Some 50\<rparr>,
      \<lparr>ii_label = ''Second'', ii_dueDate = demo_day, ii_amountPaise = None, ii_milestonePercent = Some 50\<rparr>]\<rparr>"

definition demo_raise_dto :: raise_stage_dto where
  "demo_raise_dto = \<lparr>rs_templateId = 15, rs_milestoneSeq = 2, rs_stageCompletedOn = demo_day\<rparr>"

lemma demo_plan_premises:
  "\<not> isl (instantiateFromTemplate 1 40 15 (Some 99) demo_sold)"
  "\<not> isl (createCustomPlan 1 40 demo_plan_dto None demo_sold)"
  "\<not> isl (editPlan 1 40 (cpp_installments demo_plan_dto) demo_sold)"
  "\<not> isl (raiseStage 1 3 demo_raise_dto None demo_sold)"
  "installments_ok demo_sold"
  "list_all (\<lambda>m. 0 \<le> pm_percent m) (template_milestones 15 demo_sold)"
  "createPaymentPlanSchema demo_plan_dto"
  by code_simp+

theorem instantiateFromTemplate_sums_to_price_witness:
  "\<exists>p is d' bk. instantiateFromTemplate 1 40 15 (Some 99) demo_sold = Inr ((p, is), d') \<and>
     find_booking 1 40 demo_sold = Some bk \<and>
     sum_list (map in_amountPaise is) = bk_agreedPricePaise bk"
proof -
  obtain p "is" d' where
    r: "instantiateFromTemplate 1 40 15 (Some 99) demo_sold = Inr ((p, is), d')"
    using not_isl_Inr [OF demo_plan_premises(1)] by auto
  from instantiateFromTemplate_sums_to_price [OF r demo_plan_premises(5,6)] r show ?thesis by blast
qed

theorem createCustomPlan_sums_to_price_witness:
  "\<exists>p is d' bk. createCustomPlan 1 40 demo_plan_dto None demo_sold = Inr ((p, is), d') \<and>
     find_booking 1 40 demo_sold = Some bk \<and>
     sum_list (map in_amountPaise is) = bk_agreedPricePaise bk"
proof -
  obtain p "is" d' where
    r: "createCustomPlan 1 40 demo_plan_dto None demo_sold = Inr ((p, is), d')"
    using not_isl_Inr [OF demo_plan_premises(2)] by auto
  from createCustomPlan_sums_to_price [OF r demo_plan_premises(5,7)] r show ?thesis by blast
qed

theorem editPlan_keeps_frozen_and_sum_witness:
  "\<exists>p is d' bk. editPlan 1 40 (cpp_installments demo_plan_dto) demo_sold = Inr ((p, is), d') \<and>
     find_booking 1 40 demo_sold = Some bk \<and>
     sum_list (map in_amountPaise is) = bk_agreedPricePaise bk"
proof -
  obtain p "is" d' where
    r: "editPlan 1 40 (cpp_installments demo_plan_dto) demo_sold = Inr ((p, is), d')"
    using not_isl_Inr [OF demo_plan_premises(3)] by auto
  have "list_all installmentInputSchema (cpp_installments demo_plan_dto)"
    using demo_plan_premises(7) by (simp add: createPaymentPlanSchema_def)
  from editPlan_keeps_frozen_and_sum [OF r demo_plan_premises(5) this] r show ?thesis by blast
qed

theorem raiseStage_idempotent_witness:
  "\<exists>r d'. raiseStage 1 3 demo_raise_dto None demo_sold = Inr (r, d') \<and>
     raiseStage 1 3 (demo_raise_dto\<lparr>rs_stageCompletedOn := 0\<rparr>) (Some 7) d' = Inr (r\<lparr>rr_raisedCount := 0\<rparr>, d')"
proof -
  obtain r d' where r: "raiseStage 1 3 demo_raise_dto None demo_sold = Inr (r, d')"
    using not_isl_Inr [OF demo_plan_premises(4)] by auto
  with raiseStage_idempotent [OF r, of "demo_raise_dto\<lparr>rs_stageCompletedOn := 0\<rparr>" "Some 7"]
  show ?thesis by auto
qed

text \<open>
  It does not matter whether a stage is raised before or after a booking gets its plan.
  The due date and the stage link a raise writes into a waiting installment are the ones
  \<open>instantiateFromTemplate\<close> gives that milestone in a plan created afterwards.
\<close>

theorem raiseStage_agrees_with_instantiation:
  assumes "raiseStage c prj dto actor d = Inr (r, d')"
    and "i \<in> set (installments d)"
    and "awaiting_stage c prj (Some (rs_templateId dto)) (Some (rs_milestoneSeq dto)) d i"
  shows "\<exists>m i'. m \<in> set (planMilestones (masters_of d)) \<and> i' \<in> set (installments d') \<and>
    in_id i' = in_id i \<and> in_dueDate i' \<noteq> None \<and> pm_seq m = rs_milestoneSeq dto \<and>
    (\<forall>b planId amount.
       let j = template_installment c b prj (rs_templateId dto) planId m amount d'
       in in_dueDate i' = in_dueDate j \<and> in_stageRaiseId i' = in_stageRaiseId j)"
proof -
  let ?aw = "awaiting_stage c prj (Some (rs_templateId dto)) (Some (rs_milestoneSeq dto)) d"
  obtain m sr n srs where
    m: "List.find (\<lambda>m. pm_companyId m = c \<and> pm_templateId m = rs_templateId dto \<and> pm_seq m = rs_milestoneSeq dto)
      (planMilestones (masters_of d)) = Some m" "pm_milestoneType m = STAGE_LINKED"
    and sr: "findStageRaise c prj (rs_templateId dto) (rs_milestoneSeq dto) d' = Some sr"
    and d': "d' = d\<lparr>stageRaises := srs, next_id := n, installments := update_rows
        (\<lambda>i. in_companyId i = c \<and> ?aw i)
        (\<lambda>i. i\<lparr>in_dueDate := Some (date_column (computeRaisedDueDate (sr_stageCompletedOn sr) (pm_graceDaysAfterRaise m))),
               in_stageRaiseId := Some (sr_id sr)\<rparr>) (installments d)\<rparr>"
    using raiseStage_effect [OF assms(1)] by blast
  let ?i = "i\<lparr>in_dueDate := Some (date_column (computeRaisedDueDate (sr_stageCompletedOn sr) (pm_graceDaysAfterRaise m))),
               in_stageRaiseId := Some (sr_id sr)\<rparr>"
  have c: "in_companyId i = c" using assms(3) by (simp add: awaiting_stage_def)
  have "?i \<in> set (installments d')"
    using assms(2,3) c by (auto simp: d' set_update_rows)
  moreover have "m \<in> set (planMilestones (masters_of d))" "pm_seq m = rs_milestoneSeq dto"
    using find_SomeD [OF m(1)] by simp_all
  ultimately show ?thesis
    using m(2) sr by (intro exI [of _ m] exI [of _ ?i]) (simp add: template_installment_def Let_def)
qed

theorem raiseStage_agrees_with_instantiation_witness:
  "\<exists>r d' i m i'. raiseStage 1 3 demo_raise_dto None demo_sold = Inr (r, d') \<and>
     i \<in> set (installments demo_sold) \<and> i' \<in> set (installments d') \<and> in_id i' = in_id i \<and>
     in_dueDate i' = in_dueDate (template_installment 1 demo_booking 3 15 43 m 88720 d')"
proof -
  obtain r d' where r: "raiseStage 1 3 demo_raise_dto None demo_sold = Inr (r, d')"
    using not_isl_Inr [OF demo_plan_premises(4)] by auto
  have t: "rs_templateId demo_raise_dto = 15" by (simp add: demo_raise_dto_def)
  have "list_ex (awaiting_stage 1 3 (Some (rs_templateId demo_raise_dto)) (Some (rs_milestoneSeq demo_raise_dto))
      demo_sold) (installments demo_sold)"
    by code_simp
  then obtain i where i: "i \<in> set (installments demo_sold)"
    "awaiting_stage 1 3 (Some (rs_templateId demo_raise_dto)) (Some (rs_milestoneSeq demo_raise_dto)) demo_sold i"
    by (auto simp: list_ex_iff)
  from raiseStage_agrees_with_instantiation [OF r i] show ?thesis
    using r i(1) unfolding t Let_def by metis
qed

end
