(* ===== verification/Receipt.thy ===== *)
theory Receipt
  imports PaymentPlan "HOL-Library.AList"
begin

text \<open>
  \<open>apps/api/src/postsales/receipt.service.ts\<close>: receipts with their allocations to
  installments and the tax deducted at source, the life of a cheque, reversals, and tax
  certificates. The lemmas give the entries each operation posts, its effect on the balance
  and on the allocation cache of an installment, and show that no entry is reversed twice.
\<close>

section \<open>Requests\<close>

record receipt_allocation_input =
  rai_installmentId :: id
  rai_amountPaise :: int

record create_receipt_dto =
  crd_bookingId :: id
  crd_receiptDate :: date
  crd_mode :: receipt_mode
  crd_grossAmountPaise :: int
  crd_allocations :: "receipt_allocation_input list"
  crd_receiptTypeId :: "id option"
  crd_bankId :: "id option"
  crd_instrumentNumber :: "string option"
  crd_instrumentDate :: "date option"
  crd_utr :: "string option"
  crd_tdsDeductedPaise :: int

definition receiptAllocationInputSchema :: "receipt_allocation_input \<Rightarrow> bool" where
  "receiptAllocationInputSchema a \<longleftrightarrow> 1 \<le> rai_amountPaise a"

definition short_enough :: "nat \<Rightarrow> string option \<Rightarrow> bool" where
  "short_enough n s \<longleftrightarrow> (case s of None \<Rightarrow> True | Some t \<Rightarrow> length t \<le> n)"

definition createReceiptSchema :: "create_receipt_dto \<Rightarrow> bool" where
  "createReceiptSchema dto \<longleftrightarrow>
     1 \<le> crd_grossAmountPaise dto \<and> 1 \<le> length (crd_allocations dto) \<and>
     list_all receiptAllocationInputSchema (crd_allocations dto) \<and>
     short_enough 50 (crd_instrumentNumber dto) \<and> short_enough 50 (crd_utr dto) \<and>
     0 \<le> crd_tdsDeductedPaise dto"

datatype cheque_event_status = EV_DEPOSITED | EV_CLEARED | EV_BOUNCED

record cheque_event_dto =
  ced_status :: cheque_event_status
  ced_eventDate :: date
  ced_reason :: "string option"

record tds_certificate_dto =
  tcd_certificateNumber :: string
  tcd_certificateDate :: date

section \<open>Validation of a receipt\<close>

definition CHEQUE_LIKE :: "receipt_mode list" where
  "CHEQUE_LIKE = [CHEQUE, DD]"

definition find_installment :: "id \<Rightarrow> id \<Rightarrow> db \<Rightarrow> installment option" where
  "find_installment companyId i d =
     List.find (\<lambda>r. in_id r = i \<and> in_companyId r = companyId) (installments d)"

text \<open>
  The two insertion-ordered \<open>Map\<close>s of the handler are association lists;
  \<open>AList.update\<close> replaces in place or appends, as \<open>Map.set\<close> does.
\<close>

definition lock_installment ::
  "id \<Rightarrow> id \<Rightarrow> db \<Rightarrow> receipt_allocation_input \<Rightarrow> (id \<times> installment) list \<Rightarrow> (id \<times> installment) list result" where
  "lock_installment companyId bookingId d a insts =
     (if map_of insts (rai_installmentId a) \<noteq> None then Inr insts
      else
        bindE (orFail (NotFound ''Installment not found on this booking'')
                 (List.find (\<lambda>r. in_id r = rai_installmentId a \<and> in_companyId r = companyId \<and>
                                 in_bookingId r = bookingId) (installments d))) (\<lambda>inst.
        bindE (ensure (in_dueDate inst \<noteq> None)
                 (BadRequest ''Installment has not been raised yet'')) (\<lambda>_.
          Inr (AList.update (rai_installmentId a) inst insts))))"

definition add_by_inst :: "receipt_allocation_input list \<Rightarrow> (id \<times> int) list" where
  "add_by_inst allocs =
     foldl (\<lambda>m a. AList.update (rai_installmentId a)
        ((case map_of m (rai_installmentId a) of None \<Rightarrow> 0 | Some s \<Rightarrow> s) + rai_amountPaise a) m) [] allocs"

definition check_room :: "(id \<times> installment) list \<Rightarrow> id \<times> int \<Rightarrow> unit result" where
  "check_room insts ia =
     bindE (orFail (JsError ''TypeError'') (map_of insts (fst ia))) (\<lambda>inst.
       ensure (\<not> in_allocatedPaise inst + snd ia > in_amountPaise inst)
         (BadRequest ''Allocation to installment exceeds its amount''))"

text \<open>\<open>findFirst\<close> with \<open>orderBy: effectiveFrom desc\<close>.\<close>

definition effective_tds_rule :: "id \<Rightarrow> string \<Rightarrow> date \<Rightarrow> db \<Rightarrow> tds_rule option" where
  "effective_tds_rule companyId sect date d =
     (case sort_key (\<lambda>r. - tr_effectiveFrom r)
             (filter (\<lambda>r. tr_companyId r = companyId \<and> tr_section r = sect \<and>
                          tr_effectiveFrom r \<le> date_column date \<and>
                          (case tr_effectiveTo r of None \<Rightarrow> True | Some e \<Rightarrow> e \<ge> date_column date))
                (tdsRules (masters_of d))) of
        [] \<Rightarrow> None | r # _ \<Rightarrow> Some r)"

definition check_tds :: "id \<Rightarrow> create_receipt_dto \<Rightarrow> booking \<Rightarrow> db \<Rightarrow> unit result" where
  "check_tds companyId dto booking d =
     (if crd_tdsDeductedPaise dto > 0 then
        bindE (orFail (BadRequest ''No effective 194-IA TDS rule configured'')
                 (effective_tds_rule companyId ''194-IA'' (crd_receiptDate dto) d)) (\<lambda>rule.
          ensure (\<not> bk_agreedPricePaise booking < tr_thresholdPaise rule)
            (BadRequest ''Booking is below the TDS threshold''))
      else Inr ())"

text \<open>Everything before the first write of \<open>createReceiptTx\<close>.\<close>

definition check_receipt :: "id \<Rightarrow> create_receipt_dto \<Rightarrow> db \<Rightarrow> booking result" where
  "check_receipt companyId dto d =
     bindE (ensure (sum_list (map rai_amountPaise (crd_allocations dto)) = crd_grossAmountPaise dto)
              (BadRequest ''Allocations must sum to the gross amount'')) (\<lambda>_.
     bindE (ensure (\<not> crd_tdsDeductedPaise dto > crd_grossAmountPaise dto)
              (BadRequest ''TDS deducted cannot exceed the gross amount'')) (\<lambda>_.
     bindE (orFail (NotFound ''Booking not found'') (find_booking companyId (crd_bookingId dto) d)) (\<lambda>booking.
     bindE (foldE (lock_installment companyId (crd_bookingId dto) d) (crd_allocations dto) []) (\<lambda>insts.
     bindE (traverse (check_room insts) (add_by_inst (crd_allocations dto))) (\<lambda>_.
     bindE (check_tds companyId dto booking d) (\<lambda>_.
       Inr booking))))))"

section \<open>Writing a receipt\<close>

definition installment_status_for :: "int \<Rightarrow> int \<Rightarrow> installment_status" where
  "installment_status_for allocated amount =
     (if allocated \<ge> amount then PAID else if allocated > 0 then PART_PAID else UNPAID)"

definition bumpInstallment :: "id \<Rightarrow> id \<Rightarrow> int \<Rightarrow> db \<Rightarrow> db" where
  "bumpInstallment companyId installmentId delta d =
     (case find_installment companyId installmentId d of
        None \<Rightarrow> d
      | Some inst \<Rightarrow>
          let allocated = in_allocatedPaise inst + delta
          in upd_installment companyId installmentId
               (\<lambda>i. i\<lparr>in_allocatedPaise := allocated,
                       in_status := installment_status_for allocated (in_amountPaise inst)\<rparr>) d)"

definition bump_all :: "id \<Rightarrow> (id \<times> int) list \<Rightarrow> db \<Rightarrow> db" where
  "bump_all companyId adds d = foldl (\<lambda>d ia. bumpInstallment companyId (fst ia) (snd ia) d) d adds"

definition alloc_entry ::
  "id \<Rightarrow> id \<Rightarrow> date \<Rightarrow> id option \<Rightarrow> receipt_allocation_input \<Rightarrow> ledger_input" where
  "alloc_entry bookingId receiptId date actorId a =
     (entry_in bookingId RECEIPT_ALLOC (- rai_amountPaise a) date)
       \<lparr>li_installmentId := Some (rai_installmentId a), li_receiptId := Some receiptId,
        li_createdById := actorId\<rparr>"

definition post_allocation ::
  "id \<Rightarrow> id \<Rightarrow> id \<Rightarrow> date \<Rightarrow> id option \<Rightarrow> receipt_allocation_input \<Rightarrow> db \<Rightarrow> db" where
  "post_allocation companyId bookingId receiptId date actorId a d =
     snd (post companyId [alloc_entry bookingId receiptId date actorId a]
       (add_allocation \<lparr>ra_id = next_id d, ra_companyId = companyId, ra_receiptId = receiptId,
                        ra_installmentId = rai_installmentId a, ra_amountPaise = rai_amountPaise a\<rparr> d))"

definition post_allocations ::
  "id \<Rightarrow> id \<Rightarrow> id \<Rightarrow> date \<Rightarrow> id option \<Rightarrow> receipt_allocation_input list \<Rightarrow> db \<Rightarrow> db" where
  "post_allocations companyId bookingId receiptId date actorId allocs d =
     foldl (\<lambda>d a. post_allocation companyId bookingId receiptId date actorId a d) d allocs"

definition tds_entry :: "create_receipt_dto \<Rightarrow> id \<Rightarrow> id option \<Rightarrow> ledger_input" where
  "tds_entry dto receiptId actorId =
     (entry_in (crd_bookingId dto) TDS_RECEIVABLE (crd_tdsDeductedPaise dto) (crd_receiptDate dto))
       \<lparr>li_receiptId := Some receiptId,
        li_reason := Some ''TDS 194-IA withheld - receivable until certificate'',
        li_createdById := actorId\<rparr>"

definition post_tds :: "id \<Rightarrow> create_receipt_dto \<Rightarrow> id \<Rightarrow> id option \<Rightarrow> db \<Rightarrow> db" where
  "post_tds companyId dto receiptId actorId d =
     (if crd_tdsDeductedPaise dto > 0 then
        let (created, d1) = post companyId [tds_entry dto receiptId actorId] d
        in add_tds_deduction
             \<lparr>td_id = next_id d1, td_companyId = companyId, td_bookingId = crd_bookingId dto,
              td_receiptId = Some receiptId, td_sectionSnapshot = ''194-IA'', td_ratePercentSnapshot = 1,
              td_deductedPaise = crd_tdsDeductedPaise dto,
              td_receivableLedgerEntryId = (case created of [] \<Rightarrow> None | e # _ \<Rightarrow> Some (le_id e)),
              td_createdById = actorId\<rparr> d1
      else d)"

definition new_receipt :: "id \<Rightarrow> id \<Rightarrow> create_receipt_dto \<Rightarrow> id option \<Rightarrow> nat \<Rightarrow> string \<Rightarrow> receipt" where
  "new_receipt new companyId dto actorId seq fyLabel =
     \<lparr>rc_id = new, rc_companyId = companyId, rc_bookingId = crd_bookingId dto,
      rc_receiptNumber = formatReceiptNumber fyLabel seq, rc_fyLabel = fyLabel, rc_seqValue = seq,
      rc_receiptDate = date_column (crd_receiptDate dto), rc_mode = crd_mode dto,
      rc_grossAmountPaise = crd_grossAmountPaise dto, rc_receiptTypeId = crd_receiptTypeId dto,
      rc_bankId = crd_bankId dto, rc_instrumentNumber = crd_instrumentNumber dto,
      rc_instrumentDate = map_option date_column (crd_instrumentDate dto), rc_utr = crd_utr dto,
      rc_clearanceStatus = (if crd_mode dto \<in> set CHEQUE_LIKE then CLEARANCE_RECEIVED
                            else CLEARANCE_NOT_APPLICABLE),
      rc_isReversed = False, rc_reversalReason = None, rc_reprintCount = 0, rc_createdById = actorId\<rparr>"

definition write_receipt :: "id \<Rightarrow> create_receipt_dto \<Rightarrow> id option \<Rightarrow> db \<Rightarrow> receipt \<times> db" where
  "write_receipt companyId dto actorId d =
     (let ((seq, fyLabel), d1) =
            allocateForFy companyId ''RECEIPT'' (crd_receiptDate dto) (fy_start_month companyId d) d;
          r = new_receipt (next_id d1) companyId dto actorId seq fyLabel;
          d2 = add_receipt r d1;
          d3 = (if crd_mode dto \<in> set CHEQUE_LIKE then
                  add_cheque_event \<lparr>ce_id = next_id d2, ce_companyId = companyId, ce_receiptId = rc_id r,
                     ce_status = CLEARANCE_RECEIVED, ce_eventDate = date_column (crd_receiptDate dto),
                     ce_reason = None, ce_createdById = actorId\<rparr> d2
                else d2);
          d4 = post_allocations companyId (crd_bookingId dto) (rc_id r) (crd_receiptDate dto) actorId
                 (crd_allocations dto) d3;
          d5 = bump_all companyId (add_by_inst (crd_allocations dto)) d4;
          d6 = post_tds companyId dto (rc_id r) actorId d5
      in (r, d6))"

text \<open>\<open>createReceipt\<close> without the notification it sends after the commit.\<close>

definition createReceipt :: "id \<Rightarrow> create_receipt_dto \<Rightarrow> id option \<Rightarrow> db \<Rightarrow> (receipt \<times> db) result" where
  "createReceipt companyId dto actorId d =
     bindE (check_receipt companyId dto d) (\<lambda>_. Inr (write_receipt companyId dto actorId d))"

section \<open>Reversals\<close>

definition find_receipt :: "id \<Rightarrow> id \<Rightarrow> db \<Rightarrow> receipt option" where
  "find_receipt companyId receiptId d =
     List.find (\<lambda>r. rc_id r = receiptId \<and> rc_companyId r = companyId) (receipts d)"

definition receipt_entries :: "id \<Rightarrow> id \<Rightarrow> db \<Rightarrow> ledger_entry list" where
  "receipt_entries companyId receiptId d =
     filter (\<lambda>e. le_companyId e = companyId \<and> le_receiptId e = Some receiptId \<and>
                 (le_entryType e = RECEIPT_ALLOC \<or> le_entryType e = TDS_RECEIVABLE)) (ledger d)"

definition already_reversed :: "id \<Rightarrow> db \<Rightarrow> id \<Rightarrow> bool" where
  "already_reversed companyId d i \<longleftrightarrow>
     list_ex (\<lambda>e. le_companyId e = companyId \<and> le_reversalOfEntryId e = Some i) (ledger d)"

definition reversal_entry ::
  "receipt \<Rightarrow> ledger_entry_type \<Rightarrow> string \<Rightarrow> id option \<Rightarrow> date \<Rightarrow> ledger_entry \<Rightarrow> ledger_input" where
  "reversal_entry r reversalType reason actorId effectiveDate e =
     \<lparr>li_bookingId = rc_bookingId r, li_entryType = reversalType,
      li_signedAmountPaise = - le_signedAmountPaise e, li_installmentId = le_installmentId e,
      li_receiptId = Some (rc_id r), li_reversalOfEntryId = Some (le_id e), li_reason = Some reason,
      li_effectiveDate = effectiveDate, li_createdById = actorId\<rparr>"

definition reverse_entry ::
  "id \<Rightarrow> receipt \<Rightarrow> ledger_entry_type \<Rightarrow> string \<Rightarrow> id option \<Rightarrow> date \<Rightarrow> ledger_entry \<Rightarrow> db \<Rightarrow> db" where
  "reverse_entry companyId r reversalType reason actorId effectiveDate e d =
     (let d1 = snd (post companyId [reversal_entry r reversalType reason actorId effectiveDate e] d)
      in case (le_entryType e = RECEIPT_ALLOC, le_installmentId e) of
           (True, Some i) \<Rightarrow> bumpInstallment companyId i (le_signedAmountPaise e) d1
         | _ \<Rightarrow> d1)"

text \<open>The set of reversed entries is read once, before the loop.\<close>

definition reverseReceiptLedger ::
  "id \<Rightarrow> receipt \<Rightarrow> ledger_entry_type \<Rightarrow> string \<Rightarrow> id option \<Rightarrow> date \<Rightarrow> int \<Rightarrow> db \<Rightarrow> db" where
  "reverseReceiptLedger companyId r reversalType reason actorId effectiveDate bounceChargePaise d =
     (let entries = receipt_entries companyId (rc_id r) d;
          d1 = foldl (\<lambda>s e. if already_reversed companyId d (le_id e) then s
                            else reverse_entry companyId r reversalType reason actorId effectiveDate e s)
                 d entries
      in if bounceChargePaise > 0 then
           snd (post companyId
             [(entry_in (rc_bookingId r) BOUNCE_CHARGE bounceChargePaise effectiveDate)
                \<lparr>li_receiptId := Some (rc_id r), li_reason := Some reason, li_createdById := actorId\<rparr>] d1)
         else d1)"

definition clearance_of :: "cheque_event_status \<Rightarrow> cheque_clearance_status" where
  "clearance_of s = (case s of EV_DEPOSITED \<Rightarrow> CLEARANCE_DEPOSITED | EV_CLEARED \<Rightarrow> CLEARANCE_CLEARED
                             | EV_BOUNCED \<Rightarrow> CLEARANCE_BOUNCED)"

definition recordChequeEvent ::
  "id \<Rightarrow> id \<Rightarrow> cheque_event_dto \<Rightarrow> id option \<Rightarrow> db \<Rightarrow> ((id \<times> cheque_event_status) \<times> db) result" where
  "recordChequeEvent companyId receiptId dto actorId d =
     bindE (orFail (NotFound ''Receipt not found'') (find_receipt companyId receiptId d)) (\<lambda>r.
     bindE (ensure (rc_mode r \<in> set CHEQUE_LIKE)
              (BadRequest ''Cheque events only apply to cheque/DD receipts'')) (\<lambda>_.
     bindE (ensure (rc_clearanceStatus r \<noteq> CLEARANCE_CLEARED \<and> rc_clearanceStatus r \<noteq> CLEARANCE_BOUNCED)
              (Conflict ''Cheque is already settled'')) (\<lambda>_.
     let d1 = add_cheque_event
                \<lparr>ce_id = next_id d, ce_companyId = companyId, ce_receiptId = receiptId,
                 ce_status = clearance_of (ced_status dto), ce_eventDate = date_column (ced_eventDate dto),
                 ce_reason = ced_reason dto, ce_createdById = actorId\<rparr> d;
         bounced = ''Cheque bounced ('' @ rc_receiptNumber r @ '')'';
         d2 = upd_receipt companyId receiptId
                (\<lambda>r. let r1 = r\<lparr>rc_clearanceStatus := clearance_of (ced_status dto)\<rparr>
                     in if ced_status dto = EV_BOUNCED
                        then r1\<lparr>rc_isReversed := True,
                                rc_reversalReason := Some (case ced_reason dto of Some s \<Rightarrow> s | None \<Rightarrow> bounced)\<rparr>
                        else r1) d1;
         d3 = (if ced_status dto = EV_BOUNCED
               then reverseReceiptLedger companyId r BOUNCE_REVERSAL bounced actorId (ced_eventDate dto)
                      (bounce_charge companyId d2) d2
               else d2)
     in Inr ((receiptId, ced_status dto), d3))))"

definition reverseReceipt ::
  "id \<Rightarrow> id \<Rightarrow> string \<Rightarrow> id option \<Rightarrow> db \<Rightarrow> (id \<times> db) result" where
  "reverseReceipt companyId receiptId reason actorId d =
     bindE (orFail (NotFound ''Receipt not found'') (find_receipt companyId receiptId d)) (\<lambda>r.
     bindE (ensure (\<not> rc_isReversed r) (Conflict ''Receipt already reversed'')) (\<lambda>_.
     bindE (ensure (rc_clearanceStatus r \<noteq> CLEARANCE_BOUNCED)
              (Conflict ''A bounced cheque receipt is already reversed'')) (\<lambda>_.
     let d1 = reverseReceiptLedger companyId r ADJUSTMENT reason actorId (rc_receiptDate r) 0 d;
         d2 = upd_receipt companyId receiptId
                (\<lambda>r. r\<lparr>rc_isReversed := True, rc_reversalReason := Some reason\<rparr>) d1
     in Inr (receiptId, d2))))"

section \<open>Tax certificates and reprints\<close>

definition find_tds_deduction :: "id \<Rightarrow> id \<Rightarrow> db \<Rightarrow> tds_deduction option" where
  "find_tds_deduction companyId i d =
     List.find (\<lambda>r. td_id r = i \<and> td_companyId r = companyId) (tdsDeductions d)"

definition certificate_entry :: "tds_deduction \<Rightarrow> tds_certificate_dto \<Rightarrow> id option \<Rightarrow> ledger_input" where
  "certificate_entry ded dto actorId =
     (entry_in (td_bookingId ded) TDS_CERT_ADJUSTMENT (- td_deductedPaise ded) (tcd_certificateDate dto))
       \<lparr>li_reason := Some (''TDS certificate '' @ tcd_certificateNumber dto), li_createdById := actorId\<rparr>"

definition recordTdsCertificate ::
  "id \<Rightarrow> id \<Rightarrow> tds_certificate_dto \<Rightarrow> id option \<Rightarrow> db \<Rightarrow> (tds_certificate \<times> db) result" where
  "recordTdsCertificate companyId tdsDeductionId dto actorId d =
     bindE (orFail (NotFound ''TDS deduction not found'') (find_tds_deduction companyId tdsDeductionId d))
       (\<lambda>ded.
     bindE (ensure (\<not> list_ex (\<lambda>r. tc_tdsDeductionId r = tdsDeductionId \<and> tc_companyId r = companyId)
                       (tdsCertificates d))
              (Conflict ''Certificate already recorded for this deduction'')) (\<lambda>_.
     let (adj, d1) = post companyId [certificate_entry ded dto actorId] d;
         cert = \<lparr>tc_id = next_id d1, tc_companyId = companyId, tc_tdsDeductionId = tdsDeductionId,
                 tc_certificateNumber = tcd_certificateNumber dto,
                 tc_certificateDate = date_column (tcd_certificateDate dto),
                 tc_adjustmentLedgerEntryId = (case adj of [] \<Rightarrow> None | e # _ \<Rightarrow> Some (le_id e)),
                 tc_createdById = actorId\<rparr>
     in Inr (cert, add_tds_certificate cert d1)))"

definition markReprint :: "id \<Rightarrow> id \<Rightarrow> db \<Rightarrow> (unit \<times> db) result" where
  "markReprint companyId receiptId d =
     bindE (orFail (NotFound ''Receipt not found'') (find_receipt companyId receiptId d)) (\<lambda>_.
       Inr ((), upd_receipt companyId receiptId (\<lambda>r. r\<lparr>rc_reprintCount := rc_reprintCount r + 1\<rparr>) d))"

section \<open>The allocation cache\<close>

definition alloc_delta :: "id \<Rightarrow> (id \<times> int) list \<Rightarrow> int" where
  "alloc_delta i adds = sum_list (map snd (filter (\<lambda>p. fst p = i) adds))"

lemma alloc_delta_Nil [simp]: "alloc_delta i [] = 0"
  by (simp add: alloc_delta_def)

lemma alloc_delta_Cons [simp]: "alloc_delta i (p # ps) = (if fst p = i then snd p else 0) + alloc_delta i ps"
  by (simp add: alloc_delta_def)

lemma alloc_delta_map_of:
  "distinct (map fst m) \<Longrightarrow> alloc_delta i m = (case map_of m i of None \<Rightarrow> 0 | Some s \<Rightarrow> s)"
proof (induction m)
  case (Cons p m)
  have "alloc_delta i m = 0" if "i \<notin> fst ` set m"
    using that by (induction m) auto
  with Cons show ?case by (cases p) auto
qed simp

definition requested :: "id \<Rightarrow> receipt_allocation_input list \<Rightarrow> int" where
  "requested i allocs = sum_list (map rai_amountPaise (filter (\<lambda>a. rai_installmentId a = i) allocs))"

lemma add_by_inst_distinct: "distinct (map fst (add_by_inst allocs))"
proof -
  have "distinct (map fst (foldl (\<lambda>m a. AList.update (rai_installmentId a)
      ((case map_of m (rai_installmentId a) of None \<Rightarrow> 0 | Some s \<Rightarrow> s) + rai_amountPaise a) m) m allocs))"
    if "distinct (map fst m)" for m
    using that by (induction allocs arbitrary: m) (simp_all add: distinct_update)
  then show ?thesis by (simp add: add_by_inst_def)
qed

text \<open>The grouped amounts are the sums of the requested ones, installment by installment.\<close>

lemma add_by_inst_delta: "alloc_delta i (add_by_inst allocs) = requested i allocs"
proof -
  let ?step = "\<lambda>m a. AList.update (rai_installmentId a)
      ((case map_of m (rai_installmentId a) of None \<Rightarrow> 0 | Some s \<Rightarrow> s) + rai_amountPaise a) m"
  have "alloc_delta i (foldl ?step m allocs) = alloc_delta i m + requested i allocs"
    if "distinct (map fst m)" for m
    using that
  proof (induction allocs arbitrary: m)
    case (Cons a allocs)
    have "distinct (map fst (?step m a))" using Cons.prems by (simp add: distinct_update)
    with Cons show ?case
      by (simp add: alloc_delta_map_of update_conv' requested_def split: option.split)
  qed (simp add: requested_def)
  then show ?thesis by (simp add: add_by_inst_def)
qed

lemma add_by_inst_keys: "fst ` set (add_by_inst allocs) = rai_installmentId ` set allocs"
proof -
  let ?step = "\<lambda>m a. AList.update (rai_installmentId a)
      ((case map_of m (rai_installmentId a) of None \<Rightarrow> 0 | Some s \<Rightarrow> s) + rai_amountPaise a) m"
  have "fst ` set (foldl ?step m allocs) = fst ` set m \<union> rai_installmentId ` set allocs" for m
    by (induction allocs arbitrary: m) (auto simp: dom_update)
  then show ?thesis by (simp add: add_by_inst_def)
qed

lemma add_by_inst_value:
  assumes "(i, s) \<in> set (add_by_inst allocs)"
  shows "s = requested i allocs"
proof -
  have "map_of (add_by_inst allocs) i = Some s"
    using assms add_by_inst_distinct by (simp add: map_of_is_SomeI)
  then show ?thesis
    using add_by_inst_delta [of i allocs] by (simp add: alloc_delta_map_of add_by_inst_distinct)
qed

lemma find_installment_upd:
  assumes "\<And>r. in_id (f r) = in_id r" and "\<And>r. in_companyId (f r) = in_companyId r"
  shows "find_installment c k (upd_installment c i f d) =
    map_option (\<lambda>r. if k = i then f r else r) (find_installment c k d)"
proof -
  have "find_installment c k (upd_installment c i f d) =
      map_option (\<lambda>r. if in_companyId r = c \<and> in_id r = i then f r else r) (find_installment c k d)"
    unfolding find_installment_def upd_installment_def using assms by (simp add: find_update_rows)
  then show ?thesis
    by (cases "find_installment c k d") (auto simp: find_installment_def dest!: find_SomeD)
qed

definition bumped :: "int \<Rightarrow> installment \<Rightarrow> installment" where
  "bumped delta r = r\<lparr>in_allocatedPaise := in_allocatedPaise r + delta,
     in_status := installment_status_for (in_allocatedPaise r + delta) (in_amountPaise r)\<rparr>"

lemma bumped_simps [simp]:
  "in_id (bumped x r) = in_id r" "in_companyId (bumped x r) = in_companyId r"
  "in_bookingId (bumped x r) = in_bookingId r" "in_planId (bumped x r) = in_planId r"
  "in_amountPaise (bumped x r) = in_amountPaise r" "in_isActive (bumped x r) = in_isActive r"
  "in_allocatedPaise (bumped x r) = in_allocatedPaise r + x"
  by (simp_all add: bumped_def)

text \<open>With unique ids a bump rewrites exactly one row, in terms of that row.\<close>

lemma bumpInstallment_eq:
  assumes "distinct (map in_id (installments d))"
  shows "bumpInstallment c i x d = upd_installment c i (bumped x) d"
proof (cases "find_installment c i d")
  case None
  then have "\<not> (in_companyId r = c \<and> in_id r = i)" if "r \<in> set (installments d)" for r
    using that by (auto simp: find_installment_def find_eq_None_iff)
  then show ?thesis
    using None by (simp add: bumpInstallment_def upd_installment_def update_rows_none)
next
  case (Some inst)
  then have inst: "inst \<in> set (installments d)" "in_id inst = i" "in_companyId inst = c"
    by (auto simp: find_installment_def dest: find_SomeD)
  have "r = inst" if "r \<in> set (installments d)" "in_id r = i" for r
    using that inst assms by (auto simp: distinct_map inj_on_def)
  then show ?thesis
    using Some by (auto simp: bumpInstallment_def upd_installment_def update_rows_def bumped_def Let_def)
qed

lemma bumpInstallment_frame: "\<exists>xs. bumpInstallment c i x d = d\<lparr>installments := xs\<rparr> \<and>
    map in_id xs = map in_id (installments d)"
proof (cases "find_installment c i d")
  case None
  then show ?thesis by (intro exI [of _ "installments d"]) (simp add: bumpInstallment_def)
next
  case (Some inst)
  then show ?thesis
    by (simp add: bumpInstallment_def upd_installment_def Let_def) (auto simp: map_update_rows)
qed

lemma bump_all_Nil [simp]: "bump_all c [] d = d"
  by (simp add: bump_all_def)

lemma bump_all_Cons [simp]: "bump_all c (p # ps) d = bump_all c ps (bumpInstallment c (fst p) (snd p) d)"
  by (simp add: bump_all_def)

lemma bump_all_frame: "\<exists>xs. bump_all c ps d = d\<lparr>installments := xs\<rparr> \<and>
    map in_id xs = map in_id (installments d)"
proof (induction ps arbitrary: d)
  case Nil
  then show ?case by (intro exI [of _ "installments d"]) simp
next
  case (Cons p ps)
  obtain xs where 1: "bumpInstallment c (fst p) (snd p) d = d\<lparr>installments := xs\<rparr>"
    "map in_id xs = map in_id (installments d)"
    using bumpInstallment_frame by blast
  obtain ys where 2: "bump_all c ps (d\<lparr>installments := xs\<rparr>) = d\<lparr>installments := xs\<rparr>\<lparr>installments := ys\<rparr>"
    "map in_id ys = map in_id xs"
    using Cons.IH [of "d\<lparr>installments := xs\<rparr>"] by auto
  show ?case using 1 2 by (intro exI [of _ ys]) simp
qed

lemma bump_simps [simp]:
  "ledger (bumpInstallment c i x d) = ledger d" "next_id (bumpInstallment c i x d) = next_id d"
  "ledger (bump_all c ps d) = ledger d" "next_id (bump_all c ps d) = next_id d"
  using bumpInstallment_frame [of c i x d] bump_all_frame [of c ps d] by auto

lemma distinct_ids_bump [simp]:
  "distinct (map in_id (installments (bumpInstallment c i x d))) = distinct (map in_id (installments d))"
  using bumpInstallment_frame [of c i x d] by auto

lemma find_installment_bump:
  assumes "distinct (map in_id (installments d))"
  shows "find_installment c k (bumpInstallment c i x d) =
    map_option (\<lambda>r. if k = i then bumped x r else r) (find_installment c k d)"
  by (simp add: bumpInstallment_eq [OF assms] find_installment_upd)

definition allocated_of :: "id \<Rightarrow> id \<Rightarrow> db \<Rightarrow> int option" where
  "allocated_of c i d = map_option in_allocatedPaise (find_installment c i d)"

lemma allocated_of_cong:
  "installments d' = installments d \<Longrightarrow> allocated_of c i d' = allocated_of c i d"
  by (simp add: allocated_of_def find_installment_def)

lemma allocated_of_bump:
  assumes "distinct (map in_id (installments d))"
  shows "allocated_of c k (bumpInstallment c i x d) =
    map_option (\<lambda>a. a + (if i = k then x else 0)) (allocated_of c k d)"
  by (simp add: allocated_of_def find_installment_bump [OF assms] option.map_comp o_def)

lemma allocated_of_bump_all:
  assumes "distinct (map in_id (installments d))"
  shows "allocated_of c k (bump_all c ps d) = map_option (\<lambda>a. a + alloc_delta k ps) (allocated_of c k d)"
  using assms
proof (induction ps arbitrary: d)
  case (Cons p ps)
  then have "distinct (map in_id (installments (bumpInstallment c (fst p) (snd p) d)))" by simp
  from Cons.IH [OF this] show ?case
    by (simp add: allocated_of_bump [OF Cons.prems] option.map_comp o_def add.assoc)
qed (simp add: option.map_ident)

section \<open>What an operation posts\<close>

declare post.simps [simp del]

lemma posted_post_allocation: "posted c [alloc_entry b r dt actor a] d (post_allocation c b r dt actor a d)"
  unfolding post_allocation_def by (rule posted_single) (simp_all add: add_allocation_def)

lemma posted_post_allocations:
  "posted c (map (alloc_entry b r dt actor) as) d (post_allocations c b r dt actor as d)"
  using posted_foldl [where g = "\<lambda>a. [alloc_entry b r dt actor a]" and f = "\<lambda>d a. post_allocation c b r dt actor a d",
      OF posted_post_allocation, of as d]
  by (simp add: post_allocations_def)

lemma installments_post [simp]: "installments (snd (post c es d)) = installments d"
  by (simp add: post_eq)

lemma installments_post_allocations [simp]:
  "installments (post_allocations c b r dt actor as d) = installments d"
proof -
  have "installments (post_allocation c b r dt actor a d) = installments d" for a d
    by (simp add: post_allocation_def add_allocation_def)
  then show ?thesis
    unfolding post_allocations_def by (induction as arbitrary: d) simp_all
qed

definition tds_postings :: "create_receipt_dto \<Rightarrow> id \<Rightarrow> id option \<Rightarrow> ledger_input list" where
  "tds_postings dto rid actor = (if crd_tdsDeductedPaise dto > 0 then [tds_entry dto rid actor] else [])"

lemma posted_post_tds: "posted c (tds_postings dto rid actor) d (post_tds c dto rid actor d)"
proof (cases "crd_tdsDeductedPaise dto > 0")
  case True
  have "posted c [tds_entry dto rid actor] d (snd (post c [tds_entry dto rid actor] d))"
    by (rule posted_post)
  then show ?thesis
    using True
    by (simp add: post_tds_def tds_postings_def Let_def case_prod_beta add_tds_deduction_def)
       (erule posted_cong; simp)
qed (simp add: post_tds_def tds_postings_def)

lemma installments_post_tds [simp]: "installments (post_tds c dto rid actor d) = installments d"
  by (simp add: post_tds_def Let_def case_prod_beta add_tds_deduction_def)

lemma allocate_number_simps [simp]:
  "ledger (snd (allocate_number c k s d)) = ledger d"
  "installments (snd (allocate_number c k s d)) = installments d"
  "receipts (snd (allocate_number c k s d)) = receipts d"
  "next_id d \<le> next_id (snd (allocate_number c k s d))"
  using allocate_number_frame [of c k s d] by auto

definition receipt_postings :: "create_receipt_dto \<Rightarrow> id \<Rightarrow> id option \<Rightarrow> ledger_input list" where
  "receipt_postings dto rid actor =
     map (alloc_entry (crd_bookingId dto) rid (crd_receiptDate dto) actor) (crd_allocations dto) @
     tds_postings dto rid actor"

text \<open>The state before the postings, and the writes that follow.\<close>

lemma write_receipt_steps:
  assumes "write_receipt c dto actor d = (r, d')"
  defines "fy \<equiv> financialYearLabel (crd_receiptDate dto) (fy_start_month c d)"
  shows "\<exists>evs n. next_id d \<le> rc_id r \<and> rc_id r < n \<and>
    r = new_receipt (rc_id r) c dto actor (upcoming_number c (''RECEIPT'', fy) d) fy \<and>
    d' = post_tds c dto (rc_id r) actor
      (bump_all c (add_by_inst (crd_allocations dto))
        (post_allocations c (crd_bookingId dto) (rc_id r) (crd_receiptDate dto) actor (crd_allocations dto)
          (d\<lparr>sequences := sequences (snd (allocate_number c ''RECEIPT'' fy d)), receipts := receipts d @ [r],
             chequeEvents := evs, next_id := n\<rparr>)))"
proof -
  obtain qs k where al: "snd (allocate_number c ''RECEIPT'' fy d) = d\<lparr>sequences := qs, next_id := k\<rparr>"
    and k: "next_id d \<le> k"
    using allocate_number_frame [of c "''RECEIPT''" fy d] by blast
  have r: "r = new_receipt k c dto actor (upcoming_number c (''RECEIPT'', fy) d) fy"
    using assms(1) by (auto simp: write_receipt_def allocateForFy_eq Let_def fy_def [symmetric] al)
  then have id: "rc_id r = k" by (simp add: new_receipt_def)
  show ?thesis
  proof (cases "crd_mode dto \<in> set CHEQUE_LIKE")
    case True
    then show ?thesis
      using assms(1) k id r [symmetric]
      by (intro exI [of _ "chequeEvents d @ [\<lparr>ce_id = k + 1, ce_companyId = c, ce_receiptId = k,
            ce_status = CLEARANCE_RECEIVED, ce_eventDate = date_column (crd_receiptDate dto),
            ce_reason = None, ce_createdById = actor\<rparr>]"] exI [of _ "k + 2"])
         (auto simp: write_receipt_def allocateForFy_eq Let_def fy_def [symmetric] al add_receipt_def
            add_cheque_event_def)
  next
    case False
    then show ?thesis
      using assms(1) k id r [symmetric]
      by (intro exI [of _ "chequeEvents d"] exI [of _ "k + 1"])
         (auto simp: write_receipt_def allocateForFy_eq Let_def fy_def [symmetric] al add_receipt_def)
  qed
qed

lemma write_receipt_posted:
  assumes "write_receipt c dto actor d = (r, d')"
  shows "posted c (receipt_postings dto (rc_id r) actor) d d'" and "next_id d \<le> rc_id r"
    and "rc_id r < next_id d'"
proof -
  let ?fy = "financialYearLabel (crd_receiptDate dto) (fy_start_month c d)"
  let ?d3 = "\<lambda>evs n. d\<lparr>sequences := sequences (snd (allocate_number c ''RECEIPT'' ?fy d)),
      receipts := receipts d @ [r], chequeEvents := evs, next_id := n\<rparr>"
  obtain evs n d3 where d3_def: "d3 = ?d3 evs n" and n: "next_id d \<le> rc_id r" "rc_id r < n"
    and d': "d' = post_tds c dto (rc_id r) actor (bump_all c (add_by_inst (crd_allocations dto))
        (post_allocations c (crd_bookingId dto) (rc_id r) (crd_receiptDate dto) actor (crd_allocations dto) d3))"
    using write_receipt_steps [OF assms] by blast
  have d3: "ledger d3 = ledger d" "next_id d \<le> rc_id r" "rc_id r < next_id d3"
    using n by (simp_all add: d3_def)
  have p: "posted c [] d d3" using d3 by (intro posted_Nil) simp_all
  have q: "posted c (receipt_postings dto (rc_id r) actor) d3 d'"
    unfolding d' receipt_postings_def
    by (rule posted_trans [OF posted_cong [OF posted_post_allocations [where d = d3]] posted_post_tds]) simp_all
  from posted_trans [OF p q] show "posted c (receipt_postings dto (rc_id r) actor) d d'" by simp
  show "next_id d \<le> rc_id r" by (rule d3(2))
  show "rc_id r < next_id d'" using d3(3) posted_next_id [OF q] by simp
qed

lemma write_receipt_allocated:
  assumes "write_receipt c dto actor d = (r, d')" and "distinct (map in_id (installments d))"
  shows "allocated_of c i d' = map_option (\<lambda>a. a + requested i (crd_allocations dto)) (allocated_of c i d)"
proof -
  let ?fy = "financialYearLabel (crd_receiptDate dto) (fy_start_month c d)"
  let ?d3 = "\<lambda>evs n. d\<lparr>sequences := sequences (snd (allocate_number c ''RECEIPT'' ?fy d)),
      receipts := receipts d @ [r], chequeEvents := evs, next_id := n\<rparr>"
  obtain evs n d4 where
    d4_def: "d4 = post_allocations c (crd_bookingId dto) (rc_id r) (crd_receiptDate dto) actor (crd_allocations dto) (?d3 evs n)"
    and d'_def: "d' = post_tds c dto (rc_id r) actor (bump_all c (add_by_inst (crd_allocations dto)) d4)"
    using write_receipt_steps [OF assms(1)] by blast
  have d4: "installments d4 = installments d"
    and d': "installments d' = installments (bump_all c (add_by_inst (crd_allocations dto)) d4)"
    by (simp_all add: d4_def d'_def)
  have dist: "distinct (map in_id (installments d4))" using assms(2) d4 by simp
  have "allocated_of c i d' = allocated_of c i (bump_all c (add_by_inst (crd_allocations dto)) d4)"
    by (rule allocated_of_cong) (rule d')
  then show ?thesis
    using allocated_of_bump_all [OF dist, of c i] allocated_of_cong [OF d4]
    by (simp add: add_by_inst_delta)
qed

text \<open>The amounts the postings move on the receipt's booking.\<close>

lemma receipt_postings_sum:
  "sum_list (map li_signedAmountPaise (filter (\<lambda>e. li_bookingId e = b) (receipt_postings dto rid actor))) =
     (if b = crd_bookingId dto
      then - sum_list (map rai_amountPaise (crd_allocations dto)) +
             (if crd_tdsDeductedPaise dto > 0 then crd_tdsDeductedPaise dto else 0)
      else 0)"
proof -
  have "sum_list (map li_signedAmountPaise (filter (\<lambda>e. li_bookingId e = b)
      (map (alloc_entry bk rid dt actor) as))) = (if b = bk then - sum_list (map rai_amountPaise as) else 0)"
    for bk dt as
    by (induction as) (simp_all add: alloc_entry_def split: if_splits)
  then show ?thesis by (simp add: receipt_postings_def tds_postings_def tds_entry_def)
qed

section \<open>What validation guarantees\<close>

definition locked :: "id \<Rightarrow> id \<Rightarrow> db \<Rightarrow> (id \<times> installment) list \<Rightarrow> bool" where
  "locked c b d insts \<longleftrightarrow>
     (\<forall>k i. map_of insts k = Some i \<longrightarrow>
        i \<in> set (installments d) \<and> in_id i = k \<and> in_companyId i = c \<and> in_bookingId i = b \<and> in_dueDate i \<noteq> None)"

lemma lock_installment_locked:
  assumes "lock_installment c b d a m = Inr m'" and "locked c b d m"
  shows "locked c b d m' \<and> map_of m' (rai_installmentId a) \<noteq> None \<and>
    (\<forall>k. map_of m k \<noteq> None \<longrightarrow> map_of m' k \<noteq> None)"
proof (cases "map_of m (rai_installmentId a) = None")
  case True
  then obtain i where i: "List.find (\<lambda>r. in_id r = rai_installmentId a \<and> in_companyId r = c \<and> in_bookingId r = b)
      (installments d) = Some i" "in_dueDate i \<noteq> None" "m' = AList.update (rai_installmentId a) i m"
    using assms(1) by (auto simp: lock_installment_def)
  then show ?thesis
    using find_SomeD [OF i(1)] assms(2) by (auto simp: locked_def update_conv')
next
  case False
  then show ?thesis using assms by (simp add: lock_installment_def)
qed

lemma lock_all_locked:
  assumes "foldE (lock_installment c b d) as m = Inr m'" and "locked c b d m"
  shows "locked c b d m' \<and> (\<forall>a\<in>set as. map_of m' (rai_installmentId a) \<noteq> None) \<and>
    (\<forall>k. map_of m k \<noteq> None \<longrightarrow> map_of m' k \<noteq> None)"
  using assms
proof (induction as arbitrary: m)
  case (Cons a as)
  then obtain m1 where 1: "lock_installment c b d a m = Inr m1" and 2: "foldE (lock_installment c b d) as m1 = Inr m'"
    by auto
  from lock_installment_locked [OF 1 Cons.prems(2)] Cons.IH [OF 2] show ?case by auto
qed simp

lemma check_receipt_Inr:
  assumes "check_receipt c dto d = Inr b" and "distinct (map in_id (installments d))"
  shows "find_booking c (crd_bookingId dto) d = Some b"
    and "sum_list (map rai_amountPaise (crd_allocations dto)) = crd_grossAmountPaise dto"
    and "crd_tdsDeductedPaise dto \<le> crd_grossAmountPaise dto"
    and "a \<in> set (crd_allocations dto) \<Longrightarrow>
      \<exists>i. find_installment c (rai_installmentId a) d = Some i \<and> in_bookingId i = crd_bookingId dto \<and>
          in_dueDate i \<noteq> None \<and>
          in_allocatedPaise i + requested (rai_installmentId a) (crd_allocations dto) \<le> in_amountPaise i"
proof -
  obtain insts oks where
    lock: "foldE (lock_installment c (crd_bookingId dto) d) (crd_allocations dto) [] = Inr insts"
    and room: "traverse (check_room insts) (add_by_inst (crd_allocations dto)) = Inr oks"
    using assms(1) by (auto simp: check_receipt_def)
  show "find_booking c (crd_bookingId dto) d = Some b"
    "sum_list (map rai_amountPaise (crd_allocations dto)) = crd_grossAmountPaise dto"
    "crd_tdsDeductedPaise dto \<le> crd_grossAmountPaise dto"
    using assms(1) by (auto simp: check_receipt_def)
  have locked: "locked c (crd_bookingId dto) d insts"
    and all: "\<forall>a\<in>set (crd_allocations dto). map_of insts (rai_installmentId a) \<noteq> None"
    using lock_all_locked [OF lock] by (simp_all add: locked_def)
  assume a: "a \<in> set (crd_allocations dto)"
  let ?k = "rai_installmentId a"
  obtain i where i: "map_of insts ?k = Some i" using all a by auto
  then have row: "i \<in> set (installments d)" "in_id i = ?k" "in_companyId i = c"
      "in_bookingId i = crd_bookingId dto" "in_dueDate i \<noteq> None"
    using locked by (auto simp: locked_def)
  have "find_installment c ?k d = Some i"
  proof (cases "find_installment c ?k d")
    case None
    then show ?thesis using row by (auto simp: find_installment_def find_eq_None_iff)
  next
    case (Some j)
    then have "j \<in> set (installments d)" "in_id j = ?k" by (auto simp: find_installment_def dest: find_SomeD)
    then have "j = i" using row assms(2) by (auto simp: distinct_map inj_on_def)
    then show ?thesis using Some by simp
  qed
  moreover have "in_allocatedPaise i + requested ?k (crd_allocations dto) \<le> in_amountPaise i"
  proof -
    obtain s where s: "(?k, s) \<in> set (add_by_inst (crd_allocations dto))"
      using add_by_inst_keys [of "crd_allocations dto"] a by (metis imageE imageI prod.collapse)
    then obtain n where "n < length (add_by_inst (crd_allocations dto))"
        "add_by_inst (crd_allocations dto) ! n = (?k, s)"
      by (auto simp: in_set_conv_nth)
    then have "check_room insts (?k, s) = Inr (oks ! n)" using traverse_nth [OF room] by metis
    then show ?thesis using i add_by_inst_value [OF s] by (auto simp: check_room_def)
  qed
  ultimately show "\<exists>i. find_installment c ?k d = Some i \<and> in_bookingId i = crd_bookingId dto \<and>
      in_dueDate i \<noteq> None \<and> in_allocatedPaise i + requested ?k (crd_allocations dto) \<le> in_amountPaise i"
    using row by blast
qed

lemma requested_pos:
  assumes "list_all receiptAllocationInputSchema as"
  shows "0 \<le> requested i as" and "a \<in> set as \<Longrightarrow> 0 < requested (rai_installmentId a) as"
proof -
  show "0 \<le> requested i as"
    using assms by (induction as) (auto simp: requested_def receiptAllocationInputSchema_def)
  show "0 < requested (rai_installmentId a) as" if "a \<in> set as"
    using assms that
  proof (induction as)
    case (Cons b as)
    have "0 \<le> requested (rai_installmentId a) as"
      using Cons.prems(1) by (induction as) (auto simp: requested_def receiptAllocationInputSchema_def)
    then show ?case using Cons by (auto simp: requested_def receiptAllocationInputSchema_def)
  qed simp
qed

lemma requested_none: "i \<notin> rai_installmentId ` set as \<Longrightarrow> requested i as = 0"
  by (induction as) (auto simp: requested_def)

section \<open>Properties of a receipt\<close>

lemma createReceipt_Inr:
  "createReceipt c dto actor d = Inr (r, d') \<longleftrightarrow>
   (\<exists>b. check_receipt c dto d = Inr b) \<and> write_receipt c dto actor d = (r, d')"
  by (auto simp: createReceipt_def)

lemma write_receipt_row:
  assumes "write_receipt c dto actor d = (r, d')"
  defines "fy \<equiv> financialYearLabel (crd_receiptDate dto) (fy_start_month c d)"
  shows "receipts d' = receipts d @ [r]"
    and "rc_receiptNumber r = formatReceiptNumber fy (upcoming_number c (''RECEIPT'', fy) d)"
    and "rc_bookingId r = crd_bookingId dto" and "rc_companyId r = c" and "\<not> rc_isReversed r"
    and "rc_clearanceStatus r \<noteq> CLEARANCE_BOUNCED"
proof -
  obtain evs n where r: "r = new_receipt (rc_id r) c dto actor (upcoming_number c (''RECEIPT'', fy) d) fy"
    and d': "d' = post_tds c dto (rc_id r) actor
      (bump_all c (add_by_inst (crd_allocations dto))
        (post_allocations c (crd_bookingId dto) (rc_id r) (crd_receiptDate dto) actor (crd_allocations dto)
          (d\<lparr>sequences := sequences (snd (allocate_number c ''RECEIPT'' fy d)), receipts := receipts d @ [r],
             chequeEvents := evs, next_id := n\<rparr>)))"
    using write_receipt_steps [OF assms(1)] unfolding fy_def by blast
  have rc1: "receipts (post_allocations c bk rid dt ac as s) = receipts s" for bk rid dt ac as s
    unfolding post_allocations_def
    by (induction as arbitrary: s) (simp_all add: post_allocation_def post_eq add_allocation_def)
  have rc2: "receipts (post_tds c dto rid ac s) = receipts s" for rid ac s
    by (simp add: post_tds_def Let_def post_eq add_tds_deduction_def)
  have rc3: "receipts (bump_all c ps s) = receipts s" for ps s
    using bump_all_frame [of c ps s] by auto
  show "receipts d' = receipts d @ [r]" unfolding d' by (simp only: rc1 rc2 rc3) simp
  show "rc_receiptNumber r = formatReceiptNumber fy (upcoming_number c (''RECEIPT'', fy) d)"
    by (subst r) (simp add: new_receipt_def)
  show "rc_bookingId r = crd_bookingId dto" "rc_companyId r = c" "\<not> rc_isReversed r"
    "rc_clearanceStatus r \<noteq> CLEARANCE_BOUNCED"
    by (subst r; simp add: new_receipt_def)+
qed

text \<open>
  C27: a receipt reduces the balance of its booking by the cash received: by the gross
  amount, less the tax the buyer withheld, which stays receivable. No other booking's
  balance moves. Each installment's cached allocation grows by what the request allocates
  to it, and the receipt bears the next number of its financial year.
\<close>

theorem createReceipt_effect:
  assumes "createReceipt c dto actor d = Inr (r, d')" and "createReceiptSchema dto"
    and "installments_ok d"
  shows "balanceInTx c b d' = balanceInTx c b d -
      (if b = crd_bookingId dto then crd_grossAmountPaise dto - crd_tdsDeductedPaise dto else 0) \<and>
    allocated_of c i d' = map_option (\<lambda>a. a + requested i (crd_allocations dto)) (allocated_of c i d) \<and>
    (let fy = financialYearLabel (crd_receiptDate dto) (fy_start_month c d) in
       rc_receiptNumber r = formatReceiptNumber fy (upcoming_number c (''RECEIPT'', fy) d) \<and>
       receipts d' = receipts d @ [r])"
proof -
  have dist: "distinct (map in_id (installments d))" using assms(3) by (simp add: installments_ok_def)
  from assms(1) obtain bk where ck: "check_receipt c dto d = Inr bk"
    and wr: "write_receipt c dto actor d = (r, d')" by (auto simp: createReceipt_Inr)
  have tds: "(if crd_tdsDeductedPaise dto > 0 then crd_tdsDeductedPaise dto else 0) = crd_tdsDeductedPaise dto"
    using assms(2) by (simp add: createReceiptSchema_def)
  note row = write_receipt_row [OF wr]
  have "balanceInTx c b d' = balanceInTx c b d -
      (if b = crd_bookingId dto then crd_grossAmountPaise dto - crd_tdsDeductedPaise dto else 0)"
    using posted_balance [OF write_receipt_posted(1) [OF wr], of b] check_receipt_Inr(2) [OF ck dist]
    by (simp add: receipt_postings_sum tds)
  then show ?thesis using write_receipt_allocated [OF wr dist, of i] row by (simp add: Let_def)
qed

text \<open>An installment never carries more than its amount, nor less than nothing.\<close>

definition allocation_ok :: "installment \<Rightarrow> bool" where
  "allocation_ok i \<longleftrightarrow> 0 \<le> in_allocatedPaise i \<and> in_allocatedPaise i \<le> in_amountPaise i"

lemma bump_all_row:
  assumes "distinct (map in_id (installments d))" and "i' \<in> set (installments (bump_all c ps d))"
  shows "\<exists>i\<in>set (installments d). in_id i' = in_id i \<and> in_amountPaise i' = in_amountPaise i \<and>
    in_companyId i' = in_companyId i \<and>
    in_allocatedPaise i' = in_allocatedPaise i + (if in_companyId i = c then alloc_delta (in_id i) ps else 0)"
  using assms
proof (induction ps arbitrary: d)
  case (Cons p ps)
  let ?d1 = "bumpInstallment c (fst p) (snd p) d"
  have "distinct (map in_id (installments ?d1))" using Cons.prems(1) by simp
  from Cons.IH [OF this] Cons.prems(2) obtain j where j: "j \<in> set (installments ?d1)" "in_id i' = in_id j"
      "in_amountPaise i' = in_amountPaise j" "in_companyId i' = in_companyId j"
      "in_allocatedPaise i' = in_allocatedPaise j + (if in_companyId j = c then alloc_delta (in_id j) ps else 0)"
    by auto
  from j(1) obtain i where "i \<in> set (installments d)"
      "j = (if in_companyId i = c \<and> in_id i = fst p then bumped (snd p) i else i)"
    by (auto simp: bumpInstallment_eq [OF Cons.prems(1)] upd_installment_def set_update_rows)
  then show ?case using j by (intro bexI [of _ i]) auto
qed auto

lemma installments_write_receipt:
  assumes "write_receipt c dto actor d = (r, d')"
  shows "\<exists>d4. installments d4 = installments d \<and>
    installments d' = installments (bump_all c (add_by_inst (crd_allocations dto)) d4)"
proof -
  let ?fy = "financialYearLabel (crd_receiptDate dto) (fy_start_month c d)"
  let ?d3 = "\<lambda>evs n. d\<lparr>sequences := sequences (snd (allocate_number c ''RECEIPT'' ?fy d)),
      receipts := receipts d @ [r], chequeEvents := evs, next_id := n\<rparr>"
  obtain evs n where
    "d' = post_tds c dto (rc_id r) actor (bump_all c (add_by_inst (crd_allocations dto))
      (post_allocations c (crd_bookingId dto) (rc_id r) (crd_receiptDate dto) actor (crd_allocations dto) (?d3 evs n)))"
    using write_receipt_steps [OF assms] by blast
  then show ?thesis
    by (intro exI [of _ "post_allocations c (crd_bookingId dto) (rc_id r) (crd_receiptDate dto) actor
      (crd_allocations dto) (?d3 evs n)"]) simp
qed

lemma createReceipt_allocation_ok:
  assumes "createReceipt c dto actor d = Inr (r, d')" and "createReceiptSchema dto"
    and "distinct (map in_id (installments d))" and "list_all allocation_ok (installments d)"
  shows "list_all allocation_ok (installments d')"
proof -
  from assms(1) obtain bk where ck: "check_receipt c dto d = Inr bk"
    and wr: "write_receipt c dto actor d = (r, d')" by (auto simp: createReceipt_Inr)
  let ?as = "crd_allocations dto"
  have schema: "list_all receiptAllocationInputSchema ?as" using assms(2) by (simp add: createReceiptSchema_def)
  obtain d4 where d4: "installments d4 = installments d"
    and d': "installments d' = installments (bump_all c (add_by_inst ?as) d4)"
    using installments_write_receipt [OF wr] by blast
  have "allocation_ok i'" if i': "i' \<in> set (installments d')" for i'
  proof -
    have dist: "distinct (map in_id (installments d4))" using assms(3) d4 by simp
    obtain i where i: "i \<in> set (installments d)" and same: "in_amountPaise i' = in_amountPaise i"
      and alloc: "in_allocatedPaise i' = in_allocatedPaise i + (if in_companyId i = c then requested (in_id i) ?as else 0)"
      using bump_all_row [OF dist, of i' c "add_by_inst ?as"] i' by (auto simp: d' d4 add_by_inst_delta)
    have ok: "allocation_ok i" using assms(4) i by (simp add: list_all_iff)
    show ?thesis
    proof (cases "in_companyId i = c \<and> in_id i \<in> rai_installmentId ` set ?as")
      case True
      then obtain a where a: "a \<in> set ?as" "rai_installmentId a = in_id i" by auto
      from check_receipt_Inr(4) [OF ck assms(3) a(1)] obtain j where
        j: "find_installment c (in_id i) d = Some j"
          "in_allocatedPaise j + requested (in_id i) ?as \<le> in_amountPaise j"
        using a(2) by auto
      then have "j = i" using i assms(3)
        by (auto simp: find_installment_def distinct_map inj_on_def dest!: find_SomeD)
      then show ?thesis
        using j ok same alloc requested_pos(1) [OF schema] True by (auto simp: allocation_ok_def)
    next
      case False
      then show ?thesis using ok same alloc requested_none [of "in_id i" ?as] by (auto simp: allocation_ok_def)
    qed
  qed
  then show ?thesis by (simp add: list_all_iff)
qed

section \<open>Reversals\<close>

lemma posted_reverse_entry:
  "posted c [reversal_entry r ty reason actor dt e] d (reverse_entry c r ty reason actor dt e d)"
  unfolding reverse_entry_def Let_def
  by (auto split: option.split bool.split intro: posted_cong [OF posted_post])

definition open_entries :: "id \<Rightarrow> id \<Rightarrow> db \<Rightarrow> ledger_entry list" where
  "open_entries c rid d = filter (\<lambda>e. \<not> already_reversed c d (le_id e)) (receipt_entries c rid d)"

definition bounce_postings :: "receipt \<Rightarrow> string \<Rightarrow> id option \<Rightarrow> date \<Rightarrow> int \<Rightarrow> ledger_input list" where
  "bounce_postings r reason actor dt charge =
     (if charge > 0 then [(entry_in (rc_bookingId r) BOUNCE_CHARGE charge dt)
        \<lparr>li_receiptId := Some (rc_id r), li_reason := Some reason, li_createdById := actor\<rparr>] else [])"

lemma foldl_if_filter: "foldl (\<lambda>s e. if p e then s else f s e) d xs = foldl f d (filter (\<lambda>e. \<not> p e) xs)"
  by (induction xs arbitrary: d) simp_all

lemma reverseReceiptLedger_eq:
  "reverseReceiptLedger c r ty reason actor dt charge d =
     snd (post c (bounce_postings r reason actor dt charge)
       (foldl (\<lambda>s e. reverse_entry c r ty reason actor dt e s) d (open_entries c (rc_id r) d)))"
  by (simp add: reverseReceiptLedger_def Let_def foldl_if_filter open_entries_def bounce_postings_def post_eq)

lemma reverseReceiptLedger_posted:
  "posted c (map (reversal_entry r ty reason actor dt) (open_entries c (rc_id r) d) @
       bounce_postings r reason actor dt charge) d
     (reverseReceiptLedger c r ty reason actor dt charge d)"
proof -
  let ?es = "open_entries c (rc_id r) d"
  have "posted c (concat (map (\<lambda>e. [reversal_entry r ty reason actor dt e]) ?es)) d
      (foldl (\<lambda>s e. reverse_entry c r ty reason actor dt e s) d ?es)"
    by (rule posted_foldl) (rule posted_reverse_entry)
  from posted_trans [OF this posted_post] show ?thesis
    unfolding reverseReceiptLedger_eq by simp
qed

text \<open>What a reversal takes back from an installment.\<close>

definition taken_back :: "id \<Rightarrow> ledger_entry list \<Rightarrow> int" where
  "taken_back i es = sum_list (map le_signedAmountPaise
     (filter (\<lambda>e. le_entryType e = RECEIPT_ALLOC \<and> le_installmentId e = Some i) es))"

lemma reverse_entry_allocated:
  assumes "distinct (map in_id (installments d))"
  shows "allocated_of c i (reverse_entry c r ty reason actor dt e d) =
      map_option (\<lambda>a. a + taken_back i [e]) (allocated_of c i d)"
    and "distinct (map in_id (installments (reverse_entry c r ty reason actor dt e d)))"
proof -
  let ?d1 = "snd (post c [reversal_entry r ty reason actor dt e] d)"
  have same: "allocated_of c i ?d1 = allocated_of c i d" by (rule allocated_of_cong) simp
  have dist: "distinct (map in_id (installments ?d1))" using assms by simp
  show "allocated_of c i (reverse_entry c r ty reason actor dt e d) =
      map_option (\<lambda>a. a + taken_back i [e]) (allocated_of c i d)"
    by (cases "le_installmentId e"; cases "le_entryType e = RECEIPT_ALLOC")
       (auto simp: reverse_entry_def Let_def taken_back_def same allocated_of_bump [OF dist] option.map_ident)
  show "distinct (map in_id (installments (reverse_entry c r ty reason actor dt e d)))"
    using assms by (auto simp: reverse_entry_def Let_def split: option.split bool.split)
qed

lemma reverse_entries_allocated:
  assumes "distinct (map in_id (installments d))"
  shows "allocated_of c i (foldl (\<lambda>s e. reverse_entry c r ty reason actor dt e s) d es) =
    map_option (\<lambda>a. a + taken_back i es) (allocated_of c i d)"
  using assms
proof (induction es arbitrary: d)
  case (Cons e es)
  have "taken_back i (e # es) = taken_back i [e] + taken_back i es" by (simp add: taken_back_def)
  then show ?case
    using Cons.IH [OF reverse_entry_allocated(2) [OF Cons.prems]]
    by (simp add: reverse_entry_allocated(1) [OF Cons.prems] option.map_comp o_def add.assoc)
qed (simp add: taken_back_def option.map_ident)

lemma reverseReceiptLedger_allocated:
  assumes "distinct (map in_id (installments d))"
  shows "allocated_of c i (reverseReceiptLedger c r ty reason actor dt charge d) =
    map_option (\<lambda>a. a + taken_back i (open_entries c (rc_id r) d)) (allocated_of c i d)"
proof -
  have "allocated_of c i (reverseReceiptLedger c r ty reason actor dt charge d) =
      allocated_of c i (foldl (\<lambda>s e. reverse_entry c r ty reason actor dt e s) d (open_entries c (rc_id r) d))"
    unfolding reverseReceiptLedger_eq by (rule allocated_of_cong) simp
  then show ?thesis by (simp add: reverse_entries_allocated [OF assms])
qed

lemma reverseReceiptLedger_balance:
  "balanceInTx c b (reverseReceiptLedger c r ty reason actor dt charge d) = balanceInTx c b d +
     (if b = rc_bookingId r
      then - sum_list (map le_signedAmountPaise (open_entries c (rc_id r) d)) + (if charge > 0 then charge else 0)
      else 0)"
proof -
  have "sum_list (map li_signedAmountPaise (filter (\<lambda>e. li_bookingId e = b)
      (map (reversal_entry r ty reason actor dt) es)))
    = (if b = rc_bookingId r then - sum_list (map le_signedAmountPaise es) else 0)" for es
    by (induction es) (simp_all add: reversal_entry_def split: if_splits)
  then show ?thesis
    using posted_balance [OF reverseReceiptLedger_posted, where b = b]
    by (simp add: bounce_postings_def)
qed

definition below :: "id \<Rightarrow> id option \<Rightarrow> bool" where
  "below n x = (case x of None \<Rightarrow> True | Some i \<Rightarrow> i < n)"

lemma below_simps [simp]: "below n None" "below n (Some i) = (i < n)"
  by (simp_all add: below_def)

text \<open>Ids in use are below \<open>next_id\<close>, also where a ledger entry refers to one.\<close>

definition receipt_ids_ok :: "db \<Rightarrow> bool" where
  "receipt_ids_ok d \<longleftrightarrow>
     distinct (map le_id (ledger d)) \<and>
     list_all (\<lambda>e. le_id e < next_id d \<and>
       below (next_id d) (le_receiptId e) \<and> below (next_id d) (le_reversalOfEntryId e)) (ledger d) \<and>
     list_all (\<lambda>r. rc_id r < next_id d) (receipts d)"

text \<open>The open entries of a new receipt are the ones it posted.\<close>

lemma new_receipt_open_entries:
  assumes "write_receipt c dto actor d = (r, d')" and "receipt_ids_ok d"
  shows "\<exists>ns. length ns = length (receipt_postings dto (rc_id r) actor) \<and>
    open_entries c (rc_id r) d' = map2 (ledger_row c) ns (receipt_postings dto (rc_id r) actor)"
proof -
  let ?ps = "receipt_postings dto (rc_id r) actor"
  obtain ns where len: "length ns = length ?ps" and l: "ledger d' = ledger d @ map2 (ledger_row c) ns ?ps"
    and ns: "\<forall>n\<in>set ns. next_id d \<le> n"
    using write_receipt_posted(1) [OF assms(1)] unfolding posted_def by blast
  have new: "next_id d \<le> rc_id r" by (rule write_receipt_posted(2) [OF assms(1)])
  have old: "le_receiptId e \<noteq> Some (rc_id r)" "le_reversalOfEntryId e \<noteq> Some n"
    if "e \<in> set (ledger d)" "next_id d \<le> n" for e n
    using that assms(2) new by (fastforce simp: receipt_ids_ok_def list_all_iff)+
  have ps: "li_receiptId e = Some (rc_id r) \<and> (li_entryType e = RECEIPT_ALLOC \<or> li_entryType e = TDS_RECEIVABLE) \<and>
      li_reversalOfEntryId e = None" if "e \<in> set ?ps" for e
    using that by (auto simp: receipt_postings_def tds_postings_def tds_entry_def alloc_entry_def split: if_splits)
  have "receipt_entries c (rc_id r) d' = map2 (ledger_row c) ns ?ps"
  proof -
    have "filter (\<lambda>e. le_companyId e = c \<and> le_receiptId e = Some (rc_id r) \<and>
        (le_entryType e = RECEIPT_ALLOC \<or> le_entryType e = TDS_RECEIVABLE)) (ledger d) = []"
      using old new by (auto simp: filter_empty_conv)
    moreover have "filter (\<lambda>e. le_companyId e = c \<and> le_receiptId e = Some (rc_id r) \<and>
        (le_entryType e = RECEIPT_ALLOC \<or> le_entryType e = TDS_RECEIVABLE)) (map2 (ledger_row c) ns ?ps)
        = map2 (ledger_row c) ns ?ps"
      using ps by (intro filter_True) (fastforce dest: set_zip_rightD)
    ultimately show ?thesis by (simp add: receipt_entries_def l)
  qed
  moreover have "\<not> already_reversed c d' (le_id e)" if e: "e \<in> set (map2 (ledger_row c) ns ?ps)" for e
  proof -
    have "next_id d \<le> le_id e" using e ns by (auto dest: set_zip_leftD)
    have "le_reversalOfEntryId x \<noteq> Some (le_id e)" if x: "x \<in> set (ledger d')" for x
    proof (cases "x \<in> set (ledger d)")
      case True
      then show ?thesis using old(2) \<open>next_id d \<le> le_id e\<close> by blast
    next
      case False
      then obtain n i where "(n, i) \<in> set (zip ns ?ps)" "x = ledger_row c n i"
        using x by (auto simp: l)
      then show ?thesis using ps by (auto dest: set_zip_rightD)
    qed
    then show ?thesis by (auto simp: already_reversed_def list_ex_iff)
  qed
  ultimately show ?thesis using len
    by (intro exI [of _ ns]) (auto simp: open_entries_def intro!: filter_True)
qed

lemma allocated_of_upd_receipt [simp]: "allocated_of c i (upd_receipt c k f d) = allocated_of c i d"
  by (rule allocated_of_cong) (simp add: upd_receipt_def)

lemma balance_upd_receipt [simp]: "balanceInTx c b (upd_receipt c k f d) = balanceInTx c b d"
  by (rule balance_cong) (simp add: upd_receipt_def)

lemma reverseReceipt_Inr:
  "reverseReceipt c k reason actor d = Inr (x, d') \<longleftrightarrow>
   (\<exists>r. find_receipt c k d = Some r \<and> \<not> rc_isReversed r \<and> rc_clearanceStatus r \<noteq> CLEARANCE_BOUNCED \<and> x = k \<and>
     d' = upd_receipt c k (\<lambda>r. r\<lparr>rc_isReversed := True, rc_reversalReason := Some reason\<rparr>)
            (reverseReceiptLedger c r ADJUSTMENT reason actor (rc_receiptDate r) 0 d))"
  by (auto simp: reverseReceipt_def Let_def)

lemma taken_back_new:
  assumes "length ns = length (receipt_postings dto rid actor)"
  shows "taken_back i (map2 (ledger_row c) ns (receipt_postings dto rid actor)) = - requested i (crd_allocations dto)"
proof -
  have sel: "taken_back i (map2 (ledger_row c) ns es) = sum_list (map li_signedAmountPaise
      (filter (\<lambda>e. li_entryType e = RECEIPT_ALLOC \<and> li_installmentId e = Some i) es))"
    if "length ns = length es" for ns es
    using that by (induction ns es rule: list_induct2) (simp_all add: taken_back_def)
  have al: "sum_list (map li_signedAmountPaise (filter (\<lambda>e. li_entryType e = RECEIPT_ALLOC \<and> li_installmentId e = Some i)
      (map (alloc_entry b rid dt actor) as))) = - requested i as" for b dt as
    by (induction as) (simp_all add: alloc_entry_def requested_def)
  show ?thesis
    by (simp add: sel [OF assms]) (simp add: receipt_postings_def al tds_postings_def tds_entry_def)
qed

lemma map2_rows_sum:
  "length ns = length es \<Longrightarrow>
   sum_list (map le_signedAmountPaise (map2 (ledger_row c) ns es)) = sum_list (map li_signedAmountPaise es)"
  by (induction ns es rule: list_induct2) simp_all

lemma distinct_ids_bump_all: "distinct (map in_id (installments (bump_all c ps d))) = distinct (map in_id (installments d))"
  using bump_all_frame [of c ps d] by auto

lemma receipts_reversal [simp]: "receipts (reverseReceiptLedger c r ty reason actor dt charge d) = receipts d"
proof -
  have "receipts (bumpInstallment c i x s) = receipts s" for i x s
    using bumpInstallment_frame [of c i x s] by auto
  then have "receipts (reverse_entry c r ty reason actor dt e s) = receipts s" for e s
    by (auto simp: reverse_entry_def Let_def post_eq split: option.split bool.split)
  then have "receipts (foldl (\<lambda>s e. reverse_entry c r ty reason actor dt e s) d es) = receipts d" for es
    by (induction es arbitrary: d) simp_all
  then show ?thesis by (simp add: reverseReceiptLedger_eq post_eq)
qed

lemma find_receipt_reversal:
  "find_receipt c k (reverseReceiptLedger c' r ty reason actor dt charge d) = find_receipt c k d"
  by (simp add: find_receipt_def)

lemma find_receipt_upd:
  assumes "\<And>r. rc_id (f r) = rc_id r" and "\<And>r. rc_companyId (f r) = rc_companyId r"
  shows "find_receipt c k (upd_receipt c i f d) = map_option (\<lambda>r. if k = i then f r else r) (find_receipt c k d)"
proof -
  have "find_receipt c k (upd_receipt c i f d) =
      map_option (\<lambda>r. if rc_companyId r = c \<and> rc_id r = i then f r else r) (find_receipt c k d)"
    unfolding find_receipt_def upd_receipt_def using assms by (simp add: find_update_rows)
  then show ?thesis
    by (cases "find_receipt c k d") (auto simp: find_receipt_def dest!: find_SomeD)
qed

lemma find_new_receipt:
  assumes "write_receipt c dto actor d = (r, d')" and "receipt_ids_ok d"
  shows "find_receipt c (rc_id r) d' = Some r"
  using write_receipt_posted(2) [OF assms(1)] assms(2) write_receipt_row [OF assms(1)]
  by (auto simp: find_receipt_def find_append receipt_ids_ok_def list_all_iff
      split: option.split dest!: find_SomeD)

text \<open>A reversal that finds the open entries of a new receipt takes all of them back.\<close>

lemma reversal_of_new_receipt:
  assumes wr: "write_receipt c dto actor d = (r, d1)" and dist: "distinct (map in_id (installments d2))"
    and ids: "receipt_ids_ok d"
    and op: "open_entries c (rc_id r) d2 = open_entries c (rc_id r) d1"
    and d3: "d3 = upd_receipt c k f (reverseReceiptLedger c r ty reason actor2 dt 0 d2)"
  shows "balanceInTx c b d3 = balanceInTx c b d2 - (balanceInTx c b d1 - balanceInTx c b d)"
    and "allocated_of c i d3 = map_option (\<lambda>a. a - requested i (crd_allocations dto)) (allocated_of c i d2)"
proof -
  let ?ps = "receipt_postings dto (rc_id r) actor"
  obtain ns where len: "length ns = length ?ps" and es: "open_entries c (rc_id r) d1 = map2 (ledger_row c) ns ?ps"
    using new_receipt_open_entries [OF wr ids] by blast
  note row = write_receipt_row [OF wr]
  have "li_bookingId e = crd_bookingId dto" if "e \<in> set ?ps" for e
    using that by (auto simp: receipt_postings_def tds_postings_def tds_entry_def alloc_entry_def split: if_splits)
  then have sum: "sum_list (map li_signedAmountPaise (filter (\<lambda>e. li_bookingId e = b) ?ps)) =
      (if b = crd_bookingId dto then sum_list (map li_signedAmountPaise ?ps) else 0)"
    by (auto simp: filter_False)
  show "balanceInTx c b d3 = balanceInTx c b d2 - (balanceInTx c b d1 - balanceInTx c b d)"
    using posted_balance [OF write_receipt_posted(1) [OF wr], of b]
    by (simp add: d3 reverseReceiptLedger_balance row(3) op es map2_rows_sum [OF len] sum del: map_map)
  show "allocated_of c i d3 = map_option (\<lambda>a. a - requested i (crd_allocations dto)) (allocated_of c i d2)"
    by (simp add: d3 reverseReceiptLedger_allocated [OF dist] op es taken_back_new [OF len])
qed

lemma distinct_ids_write_receipt:
  assumes "write_receipt c dto actor d = (r, d')" and "distinct (map in_id (installments d))"
  shows "distinct (map in_id (installments d'))"
  using installments_write_receipt [OF assms(1)] assms(2) by (metis distinct_ids_bump_all)

text \<open>
  C28: cancelling a receipt undoes it. A reversal right after the creation succeeds; every
  booking's balance and every installment's cached allocation are then what they were
  before the receipt, and the receipt cannot be reversed a second time.
\<close>

theorem reverseReceipt_undoes_createReceipt:
  assumes "createReceipt c dto actor d = Inr (r, d1)"
    and "installments_ok d" and "receipt_ids_ok d"
  shows "\<exists>d2. reverseReceipt c (rc_id r) reason actor2 d1 = Inr (rc_id r, d2) \<and>
    balanceInTx c b d2 = balanceInTx c b d \<and> allocated_of c i d2 = allocated_of c i d \<and>
    reverseReceipt c (rc_id r) reason2 actor3 d2 = Inl (Conflict ''Receipt already reversed'')"
proof -
  have dist: "distinct (map in_id (installments d))" using assms(2) by (simp add: installments_ok_def)
  from assms(1) have wr: "write_receipt c dto actor d = (r, d1)" by (auto simp: createReceipt_Inr)
  note row = write_receipt_row [OF wr] and found = find_new_receipt [OF wr assms(3)]
  define d2 where "d2 = upd_receipt c (rc_id r) (\<lambda>r. r\<lparr>rc_isReversed := True, rc_reversalReason := Some reason\<rparr>)
      (reverseReceiptLedger c r ADJUSTMENT reason actor2 (rc_receiptDate r) 0 d1)"
  have "reverseReceipt c (rc_id r) reason actor2 d1 = Inr (rc_id r, d2)"
    using found row by (simp add: reverseReceipt_Inr d2_def)
  moreover have "balanceInTx c b d2 = balanceInTx c b d"
    using reversal_of_new_receipt(1) [OF wr distinct_ids_write_receipt [OF wr dist] assms(3) refl d2_def] by simp
  moreover have "allocated_of c i d2 = allocated_of c i d"
    using reversal_of_new_receipt(2) [OF wr distinct_ids_write_receipt [OF wr dist] assms(3) refl d2_def]
      write_receipt_allocated [OF wr dist, of i]
    by (simp add: option.map_comp o_def option.map_ident)
  moreover have "find_receipt c (rc_id r) d2 = Some (r\<lparr>rc_isReversed := True, rc_reversalReason := Some reason\<rparr>)"
    using found by (simp add: d2_def find_receipt_upd find_receipt_reversal)
  then have "reverseReceipt c (rc_id r) reason2 actor3 d2 = Inl (Conflict ''Receipt already reversed'')"
    by (simp add: reverseReceipt_def)
  ultimately show ?thesis by blast
qed

text \<open>A tax certificate only adds its own credit, which no receipt owns.\<close>

lemma recordTdsCertificate_Inr:
  assumes "recordTdsCertificate c k dto actor d = Inr (cert, d')"
  shows "\<exists>ded. find_tds_deduction c k d = Some ded \<and> tc_tdsDeductionId cert = k \<and>
    posted c [certificate_entry ded dto actor] d d' \<and>
    installments d' = installments d \<and> receipts d' = receipts d \<and>
    tdsCertificates d' = tdsCertificates d @ [cert] \<and> tc_companyId cert = c"
proof -
  obtain ded where ded: "find_tds_deduction c k d = Some ded"
    using assms by (auto simp: recordTdsCertificate_def)
  have p: "posted c [certificate_entry ded dto actor] d (snd (post c [certificate_entry ded dto actor] d))"
    by (rule posted_post)
  have "posted c [certificate_entry ded dto actor] d d'"
    using assms ded by (auto simp: recordTdsCertificate_def Let_def case_prod_beta add_tds_certificate_def
        intro: posted_cong [OF p])
  then show ?thesis
    using assms ded
    by (auto simp: recordTdsCertificate_def Let_def case_prod_beta add_tds_certificate_def post_eq)
qed

lemma certificate_keeps_open_entries:
  assumes "posted c [certificate_entry ded dto actor] d d'"
  shows "open_entries c rid d' = open_entries c rid d"
proof -
  obtain n where l: "ledger d' = ledger d @ [ledger_row c n (certificate_entry ded dto actor)]"
    using assms by (auto simp: posted_def length_Suc_conv)
  have "receipt_entries c rid d' = receipt_entries c rid d"
    "already_reversed c d' k = already_reversed c d k" for k
    by (simp_all add: receipt_entries_def already_reversed_def l certificate_entry_def)
  then show ?thesis by (simp add: open_entries_def)
qed

text \<open>
  A tax certificate outlives the receipt it belongs to. When the certificate of a
  receipt's deduction is recorded and the receipt is reversed afterwards, the balance ends
  below its value before the receipt by the certified amount: the reversal takes the
  receivable back as well, and nothing takes the certificate's credit back.
\<close>

theorem certificate_survives_reversal:
  assumes "createReceipt c dto actor d = Inr (r, d1)"
    and "installments_ok d" and "receipt_ids_ok d"
    and "find_tds_deduction c k d1 = Some ded" and "td_bookingId ded = crd_bookingId dto"
    and "recordTdsCertificate c k certDto actor2 d1 = Inr (cert, d2)"
  shows "\<exists>d3. reverseReceipt c (rc_id r) reason actor3 d2 = Inr (rc_id r, d3) \<and>
    balanceInTx c (crd_bookingId dto) d3 = balanceInTx c (crd_bookingId dto) d - td_deductedPaise ded"
proof -
  have dist: "distinct (map in_id (installments d))" using assms(2) by (simp add: installments_ok_def)
  from assms(1) have wr: "write_receipt c dto actor d = (r, d1)" by (auto simp: createReceipt_Inr)
  note row = write_receipt_row [OF wr]
  have p: "posted c [certificate_entry ded certDto actor2] d1 d2"
    and same: "installments d2 = installments d1" "receipts d2 = receipts d1"
    using recordTdsCertificate_Inr [OF assms(6)] assms(4) by auto
  have found: "find_receipt c (rc_id r) d2 = Some r"
    using find_new_receipt [OF wr assms(3)] by (simp add: find_receipt_def same)
  define d3 where "d3 = upd_receipt c (rc_id r) (\<lambda>r. r\<lparr>rc_isReversed := True, rc_reversalReason := Some reason\<rparr>)
      (reverseReceiptLedger c r ADJUSTMENT reason actor3 (rc_receiptDate r) 0 d2)"
  have run: "reverseReceipt c (rc_id r) reason actor3 d2 = Inr (rc_id r, d3)"
    using found row by (simp add: reverseReceipt_Inr d3_def)
  have "distinct (map in_id (installments d2))"
    using distinct_ids_write_receipt [OF wr dist] by (simp add: same)
  from reversal_of_new_receipt(1) [OF wr this assms(3) certificate_keeps_open_entries [OF p] d3_def]
  have "balanceInTx c (crd_bookingId dto) d3 = balanceInTx c (crd_bookingId dto) d2
      - (balanceInTx c (crd_bookingId dto) d1 - balanceInTx c (crd_bookingId dto) d)" .
  moreover have "balanceInTx c (crd_bookingId dto) d2 = balanceInTx c (crd_bookingId dto) d1 - td_deductedPaise ded"
    using posted_balance [OF p] assms(5) by (simp add: certificate_entry_def)
  ultimately show ?thesis using run by (intro exI [of _ d3]) simp
qed

section \<open>Concrete receipts\<close>

definition demo_receipt_dto :: create_receipt_dto where
  "demo_receipt_dto =
     \<lparr>crd_bookingId = 40, crd_receiptDate = demo_day, crd_mode = CHEQUE, crd_grossAmountPaise = 20000,
      crd_allocations = [\<lparr>rai_installmentId = 44, rai_amountPaise = 15000\<rparr>,
                         \<lparr>rai_installmentId = 44, rai_amountPaise = 5000\<rparr>],
      crd_receiptTypeId = None, crd_bankId = None, crd_instrumentNumber = None, crd_instrumentDate = None,
      crd_utr = None, crd_tdsDeductedPaise = 200\<rparr>"

lemma demo_receipt_premises:
  "\<not> isl (check_receipt 1 demo_receipt_dto demo_sold)"
  "createReceiptSchema demo_receipt_dto" "receipt_ids_ok demo_sold"
  "list_all allocation_ok (installments demo_sold)"
  by code_simp+

lemma demo_receipt_succeeds: "\<exists>r d'. createReceipt 1 demo_receipt_dto None demo_sold = Inr (r, d')"
  using not_isl_Inr [OF demo_receipt_premises(1)] by (cases "write_receipt 1 demo_receipt_dto None demo_sold")
    (auto simp: createReceipt_Inr)

theorem createReceipt_effect_witness:
  "\<exists>r d'. createReceipt 1 demo_receipt_dto None demo_sold = Inr (r, d') \<and>
     balanceInTx 1 40 d' = balanceInTx 1 40 demo_sold - 19800"
proof -
  obtain r d' where r: "createReceipt 1 demo_receipt_dto None demo_sold = Inr (r, d')"
    using demo_receipt_succeeds by blast
  from createReceipt_effect [OF r demo_receipt_premises(2) demo_plan_premises(5), of 40] r show ?thesis
    by (auto simp: demo_receipt_dto_def)
qed

text \<open>The deduction row of a receipt with tax.\<close>

lemma tdsDeductions_write_receipt:
  assumes "write_receipt c dto actor d = (r, d')" and "crd_tdsDeductedPaise dto > 0"
  shows "\<exists>t. tdsDeductions d' = tdsDeductions d @ [t] \<and> td_companyId t = c \<and> next_id d < td_id t \<and>
    td_bookingId t = crd_bookingId dto \<and> td_deductedPaise t = crd_tdsDeductedPaise dto \<and>
    td_receiptId t = Some (rc_id r) \<and> tdsCertificates d' = tdsCertificates d"
proof -
  let ?fy = "financialYearLabel (crd_receiptDate dto) (fy_start_month c d)"
  let ?d3 = "\<lambda>evs n. d\<lparr>sequences := sequences (snd (allocate_number c ''RECEIPT'' ?fy d)),
      receipts := receipts d @ [r], chequeEvents := evs, next_id := n\<rparr>"
  obtain evs n d5 where n: "next_id d \<le> rc_id r" "rc_id r < n"
    and d5: "d5 = bump_all c (add_by_inst (crd_allocations dto))
      (post_allocations c (crd_bookingId dto) (rc_id r) (crd_receiptDate dto) actor (crd_allocations dto) (?d3 evs n))"
    and d': "d' = post_tds c dto (rc_id r) actor d5"
    using write_receipt_steps [OF assms(1)] by blast
  have "tdsDeductions (post_allocations c b rid dt ac as s) = tdsDeductions s"
    "tdsCertificates (post_allocations c b rid dt ac as s) = tdsCertificates s" for b rid dt ac as s
    unfolding post_allocations_def
    by (induction as arbitrary: s) (simp_all add: post_allocation_def post_eq add_allocation_def)
  moreover have "tdsDeductions (bump_all c ps s) = tdsDeductions s"
    "tdsCertificates (bump_all c ps s) = tdsCertificates s" for ps s
    using bump_all_frame [of c ps s] by auto
  ultimately have "tdsDeductions d5 = tdsDeductions d" "tdsCertificates d5 = tdsCertificates d"
    by (simp_all add: d5)
  moreover have "n \<le> next_id d5"
    using posted_next_id [OF posted_post_allocations, of "?d3 evs n"] by (simp add: d5)
  ultimately show ?thesis
    using assms(2) n by (simp add: d' post_tds_def Let_def case_prod_beta post_eq add_tds_deduction_def)
qed

theorem reverseReceipt_undoes_createReceipt_witness:
  "\<exists>r d1 d2. createReceipt 1 demo_receipt_dto None demo_sold = Inr (r, d1) \<and>
     reverseReceipt 1 (rc_id r) ''wrong booking'' None d1 = Inr (rc_id r, d2) \<and>
     balanceInTx 1 40 d2 = balanceInTx 1 40 demo_sold"
proof -
  obtain r d1 where r: "createReceipt 1 demo_receipt_dto None demo_sold = Inr (r, d1)"
    using demo_receipt_succeeds by blast
  from reverseReceipt_undoes_createReceipt [OF r demo_plan_premises(5) demo_receipt_premises(3)] r
  show ?thesis by blast
qed

theorem certificate_survives_reversal_witness:
  "\<exists>r d1 k cert d2 d3. createReceipt 1 demo_receipt_dto None demo_sold = Inr (r, d1) \<and>
     recordTdsCertificate 1 k \<lparr>tcd_certificateNumber = ''C'', tcd_certificateDate = demo_day\<rparr> None d1 = Inr (cert, d2) \<and>
     reverseReceipt 1 (rc_id r) ''wrong booking'' None d2 = Inr (rc_id r, d3) \<and>
     balanceInTx 1 40 d3 = balanceInTx 1 40 demo_sold - 200"
proof -
  obtain r d1 where r: "createReceipt 1 demo_receipt_dto None demo_sold = Inr (r, d1)"
    using demo_receipt_succeeds by blast
  then have wr: "write_receipt 1 demo_receipt_dto None demo_sold = (r, d1)" by (auto simp: createReceipt_Inr)
  have dto: "crd_tdsDeductedPaise demo_receipt_dto = 200" "crd_bookingId demo_receipt_dto = 40"
    by (simp_all add: demo_receipt_dto_def)
  have no: "tdsDeductions demo_sold = []" "tdsCertificates demo_sold = []"
    by (simp_all add: demo_sold_def demo_db_def empty_db_def)
  obtain t where t: "tdsDeductions d1 = [t]" "td_companyId t = 1" "td_bookingId t = 40" "td_deductedPaise t = 200"
    "tdsCertificates d1 = []"
    using tdsDeductions_write_receipt [OF wr] dto no by auto
  have ded: "find_tds_deduction 1 (td_id t) d1 = Some t" by (simp add: find_tds_deduction_def t)
  obtain cert d2 where cert: "recordTdsCertificate 1 (td_id t)
      \<lparr>tcd_certificateNumber = ''C'', tcd_certificateDate = demo_day\<rparr> None d1 = Inr (cert, d2)"
    by (auto simp: recordTdsCertificate_def ded t Let_def case_prod_beta simp del: One_nat_def)
  from certificate_survives_reversal [OF r demo_plan_premises(5) demo_receipt_premises(3) ded _ cert]
  show ?thesis using r cert t dto by metis
qed

end
