(* ===== verification/Interest.thy ===== *)
theory Interest
  imports Receipt
begin

text \<open>
  \<open>apps/api/src/postsales/interest.service.ts\<close>: delay interest on overdue installments,
  with a cursor per installment (its due date, then the end of its last accrual), and the
  waiver of interest. The lemmas show that a run accounts for every paisa it posts and that
  running it again on the same day changes nothing.
\<close>

section \<open>The accrual of one installment\<close>

definition daysBetween :: "date \<Rightarrow> date \<Rightarrow> int" where
  "daysBetween start stop = (toUtcMidnight stop - toUtcMidnight start) div DAY_MS"

lemma daysBetween_eq: "daysBetween a b = utc_day b - utc_day a"
proof -
  have "toUtcMidnight b - toUtcMidnight a = (utc_day b - utc_day a) * DAY_MS"
    by (simp add: toUtcMidnight_def algebra_simps)
  then show ?thesis by (simp add: daysBetween_def DAY_MS_def)
qed

record accrual_result =
  ac_bookingId :: id
  ac_postedPaise :: int
  ac_installmentsAccrued :: nat

definition prior_accruals :: "id \<Rightarrow> id \<Rightarrow> db \<Rightarrow> interest_accrual list" where
  "prior_accruals companyId instId d =
     sort_key (\<lambda>a. - ia_periodEnd a)
       (filter (\<lambda>a. ia_companyId a = companyId \<and> ia_installmentId a = Some instId) (interestAccruals d))"

text \<open>
  The decision of one iteration: \<open>None\<close> where the loop continues without posting, else
  the cursor, the base and the interest to post.
\<close>

definition accrual_for ::
  "id \<Rightarrow> interest_rule \<Rightarrow> date \<Rightarrow> installment \<Rightarrow> db \<Rightarrow> (date \<times> int \<times> int) option result" where
  "accrual_for companyId rule asOf inst d =
     (let rateBps = math_round (ir_ratePercent rule * 100);
          compound = (ir_rateType rule = COMPOUND);
          outstanding = in_amountPaise inst - in_allocatedPaise inst in
      if outstanding \<le> 0 then Inr None
      else
        let priors = prior_accruals companyId (in_id inst) d in
        bindE (case priors of a # _ \<Rightarrow> Inr (ia_periodEnd a)
                            | [] \<Rightarrow> orFail (JsError ''TypeError'') (in_dueDate inst)) (\<lambda>cursor.
        let days = daysBetween cursor asOf in
        if days \<le> 0 then Inr None
        else
          let accruedSoFar = sum_list (map ia_accruedPaise priors);
              base = (if compound then outstanding + accruedSoFar else outstanding) in
          bindE (roundedDiv (base * rateBps * days) (365 * 10000)) (\<lambda>delta.
            if delta \<le> 0 then Inr None else Inr (Some (cursor, base, delta)))))"

definition interest_entry :: "id \<Rightarrow> interest_rule \<Rightarrow> date \<Rightarrow> installment \<Rightarrow> int \<Rightarrow> ledger_input" where
  "interest_entry bookingId rule asOf inst delta =
     (entry_in bookingId INTEREST delta asOf)
       \<lparr>li_installmentId := Some (in_id inst), li_reason := Some (''Delay interest ('' @ ir_name rule @ '')'')\<rparr>"

definition post_accrual ::
  "id \<Rightarrow> id \<Rightarrow> interest_rule \<Rightarrow> date \<Rightarrow> installment \<Rightarrow> date \<times> int \<times> int \<Rightarrow> db \<Rightarrow> db" where
  "post_accrual companyId bookingId rule asOf inst acc d =
     (case acc of (cursor, base, delta) \<Rightarrow>
        let (created, d1) = post companyId [interest_entry bookingId rule asOf inst delta] d
        in add_interest_accrual
             \<lparr>ia_id = next_id d1, ia_companyId = companyId, ia_bookingId = bookingId,
              ia_installmentId = Some (in_id inst), ia_interestRuleId = Some (ir_id rule),
              ia_rateType = ir_rateType rule, ia_ratePercentSnapshot = ir_ratePercent rule,
              ia_periodStart = date_column cursor, ia_periodEnd = date_column asOf, ia_principalPaise = base,
              ia_accruedPaise = delta,
              ia_ledgerEntryId = (case created of [] \<Rightarrow> None | e # _ \<Rightarrow> Some (le_id e))\<rparr> d1)"

definition accrue_installment ::
  "id \<Rightarrow> id \<Rightarrow> interest_rule \<Rightarrow> date \<Rightarrow> installment \<Rightarrow> int \<times> nat \<times> db \<Rightarrow> (int \<times> nat \<times> db) result" where
  "accrue_installment companyId bookingId rule asOf inst s =
     (case s of (postedPaise, cnt, d) \<Rightarrow>
        bindE (accrual_for companyId rule asOf inst d) (\<lambda>r.
          case r of
            None \<Rightarrow> Inr (postedPaise, cnt, d)
          | Some (cursor, base, delta) \<Rightarrow>
              Inr (postedPaise + delta, cnt + 1,
                   post_accrual companyId bookingId rule asOf inst (cursor, base, delta) d)))"

section \<open>A run\<close>

text \<open>\<open>dueDate: { lt: asOf }\<close> compares dates; a null due date never qualifies.\<close>

definition overdue :: "id \<Rightarrow> id \<Rightarrow> date \<Rightarrow> installment \<Rightarrow> bool" where
  "overdue companyId bookingId asOf i \<longleftrightarrow>
     in_companyId i = companyId \<and> in_bookingId i = bookingId \<and> in_isActive i \<and>
     (case in_dueDate i of None \<Rightarrow> False | Some due \<Rightarrow> due < date_column asOf)"

definition find_interest_rule :: "id \<Rightarrow> id option \<Rightarrow> db \<Rightarrow> interest_rule option" where
  "find_interest_rule companyId ruleId d =
     (case ruleId of None \<Rightarrow> None
      | Some i \<Rightarrow> List.find (\<lambda>r. ir_id r = i \<and> ir_companyId r = companyId) (interestRules (masters_of d)))"

definition accrueInTx :: "id \<Rightarrow> id \<Rightarrow> date \<Rightarrow> db \<Rightarrow> (accrual_result \<times> db) result" where
  "accrueInTx companyId bookingId asOf d =
     bindE (orFail (NotFound ''Booking not found'') (find_booking companyId bookingId d)) (\<lambda>booking.
       case find_interest_rule companyId (bk_interestRuleId booking) d of
         None \<Rightarrow> Inr (\<lparr>ac_bookingId = bookingId, ac_postedPaise = 0, ac_installmentsAccrued = 0\<rparr>, d)
       | Some rule \<Rightarrow>
           bindE (foldE (accrue_installment companyId bookingId rule asOf)
                    (filter (overdue companyId bookingId asOf) (installments d)) (0, 0, d))
             (\<lambda>(postedPaise, cnt, d').
               Inr (\<lparr>ac_bookingId = bookingId, ac_postedPaise = postedPaise,
                     ac_installmentsAccrued = cnt\<rparr>, d')))"

definition accrueForBooking :: "id \<Rightarrow> id \<Rightarrow> date \<Rightarrow> db \<Rightarrow> (accrual_result \<times> db) result" where
  "accrueForBooking companyId bookingId asOf d = accrueInTx companyId bookingId asOf d"

text \<open>
  The company run commits one transaction per booking, so an error stops it and keeps what
  the earlier bookings wrote.
\<close>

fun accrue_bookings :: "id \<Rightarrow> date \<Rightarrow> id list \<Rightarrow> db \<Rightarrow> accrual_result list result \<times> db" where
  "accrue_bookings companyId asOf [] d = (Inr [], d)"
| "accrue_bookings companyId asOf (b # bs) d =
     (case accrueForBooking companyId b asOf d of
        Inl e \<Rightarrow> (Inl e, d)
      | Inr (r, d1) \<Rightarrow>
          (let (rs, d2) = accrue_bookings companyId asOf bs d1
           in (bindE rs (\<lambda>rs. Inr (r # rs)), d2)))"

definition bears_interest :: "id \<Rightarrow> booking \<Rightarrow> bool" where
  "bears_interest companyId b \<longleftrightarrow>
     bk_companyId b = companyId \<and> bk_interestRuleId b \<noteq> None \<and>
     bk_status b \<in> {BOOKING_BOOKED, BOOKING_ALLOTTED, BOOKING_REGISTERED}"

definition accrueForCompany :: "id \<Rightarrow> date \<Rightarrow> db \<Rightarrow> accrual_result list result \<times> db" where
  "accrueForCompany companyId asOf d =
     accrue_bookings companyId asOf (map bk_id (filter (bears_interest companyId) (bookings d))) d"

record interest_waiver_dto =
  iw_amountPaise :: int
  iw_reason :: string
  iw_effectiveDate :: "date option"

definition waiver_entry :: "id \<Rightarrow> interest_waiver_dto \<Rightarrow> date \<Rightarrow> id option \<Rightarrow> ledger_input" where
  "waiver_entry bookingId dto now actorId =
     (entry_in bookingId INTEREST_WAIVER (- iw_amountPaise dto)
        (case iw_effectiveDate dto of Some t \<Rightarrow> t | None \<Rightarrow> now))
       \<lparr>li_reason := Some (iw_reason dto), li_createdById := actorId\<rparr>"

definition waiveInterest ::
  "id \<Rightarrow> id \<Rightarrow> interest_waiver_dto \<Rightarrow> date \<Rightarrow> id option \<Rightarrow> db \<Rightarrow> (ledger_entry list \<times> db) result" where
  "waiveInterest companyId bookingId dto now actorId d =
     bindE (orFail (NotFound ''Booking not found'') (find_booking companyId bookingId d)) (\<lambda>_.
       Inr (post companyId [waiver_entry bookingId dto now actorId] d))"

section \<open>What a run does\<close>

lemma post_accrual_eq:
  "\<exists>a. post_accrual c b rule asOf inst (cursor, base, delta) d =
     d\<lparr>ledger := ledger d @ [ledger_row c (next_id d) (interest_entry b rule asOf inst delta)],
       interestAccruals := interestAccruals d @ [a], next_id := next_id d + 2\<rparr> \<and>
     ia_companyId a = c \<and> ia_installmentId a = Some (in_id inst) \<and> ia_periodEnd a = date_column asOf \<and>
     ia_accruedPaise a = delta"
  by (simp add: post_accrual_def post_eq Let_def add_interest_accrual_def) (intro exI conjI, rule refl, simp_all)

lemma posted_post_accrual:
  "posted c [interest_entry b rule asOf inst delta] d (post_accrual c b rule asOf inst (cursor, base, delta) d)"
proof -
  have "post_rows c (next_id d) [interest_entry b rule asOf inst delta]
      = [ledger_row c (next_id d) (interest_entry b rule asOf inst delta)]" by simp
  with post_accrual_eq [of c b rule asOf inst cursor base delta d] show ?thesis
    by (auto intro!: posted_post_rows)
qed

lemma accrual_for_cong:
  "prior_accruals c (in_id i) d' = prior_accruals c (in_id i) d \<Longrightarrow>
   accrual_for c rule asOf i d' = accrual_for c rule asOf i d"
  by (simp add: accrual_for_def Let_def)

lemma prior_accruals_post_other:
  assumes "in_id j \<noteq> in_id i"
  shows "prior_accruals c (in_id i) (post_accrual c b rule asOf j acc d) = prior_accruals c (in_id i) d"
proof -
  obtain cursor base delta where "acc = (cursor, base, delta)" by (cases acc)
  with post_accrual_eq [of c b rule asOf j cursor base delta d] assms show ?thesis
    by (auto simp: prior_accruals_def)
qed

lemma sort_key_head_least:
  assumes "sort_key f xs = y # ys" and "x \<in> set xs"
  shows "f y \<le> (f x :: int)"
proof -
  have "sorted (map f (y # ys))" using sorted_sort_key [of f xs] assms(1) by simp
  moreover have "x \<in> set (y # ys)" using assms by (metis set_sort)
  ultimately show ?thesis by auto
qed

text \<open>Once posted up to a day, an installment has nothing left for that day.\<close>

lemma accrual_done:
  "accrual_for c rule asOf i (post_accrual c b rule asOf i (cursor, base, delta) d) = Inr None"
proof -
  let ?d = "post_accrual c b rule asOf i (cursor, base, delta) d"
  obtain a where a: "a \<in> set (interestAccruals ?d)" "ia_companyId a = c" "ia_installmentId a = Some (in_id i)"
      "ia_periodEnd a = date_column asOf"
  proof -
    obtain a where "interestAccruals ?d = interestAccruals d @ [a]" "ia_companyId a = c"
        "ia_installmentId a = Some (in_id i)" "ia_periodEnd a = date_column asOf"
      using post_accrual_eq [of c b rule asOf i cursor base delta d] by auto
    then show ?thesis by (intro that [of a]) simp_all
  qed
  let ?ps = "filter (\<lambda>a. ia_companyId a = c \<and> ia_installmentId a = Some (in_id i)) (interestAccruals ?d)"
  have mem: "a \<in> set ?ps" using a by simp
  then obtain y ys where y: "prior_accruals c (in_id i) ?d = y # ys"
    by (cases "prior_accruals c (in_id i) ?d") (auto simp: prior_accruals_def dest!: arg_cong [where f = set])
  then have "date_column asOf \<le> ia_periodEnd y"
    using sort_key_head_least [of "\<lambda>a. - ia_periodEnd a" ?ps y ys a] mem a(4) by (simp add: prior_accruals_def)
  then have "utc_day asOf \<le> utc_day (ia_periodEnd y)"
    by (metis date_column_def utc_day_midnight utc_day_def zdiv_mono1 DAY_MS_def zero_less_numeral)
  then have "daysBetween (ia_periodEnd y) asOf \<le> 0" by (simp add: daysBetween_eq)
  then show ?thesis by (simp add: accrual_for_def y Let_def)
qed

lemma accrue_installment_Inr:
  assumes "accrue_installment c b rule asOf i (p, n, d) = Inr (p', n', d')"
  shows "(accrual_for c rule asOf i d = Inr None \<and> p' = p \<and> n' = n \<and> d' = d) \<or>
    (\<exists>cursor base delta. accrual_for c rule asOf i d = Inr (Some (cursor, base, delta)) \<and> p' = p + delta \<and>
       n' = n + 1 \<and> d' = post_accrual c b rule asOf i (cursor, base, delta) d)"
  using assms by (auto simp: accrue_installment_def split: option.splits)

lemma accrue_installment_after:
  assumes "accrue_installment c b rule asOf i (p, n, d) = Inr (p', n', d')"
  shows "accrual_for c rule asOf i d' = Inr None"
    and "in_id i \<noteq> in_id j \<Longrightarrow> accrual_for c rule asOf j d' = accrual_for c rule asOf j d"
  using accrue_installment_Inr [OF assms]
  by (auto simp: accrual_done intro: accrual_for_cong prior_accruals_post_other)

lemma accrue_all_done:
  assumes "foldE (accrue_installment c b rule asOf) xs (p, n, d) = Inr (p', n', d')"
    and "distinct (map in_id xs)"
  shows "(\<forall>i\<in>set xs. accrual_for c rule asOf i d' = Inr None) \<and>
    (\<forall>j. in_id j \<notin> in_id ` set xs \<longrightarrow> accrual_for c rule asOf j d' = accrual_for c rule asOf j d)"
  using assms
proof (induction xs arbitrary: p n d)
  case (Cons i xs)
  obtain p1 n1 d1 where 1: "accrue_installment c b rule asOf i (p, n, d) = Inr (p1, n1, d1)"
    and 2: "foldE (accrue_installment c b rule asOf) xs (p1, n1, d1) = Inr (p', n', d')"
    using Cons.prems(1) by auto
  have ih: "\<forall>i\<in>set xs. accrual_for c rule asOf i d' = Inr None"
    "\<forall>j. in_id j \<notin> in_id ` set xs \<longrightarrow> accrual_for c rule asOf j d' = accrual_for c rule asOf j d1"
    using Cons.IH [OF 2] Cons.prems(2) by simp_all
  have "accrual_for c rule asOf i d' = Inr None"
    using ih(2) accrue_installment_after(1) [OF 1] Cons.prems(2) by simp
  moreover have "accrual_for c rule asOf j d' = accrual_for c rule asOf j d"
    if "in_id j \<notin> in_id ` set (i # xs)" for j
  proof -
    have "in_id i \<noteq> in_id j" "in_id j \<notin> in_id ` set xs" using that by auto
    then show ?thesis using ih(2) accrue_installment_after(2) [OF 1] by simp
  qed
  ultimately show ?case using ih(1) by simp
qed simp

lemma accrue_nothing:
  assumes "\<forall>i\<in>set xs. accrual_for c rule asOf i d = Inr None"
  shows "foldE (accrue_installment c b rule asOf) xs (p, n, d) = Inr (p, n, d)"
  using assms by (induction xs) (auto simp: accrue_installment_def)

text \<open>A run writes interest accruals and ledger entries only, and its total is what it posts.\<close>

lemma accrue_all_frame:
  assumes "foldE (accrue_installment c b rule asOf) xs (p, n, d) = Inr (p', n', d')"
  shows "\<exists>es as m. d' = d\<lparr>ledger := es, interestAccruals := as, next_id := m\<rparr> \<and>
    (\<exists>ps. posted c ps d d' \<and> sum_list (map li_signedAmountPaise ps) = p' - p \<and> length ps = n' - n \<and> n \<le> n' \<and>
      (\<forall>e\<in>set ps. li_bookingId e = b \<and> li_entryType e = INTEREST \<and> 0 < li_signedAmountPaise e \<and>
         li_reversalOfEntryId e = None \<and> li_receiptId e = None))"
  using assms
proof (induction xs arbitrary: p n d)
  case Nil
  then have "d' = d\<lparr>ledger := ledger d, interestAccruals := interestAccruals d, next_id := next_id d\<rparr>" by simp
  moreover have "posted c [] d d'" using Nil by simp
  ultimately show ?case using Nil by (metis diff_self foldE.simps(1) sum.inject(2) prod.inject list.map(1)
        sum_list.Nil list.size(3) diff_self_eq_0 order_refl empty_iff list.set(1))
next
  case (Cons i xs)
  obtain p1 n1 d1 where 1: "accrue_installment c b rule asOf i (p, n, d) = Inr (p1, n1, d1)"
    and 2: "foldE (accrue_installment c b rule asOf) xs (p1, n1, d1) = Inr (p', n', d')"
    using Cons.prems by auto
  obtain es as m ps where d': "d' = d1\<lparr>ledger := es, interestAccruals := as, next_id := m\<rparr>"
    and ps: "posted c ps d1 d'" "sum_list (map li_signedAmountPaise ps) = p' - p1" "length ps = n' - n1" "n1 \<le> n'"
      "\<forall>e\<in>set ps. li_bookingId e = b \<and> li_entryType e = INTEREST \<and> 0 < li_signedAmountPaise e \<and>
         li_reversalOfEntryId e = None \<and> li_receiptId e = None"
    using Cons.IH [OF 2] by blast
  from accrue_installment_Inr [OF 1] show ?case
  proof (elim disjE conjE exE)
    assume "p1 = p" "n1 = n" "d1 = d"
    then show ?thesis using d' ps by blast
  next
    fix cursor base delta
    assume acc: "accrual_for c rule asOf i d = Inr (Some (cursor, base, delta))" and p1: "p1 = p + delta"
      and n1: "n1 = n + 1" and d1: "d1 = post_accrual c b rule asOf i (cursor, base, delta) d"
    have pos: "0 < delta"
      using acc by (auto simp: accrual_for_def Let_def split: if_splits)
    obtain a where "d1 = d\<lparr>ledger := ledger d @ [ledger_row c (next_id d) (interest_entry b rule asOf i delta)],
        interestAccruals := interestAccruals d @ [a], next_id := next_id d + 2\<rparr>"
      using post_accrual_eq [of c b rule asOf i cursor base delta d] d1 by blast
    then have "d' = d\<lparr>ledger := es, interestAccruals := as, next_id := m\<rparr>" by (simp add: d')
    moreover have "posted c (interest_entry b rule asOf i delta # ps) d d'"
      using posted_trans [OF posted_post_accrual ps(1) [unfolded d1]] by simp
    moreover have "sum_list (map li_signedAmountPaise (interest_entry b rule asOf i delta # ps)) = p' - p"
      "length (interest_entry b rule asOf i delta # ps) = n' - n" "n \<le> n'"
      using ps p1 n1 by (simp_all add: interest_entry_def)
    moreover have "\<forall>e\<in>set (interest_entry b rule asOf i delta # ps). li_bookingId e = b \<and> li_entryType e = INTEREST \<and>
        0 < li_signedAmountPaise e \<and> li_reversalOfEntryId e = None \<and> li_receiptId e = None"
      using ps(5) pos by (simp add: interest_entry_def)
    ultimately show ?thesis by blast
  qed
qed

section \<open>Properties of a run\<close>

lemma accrueForBooking_cases:
  assumes "accrueForBooking c b asOf d = Inr (r, d')"
  obtains (idle) bk where "find_booking c b d = Some bk" "find_interest_rule c (bk_interestRuleId bk) d = None"
      "r = \<lparr>ac_bookingId = b, ac_postedPaise = 0, ac_installmentsAccrued = 0\<rparr>" "d' = d"
  | (run) bk rule p n where "find_booking c b d = Some bk" "find_interest_rule c (bk_interestRuleId bk) d = Some rule"
      "foldE (accrue_installment c b rule asOf) (filter (overdue c b asOf) (installments d)) (0, 0, d) = Inr (p, n, d')"
      "r = \<lparr>ac_bookingId = b, ac_postedPaise = p, ac_installmentsAccrued = n\<rparr>"
proof -
  obtain bk where bk: "find_booking c b d = Some bk"
    using assms by (auto simp: accrueForBooking_def accrueInTx_def)
  show ?thesis
  proof (cases "find_interest_rule c (bk_interestRuleId bk) d")
    case None
    then show ?thesis
      using assms bk by (intro idle [of bk]) (auto simp: accrueForBooking_def accrueInTx_def)
  next
    case (Some rule)
    then show ?thesis
      using assms bk by (auto simp: accrueForBooking_def accrueInTx_def intro: run)
  qed
qed

lemma find_cong_frame:
  "bookings d' = bookings d \<Longrightarrow> find_booking c b d' = find_booking c b d"
  "masters_of d' = masters_of d \<Longrightarrow> find_interest_rule c i d' = find_interest_rule c i d"
  by (simp_all add: find_booking_def find_interest_rule_def split: option.split)

lemma same_day:
  assumes "utc_day t = utc_day asOf"
  shows "accrual_for c rule t i d = accrual_for c rule asOf i d" and "overdue c b t = overdue c b asOf"
proof -
  have "toUtcMidnight t = toUtcMidnight asOf" using assms by (simp add: toUtcMidnight_def)
  moreover have "daysBetween x t = daysBetween x asOf" for x using assms by (simp add: daysBetween_eq)
  ultimately show "accrual_for c rule t i d = accrual_for c rule asOf i d" "overdue c b t = overdue c b asOf"
    by (simp_all add: accrual_for_def overdue_def date_column_def Let_def fun_eq_iff split: option.split)
qed

text \<open>
  C32: accruing delay interest is idempotent. A second run for the same booking on the same
  (UTC) day, at whatever time of that day the clock stands, posts nothing and leaves the
  database exactly as the first run left it.
\<close>

theorem accrueForBooking_idempotent:
  assumes "accrueForBooking c b asOf d = Inr (r, d')" and "distinct (map in_id (installments d))"
    and "utc_day later = utc_day asOf"
  shows "accrueForBooking c b later d' =
    Inr (\<lparr>ac_bookingId = b, ac_postedPaise = 0, ac_installmentsAccrued = 0\<rparr>, d')"
  using assms(1)
proof (cases rule: accrueForBooking_cases)
  case (idle bk)
  then show ?thesis by (simp add: accrueForBooking_def accrueInTx_def)
next
  case (run bk rule p n)
  let ?xs = "filter (overdue c b asOf) (installments d)"
  obtain es as m where d': "d' = d\<lparr>ledger := es, interestAccruals := as, next_id := m\<rparr>"
    using accrue_all_frame [OF run(3)] by blast
  have "distinct (map in_id ?xs)" using assms(2) by (simp add: distinct_map inj_on_def)
  then have "\<forall>i\<in>set ?xs. accrual_for c rule later i d' = Inr None"
    using accrue_all_done [OF run(3)] same_day(1) [OF assms(3)] by simp
  then have "foldE (accrue_installment c b rule later) ?xs (0, 0, d') = Inr (0, 0, d')"
    by (rule accrue_nothing)
  moreover have "find_booking c b d' = Some bk" "find_interest_rule c (bk_interestRuleId bk) d' = Some rule"
    "installments d' = installments d"
    using run(1,2) find_cong_frame [of d' d] by (simp_all add: d')
  ultimately show ?thesis by (simp add: accrueForBooking_def accrueInTx_def same_day(2) [OF assms(3)])
qed

text \<open>
  A run posts what it reports. The booking's balance grows by the reported total, no
  other balance moves, every entry is a positive INTEREST entry, and the installments keep
  their amounts and allocations.
\<close>

theorem accrueForBooking_posts_reported:
  assumes "accrueForBooking c b asOf d = Inr (r, d')"
  shows "balanceInTx c k d' = balanceInTx c k d + (if k = b then ac_postedPaise r else 0) \<and>
    installments d' = installments d \<and> 0 \<le> ac_postedPaise r \<and>
    (\<forall>e\<in>set (ledger d'). e \<in> set (ledger d) \<or>
       le_bookingId e = b \<and> le_entryType e = INTEREST \<and> 0 < le_signedAmountPaise e)"
  using assms
proof (cases rule: accrueForBooking_cases)
  case (idle bk)
  then show ?thesis by simp
next
  case (run bk rule p n)
  obtain es as m ps where d': "d' = d\<lparr>ledger := es, interestAccruals := as, next_id := m\<rparr>"
    and ps: "posted c ps d d'" "sum_list (map li_signedAmountPaise ps) = p"
      "\<forall>e\<in>set ps. li_bookingId e = b \<and> li_entryType e = INTEREST \<and> 0 < li_signedAmountPaise e"
    using accrue_all_frame [OF run(3)] by auto
  have "sum_list (map li_signedAmountPaise (filter (\<lambda>e. li_bookingId e = k) ps)) = (if k = b then p else 0)"
    using ps(2,3) by (auto simp: filter_False)
  then have "balanceInTx c k d' = balanceInTx c k d + (if k = b then p else 0)"
    using posted_balance [OF ps(1), of k] by simp
  moreover have "0 \<le> p"
    unfolding ps(2) [symmetric] using ps(3) by (intro sum_list_nonneg) auto
  moreover have "e \<in> set (ledger d) \<or> le_bookingId e = b \<and> le_entryType e = INTEREST \<and> 0 < le_signedAmountPaise e"
    if "e \<in> set (ledger d')" for e
    using posted_new_rows [OF ps(1) that] ps(3) by auto
  moreover have "installments d' = installments d" by (simp add: d')
  ultimately show ?thesis using run(4) by auto
qed

text \<open>What one installment is charged, in closed form.\<close>

lemma accrual_for_amount:
  assumes "accrual_for c rule asOf i d = Inr (Some (cursor, base, delta))"
  shows "delta = half_away (base * math_round (ir_ratePercent rule * 100) * (utc_day asOf - utc_day cursor)) 3650000 \<and>
    0 < delta \<and> utc_day cursor < utc_day asOf \<and>
    base = in_amountPaise i - in_allocatedPaise i +
      (if ir_rateType rule = COMPOUND then sum_list (map ia_accruedPaise (prior_accruals c (in_id i) d)) else 0)"
  using assms by (auto simp: accrual_for_def Let_def roundedDiv_pos daysBetween_eq split: if_splits)

section \<open>A concrete run\<close>

definition demo_later :: date where
  "demo_later = demo_day + 30 * DAY_MS"

lemma demo_accrual_succeeds: "\<not> isl (accrueForBooking 1 40 demo_later demo_sold)"
  by code_simp

theorem accrueForBooking_idempotent_witness:
  "\<exists>r d'. accrueForBooking 1 40 demo_later demo_sold = Inr (r, d') \<and>
     accrueForBooking 1 40 (demo_later + 3600000) d' =
       Inr (\<lparr>ac_bookingId = 40, ac_postedPaise = 0, ac_installmentsAccrued = 0\<rparr>, d')"
proof -
  obtain r d' where r: "accrueForBooking 1 40 demo_later demo_sold = Inr (r, d')"
    using not_isl_Inr [OF demo_accrual_succeeds] by auto
  have "distinct (map in_id (installments demo_sold))"
    using demo_plan_premises(5) by (simp add: installments_ok_def)
  moreover have "utc_day (demo_later + 3600000) = utc_day demo_later" by code_simp
  ultimately show ?thesis using accrueForBooking_idempotent [OF r] r by blast
qed

theorem accrueForBooking_posts_reported_witness:
  "\<exists>r d'. accrueForBooking 1 40 demo_later demo_sold = Inr (r, d') \<and>
     balanceInTx 1 40 d' = balanceInTx 1 40 demo_sold + ac_postedPaise r"
proof -
  obtain r d' where r: "accrueForBooking 1 40 demo_later demo_sold = Inr (r, d')"
    using not_isl_Inr [OF demo_accrual_succeeds] by auto
  from accrueForBooking_posts_reported [OF r, of 40] r show ?thesis by auto
qed

end
