(* ===== verification/Refund.thy ===== *)
theory Refund
  imports Interest
begin

text \<open>
  \<open>apps/api/src/postsales/refund.service.ts\<close>: request, approve and pay a refund, and the
  bounce of a refund cheque. Approval posts the debit that discharges what the company
  owes; paying only records the voucher. The workflow is an instance of the
  \<open>status_machine\<close> contract. The clock is the argument \<open>now\<close>.
\<close>

section \<open>Requests\<close>

record request_refund_dto =
  rq_amountPaise :: int
  rq_mode :: "receipt_mode option"

record pay_refund_dto =
  pr_mode :: receipt_mode
  pr_bankId :: "id option"
  pr_instrumentNumber :: "string option"
  pr_instrumentDate :: "date option"

definition requestRefundSchema :: "request_refund_dto \<Rightarrow> bool" where
  "requestRefundSchema dto \<longleftrightarrow> 1 \<le> rq_amountPaise dto"

section \<open>Operations\<close>

definition find_refund :: "id \<Rightarrow> id \<Rightarrow> db \<Rightarrow> refund option" where
  "find_refund companyId i d = List.find (\<lambda>r. rf_id r = i \<and> rf_companyId r = companyId) (refunds d)"

definition find_voucher :: "id \<Rightarrow> id \<Rightarrow> db \<Rightarrow> payment_voucher option" where
  "find_voucher companyId i d = List.find (\<lambda>r. pv_id r = i \<and> pv_companyId r = companyId) (vouchers d)"

definition request_refund ::
  "id \<Rightarrow> id \<Rightarrow> request_refund_dto \<Rightarrow> id option \<Rightarrow> db \<Rightarrow> (refund \<times> db) result" where
  "request_refund companyId bookingId dto actorId d =
     bindE (orFail (NotFound ''Booking not found'') (find_booking companyId bookingId d)) (\<lambda>_.
     let balance = balanceInTx companyId bookingId d;
         owedToCustomer = (if balance < 0 then - balance else 0) in
     bindE (ensure (\<not> rq_amountPaise dto > owedToCustomer)
              (BadRequest ''Refund exceeds the amount owed to the customer'')) (\<lambda>_.
     let r = \<lparr>rf_id = next_id d, rf_companyId = companyId, rf_bookingId = bookingId,
              rf_amountPaise = rq_amountPaise dto, rf_status = REFUND_REQUESTED, rf_mode = rq_mode dto,
              rf_approvedById = None, rf_approvedAt = None, rf_createdById = actorId\<rparr>
     in Inr (r, add_refund r d)))"

definition approval_entry :: "refund \<Rightarrow> date \<Rightarrow> id option \<Rightarrow> ledger_input" where
  "approval_entry r now actorId =
     (entry_in (rf_bookingId r) REFUND_APPROVED (rf_amountPaise r) now)
       \<lparr>li_reason := Some ''Refund approved'', li_createdById := actorId\<rparr>"

definition approve_refund :: "id \<Rightarrow> id \<Rightarrow> date \<Rightarrow> id option \<Rightarrow> db \<Rightarrow> (refund \<times> db) result" where
  "approve_refund companyId refundId now actorId d =
     bindE (orFail (NotFound ''Refund not found'') (find_refund companyId refundId d)) (\<lambda>r.
     bindE (ensure (rf_status r = REFUND_REQUESTED) (Conflict ''only REQUESTED can be approved'')) (\<lambda>_.
     let d1 = snd (post companyId [approval_entry r now actorId] d);
         f = (\<lambda>r. r\<lparr>rf_status := REFUND_APPROVED_STATUS, rf_approvedById := actorId, rf_approvedAt := Some now\<rparr>)
     in Inr (f r, upd_refund companyId refundId f d1)))"

definition refund_voucher :: "id \<Rightarrow> id \<Rightarrow> refund \<Rightarrow> pay_refund_dto \<Rightarrow> id option \<Rightarrow> payment_voucher" where
  "refund_voucher new companyId r dto actorId =
     \<lparr>pv_id = new, pv_companyId = companyId, pv_bookingId = rf_bookingId r, pv_refundId = Some (rf_id r),
      pv_amountPaise = rf_amountPaise r, pv_mode = pr_mode dto, pv_bankId = pr_bankId dto,
      pv_instrumentNumber = pr_instrumentNumber dto,
      pv_instrumentDate = map_option date_column (pr_instrumentDate dto),
      pv_status = VOUCHER_ISSUED, pv_createdById = actorId\<rparr>"

definition pay_refund :: "id \<Rightarrow> id \<Rightarrow> pay_refund_dto \<Rightarrow> id option \<Rightarrow> db \<Rightarrow> (payment_voucher \<times> db) result" where
  "pay_refund companyId refundId dto actorId d =
     bindE (orFail (NotFound ''Refund not found'') (find_refund companyId refundId d)) (\<lambda>r.
     bindE (ensure (rf_status r = REFUND_APPROVED_STATUS) (Conflict ''only APPROVED can be paid'')) (\<lambda>_.
     let v = refund_voucher (next_id d) companyId r dto actorId
     in Inr (v, upd_refund companyId refundId (\<lambda>r. r\<lparr>rf_status := REFUND_PAID\<rparr>) (add_voucher v d))))"

definition bounce_entries :: "payment_voucher \<Rightarrow> int \<Rightarrow> date \<Rightarrow> id option \<Rightarrow> ledger_input list" where
  "bounce_entries v bounceCharge now actorId =
     (entry_in (pv_bookingId v) REFUND_BOUNCE_REVERSAL (- pv_amountPaise v) now)
        \<lparr>li_reason := Some ''Refund cheque bounced'', li_createdById := actorId\<rparr> #
     (if bounceCharge > 0 then
        [(entry_in (pv_bookingId v) BOUNCE_CHARGE bounceCharge now)
           \<lparr>li_reason := Some ''Refund cheque bounce charge'', li_createdById := actorId\<rparr>]
      else [])"

definition voucherBounced :: "id \<Rightarrow> id \<Rightarrow> date \<Rightarrow> id option \<Rightarrow> db \<Rightarrow> (id \<times> db) result" where
  "voucherBounced companyId voucherId now actorId d =
     bindE (orFail (NotFound ''Payment voucher not found'') (find_voucher companyId voucherId d)) (\<lambda>v.
     bindE (ensure (pv_status v = VOUCHER_ISSUED) (Conflict ''Voucher is not ISSUED'')) (\<lambda>_.
     let d1 = snd (post companyId (bounce_entries v (bounce_charge companyId d) now actorId) d);
         d2 = upd_voucher companyId voucherId (\<lambda>v. v\<lparr>pv_status := VOUCHER_BOUNCED\<rparr>) d1;
         d3 = (case pv_refundId v of
                 None \<Rightarrow> d2
               | Some i \<Rightarrow> upd_refund companyId i (\<lambda>r. r\<lparr>rf_status := REFUND_APPROVED_STATUS\<rparr>) d2)
     in Inr (voucherId, d3)))"

section \<open>The workflow\<close>

definition refund_status_of :: "id \<Rightarrow> id \<Rightarrow> db \<Rightarrow> refund_status option" where
  "refund_status_of c i d = map_option rf_status (find_refund c i d)"

definition refund_move ::
  "id \<Rightarrow> pay_refund_dto \<Rightarrow> date \<Rightarrow> id option \<Rightarrow> id \<Rightarrow> refund_status \<Rightarrow> db \<Rightarrow> db result" where
  "refund_move c dto now actor i t d =
     (case t of
        REFUND_APPROVED_STATUS \<Rightarrow> bindE (approve_refund c i now actor d) (\<lambda>(_, d'). Inr d')
      | REFUND_PAID \<Rightarrow> bindE (pay_refund c i dto actor d) (\<lambda>(_, d'). Inr d')
      | _ \<Rightarrow> Inl (BadRequest ''no such operation''))"

fun refund_edge :: "refund_status \<Rightarrow> refund_status \<Rightarrow> bool" where
  "refund_edge REFUND_REQUESTED REFUND_APPROVED_STATUS = True"
| "refund_edge REFUND_APPROVED_STATUS REFUND_PAID = True"
| "refund_edge _ _ = False"

lemma find_refund_upd:
  assumes "\<And>r. rf_id (f r) = rf_id r" and "\<And>r. rf_companyId (f r) = rf_companyId r"
  shows "find_refund c k (upd_refund c i f d) = map_option (\<lambda>r. if k = i then f r else r) (find_refund c k d)"
proof -
  have "find_refund c k (upd_refund c i f d) =
      map_option (\<lambda>r. if rf_companyId r = c \<and> rf_id r = i then f r else r) (find_refund c k d)"
    unfolding find_refund_def upd_refund_def using assms by (simp add: find_update_rows)
  then show ?thesis
    by (cases "find_refund c k d") (auto simp: find_refund_def dest!: find_SomeD)
qed

lemma find_refund_frame [simp]:
  "find_refund c k (snd (post c' es d)) = find_refund c k d"
  "find_refund c k (add_voucher v d) = find_refund c k d"
  "find_refund c k (upd_voucher c' i g d) = find_refund c k d"
  by (simp_all add: find_refund_def post_eq add_voucher_def upd_voucher_def)

lemma approve_refund_Inr:
  "approve_refund c i now actor d = Inr (r', d') \<longleftrightarrow>
   (\<exists>r. find_refund c i d = Some r \<and> rf_status r = REFUND_REQUESTED \<and>
     r' = r\<lparr>rf_status := REFUND_APPROVED_STATUS, rf_approvedById := actor, rf_approvedAt := Some now\<rparr> \<and>
     d' = upd_refund c i
       (\<lambda>r. r\<lparr>rf_status := REFUND_APPROVED_STATUS, rf_approvedById := actor, rf_approvedAt := Some now\<rparr>)
       (snd (post c [approval_entry r now actor] d)))"
  by (auto simp: approve_refund_def Let_def)

lemma pay_refund_Inr:
  "pay_refund c i dto actor d = Inr (v, d') \<longleftrightarrow>
   (\<exists>r. find_refund c i d = Some r \<and> rf_status r = REFUND_APPROVED_STATUS \<and>
     v = refund_voucher (next_id d) c r dto actor \<and>
     d' = upd_refund c i (\<lambda>r. r\<lparr>rf_status := REFUND_PAID\<rparr>) (add_voucher v d))"
  by (auto simp: pay_refund_def Let_def)

interpretation refund_workflow: status_machine "refund_status_of c" "refund_move c dto now actor" refund_edge
  for c dto now actor
proof unfold_locales
  fix k k' t s s'
  assume "refund_move c dto now actor k t s = Inr s'"
  then show "\<exists>f. refund_status_of c k s = Some f \<and> refund_edge f t"
    "refund_status_of c k s' = Some t"
    "k' \<noteq> k \<Longrightarrow> refund_status_of c k' s' = refund_status_of c k' s"
    by (cases t; auto simp: refund_move_def approve_refund_Inr pay_refund_Inr refund_status_of_def find_refund_upd
        option.map_comp o_def cong: map_option_cong)+
qed

section \<open>The effect on the ledger\<close>

lemma balance_refund_frame [simp]:
  "balanceInTx c b (upd_refund c' i f d) = balanceInTx c b d"
  "balanceInTx c b (add_refund r d) = balanceInTx c b d"
  "balanceInTx c b (add_voucher v d) = balanceInTx c b d"
  "balanceInTx c b (upd_voucher c' i g d) = balanceInTx c b d"
  by (simp_all add: balanceInTx_def upd_refund_def add_refund_def add_voucher_def upd_voucher_def)

lemma approve_refund_balance:
  assumes "approve_refund c i now actor d = Inr (r', d')" and "find_refund c i d = Some r"
  shows "balanceInTx c b d' = balanceInTx c b d + (if b = rf_bookingId r then rf_amountPaise r else 0)"
  using assms booking_ledger.balance_single [of c b "approval_entry r now actor" d]
  by (auto simp: approve_refund_Inr approval_entry_def)

lemma pay_refund_balance:
  "pay_refund c i dto actor d = Inr (v, d') \<Longrightarrow> balanceInTx c b d' = balanceInTx c b d \<and> ledger d' = ledger d"
  by (auto simp: pay_refund_Inr) (simp add: upd_refund_def add_voucher_def)

lemma voucherBounced_balance:
  assumes "voucherBounced c k now actor d = Inr (x, d')"
  shows "\<exists>v. find_voucher c k d = Some v \<and> pv_status v = VOUCHER_ISSUED \<and>
    balanceInTx c b d' = balanceInTx c b d +
      (if b = pv_bookingId v then - pv_amountPaise v + (if bounce_charge c d > 0 then bounce_charge c d else 0) else 0)"
proof -
  obtain v where v: "find_voucher c k d = Some v" "pv_status v = VOUCHER_ISSUED"
    using assms by (auto simp: voucherBounced_def)
  let ?es = "bounce_entries v (bounce_charge c d) now actor"
  have "balanceInTx c b d' = balanceInTx c b (snd (post c ?es d))"
    using assms v by (auto simp: voucherBounced_def Let_def split: option.split)
  then show ?thesis
    using v booking_ledger.balance_append [of c b ?es d] by (simp add: bounce_entries_def)
qed

section \<open>A refund from request to payment\<close>

definition refund_ids_ok :: "db \<Rightarrow> bool" where
  "refund_ids_ok d \<longleftrightarrow>
     list_all (\<lambda>r. rf_id r < next_id d) (refunds d) \<and> list_all (\<lambda>v. pv_id v < next_id d) (vouchers d)"

lemma approve_refund_ids_ok:
  assumes "approve_refund c i now actor d = Inr (r', d')" and "refund_ids_ok d"
  shows "refund_ids_ok d'"
proof -
  have "rf_id x < next_id d + 1" if "x \<in> set (update_rows p f (refunds d))" "\<And>r. rf_id (f r) = rf_id r" for x p f
    using that assms(2) by (fastforce simp: set_update_rows refund_ids_ok_def list_all_iff)
  moreover have "pv_id v < next_id d + 1" if "v \<in> set (vouchers d)" for v
    using that assms(2) by (fastforce simp: refund_ids_ok_def list_all_iff)
  ultimately show ?thesis
    using assms(1) by (auto simp: approve_refund_Inr refund_ids_ok_def upd_refund_def post_eq list_all_iff)
qed

lemma request_refund_Inr:
  "request_refund c b dto actor d = Inr (r, d') \<longleftrightarrow>
   find_booking c b d \<noteq> None \<and> rq_amountPaise dto \<le> max 0 (- balanceInTx c b d) \<and>
   r = \<lparr>rf_id = next_id d, rf_companyId = c, rf_bookingId = b, rf_amountPaise = rq_amountPaise dto,
        rf_status = REFUND_REQUESTED, rf_mode = rq_mode dto, rf_approvedById = None, rf_approvedAt = None,
        rf_createdById = actor\<rparr> \<and>
   d' = add_refund r d"
  by (auto simp: request_refund_def Let_def)

lemma find_refund_add:
  assumes "refund_ids_ok d" and "rf_id r = next_id d" and "rf_companyId r = c"
  shows "find_refund c k (add_refund r d) = (if k = next_id d then Some r else find_refund c k d)"
  using assms by (auto simp: find_refund_def add_refund_def find_append refund_ids_ok_def list_all_iff
      split: option.split dest!: find_SomeD)

lemma find_voucher_pay:
  assumes "pay_refund c i dto actor d = Inr (v, d')" and "refund_ids_ok d"
  shows "find_voucher c (pv_id v) d' = Some v"
proof -
  have "find_voucher c (next_id d) d' = Some v" if "vouchers d' = vouchers d @ [v]" "pv_id v = next_id d" "pv_companyId v = c"
    using that assms(2) by (auto simp: find_voucher_def find_append refund_ids_ok_def list_all_iff
        split: option.split dest!: find_SomeD)
  then show ?thesis
    using assms(1) by (auto simp: pay_refund_Inr upd_refund_def add_voucher_def refund_voucher_def)
qed

text \<open>
  Refunds are two-phase. A request is granted only up to what the company owes and
  posts nothing; its approval moves the booking's balance by exactly the refund and cannot
  be repeated; the payment issues a voucher for the same amount and posts nothing.
\<close>

theorem refund_two_phases:
  assumes "request_refund c b dto actor d = Inr (r, d1)" and "refund_ids_ok d"
    and "approve_refund c (rf_id r) now actor2 d1 = Inr (r', d2)"
    and "pay_refund c (rf_id r) pdto actor3 d2 = Inr (v, d3)"
  shows "rq_amountPaise dto \<le> max 0 (- balanceInTx c b d) \<and> ledger d1 = ledger d \<and>
    balanceInTx c b d2 = balanceInTx c b d + rq_amountPaise dto \<and>
    (\<exists>e. approve_refund c (rf_id r) now actor2 d2 = Inl e) \<and>
    ledger d3 = ledger d2 \<and> pv_amountPaise v = rq_amountPaise dto \<and> pv_bookingId v = b"
proof -
  have r: "rf_id r = next_id d" "rf_bookingId r = b" "rf_amountPaise r = rq_amountPaise dto" "rf_companyId r = c"
    "rq_amountPaise dto \<le> max 0 (- balanceInTx c b d)" and d1: "d1 = add_refund r d"
    using assms(1) by (auto simp: request_refund_Inr)
  have f1: "find_refund c (rf_id r) d1 = Some r"
    using find_refund_add [OF assms(2) r(1) r(4)] r(1) by (simp add: d1)
  have f2: "find_refund c (rf_id r) d2 = Some r'" and r': "rf_status r' = REFUND_APPROVED_STATUS"
      "rf_bookingId r' = b" "rf_amountPaise r' = rq_amountPaise dto"
    using assms(3) f1 r by (auto simp: approve_refund_Inr find_refund_upd)
  have "balanceInTx c b d2 = balanceInTx c b d + rq_amountPaise dto"
    using approve_refund_balance [OF assms(3) f1, of b] r by (simp add: d1)
  moreover have "\<exists>e. approve_refund c (rf_id r) now actor2 d2 = Inl e"
    using f2 r' by (simp add: approve_refund_def)
  moreover have "pv_amountPaise v = rq_amountPaise dto" "pv_bookingId v = b"
    using assms(4) f2 r' by (auto simp: pay_refund_Inr refund_voucher_def)
  moreover have "ledger d3 = ledger d2" using pay_refund_balance [OF assms(4), of c] by simp
  moreover have "ledger d1 = ledger d" by (simp add: d1 add_refund_def)
  ultimately show ?thesis using r(5) by simp
qed

text \<open>
  Only the request looks at the balance. Two requests for the whole amount owed are
  both granted, both can be approved, and the customer ends up owing the company that
  amount although only one refund was due.
\<close>

theorem two_requests_overdraw:
  assumes "find_booking c b d \<noteq> None" and "refund_ids_ok d" and "balanceInTx c b d < 0"
    and "rq_amountPaise dto = - balanceInTx c b d"
  shows "\<exists>r1 d1 r2 d2 s1 d3 s2 d4.
    request_refund c b dto actor d = Inr (r1, d1) \<and> request_refund c b dto actor d1 = Inr (r2, d2) \<and>
    approve_refund c (rf_id r1) now actor d2 = Inr (s1, d3) \<and>
    approve_refund c (rf_id r2) now actor d3 = Inr (s2, d4) \<and>
    balanceInTx c b d4 = rq_amountPaise dto"
proof -
  obtain r1 d1 where q1: "request_refund c b dto actor d = Inr (r1, d1)"
    using assms(1,3,4) by (auto simp: request_refund_Inr)
  have r1: "rf_id r1 = next_id d" "rf_bookingId r1 = b" "rf_companyId r1 = c" "rf_status r1 = REFUND_REQUESTED"
      "rf_amountPaise r1 = rq_amountPaise dto" and d1: "d1 = add_refund r1 d"
    using q1 by (auto simp: request_refund_Inr)
  have ok1: "refund_ids_ok d1"
    using assms(2) r1(1) by (auto simp: d1 refund_ids_ok_def add_refund_def list_all_iff less_SucI)
  have n1: "next_id d1 = next_id d + 1" by (simp add: d1 add_refund_def)
  have "find_booking c b d1 = find_booking c b d" by (simp add: d1 add_refund_def find_booking_def)
  then obtain r2 d2 where q2: "request_refund c b dto actor d1 = Inr (r2, d2)"
    using assms(1,3,4) by (auto simp: request_refund_Inr d1)
  have r2: "rf_id r2 = next_id d + 1" "rf_bookingId r2 = b" "rf_companyId r2 = c" "rf_status r2 = REFUND_REQUESTED"
      "rf_amountPaise r2 = rq_amountPaise dto" and d2: "d2 = add_refund r2 d1"
    using q2 n1 by (auto simp: request_refund_Inr)
  have f1: "find_refund c (rf_id r1) d2 = Some r1"
    using find_refund_add [OF ok1, of r2 c "rf_id r1"] find_refund_add [OF assms(2) r1(1,3), of "rf_id r1"]
      r1 r2 n1 by (simp add: d2 d1)
  have f2: "find_refund c (rf_id r2) d2 = Some r2"
    using find_refund_add [OF ok1, of r2 c "rf_id r2"] r2 n1 by (simp add: d2)
  obtain s1 d3 where a1: "approve_refund c (rf_id r1) now actor d2 = Inr (s1, d3)"
    using f1 r1(4) by (auto simp: approve_refund_Inr)
  have f2': "find_refund c (rf_id r2) d3 = Some r2"
    using a1 f2 r1(1) r2(1) by (auto simp: approve_refund_Inr find_refund_upd)
  obtain s2 d4 where a2: "approve_refund c (rf_id r2) now actor d3 = Inr (s2, d4)"
    using f2' r2(4) by (auto simp: approve_refund_Inr)
  have "balanceInTx c b d4 = rq_amountPaise dto"
    using approve_refund_balance [OF a1 f1, of b] approve_refund_balance [OF a2 f2', of b] r1 r2 assms(4)
    by (simp add: d2 d1)
  with q1 q2 a1 a2 show ?thesis by blast
qed

text \<open>
  A refund paid again after its cheque bounced stays owed in the ledger. The bounce
  takes the approval's debit back and returns the refund to APPROVED; the second payment
  posts nothing, so the balance is the one before the approval (plus the bounce charge).
\<close>

theorem repaid_refund_still_owed:
  assumes "find_refund c i d = Some r" and "rf_status r = REFUND_REQUESTED" and "refund_ids_ok d"
    and "0 \<le> bounce_charge c d"
    and "approve_refund c i now actor d = Inr (r', d1)" and "pay_refund c i dto actor d1 = Inr (v, d2)"
    and "voucherBounced c (pv_id v) now actor d2 = Inr (x, d3)" and "pay_refund c i dto actor d3 = Inr (w, d4)"
  shows "balanceInTx c (rf_bookingId r) d4 = balanceInTx c (rf_bookingId r) d + bounce_charge c d \<and>
    pv_amountPaise w = rf_amountPaise r \<and> refund_status_of c i d4 = Some REFUND_PAID"
proof -
  have same: "rf_id r = i" using assms(1) by (auto simp: find_refund_def dest: find_SomeD)
  have f1: "find_refund c i d1 = Some r'" and r': "rf_bookingId r' = rf_bookingId r" "rf_amountPaise r' = rf_amountPaise r"
    "rf_id r' = i"
    using assms(1,5) same by (auto simp: approve_refund_Inr find_refund_upd)
  have ok1: "refund_ids_ok d1" by (rule approve_refund_ids_ok [OF assms(5,3)])
  have v: "pv_bookingId v = rf_bookingId r" "pv_amountPaise v = rf_amountPaise r" "pv_refundId v = Some i"
    using assms(6) f1 r' by (auto simp: pay_refund_Inr refund_voucher_def)
  have fv: "find_voucher c (pv_id v) d2 = Some v" by (rule find_voucher_pay [OF assms(6) ok1])
  have f2: "find_refund c i d2 = Some (r'\<lparr>rf_status := REFUND_PAID\<rparr>)"
    using assms(6) f1 by (auto simp: pay_refund_Inr find_refund_upd)
  have f3: "find_refund c i d3 = Some (r'\<lparr>rf_status := REFUND_APPROVED_STATUS\<rparr>)"
    using assms(7) fv v(3) f2 by (auto simp: voucherBounced_def Let_def find_refund_upd)
  have bc: "bounce_charge c d2 = bounce_charge c d"
    using assms(5,6) by (auto simp: approve_refund_Inr pay_refund_Inr bounce_charge_def find_config_def
        upd_refund_def post_eq add_voucher_def)
  have "balanceInTx c (rf_bookingId r) d4 = balanceInTx c (rf_bookingId r) d + bounce_charge c d"
    using approve_refund_balance [OF assms(5,1), of "rf_bookingId r"] pay_refund_balance [OF assms(6), of "rf_bookingId r"]
      voucherBounced_balance [OF assms(7), of "rf_bookingId r"] pay_refund_balance [OF assms(8), of "rf_bookingId r"]
      fv v bc assms(4) by auto
  moreover have "pv_amountPaise w = rf_amountPaise r" "refund_status_of c i d4 = Some REFUND_PAID"
    using assms(8) f3 r' by (auto simp: pay_refund_Inr refund_voucher_def refund_status_of_def find_refund_upd)
  ultimately show ?thesis by simp
qed

section \<open>Concrete refunds\<close>

text \<open>The demo booking with 900.00 more paid than charged.\<close>

definition demo_owed :: db where
  "demo_owed = demo_sold\<lparr>ledger := ledger demo_sold @ [demo_entry 48 ADJUSTMENT (- 200900)]\<rparr>"

definition demo_refund_dto :: request_refund_dto where
  "demo_refund_dto = \<lparr>rq_amountPaise = 90000, rq_mode = None\<rparr>"

definition demo_pay_dto :: pay_refund_dto where
  "demo_pay_dto = \<lparr>pr_mode = NEFT, pr_bankId = None, pr_instrumentNumber = None, pr_instrumentDate = None\<rparr>"

definition demo_refund :: refund where
  "demo_refund = \<lparr>rf_id = 50, rf_companyId = 1, rf_bookingId = 40, rf_amountPaise = 90000,
     rf_status = REFUND_REQUESTED, rf_mode = None, rf_approvedById = None, rf_approvedAt = None,
     rf_createdById = None\<rparr>"

definition demo_requested :: db where
  "demo_requested = demo_owed\<lparr>refunds := [demo_refund]\<rparr>"

lemma demo_refund_premises:
  "\<not> isl (request_refund 1 40 demo_refund_dto None demo_owed)"
  "refund_ids_ok demo_owed" "refund_ids_ok demo_requested"
  "find_booking 1 40 demo_owed \<noteq> None" "balanceInTx 1 40 demo_owed = - 90000"
  "bounce_charge 1 demo_requested = 50000" "find_refund 1 50 demo_requested = Some demo_refund"
  by code_simp+

theorem refund_two_phases_witness:
  "\<exists>r d1 r' d2 v d3. request_refund 1 40 demo_refund_dto None demo_owed = Inr (r, d1) \<and>
     approve_refund 1 (rf_id r) demo_day None d1 = Inr (r', d2) \<and>
     pay_refund 1 (rf_id r) demo_pay_dto None d2 = Inr (v, d3) \<and> balanceInTx 1 40 d2 = 0 \<and> ledger d3 = ledger d2"
proof -
  obtain r d1 where q: "request_refund 1 40 demo_refund_dto None demo_owed = Inr (r, d1)"
    using not_isl_Inr [OF demo_refund_premises(1)] by auto
  then have r: "rf_id r = next_id demo_owed" "rf_companyId r = 1" "rf_status r = REFUND_REQUESTED"
    and d1: "d1 = add_refund r demo_owed" by (auto simp: request_refund_Inr)
  have f1: "find_refund 1 (rf_id r) d1 = Some r"
    using find_refund_add [OF demo_refund_premises(2) r(1,2)] r(1) by (simp add: d1)
  then obtain r' d2 where a: "approve_refund 1 (rf_id r) demo_day None d1 = Inr (r', d2)"
    using r(3) by (auto simp: approve_refund_Inr simp del: One_nat_def)
  then have "find_refund 1 (rf_id r) d2 = Some r'" "rf_status r' = REFUND_APPROVED_STATUS"
    using f1 by (auto simp: approve_refund_Inr find_refund_upd simp del: One_nat_def)
  then obtain v d3 where p: "pay_refund 1 (rf_id r) demo_pay_dto None d2 = Inr (v, d3)"
    by (auto simp: pay_refund_Inr simp del: One_nat_def)
  have "rq_amountPaise demo_refund_dto = 90000" by (simp add: demo_refund_dto_def)
  then show ?thesis
    using refund_two_phases [OF q demo_refund_premises(2) a p] q a p demo_refund_premises(5)
    by (auto simp del: One_nat_def)
qed

theorem two_requests_overdraw_witness:
  "\<exists>r1 d1 r2 d2 s1 d3 s2 d4.
    request_refund 1 40 demo_refund_dto None demo_owed = Inr (r1, d1) \<and>
    request_refund 1 40 demo_refund_dto None d1 = Inr (r2, d2) \<and>
    approve_refund 1 (rf_id r1) demo_day None d2 = Inr (s1, d3) \<and>
    approve_refund 1 (rf_id r2) demo_day None d3 = Inr (s2, d4) \<and> balanceInTx 1 40 d4 = 90000"
proof -
  have amount: "rq_amountPaise demo_refund_dto = 90000" by (simp add: demo_refund_dto_def)
  have "balanceInTx 1 40 demo_owed < 0" "rq_amountPaise demo_refund_dto = - balanceInTx 1 40 demo_owed"
    using demo_refund_premises(5) amount by simp_all
  from two_requests_overdraw [OF demo_refund_premises(4,2) this, of None demo_day] show ?thesis
    unfolding amount .
qed

theorem repaid_refund_still_owed_witness:
  "\<exists>r' d1 v d2 x d3 w d4.
    approve_refund 1 50 demo_day None demo_requested = Inr (r', d1) \<and>
    pay_refund 1 50 demo_pay_dto None d1 = Inr (v, d2) \<and>
    voucherBounced 1 (pv_id v) demo_day None d2 = Inr (x, d3) \<and>
    pay_refund 1 50 demo_pay_dto None d3 = Inr (w, d4) \<and>
    balanceInTx 1 40 d4 = balanceInTx 1 40 demo_requested + 50000"
proof -
  have st: "rf_status demo_refund = REFUND_REQUESTED" and b: "rf_bookingId demo_refund = 40"
    by (simp_all add: demo_refund_def)
  obtain r' d1 where a: "approve_refund 1 50 demo_day None demo_requested = Inr (r', d1)"
    using demo_refund_premises(7) st by (auto simp: approve_refund_Inr simp del: One_nat_def)
  have f1: "find_refund 1 50 d1 = Some r'" "rf_status r' = REFUND_APPROVED_STATUS" "rf_id r' = 50"
    using a demo_refund_premises(7) by (auto simp: approve_refund_Inr find_refund_upd demo_refund_def simp del: One_nat_def)
  then obtain v d2 where p: "pay_refund 1 50 demo_pay_dto None d1 = Inr (v, d2)"
    by (auto simp: pay_refund_Inr simp del: One_nat_def)
  have ok1: "refund_ids_ok d1" by (rule approve_refund_ids_ok [OF a demo_refund_premises(3)])
  have fv: "find_voucher 1 (pv_id v) d2 = Some v" by (rule find_voucher_pay [OF p ok1])
  have v: "pv_status v = VOUCHER_ISSUED" "pv_refundId v = Some 50"
    using p f1 by (auto simp: pay_refund_Inr refund_voucher_def simp del: One_nat_def)
  obtain x d3 where bo: "voucherBounced 1 (pv_id v) demo_day None d2 = Inr (x, d3)"
    using fv v by (auto simp: voucherBounced_def Let_def simp del: One_nat_def)
  have "find_refund 1 50 d2 = Some (r'\<lparr>rf_status := REFUND_PAID\<rparr>)"
    using p f1 by (auto simp: pay_refund_Inr find_refund_upd simp del: One_nat_def)
  then have "find_refund 1 50 d3 = Some (r'\<lparr>rf_status := REFUND_APPROVED_STATUS\<rparr>)"
    using bo fv v by (auto simp: voucherBounced_def Let_def find_refund_upd simp del: One_nat_def)
  then obtain w d4 where "pay_refund 1 50 demo_pay_dto None d3 = Inr (w, d4)"
    by (auto simp: pay_refund_Inr simp del: One_nat_def)
  with repaid_refund_still_owed [OF demo_refund_premises(7) st demo_refund_premises(3) _ a p bo]
    a p bo b demo_refund_premises(6) show ?thesis by (metis order_less_imp_le zero_less_numeral)
qed

end
