(* ===== verification/ExtraCharge.thy ===== *)
theory ExtraCharge
  imports Booking
begin

text \<open>
  \<open>apps/api/src/postsales/extra-charge.service.ts\<close>: a further charge on a booking. The
  GST rate is the request's, else the charge type's, else none (0 percent), and it is
  copied into the row.
\<close>

record extra_charge_dto =
  xd_chargeTypeId :: "id option"
  xd_label :: string
  xd_baseAmountPaise :: int
  xd_gstRateId :: "id option"
  xd_effectiveDate :: "date option"

definition extraChargeSchema :: "extra_charge_dto \<Rightarrow> bool" where
  "extraChargeSchema dto \<longleftrightarrow>
     1 \<le> length (xd_label dto) \<and> length (xd_label dto) \<le> 255 \<and> 0 \<le> xd_baseAmountPaise dto"

text \<open>A charge type that does not exist counts as one without a rate.\<close>

definition extra_charge_rate_id :: "id \<Rightarrow> extra_charge_dto \<Rightarrow> db \<Rightarrow> id option" where
  "extra_charge_rate_id companyId dto d =
     (case (xd_gstRateId dto, xd_chargeTypeId dto) of
        (None, Some ct) \<Rightarrow> (case find_charge_type companyId ct d of None \<Rightarrow> None | Some r \<Rightarrow> ct_gstRateId r)
      | (own, _) \<Rightarrow> own)"

definition extra_charge_rate :: "id \<Rightarrow> id option \<Rightarrow> db \<Rightarrow> number result" where
  "extra_charge_rate companyId gstRateId d =
     (case gstRateId of
        None \<Rightarrow> Inr 0
      | Some g \<Rightarrow> bindE (orFail (NotFound ''GST rate not found'') (find_gst_rate companyId g d))
                   (\<lambda>gr. Inr (gr_rate gr)))"

definition extra_charge_row ::
  "id \<Rightarrow> id \<Rightarrow> id \<Rightarrow> extra_charge_dto \<Rightarrow> id option \<Rightarrow> number \<Rightarrow> cost_line_gst \<Rightarrow> id option \<Rightarrow> extra_charge" where
  "extra_charge_row new companyId bookingId dto gstRateId ratePercent gst actorId =
     \<lparr>ec_id = new, ec_companyId = companyId, ec_bookingId = bookingId,
      ec_chargeTypeId = xd_chargeTypeId dto, ec_label = xd_label dto,
      ec_baseAmountPaise = xd_baseAmountPaise dto, ec_gstRateId = gstRateId,
      ec_gstRatePercentSnapshot = ratePercent, ec_cgstPaise = cgstPaise gst,
      ec_sgstPaise = sgstPaise gst, ec_igstPaise = igstPaise gst,
      ec_lineTotalPaise = lineTotalPaise gst, ec_createdById = actorId\<rparr>"

definition extra_charge_entry ::
  "id \<Rightarrow> extra_charge_dto \<Rightarrow> int \<Rightarrow> date \<Rightarrow> id option \<Rightarrow> ledger_input" where
  "extra_charge_entry bookingId dto amount now actorId =
     (entry_in bookingId EXTRA_CHARGE amount
        (case xd_effectiveDate dto of None \<Rightarrow> now | Some e \<Rightarrow> e))
        \<lparr>li_reason := Some (xd_label dto), li_createdById := actorId\<rparr>"

definition addExtraCharge ::
  "id \<Rightarrow> id \<Rightarrow> extra_charge_dto \<Rightarrow> date \<Rightarrow> id option \<Rightarrow> db \<Rightarrow> (extra_charge \<times> db) result" where
  "addExtraCharge companyId bookingId dto now actorId d =
     bindE (orFail (NotFound ''Booking not found'') (find_booking companyId bookingId d)) (\<lambda>b.
     bindE (intraStateOrBadRequest (gst_state_code companyId d) (bk_placeOfSupplyStateCode b)) (\<lambda>intraState.
     let gstRateId = extra_charge_rate_id companyId dto d in
     bindE (extra_charge_rate companyId gstRateId d) (\<lambda>ratePercent.
     bindE (computeCostLineGst (xd_baseAmountPaise dto) ratePercent intraState) (\<lambda>gst.
     let extra = extra_charge_row (next_id d) companyId bookingId dto gstRateId ratePercent gst actorId;
         d1 = add_extra_charge extra d;
         d2 = snd (post companyId [extra_charge_entry bookingId dto (lineTotalPaise gst) now actorId] d1)
     in Inr (extra, d2)))))"

section \<open>Effect\<close>

declare post.simps [simp del]

lemma addExtraCharge_Inr:
  "addExtraCharge c b dto now actor d = Inr (x, d') \<longleftrightarrow>
     (\<exists>bk intra rate gst. find_booking c b d = Some bk \<and>
        intraStateOrBadRequest (gst_state_code c d) (bk_placeOfSupplyStateCode bk) = Inr intra \<and>
        extra_charge_rate c (extra_charge_rate_id c dto d) d = Inr rate \<and>
        computeCostLineGst (xd_baseAmountPaise dto) rate intra = Inr gst \<and>
        x = extra_charge_row (next_id d) c b dto (extra_charge_rate_id c dto d) rate gst actor \<and>
        d' = snd (post c [extra_charge_entry b dto (lineTotalPaise gst) now actor] (add_extra_charge x d)))"
  by (auto simp: addExtraCharge_def Let_def)

lemma extra_charge_row_simps [simp]:
  "ec_companyId (extra_charge_row n c b dto g rate gst actor) = c"
  "ec_lineTotalPaise (extra_charge_row n c b dto g rate gst actor) = lineTotalPaise gst"
  by (simp_all add: extra_charge_row_def)

lemma extra_charge_entry_simps [simp]:
  "li_bookingId (extra_charge_entry b dto a now actor) = b"
  "li_signedAmountPaise (extra_charge_entry b dto a now actor) = a"
  "li_entryType (extra_charge_entry b dto a now actor) = EXTRA_CHARGE"
  by (simp_all add: extra_charge_entry_def)

lemma computeCostLineGst_zero_rate:
  "\<exists>g. computeCostLineGst base 0 intra = Inr g \<and> lineTotalPaise g = base"
  using gstComponents_even [of 0 base intra]
  by (cases intra) (simp_all add: computeCostLineGst_def percentToBasisPoints_def half_away_def math_round_def)

lemma addExtraCharge_posted:
  assumes "addExtraCharge c b dto now actor d = Inr (x, d')"
  shows "posted c [extra_charge_entry b dto (ec_lineTotalPaise x) now actor] d d' \<and>
    (\<exists>n l. d' = d\<lparr>extraCharges := extraCharges d @ [x], ledger := l, next_id := n\<rparr>)"
proof -
  obtain r g where x: "x = extra_charge_row (next_id d) c b dto (extra_charge_rate_id c dto d) r g actor"
    and d': "d' = snd (post c [extra_charge_entry b dto (lineTotalPaise g) now actor] (add_extra_charge x d))"
    using assms unfolding addExtraCharge_Inr by blast
  have l: "ec_lineTotalPaise x = lineTotalPaise g" by (simp add: x)
  show ?thesis unfolding l d'
    by (rule conjI, rule posted_single, simp_all add: add_extra_charge_def post_eq)
      (intro exI, rule refl)
qed

lemma foreign_addExtraCharge:
  "addExtraCharge c b dto now actor d = Inr (x, d') \<Longrightarrow> foreign c d' = foreign c d"
  by (auto simp: addExtraCharge_Inr)

text \<open>
  An extra charge debits its booking with the base amount plus the tax computed at that
  moment, which the stored row keeps; no other balance moves, and without a rate on the
  request or the charge type there is no tax.
\<close>

theorem addExtraCharge_effect:
  assumes "addExtraCharge c b dto now actor d = Inr (x, d')"
  shows "balanceInTx c k d' = balanceInTx c k d + (if k = b then ec_lineTotalPaise x else 0) \<and>
    ec_lineTotalPaise x = xd_baseAmountPaise dto + ec_cgstPaise x + ec_sgstPaise x + ec_igstPaise x \<and>
    (extra_charge_rate_id c dto d = None \<longrightarrow> ec_lineTotalPaise x = xd_baseAmountPaise dto) \<and>
    extraCharges d' = extraCharges d @ [x]"
proof -
  obtain bk intra rate gst where
    rate: "extra_charge_rate c (extra_charge_rate_id c dto d) d = Inr rate"
    and gst: "computeCostLineGst (xd_baseAmountPaise dto) rate intra = Inr gst"
    and x: "x = extra_charge_row (next_id d) c b dto (extra_charge_rate_id c dto d) rate gst actor"
    using assms unfolding addExtraCharge_Inr by blast
  have zero: "lineTotalPaise gst = xd_baseAmountPaise dto" if "rate = 0"
    using gst that computeCostLineGst_zero_rate [of "xd_baseAmountPaise dto" intra] by simp
  have "rate = 0" if "extra_charge_rate_id c dto d = None"
    using rate that by (simp add: extra_charge_rate_def)
  with zero show ?thesis
    using addExtraCharge_posted [OF assms] posted_balance computeCostLineGst_total [OF gst]
    by (auto simp: x extra_charge_row_def posted_balance)
qed

definition demo_extra_dto :: extra_charge_dto where
  "demo_extra_dto = \<lparr>xd_chargeTypeId = Some 7, xd_label = ''Parking'', xd_baseAmountPaise = 1000,
     xd_gstRateId = None, xd_effectiveDate = None\<rparr>"

lemma demo_extra_succeeds: "\<not> isl (addExtraCharge 1 40 demo_extra_dto demo_day None demo_sold)"
  by code_simp

theorem addExtraCharge_effect_witness:
  "\<exists>x d'. addExtraCharge 1 40 demo_extra_dto demo_day None demo_sold = Inr (x, d') \<and>
     balanceInTx 1 40 d' = balanceInTx 1 40 demo_sold + ec_lineTotalPaise x"
proof -
  obtain x d' where r: "addExtraCharge 1 40 demo_extra_dto demo_day None demo_sold = Inr (x, d')"
    using not_isl_Inr [OF demo_extra_succeeds] by auto
  with addExtraCharge_effect [OF r, of 40] show ?thesis by auto
qed

end
