(* ===== verification/BookingTransfer.thy ===== *)
theory BookingTransfer
  imports Booking
begin

text \<open>
  \<open>apps/api/src/postsales/transfer.service.ts\<close>: moving a booking to another unit or
  another applicant. The old ledger is closed with a carry-out credit, a new booking opens
  with the equal carry-in debit. The lemmas show that no money appears or disappears over
  the two ledgers, except for the fee, and what happens to the units.
\<close>

record transfer_dto =
  xf_transferType :: transfer_type
  xf_toUnitId :: "id option"
  xf_toApplicantId :: "id option"
  xf_transferFeeRuleId :: "id option"
  xf_reason :: "string option"

definition createTransferSchema :: "transfer_dto \<Rightarrow> bool" where
  "createTransferSchema dto \<longleftrightarrow>
     (case xf_reason dto of None \<Rightarrow> True | Some s \<Rightarrow> length s \<le> 500)"

section \<open>Guards\<close>

definition TRANSFERABLE_FROM :: "booking_status list" where
  "TRANSFERABLE_FROM = [BOOKING_BOOKED, BOOKING_ALLOTTED]"

definition find_transfer_fee_rule :: "id \<Rightarrow> id \<Rightarrow> db \<Rightarrow> transfer_fee_rule option" where
  "find_transfer_fee_rule c i d =
     List.find (\<lambda>r. tf_id r = i \<and> tf_companyId r = c) (transferFeeRules (masters_of d))"

definition transfer_fee :: "id \<Rightarrow> transfer_dto \<Rightarrow> booking \<Rightarrow> db \<Rightarrow> int result" where
  "transfer_fee companyId dto from_booking d =
     (case xf_transferFeeRuleId dto of
        None \<Rightarrow> Inr 0
      | Some i \<Rightarrow>
          bindE (orFail (NotFound ''Transfer fee rule not found'') (find_transfer_fee_rule companyId i d)) (\<lambda>rule.
            if tf_feeType rule = ''FIXED'' then Inr (or_zero (tf_amountPaise rule))
            else percentOf (bk_agreedPricePaise from_booking)
                   (of_int (math_round (or_zero (tf_percentage rule) * 100)))))"

definition find_applicant :: "id \<Rightarrow> id \<Rightarrow> db \<Rightarrow> applicant option" where
  "find_applicant c i d =
     List.find (\<lambda>a. ap_id a = i \<and> ap_companyId a = c) (applicants (masters_of d))"

text \<open>The unit and the applicant of the new booking.\<close>

definition transfer_destination :: "id \<Rightarrow> transfer_dto \<Rightarrow> booking \<Rightarrow> db \<Rightarrow> (id \<times> id) result" where
  "transfer_destination companyId dto from_booking d =
     (case xf_transferType dto of
        TRANSFER_UNIT \<Rightarrow>
          bindE (orFail (BadRequest ''UNIT transfer requires toUnitId'') (xf_toUnitId dto)) (\<lambda>toUnitId.
          bindE (orFail (NotFound ''Destination unit not found'') (find_unit companyId toUnitId d)) (\<lambda>newUnit.
          bindE (ensure (un_status newUnit \<in> {AVAILABLE, HELD})
                   (BadRequest ''Destination unit must be AVAILABLE or HELD'')) (\<lambda>_.
          Inr (toUnitId, bk_primaryApplicantId from_booking))))
      | TRANSFER_APPLICANT \<Rightarrow>
          bindE (orFail (BadRequest ''APPLICANT transfer requires toApplicantId'') (xf_toApplicantId dto))
            (\<lambda>toApplicantId.
          bindE (orFail (NotFound ''Destination applicant not found'')
                   (find_applicant companyId toApplicantId d)) (\<lambda>_.
          Inr (bk_unitId from_booking, toApplicantId))))"

text \<open>The first half of the handler: the source booking, the fee and the destination.\<close>

definition check_transfer ::
  "id \<Rightarrow> id \<Rightarrow> transfer_dto \<Rightarrow> db \<Rightarrow> (booking \<times> int \<times> id \<times> id) result" where
  "check_transfer companyId fromBookingId dto d =
     bindE (orFail (NotFound ''Source booking not found'') (find_booking companyId fromBookingId d)) (\<lambda>b.
     bindE (ensure (bk_status b \<in> set TRANSFERABLE_FROM)
              (BadRequest ''only BOOKED/ALLOTTED can transfer'')) (\<lambda>_.
     bindE (ensure (\<not> (xf_transferType dto = TRANSFER_UNIT \<and> xf_toUnitId dto = None))
              (BadRequest ''UNIT transfer requires toUnitId'')) (\<lambda>_.
     bindE (ensure (\<not> (xf_transferType dto = TRANSFER_APPLICANT \<and> xf_toApplicantId dto = None))
              (BadRequest ''APPLICANT transfer requires toApplicantId'')) (\<lambda>_.
     bindE (transfer_fee companyId dto b d) (\<lambda>fee.
     bindE (transfer_destination companyId dto b d) (\<lambda>(toUnitId, toApplicantId).
     Inr (b, fee, toUnitId, toApplicantId)))))))"

section \<open>Writes\<close>

definition carry_out_entry :: "booking \<Rightarrow> int \<Rightarrow> date \<Rightarrow> id option \<Rightarrow> ledger_input" where
  "carry_out_entry b carryForward now actorId =
     (entry_in (bk_id b) TRANSFER_CARRY_OUT (- carryForward) now)
        \<lparr>li_reason := Some (''Transfer out ('' @ bk_bookingNumber b @ '')''), li_createdById := actorId\<rparr>"

definition carry_in_entry :: "booking \<Rightarrow> int \<Rightarrow> date \<Rightarrow> id option \<Rightarrow> ledger_input" where
  "carry_in_entry b carryForward now actorId =
     (entry_in (bk_id b) TRANSFER_CARRY_IN carryForward now)
        \<lparr>li_reason := Some (''Transfer in ('' @ bk_bookingNumber b @ '')''), li_createdById := actorId\<rparr>"

definition fee_entries :: "id \<Rightarrow> int \<Rightarrow> date \<Rightarrow> id option \<Rightarrow> ledger_input list" where
  "fee_entries bookingId fee now actorId =
     (if fee > 0 then
        [(entry_in bookingId TRANSFER_FEE fee now)
           \<lparr>li_reason := Some ''Transfer fee'', li_createdById := actorId\<rparr>]
      else [])"

text \<open>The broker and the co-applicants of the old booking are not taken over.\<close>

definition transferred_booking ::
  "id \<Rightarrow> booking \<Rightarrow> id \<Rightarrow> id \<Rightarrow> string \<Rightarrow> date \<Rightarrow> id option \<Rightarrow> booking" where
  "transferred_booking new b toUnitId toApplicantId bookingNumber now actorId =
     \<lparr>bk_id = new, bk_companyId = bk_companyId b, bk_unitId = toUnitId,
      bk_primaryApplicantId = toApplicantId, bk_bookingNumber = bookingNumber,
      bk_status = BOOKING_BOOKED, bk_agreedPricePaise = bk_agreedPricePaise b,
      bk_placeOfSupplyStateCode = bk_placeOfSupplyStateCode b,
      bk_paymentPlanTemplateId = bk_paymentPlanTemplateId b, bk_interestRuleId = bk_interestRuleId b,
      bk_brokerId = None, bk_bookingDate = date_column now,
      bk_allotmentDate = None, bk_registrationDate = None, bk_cancelledAt = None,
      bk_createdById = actorId\<rparr>"

definition transfer_units ::
  "id \<Rightarrow> transfer_dto \<Rightarrow> booking \<Rightarrow> booking \<Rightarrow> id option \<Rightarrow> db \<Rightarrow> db result" where
  "transfer_units companyId dto b nb actorId d =
     (case xf_transferType dto of
        TRANSFER_APPLICANT \<Rightarrow> Inr d
      | TRANSFER_UNIT \<Rightarrow>
          bindE (transition companyId (bk_unitId b) CANCELLED system actorId
                   (Some (''Transfer '' @ bk_bookingNumber b)) d) (\<lambda>(_, d1).
          bindE (transition companyId (bk_unitId b) AVAILABLE system actorId
                   (Some (''Transfer '' @ bk_bookingNumber b)) d1) (\<lambda>(_, d2).
          bindE (transition companyId (bk_unitId nb) BOOKED system actorId
                   (Some (''Transfer '' @ bk_bookingNumber nb)) d2) (\<lambda>(_, d3). Inr d3))))"

definition transfer_row ::
  "id \<Rightarrow> transfer_dto \<Rightarrow> booking \<Rightarrow> booking \<Rightarrow> int \<Rightarrow> int \<Rightarrow> id option \<Rightarrow> transfer" where
  "transfer_row new dto b nb fee carryForward actorId =
     \<lparr>tx_id = new, tx_companyId = bk_companyId b, tx_fromBookingId = bk_id b,
      tx_toBookingId = Some (bk_id nb), tx_transferType = xf_transferType dto,
      tx_transferFeeRuleId = xf_transferFeeRuleId dto, tx_transferFeePaise = fee,
      tx_carryForwardPaise = carryForward, tx_reason = xf_reason dto, tx_createdById = actorId\<rparr>"

text \<open>The second half: both ledgers, both bookings, the units and the transfer row.\<close>

definition write_transfer ::
  "id \<Rightarrow> transfer_dto \<Rightarrow> date \<Rightarrow> id option \<Rightarrow> booking \<times> int \<times> id \<times> id \<Rightarrow> db \<Rightarrow>
   ((transfer \<times> id) \<times> db) result" where
  "write_transfer companyId dto now actorId chk d =
     (case chk of (b, fee, toUnitId, toApplicantId) \<Rightarrow>
       let carryForward = balanceInTx companyId (bk_id b) d;
           d1 = snd (post companyId [carry_out_entry b carryForward now actorId] d);
           d2 = upd_booking companyId (bk_id b) (\<lambda>b. b\<lparr>bk_status := BOOKING_TRANSFERRED_OUT\<rparr>) d1;
           ((seq, fyLabel), d3) = allocateForFy companyId ''BOOKING'' now (fy_start_month companyId d) d2;
           nb = transferred_booking (next_id d3) b toUnitId toApplicantId
                  (formatBookingNumber fyLabel seq) now actorId;
           d4 = add_booking nb d3;
           d5 = snd (post companyId [carry_in_entry nb carryForward now actorId] d4);
           d6 = snd (post companyId (fee_entries (bk_id nb) fee now actorId) d5)
       in bindE (transfer_units companyId dto b nb actorId d6) (\<lambda>d7.
            let row = transfer_row (next_id d7) dto b nb fee carryForward actorId
            in Inr ((row, bk_id nb), add_transfer row d7)))"

definition transfer_booking ::
  "id \<Rightarrow> id \<Rightarrow> transfer_dto \<Rightarrow> date \<Rightarrow> id option \<Rightarrow> db \<Rightarrow> ((transfer \<times> id) \<times> db) result" where
  "transfer_booking companyId fromBookingId dto now actorId d =
     bindE (check_transfer companyId fromBookingId dto d) (\<lambda>chk.
       write_transfer companyId dto now actorId chk d)"

declare post.simps [simp del]

section \<open>Effect\<close>

lemma transferred_booking_simps [simp]:
  "bk_id (transferred_booking n b u a num now actor) = n"
  "bk_companyId (transferred_booking n b u a num now actor) = bk_companyId b"
  "bk_unitId (transferred_booking n b u a num now actor) = u"
  "bk_primaryApplicantId (transferred_booking n b u a num now actor) = a"
  "bk_status (transferred_booking n b u a num now actor) = BOOKING_BOOKED"
  "bk_agreedPricePaise (transferred_booking n b u a num now actor) = bk_agreedPricePaise b"
  "bk_brokerId (transferred_booking n b u a num now actor) = None"
  by (simp_all add: transferred_booking_def)

lemma carry_simps [simp]:
  "li_bookingId (carry_out_entry b x now actor) = bk_id b"
  "li_signedAmountPaise (carry_out_entry b x now actor) = - x"
  "li_bookingId (carry_in_entry b x now actor) = bk_id b"
  "li_signedAmountPaise (carry_in_entry b x now actor) = x"
  by (simp_all add: carry_out_entry_def carry_in_entry_def)

lemma transfer_row_simps [simp]:
  "tx_companyId (transfer_row n dto b nb fee carry actor) = bk_companyId b"
  "tx_transferFeePaise (transfer_row n dto b nb fee carry actor) = fee"
  "tx_carryForwardPaise (transfer_row n dto b nb fee carry actor) = carry"
  by (simp_all add: transfer_row_def)

lemma transfer_units_effect:
  assumes "transfer_units c dto b nb actor d = Inr d'"
  shows "only_units d d' \<and> foreign c d' = foreign c d \<and>
    unit_status_of c k d' =
      (if xf_transferType dto = TRANSFER_APPLICANT then unit_status_of c k d
       else if k = bk_unitId nb then Some BOOKED
       else if k = bk_unitId b then Some AVAILABLE else unit_status_of c k d)"
proof (cases "xf_transferType dto")
  case TRANSFER_APPLICANT
  then show ?thesis using assms by (simp add: transfer_units_def)
next
  case TRANSFER_UNIT
  with assms obtain x d1 y d2 z where
    t1: "transition c (bk_unitId b) CANCELLED system actor (Some (''Transfer '' @ bk_bookingNumber b)) d = Inr (x, d1)"
    and t2: "transition c (bk_unitId b) AVAILABLE system actor (Some (''Transfer '' @ bk_bookingNumber b)) d1 = Inr (y, d2)"
    and t3: "transition c (bk_unitId nb) BOOKED system actor (Some (''Transfer '' @ bk_bookingNumber nb)) d2 = Inr (z, d')"
    by (auto simp: transfer_units_def)
  have "only_units d d'"
    using only_units_transition [OF t1] only_units_transition [OF t2] only_units_transition [OF t3]
    by (blast intro: only_units_trans)
  moreover have "unit_status_of c k d' = (if k = bk_unitId nb then Some BOOKED
       else if k = bk_unitId b then Some AVAILABLE else unit_status_of c k d)"
    using transition_status [OF t1] transition_status [OF t2] transition_status [OF t3] by auto
  moreover have "foreign c d' = foreign c d"
    using foreign_transition [OF t1] foreign_transition [OF t2] foreign_transition [OF t3] by simp
  ultimately show ?thesis using TRANSFER_UNIT by simp
qed

abbreviation transfer_postings ::
  "booking \<Rightarrow> booking \<Rightarrow> int \<Rightarrow> int \<Rightarrow> date \<Rightarrow> id option \<Rightarrow> ledger_input list" where
  "transfer_postings b nb carry fee now actor \<equiv>
     carry_out_entry b carry now actor # carry_in_entry nb carry now actor # fee_entries (bk_id nb) fee now actor"

text \<open>The state a successful call leaves.\<close>

lemma write_transfer_effect:
  assumes "write_transfer c dto now actor (b, fee, tu, ta) d = Inr ((t, nid), d')"
  shows "\<exists>num d6 d7 us scs l n m qs. let nb = transferred_booking nid b tu ta num now actor in
    num = formatBookingNumber (financialYearLabel now (fy_start_month c d))
       (upcoming_number c (''BOOKING'', financialYearLabel now (fy_start_month c d)) d) \<and>
    next_id d \<le> nid \<and> nid < next_id d' \<and>
    posted c (transfer_postings b nb (balanceInTx c (bk_id b) d) fee now actor) d d' \<and>
    units d6 = units d \<and> transfer_units c dto b nb actor d6 = Inr d7 \<and> units d' = units d7 \<and>
    t = transfer_row m dto b nb fee (balanceInTx c (bk_id b) d) actor \<and>
    d' = d\<lparr>ledger := l, sequences := qs, units := us, statusChanges := scs, next_id := n,
       bookings := update_rows (\<lambda>r. bk_companyId r = c \<and> bk_id r = bk_id b)
           (\<lambda>b. b\<lparr>bk_status := BOOKING_TRANSFERRED_OUT\<rparr>) (bookings d) @ [nb],
       transfers := transfers d @ [t]\<rparr>"
proof -
  let ?fy = "financialYearLabel now (fy_start_month c d)"
  let ?num = "formatBookingNumber ?fy (upcoming_number c (''BOOKING'', ?fy) d)"
  let ?carry = "balanceInTx c (bk_id b) d"
  let ?d1 = "snd (post c [carry_out_entry b ?carry now actor] d)"
  let ?d2 = "upd_booking c (bk_id b) (\<lambda>b. b\<lparr>bk_status := BOOKING_TRANSFERRED_OUT\<rparr>) ?d1"
  obtain qs k where al: "snd (allocate_number c ''BOOKING'' ?fy ?d2) = ?d2\<lparr>sequences := qs, next_id := k\<rparr>"
    and k: "next_id ?d2 \<le> k"
    using allocate_number_frame [of c "''BOOKING''" ?fy ?d2] by blast
  have up: "upcoming_number c (''BOOKING'', ?fy) ?d2 = upcoming_number c (''BOOKING'', ?fy) d"
    by (simp add: upcoming_number_def upd_booking_def post_eq)
  let ?d3 = "?d2\<lparr>sequences := qs, next_id := k\<rparr>"
  let ?nb = "transferred_booking k b tu ta ?num now actor"
  let ?d5 = "snd (post c [carry_in_entry ?nb ?carry now actor] (add_booking ?nb ?d3))"
  let ?d6 = "snd (post c (fee_entries k fee now actor) ?d5)"
  obtain d7 where tu: "transfer_units c dto b ?nb actor ?d6 = Inr d7"
    and t: "t = transfer_row (next_id d7) dto b ?nb fee ?carry actor" and nid: "nid = k"
    and d': "d' = add_transfer t d7"
    using assms unfolding write_transfer_def prod.case Let_def allocateForFy_eq al up snd_conv fst_conv
    by auto
  obtain us scs n where d7: "d7 = ?d6\<lparr>units := us, statusChanges := scs, next_id := n\<rparr>" and n: "next_id ?d6 \<le> n"
    using transfer_units_effect [OF tu] unfolding only_units_def by blast
  have "posted c [carry_out_entry b ?carry now actor] d ?d3"
    by (rule posted_cong [OF posted_post [of c "[carry_out_entry b ?carry now actor]" d]])
       (use k in \<open>simp_all add: upd_booking_def\<close>)
  moreover have "posted c [carry_in_entry ?nb ?carry now actor] ?d3 ?d5"
    by (rule posted_single) (simp_all add: add_booking_def)
  moreover have "posted c (fee_entries k fee now actor) ?d5 d'"
    by (rule posted_cong [OF posted_post [of c "fee_entries k fee now actor" ?d5]])
       (use n in \<open>simp_all add: d' d7 add_transfer_def\<close>)
  ultimately have "posted c (transfer_postings b ?nb ?carry fee now actor) d d'"
    using posted_trans [OF posted_trans] by fastforce
  moreover have "next_id d \<le> k" "k < next_id d'"
    using k n by (simp_all add: d' d7 add_transfer_def add_booking_def post_eq upd_booking_def)
  moreover have "\<exists>l n. d' = d\<lparr>ledger := l, sequences := qs, units := us, statusChanges := scs, next_id := n,
       bookings := update_rows (\<lambda>r. bk_companyId r = c \<and> bk_id r = bk_id b)
           (\<lambda>b. b\<lparr>bk_status := BOOKING_TRANSFERRED_OUT\<rparr>) (bookings d) @ [?nb],
       transfers := transfers d @ [t]\<rparr>"
    by (rule exI [of _ "ledger d'"], rule exI [of _ "next_id d'"])
       (simp add: d' d7 add_transfer_def add_booking_def post_eq upd_booking_def)
  moreover have "units ?d6 = units d" by (simp add: add_booking_def post_eq upd_booking_def)
  moreover have "units d' = units d7" by (simp add: d' add_transfer_def)
  ultimately show ?thesis
    unfolding Let_def nid using t tu by blast
qed

section \<open>What a transfer does\<close>

lemma check_transfer_Inr:
  "check_transfer c i dto d = Inr (b, fee, tu, ta) \<Longrightarrow>
   find_booking c i d = Some b \<and> bk_status b \<in> {BOOKING_BOOKED, BOOKING_ALLOTTED} \<and>
   transfer_fee c dto b d = Inr fee \<and> transfer_destination c dto b d = Inr (tu, ta)"
  by (auto simp: check_transfer_def TRANSFERABLE_FROM_def)

lemma transfer_destination_Inr:
  "transfer_destination c dto b d = Inr (tu, ta) \<Longrightarrow>
   (xf_transferType dto = TRANSFER_UNIT \<longrightarrow> xf_toUnitId dto = Some tu \<and> ta = bk_primaryApplicantId b \<and>
      unit_status_of c tu d \<in> {Some AVAILABLE, Some HELD}) \<and>
   (xf_transferType dto = TRANSFER_APPLICANT \<longrightarrow> tu = bk_unitId b \<and> xf_toApplicantId dto = Some ta)"
  by (cases "xf_transferType dto") (auto simp: transfer_destination_def unit_status_of_def)

lemma transfer_booking_Inr:
  assumes "transfer_booking c i dto now actor d = Inr ((t, nid), d')"
  obtains b fee tu ta where "check_transfer c i dto d = Inr (b, fee, tu, ta)"
    and "write_transfer c dto now actor (b, fee, tu, ta) d = Inr ((t, nid), d')"
    and "find_booking c i d = Some b" and "bk_id b = i" and "bk_companyId b = c"
proof -
  obtain b fee tu ta where chk: "check_transfer c i dto d = Inr (b, fee, tu, ta)"
    and wr: "write_transfer c dto now actor (b, fee, tu, ta) d = Inr ((t, nid), d')"
    using assms by (auto simp: transfer_booking_def)
  have "find_booking c i d = Some b" using check_transfer_Inr [OF chk] by simp
  moreover from this have "bk_id b = i" "bk_companyId b = c" by (auto simp: find_booking_def dest!: find_SomeD)
  ultimately show ?thesis using that [OF chk wr] by blast
qed

definition booking_ids_ok :: "db \<Rightarrow> bool" where
  "booking_ids_ok d \<longleftrightarrow> list_all (\<lambda>b. bk_id b < next_id d) (bookings d)"

lemma find_booking_below: "find_booking c i d = Some b \<Longrightarrow> booking_ids_ok d \<Longrightarrow> i < next_id d"
  by (auto simp: find_booking_def booking_ids_ok_def list_all_iff dest!: find_SomeD)

lemma fee_entries_sum:
  "sum_list (map li_signedAmountPaise (filter (\<lambda>e. li_bookingId e = k) (fee_entries n fee now actor)))
     = (if k = n then max 0 fee else 0)"
  by (auto simp: fee_entries_def)

text \<open>
  C33: a transfer creates and destroys no money. The old booking's balance becomes zero and
  the new one opens with exactly what was outstanding, plus the transfer fee if there is
  one; the balance of every other booking stays.
\<close>

theorem transfer_conserves_balance:
  assumes "transfer_booking c i dto now actor d = Inr ((t, nid), d')"
    and "ledger_ids_ok d" and "booking_ids_ok d"
  shows "nid \<noteq> i \<and> tx_carryForwardPaise t = balanceInTx c i d \<and>
    balanceInTx c k d' =
      (if k = i then 0
       else if k = nid then balanceInTx c i d + max 0 (tx_transferFeePaise t)
       else balanceInTx c k d)"
proof -
  obtain b fee tu ta where b: "find_booking c i d = Some b" "bk_id b = i" "bk_companyId b = c"
    and wr: "write_transfer c dto now actor (b, fee, tu, ta) d = Inr ((t, nid), d')"
    using assms(1) by (rule transfer_booking_Inr)
  obtain num m where new: "next_id d \<le> nid"
    and p: "posted c (transfer_postings b (transferred_booking nid b tu ta num now actor)
              (balanceInTx c i d) fee now actor) d d'"
    and t: "t = transfer_row m dto b (transferred_booking nid b tu ta num now actor) fee
              (balanceInTx c i d) actor"
    using write_transfer_effect [OF wr] b(2) unfolding Let_def by auto
  have ne: "nid \<noteq> i" using find_booking_below [OF b(1) assms(3)] new by simp
  have "balanceInTx c nid d = 0" by (rule balance_unknown_booking [OF assms(2) new])
  with posted_balance [OF p, of k] ne show ?thesis
    by (auto simp: t b(2) fee_entries_sum)
qed

text \<open>Both bookings after a transfer, and the unit moves in between.\<close>

lemma transfer_outcome:
  assumes "transfer_booking c i dto now actor d = Inr ((t, nid), d')" and "booking_ids_ok d"
  obtains b fee tu ta num d6 d7 where "check_transfer c i dto d = Inr (b, fee, tu, ta)"
    and "find_booking c i d = Some b"
    and "find_booking c nid d' = Some (transferred_booking nid b tu ta num now actor)"
    and "find_booking c i d' = Some (b\<lparr>bk_status := BOOKING_TRANSFERRED_OUT\<rparr>)"
    and "transfer_units c dto b (transferred_booking nid b tu ta num now actor) actor d6 = Inr d7"
    and "units d6 = units d" and "units d' = units d7" and "receipts d' = receipts d"
    and "next_id d \<le> nid" and "masters_of d' = masters_of d"
proof -
  obtain b fee tu ta where chk: "check_transfer c i dto d = Inr (b, fee, tu, ta)"
    and wr: "write_transfer c dto now actor (b, fee, tu, ta) d = Inr ((t, nid), d')"
    and b: "find_booking c i d = Some b" "bk_id b = i" "bk_companyId b = c"
    using assms(1) by (rule transfer_booking_Inr)
  obtain num d6 d7 us scs l n qs where new: "next_id d \<le> nid" and u6: "units d6 = units d"
    and tu: "transfer_units c dto b (transferred_booking nid b tu ta num now actor) actor d6 = Inr d7"
    and u7: "units d' = units d7"
    and d': "d' = d\<lparr>ledger := l, sequences := qs, units := us, statusChanges := scs, next_id := n,
      bookings := update_rows (\<lambda>r. bk_companyId r = c \<and> bk_id r = i)
        (\<lambda>b. b\<lparr>bk_status := BOOKING_TRANSFERRED_OUT\<rparr>) (bookings d) @ [transferred_booking nid b tu ta num now actor],
      transfers := transfers d @ [t]\<rparr>"
    using write_transfer_effect [OF wr] b(2) unfolding Let_def by blast
  let ?nb = "transferred_booking nid b tu ta num now actor"
  let ?d1 = "upd_booking c i (\<lambda>b. b\<lparr>bk_status := BOOKING_TRANSFERRED_OUT\<rparr>) d"
  have find: "find_booking c k d' = (case find_booking c k ?d1 of
      None \<Rightarrow> if nid = k then Some ?nb else None | Some x \<Rightarrow> Some x)" for k
    by (simp add: find_booking_def d' find_append upd_booking_def b(3) split: option.split)
  have "find_booking c nid d = None"
    using assms(2) new by (auto simp: find_booking_def find_eq_None_iff booking_ids_ok_def list_all_iff)
  then have "find_booking c nid d' = Some ?nb" by (simp add: find find_booking_upd)
  moreover have "find_booking c i d' = Some (b\<lparr>bk_status := BOOKING_TRANSFERRED_OUT\<rparr>)"
    using b(1) by (simp add: find find_booking_upd)
  ultimately show ?thesis using that [OF chk b(1) _ _ tu u6 u7] new by (simp add: d')
qed

text \<open>
  What happens to the units. A unit transfer frees the old unit and books the new one,
  which was AVAILABLE or HELD; an applicant transfer leaves every unit alone. The old
  booking is TRANSFERRED_OUT, the new one BOOKED at the same agreed price, without a broker.
\<close>

theorem transfer_moves_units:
  assumes "transfer_booking c i dto now actor d = Inr ((t, nid), d')" and "booking_ids_ok d"
  shows "\<exists>b nb. find_booking c i d = Some b \<and> find_booking c nid d' = Some nb \<and>
    find_booking c i d' = Some (b\<lparr>bk_status := BOOKING_TRANSFERRED_OUT\<rparr>) \<and>
    bk_status nb = BOOKING_BOOKED \<and> bk_agreedPricePaise nb = bk_agreedPricePaise b \<and> bk_brokerId nb = None \<and>
    (xf_transferType dto = TRANSFER_UNIT \<longrightarrow>
       xf_toUnitId dto = Some (bk_unitId nb) \<and> unit_status_of c (bk_unitId nb) d \<in> {Some AVAILABLE, Some HELD} \<and>
       unit_status_of c u d' = (if u = bk_unitId nb then Some BOOKED
         else if u = bk_unitId b then Some AVAILABLE else unit_status_of c u d)) \<and>
    (xf_transferType dto = TRANSFER_APPLICANT \<longrightarrow>
       bk_unitId nb = bk_unitId b \<and> xf_toApplicantId dto = Some (bk_primaryApplicantId nb) \<and>
       unit_status_of c u d' = unit_status_of c u d)"
proof -
  obtain b fee tu ta num d6 d7 where chk: "check_transfer c i dto d = Inr (b, fee, tu, ta)"
    and b: "find_booking c i d = Some b"
    and nb: "find_booking c nid d' = Some (transferred_booking nid b tu ta num now actor)"
    and old: "find_booking c i d' = Some (b\<lparr>bk_status := BOOKING_TRANSFERRED_OUT\<rparr>)"
    and tr: "transfer_units c dto b (transferred_booking nid b tu ta num now actor) actor d6 = Inr d7"
    and u: "units d6 = units d" "units d' = units d7"
    using assms by (rule transfer_outcome)
  have st: "unit_status_of c u d6 = unit_status_of c u d" "unit_status_of c u d' = unit_status_of c u d7"
    by (rule unit_status_cong, rule u)+
  have dest: "transfer_destination c dto b d = Inr (tu, ta)" using check_transfer_Inr [OF chk] by simp
  show ?thesis
    by (intro exI [of _ b] exI [of _ "transferred_booking nid b tu ta num now actor"])
       (use b nb old transfer_units_effect [OF tr, of u] st transfer_destination_Inr [OF dest] in simp)
qed

text \<open>
  An applicant transfer of an allotted booking leads to a dead end. The new booking
  starts as BOOKED while its unit stays ALLOTTED, so the new booking can never be allotted
  (and hence never registered).
\<close>

theorem applicant_transfer_blocks_allotment:
  assumes "transfer_booking c i dto now actor d = Inr ((t, nid), d')" and "booking_ids_ok d"
    and "xf_transferType dto = TRANSFER_APPLICANT"
    and "find_booking c i d = Some b" and "unit_status_of c (bk_unitId b) d = Some ALLOTTED"
  shows "allot c nid date actor2 d' = Inl (BadRequest ''Invalid transition'')"
proof -
  obtain b0 fee tu ta num d6 d7 where chk: "check_transfer c i dto d = Inr (b0, fee, tu, ta)"
    and b0: "find_booking c i d = Some b0"
    and nb: "find_booking c nid d' = Some (transferred_booking nid b0 tu ta num now actor)"
    and tr: "transfer_units c dto b0 (transferred_booking nid b0 tu ta num now actor) actor d6 = Inr d7"
    and u: "units d6 = units d" "units d' = units d7"
    using assms(1,2) by (rule transfer_outcome)
  have eq: "b0 = b" using b0 assms(4) by simp
  have dest: "transfer_destination c dto b0 d = Inr (tu, ta)" using check_transfer_Inr [OF chk] by simp
  have tu: "tu = bk_unitId b" using transfer_destination_Inr [OF dest] assms(3) eq by simp
  let ?d = "upd_booking c nid (advanced TO_ALLOTTED date) d'"
  have "units ?d = units d7" by (simp add: upd_booking_def u)
  then have "unit_status_of c (bk_unitId b) ?d = Some ALLOTTED"
    using transfer_units_effect [OF tr, of "bk_unitId b"] assms(3,5) u(1)
    by (simp add: unit_status_cong [of ?d d7] unit_status_cong [of d6 d])
  then obtain w where "find_unit c (bk_unitId b) ?d = Some w" "un_status w = ALLOTTED"
    by (auto simp: unit_status_of_def)
  then show ?thesis
    using nb by (simp add: allot_def advance_def expected_from_def advance_target_def transition_def tu
      REASON_REQUIRED_STATUSES_def isValidTransition_def isSystemOnlyTarget_def)
qed

section \<open>Concrete transfers\<close>

definition demo_transfer_dto :: transfer_dto where
  "demo_transfer_dto = \<lparr>xf_transferType = TRANSFER_UNIT, xf_toUnitId = Some 21, xf_toApplicantId = None,
     xf_transferFeeRuleId = Some 13, xf_reason = None\<rparr>"

lemma demo_transfer_checks: "\<not> isl (check_transfer 1 40 demo_transfer_dto demo_sold)"
  by code_simp

lemma demo_transfer_succeeds: "\<not> isl (transfer_booking 1 40 demo_transfer_dto demo_day None demo_sold)"
  by code_simp

lemma demo_sold_ids: "ledger_ids_ok demo_sold" "booking_ids_ok demo_sold"
  by code_simp+

theorem transfer_conserves_balance_witness:
  "\<exists>t nid d'. transfer_booking 1 40 demo_transfer_dto demo_day None demo_sold = Inr ((t, nid), d') \<and>
     balanceInTx 1 40 d' = 0 \<and> nid \<noteq> 40"
proof -
  obtain t nid d' where r: "transfer_booking 1 40 demo_transfer_dto demo_day None demo_sold = Inr ((t, nid), d')"
    using not_isl_Inr [OF demo_transfer_succeeds] by auto
  with transfer_conserves_balance [OF r demo_sold_ids, of 40] show ?thesis by auto
qed

theorem transfer_moves_units_witness:
  "\<exists>t nid d'. transfer_booking 1 40 demo_transfer_dto demo_day None demo_sold = Inr ((t, nid), d') \<and>
     unit_status_of 1 21 d' = Some BOOKED"
proof -
  obtain t nid d' where r: "transfer_booking 1 40 demo_transfer_dto demo_day None demo_sold = Inr ((t, nid), d')"
    using not_isl_Inr [OF demo_transfer_succeeds] by auto
  with transfer_moves_units [OF r demo_sold_ids(2), of 21] show ?thesis
    by (auto simp: demo_transfer_dto_def)
qed

text \<open>The same booking, allotted, and handed to applicant 5.\<close>

definition demo_allotted :: db where
  "demo_allotted = demo_sold
     \<lparr>units := [demo_flat 20 ALLOTTED, demo_flat 21 HELD, demo_plot],
      bookings := [demo_booking\<lparr>bk_status := BOOKING_ALLOTTED\<rparr>]\<rparr>"

definition demo_applicant_dto :: transfer_dto where
  "demo_applicant_dto = \<lparr>xf_transferType = TRANSFER_APPLICANT, xf_toUnitId = None, xf_toApplicantId = Some 5,
     xf_transferFeeRuleId = None, xf_reason = None\<rparr>"

lemma demo_applicant_succeeds:
  "\<not> isl (transfer_booking 1 40 demo_applicant_dto demo_day None demo_allotted)"
  by code_simp

lemma demo_allotted_facts:
  "booking_ids_ok demo_allotted" "find_booking 1 40 demo_allotted \<noteq> None"
  "unit_status_of 1 20 demo_allotted = Some ALLOTTED"
  "map_option bk_unitId (find_booking 1 40 demo_allotted) = Some 20"
  by code_simp+

theorem applicant_transfer_blocks_allotment_witness:
  "\<exists>t nid d'. transfer_booking 1 40 demo_applicant_dto demo_day None demo_allotted = Inr ((t, nid), d') \<and>
     allot 1 nid demo_day None d' = Inl (BadRequest ''Invalid transition'')"
proof -
  obtain t nid d' where r: "transfer_booking 1 40 demo_applicant_dto demo_day None demo_allotted = Inr ((t, nid), d')"
    using not_isl_Inr [OF demo_applicant_succeeds] by auto
  obtain b where b: "find_booking 1 40 demo_allotted = Some b" "bk_unitId b = 20"
    using demo_allotted_facts(4) by auto
  have "allot 1 nid demo_day None d' = Inl (BadRequest ''Invalid transition'')"
    by (rule applicant_transfer_blocks_allotment [OF r demo_allotted_facts(1) _ b(1)])
       (simp_all add: demo_applicant_dto_def b(2) demo_allotted_facts(3) del: One_nat_def)
  with r show ?thesis by blast
qed

end
