(* ===== verification/BookingCancel.thy ===== *)
theory BookingCancel
  imports Receipt BookingTransfer
begin

text \<open>
  \<open>apps/api/src/postsales/cancellation.service.ts\<close>: cancelling or surrendering a
  booking. The deduction comes from a master rule; two ledger entries drive the balance to
  minus the refundable amount; the unit returns to AVAILABLE. The lemmas give the final
  balance, the unit's way back, and where the computation of the money received departs
  from what the customer paid.
\<close>

record cancellation_dto =
  xc_cancellationType :: cancellation_type
  xc_cancellationRuleId :: "id option"
  xc_reason :: "string option"

definition cancellationSchema :: "cancellation_dto \<Rightarrow> bool" where
  "cancellationSchema dto \<longleftrightarrow>
     (case xc_reason dto of None \<Rightarrow> True | Some s \<Rightarrow> length s \<le> 500)"

record booking_cancelled_event =
  ev_companyId :: id
  ev_bookingId :: id
  ev_cancellationType :: cancellation_type
  ev_cancelledAt :: date
  ev_brokerId :: "id option"

record cancel_result =
  cx_cancellation :: cancellation
  cx_refundablePaise :: string
  cx_deductionPaise :: string
  cx_netReceivedPaise :: string
  cx_event :: booking_cancelled_event

section \<open>Amounts\<close>

definition CANCELLABLE_FROM :: "booking_status list" where
  "CANCELLABLE_FROM = [BOOKING_BOOKED, BOOKING_ALLOTTED, BOOKING_REGISTERED]"

text \<open>Receipts that count as cash: not reversed, and immediate or cleared.\<close>

definition counts_as_received :: "id \<Rightarrow> id \<Rightarrow> receipt \<Rightarrow> bool" where
  "counts_as_received companyId bookingId r \<longleftrightarrow>
     rc_companyId r = companyId \<and> rc_bookingId r = bookingId \<and> \<not> rc_isReversed r \<and>
     rc_clearanceStatus r \<in> {CLEARANCE_NOT_APPLICABLE, CLEARANCE_CLEARED}"

definition tds_of_receipt :: "id \<Rightarrow> id \<Rightarrow> db \<Rightarrow> int" where
  "tds_of_receipt companyId receiptId d =
     sum_list (map td_deductedPaise
       (filter (\<lambda>t. td_companyId t = companyId \<and> td_receiptId t = Some receiptId) (tdsDeductions d)))"

definition net_received :: "id \<Rightarrow> id \<Rightarrow> db \<Rightarrow> int" where
  "net_received companyId bookingId d =
     sum_list (map (\<lambda>r. rc_grossAmountPaise r - tds_of_receipt companyId (rc_id r) d)
       (filter (counts_as_received companyId bookingId) (receipts d)))"

definition find_cancellation_rule :: "id \<Rightarrow> id \<Rightarrow> db \<Rightarrow> cancellation_rule option" where
  "find_cancellation_rule c i d =
     List.find (\<lambda>r. cr_id r = i \<and> cr_companyId r = c) (cancellationRules (masters_of d))"

definition first_installment :: "id \<Rightarrow> id \<Rightarrow> db \<Rightarrow> installment option" where
  "first_installment companyId bookingId d =
     (case sort_key in_seq (filter (\<lambda>i. in_companyId i = companyId \<and> in_bookingId i = bookingId \<and> in_isActive i)
             (installments d)) of
        [] \<Rightarrow> None | i # _ \<Rightarrow> Some i)"

text \<open>The snapshot of the rule's kind and the amount the company keeps.\<close>

definition cancellation_deduction ::
  "id \<Rightarrow> cancellation_dto \<Rightarrow> booking \<Rightarrow> db \<Rightarrow> (string \<times> int) result" where
  "cancellation_deduction companyId dto b d =
     (case xc_cancellationRuleId dto of
        None \<Rightarrow> Inr (''NONE'', 0)
      | Some i \<Rightarrow>
          bindE (orFail (NotFound ''Cancellation rule not found'') (find_cancellation_rule companyId i d)) (\<lambda>rule.
          bindE (if cr_deductionType rule = ''FLAT'' then Inr (or_zero (cr_deductionAmountPaise rule))
                 else percentOf (bk_agreedPricePaise b)
                        (of_int (math_round (or_zero (cr_deductionPercent rule) * 100)))) (\<lambda>deduction.
          Inr (cr_deductionType rule,
               if cr_forfeitBookingAmount rule
               then (case first_installment companyId (bk_id b) d of
                       None \<Rightarrow> deduction | Some i \<Rightarrow> deduction + in_amountPaise i)
               else deduction))))"

section \<open>Writes\<close>

definition cancellation_entries ::
  "id \<Rightarrow> string \<Rightarrow> int \<Rightarrow> int \<Rightarrow> date \<Rightarrow> id option \<Rightarrow> ledger_input list" where
  "cancellation_entries bookingId deductionType deduction settlement now actorId =
     [(entry_in bookingId CANCELLATION_DEDUCTION deduction now)
        \<lparr>li_reason := Some (''Cancellation deduction ('' @ deductionType @ '')''), li_createdById := actorId\<rparr>,
      (entry_in bookingId CANCELLATION_SETTLEMENT settlement now)
        \<lparr>li_reason := Some ''Cancellation settlement'', li_createdById := actorId\<rparr>]"

definition cancelled_status :: "cancellation_type \<Rightarrow> booking_status" where
  "cancelled_status t = (if t = SURRENDER then BOOKING_SURRENDERED else BOOKING_CANCELLED)"

definition cancellation_row ::
  "id \<Rightarrow> id \<Rightarrow> id \<Rightarrow> cancellation_dto \<Rightarrow> string \<Rightarrow> int \<Rightarrow> int \<Rightarrow> id option \<Rightarrow> cancellation" where
  "cancellation_row new companyId bookingId dto deductionType deduction refundable actorId =
     \<lparr>cn_id = new, cn_companyId = companyId, cn_bookingId = bookingId,
      cn_cancellationType = xc_cancellationType dto, cn_cancellationRuleId = xc_cancellationRuleId dto,
      cn_deductionTypeSnapshot = deductionType, cn_deductionPaise = deduction,
      cn_refundablePaise = refundable, cn_reason = xc_reason dto, cn_createdById = actorId\<rparr>"

text \<open>The unit returns: its status, then CANCELLED, then AVAILABLE.\<close>

definition release_unit :: "id \<Rightarrow> booking \<Rightarrow> id option \<Rightarrow> db \<Rightarrow> db result" where
  "release_unit companyId b actorId d =
     (let reason = Some (''Cancellation '' @ bk_bookingNumber b) in
      case find_unit companyId (bk_unitId b) d of
        None \<Rightarrow> Inr d
      | Some u \<Rightarrow>
          if un_status u = AVAILABLE then Inr d
          else bindE (if un_status u \<noteq> CANCELLED
                      then bindE (transition companyId (bk_unitId b) CANCELLED system actorId reason d)
                             (\<lambda>(_, d1). Inr d1)
                      else Inr d) (\<lambda>d1.
               bindE (transition companyId (bk_unitId b) AVAILABLE system actorId reason d1)
                 (\<lambda>(_, d2). Inr d2)))"

definition cancel_booking ::
  "id \<Rightarrow> id \<Rightarrow> cancellation_dto \<Rightarrow> date \<Rightarrow> id option \<Rightarrow> db \<Rightarrow> (cancel_result \<times> db) result" where
  "cancel_booking companyId bookingId dto now actorId d =
     bindE (orFail (NotFound ''Booking not found'') (find_booking companyId bookingId d)) (\<lambda>b.
     bindE (ensure (bk_status b \<in> set CANCELLABLE_FROM) (BadRequest ''Booking cannot be cancelled'')) (\<lambda>_.
     let netReceived = net_received companyId bookingId d in
     bindE (cancellation_deduction companyId dto b d) (\<lambda>(deductionType, deduction).
     let refundable = (if netReceived - deduction > 0 then netReceived - deduction else 0);
         currentBalance = balanceInTx companyId bookingId d;
         settlement = - refundable - currentBalance - deduction;
         d1 = snd (post companyId
                (cancellation_entries bookingId deductionType deduction settlement now actorId) d);
         d2 = upd_booking companyId bookingId
                (\<lambda>b. b\<lparr>bk_status := cancelled_status (xc_cancellationType dto), bk_cancelledAt := Some now\<rparr>) d1;
         row = cancellation_row (next_id d2) companyId bookingId dto deductionType deduction refundable actorId;
         d3 = add_cancellation row d2
     in bindE (release_unit companyId b actorId d3) (\<lambda>d4.
          Inr (\<lparr>cx_cancellation = row, cx_refundablePaise = show_int refundable,
                cx_deductionPaise = show_int deduction, cx_netReceivedPaise = show_int netReceived,
                cx_event = \<lparr>ev_companyId = companyId, ev_bookingId = bookingId,
                  ev_cancellationType = xc_cancellationType dto, ev_cancelledAt = now,
                  ev_brokerId = None\<rparr>\<rparr>, d4)))))"

section \<open>Releasing the unit\<close>

lemma release_unit_effect:
  assumes "release_unit c b actor d = Inr d'"
  shows "only_units d d' \<and> foreign c d' = foreign c d \<and>
    unit_status_of c k d' = (if k = bk_unitId b then map_option (\<lambda>_. AVAILABLE) (unit_status_of c k d)
                             else unit_status_of c k d)"
proof (cases "find_unit c (bk_unitId b) d")
  case None
  then show ?thesis using assms by (simp add: release_unit_def unit_status_of_def)
next
  case (Some u)
  then have st: "unit_status_of c (bk_unitId b) d = Some (un_status u)" by (simp add: unit_status_of_def)
  show ?thesis
  proof (cases "un_status u = AVAILABLE")
    case True
    then show ?thesis using assms Some st by (simp add: release_unit_def)
  next
    case False
    let ?reason = "Some (''Cancellation '' @ bk_bookingNumber b)"
    obtain d1 x where d1: "un_status u = CANCELLED \<and> d1 = d \<or>
        (\<exists>y. transition c (bk_unitId b) CANCELLED system actor ?reason d = Inr (y, d1))"
      and t: "transition c (bk_unitId b) AVAILABLE system actor ?reason d1 = Inr (x, d')"
      using assms Some False by (auto simp: release_unit_def Let_def split: if_splits)
    have 1: "only_units d d1 \<and> foreign c d1 = foreign c d \<and>
        (k \<noteq> bk_unitId b \<longrightarrow> unit_status_of c k d1 = unit_status_of c k d)"
      using d1 by (auto dest: only_units_transition foreign_transition simp: transition_status)
    have "only_units d d'" using 1 only_units_transition [OF t] by (blast intro: only_units_trans)
    then show ?thesis
      using 1 foreign_transition [OF t] transition_status [OF t, of k] st by auto
  qed
qed

lemma only_units_simps:
  assumes "only_units d d'"
  shows "ledger d' = ledger d" "bookings d' = bookings d" "receipts d' = receipts d"
    "tdsDeductions d' = tdsDeductions d" "installments d' = installments d"
    "cancellations d' = cancellations d" "masters_of d' = masters_of d"
proof -
  obtain us scs n where "d' = d\<lparr>units := us, statusChanges := scs, next_id := n\<rparr>"
    using assms unfolding only_units_def by blast
  then show "ledger d' = ledger d" "bookings d' = bookings d" "receipts d' = receipts d"
    "tdsDeductions d' = tdsDeductions d" "installments d' = installments d"
    "cancellations d' = cancellations d" "masters_of d' = masters_of d"
    by simp_all
qed

section \<open>The final balance\<close>

lemma cancellation_entries_sum:
  "sum_list (map li_signedAmountPaise (filter (\<lambda>e. li_bookingId e = k)
     (cancellation_entries i ty ded settlement now actor))) = (if k = i then ded + settlement else 0)"
  by (simp add: cancellation_entries_def)

text \<open>A successful cancellation, step by step.\<close>

lemma cancel_booking_Inr:
  assumes "cancel_booking c i dto now actor d = Inr (r, d')"
  obtains b ty d3 where "find_booking c i d = Some b" and "bk_status b \<in> set CANCELLABLE_FROM"
    and "cancellation_deduction c dto b d = Inr (ty, cn_deductionPaise (cx_cancellation r))"
    and "cn_refundablePaise (cx_cancellation r)
      = max 0 (net_received c i d - cn_deductionPaise (cx_cancellation r))"
    and "ledger d3 = ledger (snd (post c (cancellation_entries i ty (cn_deductionPaise (cx_cancellation r))
           (- cn_refundablePaise (cx_cancellation r) - balanceInTx c i d - cn_deductionPaise (cx_cancellation r))
           now actor) d))"
    and "bookings d3 = bookings (upd_booking c i (\<lambda>b. b\<lparr>bk_status := cancelled_status (xc_cancellationType dto),
           bk_cancelledAt := Some now\<rparr>) d)"
    and "units d3 = units d" and "receipts d3 = receipts d" and "tdsDeductions d3 = tdsDeductions d"
    and "masters_of d3 = masters_of d"
    and "release_unit c b actor d3 = Inr d'"
    and "cx_event r = \<lparr>ev_companyId = c, ev_bookingId = i, ev_cancellationType = xc_cancellationType dto,
           ev_cancelledAt = now, ev_brokerId = None\<rparr>"
proof -
  obtain b ty ded where b: "find_booking c i d = Some b" "bk_status b \<in> set CANCELLABLE_FROM"
    and ded: "cancellation_deduction c dto b d = Inr (ty, ded)"
    using assms by (auto simp: cancel_booking_def Let_def)
  let ?ref = "if net_received c i d - ded > 0 then net_received c i d - ded else 0"
  let ?d1 = "snd (post c (cancellation_entries i ty ded (- ?ref - balanceInTx c i d - ded) now actor) d)"
  let ?d2 = "upd_booking c i (\<lambda>b. b\<lparr>bk_status := cancelled_status (xc_cancellationType dto), bk_cancelledAt := Some now\<rparr>) ?d1"
  let ?row = "cancellation_row (next_id ?d2) c i dto ty ded ?ref actor"
  from assms have rel: "release_unit c b actor (add_cancellation ?row ?d2) = Inr d'"
    and row: "cx_cancellation r = ?row"
    and ev: "cx_event r = \<lparr>ev_companyId = c, ev_bookingId = i, ev_cancellationType = xc_cancellationType dto,
           ev_cancelledAt = now, ev_brokerId = None\<rparr>"
    using b ded unfolding cancel_booking_def Let_def by auto
  have e: "cn_deductionPaise (cx_cancellation r) = ded" "cn_refundablePaise (cx_cancellation r) = ?ref"
    by (simp_all add: row cancellation_row_def)
  have m: "?ref = max 0 (net_received c i d - ded)" by simp
  show ?thesis
    by (rule that [OF b _ _ _ _ _ _ _ _ rel ev, of ty])
       (simp_all only: e m [symmetric] ded,
        simp_all add: add_cancellation_def upd_booking_def post_eq)
qed

text \<open>
  C34: cancelling a booking leaves it at exactly what the company owes. The booking's
  balance ends at minus the refundable amount, which is the money received less the
  deduction but never negative; every other balance stays. The booking is CANCELLED or
  SURRENDERED, its unit AVAILABLE again, and a second cancellation is refused.
\<close>

theorem cancel_booking_settles:
  assumes "cancel_booking c i dto now actor d = Inr (r, d')"
  shows "cn_refundablePaise (cx_cancellation r)
      = max 0 (net_received c i d - cn_deductionPaise (cx_cancellation r)) \<and>
    balanceInTx c k d' = (if k = i then - cn_refundablePaise (cx_cancellation r) else balanceInTx c k d) \<and>
    (\<exists>b. find_booking c i d = Some b \<and>
       map_option bk_status (find_booking c i d') = Some (cancelled_status (xc_cancellationType dto)) \<and>
       unit_status_of c (bk_unitId b) d' = map_option (\<lambda>_. AVAILABLE) (unit_status_of c (bk_unitId b) d)) \<and>
    cancel_booking c i dto2 now2 actor2 d' = Inl (BadRequest ''Booking cannot be cancelled'')"
proof -
  obtain b ty d3 where b: "find_booking c i d = Some b"
    and ref: "cn_refundablePaise (cx_cancellation r)
      = max 0 (net_received c i d - cn_deductionPaise (cx_cancellation r))"
    and led: "ledger d3 = ledger (snd (post c (cancellation_entries i ty (cn_deductionPaise (cx_cancellation r))
           (- cn_refundablePaise (cx_cancellation r) - balanceInTx c i d - cn_deductionPaise (cx_cancellation r))
           now actor) d))"
    and bs: "bookings d3 = bookings (upd_booking c i (\<lambda>b. b\<lparr>bk_status := cancelled_status (xc_cancellationType dto),
           bk_cancelledAt := Some now\<rparr>) d)"
    and un: "units d3 = units d"
    and rel: "release_unit c b actor d3 = Inr d'"
    using assms by (rule cancel_booking_Inr)
  note keep = only_units_simps [of d3 d']
  have ou: "only_units d3 d'" and st: "unit_status_of c (bk_unitId b) d'
      = map_option (\<lambda>_. AVAILABLE) (unit_status_of c (bk_unitId b) d3)"
    using release_unit_effect [OF rel, of "bk_unitId b"] by simp_all
  have "balanceInTx c k d' = balanceInTx c k (snd (post c (cancellation_entries i ty
      (cn_deductionPaise (cx_cancellation r)) (- cn_refundablePaise (cx_cancellation r) - balanceInTx c i d
        - cn_deductionPaise (cx_cancellation r)) now actor) d))"
    by (rule balance_cong) (simp add: keep [OF ou] led)
  then have bal: "balanceInTx c k d' = (if k = i then - cn_refundablePaise (cx_cancellation r) else balanceInTx c k d)"
    by (simp add: booking_ledger.balance_append cancellation_entries_sum)
  have find: "find_booking c i d' = Some (b\<lparr>bk_status := cancelled_status (xc_cancellationType dto), bk_cancelledAt := Some now\<rparr>)"
  proof -
    have "find_booking c i d' = find_booking c i (upd_booking c i (\<lambda>b. b\<lparr>bk_status := cancelled_status (xc_cancellationType dto),
           bk_cancelledAt := Some now\<rparr>) d)"
      unfolding find_booking_def keep [OF ou] bs ..
    then show ?thesis using b by (simp add: find_booking_upd)
  qed
  have "unit_status_of c (bk_unitId b) d3 = unit_status_of c (bk_unitId b) d"
    by (rule unit_status_cong [OF un])
  moreover have "cancel_booking c i dto2 now2 actor2 d' = Inl (BadRequest ''Booking cannot be cancelled'')"
    by (simp add: cancel_booking_def find CANCELLABLE_FROM_def cancelled_status_def)
  ultimately show ?thesis using ref bal find b st by simp
qed

text \<open>
  A registered booking can never be cancelled, although the service lists REGISTERED
  among the statuses it accepts: its unit is REGISTERED, a status the unit machine has no
  way out of, so every attempt is rolled back.
\<close>

theorem registered_never_cancelled:
  assumes "find_booking c i d = Some b" and "unit_status_of c (bk_unitId b) d = Some REGISTERED"
  shows "\<exists>e. cancel_booking c i dto now actor d = Inl e"
proof (cases "cancel_booking c i dto now actor d")
  case (Inr p)
  then obtain r d' where "cancel_booking c i dto now actor d = Inr (r, d')" by (cases p) auto
  then obtain b0 d3 where b0: "find_booking c i d = Some b0" and un: "units d3 = units d"
    and rel: "release_unit c b0 actor d3 = Inr d'"
    by (rule cancel_booking_Inr) blast
  have "unit_status_of c (bk_unitId b0) d3 = Some REGISTERED"
    using assms b0 unit_status_cong [OF un, of c] by simp
  then obtain u where u: "find_unit c (bk_unitId b0) d3 = Some u" "un_status u = REGISTERED"
    by (auto simp: unit_status_of_def)
  then have "isl (release_unit c b0 actor d3)"
    by (auto simp: release_unit_def Let_def transition_def isValidTransition_def
        REASON_REQUIRED_STATUSES_def missing_def)
  with rel show ?thesis by simp
qed simp

section \<open>Money the cancellation does not see\<close>

lemma net_received_cong:
  "receipts d' = receipts d \<Longrightarrow> tdsDeductions d' = tdsDeductions d \<Longrightarrow> net_received c i d' = net_received c i d"
  by (simp add: net_received_def tds_of_receipt_def)

definition receipt_bookings_ok :: "db \<Rightarrow> bool" where
  "receipt_bookings_ok d \<longleftrightarrow> list_all (\<lambda>r. rc_bookingId r < next_id d) (receipts d)"

text \<open>
  After a transfer nothing the customer paid is refundable. The receipts stay with the
  old booking, which can no longer be cancelled; cancelling the new booking finds no money
  received, so its refund is zero however much was paid, and its balance ends at zero.
\<close>

theorem transfer_then_cancel_refunds_nothing:
  assumes "transfer_booking c i tdto now actor d = Inr ((t, nid), d1)"
    and "booking_ids_ok d" and "receipt_bookings_ok d"
    and "cancel_booking c nid dto now2 actor2 d1 = Inr (r, d2)"
    and "0 \<le> cn_deductionPaise (cx_cancellation r)"
  shows "cn_refundablePaise (cx_cancellation r) = 0 \<and> balanceInTx c nid d2 = 0 \<and>
    cancel_booking c i dto2 now3 actor3 d1 = Inl (BadRequest ''Booking cannot be cancelled'')"
proof -
  obtain b where old: "find_booking c i d1 = Some (b\<lparr>bk_status := BOOKING_TRANSFERRED_OUT\<rparr>)"
    and rs: "receipts d1 = receipts d" and new: "next_id d \<le> nid"
    using assms(1,2) by (rule transfer_outcome) blast
  have "filter (counts_as_received c nid) (receipts d1) = []"
    using assms(3) new by (auto simp: rs filter_empty_conv counts_as_received_def receipt_bookings_ok_def list_all_iff)
  then have "net_received c nid d1 = 0" by (simp add: net_received_def)
  moreover obtain b2 ty d3 where "cn_refundablePaise (cx_cancellation r)
      = max 0 (net_received c nid d1 - cn_deductionPaise (cx_cancellation r))"
    and led: "ledger d3 = ledger (snd (post c (cancellation_entries nid ty (cn_deductionPaise (cx_cancellation r))
           (- cn_refundablePaise (cx_cancellation r) - balanceInTx c nid d1 - cn_deductionPaise (cx_cancellation r))
           now2 actor2) d1))"
    and rel: "release_unit c b2 actor2 d3 = Inr d2"
    using assms(4) by (rule cancel_booking_Inr) blast
  ultimately have zero: "cn_refundablePaise (cx_cancellation r) = 0" using assms(5) by simp
  have "ledger d2 = ledger d3"
    using release_unit_effect [OF rel] by (simp add: only_units_simps [of d3 d2])
  then have "balanceInTx c nid d2 = balanceInTx c nid (snd (post c (cancellation_entries nid ty (cn_deductionPaise (cx_cancellation r))
           (- cn_refundablePaise (cx_cancellation r) - balanceInTx c nid d1 - cn_deductionPaise (cx_cancellation r))
           now2 actor2) d1))"
    by (intro balance_cong) (simp add: led)
  then have "balanceInTx c nid d2 = 0"
    by (simp add: booking_ledger.balance_append cancellation_entries_sum zero)
  with zero old show ?thesis by (simp add: cancel_booking_def CANCELLABLE_FROM_def)
qed

lemma update_rows_Cons: "update_rows p f (x # xs) = (if p x then f x else x) # update_rows p f xs"
  by (simp add: update_rows_def)

text \<open>
  A cheque that clears after the cancellation is lost to the customer. Its money was not
  counted, so the refundable amount and the final balance leave it out; the later CLEARED
  event posts nothing, while by the cancellation's own measure the company has now received
  the cheque's amount on top.
\<close>

theorem cheque_cleared_after_cancellation:
  assumes "cancel_booking c i dto now actor d = Inr (r, d1)" and "distinct (map rc_id (receipts d))"
    and "find_receipt c k d = Some rc" and "rc_bookingId rc = i" and "\<not> rc_isReversed rc"
    and "rc_clearanceStatus rc \<in> {CLEARANCE_RECEIVED, CLEARANCE_DEPOSITED}"
    and "ced_status ev = EV_CLEARED" and "recordChequeEvent c k ev actor2 d1 = Inr (x, d2)"
  shows "balanceInTx c i d2 = - cn_refundablePaise (cx_cancellation r) \<and>
    net_received c i d2 = net_received c i d + rc_grossAmountPaise rc - tds_of_receipt c k d"
proof -
  obtain b ty d3 where led: "ledger d3 = ledger (snd (post c (cancellation_entries i ty (cn_deductionPaise (cx_cancellation r))
           (- cn_refundablePaise (cx_cancellation r) - balanceInTx c i d - cn_deductionPaise (cx_cancellation r))
           now actor) d))"
    and rs: "receipts d3 = receipts d" and td: "tdsDeductions d3 = tdsDeductions d"
    and rel: "release_unit c b actor d3 = Inr d1"
    using assms(1) by (rule cancel_booking_Inr)
  have ou: "only_units d3 d1" using release_unit_effect [OF rel] by simp
  note keep = only_units_simps [OF ou]
  let ?f = "\<lambda>r. r\<lparr>rc_clearanceStatus := CLEARANCE_CLEARED\<rparr>"
  have d2: "ledger d2 = ledger d1" "tdsDeductions d2 = tdsDeductions d1"
    "receipts d2 = update_rows (\<lambda>r. rc_companyId r = c \<and> rc_id r = k) ?f (receipts d1)"
    using assms(7,8) by (auto simp: recordChequeEvent_def Let_def clearance_of_def upd_receipt_def add_cheque_event_def)
  have "balanceInTx c i d2 = balanceInTx c i (snd (post c (cancellation_entries i ty (cn_deductionPaise (cx_cancellation r))
           (- cn_refundablePaise (cx_cancellation r) - balanceInTx c i d - cn_deductionPaise (cx_cancellation r))
           now actor) d))"
    by (rule balance_cong) (simp add: d2 keep led)
  then have 1: "balanceInTx c i d2 = - cn_refundablePaise (cx_cancellation r)"
    by (simp add: booking_ledger.balance_append cancellation_entries_sum)
  have rc: "rc \<in> set (receipts d)" "rc_companyId rc = c" "rc_id rc = k"
    using assms(3) by (auto simp: find_receipt_def dest!: find_SomeD)
  let ?g = "\<lambda>r. rc_grossAmountPaise r - tds_of_receipt c (rc_id r) d"
  have step: "sum_list (map ?g (filter (counts_as_received c i)
        (update_rows (\<lambda>r. rc_companyId r = c \<and> rc_id r = k) ?f xs)))
      = sum_list (map ?g (filter (counts_as_received c i) xs)) + (if rc \<in> set xs then ?g rc else 0)"
    if "distinct (map rc_id xs)" "\<forall>x\<in>set xs. rc_id x = k \<longrightarrow> x = rc" for xs
    using that
  proof (induction xs)
    case (Cons x xs)
    show ?case
    proof (cases "x = rc")
      case True
      have out: "rc_id y \<noteq> k" if "y \<in> set xs" for y using Cons.prems(1) that True rc(3) by (force simp: image_iff)
      then have tail: "update_rows (\<lambda>r. rc_companyId r = c \<and> rc_id r = k) ?f xs = xs"
        by (intro update_rows_none) simp
      have notin: "rc \<notin> set xs" using out rc(3) by auto
      have "\<not> counts_as_received c i rc" "counts_as_received c i (?f rc)"
        using rc assms(4-6) by (auto simp: counts_as_received_def)
      then show ?thesis unfolding True update_rows_Cons tail by (simp add: rc notin)
    next
      case False
      then have "rc_id x \<noteq> k" using Cons.prems(2) by auto
      moreover have "sum_list (map ?g (filter (counts_as_received c i)
          (update_rows (\<lambda>r. rc_companyId r = c \<and> rc_id r = k) ?f xs)))
        = sum_list (map ?g (filter (counts_as_received c i) xs)) + (if rc \<in> set xs then ?g rc else 0)"
        by (rule Cons.IH) (use Cons.prems in auto)
      ultimately show ?thesis unfolding update_rows_Cons using False by simp
    qed
  qed (simp add: update_rows_def)
  have uniq: "\<forall>x\<in>set (receipts d). rc_id x = k \<longrightarrow> x = rc"
    using assms(2) rc by (auto simp: distinct_map dest: inj_onD)
  have tds: "tds_of_receipt c n d2 = tds_of_receipt c n d" for n
    by (simp add: tds_of_receipt_def d2 keep td)
  have "net_received c i d2 = net_received c i d + ?g rc"
    using step [OF assms(2) uniq] rc(1) unfolding net_received_def tds d2(3) keep rs by simp
  with 1 show ?thesis by (simp add: rc(3))
qed

section \<open>Concrete cancellations\<close>

definition demo_cancel_dto :: cancellation_dto where
  "demo_cancel_dto = \<lparr>xc_cancellationType = CANCEL, xc_cancellationRuleId = None, xc_reason = None\<rparr>"

lemma demo_cancel_succeeds: "\<not> isl (cancel_booking 1 40 demo_cancel_dto demo_day None demo_sold)"
  by code_simp

theorem cancel_booking_settles_witness:
  "\<exists>r d'. cancel_booking 1 40 demo_cancel_dto demo_day None demo_sold = Inr (r, d') \<and>
     balanceInTx 1 40 d' = - cn_refundablePaise (cx_cancellation r)"
proof -
  obtain r d' where r: "cancel_booking 1 40 demo_cancel_dto demo_day None demo_sold = Inr (r, d')"
    using not_isl_Inr [OF demo_cancel_succeeds] by auto
  with cancel_booking_settles [OF r, of 40] show ?thesis by auto
qed

definition demo_registered :: db where
  "demo_registered = demo_sold
     \<lparr>units := [demo_flat 20 REGISTERED, demo_flat 21 HELD, demo_plot],
      bookings := [demo_booking\<lparr>bk_status := BOOKING_REGISTERED\<rparr>]\<rparr>"

lemma demo_registered_facts:
  "map_option bk_unitId (find_booking 1 40 demo_registered) = Some 20"
  "unit_status_of 1 20 demo_registered = Some REGISTERED"
  by code_simp+

theorem registered_never_cancelled_witness:
  "\<exists>e. cancel_booking 1 40 demo_cancel_dto demo_day None demo_registered = Inl e"
proof -
  obtain b where b: "find_booking 1 40 demo_registered = Some b" "bk_unitId b = 20"
    using demo_registered_facts(1) by auto
  then show ?thesis
    using registered_never_cancelled [OF b(1), of demo_cancel_dto demo_day None] demo_registered_facts(2)
    by (simp del: One_nat_def)
qed

lemma demo_transfer_cancel_succeeds:
  "\<not> isl (bindE (transfer_booking 1 40 demo_transfer_dto demo_day None demo_sold)
     (\<lambda>((t, nid), d1). cancel_booking 1 nid demo_cancel_dto demo_day None d1))"
  by code_simp

lemma no_rule_no_deduction:
  assumes "cancel_booking c i dto now actor d = Inr (r, d')" and "xc_cancellationRuleId dto = None"
  shows "cn_deductionPaise (cx_cancellation r) = 0"
  using assms(1) by (rule cancel_booking_Inr) (simp add: cancellation_deduction_def assms(2))

theorem transfer_then_cancel_refunds_nothing_witness:
  "\<exists>t nid d1 r d2. transfer_booking 1 40 demo_transfer_dto demo_day None demo_sold = Inr ((t, nid), d1) \<and>
     cancel_booking 1 nid demo_cancel_dto demo_day None d1 = Inr (r, d2) \<and>
     cn_refundablePaise (cx_cancellation r) = 0"
proof -
  obtain t nid d1 r d2 where
    t: "transfer_booking 1 40 demo_transfer_dto demo_day None demo_sold = Inr ((t, nid), d1)"
    and r: "cancel_booking 1 nid demo_cancel_dto demo_day None d1 = Inr (r, d2)"
    using not_isl_Inr [OF demo_transfer_cancel_succeeds] by auto
  have "receipt_bookings_ok demo_sold" by code_simp
  moreover have "0 \<le> cn_deductionPaise (cx_cancellation r)"
    using no_rule_no_deduction [OF r] by (simp add: demo_cancel_dto_def)
  ultimately show ?thesis
    using transfer_then_cancel_refunds_nothing [OF t demo_sold_ids(2) _ r] t r by blast
qed

text \<open>A cheque of 10000 paise that has not cleared.\<close>

definition demo_cheque :: receipt where
  "demo_cheque = \<lparr>rc_id = 60, rc_companyId = 1, rc_bookingId = 40, rc_receiptNumber = ''R'',
     rc_fyLabel = ''F'', rc_seqValue = 1, rc_receiptDate = demo_day, rc_mode = CHEQUE,
     rc_grossAmountPaise = 10000, rc_receiptTypeId = None, rc_bankId = None, rc_instrumentNumber = None,
     rc_instrumentDate = None, rc_utr = None, rc_clearanceStatus = CLEARANCE_RECEIVED,
     rc_isReversed = False, rc_reversalReason = None, rc_reprintCount = 0, rc_createdById = None\<rparr>"

definition demo_with_cheque :: db where
  "demo_with_cheque = demo_sold\<lparr>receipts := [demo_cheque]\<rparr>"

definition demo_cleared :: cheque_event_dto where
  "demo_cleared = \<lparr>ced_status = EV_CLEARED, ced_eventDate = demo_day, ced_reason = None\<rparr>"

lemma demo_cheque_succeeds:
  "\<not> isl (bindE (cancel_booking 1 40 demo_cancel_dto demo_day None demo_with_cheque)
     (\<lambda>(r, d1). recordChequeEvent 1 60 demo_cleared None d1))"
  by code_simp

theorem cheque_cleared_after_cancellation_witness:
  "\<exists>r d1 x d2. cancel_booking 1 40 demo_cancel_dto demo_day None demo_with_cheque = Inr (r, d1) \<and>
     recordChequeEvent 1 60 demo_cleared None d1 = Inr (x, d2) \<and>
     balanceInTx 1 40 d2 = - cn_refundablePaise (cx_cancellation r)"
proof -
  obtain r d1 x d2 where
    r: "cancel_booking 1 40 demo_cancel_dto demo_day None demo_with_cheque = Inr (r, d1)"
    and x: "recordChequeEvent 1 60 demo_cleared None d1 = Inr (x, d2)"
    using not_isl_Inr [OF demo_cheque_succeeds] by auto
  have f: "find_receipt 1 60 demo_with_cheque = Some demo_cheque"
    by (simp add: find_receipt_def demo_with_cheque_def demo_cheque_def)
  have "distinct (map rc_id (receipts demo_with_cheque))" by (simp add: demo_with_cheque_def)
  from cheque_cleared_after_cancellation [OF r this f _ _ _ _ x]
  have "balanceInTx 1 40 d2 = - cn_refundablePaise (cx_cancellation r)"
    by (simp add: demo_cheque_def demo_cleared_def)
  with r x show ?thesis by blast
qed

end
