(* ===== verification/PanEncryption.thy ===== *)
theory PanEncryption
  imports Text
begin

text \<open>
  \<open>apps/api/src/common/pan-encryption.service.ts\<close>: PAN numbers encrypted at rest and
  masked for display. AES-256-GCM and base64 (\<open>node:crypto\<close> and \<open>Buffer\<close>) are
  arguments: \<open>seal iv plaintext\<close> gives the cipher text and its tag under the service's
  key, \<open>unseal iv tag ciphertext\<close> the plaintext or an authentication failure. The iv is
  an argument too, since \<open>randomBytes\<close> chooses it.
\<close>

definition IV_LENGTH :: nat where
  "IV_LENGTH = 12"

definition TAG_LENGTH :: nat where
  "TAG_LENGTH = 16"

definition encrypt ::
  "(string \<Rightarrow> string \<Rightarrow> string \<times> string) \<Rightarrow> (string \<Rightarrow> string) \<Rightarrow> string \<Rightarrow> string \<Rightarrow> string" where
  "encrypt seal base64 iv plaintext =
     (let (encrypted, tag) = seal iv plaintext
      in base64 (iv @ tag @ encrypted))"

definition decrypt ::
  "(string \<Rightarrow> string \<Rightarrow> string \<Rightarrow> string option) \<Rightarrow> (string \<Rightarrow> string) \<Rightarrow> string \<Rightarrow> string option" where
  "decrypt unseal unbase64 ciphertext =
     (let buf = unbase64 ciphertext;
          iv = take IV_LENGTH buf;
          tag = take TAG_LENGTH (drop IV_LENGTH buf);
          encrypted = drop (IV_LENGTH + TAG_LENGTH) buf
      in unseal iv tag encrypted)"

definition mask_pan :: "string \<Rightarrow> string" where
  "mask_pan pan =
     (if length pan \<noteq> 10 then replicate (length pan) CHR ''X''
      else replicate 5 CHR ''X'' @ drop 5 pan)"

lemma mask_length [simp]: "length (mask_pan pan) = length pan"
  by (simp add: mask_pan_def)

lemma mask_hides: "i < 5 \<Longrightarrow> i < length pan \<Longrightarrow> mask_pan pan ! i = CHR ''X''"
  by (auto simp: mask_pan_def nth_append)

text \<open>
  A stored PAN decrypts to itself, whatever iv was drawn, when the cipher opens what it
  sealed, tags have the GCM length and base64 decodes what it encoded; and the masked form
  stored beside it depends on the last five characters only.
\<close>

theorem pan_roundtrip:
  assumes "\<And>iv p c t. seal iv p = (c, t) \<Longrightarrow> unseal iv t c = Some p"
    and "\<And>iv p. length (snd (seal iv p)) = TAG_LENGTH"
    and "\<And>s. unbase64 (base64 s) = s"
    and "length iv = IV_LENGTH"
  shows "decrypt unseal unbase64 (encrypt seal base64 iv pan) = Some pan \<and>
    (length pan' = length pan \<and> drop 5 pan' = drop 5 pan \<longrightarrow> mask_pan pan' = mask_pan pan)"
proof -
  obtain e t where s: "seal iv pan = (e, t)" by (cases "seal iv pan")
  have t: "length t = TAG_LENGTH" using assms(2) [of iv pan] by (simp add: s)
  have "decrypt unseal unbase64 (encrypt seal base64 iv pan) = unseal iv t e"
    using t assms(4) by (simp add: encrypt_def decrypt_def s assms(3) Let_def)
  then show ?thesis using assms(1) [OF s] by (auto simp: mask_pan_def)
qed

text \<open>A toy cipher that satisfies the laws: the tag repeats a character, the text is reversed.\<close>

definition toy_seal :: "string \<Rightarrow> string \<Rightarrow> string \<times> string" where
  "toy_seal iv p = (rev p, replicate 16 CHR ''t'')"

definition toy_unseal :: "string \<Rightarrow> string \<Rightarrow> string \<Rightarrow> string option" where
  "toy_unseal iv t c = (if t = replicate 16 CHR ''t'' then Some (rev c) else None)"

theorem pan_roundtrip_witness:
  "decrypt toy_unseal id (encrypt toy_seal id ''abcdefghijkl'' ''ABCDE1234F'') = Some ''ABCDE1234F'' \<and>
   mask_pan ''ABCDE1234F'' = ''XXXXX1234F''"
proof -
  have "decrypt toy_unseal id (encrypt toy_seal id ''abcdefghijkl'' ''ABCDE1234F'') = Some ''ABCDE1234F''"
    using pan_roundtrip [of toy_seal toy_unseal id id "''abcdefghijkl''" "''ABCDE1234F''"]
    by (auto simp: toy_seal_def toy_unseal_def TAG_LENGTH_def IV_LENGTH_def)
  moreover have "mask_pan ''ABCDE1234F'' = ''XXXXX1234F''" by code_simp
  ultimately show ?thesis by simp
qed

end
