(* ===== verification/Brokers.thy ===== *)
theory Brokers
  imports Booking PanEncryption
begin

text \<open>
  \<open>apps/api/src/brokers/broker.service.ts\<close> and \<open>broker-commission-rule.service.ts\<close>:
  brokers with their bank details, the sourcing broker of a booking, and the commission
  rules with their slabs. \<open>enc\<close> and \<open>dec\<close> stand for the PAN encryption, which
  draws a random iv.
\<close>

section \<open>Brokers\<close>

definition is_upper :: "char \<Rightarrow> bool" where
  "is_upper ch \<longleftrightarrow> 65 \<le> (of_char ch :: nat) \<and> (of_char ch :: nat) \<le> 90"

text \<open>\<open>/^[A-Z]{5}[0-9]{4}[A-Z]$/\<close> and \<open>/^[A-Z]{4}0[A-Z0-9]{6}$/\<close>.\<close>

definition pan_format :: "string \<Rightarrow> bool" where
  "pan_format s \<longleftrightarrow> length s = 10 \<and> list_all is_upper (take 5 s) \<and>
     list_all is_digit (take 4 (drop 5 s)) \<and> list_all is_upper (drop 9 s)"

definition ifsc_format :: "string \<Rightarrow> bool" where
  "ifsc_format s \<longleftrightarrow> length s = 11 \<and> list_all is_upper (take 4 s) \<and> s ! 4 = CHR ''0'' \<and>
     list_all (\<lambda>ch. is_upper ch \<or> is_digit ch) (drop 5 s)"

record create_broker_dto =
  nb_name :: string
  nb_phone :: string
  nb_email :: "string option"
  nb_reraAgentNo :: "string option"
  nb_pan :: "string option"

text \<open>The email check of the schema is zod's and not modelled.\<close>

definition createBrokerSchema :: "create_broker_dto \<Rightarrow> bool" where
  "createBrokerSchema dto \<longleftrightarrow>
     1 \<le> length (nb_name dto) \<and> length (nb_name dto) \<le> 255 \<and>
     1 \<le> length (nb_phone dto) \<and> length (nb_phone dto) \<le> 20 \<and>
     (case nb_reraAgentNo dto of None \<Rightarrow> True | Some s \<Rightarrow> length s \<le> 50) \<and>
     (case nb_pan dto of None \<Rightarrow> True | Some p \<Rightarrow> pan_format p)"

record update_broker_dto =
  ub_name :: "string option"
  ub_phone :: "string option"
  ub_email :: "string option"
  ub_reraAgentNo :: "string option"
  ub_pan :: "string option"

definition find_broker :: "id \<Rightarrow> id \<Rightarrow> db \<Rightarrow> broker option" where
  "find_broker companyId i d = List.find (\<lambda>r. br_id r = i \<and> br_companyId r = companyId) (brokers d)"

text \<open>The phone number is unique within a company.\<close>

definition phone_taken :: "id \<Rightarrow> string \<Rightarrow> id option \<Rightarrow> db \<Rightarrow> bool" where
  "phone_taken companyId phone self d \<longleftrightarrow>
     list_ex (\<lambda>r. br_companyId r = companyId \<and> br_phone r = phone \<and> Some (br_id r) \<noteq> self) (brokers d)"

definition create_broker ::
  "(string \<Rightarrow> string) \<Rightarrow> id \<Rightarrow> create_broker_dto \<Rightarrow> db \<Rightarrow> (broker \<times> db) result" where
  "create_broker enc companyId dto d =
     (let r = \<lparr>br_id = next_id d, br_companyId = companyId, br_name = nb_name dto, br_phone = nb_phone dto,
               br_email = nb_email dto, br_reraAgentNo = nb_reraAgentNo dto,
               br_panCiphertext = map_option enc (nb_pan dto), br_panMasked = map_option mask_pan (nb_pan dto),
               br_isActive = True, br_deactivatedAt = None\<rparr>
      in if phone_taken companyId (nb_phone dto) None d then Inl UniqueViolation
         else Inr (r, add_broker r d))"

text \<open>Members that are absent from the request leave their column alone.\<close>

definition or_keep :: "'a option \<Rightarrow> 'a \<Rightarrow> 'a" where
  "or_keep v old = (case v of None \<Rightarrow> old | Some x \<Rightarrow> x)"

definition updated_broker :: "(string \<Rightarrow> string) \<Rightarrow> update_broker_dto \<Rightarrow> broker \<Rightarrow> broker" where
  "updated_broker enc dto r =
     r\<lparr>br_name := or_keep (ub_name dto) (br_name r), br_phone := or_keep (ub_phone dto) (br_phone r),
       br_email := (case ub_email dto of None \<Rightarrow> br_email r | Some e \<Rightarrow> Some e),
       br_reraAgentNo := (case ub_reraAgentNo dto of None \<Rightarrow> br_reraAgentNo r | Some e \<Rightarrow> Some e),
       br_panCiphertext := (case ub_pan dto of None \<Rightarrow> br_panCiphertext r | Some p \<Rightarrow> Some (enc p)),
       br_panMasked := (case ub_pan dto of None \<Rightarrow> br_panMasked r | Some p \<Rightarrow> Some (mask_pan p))\<rparr>"

definition update_broker ::
  "(string \<Rightarrow> string) \<Rightarrow> id \<Rightarrow> id \<Rightarrow> update_broker_dto \<Rightarrow> db \<Rightarrow> (broker \<times> db) result" where
  "update_broker enc companyId i dto d =
     bindE (orFail (NotFound ''Broker not found'') (find_broker companyId i d)) (\<lambda>r.
     let r' = updated_broker enc dto r in
     if phone_taken companyId (br_phone r') (Some i) d then Inl UniqueViolation
     else Inr (r', upd_broker companyId i (updated_broker enc dto) d))"

definition set_broker_active ::
  "id \<Rightarrow> id \<Rightarrow> bool \<Rightarrow> date option \<Rightarrow> db \<Rightarrow> (broker \<times> db) result" where
  "set_broker_active companyId i active stamp d =
     bindE (orFail (NotFound ''Broker not found'') (find_broker companyId i d)) (\<lambda>r.
     let f = (\<lambda>r. r\<lparr>br_isActive := active, br_deactivatedAt := stamp\<rparr>)
     in Inr (f r, upd_broker companyId i f d))"

definition deactivate_broker :: "id \<Rightarrow> id \<Rightarrow> date \<Rightarrow> db \<Rightarrow> (broker \<times> db) result" where
  "deactivate_broker companyId i now d = set_broker_active companyId i False (Some now) d"

definition reactivate_broker :: "id \<Rightarrow> id \<Rightarrow> db \<Rightarrow> (broker \<times> db) result" where
  "reactivate_broker companyId i d = set_broker_active companyId i True None d"

definition revealPan :: "(string \<Rightarrow> string) \<Rightarrow> id \<Rightarrow> id \<Rightarrow> db \<Rightarrow> string option result" where
  "revealPan dec companyId i d =
     bindE (orFail (NotFound ''Broker not found'') (find_broker companyId i d)) (\<lambda>r.
       Inr (case br_panCiphertext r of
              None \<Rightarrow> None
            | Some s \<Rightarrow> if s = '''' then None else Some (dec s)))"

text \<open>The sourcing broker of a booking: both must exist, nothing else is checked.\<close>

definition assignToBooking :: "id \<Rightarrow> id \<Rightarrow> id \<Rightarrow> db \<Rightarrow> (booking \<times> db) result" where
  "assignToBooking companyId bookingId brokerId d =
     bindE (orFail (NotFound ''Broker not found'') (find_broker companyId brokerId d)) (\<lambda>_.
     bindE (orFail (NotFound ''Booking not found'') (find_booking companyId bookingId d)) (\<lambda>b.
     let f = (\<lambda>b. b\<lparr>bk_brokerId := Some brokerId\<rparr>)
     in Inr (f b, upd_booking companyId bookingId f d)))"

section \<open>Bank details\<close>

record bank_detail_dto =
  bd_accountHolder :: string
  bd_accountNumber :: string
  bd_ifsc :: string
  bd_bankName :: string
  bd_isPrimary :: bool

definition brokerBankDetailSchema :: "bank_detail_dto \<Rightarrow> bool" where
  "brokerBankDetailSchema dto \<longleftrightarrow>
     1 \<le> length (bd_accountHolder dto) \<and> length (bd_accountHolder dto) \<le> 255 \<and>
     1 \<le> length (bd_accountNumber dto) \<and> length (bd_accountNumber dto) \<le> 30 \<and>
     ifsc_format (bd_ifsc dto) \<and> 1 \<le> length (bd_bankName dto) \<and> length (bd_bankName dto) \<le> 255"

definition addBankDetail ::
  "id \<Rightarrow> id \<Rightarrow> bank_detail_dto \<Rightarrow> db \<Rightarrow> (broker_bank_detail \<times> db) result" where
  "addBankDetail companyId brokerId dto d =
     bindE (orFail (NotFound ''Broker not found'') (find_broker companyId brokerId d)) (\<lambda>_.
     let d1 = (if bd_isPrimary dto
               then updm_bank_detail companyId (\<lambda>r. bbd_brokerId r = brokerId) (\<lambda>r. r\<lparr>bbd_isPrimary := False\<rparr>) d
               else d);
         row = \<lparr>bbd_id = next_id d1, bbd_companyId = companyId, bbd_brokerId = brokerId,
                bbd_accountHolder = bd_accountHolder dto, bbd_accountNumber = bd_accountNumber dto,
                bbd_ifsc = bd_ifsc dto, bbd_bankName = bd_bankName dto, bbd_isPrimary = bd_isPrimary dto\<rparr>
     in Inr (row, add_bank_detail row d1))"

definition listBankDetails :: "id \<Rightarrow> id \<Rightarrow> db \<Rightarrow> broker_bank_detail list result" where
  "listBankDetails companyId brokerId d =
     bindE (orFail (NotFound ''Broker not found'') (find_broker companyId brokerId d)) (\<lambda>_.
       let rows = filter (\<lambda>r. bbd_companyId r = companyId \<and> bbd_brokerId r = brokerId) (bankDetails d)
       in Inr (filter bbd_isPrimary rows @ filter (\<lambda>r. \<not> bbd_isPrimary r) rows))"

text \<open>How many primary bank details a broker has.\<close>

definition primaries :: "id \<Rightarrow> id \<Rightarrow> db \<Rightarrow> broker_bank_detail list" where
  "primaries c b d =
     filter (\<lambda>r. bbd_companyId r = c \<and> bbd_brokerId r = b \<and> bbd_isPrimary r) (bankDetails d)"

text \<open>
  A broker never has two primary bank details. If there was at most one before, there
  is at most one after \<open>addBankDetail\<close>, and it is the new one when the request asks
  for that.
\<close>

theorem addBankDetail_one_primary:
  assumes "addBankDetail c b dto d = Inr (row, d')" and "length (primaries c k d) \<le> 1"
  shows "length (primaries c k d') \<le> 1 \<and> (k = b \<and> bd_isPrimary dto \<longrightarrow> primaries c k d' = [row])"
proof -
  have cleared: "\<And>k. filter (\<lambda>r. bbd_companyId r = c \<and> bbd_brokerId r = k \<and> bbd_isPrimary r)
      (update_rows (\<lambda>r. bbd_companyId r = c \<and> bbd_brokerId r = b) (\<lambda>r. r\<lparr>bbd_isPrimary := False\<rparr>) rs)
    = (if k = b then [] else filter (\<lambda>r. bbd_companyId r = c \<and> bbd_brokerId r = k \<and> bbd_isPrimary r) rs)"
    for rs by (induction rs) (auto simp: update_rows_def)
  show ?thesis
    using assms cleared [of b] by (auto simp: addBankDetail_def Let_def primaries_def add_bank_detail_def
        updm_bank_detail_def cleared split: if_splits)
qed

definition demo_bank_dto :: bank_detail_dto where
  "demo_bank_dto = \<lparr>bd_accountHolder = ''B'', bd_accountNumber = ''1'', bd_ifsc = ''HDFC0000001'',
     bd_bankName = ''H'', bd_isPrimary = True\<rparr>"

theorem addBankDetail_one_primary_witness:
  "\<exists>row d'. addBankDetail 1 30 demo_bank_dto demo_db = Inr (row, d') \<and> primaries 1 30 d' = [row]"
proof -
  have "\<not> isl (addBankDetail 1 30 demo_bank_dto demo_db)" by code_simp
  then obtain row d' where r: "addBankDetail 1 30 demo_bank_dto demo_db = Inr (row, d')"
    using not_isl_Inr by fastforce
  have "length (primaries 1 30 demo_db) \<le> 1" by code_simp
  from addBankDetail_one_primary [OF r this] r show ?thesis by (auto simp: demo_bank_dto_def)
qed

section \<open>Commission rules\<close>

record create_commission_rule_dto =
  nr_brokerId :: id
  nr_projectId :: "id option"
  nr_commissionType :: commission_type
  nr_flatPercent :: "number option"
  nr_flatPaise :: "int option"
  nr_milestones :: "int list option"
  nr_slabs :: "commission_slab list option"

definition commissionSlabInputSchema :: "commission_slab \<Rightarrow> bool" where
  "commissionSlabInputSchema s \<longleftrightarrow>
     1 \<le> cs_seq s \<and> 0 \<le> cs_fromPaise s \<and> (case cs_toPaise s of None \<Rightarrow> True | Some t \<Rightarrow> 0 \<le> t) \<and>
     0 \<le> cs_ratePercent s \<and> cs_ratePercent s \<le> 100"

definition createCommissionRuleSchema :: "create_commission_rule_dto \<Rightarrow> bool" where
  "createCommissionRuleSchema d \<longleftrightarrow>
     (case nr_flatPercent d of None \<Rightarrow> True | Some p \<Rightarrow> 0 \<le> p \<and> p \<le> 100) \<and>
     (case nr_flatPaise d of None \<Rightarrow> True | Some p \<Rightarrow> 0 \<le> p) \<and>
     (case nr_milestones d of None \<Rightarrow> True | Some ms \<Rightarrow> commissionMilestonesSchema ms) \<and>
     (case nr_slabs d of None \<Rightarrow> True | Some ss \<Rightarrow> list_all commissionSlabInputSchema ss) \<and>
     (nr_commissionType d = SLAB \<longrightarrow> (case nr_slabs d of None \<Rightarrow> False | Some ss \<Rightarrow> ss \<noteq> [])) \<and>
     (nr_commissionType d = FLAT_PERCENT \<longrightarrow> nr_flatPercent d \<noteq> None) \<and>
     (nr_commissionType d = FLAT_AMOUNT \<longrightarrow> nr_flatPaise d \<noteq> None)"

text \<open>A rule as the services read it: the row with its slabs.\<close>

type_synonym rule_view = "broker_commission_rule \<times> commission_slab list"

definition slabs_of_rule :: "id \<Rightarrow> db \<Rightarrow> commission_slab list" where
  "slabs_of_rule ruleId d =
     sort_key cs_seq (map bcs_slab (filter (\<lambda>r. bcs_ruleId r = ruleId) (commissionSlabs d)))"

definition find_rule :: "id \<Rightarrow> id \<Rightarrow> db \<Rightarrow> broker_commission_rule option" where
  "find_rule companyId i d =
     List.find (\<lambda>r. bcr_id r = i \<and> bcr_companyId r = companyId) (commissionRules d)"

definition findOneRule :: "id \<Rightarrow> id \<Rightarrow> db \<Rightarrow> rule_view result" where
  "findOneRule companyId i d =
     bindE (orFail (NotFound ''Commission rule not found'') (find_rule companyId i d)) (\<lambda>r.
       Inr (r, slabs_of_rule i d))"

text \<open>
  The project's own rule first, else the broker's default. An absent project id reaches the
  query as the empty string, which the database driver rejects for a uuid column.
\<close>

definition findApplicableRule ::
  "id \<Rightarrow> id \<Rightarrow> id option \<Rightarrow> db \<Rightarrow> rule_view option result" where
  "findApplicableRule companyId brokerId projectId d =
     (case projectId of
        None \<Rightarrow> Inl (JsError ''invalid uuid'')
      | Some p \<Rightarrow>
          let pick = (\<lambda>q. List.find (\<lambda>r. bcr_companyId r = companyId \<and> bcr_brokerId r = brokerId \<and>
                                        bcr_projectId r = q \<and> bcr_isActive r) (commissionRules d))
          in Inr (map_option (\<lambda>r. (r, slabs_of_rule (bcr_id r) d))
                    (case pick (Some p) of Some r \<Rightarrow> Some r | None \<Rightarrow> pick None)))"

text \<open>\<open>createMany\<close> of a rule's slabs; \<open>(rule_id, seq)\<close> is unique.\<close>

definition create_slabs :: "id \<Rightarrow> id \<Rightarrow> commission_slab list \<Rightarrow> db \<Rightarrow> db result" where
  "create_slabs companyId ruleId slabs d =
     (if distinct (map cs_seq (slabs_of_rule ruleId d @ slabs))
      then Inr (foldl (\<lambda>d s. add_commission_slab
                  \<lparr>bcs_companyId = companyId, bcs_ruleId = ruleId, bcs_slab = s\<rparr> d) d slabs)
      else Inl UniqueViolation)"

definition check_slabs :: "commission_slab list \<Rightarrow> unit result" where
  "check_slabs slabs =
     (case validateSlabContiguity slabs of None \<Rightarrow> Inr () | Some e \<Rightarrow> Inl (BadRequest e))"

definition new_rule :: "id \<Rightarrow> id \<Rightarrow> create_commission_rule_dto \<Rightarrow> broker_commission_rule" where
  "new_rule new companyId dto =
     \<lparr>bcr_id = new, bcr_companyId = companyId, bcr_brokerId = nr_brokerId dto,
      bcr_projectId = nr_projectId dto, bcr_commissionType = nr_commissionType dto,
      bcr_flatPercent = nr_flatPercent dto, bcr_flatPaise = nr_flatPaise dto,
      bcr_milestonesJson = nr_milestones dto, bcr_isActive = True\<rparr>"

definition create_rule ::
  "id \<Rightarrow> create_commission_rule_dto \<Rightarrow> db \<Rightarrow> (rule_view \<times> db) result" where
  "create_rule companyId dto d =
     bindE (orFail (NotFound ''Broker not found'') (find_broker companyId (nr_brokerId dto) d)) (\<lambda>_.
     bindE (if nr_commissionType dto = SLAB
            then check_slabs (case nr_slabs dto of None \<Rightarrow> [] | Some ss \<Rightarrow> ss) else Inr ()) (\<lambda>_.
     let rule = new_rule (next_id d) companyId dto;
         d1 = add_commission_rule rule d
     in bindE (case nr_slabs dto of
                 Some ss \<Rightarrow> if nr_commissionType dto = SLAB then create_slabs companyId (bcr_id rule) ss d1 else Inr d1
               | None \<Rightarrow> Inr d1) (\<lambda>d2.
          Inr ((rule, slabs_of_rule (bcr_id rule) d2), d2))))"

record update_commission_rule_dto =
  ur_projectId :: "id option"
  ur_commissionType :: "commission_type option"
  ur_flatPercent :: "number option"
  ur_flatPaise :: "int option"
  ur_milestones :: "int list option"
  ur_slabs :: "commission_slab list option"

definition keep_or :: "'a option \<Rightarrow> 'a option \<Rightarrow> 'a option" where
  "keep_or new old = (case new of None \<Rightarrow> old | Some x \<Rightarrow> Some x)"

definition updated_rule :: "update_commission_rule_dto \<Rightarrow> broker_commission_rule \<Rightarrow> broker_commission_rule" where
  "updated_rule dto r =
     r\<lparr>bcr_projectId := keep_or (ur_projectId dto) (bcr_projectId r),
       bcr_commissionType := or_keep (ur_commissionType dto) (bcr_commissionType r),
       bcr_flatPercent := keep_or (ur_flatPercent dto) (bcr_flatPercent r),
       bcr_flatPaise := keep_or (ur_flatPaise dto) (bcr_flatPaise r),
       bcr_milestonesJson := keep_or (ur_milestones dto) (bcr_milestonesJson r)\<rparr>"

definition update_rule ::
  "id \<Rightarrow> id \<Rightarrow> update_commission_rule_dto \<Rightarrow> db \<Rightarrow> (rule_view \<times> db) result" where
  "update_rule companyId i dto d =
     bindE (findOneRule companyId i d) (\<lambda>(existing, _).
     bindE (case ur_slabs dto of
              Some ss \<Rightarrow> if or_keep (ur_commissionType dto) (bcr_commissionType existing) = SLAB
                        then check_slabs ss else Inr ()
            | None \<Rightarrow> Inr ()) (\<lambda>_.
     let d1 = upd_commission_rule companyId i (updated_rule dto) d
     in bindE (case ur_slabs dto of
                 Some ss \<Rightarrow> create_slabs companyId i ss
                              (delm_commission_slab companyId (\<lambda>s. bcs_ruleId s = i) d1)
               | None \<Rightarrow> Inr d1) (\<lambda>d2.
          Inr ((updated_rule dto existing, slabs_of_rule i d2), d2))))"

definition deactivate_rule :: "id \<Rightarrow> id \<Rightarrow> db \<Rightarrow> (unit \<times> db) result" where
  "deactivate_rule companyId i d =
     bindE (findOneRule companyId i d) (\<lambda>_.
       Inr ((), upd_commission_rule companyId i (\<lambda>r. r\<lparr>bcr_isActive := False\<rparr>) d))"

definition findAllForBroker :: "id \<Rightarrow> id \<Rightarrow> db \<Rightarrow> rule_view list" where
  "findAllForBroker companyId brokerId d =
     map (\<lambda>r. (r, slabs_of_rule (bcr_id r) d))
       (rev (filter (\<lambda>r. bcr_companyId r = companyId \<and> bcr_brokerId r = brokerId) (commissionRules d)))"

text \<open>What the arithmetic reads of a rule.\<close>

definition rule_like :: "broker_commission_rule \<Rightarrow> commission_rule_like" where
  "rule_like r = \<lparr>crl_commissionType = bcr_commissionType r, crl_flatPercent = bcr_flatPercent r,
     crl_flatPaise = bcr_flatPaise r\<rparr>"

section \<open>Rules that always give a commission\<close>

lemma foldl_add_slabs:
  "commissionSlabs (foldl (\<lambda>d s. add_commission_slab \<lparr>bcs_companyId = c, bcs_ruleId = i, bcs_slab = s\<rparr> d) d ss)
     = commissionSlabs d @ map (\<lambda>s. \<lparr>bcs_companyId = c, bcs_ruleId = i, bcs_slab = s\<rparr>) ss"
  by (induction ss arbitrary: d) (simp_all add: add_commission_slab_def)

lemma sort_key_eq_Nil: "sort_key f xs = [] \<longleftrightarrow> xs = []"
  unfolding length_0_conv [symmetric] by simp

lemma slabs_of_rule_Nil:
  "slabs_of_rule i d = [] \<longleftrightarrow> filter (\<lambda>r. bcs_ruleId r = i) (commissionSlabs d) = []"
  by (simp add: slabs_of_rule_def sort_key_eq_Nil)

lemma create_slabs_fresh:
  assumes "create_slabs c i ss d = Inr d'" and "slabs_of_rule i d = []"
  shows "slabs_of_rule i d' = sort_key cs_seq ss"
proof -
  have "commissionSlabs d' = commissionSlabs d @ map (\<lambda>s. \<lparr>bcs_companyId = c, bcs_ruleId = i, bcs_slab = s\<rparr>) ss"
    using assms(1) by (auto simp: create_slabs_def foldl_add_slabs split: if_splits)
  then show ?thesis
    using assms(2) unfolding slabs_of_rule_Nil by (simp add: slabs_of_rule_def filter_map o_def)
qed

lemma validate_sorted: "validateSlabContiguity (sort_key cs_seq ss) = validateSlabContiguity ss"
proof -
  have "sort_key cs_seq (sort_key cs_seq ss) = sort_key cs_seq ss"
    by (rule sort_key_sorted_id) simp
  then show ?thesis by (simp add: validateSlabContiguity_def Let_def sort_key_eq_Nil)
qed

text \<open>
  A commission rule that was accepted can always be applied. For every non-negative
  agreed price the commission computation returns an amount, whatever kind of rule was
  created; for a slab rule some bracket matches.
\<close>

theorem create_rule_computable:
  assumes "create_rule c dto d = Inr ((r, ss), d')" and "slabs_of_rule (next_id d) d = []"
    and "0 \<le> basis"
  shows "\<exists>x. computeCommissionPaise basis (rule_like r) (Some ss) = Inr x"
proof (cases "nr_commissionType dto = SLAB")
  case False
  with assms(1) have "bcr_commissionType r \<noteq> SLAB"
    by (auto simp: create_rule_def Let_def new_rule_def)
  then show ?thesis
    by (cases "bcr_commissionType r") (simp_all add: computeCommissionPaise_def rule_like_def)
next
  case True
  with assms(1) obtain d2 where
    chk: "validateSlabContiguity (case nr_slabs dto of None \<Rightarrow> [] | Some ss \<Rightarrow> ss) = None"
    and mk: "(case nr_slabs dto of Some ss \<Rightarrow> create_slabs c (next_id d) ss
                (add_commission_rule (new_rule (next_id d) c dto) d)
              | None \<Rightarrow> Inr (add_commission_rule (new_rule (next_id d) c dto) d)) = Inr d2"
    and r: "r = new_rule (next_id d) c dto" and ss: "ss = slabs_of_rule (next_id d) d2"
    by (auto simp: create_rule_def Let_def check_slabs_def new_rule_def split: option.splits)
  from chk obtain sl where sl: "nr_slabs dto = Some sl"
    by (cases "nr_slabs dto") (auto simp: validateSlabContiguity_def)
  have "slabs_of_rule (next_id d) (add_commission_rule (new_rule (next_id d) c dto) d) = []"
    using assms(2) by (simp add: slabs_of_rule_def add_commission_rule_def)
  with mk sl have "ss = sort_key cs_seq sl" by (simp add: create_slabs_fresh ss)
  with chk sl have "validateSlabContiguity ss = None" by (simp add: validate_sorted)
  moreover have "crl_commissionType (rule_like r) = SLAB" using True by (simp add: r rule_like_def new_rule_def)
  ultimately show ?thesis
    using computeCommissionPaise_slab_total [of "rule_like r" ss basis] assms(3) by blast
qed

definition demo_slab_dto :: create_commission_rule_dto where
  "demo_slab_dto = \<lparr>nr_brokerId = 30, nr_projectId = Some 3, nr_commissionType = SLAB, nr_flatPercent = None,
     nr_flatPaise = None, nr_milestones = None,
     nr_slabs = Some [\<lparr>cs_seq = 1, cs_fromPaise = 0, cs_toPaise = Some 1000, cs_ratePercent = 1\<rparr>,
                      \<lparr>cs_seq = 2, cs_fromPaise = 1000, cs_toPaise = None, cs_ratePercent = 2\<rparr>]\<rparr>"

theorem create_rule_computable_witness:
  "\<exists>r ss d' x. create_rule 1 demo_slab_dto demo_db = Inr ((r, ss), d') \<and>
     computeCommissionPaise 110900 (rule_like r) (Some ss) = Inr x"
proof -
  have "\<not> isl (create_rule 1 demo_slab_dto demo_db)" by code_simp
  then obtain r ss d' where r: "create_rule 1 demo_slab_dto demo_db = Inr ((r, ss), d')"
    using not_isl_Inr by fastforce
  have "slabs_of_rule (next_id demo_db) demo_db = []" by code_simp
  from create_rule_computable [OF r this, of 110900] r show ?thesis by auto
qed

text \<open>
  An update can leave a rule that never gives a commission. Turning a rule without
  slabs into a SLAB rule without sending slabs is accepted, although the schema's comment
  leaves that check to the service; every later computation with the rule throws.
\<close>

theorem update_rule_to_empty_slab:
  assumes "find_rule c i d = Some r" and "slabs_of_rule i d = []"
    and "ur_commissionType dto = Some SLAB" and "ur_slabs dto = None"
  shows "\<exists>r' d'. update_rule c i dto d = Inr ((r', []), d') \<and>
    (\<forall>basis. \<exists>e. computeCommissionPaise basis (rule_like r') (Some []) = Inl e)"
proof -
  have "slabs_of_rule i (upd_commission_rule c i (updated_rule dto) d) = []"
    using assms(2) by (simp add: slabs_of_rule_def upd_commission_rule_def)
  then have "update_rule c i dto d
      = Inr ((updated_rule dto r, []), upd_commission_rule c i (updated_rule dto) d)"
    using assms by (simp add: update_rule_def findOneRule_def)
  moreover have "crl_commissionType (rule_like (updated_rule dto r)) = SLAB"
    using assms(3) by (simp add: rule_like_def updated_rule_def or_keep_def)
  ultimately show ?thesis
    by (auto simp: computeCommissionPaise_def matchCommissionSlab_def)
qed

definition demo_to_slab :: update_commission_rule_dto where
  "demo_to_slab = \<lparr>ur_projectId = None, ur_commissionType = Some SLAB, ur_flatPercent = None,
     ur_flatPaise = None, ur_milestones = None, ur_slabs = None\<rparr>"

theorem update_rule_to_empty_slab_witness:
  "\<exists>r' d'. update_rule 1 31 demo_to_slab demo_db = Inr ((r', []), d') \<and>
     (\<exists>e. computeCommissionPaise 110900 (rule_like r') (Some []) = Inl e)"
proof -
  have "find_rule 1 31 demo_db \<noteq> None" by code_simp
  then obtain r where "find_rule 1 31 demo_db = Some r" by auto
  moreover have "slabs_of_rule 31 demo_db = []" by code_simp
  ultimately show ?thesis
    using update_rule_to_empty_slab [of 1 31 demo_db r demo_to_slab]
    by (simp add: demo_to_slab_def) blast
qed

lemma foreign_create_broker: "create_broker enc c dto d = Inr (r, d') \<Longrightarrow> foreign c d' = foreign c d"
  by (auto simp: create_broker_def Let_def split: if_splits)

end
