(* ===== verification/Commission.thy ===== *)
theory Commission
  imports BookingCancel Brokers
begin

declare post.simps [simp del]

text \<open>
  \<open>apps/api/src/commission/commission.service.ts\<close>: the broker's own append-only ledger.
  A booking's commission is computed once (the snapshot), accrued on booking or as
  collection milestones are crossed, and clawed back when the booking is cancelled. The
  commission ledger is an instance of the \<open>ledger_contract\<close>, once by broker and once
  by booking. Each transaction of the code commits on its own here: the operations return
  the database beside their outcome, so a failing accrual keeps the snapshot it created.
\<close>

section \<open>The commission ledger\<close>

record commission_input =
  ci_brokerId :: id
  ci_bookingId :: id
  ci_entryType :: commission_entry_type
  ci_signedAmountPaise :: int
  ci_milestonePercent :: "int option"
  ci_reason :: "string option"
  ci_effectiveDate :: date
  ci_createdById :: "id option"

definition commission_row :: "id \<Rightarrow> id \<Rightarrow> commission_input \<Rightarrow> commission_ledger_entry" where
  "commission_row companyId new e =
     \<lparr>cle_id = new, cle_companyId = companyId, cle_brokerId = ci_brokerId e,
      cle_bookingId = ci_bookingId e, cle_entryType = ci_entryType e,
      cle_signedAmountPaise = ci_signedAmountPaise e, cle_milestonePercent = ci_milestonePercent e,
      cle_reason = ci_reason e, cle_effectiveDate = date_column (ci_effectiveDate e),
      cle_createdById = ci_createdById e\<rparr>"

lemma commission_row_simps [simp]:
  "cle_id (commission_row c n e) = n" "cle_companyId (commission_row c n e) = c"
  "cle_brokerId (commission_row c n e) = ci_brokerId e"
  "cle_bookingId (commission_row c n e) = ci_bookingId e"
  "cle_entryType (commission_row c n e) = ci_entryType e"
  "cle_signedAmountPaise (commission_row c n e) = ci_signedAmountPaise e"
  "cle_milestonePercent (commission_row c n e) = ci_milestonePercent e"
  by (simp_all add: commission_row_def)

definition create_commission ::
  "id \<Rightarrow> commission_input \<Rightarrow> db \<Rightarrow> commission_ledger_entry \<times> db" where
  "create_commission companyId e d =
     (let row = commission_row companyId (next_id d) e in (row, add_commission_ledger row d))"

definition create_commissions :: "id \<Rightarrow> commission_input list \<Rightarrow> db \<Rightarrow> db" where
  "create_commissions companyId es d = foldl (\<lambda>d e. snd (create_commission companyId e d)) d es"

definition commissionBalance :: "id \<Rightarrow> id \<Rightarrow> db \<Rightarrow> int" where
  "commissionBalance companyId brokerId d =
     sum_list (map cle_signedAmountPaise
       (filter (\<lambda>e. cle_companyId e = companyId \<and> cle_brokerId e = brokerId) (commissionLedger d)))"

definition booking_entries :: "id \<Rightarrow> id \<Rightarrow> db \<Rightarrow> commission_ledger_entry list" where
  "booking_entries companyId bookingId d =
     filter (\<lambda>e. cle_companyId e = companyId \<and> cle_bookingId e = bookingId) (commissionLedger d)"

definition outstandingForBooking :: "id \<Rightarrow> id \<Rightarrow> db \<Rightarrow> int" where
  "outstandingForBooking companyId bookingId d =
     sum_list (map cle_signedAmountPaise (booking_entries companyId bookingId d))"

definition netPaid :: "id \<Rightarrow> id \<Rightarrow> db \<Rightarrow> int" where
  "netPaid companyId bookingId d =
     sum_list (map (\<lambda>e. - cle_signedAmountPaise e)
       (filter (\<lambda>e. cle_entryType e = PAYMENT) (booking_entries companyId bookingId d)))"

lemma commissionLedger_create [simp]:
  "commissionLedger (snd (create_commission c e d)) = commissionLedger d @ [commission_row c (next_id d) e]"
  "fst (create_commission c e d) = commission_row c (next_id d) e"
  by (simp_all add: create_commission_def Let_def add_commission_ledger_def)

lemma create_commissions_simps [simp]:
  "create_commissions c [] d = d"
  "create_commissions c (e # es) d = create_commissions c es (snd (create_commission c e d))"
  by (simp_all add: create_commissions_def)

lemma commissionLedger_creates:
  "\<exists>new. commissionLedger (create_commissions c es d) = commissionLedger d @ new \<and> length new = length es \<and>
     list_all2 (\<lambda>r e. \<exists>n. r = commission_row c n e) new es"
proof (induction es arbitrary: d)
  case (Cons e es)
  from Cons [of "snd (create_commission c e d)"] obtain new where
    "commissionLedger (create_commissions c (e # es) d) = commissionLedger d @ (commission_row c (next_id d) e # new)"
    "length new = length es" "list_all2 (\<lambda>r e. \<exists>n. r = commission_row c n e) new es"
    by auto
  then show ?case by (intro exI [of _ "commission_row c (next_id d) e # new"]) auto
qed simp

text \<open>
  Summing the ledger by any key that a row takes over from its input is an instance of the
  contract: by broker, by booking, and in the payments by both and by kind of entry.
\<close>

definition keyed_balance ::
  "(commission_ledger_entry \<Rightarrow> 'a) \<Rightarrow> id \<Rightarrow> 'a \<Rightarrow> db \<Rightarrow> int" where
  "keyed_balance key c a d =
     sum_list (map cle_signedAmountPaise (filter (\<lambda>e. cle_companyId e = c \<and> key e = a) (commissionLedger d)))"

lemma keyed_contract:
  assumes key: "\<And>n e. key (commission_row c n e) = account e"
  shows "ledger_contract (create_commissions c) (keyed_balance key c) commissionLedger ci_signedAmountPaise account"
proof
  fix a es d
  have amounts: "map cle_signedAmountPaise (filter (\<lambda>e. cle_companyId e = c \<and> key e = a) new)
      = map ci_signedAmountPaise (filter (\<lambda>e. account e = a) es)"
    if "list_all2 (\<lambda>r e. \<exists>n. r = commission_row c n e) new es" for new
    using that by (induction new es rule: list_all2_induct) (simp, clarsimp simp: key)
  obtain new where "commissionLedger (create_commissions c es d) = commissionLedger d @ new"
    "list_all2 (\<lambda>r e. \<exists>n. r = commission_row c n e) new es"
    using commissionLedger_creates [of c es d] by blast
  then show "keyed_balance key c a (create_commissions c es d) = keyed_balance key c a d +
      sum_list (map ci_signedAmountPaise (filter (\<lambda>e. account e = a) es))"
    by (simp add: keyed_balance_def amounts)
  show "\<exists>new. commissionLedger (create_commissions c es d) = commissionLedger d @ new \<and> length new = length es"
    using commissionLedger_creates [of c es d] by blast
qed

lemma commissionBalance_keyed: "commissionBalance = keyed_balance cle_brokerId"
  by (intro ext) (simp add: commissionBalance_def keyed_balance_def)

lemma outstandingForBooking_keyed: "outstandingForBooking = keyed_balance cle_bookingId"
  by (intro ext) (simp add: outstandingForBooking_def booking_entries_def keyed_balance_def)

interpretation broker_ledger: ledger_contract "create_commissions c" "commissionBalance c"
  commissionLedger ci_signedAmountPaise ci_brokerId for c
  unfolding commissionBalance_keyed by (rule keyed_contract) simp

interpretation booking_commission: ledger_contract "create_commissions c" "outstandingForBooking c"
  commissionLedger ci_signedAmountPaise ci_bookingId for c
  unfolding outstandingForBooking_keyed by (rule keyed_contract) simp

section \<open>The snapshot\<close>

definition find_snapshot :: "id \<Rightarrow> id \<Rightarrow> db \<Rightarrow> broker_booking_commission option" where
  "find_snapshot companyId bookingId d =
     List.find (\<lambda>r. bbc_companyId r = companyId \<and> bbc_bookingId r = bookingId) (bookingCommissions d)"

text \<open>The project the unit's floor and tower lead to.\<close>

definition project_of_unit :: "id \<Rightarrow> id \<Rightarrow> db \<Rightarrow> id option" where
  "project_of_unit companyId unitId d =
     (case find_unit companyId unitId d of None \<Rightarrow> None | Some u \<Rightarrow> un_towerProjectId u)"

definition compute_snapshot :: "id \<Rightarrow> booking \<Rightarrow> id \<Rightarrow> db \<Rightarrow> (id \<times> int) result" where
  "compute_snapshot companyId booking brokerId d =
     bindE (findApplicableRule companyId brokerId (project_of_unit companyId (bk_unitId booking) d) d) (\<lambda>found.
     bindE (orFail (BadRequest ''No active commission rule configured for broker'') found) (\<lambda>(rule, slabs).
     bindE (computeCommissionPaise (bk_agreedPricePaise booking) (rule_like rule) (Some slabs)) (\<lambda>total.
       Inr (bcr_id rule, total))))"

definition ensureSnapshot ::
  "id \<Rightarrow> booking \<Rightarrow> id \<Rightarrow> db \<Rightarrow> (broker_booking_commission \<times> db) result" where
  "ensureSnapshot companyId booking brokerId d =
     (case find_snapshot companyId (bk_id booking) d of
        Some s \<Rightarrow> Inr (s, d)
      | None \<Rightarrow>
          bindE (compute_snapshot companyId booking brokerId d) (\<lambda>(ruleId, total).
          let s = \<lparr>bbc_id = next_id d, bbc_companyId = companyId, bbc_bookingId = bk_id booking,
                   bbc_brokerId = brokerId, bbc_ruleId = ruleId, bbc_totalCommissionPaise = total\<rparr>
          in if list_ex (\<lambda>r. bbc_bookingId r = bk_id booking) (bookingCommissions d)
             then Inl UniqueViolation else Inr (s, add_booking_commission s d)))"

section \<open>Accrual\<close>

definition accrual_entry ::
  "id \<Rightarrow> id \<Rightarrow> int option \<Rightarrow> int \<Rightarrow> date \<Rightarrow> id option \<Rightarrow> commission_input" where
  "accrual_entry brokerId bookingId milestone amount now actorId =
     \<lparr>ci_brokerId = brokerId, ci_bookingId = bookingId, ci_entryType = ACCRUAL,
      ci_signedAmountPaise = amount, ci_milestonePercent = milestone,
      ci_reason = Some (case milestone of
         None \<Rightarrow> ''Commission accrued on booking confirmation''
       | Some m \<Rightarrow> ''Commission accrued on reaching '' @ show_int m @ ''% collection''),
      ci_effectiveDate = now, ci_createdById = actorId\<rparr>"

definition find_accrual :: "id \<Rightarrow> id \<Rightarrow> int option \<Rightarrow> db \<Rightarrow> commission_ledger_entry option" where
  "find_accrual companyId bookingId milestone d =
     List.find (\<lambda>e. cle_companyId e = companyId \<and> cle_bookingId e = bookingId \<and>
                    cle_entryType e = ACCRUAL \<and> cle_milestonePercent e = milestone) (commissionLedger d)"

text \<open>The transaction both accrual modes run: the existing entry, or a new one.\<close>

definition accrue_once ::
  "id \<Rightarrow> id \<Rightarrow> id \<Rightarrow> int option \<Rightarrow> int \<Rightarrow> date \<Rightarrow> id option \<Rightarrow> db \<Rightarrow> commission_ledger_entry \<times> db" where
  "accrue_once companyId brokerId bookingId milestone amount now actorId d =
     (case find_accrual companyId bookingId milestone d of
        Some e \<Rightarrow> (e, d)
      | None \<Rightarrow> create_commission companyId (accrual_entry brokerId bookingId milestone amount now actorId) d)"

definition accrueOnBooking ::
  "id \<Rightarrow> id \<Rightarrow> id \<Rightarrow> broker_booking_commission \<Rightarrow> date \<Rightarrow> id option \<Rightarrow> db \<Rightarrow> commission_ledger_entry \<times> db" where
  "accrueOnBooking companyId bookingId brokerId snapshot now actorId d =
     accrue_once companyId brokerId bookingId None (bbc_totalCommissionPaise snapshot) now actorId d"

text \<open>Each milestone weighs what it adds to the one before it.\<close>

fun milestone_weights :: "int \<Rightarrow> int list \<Rightarrow> int list" where
  "milestone_weights prev [] = []"
| "milestone_weights prev (m # ms) = (m - prev) # milestone_weights m ms"

definition computeCollectedPercent :: "id \<Rightarrow> id \<Rightarrow> int \<Rightarrow> db \<Rightarrow> number" where
  "computeCollectedPercent companyId bookingId agreedPricePaise d =
     (if agreedPricePaise \<le> 0 then 0
      else of_int (net_received companyId bookingId d * 10000 sdiv agreedPricePaise) / 100)"

fun accrue_milestones ::
  "id \<Rightarrow> id \<Rightarrow> id \<Rightarrow> number \<Rightarrow> date \<Rightarrow> id option \<Rightarrow> (int \<times> int) list \<Rightarrow> db \<Rightarrow>
     commission_ledger_entry list \<times> db" where
  "accrue_milestones companyId brokerId bookingId collected now actorId [] d = ([], d)"
| "accrue_milestones companyId brokerId bookingId collected now actorId ((m, share) # rest) d =
     (if of_int m > collected
      then accrue_milestones companyId brokerId bookingId collected now actorId rest d
      else let (e, d1) = accrue_once companyId brokerId bookingId (Some m) share now actorId d;
               (es, d2) = accrue_milestones companyId brokerId bookingId collected now actorId rest d1
           in (e # es, d2))"

definition accrueOnMilestones ::
  "id \<Rightarrow> booking \<Rightarrow> id \<Rightarrow> broker_booking_commission \<Rightarrow> date \<Rightarrow> id option \<Rightarrow> db \<Rightarrow>
     commission_ledger_entry list result \<times> db" where
  "accrueOnMilestones companyId booking brokerId snapshot now actorId d =
     (let milestones = (case find_rule companyId (bbc_ruleId snapshot) d of
                          None \<Rightarrow> []
                        | Some r \<Rightarrow> (case bcr_milestonesJson r of None \<Rightarrow> [] | Some ms \<Rightarrow> ms))
      in if milestones = [] then (Inr [], d)
         else case allocate (bbc_totalCommissionPaise snapshot) (milestone_weights 0 milestones) of
                Inl e \<Rightarrow> (Inl e, d)
              | Inr shares \<Rightarrow>
                  let collected = computeCollectedPercent companyId (bk_id booking) (bk_agreedPricePaise booking) d;
                      (es, d1) = accrue_milestones companyId brokerId (bk_id booking) collected now actorId
                                   (zip milestones shares) d
                  in (Inr es, d1))"

definition accrual_trigger :: "id \<Rightarrow> db \<Rightarrow> commission_accrual_trigger" where
  "accrual_trigger companyId d =
     (case find_config companyId d of None \<Rightarrow> ON_BOOKING | Some cfg \<Rightarrow> cc_commissionAccrualTrigger cfg)"

text \<open>\<open>accrueForBooking\<close>; a booking without a broker returns null, the empty list here.\<close>

definition accrueCommission ::
  "id \<Rightarrow> id \<Rightarrow> date \<Rightarrow> id option \<Rightarrow> db \<Rightarrow> commission_ledger_entry list result \<times> db" where
  "accrueCommission companyId bookingId now actorId d =
     (case find_booking companyId bookingId d of
        None \<Rightarrow> (Inl (NotFound ''Booking not found''), d)
      | Some booking \<Rightarrow>
         (case bk_brokerId booking of
            None \<Rightarrow> (Inr [], d)
          | Some brokerId \<Rightarrow>
             (case ensureSnapshot companyId booking brokerId d of
                Inl e \<Rightarrow> (Inl e, d)
              | Inr (snapshot, d1) \<Rightarrow>
                  if accrual_trigger companyId d = ON_BOOKING
                  then let (e, d2) = accrueOnBooking companyId (bk_id booking) brokerId snapshot now actorId d1
                       in (Inr [e], d2)
                  else accrueOnMilestones companyId booking brokerId snapshot now actorId d1)))"

section \<open>Clawback\<close>

definition clawback_policy :: "id \<Rightarrow> db \<Rightarrow> commission_clawback_policy" where
  "clawback_policy companyId d =
     (case find_config companyId d of None \<Rightarrow> RECOVER | Some cfg \<Rightarrow> cc_commissionClawbackPolicy cfg)"

definition clawback_entry ::
  "id \<Rightarrow> id \<Rightarrow> commission_entry_type \<Rightarrow> int \<Rightarrow> string option \<Rightarrow> date \<Rightarrow> id option \<Rightarrow> commission_input" where
  "clawback_entry brokerId bookingId ty amount reason now actorId =
     \<lparr>ci_brokerId = brokerId, ci_bookingId = bookingId, ci_entryType = ty, ci_signedAmountPaise = amount,
      ci_milestonePercent = None, ci_reason = reason, ci_effectiveDate = now, ci_createdById = actorId\<rparr>"

definition postClawback ::
  "id \<Rightarrow> id \<Rightarrow> id \<Rightarrow> commission_entry_type \<Rightarrow> int \<Rightarrow> string option \<Rightarrow> date \<Rightarrow> id option \<Rightarrow> db \<Rightarrow>
     (commission_ledger_entry \<times> db) result" where
  "postClawback companyId brokerId bookingId ty amount reason now actorId d =
     (if ty = CLAWBACK_WRITEOFF \<and> (reason = None \<or> reason = Some '''')
      then Inl (BadRequest ''CLAWBACK_WRITEOFF requires a reason'')
      else Inr (create_commission companyId
                  (clawback_entry brokerId bookingId ty amount reason now actorId) d))"

text \<open>The two entries of a clawback: what is still unpaid is reversed, what was paid recovered or written off.\<close>

definition cancellation_type_name :: "cancellation_type \<Rightarrow> string" where
  "cancellation_type_name t = (case t of CANCEL \<Rightarrow> ''CANCEL'' | SURRENDER \<Rightarrow> ''SURRENDER'')"

definition clawback_steps :: "int \<Rightarrow> int \<Rightarrow> commission_clawback_policy \<Rightarrow> string \<Rightarrow>
    (commission_entry_type \<times> int \<times> string) list" where
  "clawback_steps outstanding paid policy kind =
     (if outstanding \<noteq> 0
      then [(CLAWBACK_REVERSAL, - outstanding,
              ''Unearned commission reversed on booking cancellation ('' @ kind @ '')'')] else []) @
     (if paid > 0
      then (if policy = WRITE_OFF
            then [(CLAWBACK_WRITEOFF, 0,
                    ''Already-paid commission ('' @ show_int paid @ '' paise) written off on booking cancellation ('' @
                    kind @ '') - company policy: WRITE_OFF'')]
            else [(CLAWBACK_RECOVERY, - paid,
                    ''Already-paid commission recovered on booking cancellation ('' @ kind @
                    '') - company policy: RECOVER'')])
      else [])"

definition handleBookingCancelled ::
  "id \<Rightarrow> booking_cancelled_event \<Rightarrow> id \<Rightarrow> date \<Rightarrow> id option \<Rightarrow> db \<Rightarrow>
     (commission_ledger_entry list \<times> db) result" where
  "handleBookingCancelled companyId event brokerId now actorId d =
     (let b = ev_bookingId event
      in foldE (\<lambda>(ty, amount, reason) (posted, d).
           bindE (postClawback companyId brokerId b ty amount (Some reason) now actorId d) (\<lambda>(e, d').
             Inr (posted @ [e], d')))
         (clawback_steps (outstandingForBooking companyId b d) (netPaid companyId b d)
            (clawback_policy companyId d) (cancellation_type_name (ev_cancellationType event))) ([], d))"

section \<open>What an accrual leaves alone\<close>

definition only_commission :: "db \<Rightarrow> db \<Rightarrow> bool" where
  "only_commission d d' \<longleftrightarrow> (\<exists>l n. d' = d\<lparr>commissionLedger := l, next_id := n\<rparr>)"

lemma only_commission_refl [simp]: "only_commission d d"
  unfolding only_commission_def by (rule exI [of _ "commissionLedger d"], rule exI [of _ "next_id d"]) simp

lemma only_commission_trans:
  assumes "only_commission d d1" and "only_commission d1 d2"
  shows "only_commission d d2"
proof -
  obtain l n l2 n2 where "d1 = d\<lparr>commissionLedger := l, next_id := n\<rparr>"
    and "d2 = d1\<lparr>commissionLedger := l2, next_id := n2\<rparr>"
    using assms unfolding only_commission_def by blast
  then show ?thesis
    unfolding only_commission_def by (intro exI [of _ l2] exI [of _ n2]) simp
qed

lemma only_commission_create: "only_commission d (snd (create_commission c e d))"
  unfolding only_commission_def create_commission_def Let_def add_commission_ledger_def snd_conv by blast

lemma only_commission_creates: "only_commission d (create_commissions c es d)"
  by (induction es arbitrary: d) (auto intro: only_commission_trans only_commission_create)

lemma only_commission_fields:
  assumes "only_commission d d'"
  shows "bookings d' = bookings d" "bookingCommissions d' = bookingCommissions d"
    "commissionRules d' = commissionRules d" "masters_of d' = masters_of d" "units d' = units d"
    "receipts d' = receipts d" "tdsDeductions d' = tdsDeductions d" "ledger d' = ledger d"
    "commissionSlabs d' = commissionSlabs d" "brokers d' = brokers d" "nocs d' = nocs d"
    "commissionPayments d' = commissionPayments d"
  using assms by (auto simp: only_commission_def)

lemma only_commission_finds:
  assumes "only_commission d d'"
  shows "find_booking c i d' = find_booking c i d" "find_snapshot c i d' = find_snapshot c i d"
    "find_rule c i d' = find_rule c i d" "accrual_trigger c d' = accrual_trigger c d"
    "computeCollectedPercent c i p d' = computeCollectedPercent c i p d"
    "clawback_policy c d' = clawback_policy c d"
  using only_commission_fields [OF assms]
  by (simp_all add: find_booking_def find_snapshot_def find_rule_def accrual_trigger_def find_config_def
      computeCollectedPercent_def net_received_def tds_of_receipt_def clawback_policy_def)

section \<open>Accruing twice\<close>

lemma find_accrual_create:
  "find_accrual c b m (snd (create_commission c e d)) =
     (case find_accrual c b m d of
        Some x \<Rightarrow> Some x
      | None \<Rightarrow> if ci_bookingId e = b \<and> ci_entryType e = ACCRUAL \<and> ci_milestonePercent e = m
                then Some (commission_row c (next_id d) e) else None)"
  by (simp add: find_accrual_def find_append split: option.split)

lemma accrual_entry_simps [simp]:
  "ci_brokerId (accrual_entry br b m x now a) = br" "ci_bookingId (accrual_entry br b m x now a) = b"
  "ci_entryType (accrual_entry br b m x now a) = ACCRUAL" "ci_milestonePercent (accrual_entry br b m x now a) = m"
  "ci_signedAmountPaise (accrual_entry br b m x now a) = x"
  by (simp_all add: accrual_entry_def)

lemma accrue_once_effect:
  assumes "accrue_once c br b m x now a d = (e, d')"
  shows "find_accrual c b m d' = Some e" and "only_commission d d'"
    and "find_accrual c b k d = Some y \<Longrightarrow> find_accrual c b k d' = Some y"
    and "k \<noteq> m \<Longrightarrow> find_accrual c b k d' = find_accrual c b k d"
proof -
  have new: "find_accrual c b m d = None \<Longrightarrow>
      d' = snd (create_commission c (accrual_entry br b m x now a) d) \<and>
      e = commission_row c (next_id d) (accrual_entry br b m x now a)"
    and old: "\<And>y. find_accrual c b m d = Some y \<Longrightarrow> d' = d \<and> e = y"
    using assms commissionLedger_create(2) [of c "accrual_entry br b m x now a" d]
    by (auto simp: accrue_once_def simp del: commissionLedger_create)
  show "find_accrual c b m d' = Some e" and "only_commission d d'"
    and "find_accrual c b k d = Some y \<Longrightarrow> find_accrual c b k d' = Some y"
    and "k \<noteq> m \<Longrightarrow> find_accrual c b k d' = find_accrual c b k d"
    using new old only_commission_create
    by (cases "find_accrual c b m d"; force simp: find_accrual_create split: option.split)+
qed

lemma accrue_once_done: "find_accrual c b m d = Some e \<Longrightarrow> accrue_once c br b m x now a d = (e, d)"
  by (simp add: accrue_once_def)

lemma accrue_milestones_effect:
  assumes "accrue_milestones c br b col now a xs d = (es, d')"
  shows "only_commission d d' \<and> (find_accrual c b k d = Some y \<longrightarrow> find_accrual c b k d' = Some y)"
  using assms
proof (induction xs arbitrary: d es)
  case (Cons x xs)
  obtain m s where x: "x = (m, s)" by (cases x)
  show ?case
  proof (cases "of_int m > col")
    case True
    with Cons x show ?thesis by simp
  next
    case False
    obtain e d1 es1 where s: "accrue_once c br b (Some m) s now a d = (e, d1)"
      and r: "accrue_milestones c br b col now a xs d1 = (es1, d')"
      using Cons.prems False x by (auto split: prod.splits)
    from accrue_once_effect(2,3) [OF s] Cons.IH [OF r] show ?thesis
      by (blast intro: only_commission_trans)
  qed
qed simp

lemma accrue_milestones_again:
  assumes "accrue_milestones c br b col now a xs d = (es, d')"
    and "\<And>k y. find_accrual c b k d' = Some y \<Longrightarrow> find_accrual c b k d2 = Some y"
  shows "accrue_milestones c br b col now2 a2 xs d2 = (es, d2)"
  using assms
proof (induction xs arbitrary: d es)
  case (Cons x xs)
  obtain m s where x: "x = (m, s)" by (cases x)
  show ?case
  proof (cases "of_int m > col")
    case True
    with Cons x show ?thesis by simp
  next
    case False
    obtain e d1 es1 where s: "accrue_once c br b (Some m) s now a d = (e, d1)"
      and r: "accrue_milestones c br b col now a xs d1 = (es1, d')" and es: "es = e # es1"
      using Cons.prems(1) False x by (auto split: prod.splits)
    have "find_accrual c b (Some m) d2 = Some e"
      using Cons.prems(2) accrue_milestones_effect [OF r] accrue_once_effect(1) [OF s] by blast
    with Cons.IH [OF r] Cons.prems(2) False x es show ?thesis by (simp add: accrue_once_done)
  qed
qed simp

lemma ensureSnapshot_found: "find_snapshot c (bk_id b) d = Some s \<Longrightarrow> ensureSnapshot c b br d = Inr (s, d)"
  by (simp add: ensureSnapshot_def)

lemma ensureSnapshot_effect:
  assumes "ensureSnapshot c b br d = Inr (s, d1)"
  shows "find_snapshot c (bk_id b) d1 = Some s" and "find_booking c i d1 = find_booking c i d"
    and "accrual_trigger c d1 = accrual_trigger c d" and "commissionLedger d1 = commissionLedger d"
    and "find_rule c k d1 = find_rule c k d" and "net_received c i d1 = net_received c i d"
    and "clawback_policy c d1 = clawback_policy c d"
  using assms
  by (auto simp: ensureSnapshot_def Let_def find_snapshot_def find_append add_booking_commission_def
      find_booking_def accrual_trigger_def find_config_def find_rule_def net_received_def tds_of_receipt_def
      clawback_policy_def bindE_eq_Inr split: option.splits if_splits)

text \<open>
  Accruing commission is idempotent. A second run right after the first, by whoever
  and whenever, returns the same entries (or the same failure) and changes nothing.
\<close>

theorem accrueCommission_idempotent:
  "accrueCommission c i now2 a2 (snd (accrueCommission c i now a d)) = accrueCommission c i now a d"
proof (cases "\<exists>b br s d1. find_booking c i d = Some b \<and> bk_brokerId b = Some br \<and> ensureSnapshot c b br d = Inr (s, d1)")
  case False
  then show ?thesis by (auto simp: accrueCommission_def split: option.splits sum.splits)
next
  case True
  then obtain b br s d1 where b: "find_booking c i d = Some b" "bk_brokerId b = Some br"
    and sn: "ensureSnapshot c b br d = Inr (s, d1)" by blast
  note eff = ensureSnapshot_effect [OF sn]
  have again: "accrueCommission c i now2 a2 d2 =
      (if accrual_trigger c d = ON_BOOKING
       then let (e, d3) = accrueOnBooking c (bk_id b) br s now2 a2 d2 in (Inr [e], d3)
       else accrueOnMilestones c b br s now2 a2 d2)" if "only_commission d1 d2" for d2
    using only_commission_finds [OF that] eff b
    by (simp add: accrueCommission_def ensureSnapshot_found)
  have first: "accrueCommission c i now a d =
      (if accrual_trigger c d = ON_BOOKING
       then let (e, d3) = accrueOnBooking c (bk_id b) br s now a d1 in (Inr [e], d3)
       else accrueOnMilestones c b br s now a d1)"
    using b sn by (simp add: accrueCommission_def)
  show ?thesis
  proof (cases "accrual_trigger c d = ON_BOOKING")
    case True
    obtain e d3 where "accrue_once c br (bk_id b) None (bbc_totalCommissionPaise s) now a d1 = (e, d3)"
      by fastforce
    with True first again [of d3] accrue_once_effect(1,2) [OF this] show ?thesis
      by (simp add: accrueOnBooking_def accrue_once_done)
  next
    case False
    let ?ms = "case find_rule c (bbc_ruleId s) d1 of None \<Rightarrow> []
      | Some r \<Rightarrow> (case bcr_milestonesJson r of None \<Rightarrow> [] | Some ms \<Rightarrow> ms)"
    show ?thesis
    proof (cases "?ms = [] \<or> isl (allocate (bbc_totalCommissionPaise s) (milestone_weights 0 ?ms))")
      case True
      then have "accrueOnMilestones c b br s t x d1 = accrueOnMilestones c b br s now a d1 \<and>
          snd (accrueOnMilestones c b br s t x d1) = d1" for t x
        by (auto simp: accrueOnMilestones_def Let_def split: sum.splits)
      with False first again [of d1] show ?thesis by simp
    next
      case ok: False
      then obtain sh where sh: "allocate (bbc_totalCommissionPaise s) (milestone_weights 0 ?ms) = Inr sh"
        using not_isl_Inr by blast
      let ?col = "computeCollectedPercent c (bk_id b) (bk_agreedPricePaise b) d1"
      obtain es d3 where run: "accrue_milestones c br (bk_id b) ?col now a (zip ?ms sh) d1 = (es, d3)"
        by fastforce
      have oc: "only_commission d1 d3" using accrue_milestones_effect [OF run] by blast
      have "accrueOnMilestones c b br s now a d1 = (Inr es, d3)"
        using ok sh run by (simp add: accrueOnMilestones_def Let_def)
      moreover have "accrueOnMilestones c b br s now2 a2 d3 = (Inr es, d3)"
        using ok sh accrue_milestones_again [OF run, of d3] only_commission_finds [OF oc]
        by (simp add: accrueOnMilestones_def Let_def)
      ultimately show ?thesis using False first again [OF oc] by simp
    qed
  qed
qed

section \<open>Milestones add up\<close>

lemma sum_milestone_weights: "ms \<noteq> [] \<Longrightarrow> sum_list (milestone_weights p ms) = last ms - p"
  by (induction p ms rule: milestone_weights.induct) (auto split: if_splits)

lemma length_milestone_weights [simp]: "length (milestone_weights p ms) = length ms"
  by (induction p ms rule: milestone_weights.induct) auto

lemma milestone_weights_nonneg:
  "ascending (p # ms) \<Longrightarrow> \<forall>w\<in>set (milestone_weights p ms). 0 < w"
  by (induction p ms rule: milestone_weights.induct) auto

lemma milestone_weights_pos:
  assumes "commissionMilestonesSchema ms"
  shows "\<forall>w\<in>set (milestone_weights 0 ms). 0 < w" and "ms \<noteq> []"
proof -
  show ne: "ms \<noteq> []" using assms by (auto simp: commissionMilestonesSchema_def)
  have "ascending (0 # ms)"
    using assms ne by (cases ms) (auto simp: commissionMilestonesSchema_def)
  then show "\<forall>w\<in>set (milestone_weights 0 ms). 0 < w" by (rule milestone_weights_nonneg)
qed

lemma allocate_shares_nonneg:
  assumes "\<forall>w\<in>set ws. 0 \<le> w" and "0 \<le> t" and "allocate t ws = Inr shares"
  shows "\<forall>x\<in>set shares. 0 \<le> x"
proof
  fix x assume "x \<in> set shares"
  then obtain i where i: "i < length shares" "x = shares ! i" by (metis in_set_conv_nth)
  note n = allocate_nonneg [OF assms(1) allocate_weights_pos [OF assms(3)] assms(2,3)]
  have "0 \<le> t * ws ! i div sum_list ws"
    using assms i n(1) allocate_weights_pos [OF assms(3)] by (simp add: pos_imp_zdiv_nonneg_iff)
  with n(3) [of i] n(1) i show "0 \<le> x" by fastforce
qed

text \<open>A run over milestones none of which has accrued yet.\<close>

lemma accrue_milestones_fresh:
  assumes "accrue_milestones c br b col now a xs d = (es, d')" and "distinct (map fst xs)"
    and "\<forall>x\<in>set xs. find_accrual c b (Some (fst x)) d = None"
  shows "map cle_milestonePercent es = map (Some \<circ> fst) (filter (\<lambda>x. \<not> of_int (fst x) > col) xs) \<and>
    map cle_signedAmountPaise es = map snd (filter (\<lambda>x. \<not> of_int (fst x) > col) xs) \<and>
    outstandingForBooking c b d' = outstandingForBooking c b d + sum_list (map cle_signedAmountPaise es) \<and>
    commissionBalance c br d' = commissionBalance c br d + sum_list (map cle_signedAmountPaise es)"
  using assms
proof (induction xs arbitrary: d es)
  case (Cons x xs)
  obtain m s where x: "x = (m, s)" by (cases x)
  show ?case
  proof (cases "of_int m > col")
    case True
    with Cons x show ?thesis by simp
  next
    case False
    obtain e d1 es1 where s: "accrue_once c br b (Some m) s now a d = (e, d1)"
      and r: "accrue_milestones c br b col now a xs d1 = (es1, d')" and es: "es = e # es1"
      using Cons.prems(1) False x by (auto split: prod.splits)
    let ?in = "accrual_entry br b (Some m) s now a"
    have none: "find_accrual c b (Some m) d = None" using Cons.prems(3) x by simp
    then have d1: "d1 = create_commissions c [?in] d" and e: "e = commission_row c (next_id d) ?in"
      using s commissionLedger_create(2) [of c ?in d]
      by (auto simp: accrue_once_def simp del: commissionLedger_create)
    have "\<forall>x\<in>set xs. find_accrual c b (Some (fst x)) d1 = None"
    proof
      fix y assume y: "y \<in> set xs"
      then have "fst y \<noteq> m" using Cons.prems(2) x by (auto simp: image_iff)
      with accrue_once_effect(4) [OF s, of "Some (fst y)"] Cons.prems(3) y
      show "find_accrual c b (Some (fst y)) d1 = None" by simp
    qed
    with Cons.IH [OF r] Cons.prems(2) x show ?thesis
      using False booking_commission.balance_single [of c b ?in d] broker_ledger.balance_single [of c br ?in d]
      by (simp add: es e d1 del: create_commissions_simps)
  qed
qed simp

lemma sorted_le_last: "sorted xs \<Longrightarrow> x \<in> set xs \<Longrightarrow> x \<le> last (xs :: int list)"
  by (induction xs) (auto split: if_splits)

lemma filtered_keys:
  "length xs = length ys \<Longrightarrow> map (Some \<circ> fst) (filter (\<lambda>x. p (fst x)) (zip xs ys)) = map Some (filter p xs)"
  by (induction xs ys rule: list_induct2) auto

lemma sum_filter_le:
  assumes "\<forall>x\<in>set xs. 0 \<le> (snd x :: int)"
  shows "0 \<le> sum_list (map snd (filter p xs)) \<and> sum_list (map snd (filter p xs)) \<le> sum_list (map snd xs)"
  using assms by (induction xs) auto

text \<open>
  The milestone accruals of a booking partition its snapshot. When none has accrued
  yet, a run posts one entry for each milestone the collection has reached, in order; they
  add between nothing and the snapshot's total to what the broker is owed, and exactly the
  total once the last milestone is reached.
\<close>

theorem milestone_accruals_partition:
  assumes "accrueCommission c i now a d = (Inr es, d')"
    and "accrual_trigger c d = ON_COLLECTION_MILESTONE"
    and "find_booking c i d = Some b" and "bk_brokerId b = Some br"
    and "find_snapshot c i d' = Some s" and "0 \<le> bbc_totalCommissionPaise s"
    and "find_rule c (bbc_ruleId s) d = Some r" and "bcr_milestonesJson r = Some ms"
    and "commissionMilestonesSchema ms" and "\<forall>m. find_accrual c i (Some m) d = None"
  shows "map cle_milestonePercent es
      = map Some (filter (\<lambda>m. of_int m \<le> computeCollectedPercent c i (bk_agreedPricePaise b) d) ms) \<and>
    outstandingForBooking c i d' = outstandingForBooking c i d + sum_list (map cle_signedAmountPaise es) \<and>
    commissionBalance c br d' = commissionBalance c br d + sum_list (map cle_signedAmountPaise es) \<and>
    0 \<le> sum_list (map cle_signedAmountPaise es) \<and>
    sum_list (map cle_signedAmountPaise es) \<le> bbc_totalCommissionPaise s \<and>
    (of_int (last ms) \<le> computeCollectedPercent c i (bk_agreedPricePaise b) d \<longrightarrow>
       sum_list (map cle_signedAmountPaise es) = bbc_totalCommissionPaise s)"
proof -
  have bi: "bk_id b = i" using assms(3) by (auto simp: find_booking_def dest!: find_SomeD)
  obtain s1 d1 where sn: "ensureSnapshot c b br d = Inr (s1, d1)"
    and run0: "accrueOnMilestones c b br s1 now a d1 = (Inr es, d')"
    using assms(1-4) by (auto simp: accrueCommission_def split: sum.splits)
  note eff = ensureSnapshot_effect [OF sn]
  have oc: "only_commission d1 d'"
    using run0 by (auto simp: accrueOnMilestones_def Let_def split: if_splits sum.splits prod.splits
        dest!: accrue_milestones_effect [THEN conjunct1])
  have s1: "s1 = s" using eff(1) assms(5) only_commission_finds(2) [OF oc, of c i] bi by simp
  let ?col = "computeCollectedPercent c i (bk_agreedPricePaise b) d"
  have ms: "ms \<noteq> []" "\<forall>w\<in>set (milestone_weights 0 ms). 0 < w"
    using milestone_weights_pos [OF assms(9)] by auto
  have col: "computeCollectedPercent c (bk_id b) (bk_agreedPricePaise b) d1 = ?col"
    using eff(6) by (simp add: computeCollectedPercent_def bi)
  obtain sh where sh: "allocate (bbc_totalCommissionPaise s) (milestone_weights 0 ms) = Inr sh"
    and run: "accrue_milestones c br i ?col now a (zip ms sh) d1 = (es, d')"
    using run0 ms assms(7,8) eff(5) col
    by (auto simp: accrueOnMilestones_def Let_def s1 bi split: sum.splits prod.splits)
  have len: "length sh = length ms" using allocate_length [OF sh] by simp
  have nonneg: "\<forall>w\<in>set (milestone_weights 0 ms). 0 \<le> w" using ms(2) by (auto simp: order_less_imp_le)
  have total: "sum_list sh = bbc_totalCommissionPaise s" by (rule allocate_sum [OF nonneg sh])
  have sh0: "\<forall>x\<in>set (zip ms sh). 0 \<le> snd x"
    using allocate_shares_nonneg [OF nonneg assms(6) sh] by (auto dest: set_zip_rightD)
  have fresh0: "\<forall>x\<in>set (zip ms sh). find_accrual c i (Some (fst x)) d1 = None"
    using assms(10) eff(4) by (simp add: find_accrual_def)
  have dist: "distinct (map fst (zip ms sh))" using milestones_distinct [OF assms(9)] len by simp
  have fresh: "map cle_milestonePercent es = map (Some \<circ> fst) (filter (\<lambda>x. \<not> of_int (fst x) > ?col) (zip ms sh))"
    "map cle_signedAmountPaise es = map snd (filter (\<lambda>x. \<not> of_int (fst x) > ?col) (zip ms sh))"
    "outstandingForBooking c i d' = outstandingForBooking c i d1 + sum_list (map cle_signedAmountPaise es)"
    "commissionBalance c br d' = commissionBalance c br d1 + sum_list (map cle_signedAmountPaise es)"
    using accrue_milestones_fresh [OF run dist fresh0] by blast+
  have keys: "map (Some \<circ> fst) (filter (\<lambda>x. \<not> of_int (fst x) > ?col) (zip ms sh))
      = map Some (filter (\<lambda>m. of_int m \<le> ?col) ms)"
    using filtered_keys [OF len [symmetric], of "\<lambda>m. of_int m \<le> ?col"] by (simp add: not_less)
  have all: "filter (\<lambda>x. \<not> of_int (fst x) > ?col) (zip ms sh) = zip ms sh" if "of_int (last ms) \<le> ?col"
  proof (rule filter_True, rule ballI)
    fix x assume "x \<in> set (zip ms sh)"
    then have "fst x \<in> set ms" by (metis in_set_zipE prod.collapse)
    then have "fst x \<le> last ms"
      using assms(9) by (auto simp: commissionMilestonesSchema_def ascending_sorted_distinct
          intro: sorted_le_last)
    with that show "\<not> of_int (fst x) > ?col" by (meson not_less of_int_le_iff order_trans)
  qed
  have same: "outstandingForBooking c i d1 = outstandingForBooking c i d" "commissionBalance c br d1 = commissionBalance c br d"
    using eff(4) by (simp_all add: outstandingForBooking_def booking_entries_def commissionBalance_def)
  show ?thesis
    using fresh keys same sum_filter_le [OF sh0, of "\<lambda>x. \<not> of_int (fst x) > ?col"] all total len by simp
qed

section \<open>Changing the trigger\<close>

lemma accrueCommission_on_booking:
  assumes "find_booking c i d = Some b" and "bk_brokerId b = Some br"
    and "accrual_trigger c d = ON_BOOKING" and "accrueCommission c i now a d = (Inr es, d')"
    and "find_accrual c i None d = None"
  shows "\<exists>s e. find_snapshot c i d' = Some s \<and> es = [e] \<and> find_accrual c i None d' = Some e \<and>
    outstandingForBooking c i d' = outstandingForBooking c i d + bbc_totalCommissionPaise s \<and>
    (\<forall>k. commissionBalance c k d' =
       commissionBalance c k d + (if k = br then bbc_totalCommissionPaise s else 0)) \<and>
    netPaid c i d' = netPaid c i d \<and>
    (\<forall>m. m \<noteq> None \<longrightarrow> find_accrual c i m d' = find_accrual c i m d) \<and>
    find_booking c i d' = Some b"
proof -
  have bi: "bk_id b = i" using assms(1) by (auto simp: find_booking_def dest!: find_SomeD)
  obtain s d1 where sn: "ensureSnapshot c b br d = Inr (s, d1)"
    and run: "accrueOnBooking c i br s now a d1 = (hd es, d')" "es = [hd es]"
    using assms(1-4) by (auto simp: accrueCommission_def bi split: sum.splits prod.splits)
  note eff = ensureSnapshot_effect [OF sn]
  let ?in = "accrual_entry br i None (bbc_totalCommissionPaise s) now a"
  have none: "find_accrual c i None d1 = None" using assms(5) eff(4) by (simp add: find_accrual_def)
  have once: "accrue_once c br i None (bbc_totalCommissionPaise s) now a d1 = (hd es, d')"
    using run by (simp add: accrueOnBooking_def)
  then have d': "d' = create_commissions c [?in] d1" "d' = snd (create_commission c ?in d1)"
    using none by (simp_all add: accrue_once_def)
  have "find_snapshot c i d' = Some s" and "find_booking c i d' = Some b"
    using only_commission_finds(1,2) [OF accrue_once_effect(2) [OF once], of c i] eff(1,2) assms(1) bi by auto
  moreover have "find_accrual c i m d' = find_accrual c i m d" if "m \<noteq> None" for m
    using accrue_once_effect(4) [OF once that] eff(4) by (simp add: find_accrual_def)
  moreover have "netPaid c i d' = netPaid c i d"
    using eff(4) by (simp add: d'(2) netPaid_def booking_entries_def)
  moreover have "outstandingForBooking c i d' = outstandingForBooking c i d + bbc_totalCommissionPaise s"
    using booking_commission.balance_single [of c i ?in d1] eff(4)
    by (simp add: d'(1) outstandingForBooking_def booking_entries_def del: create_commissions_simps)
  moreover have "commissionBalance c k d' = commissionBalance c k d + (if k = br then bbc_totalCommissionPaise s else 0)" for k
    using broker_ledger.balance_single [of c k ?in d1] eff(4)
    by (simp add: d'(1) commissionBalance_def del: create_commissions_simps)
  ultimately show ?thesis
    using accrue_once_effect(1) [OF once] run(2) by blast
qed

text \<open>
  The two accrual modes do not know of each other. A booking whose commission was
  accrued on booking accrues it a second time through its milestones once the company's
  trigger is changed: with every milestone reached the broker is owed twice the snapshot.
\<close>

theorem trigger_change_accrues_twice:
  assumes "accrueCommission c i now a d = (Inr es, d1)" and "accrual_trigger c d = ON_BOOKING"
    and "find_booking c i d = Some b" and "bk_brokerId b = Some br"
    and "booking_entries c i d = []" and "find_snapshot c i d1 = Some s"
    and "0 \<le> bbc_totalCommissionPaise s"
    and "find_rule c (bbc_ruleId s) d1 = Some r" and "bcr_milestonesJson r = Some ms"
    and "commissionMilestonesSchema ms"
    and "accrual_trigger c (d1\<lparr>masters_of := m\<rparr>) = ON_COLLECTION_MILESTONE"
    and "of_int (last ms) \<le> computeCollectedPercent c i (bk_agreedPricePaise b) d1"
    and "accrueCommission c i now2 a2 (d1\<lparr>masters_of := m\<rparr>) = (Inr es2, d2)"
  shows "outstandingForBooking c i d1 = bbc_totalCommissionPaise s \<and>
    outstandingForBooking c i d2 = 2 * bbc_totalCommissionPaise s"
proof -
  have none: "find_accrual c i k d = None" for k
    using assms(5) by (auto simp: find_accrual_def booking_entries_def filter_empty_conv find_eq_None_iff)
  from accrueCommission_on_booking [OF assms(3,4,2,1) none] assms(6)
  have one: "outstandingForBooking c i d1 = outstandingForBooking c i d + bbc_totalCommissionPaise s"
    and later: "\<And>k. k \<noteq> None \<Longrightarrow> find_accrual c i k d1 = None" and b1: "find_booking c i d1 = Some b"
    using none by auto
  let ?d = "d1\<lparr>masters_of := m\<rparr>"
  have zero: "outstandingForBooking c i d = 0" using assms(5) by (simp add: outstandingForBooking_def)
  have frame: "find_booking c i ?d = Some b" "find_rule c (bbc_ruleId s) ?d = Some r"
    "\<forall>k. find_accrual c i (Some k) ?d = None" "find_snapshot c i ?d = Some s"
    "outstandingForBooking c i ?d = outstandingForBooking c i d1"
    "computeCollectedPercent c i p ?d = computeCollectedPercent c i p d1" for p
    using b1 assms(6,8) later
    by (auto simp: find_booking_def find_rule_def find_accrual_def find_snapshot_def outstandingForBooking_def
        booking_entries_def computeCollectedPercent_def net_received_def tds_of_receipt_def)
  have "bk_id b = i" using b1 by (auto simp: find_booking_def dest!: find_SomeD)
  then have "find_snapshot c i d2 = Some s"
    using assms(4,11,13) frame(1,4)
    by (auto simp: accrueCommission_def ensureSnapshot_found accrueOnMilestones_def Let_def
        split: if_splits sum.splits prod.splits
        dest!: accrue_milestones_effect [THEN conjunct1, THEN only_commission_finds(2) [of _ _ c "bk_id b"]])
  from milestone_accruals_partition [OF assms(13,11) frame(1) assms(4) this assms(7) frame(2) assms(9,10) frame(3)]
  show ?thesis using frame(5,6) assms(12) one zero by simp
qed

section \<open>Clawback\<close>

lemma clawback_entry_simps [simp]:
  "ci_brokerId (clawback_entry br b ty x rs now a) = br" "ci_bookingId (clawback_entry br b ty x rs now a) = b"
  "ci_entryType (clawback_entry br b ty x rs now a) = ty"
  "ci_signedAmountPaise (clawback_entry br b ty x rs now a) = x"
  by (simp_all add: clawback_entry_def)

text \<open>A write-off is never posted without its reason.\<close>

lemma writeoff_needs_reason:
  "postClawback c br b CLAWBACK_WRITEOFF x rs now a d = Inr p \<Longrightarrow> \<exists>r. rs = Some r \<and> r \<noteq> ''''"
  by (cases rs) (auto simp: postClawback_def split: if_splits)

lemma foldE_clawback:
  assumes "\<forall>s\<in>set steps. snd (snd s) \<noteq> ''''"
  shows "\<exists>posted'. foldE (\<lambda>(ty, amount, reason) (rows, d).
           bindE (postClawback c br b ty amount (Some reason) now a d) (\<lambda>(e, d').
             Inr (rows @ [e], d'))) steps (acc, d)
    = Inr (posted', create_commissions c (map (\<lambda>(ty, x, rs). clawback_entry br b ty x (Some rs) now a) steps) d)"
  using assms
proof (induction steps arbitrary: acc d)
  case (Cons s steps)
  obtain ty x rs where s: "s = (ty, x, rs)" by (cases s)
  have "postClawback c br b ty x (Some rs) now a d
      = Inr (create_commission c (clawback_entry br b ty x (Some rs) now a) d)"
    using Cons.prems s by (simp add: postClawback_def)
  with Cons s show ?case
    by (cases "create_commission c (clawback_entry br b ty x (Some rs) now a) d") simp
qed simp

text \<open>The entries of a clawback, what they amount to, and that they hold no payment.\<close>

definition clawback_entries ::
  "id \<Rightarrow> booking_cancelled_event \<Rightarrow> id \<Rightarrow> date \<Rightarrow> id option \<Rightarrow> db \<Rightarrow> commission_input list" where
  "clawback_entries c ev br now a d =
     map (\<lambda>(ty, x, rs). clawback_entry br (ev_bookingId ev) ty x (Some rs) now a)
        (clawback_steps (outstandingForBooking c (ev_bookingId ev) d) (netPaid c (ev_bookingId ev) d)
           (clawback_policy c d) (cancellation_type_name (ev_cancellationType ev)))"

definition recovered :: "int \<Rightarrow> commission_clawback_policy \<Rightarrow> int" where
  "recovered paid policy = (if paid > 0 \<and> policy \<noteq> WRITE_OFF then paid else 0)"

lemma handleBookingCancelled_eq:
  "\<exists>rows. handleBookingCancelled c ev br now a d
     = Inr (rows, create_commissions c (clawback_entries c ev br now a d) d)"
  unfolding handleBookingCancelled_def clawback_entries_def Let_def
  by (rule foldE_clawback) (auto simp: clawback_steps_def)

lemma clawback_entries_props:
  "e \<in> set (clawback_entries c ev br now a d) \<Longrightarrow>
     ci_bookingId e = ev_bookingId ev \<and> ci_brokerId e = br \<and> ci_entryType e \<noteq> PAYMENT"
  by (auto simp: clawback_entries_def clawback_steps_def split: if_splits)

lemma clawback_entries_sum:
  "sum_list (map ci_signedAmountPaise (clawback_entries c ev br now a d))
     = - outstandingForBooking c (ev_bookingId ev) d - recovered (netPaid c (ev_bookingId ev) d) (clawback_policy c d)"
  by (simp add: clawback_entries_def clawback_steps_def recovered_def)

lemma clawback_outstanding:
  "outstandingForBooking c b (create_commissions c (clawback_entries c ev br now a d) d)
     = (if b = ev_bookingId ev then - recovered (netPaid c b d) (clawback_policy c d)
        else outstandingForBooking c b d)"
  using booking_commission.balance_all [of "clawback_entries c ev br now a d" "ev_bookingId ev" c d]
    booking_commission.balance_other [of "clawback_entries c ev br now a d" b c d]
    clawback_entries_props [of _ c ev br now a d]
  by (auto simp: clawback_entries_sum)

lemma clawback_balance:
  "commissionBalance c k (create_commissions c (clawback_entries c ev br now a d) d)
     = commissionBalance c k d - (if k = br then outstandingForBooking c (ev_bookingId ev) d +
          recovered (netPaid c (ev_bookingId ev) d) (clawback_policy c d) else 0)"
  using broker_ledger.balance_all [of "clawback_entries c ev br now a d" br c d]
    broker_ledger.balance_other [of "clawback_entries c ev br now a d" k c d]
    clawback_entries_props [of _ c ev br now a d]
  by (auto simp: clawback_entries_sum)

lemma netPaid_creates:
  assumes "\<forall>e\<in>set es. ci_entryType e \<noteq> PAYMENT"
  shows "netPaid c b (create_commissions c es d) = netPaid c b d"
  using assms by (induction es arbitrary: d) (auto simp: netPaid_def booking_entries_def)

text \<open>
  C35: a clawback always succeeds and settles the booking. Whatever was accrued, paid,
  withheld or clawed back before, afterwards the cancelled booking's commission stands at
  minus what had been paid out under the policy RECOVER and at nothing under WRITE_OFF; no
  other booking's commission moves, and the whole difference is charged to the given broker.
  A second clawback of the same booking, whichever broker it names, may add entries to the
  ledger, but moves neither any booking's commission nor any broker's balance.
\<close>

theorem clawback_settles_booking:
  "\<exists>rows d'. handleBookingCancelled c ev br now a d = Inr (rows, d') \<and>
     outstandingForBooking c b d'
       = (if b = ev_bookingId ev then - recovered (netPaid c b d) (clawback_policy c d)
          else outstandingForBooking c b d) \<and>
     commissionBalance c k d' = commissionBalance c k d -
       (if k = br then outstandingForBooking c (ev_bookingId ev) d +
          recovered (netPaid c (ev_bookingId ev) d) (clawback_policy c d) else 0) \<and>
     (\<exists>rows2 d2. handleBookingCancelled c ev br2 now2 a2 d' = Inr (rows2, d2) \<and>
        outstandingForBooking c b d2 = outstandingForBooking c b d' \<and>
        commissionBalance c k d2 = commissionBalance c k d')"
proof -
  let ?d1 = "create_commissions c (clawback_entries c ev br now a d) d"
  let ?d2 = "create_commissions c (clawback_entries c ev br2 now2 a2 ?d1) ?d1"
  have paid: "netPaid c b' ?d1 = netPaid c b' d" for b'
    by (rule netPaid_creates) (auto dest: clawback_entries_props)
  have policy: "clawback_policy c ?d1 = clawback_policy c d"
    by (rule only_commission_finds(6) [OF only_commission_creates])
  have "outstandingForBooking c b ?d2 = outstandingForBooking c b ?d1"
    using paid policy by (auto simp: clawback_outstanding)
  moreover have "commissionBalance c k ?d2 = commissionBalance c k ?d1"
    unfolding clawback_balance [of c k ev br2 now2 a2 ?d1] paid policy clawback_outstanding by simp
  moreover obtain rows rows2 where "handleBookingCancelled c ev br now a d = Inr (rows, ?d1)"
    and "handleBookingCancelled c ev br2 now2 a2 ?d1 = Inr (rows2, ?d2)"
    using handleBookingCancelled_eq by meson
  ultimately show ?thesis using clawback_outstanding clawback_balance by blast
qed

text \<open>Under RECOVER a repeated clawback appends two more entries that cancel out.\<close>

lemma repeated_clawback_appends:
  fixes br :: id and now :: date and a :: "id option"
  assumes "0 < netPaid c (ev_bookingId ev) d" and "clawback_policy c d = RECOVER"
  defines "d1 \<equiv> create_commissions c (clawback_entries c ev br now a d) d"
  shows "map ci_signedAmountPaise (clawback_entries c ev br2 now2 a2 d1) =
    [netPaid c (ev_bookingId ev) d, - netPaid c (ev_bookingId ev) d]"
proof -
  have "netPaid c (ev_bookingId ev) d1 = netPaid c (ev_bookingId ev) d"
    unfolding d1_def by (rule netPaid_creates) (auto dest: clawback_entries_props)
  moreover have "clawback_policy c d1 = RECOVER"
    using assms(2) only_commission_finds(6) [OF only_commission_creates] by (simp add: d1_def)
  moreover have "outstandingForBooking c (ev_bookingId ev) d1 = - netPaid c (ev_bookingId ev) d"
    using assms(1,2) by (simp add: d1_def clawback_outstanding recovered_def)
  ultimately show ?thesis
    using assms(1) by (simp add: clawback_entries_def clawback_steps_def clawback_entry_def)
qed

text \<open>
  The clawback is charged to the broker the booking has when it is cancelled, not to
  the one whose commission was accrued. If the booking is assigned to another broker after
  the accrual, the clawback leaves the first broker's commission standing and takes the
  amount from the second, who never earned it.
\<close>

theorem clawback_charges_current_broker:
  assumes "accrueCommission c i now a d = (Inr es, d1)" and "accrual_trigger c d = ON_BOOKING"
    and "find_booking c i d = Some b" and "bk_brokerId b = Some old"
    and "booking_entries c i d = []" and "find_snapshot c i d1 = Some s"
    and "assignToBooking c i new d1 = Inr (b2, d2)" and "new \<noteq> old"
    and "ev_bookingId ev = i"
    and "handleBookingCancelled c ev new now2 a2 d2 = Inr (rows, d3)"
  shows "map_option bk_brokerId (find_booking c i d2) = Some (Some new) \<and>
    commissionBalance c old d3 = commissionBalance c old d + bbc_totalCommissionPaise s \<and>
    commissionBalance c new d3 = commissionBalance c new d - bbc_totalCommissionPaise s"
proof -
  have none: "find_accrual c i k d = None" for k
    using assms(5) by (auto simp: find_accrual_def booking_entries_def filter_empty_conv find_eq_None_iff)
  have zero: "outstandingForBooking c i d = 0" "netPaid c i d = 0"
    using assms(5) by (simp_all add: outstandingForBooking_def netPaid_def)
  from accrueCommission_on_booking [OF assms(3,4,2,1) none] assms(6) zero
  have d1: "outstandingForBooking c i d1 = bbc_totalCommissionPaise s" "netPaid c i d1 = 0"
    "commissionBalance c k d1 = commissionBalance c k d + (if k = old then bbc_totalCommissionPaise s else 0)"
    "find_booking c i d1 = Some b" for k by auto
  have d2: "d2 = upd_booking c i (\<lambda>b. b\<lparr>bk_brokerId := Some new\<rparr>) d1"
    using assms(7) by (auto simp: assignToBooking_def Let_def)
  have "outstandingForBooking c i d2 = outstandingForBooking c i d1" "netPaid c i d2 = netPaid c i d1"
    "commissionBalance c k d2 = commissionBalance c k d1" for k
    by (simp_all add: d2 outstandingForBooking_def netPaid_def booking_entries_def commissionBalance_def upd_booking_def)
  moreover have "map_option bk_brokerId (find_booking c i d2) = Some (Some new)"
    using d1(4) by (simp add: d2 find_booking_upd)
  moreover have "d3 = create_commissions c (clawback_entries c ev new now2 a2 d2) d2"
    using handleBookingCancelled_eq [of c ev new now2 a2 d2] assms(10) by auto
  ultimately show ?thesis
    using d1 assms(8,9) clawback_balance [of c _ ev new now2 a2 d2] by (simp add: recovered_def)
qed

section \<open>Concrete commissions\<close>

text \<open>The sold flat with broker 30, of whose price \<open>gross\<close> paise are collected.\<close>

definition demo_collected :: "int \<Rightarrow> db" where
  "demo_collected gross = demo_sold
     \<lparr>bookings := [demo_booking\<lparr>bk_brokerId := Some 30\<rparr>],
      receipts := [demo_cheque\<lparr>rc_grossAmountPaise := gross, rc_clearanceStatus := CLEARANCE_CLEARED\<rparr>],
      brokers := [demo_broker, demo_broker\<lparr>br_id := 32, br_phone := ''2''\<rparr>]\<rparr>"

definition milestone_masters :: masters where
  "milestone_masters = demo_masters
     \<lparr>companyConfigs := [\<lparr>cc_companyId = 1, cc_fyStartMonth = 4, cc_gstStateCode = Some ''27'',
        cc_chequeBounceChargePaise = 50000, cc_commissionAccrualTrigger = ON_COLLECTION_MILESTONE,
        cc_commissionClawbackPolicy = RECOVER\<rparr>]\<rparr>"

definition demo_milestones :: db where
  "demo_milestones = (demo_collected 60000)\<lparr>masters_of := milestone_masters\<rparr>"

lemma demo_rule:
  "map_option bcr_milestonesJson (find_rule 1 31 (demo_collected g)) = Some (Some [25, 50, 100])"
  "map_option bcr_milestonesJson (find_rule 1 31 demo_milestones) = Some (Some [25, 50, 100])"
  by (simp_all add: demo_collected_def demo_milestones_def find_rule_def demo_sold_def demo_db_def empty_db_def)

lemma demo_milestone_facts:
  "\<not> isl (fst (accrueCommission 1 40 demo_day None demo_milestones))"
  "map_option (\<lambda>s. (bbc_ruleId s, bbc_totalCommissionPaise s))
     (find_snapshot 1 40 (snd (accrueCommission 1 40 demo_day None demo_milestones))) = Some (31, 2218)"
  "accrual_trigger 1 demo_milestones = ON_COLLECTION_MILESTONE"
  "map_option (\<lambda>b. (bk_brokerId b, bk_agreedPricePaise b)) (find_booking 1 40 demo_milestones) = Some (Some 30, 110900)"
  "computeCollectedPercent 1 40 110900 demo_milestones = 541 / 10"
  "commissionMilestonesSchema [25, 50, 100]"
  by code_simp+

lemma no_entries_no_accrual: "commissionLedger d = [] \<Longrightarrow> find_accrual c b m d = None"
  by (simp add: find_accrual_def)

theorem milestone_accruals_partition_witness:
  "\<exists>es d'. accrueCommission 1 40 demo_day None demo_milestones = (Inr es, d') \<and>
     map cle_milestonePercent es = [Some 25, Some 50] \<and>
     sum_list (map cle_signedAmountPaise es) \<le> 2218"
proof -
  obtain es d' where a: "accrueCommission 1 40 demo_day None demo_milestones = (Inr es, d')"
    using not_isl_Inr [OF demo_milestone_facts(1)] by (cases "accrueCommission 1 40 demo_day None demo_milestones") auto
  obtain s where s: "find_snapshot 1 40 d' = Some s" "bbc_ruleId s = 31" "bbc_totalCommissionPaise s = 2218"
    using demo_milestone_facts(2) a by auto
  obtain b where b: "find_booking 1 40 demo_milestones = Some b" "bk_brokerId b = Some 30" "bk_agreedPricePaise b = 110900"
    using demo_milestone_facts(4) by auto
  obtain r where r: "find_rule 1 31 demo_milestones = Some r" "bcr_milestonesJson r = Some [25, 50, 100]"
    using demo_rule(2) by auto
  have "\<forall>m. find_accrual 1 40 (Some m) demo_milestones = None"
    by (simp add: no_entries_no_accrual demo_milestones_def demo_collected_def demo_sold_def demo_db_def empty_db_def)
  from milestone_accruals_partition [OF a demo_milestone_facts(3) b(1,2) s(1) _ _ r(2) demo_milestone_facts(6) this]
  show ?thesis using a s r(1) b(3) demo_milestone_facts(5) by (simp del: One_nat_def)
qed

lemma demo_switch_facts:
  "\<not> isl (fst (accrueCommission 1 40 demo_day None (demo_collected 110900)))"
  "\<not> isl (fst (accrueCommission 1 40 demo_day None
     ((snd (accrueCommission 1 40 demo_day None (demo_collected 110900)))\<lparr>masters_of := milestone_masters\<rparr>)))"
  "map_option (\<lambda>s. (bbc_ruleId s, bbc_totalCommissionPaise s))
     (find_snapshot 1 40 (snd (accrueCommission 1 40 demo_day None (demo_collected 110900)))) = Some (31, 2218)"
  "accrual_trigger 1 (demo_collected 110900) = ON_BOOKING"
  "map_option (\<lambda>b. (bk_brokerId b, bk_agreedPricePaise b)) (find_booking 1 40 (demo_collected 110900)) = Some (Some 30, 110900)"
  "computeCollectedPercent 1 40 110900 (snd (accrueCommission 1 40 demo_day None (demo_collected 110900))) = 100"
  "map_option bcr_milestonesJson (find_rule 1 31 (snd (accrueCommission 1 40 demo_day None (demo_collected 110900))))
     = Some (Some [25, 50, 100])"
  by code_simp+

lemma milestone_masters_trigger: "accrual_trigger 1 (d\<lparr>masters_of := milestone_masters\<rparr>) = ON_COLLECTION_MILESTONE"
  by (simp add: accrual_trigger_def find_config_def milestone_masters_def)

lemma demo_collected_no_entries: "booking_entries 1 40 (demo_collected g) = []"
  by (simp add: booking_entries_def demo_collected_def demo_sold_def demo_db_def empty_db_def)

theorem trigger_change_accrues_twice_witness:
  "\<exists>es d1 es2 d2. accrueCommission 1 40 demo_day None (demo_collected 110900) = (Inr es, d1) \<and>
     accrueCommission 1 40 demo_day None (d1\<lparr>masters_of := milestone_masters\<rparr>) = (Inr es2, d2) \<and>
     outstandingForBooking 1 40 d2 = 2 * 2218"
proof -
  obtain es d1 where a: "accrueCommission 1 40 demo_day None (demo_collected 110900) = (Inr es, d1)"
    using not_isl_Inr [OF demo_switch_facts(1)] by (cases "accrueCommission 1 40 demo_day None (demo_collected 110900)") auto
  obtain es2 d2 where a2: "accrueCommission 1 40 demo_day None (d1\<lparr>masters_of := milestone_masters\<rparr>) = (Inr es2, d2)"
    using not_isl_Inr [OF demo_switch_facts(2)] a
    by (cases "accrueCommission 1 40 demo_day None (d1\<lparr>masters_of := milestone_masters\<rparr>)") auto
  obtain s where s: "find_snapshot 1 40 d1 = Some s" "bbc_ruleId s = 31" "bbc_totalCommissionPaise s = 2218"
    using demo_switch_facts(3) a by auto
  obtain b where b: "find_booking 1 40 (demo_collected 110900) = Some b" "bk_brokerId b = Some 30" "bk_agreedPricePaise b = 110900"
    using demo_switch_facts(5) by auto
  obtain r where r: "find_rule 1 (bbc_ruleId s) d1 = Some r" "bcr_milestonesJson r = Some [25, 50, 100]"
    using demo_switch_facts(7) a s(2) by auto
  have "of_int (last [25, 50, 100]) \<le> computeCollectedPercent 1 40 (bk_agreedPricePaise b) d1"
    using demo_switch_facts(6) a b(3) by simp
  from trigger_change_accrues_twice [OF a demo_switch_facts(4) b(1,2) demo_collected_no_entries s(1) _ r
      demo_milestone_facts(6) milestone_masters_trigger this a2]
  show ?thesis using a a2 s(3) by auto
qed

definition demo_event :: booking_cancelled_event where
  "demo_event = \<lparr>ev_companyId = 1, ev_bookingId = 40, ev_cancellationType = CANCEL, ev_cancelledAt = demo_day,
     ev_brokerId = None\<rparr>"

lemma demo_assign_succeeds:
  "\<not> isl (assignToBooking 1 40 32 (snd (accrueCommission 1 40 demo_day None (demo_collected 0))))"
  "\<not> isl (fst (accrueCommission 1 40 demo_day None (demo_collected 0)))"
  "accrual_trigger 1 (demo_collected 0) = ON_BOOKING"
  "map_option bk_brokerId (find_booking 1 40 (demo_collected 0)) = Some (Some 30)"
  "map_option bbc_totalCommissionPaise
     (find_snapshot 1 40 (snd (accrueCommission 1 40 demo_day None (demo_collected 0)))) = Some 2218"
  "commissionBalance 1 30 (demo_collected 0) = 0" "commissionBalance 1 32 (demo_collected 0) = 0"
  by code_simp+

theorem clawback_charges_current_broker_witness:
  "\<exists>es d1 b d2 rows d3. accrueCommission 1 40 demo_day None (demo_collected 0) = (Inr es, d1) \<and>
     assignToBooking 1 40 32 d1 = Inr (b, d2) \<and>
     handleBookingCancelled 1 demo_event 32 demo_day None d2 = Inr (rows, d3) \<and>
     commissionBalance 1 30 d3 = 2218 \<and> commissionBalance 1 32 d3 = - 2218"
proof -
  obtain es d1 where a: "accrueCommission 1 40 demo_day None (demo_collected 0) = (Inr es, d1)"
    using not_isl_Inr [OF demo_assign_succeeds(2)] by (cases "accrueCommission 1 40 demo_day None (demo_collected 0)") auto
  obtain b2 d2 where asg: "assignToBooking 1 40 32 d1 = Inr (b2, d2)"
    using not_isl_Inr [OF demo_assign_succeeds(1)] a by auto
  obtain rows d3 where h: "handleBookingCancelled 1 demo_event 32 demo_day None d2 = Inr (rows, d3)"
    using handleBookingCancelled_eq by blast
  obtain b where b: "find_booking 1 40 (demo_collected 0) = Some b" "bk_brokerId b = Some 30"
    using demo_assign_succeeds(4) by auto
  obtain s where s: "find_snapshot 1 40 d1 = Some s" "bbc_totalCommissionPaise s = 2218"
    using demo_assign_succeeds(5) a by auto
  from clawback_charges_current_broker [OF a demo_assign_succeeds(3) b demo_collected_no_entries s(1) asg _ _ h]
  show ?thesis using a asg h s(2) demo_assign_succeeds(6,7) by (simp add: demo_event_def del: One_nat_def)
qed

end
