(* ===== verification/CommissionPayment.thy ===== *)
theory CommissionPayment
  imports Commission
begin

declare post.simps [simp del]

text \<open>
  \<open>apps/api/src/commission/commission-payment.service.ts\<close>: paying a broker. Requests
  and approvals only move a status; \<open>pay\<close> spreads the amount over the broker's
  bookings, oldest first, withholds the 194-H tax and posts one pair of entries for each
  booking. The workflow is an instance of \<open>status_machine\<close>. The notification after
  the commit is not modelled.
\<close>

section \<open>Requests and approvals\<close>

record request_commission_payment_dto =
  rp_brokerId :: id
  rp_amountPaise :: int

definition requestCommissionPaymentSchema :: "request_commission_payment_dto \<Rightarrow> bool" where
  "requestCommissionPaymentSchema dto \<longleftrightarrow> 1 \<le> rp_amountPaise dto"

record pay_commission_payment_dto =
  py_mode :: receipt_mode
  py_paymentDate :: date
  py_bankId :: "id option"
  py_instrumentNumber :: "string option"

definition payCommissionPaymentSchema :: "pay_commission_payment_dto \<Rightarrow> bool" where
  "payCommissionPaymentSchema dto \<longleftrightarrow>
     (case py_instrumentNumber dto of None \<Rightarrow> True | Some s \<Rightarrow> length s \<le> 50)"

definition find_payment :: "id \<Rightarrow> id \<Rightarrow> db \<Rightarrow> commission_payment option" where
  "find_payment companyId i d =
     List.find (\<lambda>r. cp_id r = i \<and> cp_companyId r = companyId) (commissionPayments d)"

definition payment_history :: "id \<Rightarrow> id \<Rightarrow> db \<Rightarrow> commission_payment list" where
  "payment_history companyId brokerId d =
     rev (filter (\<lambda>r. cp_companyId r = companyId \<and> cp_brokerId r = brokerId) (commissionPayments d))"

definition request_payment ::
  "id \<Rightarrow> request_commission_payment_dto \<Rightarrow> id option \<Rightarrow> db \<Rightarrow> (commission_payment \<times> db) result" where
  "request_payment companyId dto actorId d =
     bindE (orFail (NotFound ''Broker not found'') (find_broker companyId (rp_brokerId dto) d)) (\<lambda>_.
     bindE (ensure (\<not> rp_amountPaise dto > commissionBalance companyId (rp_brokerId dto) d)
              (BadRequest ''Requested amount exceeds the outstanding commission'')) (\<lambda>_.
     let p = \<lparr>cp_id = next_id d, cp_companyId = companyId, cp_brokerId = rp_brokerId dto,
              cp_amountPaise = rp_amountPaise dto, cp_status = CP_REQUESTED, cp_mode = None, cp_bankId = None,
              cp_instrumentNumber = None, cp_approvedById = None, cp_approvedAt = None, cp_paidAt = None,
              cp_createdById = actorId\<rparr>
     in Inr (p, add_commission_payment p d)))"

text \<open>The transaction \<open>approve\<close> and \<open>reject\<close> share.\<close>

definition decide_payment ::
  "commission_payment_status \<Rightarrow> string \<Rightarrow> id \<Rightarrow> id \<Rightarrow> date \<Rightarrow> id option \<Rightarrow> db \<Rightarrow> (commission_payment \<times> db) result" where
  "decide_payment status message companyId paymentId now actorId d =
     bindE (orFail (NotFound ''Commission payment not found'') (find_payment companyId paymentId d)) (\<lambda>p.
     bindE (ensure (cp_status p = CP_REQUESTED) (Conflict message)) (\<lambda>_.
     let f = (\<lambda>p. p\<lparr>cp_status := status, cp_approvedById := actorId, cp_approvedAt := Some now\<rparr>)
     in Inr (f p, upd_commission_payment companyId paymentId f d)))"

definition approve_payment :: "id \<Rightarrow> id \<Rightarrow> date \<Rightarrow> id option \<Rightarrow> db \<Rightarrow> (commission_payment \<times> db) result" where
  "approve_payment = decide_payment CP_APPROVED ''only REQUESTED can be approved''"

definition reject_payment :: "id \<Rightarrow> id \<Rightarrow> date \<Rightarrow> id option \<Rightarrow> db \<Rightarrow> (commission_payment \<times> db) result" where
  "reject_payment = decide_payment CP_REJECTED ''only REQUESTED can be rejected''"

section \<open>Spreading a payment over bookings\<close>

text \<open>The map from bookings to totals, in the order the bookings are first seen.\<close>

definition tally :: "commission_ledger_entry list \<Rightarrow> (id \<times> int) list" where
  "tally es =
     foldl (\<lambda>m e. AList.update (cle_bookingId e)
        ((case map_of m (cle_bookingId e) of None \<Rightarrow> 0 | Some s \<Rightarrow> s) + cle_signedAmountPaise e) m) [] es"

definition byBooking :: "id \<Rightarrow> id \<Rightarrow> db \<Rightarrow> (id \<times> int) list" where
  "byBooking companyId brokerId d =
     tally (filter (\<lambda>e. cle_companyId e = companyId \<and> cle_brokerId e = brokerId) (commissionLedger d))"

text \<open>The bookings still owed something; the tally is already sorted by the first entry.\<close>

definition outstandingBookings :: "id \<Rightarrow> id \<Rightarrow> db \<Rightarrow> (id \<times> int) list" where
  "outstandingBookings companyId brokerId d = filter (\<lambda>bv. snd bv > 0) (byBooking companyId brokerId d)"

fun gross_allocations :: "int \<Rightarrow> (id \<times> int) list \<Rightarrow> (id \<times> int) list \<times> int" where
  "gross_allocations remaining [] = ([], remaining)"
| "gross_allocations remaining ((b, owed) # rest) =
     (if remaining \<le> 0 then ([], remaining)
      else let part = (if owed < remaining then owed else remaining);
               (more, left) = gross_allocations (remaining - part) rest
           in ((b, part) # more, left))"

definition tds_194h :: "id \<Rightarrow> int \<Rightarrow> date \<Rightarrow> db \<Rightarrow> int result" where
  "tds_194h companyId amount paymentDate d =
     (case effective_tds_rule companyId ''194-H'' paymentDate d of
        None \<Rightarrow> Inr 0
      | Some rule \<Rightarrow>
          if amount \<ge> tr_thresholdPaise rule
          then percentOf amount (of_int (math_round (tr_ratePercent rule * 100)))
          else Inr 0)"

definition tds_shares :: "int \<Rightarrow> int list \<Rightarrow> int list result" where
  "tds_shares tdsPaise grosses = (if tdsPaise > 0 then allocate tdsPaise grosses else Inr (map (\<lambda>_. 0) grosses))"

definition payment_entry ::
  "id \<Rightarrow> id \<Rightarrow> commission_entry_type \<Rightarrow> int \<Rightarrow> string \<Rightarrow> date \<Rightarrow> id option \<Rightarrow> commission_input" where
  "payment_entry brokerId bookingId ty amount reason effective actorId =
     \<lparr>ci_brokerId = brokerId, ci_bookingId = bookingId, ci_entryType = ty, ci_signedAmountPaise = amount,
      ci_milestonePercent = None, ci_reason = Some reason, ci_effectiveDate = effective,
      ci_createdById = actorId\<rparr>"

definition payment_entries ::
  "commission_payment \<Rightarrow> pay_commission_payment_dto \<Rightarrow> id option \<Rightarrow> (id \<times> int) \<times> int \<Rightarrow> commission_input list" where
  "payment_entries p dto actorId alloc =
     (let b = fst (fst alloc); gross = snd (fst alloc); tds = snd alloc
      in payment_entry (cp_brokerId p) b PAYMENT (- (gross - tds))
           (''Commission payment '' @ show_nat (cp_id p)) (py_paymentDate dto) actorId #
         (if tds > 0
          then [payment_entry (cp_brokerId p) b TDS_WITHHELD (- tds)
                  (''194-H TDS withheld on commission payment '' @ show_nat (cp_id p)) (py_paymentDate dto) actorId]
          else []))"

definition paid_payment :: "pay_commission_payment_dto \<Rightarrow> commission_payment \<Rightarrow> commission_payment" where
  "paid_payment dto p =
     p\<lparr>cp_status := CP_PAID, cp_mode := Some (py_mode dto), cp_bankId := py_bankId dto,
       cp_instrumentNumber := py_instrumentNumber dto, cp_paidAt := Some (py_paymentDate dto)\<rparr>"

definition pay_payment ::
  "id \<Rightarrow> id \<Rightarrow> pay_commission_payment_dto \<Rightarrow> id option \<Rightarrow> db \<Rightarrow> (commission_payment \<times> db) result" where
  "pay_payment companyId paymentId dto actorId d =
     bindE (orFail (NotFound ''Commission payment not found'') (find_payment companyId paymentId d)) (\<lambda>p.
     bindE (ensure (cp_status p = CP_APPROVED) (Conflict ''only APPROVED can be paid'')) (\<lambda>_.
     let (allocs, remaining) = gross_allocations (cp_amountPaise p) (outstandingBookings companyId (cp_brokerId p) d) in
     bindE (ensure (allocs \<noteq> []) (BadRequest ''No outstanding commission found for this broker'')) (\<lambda>_.
     bindE (ensure (\<not> remaining > 0) (BadRequest ''Payment amount exceeds the total outstanding'')) (\<lambda>_.
     bindE (tds_194h companyId (cp_amountPaise p) (py_paymentDate dto) d) (\<lambda>tds.
     bindE (tds_shares tds (map snd allocs)) (\<lambda>shares.
     let d1 = create_commissions companyId (concat (map (payment_entries p dto actorId) (zip allocs shares))) d
     in Inr (paid_payment dto p, upd_commission_payment companyId paymentId (paid_payment dto) d1)))))))"

section \<open>The workflow\<close>

definition payment_status_of :: "id \<Rightarrow> id \<Rightarrow> db \<Rightarrow> commission_payment_status option" where
  "payment_status_of c i d = map_option cp_status (find_payment c i d)"

definition payment_move ::
  "id \<Rightarrow> pay_commission_payment_dto \<Rightarrow> date \<Rightarrow> id option \<Rightarrow> id \<Rightarrow> commission_payment_status \<Rightarrow> db \<Rightarrow> db result" where
  "payment_move c dto now actor i t d =
     (case t of
        CP_APPROVED \<Rightarrow> bindE (approve_payment c i now actor d) (\<lambda>(_, d'). Inr d')
      | CP_REJECTED \<Rightarrow> bindE (reject_payment c i now actor d) (\<lambda>(_, d'). Inr d')
      | CP_PAID \<Rightarrow> bindE (pay_payment c i dto actor d) (\<lambda>(_, d'). Inr d')
      | CP_REQUESTED \<Rightarrow> Inl (BadRequest ''no such operation''))"

fun payment_edge :: "commission_payment_status \<Rightarrow> commission_payment_status \<Rightarrow> bool" where
  "payment_edge CP_REQUESTED CP_APPROVED = True"
| "payment_edge CP_REQUESTED CP_REJECTED = True"
| "payment_edge CP_APPROVED CP_PAID = True"
| "payment_edge _ _ = False"

lemma find_payment_upd:
  assumes "\<And>r. cp_id (f r) = cp_id r" and "\<And>r. cp_companyId (f r) = cp_companyId r"
  shows "find_payment c k (upd_commission_payment c i f d)
    = map_option (\<lambda>r. if k = i then f r else r) (find_payment c k d)"
proof -
  have "find_payment c k (upd_commission_payment c i f d) =
      map_option (\<lambda>r. if cp_companyId r = c \<and> cp_id r = i then f r else r) (find_payment c k d)"
    unfolding find_payment_def upd_commission_payment_def using assms by (simp add: find_update_rows)
  then show ?thesis
    by (cases "find_payment c k d") (auto simp: find_payment_def dest!: find_SomeD)
qed

lemma find_payment_creates [simp]: "find_payment c k (create_commissions c' es d) = find_payment c k d"
  by (simp add: find_payment_def only_commission_fields [OF only_commission_creates])

lemma paid_payment_simps [simp]:
  "cp_id (paid_payment dto p) = cp_id p" "cp_companyId (paid_payment dto p) = cp_companyId p"
  "cp_status (paid_payment dto p) = CP_PAID" "cp_brokerId (paid_payment dto p) = cp_brokerId p"
  "cp_amountPaise (paid_payment dto p) = cp_amountPaise p"
  by (simp_all add: paid_payment_def)

lemma pay_payment_Inr:
  "pay_payment c i dto a d = Inr (q, d') \<longleftrightarrow>
     (\<exists>p allocs remaining tds shares. find_payment c i d = Some p \<and> cp_status p = CP_APPROVED \<and>
        gross_allocations (cp_amountPaise p) (outstandingBookings c (cp_brokerId p) d) = (allocs, remaining) \<and>
        allocs \<noteq> [] \<and> remaining \<le> 0 \<and> tds_194h c (cp_amountPaise p) (py_paymentDate dto) d = Inr tds \<and>
        tds_shares tds (map snd allocs) = Inr shares \<and> q = paid_payment dto p \<and>
        d' = upd_commission_payment c i (paid_payment dto)
               (create_commissions c (concat (map (payment_entries p dto a) (zip allocs shares))) d))"
proof (cases "find_payment c i d")
  case (Some p)
  obtain allocs remaining
    where "gross_allocations (cp_amountPaise p) (outstandingBookings c (cp_brokerId p) d) = (allocs, remaining)"
    by fastforce
  with Some show ?thesis by (auto simp: pay_payment_def Let_def not_less)
qed (simp add: pay_payment_def)

interpretation payment_workflow: status_machine "\<lambda>i. payment_status_of c i" "payment_move c dto now actor" payment_edge
  for c dto now actor
proof unfold_locales
  show "\<exists>f. payment_status_of c i d = Some f \<and> payment_edge f t" if "payment_move c dto now actor i t d = Inr d'" for i t d d'
    using that
    by (cases t) (auto simp: payment_move_def approve_payment_def reject_payment_def decide_payment_def
        payment_status_of_def pay_payment_Inr Let_def)
  show "payment_status_of c i d' = Some t" if "payment_move c dto now actor i t d = Inr d'" for i t d d'
    using that
    by (cases t) (auto simp: payment_move_def approve_payment_def reject_payment_def decide_payment_def
        payment_status_of_def pay_payment_Inr Let_def find_payment_upd)
  show "payment_status_of c k d' = payment_status_of c k d" if "payment_move c dto now actor i t d = Inr d'" "k \<noteq> i" for i t d d' k
    using that
    by (cases t) (auto simp: payment_move_def approve_payment_def reject_payment_def decide_payment_def
        payment_status_of_def pay_payment_Inr Let_def find_payment_upd option.map_comp o_def option.map_id0)
qed

section \<open>What a payment does to the ledger\<close>

text \<open>The account of a broker on one booking, a third view of the same ledger.\<close>

definition accountBalance :: "id \<Rightarrow> id \<times> id \<Rightarrow> db \<Rightarrow> int" where
  "accountBalance = keyed_balance (\<lambda>e. (cle_brokerId e, cle_bookingId e))"

interpretation account_ledger: ledger_contract "create_commissions c" "accountBalance c" commissionLedger
  ci_signedAmountPaise "\<lambda>e. (ci_brokerId e, ci_bookingId e)" for c
  unfolding accountBalance_def by (rule keyed_contract) simp

text \<open>What a broker's entries of one kind amount to.\<close>

definition typeBalance :: "id \<Rightarrow> id \<times> commission_entry_type \<Rightarrow> db \<Rightarrow> int" where
  "typeBalance = keyed_balance (\<lambda>e. (cle_brokerId e, cle_entryType e))"

interpretation type_ledger: ledger_contract "create_commissions c" "typeBalance c" commissionLedger
  ci_signedAmountPaise "\<lambda>e. (ci_brokerId e, ci_entryType e)" for c
  unfolding typeBalance_def by (rule keyed_contract) simp

lemma distinct_tally: "distinct (map fst (tally es))"
proof -
  have "distinct (map fst (foldl (\<lambda>m e. AList.update (cle_bookingId e)
      ((case map_of m (cle_bookingId e) of None \<Rightarrow> 0 | Some s \<Rightarrow> s) + cle_signedAmountPaise e) m) m es))"
    if "distinct (map fst m)" for m
    using that by (induction es arbitrary: m) (simp_all add: distinct_update)
  then show ?thesis by (simp add: tally_def)
qed

lemma map_of_tally:
  "(case map_of (tally es) b of None \<Rightarrow> 0 | Some s \<Rightarrow> s)
     = sum_list (map cle_signedAmountPaise (filter (\<lambda>e. cle_bookingId e = b) es))"
proof -
  have "(case map_of (foldl (\<lambda>m e. AList.update (cle_bookingId e)
      ((case map_of m (cle_bookingId e) of None \<Rightarrow> 0 | Some s \<Rightarrow> s) + cle_signedAmountPaise e) m) m es) b
        of None \<Rightarrow> 0 | Some s \<Rightarrow> s)
      = (case map_of m b of None \<Rightarrow> 0 | Some s \<Rightarrow> s) +
        sum_list (map cle_signedAmountPaise (filter (\<lambda>e. cle_bookingId e = b) es))" for m
    by (induction es arbitrary: m) (auto simp: update_conv')
  from this [of "[]"] show ?thesis by (simp add: tally_def)
qed

text \<open>Who appears in the list of open bookings, and with what.\<close>

lemma outstandingBookings_account:
  "distinct (map fst (outstandingBookings c br d))"
  "(b, v) \<in> set (outstandingBookings c br d) \<longleftrightarrow> 0 < v \<and> v = accountBalance c (br, b) d"
proof -
  show "distinct (map fst (outstandingBookings c br d))"
    using distinct_tally by (simp add: outstandingBookings_def byBooking_def distinct_map_filter)
  have acc: "(case map_of (byBooking c br d) b of None \<Rightarrow> 0 | Some s \<Rightarrow> s) = accountBalance c (br, b) d"
    unfolding byBooking_def map_of_tally accountBalance_def keyed_balance_def
    by (rule arg_cong [where f = sum_list], rule arg_cong [where f = "map cle_signedAmountPaise"])
      (auto simp: filter_filter intro: filter_cong)
  have "(b, v) \<in> set (byBooking c br d) \<longleftrightarrow> map_of (byBooking c br d) b = Some v"
    using distinct_tally by (simp add: byBooking_def map_of_eq_Some_iff)
  with acc show "(b, v) \<in> set (outstandingBookings c br d) \<longleftrightarrow> 0 < v \<and> v = accountBalance c (br, b) d"
    by (cases "map_of (byBooking c br d) b") (auto simp: outstandingBookings_def)
qed

lemma gross_allocations_effect:
  assumes "gross_allocations n bs = (allocs, left)" and "0 \<le> n" and "\<forall>x\<in>set bs. 0 < snd x"
  shows "sum_list (map snd allocs) = n - left \<and> 0 \<le> left \<and>
    map fst allocs = take (length allocs) (map fst bs) \<and>
    (\<forall>x\<in>set allocs. \<exists>v. (fst x, v) \<in> set bs \<and> 0 < snd x \<and> snd x \<le> v) \<and>
    (left = 0 \<longleftrightarrow> n \<le> sum_list (map snd bs)) \<and> (0 < n \<and> bs \<noteq> [] \<longrightarrow> allocs \<noteq> [])"
  using assms
proof (induction n bs arbitrary: allocs left rule: gross_allocations.induct)
  case (2 n b owed rest)
  show ?case
  proof (cases "n \<le> 0")
    case True
    have "0 \<le> sum_list (map snd rest)" using 2(4) by (intro sum_list_nonneg) (auto simp: order_less_imp_le)
    with True 2 show ?thesis by auto
  next
    case False
    define p where "p = (if owed < n then owed else n)"
    obtain more l where r: "gross_allocations (n - p) rest = (more, l)" by fastforce
    have a: "allocs = (b, p) # more" "left = l" using 2(2) False r by (auto simp: p_def)
    have p: "0 < p" "p \<le> owed" "p \<le> n" using False 2(4) by (auto simp: p_def)
    have ih: "sum_list (map snd more) = n - p - l" "0 \<le> l" "map fst more = take (length more) (map fst rest)"
      "\<forall>x\<in>set more. \<exists>v. (fst x, v) \<in> set rest \<and> 0 < snd x \<and> snd x \<le> v"
      "l = 0 \<longleftrightarrow> n - p \<le> sum_list (map snd rest)"
      using 2(1) [OF False p_def r] p(3) 2(4) by auto
    have rest0: "0 \<le> sum_list (map snd rest)" using 2(4) by (intro sum_list_nonneg) (auto simp: order_less_imp_le)
    have "l = 0 \<longleftrightarrow> n \<le> owed + sum_list (map snd rest)" using ih(5) rest0 by (auto simp: p_def)
    moreover have "\<exists>v. (fst x, v) \<in> set ((b, owed) # rest) \<and> 0 < snd x \<and> snd x \<le> v" if "x \<in> set ((b, p) # more)" for x
    proof (cases "x = (b, p)")
      case True
      with p show ?thesis by (intro exI [of _ owed]) simp
    next
      case False
      with that ih(4) show ?thesis by (metis list.set_intros(2) set_ConsD)
    qed
    ultimately show ?thesis unfolding a using ih(1-3) by simp
  qed
qed auto

section \<open>Paying\<close>

lemma payment_entry_simps [simp]:
  "ci_brokerId (payment_entry br b ty x rs eff a) = br" "ci_bookingId (payment_entry br b ty x rs eff a) = b"
  "ci_entryType (payment_entry br b ty x rs eff a) = ty" "ci_signedAmountPaise (payment_entry br b ty x rs eff a) = x"
  by (simp_all add: payment_entry_def)

text \<open>The entries of a payment by account, by broker and by kind.\<close>

lemma payment_entries_one:
  assumes "0 \<le> t"
  shows "sum_list (map ci_signedAmountPaise
      (filter (\<lambda>e. (ci_brokerId e, ci_bookingId e) = (cp_brokerId p, b)) (payment_entries p dto a (bg, t))))
      = (if fst bg = b then - snd bg else 0)"
    and "sum_list (map ci_signedAmountPaise (payment_entries p dto a (bg, t))) = - snd bg"
    and "sum_list (map ci_signedAmountPaise
      (filter (\<lambda>e. (ci_brokerId e, ci_entryType e) = (cp_brokerId p, TDS_WITHHELD)) (payment_entries p dto a (bg, t))))
      = - t"
    and "e \<in> set (payment_entries p dto a (bg, t)) \<Longrightarrow> ci_brokerId e = cp_brokerId p"
  using assms by (auto simp: payment_entries_def Let_def)

lemma payment_entries_sums:
  assumes "length shares = length allocs" and "\<forall>x\<in>set shares. 0 \<le> x"
  shows "sum_list (map ci_signedAmountPaise (filter (\<lambda>e. (ci_brokerId e, ci_bookingId e) = (cp_brokerId p, b))
        (concat (map (payment_entries p dto a) (zip allocs shares)))))
      = - sum_list (map snd (filter (\<lambda>x. fst x = b) allocs))"
    and "sum_list (map ci_signedAmountPaise (concat (map (payment_entries p dto a) (zip allocs shares))))
      = - sum_list (map snd allocs)"
    and "sum_list (map ci_signedAmountPaise
        (filter (\<lambda>e. (ci_brokerId e, ci_entryType e) = (cp_brokerId p, TDS_WITHHELD))
          (concat (map (payment_entries p dto a) (zip allocs shares))))) = - sum_list shares"
    and "\<forall>e\<in>set (concat (map (payment_entries p dto a) (zip allocs shares))). ci_brokerId e = cp_brokerId p"
proof -
  let ?es = "\<lambda>allocs shares. concat (map (payment_entries p dto a) (zip allocs shares))"
  show "sum_list (map ci_signedAmountPaise
      (filter (\<lambda>e. (ci_brokerId e, ci_bookingId e) = (cp_brokerId p, b)) (?es allocs shares)))
      = - sum_list (map snd (filter (\<lambda>x. fst x = b) allocs))"
    using assms by (induction shares allocs rule: list_induct2) (simp_all add: payment_entries_one(1) del: prod.inject)
  show "sum_list (map ci_signedAmountPaise (?es allocs shares)) = - sum_list (map snd allocs)"
    using assms by (induction shares allocs rule: list_induct2) (simp_all add: payment_entries_one(2))
  show "sum_list (map ci_signedAmountPaise
      (filter (\<lambda>e. (ci_brokerId e, ci_entryType e) = (cp_brokerId p, TDS_WITHHELD)) (?es allocs shares)))
      = - sum_list shares"
    using assms by (induction shares allocs rule: list_induct2) (simp_all add: payment_entries_one(3) del: prod.inject)
  show "\<forall>e\<in>set (?es allocs shares). ci_brokerId e = cp_brokerId p"
    using assms by (auto dest!: set_zip_rightD payment_entries_one(4) [rotated])
qed

lemma tds_shares_props:
  assumes "tds_shares tds gs = Inr shares" and "\<forall>g\<in>set gs. 0 < g"
  shows "length shares = length gs \<and> (\<forall>x\<in>set shares. 0 \<le> x) \<and> sum_list shares = max 0 tds"
proof (cases "tds > 0")
  case True
  have "\<forall>g\<in>set gs. 0 \<le> g" using assms(2) by auto
  moreover have al: "allocate tds gs = Inr shares" using True assms(1) by (simp add: tds_shares_def)
  ultimately have "\<forall>x\<in>set shares. 0 \<le> x" and "sum_list shares = tds"
    using allocate_shares_nonneg [of gs tds shares] allocate_sum [of gs tds shares] True by auto
  with allocate_length [OF al] True show ?thesis by simp
qed (use assms in \<open>auto simp: tds_shares_def sum_list_map_zero\<close>)

lemma sum_at_key:
  assumes "distinct (map fst xs)"
  shows "sum_list (map snd (filter (\<lambda>x. fst x = b) xs)) = (case map_of xs b of None \<Rightarrow> 0 | Some g \<Rightarrow> g)"
  using assms
proof (induction xs)
  case (Cons x xs)
  have "filter (\<lambda>x. fst x = b) xs = []" if "fst x = b"
    unfolding filter_empty_conv using Cons.prems that by (auto simp: image_iff)
  with Cons show ?case by (cases x) auto
qed simp

lemma commission_upd_payment [simp]:
  "commissionLedger (upd_commission_payment c i f d) = commissionLedger d"
  by (simp add: upd_commission_payment_def)

lemma keyed_balance_cong: "commissionLedger d' = commissionLedger d \<Longrightarrow> keyed_balance key c a d' = keyed_balance key c a d"
  by (simp add: keyed_balance_def)

text \<open>
  C36: paying a commission moves the broker's balance by exactly the approved amount, and
  no other broker's. It is taken from bookings that are still owed something, from none
  more than it is owed; the rest stay as they are. What is withheld is the 194-H tax on the
  whole amount, to the paisa, and a paid request cannot be paid again.
\<close>

theorem pay_payment_effect:
  assumes "pay_payment c i dto a d = Inr (q, d')"
  shows "0 < cp_amountPaise q \<and>
    commissionBalance c k d' = commissionBalance c k d - (if k = cp_brokerId q then cp_amountPaise q else 0) \<and>
    (if 0 < accountBalance c (cp_brokerId q, b) d
     then 0 \<le> accountBalance c (cp_brokerId q, b) d' \<and>
          accountBalance c (cp_brokerId q, b) d' \<le> accountBalance c (cp_brokerId q, b) d
     else accountBalance c (cp_brokerId q, b) d' = accountBalance c (cp_brokerId q, b) d) \<and>
    (\<exists>tds. tds_194h c (cp_amountPaise q) (py_paymentDate dto) d = Inr tds \<and>
       typeBalance c (cp_brokerId q, TDS_WITHHELD) d' = typeBalance c (cp_brokerId q, TDS_WITHHELD) d - max 0 tds) \<and>
    pay_payment c i dto2 a2 d' = Inl (Conflict ''only APPROVED can be paid'')"
proof -
  obtain p allocs left tds shares where p: "find_payment c i d = Some p" "q = paid_payment dto p"
    and al: "gross_allocations (cp_amountPaise p) (outstandingBookings c (cp_brokerId p) d) = (allocs, left)"
    and ne: "allocs \<noteq> []" and left: "left \<le> 0" and tds: "tds_194h c (cp_amountPaise p) (py_paymentDate dto) d = Inr tds"
    and sh: "tds_shares tds (map snd allocs) = Inr shares"
    and d': "d' = upd_commission_payment c i (paid_payment dto)
               (create_commissions c (concat (map (payment_entries p dto a) (zip allocs shares))) d)"
    using assms unfolding pay_payment_Inr by blast
  let ?es = "concat (map (payment_entries p dto a) (zip allocs shares))" and ?br = "cp_brokerId p"
  have pos: "0 < cp_amountPaise p" using al ne by (cases "outstandingBookings c ?br d") (auto split: if_splits)
  have eff: "sum_list (map snd allocs) = cp_amountPaise p"
    and keys: "map fst allocs = take (length allocs) (map fst (outstandingBookings c ?br d))"
    and each: "\<forall>x\<in>set allocs. \<exists>v. (fst x, v) \<in> set (outstandingBookings c ?br d) \<and> 0 < snd x \<and> snd x \<le> v"
    using gross_allocations_effect [OF al] pos left outstandingBookings_account(2) by fastforce+
  have len: "length shares = length allocs" "\<forall>x\<in>set shares. 0 \<le> x" "sum_list shares = max 0 tds"
    using tds_shares_props [OF sh] each by auto
  note sums = payment_entries_sums [OF len(1,2)]
  have dist: "distinct (map fst allocs)"
    unfolding keys using outstandingBookings_account(1) by (rule distinct_take)
  have taken: "sum_list (map snd (filter (\<lambda>x. fst x = b) allocs))
      = (case map_of allocs b of None \<Rightarrow> 0 | Some g \<Rightarrow> g)"
    by (rule sum_at_key [OF dist])
  have acc: "accountBalance c (?br, b) d' = accountBalance c (?br, b) d - (case map_of allocs b of None \<Rightarrow> 0 | Some g \<Rightarrow> g)"
    using account_ledger.balance_append [of c "(?br, b)" ?es d] sums(1) [of p b dto a] taken
    by (simp add: d' accountBalance_def keyed_balance_def)
  have bound: "0 < g \<and> g \<le> accountBalance c (?br, b) d" if "map_of allocs b = Some g" for g
    using each that outstandingBookings_account(2) [of b _ c ?br d] by (fastforce dest: map_of_SomeD)
  have "commissionBalance c k d' = commissionBalance c k d - (if k = ?br then cp_amountPaise p else 0)"
    using broker_ledger.balance_all [of ?es ?br c d] broker_ledger.balance_other [of ?es k c d] sums(2,4) [of p dto a] eff
    by (auto simp: d' commissionBalance_def)
  moreover have "typeBalance c (?br, TDS_WITHHELD) d' = typeBalance c (?br, TDS_WITHHELD) d - max 0 tds"
    using type_ledger.balance_append [of c "(?br, TDS_WITHHELD)" ?es d] sums(3) [of p dto a] len(3)
    by (simp add: d' typeBalance_def keyed_balance_def)
  moreover have "pay_payment c i dto2 a2 d' = Inl (Conflict ''only APPROVED can be paid'')"
    using p by (simp add: pay_payment_def d' find_payment_upd)
  ultimately show ?thesis using pos acc bound tds p(2) by (cases "map_of allocs b") auto
qed

section \<open>When a payment goes through\<close>

lemma tds_194h_total: "\<exists>tds. tds_194h c x date d = Inr tds"
  by (cases "effective_tds_rule c ''194-H'' date d") (auto simp: tds_194h_def percentOf_int)

lemma tds_shares_total: "gs \<noteq> [] \<Longrightarrow> \<forall>g\<in>set gs. 0 < g \<Longrightarrow> \<exists>shares. tds_shares tds gs = Inr shares"
proof (cases "tds > 0")
  case True
  assume gs: "gs \<noteq> []" "\<forall>g\<in>set gs. 0 < g"
  then obtain g gs' where "gs = g # gs'" by (cases gs) auto
  moreover have "0 \<le> sum_list gs'" using gs calculation by (intro sum_list_nonneg) (auto simp: order_less_imp_le)
  ultimately have "0 < sum_list gs" using gs by simp
  then have "\<not> (\<exists>e. allocate tds gs = Inl e)" by (simp add: allocate_fails_iff)
  then show ?thesis using True by (cases "allocate tds gs") (auto simp: tds_shares_def)
qed (simp add: tds_shares_def)

text \<open>
  C37: an approved payment goes through exactly when the bookings that are still owed
  something cover it. What the broker owes back on cancelled bookings is not set off: the
  balance the request was checked against plays no part.
\<close>

theorem pay_payment_succeeds_iff:
  assumes "find_payment c i d = Some p" and "cp_status p = CP_APPROVED" and "1 \<le> cp_amountPaise p"
  shows "(\<exists>q d'. pay_payment c i dto a d = Inr (q, d')) \<longleftrightarrow>
    cp_amountPaise p \<le> sum_list (map snd (outstandingBookings c (cp_brokerId p) d))"
proof -
  let ?bs = "outstandingBookings c (cp_brokerId p) d"
  obtain allocs left where al: "gross_allocations (cp_amountPaise p) ?bs = (allocs, left)" by fastforce
  have bs: "\<forall>x\<in>set ?bs. 0 < snd x" using outstandingBookings_account(2) by fastforce
  have eff: "0 \<le> left" "left = 0 \<longleftrightarrow> cp_amountPaise p \<le> sum_list (map snd ?bs)"
    "?bs \<noteq> [] \<longrightarrow> allocs \<noteq> []" "\<forall>x\<in>set allocs. 0 < snd x"
    using gross_allocations_effect [OF al _ bs] assms(3) by auto
  show ?thesis
  proof
    assume "\<exists>q d'. pay_payment c i dto a d = Inr (q, d')"
    then show "cp_amountPaise p \<le> sum_list (map snd ?bs)"
      using assms(1) al eff(1,2) unfolding pay_payment_Inr by auto
  next
    assume covered: "cp_amountPaise p \<le> sum_list (map snd ?bs)"
    then have ne: "allocs \<noteq> []" using assms(3) eff(3) by auto
    obtain tds where tds: "tds_194h c (cp_amountPaise p) (py_paymentDate dto) d = Inr tds"
      using tds_194h_total by blast
    obtain shares where sh: "tds_shares tds (map snd allocs) = Inr shares"
      using tds_shares_total [of "map snd allocs" tds] ne eff(4) by auto
    show "\<exists>q d'. pay_payment c i dto a d = Inr (q, d')"
      unfolding pay_payment_Inr using assms(1,2) al ne tds sh covered eff(2) by auto
  qed
qed

section \<open>Concrete payments\<close>

text \<open>
  Broker 30 is owed 8000 paise on booking 41 and owes 5000 back on the cancelled booking
  40; a payment of 3000, the whole balance, is approved twice.
\<close>

definition demo_commission_entry :: "id \<Rightarrow> id \<Rightarrow> commission_entry_type \<Rightarrow> int \<Rightarrow> commission_ledger_entry" where
  "demo_commission_entry i b ty x = commission_row 1 i (payment_entry 30 b ty x ''R'' demo_day None)"

definition demo_payment :: "id \<Rightarrow> commission_payment" where
  "demo_payment i = \<lparr>cp_id = i, cp_companyId = 1, cp_brokerId = 30, cp_amountPaise = 3000, cp_status = CP_APPROVED,
     cp_mode = None, cp_bankId = None, cp_instrumentNumber = None, cp_approvedById = None, cp_approvedAt = None,
     cp_paidAt = None, cp_createdById = None\<rparr>"

definition demo_owing :: db where
  "demo_owing = demo_sold
     \<lparr>commissionLedger := [demo_commission_entry 70 40 CLAWBACK_RECOVERY (- 5000), demo_commission_entry 71 41 ACCRUAL 8000],
      commissionPayments := [demo_payment 72, demo_payment 73]\<rparr>"

definition demo_payment_dto :: pay_commission_payment_dto where
  "demo_payment_dto = \<lparr>py_mode = CHEQUE, py_paymentDate = demo_day, py_bankId = None, py_instrumentNumber = None\<rparr>"

lemma demo_owing_facts:
  "commissionBalance 1 30 demo_owing = 3000"
  "accountBalance 1 (30, 41) demo_owing = 8000"
  "outstandingBookings 1 30 demo_owing = [(41, 8000)]"
  "find_payment 1 72 demo_owing = Some (demo_payment 72)"
  "map_option cp_status (find_payment 1 73 demo_owing) = Some CP_APPROVED"
  by code_simp+

theorem pay_payment_succeeds_iff_witness:
  "\<exists>q d'. pay_payment 1 72 demo_payment_dto None demo_owing = Inr (q, d')"
  using pay_payment_succeeds_iff [OF demo_owing_facts(4), of demo_payment_dto None] demo_owing_facts(3)
  by (simp add: demo_payment_def del: One_nat_def)

lemma demo_pay_twice:
  "\<not> isl (bindE (pay_payment 1 72 demo_payment_dto None demo_owing)
     (\<lambda>(q, d1). pay_payment 1 73 demo_payment_dto None d1))"
  "map_option cp_amountPaise (find_payment 1 72 demo_owing) = Some 3000"
  by code_simp+

lemma paid_amount:
  "pay_payment c i dto a d = Inr (q, d') \<Longrightarrow> find_payment c i d = Some p \<Longrightarrow>
     cp_amountPaise q = cp_amountPaise p \<and> cp_brokerId q = cp_brokerId p"
  by (auto simp: pay_payment_Inr)

theorem pay_payment_effect_witness:
  "\<exists>q d'. pay_payment 1 72 demo_payment_dto None demo_owing = Inr (q, d') \<and>
     commissionBalance 1 30 d' = 0 \<and> accountBalance 1 (30, 41) d' \<le> 8000"
proof -
  obtain q d' where r: "pay_payment 1 72 demo_payment_dto None demo_owing = Inr (q, d')"
    using not_isl_Inr [OF demo_pay_twice(1)] by (auto simp: bindE_eq_Inr)
  have "cp_amountPaise q = 3000 \<and> cp_brokerId q = 30"
    using paid_amount [OF r demo_owing_facts(4)] by (simp add: demo_payment_def)
  with pay_payment_effect [OF r, of 30 41] r demo_owing_facts(1,2) show ?thesis by auto
qed

end
