(* ===== verification/Noc.thy ===== *)
theory Noc
  imports CommissionPayment
begin

declare post.simps [simp del]

text \<open>
  \<open>apps/api/src/brokers/noc.service.ts\<close>: the broker's no-objection certificate, and
  the cancellation of a booking as the controller runs it
  (\<open>BookingController.cancel\<close> in \<open>apps/api/src/postsales/booking.controller.ts\<close>):
  the certificate gate, the cancellation and the commission clawback in one transaction.
\<close>

section \<open>Certificates\<close>

definition requestNocSchema :: "string option \<Rightarrow> bool" where
  "requestNocSchema reason \<longleftrightarrow> (case reason of None \<Rightarrow> True | Some s \<Rightarrow> length s \<le> 500)"

definition rejectNocSchema :: "string \<Rightarrow> bool" where
  "rejectNocSchema reason \<longleftrightarrow> 1 \<le> length reason \<and> length reason \<le> 500"

definition find_noc :: "id \<Rightarrow> id \<Rightarrow> db \<Rightarrow> broker_noc option" where
  "find_noc companyId i d = List.find (\<lambda>r. noc_id r = i \<and> noc_companyId r = companyId) (nocs d)"

definition find_approved :: "id \<Rightarrow> id \<Rightarrow> db \<Rightarrow> broker_noc option" where
  "find_approved companyId bookingId d =
     List.find (\<lambda>r. noc_companyId r = companyId \<and> noc_bookingId r = bookingId \<and> noc_status r = NOC_APPROVED) (nocs d)"

definition findForBooking :: "id \<Rightarrow> id \<Rightarrow> db \<Rightarrow> broker_noc list" where
  "findForBooking companyId bookingId d =
     rev (filter (\<lambda>r. noc_companyId r = companyId \<and> noc_bookingId r = bookingId) (nocs d))"

text \<open>A broker's certificates with the numbers of their bookings; the tenant filter scopes both queries.\<close>

definition listForBroker :: "id \<Rightarrow> id \<Rightarrow> db \<Rightarrow> (broker_noc \<times> string option) list" where
  "listForBroker companyId brokerId d =
     (let own = rev (filter (\<lambda>r. noc_companyId r = companyId \<and> noc_brokerId r = brokerId) (nocs d));
          bookingNumbers = map_of (map (\<lambda>b. (bk_id b, bk_bookingNumber b))
             (filter (\<lambda>b. bk_companyId b = companyId \<and> bk_id b \<in> set (map noc_bookingId own)) (bookings d)))
      in map (\<lambda>n. (n, bookingNumbers (noc_bookingId n))) own)"

definition request_noc :: "id \<Rightarrow> id \<Rightarrow> string option \<Rightarrow> id option \<Rightarrow> db \<Rightarrow> (broker_noc \<times> db) result" where
  "request_noc companyId bookingId reason actorId d =
     bindE (orFail (NotFound ''Booking not found'') (find_booking companyId bookingId d)) (\<lambda>b.
     bindE (orFail (BadRequest ''Booking has no sourcing broker'') (bk_brokerId b)) (\<lambda>brokerId.
     let r = \<lparr>noc_id = next_id d, noc_companyId = companyId, noc_bookingId = bookingId, noc_brokerId = brokerId,
              noc_status = NOC_REQUESTED, noc_reason = reason, noc_requestedById = actorId,
              noc_approvedById = None, noc_approvedAt = None\<rparr>
     in Inr (r, add_noc r d)))"

definition approve_noc :: "id \<Rightarrow> id \<Rightarrow> date \<Rightarrow> id option \<Rightarrow> db \<Rightarrow> (broker_noc \<times> db) result" where
  "approve_noc companyId nocId now actorId d =
     bindE (orFail (NotFound ''NOC not found'') (find_noc companyId nocId d)) (\<lambda>n.
     bindE (ensure (noc_status n = NOC_REQUESTED) (Conflict ''only REQUESTED can be approved'')) (\<lambda>_.
     let f = (\<lambda>n. n\<lparr>noc_status := NOC_APPROVED, noc_approvedById := actorId, noc_approvedAt := Some now\<rparr>)
     in Inr (f n, upd_noc companyId nocId f d)))"

definition reject_noc :: "id \<Rightarrow> id \<Rightarrow> string \<Rightarrow> date \<Rightarrow> id option \<Rightarrow> db \<Rightarrow> (broker_noc \<times> db) result" where
  "reject_noc companyId nocId reason now actorId d =
     bindE (orFail (NotFound ''NOC not found'') (find_noc companyId nocId d)) (\<lambda>n.
     bindE (ensure (noc_status n = NOC_REQUESTED) (Conflict ''only REQUESTED can be rejected'')) (\<lambda>_.
     let f = (\<lambda>n. n\<lparr>noc_status := NOC_REJECTED, noc_reason := Some reason, noc_approvedById := actorId,
                    noc_approvedAt := Some now\<rparr>)
     in Inr (f n, upd_noc companyId nocId f d)))"

definition auto_noc :: "id \<Rightarrow> id \<Rightarrow> id \<Rightarrow> id \<Rightarrow> date \<Rightarrow> id option \<Rightarrow> broker_noc" where
  "auto_noc new companyId bookingId brokerId now actorId =
     \<lparr>noc_id = new, noc_companyId = companyId, noc_bookingId = bookingId, noc_brokerId = brokerId,
      noc_status = NOC_APPROVED, noc_reason = Some ''broker_inactive_auto_approved'',
      noc_requestedById = actorId, noc_approvedById = actorId, noc_approvedAt = Some now\<rparr>"

definition assertApprovedOrAutoApprove :: "id \<Rightarrow> id \<Rightarrow> id \<Rightarrow> date \<Rightarrow> id option \<Rightarrow> db \<Rightarrow> db result" where
  "assertApprovedOrAutoApprove companyId bookingId brokerId now actorId d =
     (let inactive = (case find_broker companyId brokerId d of None \<Rightarrow> False | Some r \<Rightarrow> \<not> br_isActive r);
          approved = find_approved companyId bookingId d
      in if inactive
         then Inr (if approved = None
                   then add_noc (auto_noc (next_id d) companyId bookingId brokerId now actorId) d else d)
         else bindE (ensure (approved \<noteq> None)
                       (BadRequest ''Cancellation is blocked: no APPROVED NOC exists'')) (\<lambda>_. Inr d))"

section \<open>The cancellation as the controller runs it\<close>

definition cancel_with_broker ::
  "id \<Rightarrow> id \<Rightarrow> cancellation_dto \<Rightarrow> date \<Rightarrow> id option \<Rightarrow> db \<Rightarrow> (cancel_result \<times> db) result" where
  "cancel_with_broker companyId i dto now actorId d =
     (let brokerId = Option.bind (find_booking companyId i d) bk_brokerId in
      bindE (case brokerId of
               None \<Rightarrow> Inr d
             | Some br \<Rightarrow> assertApprovedOrAutoApprove companyId i br now actorId d) (\<lambda>d1.
      bindE (cancel_booking companyId i dto now actorId d1) (\<lambda>(r, d2).
      bindE (case brokerId of
               None \<Rightarrow> Inr d2
             | Some br \<Rightarrow> bindE (handleBookingCancelled companyId (cx_event r) br now actorId d2)
                           (\<lambda>(_, d3). Inr d3)) (\<lambda>d3.
        Inr (r, d3)))))"

section \<open>The certificate workflow\<close>

definition noc_status_of :: "id \<Rightarrow> id \<Rightarrow> db \<Rightarrow> noc_status option" where
  "noc_status_of c i d = map_option noc_status (find_noc c i d)"

definition noc_move :: "id \<Rightarrow> string \<Rightarrow> date \<Rightarrow> id option \<Rightarrow> id \<Rightarrow> noc_status \<Rightarrow> db \<Rightarrow> db result" where
  "noc_move c reason now actor i t d =
     (case t of
        NOC_APPROVED \<Rightarrow> bindE (approve_noc c i now actor d) (\<lambda>(_, d'). Inr d')
      | NOC_REJECTED \<Rightarrow> bindE (reject_noc c i reason now actor d) (\<lambda>(_, d'). Inr d')
      | NOC_REQUESTED \<Rightarrow> Inl (BadRequest ''no such operation''))"

fun noc_edge :: "noc_status \<Rightarrow> noc_status \<Rightarrow> bool" where
  "noc_edge NOC_REQUESTED NOC_APPROVED = True"
| "noc_edge NOC_REQUESTED NOC_REJECTED = True"
| "noc_edge _ _ = False"

lemma find_noc_upd:
  assumes "\<And>r. noc_id (f r) = noc_id r" and "\<And>r. noc_companyId (f r) = noc_companyId r"
  shows "find_noc c k (upd_noc c i f d) = map_option (\<lambda>r. if k = i then f r else r) (find_noc c k d)"
proof -
  have "find_noc c k (upd_noc c i f d) =
      map_option (\<lambda>r. if noc_companyId r = c \<and> noc_id r = i then f r else r) (find_noc c k d)"
    unfolding find_noc_def upd_noc_def using assms by (simp add: find_update_rows)
  then show ?thesis
    by (cases "find_noc c k d") (auto simp: find_noc_def dest!: find_SomeD)
qed

interpretation noc_workflow: status_machine "\<lambda>i. noc_status_of c i" "noc_move c reason now actor" noc_edge
  for c reason now actor
proof unfold_locales
  show "\<exists>f. noc_status_of c i d = Some f \<and> noc_edge f t" if "noc_move c reason now actor i t d = Inr d'" for i t d d'
    using that
    by (cases t) (auto simp: noc_move_def approve_noc_def reject_noc_def noc_status_of_def Let_def)
  show "noc_status_of c i d' = Some t" if "noc_move c reason now actor i t d = Inr d'" for i t d d'
    using that
    by (cases t) (auto simp: noc_move_def approve_noc_def reject_noc_def noc_status_of_def Let_def find_noc_upd)
  show "noc_status_of c k d' = noc_status_of c k d" if "noc_move c reason now actor i t d = Inr d'" "k \<noteq> i" for i t d d' k
    using that
    by (cases t) (auto simp: noc_move_def approve_noc_def reject_noc_def noc_status_of_def Let_def find_noc_upd
        option.map_comp o_def option.map_id0)
qed

text \<open>A decided certificate stays what it was decided.\<close>

lemma noc_decided_final:
  assumes "noc_workflow.moves c reason now actor ms d = Inr d'" and "noc_status_of c i d = Some s" and "s \<noteq> NOC_REQUESTED"
  shows "noc_status_of c i d' = Some s"
proof -
  obtain s' where s': "noc_status_of c i d' = Some s'" and run: "noc_edge\<^sup>*\<^sup>* s s'"
    using noc_workflow.moves_along_edges [OF assms(1,2)] by blast
  have "s' = s" using run assms(3) by (induction rule: converse_rtranclp_induct) (auto elim: noc_edge.elims)
  with s' show ?thesis by simp
qed

section \<open>What a cancellation leaves alone, and the gate\<close>

lemma only_units_commission:
  assumes "only_units d d'"
  shows "commissionLedger d' = commissionLedger d" "nocs d' = nocs d" "brokers d' = brokers d"
    "bookingCommissions d' = bookingCommissions d" "commissionRules d' = commissionRules d"
proof -
  obtain us scs n where "d' = d\<lparr>units := us, statusChanges := scs, next_id := n\<rparr>"
    using assms unfolding only_units_def by blast
  then show "commissionLedger d' = commissionLedger d" "nocs d' = nocs d" "brokers d' = brokers d"
    "bookingCommissions d' = bookingCommissions d" "commissionRules d' = commissionRules d" by simp_all
qed

lemma cancel_booking_commission:
  assumes "cancel_booking c i dto now actor d = Inr (r, d')"
  shows "commissionLedger d' = commissionLedger d" "nocs d' = nocs d" "brokers d' = brokers d"
    "bookingCommissions d' = bookingCommissions d" "commissionRules d' = commissionRules d"
    "masters_of d' = masters_of d"
proof -
  obtain b d3 where rel: "release_unit c b actor d3 = Inr d'"
    and d3: "commissionLedger d3 = commissionLedger d" "nocs d3 = nocs d" "brokers d3 = brokers d"
    "bookingCommissions d3 = bookingCommissions d" "commissionRules d3 = commissionRules d"
    "masters_of d3 = masters_of d"
    using assms
    by (fastforce simp: cancel_booking_def Let_def add_cancellation_def upd_booking_def post_eq)
  have ou: "only_units d3 d'" using release_unit_effect [OF rel] by blast
  show "commissionLedger d' = commissionLedger d" "nocs d' = nocs d" "brokers d' = brokers d"
    "bookingCommissions d' = bookingCommissions d" "commissionRules d' = commissionRules d"
    "masters_of d' = masters_of d"
    using only_units_commission [OF ou] only_units_simps(7) [OF ou] d3 by simp_all
qed

lemma gate_cases:
  assumes "assertApprovedOrAutoApprove c i br now a d = Inr d1"
  shows "(d1 = d \<and> find_approved c i d \<noteq> None \<or>
      (\<exists>r. find_broker c br d = Some r \<and> \<not> br_isActive r) \<and> find_approved c i d = None \<and>
      d1 = add_noc (auto_noc (next_id d) c i br now a) d) \<and> find_approved c i d1 \<noteq> None"
  using assms
  by (auto simp: assertApprovedOrAutoApprove_def Let_def find_approved_def find_append add_noc_def auto_noc_def
      split: option.splits if_splits)

lemma add_noc_frame [simp]:
  "find_booking c i (add_noc r d) = find_booking c i d" "balanceInTx c i (add_noc r d) = balanceInTx c i d"
  "net_received c i (add_noc r d) = net_received c i d" "commissionLedger (add_noc r d) = commissionLedger d"
  "masters_of (add_noc r d) = masters_of d" "units (add_noc r d) = units d"
  "bookingCommissions (add_noc r d) = bookingCommissions d" "commissionRules (add_noc r d) = commissionRules d"
  by (simp_all add: add_noc_def find_booking_def balanceInTx_def net_received_def tds_of_receipt_def)

lemma cancel_with_broker_Inr:
  assumes "cancel_with_broker c i dto now a d = Inr (r, d')" and "find_booking c i d = Some b" and "bk_brokerId b = Some br"
  obtains d1 d2 rows where "assertApprovedOrAutoApprove c i br now a d = Inr d1"
    and "cancel_booking c i dto now a d1 = Inr (r, d2)"
    and "handleBookingCancelled c (cx_event r) br now a d2 = Inr (rows, d')"
    and "ev_bookingId (cx_event r) = i"
proof -
  obtain d1 d2 rows where 1: "assertApprovedOrAutoApprove c i br now a d = Inr d1"
    "cancel_booking c i dto now a d1 = Inr (r, d2)"
    "handleBookingCancelled c (cx_event r) br now a d2 = Inr (rows, d')"
    using assms by (auto simp: cancel_with_broker_def Let_def)
  have "ev_bookingId (cx_event r) = i" using 1(2) by (rule cancel_booking_Inr) simp
  with 1 that show thesis by blast
qed

lemma balance_creates [simp]: "balanceInTx c k (create_commissions c es d) = balanceInTx c k d"
  using only_commission_fields(8) [OF only_commission_creates [of d c es]] by (simp add: balanceInTx_def)

text \<open>
  C38: cancelling a brokered booking, as the controller does it. It succeeds only over an
  approved certificate, which exists beforehand unless the broker is inactive and exists
  afterwards in any case. The customer's balance ends at minus the refundable amount, and
  in the same step the booking's commission at minus what the company's policy recovers.
\<close>

theorem brokered_cancellation:
  assumes "cancel_with_broker c i dto now a d = Inr (r, d')" and "find_booking c i d = Some b"
    and "bk_brokerId b = Some br"
  shows "find_approved c i d' \<noteq> None \<and>
    (find_approved c i d = None \<longrightarrow> (\<exists>k. find_broker c br d = Some k \<and> \<not> br_isActive k)) \<and>
    balanceInTx c i d' = - cn_refundablePaise (cx_cancellation r) \<and>
    outstandingForBooking c i d' = - recovered (netPaid c i d) (clawback_policy c d) \<and>
    map_option bk_status (find_booking c i d') = Some (cancelled_status (xc_cancellationType dto))"
proof -
  obtain d1 d2 rows where gate: "assertApprovedOrAutoApprove c i br now a d = Inr d1"
    and cancel: "cancel_booking c i dto now a d1 = Inr (r, d2)"
    and claw: "handleBookingCancelled c (cx_event r) br now a d2 = Inr (rows, d')"
    and ev: "ev_bookingId (cx_event r) = i"
    using cancel_with_broker_Inr [OF assms] .
  have d': "d' = create_commissions c (clawback_entries c (cx_event r) br now a d2) d2"
    using handleBookingCancelled_eq [of c "cx_event r" br now a d2] claw by auto
  note fields = cancel_booking_commission [OF cancel] only_commission_fields [OF only_commission_creates]
  have gate1: "commissionLedger d1 = commissionLedger d" "masters_of d1 = masters_of d"
    using gate_cases [OF gate] by auto
  have "find_approved c i d' = find_approved c i d1"
    using fields(2,17) by (simp add: find_approved_def d')
  moreover have "netPaid c i d2 = netPaid c i d" "clawback_policy c d2 = clawback_policy c d"
    using fields(1,6) gate1 by (simp_all add: netPaid_def booking_entries_def clawback_policy_def find_config_def)
  moreover have "balanceInTx c i d2 = - cn_refundablePaise (cx_cancellation r)"
    "map_option bk_status (find_booking c i d2) = Some (cancelled_status (xc_cancellationType dto))"
    using cancel_booking_settles [OF cancel, of i] by auto
  moreover have "find_booking c i d' = find_booking c i d2"
    unfolding d' by (rule only_commission_finds(1) [OF only_commission_creates])
  ultimately show ?thesis
    using gate_cases [OF gate] clawback_outstanding [of c i "cx_event r" br now a d2] ev by (auto simp: d')
qed

section \<open>Where the gate and the accrual do not look\<close>

text \<open>
  The gate asks for a certificate of the booking, not of its broker. A certificate the
  first broker gave still opens it after the booking has been assigned to another broker.
\<close>

theorem noc_survives_reassignment:
  assumes "request_noc c i reason a d = Inr (n, d1)"
    and "approve_noc c (noc_id n) now a2 d1 = Inr (n2, d2)"
    and "assignToBooking c i br d2 = Inr (b, d3)"
  shows "bk_brokerId b = Some br \<and> assertApprovedOrAutoApprove c i br now2 a3 d3 = Inr d3"
proof -
  have n: "d1 = add_noc n d" "noc_id n = next_id d" "noc_companyId n = c" "noc_bookingId n = i"
    using assms(1) by (auto simp: request_noc_def Let_def)
  let ?f = "\<lambda>n. n\<lparr>noc_status := NOC_APPROVED, noc_approvedById := a2, noc_approvedAt := Some now\<rparr>"
  have d2: "d2 = upd_noc c (noc_id n) ?f d1" using assms(2) by (auto simp: approve_noc_def Let_def)
  have "?f n \<in> set (nocs d2)"
    using n by (auto simp: d2 upd_noc_def add_noc_def set_update_rows)
  moreover have "nocs d3 = nocs d2" and b: "bk_brokerId b = Some br"
    using assms(3) by (auto simp: assignToBooking_def Let_def upd_booking_def)
  ultimately have "find_approved c i d3 \<noteq> None"
    using n unfolding find_approved_def find_eq_None_iff by (auto intro!: bexI [of _ "?f n"])
  with b show ?thesis
    by (auto simp: assertApprovedOrAutoApprove_def Let_def)
qed

text \<open>
  Accruing commission does not look at the booking's status. A booking whose
  commission was not accrued before it was cancelled can accrue it afterwards, in full and
  past the clawback, which has already run.
\<close>

theorem accrual_after_cancellation:
  assumes "cancel_with_broker c i dto now a d = Inr (r, d')" and "find_booking c i d = Some b"
    and "bk_brokerId b = Some br" and "booking_entries c i d = []" and "accrual_trigger c d = ON_BOOKING"
    and "accrueCommission c i now2 a2 d' = (Inr es, d2)" and "find_snapshot c i d2 = Some s"
  shows "map_option bk_status (find_booking c i d2) = Some (cancelled_status (xc_cancellationType dto)) \<and>
    outstandingForBooking c i d' = 0 \<and> outstandingForBooking c i d2 = bbc_totalCommissionPaise s \<and>
    commissionBalance c br d2 = commissionBalance c br d' + bbc_totalCommissionPaise s"
proof -
  obtain d1 d3 rows where gate: "assertApprovedOrAutoApprove c i br now a d = Inr d1"
    and cancel: "cancel_booking c i dto now a d1 = Inr (r, d3)"
    and claw: "handleBookingCancelled c (cx_event r) br now a d3 = Inr (rows, d')"
    and ev: "ev_bookingId (cx_event r) = i"
    using cancel_with_broker_Inr [OF assms(1-3)] .
  have fields: "commissionLedger d3 = commissionLedger d" "masters_of d3 = masters_of d"
    using cancel_booking_commission [OF cancel] gate_cases [OF gate] by auto
  then have none: "booking_entries c i d3 = []" "accrual_trigger c d3 = ON_BOOKING"
    using assms(4,5) by (auto simp: booking_entries_def accrual_trigger_def find_config_def)
  then have "clawback_entries c (cx_event r) br now a d3 = []"
    by (simp add: clawback_entries_def ev clawback_steps_def outstandingForBooking_def netPaid_def)
  then have d': "d' = d3"
    using handleBookingCancelled_eq [of c "cx_event r" br now a d3] claw by auto
  obtain b3 where b3: "find_booking c i d3 = Some b3" "bk_brokerId b3 = Some br"
    "bk_status b3 = cancelled_status (xc_cancellationType dto)"
  proof -
    from cancel obtain b0 d4 where b0: "find_booking c i d1 = Some b0"
      and bks: "bookings d4 = bookings (upd_booking c i (\<lambda>b. b\<lparr>bk_status := cancelled_status (xc_cancellationType dto),
           bk_cancelledAt := Some now\<rparr>) d1)" and rel: "release_unit c b0 a d4 = Inr d3"
      by (rule cancel_booking_Inr) blast
    have "bookings d3 = bookings d4" using release_unit_effect [OF rel] only_units_simps(2) by blast
    then have "find_booking c i d3 = find_booking c i (upd_booking c i
        (\<lambda>b. b\<lparr>bk_status := cancelled_status (xc_cancellationType dto), bk_cancelledAt := Some now\<rparr>) d1)"
      using bks by (simp add: find_booking_def)
    moreover have "find_booking c i d1 = Some b" using gate_cases [OF gate] assms(2) by auto
    ultimately show thesis using that assms(3) by (simp add: find_booking_upd)
  qed
  have nof: "find_accrual c i None d3 = None"
    using none(1) by (auto simp: find_accrual_def booking_entries_def filter_empty_conv find_eq_None_iff)
  from accrueCommission_on_booking [OF b3(1,2) none(2) assms(6) [unfolded d'] nof] assms(7) b3
  show ?thesis using none(1) by (auto simp: d' outstandingForBooking_def)
qed

section \<open>Concrete cancellations\<close>

definition demo_certified :: db where
  "demo_certified = (demo_collected 0)
     \<lparr>nocs := [(auto_noc 80 1 40 30 demo_day None)\<lparr>noc_reason := None\<rparr>]\<rparr>"

lemma demo_certified_facts:
  "\<not> isl (cancel_with_broker 1 40 demo_cancel_dto demo_day None demo_certified)"
  "map_option bk_brokerId (find_booking 1 40 demo_certified) = Some (Some 30)"
  "recovered (netPaid 1 40 demo_certified) (clawback_policy 1 demo_certified) = 0"
  "booking_entries 1 40 demo_certified = []" "accrual_trigger 1 demo_certified = ON_BOOKING"
  by code_simp+

theorem brokered_cancellation_witness:
  "\<exists>r d'. cancel_with_broker 1 40 demo_cancel_dto demo_day None demo_certified = Inr (r, d') \<and>
     outstandingForBooking 1 40 d' = 0"
proof -
  obtain r d' where r: "cancel_with_broker 1 40 demo_cancel_dto demo_day None demo_certified = Inr (r, d')"
    using not_isl_Inr [OF demo_certified_facts(1)] by auto
  obtain b where b: "find_booking 1 40 demo_certified = Some b" "bk_brokerId b = Some 30"
    using demo_certified_facts(2) by auto
  from brokered_cancellation [OF r b] r demo_certified_facts(3) show ?thesis by auto
qed

lemma demo_late_accrual:
  "\<not> isl (bindE (cancel_with_broker 1 40 demo_cancel_dto demo_day None demo_certified)
     (\<lambda>(r, d1). fst (accrueCommission 1 40 demo_day None d1)))"
  "(case cancel_with_broker 1 40 demo_cancel_dto demo_day None demo_certified of
      Inl _ \<Rightarrow> None
    | Inr (r, d1) \<Rightarrow> map_option bbc_totalCommissionPaise
        (find_snapshot 1 40 (snd (accrueCommission 1 40 demo_day None d1)))) = Some 2218"
  by code_simp+

theorem accrual_after_cancellation_witness:
  "\<exists>r d' es d2. cancel_with_broker 1 40 demo_cancel_dto demo_day None demo_certified = Inr (r, d') \<and>
     accrueCommission 1 40 demo_day None d' = (Inr es, d2) \<and> outstandingForBooking 1 40 d2 = 2218"
proof -
  obtain r d' where r: "cancel_with_broker 1 40 demo_cancel_dto demo_day None demo_certified = Inr (r, d')"
    using not_isl_Inr [OF demo_certified_facts(1)] by auto
  obtain es d2 where a: "accrueCommission 1 40 demo_day None d' = (Inr es, d2)"
    using not_isl_Inr [OF demo_late_accrual(1)] r by (cases "accrueCommission 1 40 demo_day None d'") auto
  obtain b where b: "find_booking 1 40 demo_certified = Some b" "bk_brokerId b = Some 30"
    using demo_certified_facts(2) by auto
  obtain s where s: "find_snapshot 1 40 d2 = Some s" "bbc_totalCommissionPaise s = 2218"
    using demo_late_accrual(2) r a by auto
  from accrual_after_cancellation [OF r b demo_certified_facts(4,5) a s(1)] r a s(2)
  show ?thesis by auto
qed

lemma demo_reassign:
  "\<not> isl (bindE (request_noc 1 40 None None (demo_collected 0)) (\<lambda>(n, d1).
     bindE (approve_noc 1 (noc_id n) demo_day None d1) (\<lambda>(n2, d2). assignToBooking 1 40 32 d2)))"
  by code_simp

theorem noc_survives_reassignment_witness:
  "\<exists>n d1 n2 d2 b d3. request_noc 1 40 None None (demo_collected 0) = Inr (n, d1) \<and>
     approve_noc 1 (noc_id n) demo_day None d1 = Inr (n2, d2) \<and> assignToBooking 1 40 32 d2 = Inr (b, d3) \<and>
     assertApprovedOrAutoApprove 1 40 32 demo_day None d3 = Inr d3"
proof -
  obtain n d1 n2 d2 b d3 where r: "request_noc 1 40 None None (demo_collected 0) = Inr (n, d1)"
    "approve_noc 1 (noc_id n) demo_day None d1 = Inr (n2, d2)" "assignToBooking 1 40 32 d2 = Inr (b, d3)"
    using not_isl_Inr [OF demo_reassign] by (auto simp: bindE_eq_Inr)
  from noc_survives_reassignment [OF r] r show ?thesis by blast
qed

end
