(* ===== verification/Frames.thy ===== *)
theory Frames
  imports Aadhaar Area ExtraCharge Refund Noc
begin

declare post.simps [simp del]

text \<open>
  What an operation leaves alone, as a contract. A frame is a relation between a database
  and a later one, per company, that the primitive row operations of that company respect.
  Every service operation that is composed of such primitives respects it too, which is
  proved here once for any frame; the operations fall into three groups, by the primitives
  they need.
\<close>

section \<open>The contracts\<close>

named_theorems frame_intros and frame_ops

text \<open>The primitives that write one row of a table other than bookings and units.\<close>

named_theorems row_defs

lemmas plain_rows [row_defs] =
  add_stage_raise_def add_co_applicant_def add_cost_line_def add_plan_def add_receipt_def
  add_allocation_def add_cheque_event_def add_sequence_def add_tds_deduction_def
  add_tds_certificate_def add_transfer_def add_cancellation_def add_refund_def add_voucher_def
  add_extra_charge_def add_interest_accrual_def add_broker_def add_bank_detail_def
  add_commission_rule_def add_commission_slab_def add_booking_commission_def
  add_commission_payment_def add_noc_def upd_plan_def upd_installment_def upd_receipt_def
  upd_refund_def upd_voucher_def upd_broker_def upd_commission_rule_def upd_commission_payment_def
  upd_noc_def updm_installment_def updm_bank_detail_def delm_commission_slab_def
  add_commission_ledger_def add_installment_def

definition same_cache :: "installment \<Rightarrow> installment \<Rightarrow> bool" where
  "same_cache r r' \<longleftrightarrow> in_companyId r = in_companyId r' \<and> in_id r = in_id r' \<and>
     in_allocatedPaise r = in_allocatedPaise r'"

text \<open>
  Of the entries the services post, interest, allocations and reversals name an installment;
  the last two move its money.
\<close>

definition moves_no_money :: "ledger_input \<Rightarrow> bool" where
  "moves_no_money e \<longleftrightarrow> li_installmentId e = None \<or> li_entryType e = INTEREST"

lemma entries_unallocated [simp]:
  "moves_no_money (tds_entry dto rid a)"
  "moves_no_money (interest_entry b rule t i x)"
  "moves_no_money (certificate_entry ded cert a)"
  "moves_no_money (extra_charge_entry b xd x now a)"
  "moves_no_money (waiver_entry b w now a)"
  "moves_no_money (approval_entry rf now a)"
  "moves_no_money (carry_out_entry bk x now a)"
  "moves_no_money (carry_in_entry bk x now a)"
  "e \<in> set (bounce_entries v x now a) \<Longrightarrow> moves_no_money e"
  "e \<in> set (fee_entries b x now a) \<Longrightarrow> moves_no_money e"
  "e \<in> set (cancellation_entries b ty x y now a) \<Longrightarrow> moves_no_money e"
  "e \<in> set (charge_entries b t a ls) \<Longrightarrow> moves_no_money e"
  by (auto simp: moves_no_money_def tds_entry_def interest_entry_def certificate_entry_def extra_charge_entry_def waiver_entry_def
      approval_entry_def carry_out_entry_def carry_in_entry_def bounce_entries_def fee_entries_def
      cancellation_entries_def charge_entries_def split: if_splits)

definition same_number :: "receipt \<Rightarrow> receipt \<Rightarrow> bool" where
  "same_number r r' \<longleftrightarrow> rc_companyId r = rc_companyId r' \<and> rc_fyLabel r = rc_fyLabel r' \<and>
     rc_seqValue r = rc_seqValue r' \<and> rc_receiptNumber r = rc_receiptNumber r'"

locale frame =
  fixes rel :: "id \<Rightarrow> db \<Rightarrow> db \<Rightarrow> bool"
  assumes rel_refl: "rel c d d"
    and rel_trans: "\<And>f. rel c d e \<Longrightarrow> rel c e f \<Longrightarrow> rel c d f"
    and rel_add_stage_raise: "\<And>r. rel c d e \<Longrightarrow> sr_companyId r = c \<Longrightarrow> rel c d (add_stage_raise r e)"
    and rel_add_co_applicant: "\<And>r. rel c d e \<Longrightarrow> bca_companyId r = c \<Longrightarrow> rel c d (add_co_applicant r e)"
    and rel_add_cost_line: "\<And>r. rel c d e \<Longrightarrow> bcl_companyId r = c \<Longrightarrow> rel c d (add_cost_line r e)"
    and rel_add_plan: "\<And>r. rel c d e \<Longrightarrow> pp_companyId r = c \<Longrightarrow> rel c d (add_plan r e)"
    and rel_add_allocation: "\<And>r. rel c d e \<Longrightarrow> ra_companyId r = c \<Longrightarrow> rel c d (add_allocation r e)"
    and rel_add_cheque_event: "\<And>r. rel c d e \<Longrightarrow> ce_companyId r = c \<Longrightarrow> rel c d (add_cheque_event r e)"
    and rel_add_tds_deduction: "\<And>r. rel c d e \<Longrightarrow> td_companyId r = c \<Longrightarrow> rel c d (add_tds_deduction r e)"
    and rel_add_tds_certificate: "\<And>r. rel c d e \<Longrightarrow> tc_companyId r = c \<Longrightarrow> rel c d (add_tds_certificate r e)"
    and rel_add_transfer: "\<And>r. rel c d e \<Longrightarrow> tx_companyId r = c \<Longrightarrow> rel c d (add_transfer r e)"
    and rel_add_cancellation: "\<And>r. rel c d e \<Longrightarrow> cn_companyId r = c \<Longrightarrow> rel c d (add_cancellation r e)"
    and rel_add_refund: "\<And>r. rel c d e \<Longrightarrow> rf_companyId r = c \<Longrightarrow> rel c d (add_refund r e)"
    and rel_add_voucher: "\<And>r. rel c d e \<Longrightarrow> pv_companyId r = c \<Longrightarrow> rel c d (add_voucher r e)"
    and rel_add_extra_charge: "\<And>r. rel c d e \<Longrightarrow> ec_companyId r = c \<Longrightarrow> rel c d (add_extra_charge r e)"
    and rel_add_interest_accrual: "\<And>r. rel c d e \<Longrightarrow> ia_companyId r = c \<Longrightarrow> rel c d (add_interest_accrual r e)"
    and rel_add_broker: "\<And>r. rel c d e \<Longrightarrow> br_companyId r = c \<Longrightarrow> rel c d (add_broker r e)"
    and rel_add_bank_detail: "\<And>r. rel c d e \<Longrightarrow> bbd_companyId r = c \<Longrightarrow> rel c d (add_bank_detail r e)"
    and rel_add_commission_rule: "\<And>r. rel c d e \<Longrightarrow> bcr_companyId r = c \<Longrightarrow> rel c d (add_commission_rule r e)"
    and rel_add_commission_slab: "\<And>r. rel c d e \<Longrightarrow> bcs_companyId r = c \<Longrightarrow> rel c d (add_commission_slab r e)"
    and rel_add_booking_commission: "\<And>r. rel c d e \<Longrightarrow> bbc_companyId r = c \<Longrightarrow> rel c d (add_booking_commission r e)"
    and rel_add_commission_payment: "\<And>r. rel c d e \<Longrightarrow> cp_companyId r = c \<Longrightarrow> rel c d (add_commission_payment r e)"
    and rel_add_noc: "\<And>r. rel c d e \<Longrightarrow> noc_companyId r = c \<Longrightarrow> rel c d (add_noc r e)"
    and rel_upd_plan: "\<And>f. rel c d e \<Longrightarrow> (\<And>r. pp_companyId (f r) = pp_companyId r) \<Longrightarrow> rel c d (upd_plan c i f e)"
    and rel_upd_installment: "\<And>f. rel c d e \<Longrightarrow> (\<And>r. same_cache (f r) r) \<Longrightarrow> rel c d (upd_installment c i f e)"
    and rel_upd_receipt: "\<And>f. rel c d e \<Longrightarrow> (\<And>r. same_number (f r) r) \<Longrightarrow> rel c d (upd_receipt c i f e)"
    and rel_upd_refund: "\<And>f. rel c d e \<Longrightarrow> (\<And>r. rf_companyId (f r) = rf_companyId r) \<Longrightarrow> rel c d (upd_refund c i f e)"
    and rel_upd_voucher: "\<And>f. rel c d e \<Longrightarrow> (\<And>r. pv_companyId (f r) = pv_companyId r) \<Longrightarrow> rel c d (upd_voucher c i f e)"
    and rel_upd_broker: "\<And>f. rel c d e \<Longrightarrow> (\<And>r. br_companyId (f r) = br_companyId r) \<Longrightarrow> rel c d (upd_broker c i f e)"
    and rel_upd_commission_rule: "\<And>f. rel c d e \<Longrightarrow> (\<And>r. bcr_companyId (f r) = bcr_companyId r) \<Longrightarrow> rel c d (upd_commission_rule c i f e)"
    and rel_upd_commission_payment: "\<And>f. rel c d e \<Longrightarrow> (\<And>r. cp_companyId (f r) = cp_companyId r) \<Longrightarrow> rel c d (upd_commission_payment c i f e)"
    and rel_upd_noc: "\<And>f. rel c d e \<Longrightarrow> (\<And>r. noc_companyId (f r) = noc_companyId r) \<Longrightarrow> rel c d (upd_noc c i f e)"
    and rel_updm_installment: "\<And>f p. rel c d e \<Longrightarrow> (\<And>r. same_cache (f r) r) \<Longrightarrow> rel c d (updm_installment c p f e)"
    and rel_updm_bank_detail: "\<And>f p. rel c d e \<Longrightarrow> (\<And>r. bbd_companyId (f r) = bbd_companyId r) \<Longrightarrow> rel c d (updm_bank_detail c p f e)"
    and rel_delm_commission_slab: "\<And>p. rel c d e \<Longrightarrow> rel c d (delm_commission_slab c p e)"
    and rel_post: "rel c d e \<Longrightarrow> (\<And>x. x \<in> set es \<Longrightarrow> moves_no_money x) \<Longrightarrow> rel c d (snd (post c es e))"
    and rel_allocate: "rel c d e \<Longrightarrow> k \<noteq> ''RECEIPT'' \<Longrightarrow> rel c d (snd (allocate_number c k s e))"
    and rel_add_commission_ledger: "\<And>r. rel c d e \<Longrightarrow> cle_companyId r = c \<Longrightarrow> rel c d (add_commission_ledger r e)"

text \<open>A frame that does not look at the installments' money.\<close>

locale cash_frame = frame +
  assumes rel_add_installment: "\<And>r. rel c d e \<Longrightarrow> in_companyId r = c \<Longrightarrow> rel c d (add_installment r e)"
    and rel_delm_installment: "\<And>p. rel c d e \<Longrightarrow> delm_installment c p e = Inr e' \<Longrightarrow> rel c d e'"
    and rel_set_installment: "\<And>f. rel c d e \<Longrightarrow> (\<And>r. in_companyId (f r) = in_companyId r) \<Longrightarrow> rel c d (upd_installment c i f e)"
    and rel_post_any: "rel c d e \<Longrightarrow> rel c d (snd (post c es e))"

text \<open>A frame that does not look at the receipts' numbers either.\<close>

locale receipt_frame = cash_frame +
  assumes rel_add_receipt: "\<And>r. rel c d e \<Longrightarrow> rc_companyId r = c \<Longrightarrow> rel c d (add_receipt r e)"
    and rel_allocate_any: "rel c d e \<Longrightarrow> rel c d (snd (allocate_number c k s e))"

text \<open>A frame that does not look at the bookings and the units.\<close>

locale sale_frame = frame +
  assumes rel_add_booking: "\<And>r. rel c d e \<Longrightarrow> bk_companyId r = c \<Longrightarrow> rel c d (add_booking r e)"
    and rel_upd_booking: "\<And>f. rel c d e \<Longrightarrow> (\<And>r. bk_companyId (f r) = bk_companyId r) \<Longrightarrow> rel c d (upd_booking c i f e)"
    and rel_transition: "\<And>r x. rel c d e \<Longrightarrow> transition c u t ac ai r e = Inr (x, e') \<Longrightarrow> rel c d e'"

section \<open>The operations that sell nothing\<close>

context frame
begin

declare rel_refl [simp, intro]

lemmas rel_rows [frame_intros] =
  rel_add_stage_raise rel_add_co_applicant rel_add_cost_line rel_add_plan rel_add_allocation rel_add_cheque_event rel_add_tds_deduction rel_add_tds_certificate rel_add_transfer rel_add_cancellation rel_add_refund rel_add_voucher rel_add_extra_charge rel_add_interest_accrual rel_add_broker rel_add_bank_detail rel_add_commission_rule rel_add_commission_slab rel_add_booking_commission rel_add_commission_payment rel_add_noc rel_upd_plan rel_upd_installment rel_upd_receipt rel_upd_refund rel_upd_voucher rel_upd_broker rel_upd_commission_rule rel_upd_commission_payment rel_upd_noc rel_updm_installment rel_updm_bank_detail rel_delm_commission_slab
  rel_post rel_allocate rel_add_commission_ledger

lemma rel_create_commission [frame_intros]: "rel c d e \<Longrightarrow> rel c d (snd (create_commission c x e))"
  by (auto simp: create_commission_def Let_def intro!: frame_intros)

lemma rel_create_commissions [frame_intros]:
  "rel c d e \<Longrightarrow> rel c d (create_commissions c es e)"
  by (induction es arbitrary: e) (auto intro: frame_intros simp del: commissionLedger_create)

lemma rel_foldl:
  "rel c d e \<Longrightarrow> (\<And>e x. rel c d e \<Longrightarrow> rel c d (f e x)) \<Longrightarrow> rel c d (foldl f e xs)"
  by (induction xs arbitrary: e) auto

lemma rel_post_tds [frame_intros]: "rel c d e \<Longrightarrow> rel c d (post_tds c dto r a e)"
  by (auto simp: post_tds_def Let_def split_beta intro!: frame_intros)

lemma rel_recordTdsCertificate [frame_ops]: "recordTdsCertificate c i dto a d = Inr (r, d') \<Longrightarrow> rel c d d'"
  by (auto simp: recordTdsCertificate_def Let_def split_beta intro!: frame_intros)

lemma rel_markReprint [frame_ops]: "markReprint c i d = Inr (r, d') \<Longrightarrow> rel c d d'"
  by (auto simp: markReprint_def Let_def same_number_def intro!: frame_intros)

lemma rel_post_accrual [frame_intros]: "rel c d e \<Longrightarrow> rel c d (post_accrual c b rule t i acc e)"
  by (auto simp: post_accrual_def Let_def split_beta intro!: frame_intros)

lemma rel_accrue_installment:
  "accrue_installment c b rule t i (p, n, e) = Inr (p', n', e') \<Longrightarrow> rel c d e \<Longrightarrow> rel c d e'"
  by (auto simp: accrue_installment_def intro!: frame_intros split: option.splits)

lemma rel_accrue_all:
  "foldE (accrue_installment c b rule t) is (p, n, e) = Inr (p', n', e') \<Longrightarrow> rel c d e \<Longrightarrow> rel c d e'"
proof (induction "is" arbitrary: p n e)
  case (Cons i "is")
  then obtain p1 n1 e1 where "accrue_installment c b rule t i (p, n, e) = Inr (p1, n1, e1)"
    "foldE (accrue_installment c b rule t) is (p1, n1, e1) = Inr (p', n', e')"
    by (auto simp: bindE_eq_Inr)
  with Cons rel_accrue_installment show ?case by blast
qed simp

lemma rel_accrueForBooking [frame_ops]: "accrueForBooking c i t d = Inr (r, d') \<Longrightarrow> rel c d d'"
  by (auto simp: accrueForBooking_def accrueInTx_def split: option.splits dest: rel_accrue_all [OF _ rel_refl])

lemma rel_waiveInterest [frame_ops]: "waiveInterest c i dto now a d = Inr (r, d') \<Longrightarrow> rel c d d'"
  using rel_post [OF rel_refl, of "[waiver_entry i dto now a]" c d] by (auto simp: waiveInterest_def)

lemma rel_addExtraCharge [frame_ops]: "addExtraCharge c i dto now a d = Inr (r, d') \<Longrightarrow> rel c d d'"
  by (auto simp: addExtraCharge_Inr extra_charge_row_def intro!: frame_intros)

lemma rel_request_refund [frame_ops]: "request_refund c i dto a d = Inr (r, d') \<Longrightarrow> rel c d d'"
  by (auto simp: request_refund_def Let_def intro!: frame_intros)

lemma rel_approve_refund [frame_ops]: "approve_refund c i now a d = Inr (r, d') \<Longrightarrow> rel c d d'"
  by (auto simp: approve_refund_def Let_def intro!: frame_intros)

lemma rel_pay_refund [frame_ops]: "pay_refund c i dto a d = Inr (r, d') \<Longrightarrow> rel c d d'"
  by (auto simp: pay_refund_def Let_def refund_voucher_def intro!: frame_intros)

lemma rel_voucherBounced [frame_ops]: "voucherBounced c i now a d = Inr (r, d') \<Longrightarrow> rel c d d'"
  by (auto simp: voucherBounced_def Let_def intro!: frame_intros split: option.splits)

lemma rel_foldE:
  assumes "\<And>x e e'. f x e = Inr e' \<Longrightarrow> rel c d e \<Longrightarrow> rel c d e'"
  shows "foldE f xs e = Inr e' \<Longrightarrow> rel c d e \<Longrightarrow> rel c d e'"
  by (induction xs arbitrary: e) (auto simp: bindE_eq_Inr dest: assms)

lemma rel_raiseStage [frame_ops]: "raiseStage c p dto a d = Inr (r, d') \<Longrightarrow> rel c d d'"
  by (auto simp: raiseStage_def Let_def split_beta same_cache_def intro!: frame_intros split: option.splits)

lemma rel_create_broker [frame_ops]: "create_broker enc c dto d = Inr (r, d') \<Longrightarrow> rel c d d'"
  by (auto simp: create_broker_def Let_def intro!: frame_intros split: if_splits)

lemma rel_update_broker [frame_ops]: "update_broker enc c i dto d = Inr (r, d') \<Longrightarrow> rel c d d'"
  by (auto simp: update_broker_def Let_def updated_broker_def intro!: frame_intros split: if_splits)

lemma rel_set_broker_active [frame_ops]: "set_broker_active c i act st d = Inr (r, d') \<Longrightarrow> rel c d d'"
  by (auto simp: set_broker_active_def Let_def intro!: frame_intros)

lemma rel_addBankDetail [frame_ops]: "addBankDetail c b dto d = Inr (r, d') \<Longrightarrow> rel c d d'"
  by (auto simp: addBankDetail_def Let_def intro!: frame_intros split: if_splits)

lemma rel_create_slabs:
  "create_slabs c i ss e = Inr e' \<Longrightarrow> rel c d e \<Longrightarrow> rel c d e'"
  by (auto simp: create_slabs_def intro!: rel_foldl frame_intros split: if_splits)

lemma rel_create_rule [frame_ops]: "create_rule c dto d = Inr (r, d') \<Longrightarrow> rel c d d'"
  by (auto simp: create_rule_def Let_def new_rule_def intro!: frame_intros split: option.splits if_splits
      elim!: rel_create_slabs)

lemma rel_update_rule [frame_ops]: "update_rule c i dto d = Inr (r, d') \<Longrightarrow> rel c d d'"
  by (auto simp: update_rule_def Let_def updated_rule_def intro!: frame_intros split: option.splits if_splits
      elim!: rel_create_slabs)

lemma rel_deactivate_rule [frame_ops]: "deactivate_rule c i d = Inr (r, d') \<Longrightarrow> rel c d d'"
  by (auto simp: deactivate_rule_def Let_def intro!: frame_intros)

lemma rel_accrue_once:
  "accrue_once c br b m x now a e = (r, e') \<Longrightarrow> rel c d e \<Longrightarrow> rel c d e'"
  using rel_create_commission [of c d e] by (auto simp: accrue_once_def split: option.splits) (metis snd_conv)

lemma rel_accrue_milestones:
  "accrue_milestones c br b col now a xs e = (es, e') \<Longrightarrow> rel c d e \<Longrightarrow> rel c d e'"
  by (induction xs arbitrary: e es) (auto split: prod.splits if_splits, meson rel_accrue_once)

lemma rel_accrueOnMilestones:
  "accrueOnMilestones c b br s now a e = (r, e') \<Longrightarrow> rel c d e \<Longrightarrow> rel c d e'"
  by (auto simp: accrueOnMilestones_def Let_def split: if_splits sum.splits prod.splits elim: rel_accrue_milestones)

lemma rel_ensureSnapshot: "ensureSnapshot c b br d = Inr (s, d') \<Longrightarrow> rel c d d'"
  by (auto simp: ensureSnapshot_def Let_def intro!: frame_intros split: option.splits if_splits)

lemma rel_accrueCommission [frame_ops]: "accrueCommission c i now a d = (r, d') \<Longrightarrow> rel c d d'"
  by (auto simp: accrueCommission_def accrueOnBooking_def split: option.splits sum.splits if_splits prod.splits
      dest!: rel_ensureSnapshot elim: rel_accrue_once rel_accrueOnMilestones)

lemma rel_request_payment [frame_ops]: "request_payment c dto a d = Inr (r, d') \<Longrightarrow> rel c d d'"
  by (auto simp: request_payment_def Let_def intro!: frame_intros)

lemma rel_decide_payment: "decide_payment st m c i now a d = Inr (r, d') \<Longrightarrow> rel c d d'"
  by (auto simp: decide_payment_def Let_def intro!: frame_intros)

lemma rel_approve_payment [frame_ops]: "approve_payment c i now a d = Inr (r, d') \<Longrightarrow> rel c d d'"
  unfolding approve_payment_def by (rule rel_decide_payment)

lemma rel_reject_payment [frame_ops]: "reject_payment c i now a d = Inr (r, d') \<Longrightarrow> rel c d d'"
  unfolding reject_payment_def by (rule rel_decide_payment)

lemma rel_pay_payment [frame_ops]: "pay_payment c i dto a d = Inr (r, d') \<Longrightarrow> rel c d d'"
  by (auto simp: pay_payment_Inr intro!: frame_intros)

lemma rel_request_noc [frame_ops]: "request_noc c i rs a d = Inr (r, d') \<Longrightarrow> rel c d d'"
  by (auto simp: request_noc_def Let_def intro!: frame_intros)

lemma rel_approve_noc [frame_ops]: "approve_noc c i now a d = Inr (r, d') \<Longrightarrow> rel c d d'"
  by (auto simp: approve_noc_def Let_def intro!: frame_intros)

lemma rel_reject_noc [frame_ops]: "reject_noc c i rs now a d = Inr (r, d') \<Longrightarrow> rel c d d'"
  by (auto simp: reject_noc_def Let_def intro!: frame_intros)

lemma rel_gate: "assertApprovedOrAutoApprove c i br now a d = Inr d' \<Longrightarrow> rel c d d'"
  by (auto simp: assertApprovedOrAutoApprove_def Let_def auto_noc_def intro!: frame_intros split: if_splits)

lemma rel_handleBookingCancelled:
  "handleBookingCancelled c ev br now a e = Inr (r, e') \<Longrightarrow> rel c d e \<Longrightarrow> rel c d e'"
  using handleBookingCancelled_eq [of c ev br now a e] by (auto intro!: frame_intros)

text \<open>The operations any frame allows.\<close>

lemmas rel_plain_ops =
  rel_recordTdsCertificate rel_markReprint rel_accrueForBooking rel_waiveInterest rel_addExtraCharge
  rel_request_refund rel_approve_refund rel_pay_refund rel_voucherBounced rel_raiseStage
  rel_create_broker rel_update_broker rel_set_broker_active rel_addBankDetail rel_create_rule
  rel_update_rule rel_deactivate_rule rel_accrueCommission rel_request_payment rel_approve_payment
  rel_reject_payment rel_pay_payment rel_request_noc rel_approve_noc rel_reject_noc

end

section \<open>The operations that move money between installments\<close>

context cash_frame
begin

lemmas rel_cash [frame_intros] = rel_add_installment rel_set_installment rel_post_any

lemma rel_bumpInstallment [frame_intros]: "rel c d e \<Longrightarrow> rel c d (bumpInstallment c i x e)"
  by (auto simp: bumpInstallment_def Let_def intro!: frame_intros split: option.splits)

lemma rel_bump_all [frame_intros]: "rel c d e \<Longrightarrow> rel c d (bump_all c xs e)"
  unfolding bump_all_def by (rule rel_foldl) (auto intro: frame_intros)

lemma rel_post_allocations [frame_intros]: "rel c d e \<Longrightarrow> rel c d (post_allocations c b r t a xs e)"
  unfolding post_allocations_def post_allocation_def by (rule rel_foldl) (auto intro!: frame_intros)

lemma rel_reverse_entry [frame_intros]: "rel c d e \<Longrightarrow> rel c d (reverse_entry c r ty rs a t x e)"
  by (auto simp: reverse_entry_def Let_def intro!: frame_intros split: bool.splits option.splits)

lemma rel_reverseReceiptLedger [frame_intros]:
  "rel c d e \<Longrightarrow> rel c d (reverseReceiptLedger c r ty rs a t x e)"
  unfolding reverseReceiptLedger_def Let_def
  by (auto intro!: frame_intros rel_foldl)

lemma rel_recordChequeEvent [frame_ops]: "recordChequeEvent c i dto a d = Inr (r, d') \<Longrightarrow> rel c d d'"
  by (auto simp: recordChequeEvent_def Let_def same_number_def intro!: frame_intros)

lemma rel_reverseReceipt [frame_ops]: "reverseReceipt c i rs a d = Inr (r, d') \<Longrightarrow> rel c d d'"
  by (auto simp: reverseReceipt_def Let_def same_number_def intro!: frame_intros)

lemma rel_create_template_installments [frame_intros]:
  "rel c d e \<Longrightarrow> rel c d (create_template_installments c b p t pl ms e)"
  by (induction c b p t pl ms e rule: create_template_installments.induct)
    (simp_all add: template_installment_def Let_def rel_add_installment)

lemma rel_create_custom_installments [frame_intros]:
  "rel c d e \<Longrightarrow> rel c d (create_custom_installments c b pl s ins e)"
  by (induction c b pl s ins e rule: create_custom_installments.induct)
    (simp_all add: custom_installment_def rel_add_installment)

lemma rel_deactivate_plan:
  "deactivate_plan c is p e = Inr e' \<Longrightarrow> rel c d e \<Longrightarrow> rel c d e'"
  by (auto simp: deactivate_plan_def Let_def intro!: frame_intros split: if_splits elim: rel_delm_installment)

lemma rel_deactivateExistingPlans:
  "deactivateExistingPlans c b e = Inr e' \<Longrightarrow> rel c d e \<Longrightarrow> rel c d e'"
  unfolding deactivateExistingPlans_def by (rule rel_foldE) (auto elim: rel_deactivate_plan)

lemma rel_instantiateFromTemplate [frame_ops]:
  "instantiateFromTemplate c b t a d = Inr (r, d') \<Longrightarrow> rel c d d'"
  by (auto simp: instantiateFromTemplate_def Let_def new_plan_def
      intro!: frame_intros elim: rel_deactivateExistingPlans)

lemma rel_createCustomPlan [frame_ops]: "createCustomPlan c b dto a d = Inr (r, d') \<Longrightarrow> rel c d d'"
  by (auto simp: createCustomPlan_def Let_def new_plan_def
      intro!: frame_intros elim: rel_deactivateExistingPlans)

lemma rel_editPlan [frame_ops]: "editPlan c b ins d = Inr (r, d') \<Longrightarrow> rel c d d'"
  by (auto simp: editPlan_def Let_def intro!: frame_intros dest: rel_delm_installment [OF rel_refl])

text \<open>The operations any such frame allows.\<close>

lemmas rel_money_ops =
  rel_recordChequeEvent rel_reverseReceipt rel_instantiateFromTemplate rel_createCustomPlan rel_editPlan

end

context receipt_frame
begin

lemmas rel_numbers [frame_intros] = rel_add_receipt rel_allocate_any

lemma rel_createReceipt [frame_ops]:
  assumes "createReceipt c dto a d = Inr (r, d')"
  shows "rel c d d'"
  using assms
  by (auto simp: createReceipt_def write_receipt_def allocateForFy_def Let_def split_beta new_receipt_def
      intro!: frame_intros)

end

section \<open>The sales\<close>

context frame
begin

lemma rel_co_applicants:
  "foldE (add_co_applicant_checked c b) xs e = Inr e' \<Longrightarrow> rel c d e \<Longrightarrow> rel c d e'"
  by (rule rel_foldE) (auto simp: add_co_applicant_checked_def intro!: frame_intros split: if_splits)

lemma rel_add_cost_lines [frame_intros]: "rel c d e \<Longrightarrow> rel c d (add_cost_lines c b ls e)"
  by (induction c b ls e rule: add_cost_lines.induct) (simp_all add: cost_line_row_def rel_add_cost_line)

end

context sale_frame
begin

lemmas rel_sales [frame_intros] = rel_add_booking rel_upd_booking

lemma rel_createBooking: "createBooking c dto a d = Inr (r, d') \<Longrightarrow> rel c d d'"
  by (auto simp: createBooking_Inr write_booking_def allocateForFy_def Let_def split_beta new_booking_simps
      intro!: frame_intros elim!: rel_transition [rotated] rel_co_applicants)

lemma rel_advance: "advance c i to date a d = Inr (x, y, d') \<Longrightarrow> rel c d d'"
  by (auto simp: advance_def intro!: frame_intros elim!: rel_transition [rotated])

lemma rel_transfer_units: "transfer_units c dto b nb a e = Inr e' \<Longrightarrow> rel c d e \<Longrightarrow> rel c d e'"
  by (cases "xf_transferType dto") (auto simp: transfer_units_def elim!: rel_transition [rotated])

lemma rel_transfer_booking: "transfer_booking c i dto now a d = Inr (r, d') \<Longrightarrow> rel c d d'"
proof (cases r)
  case (Pair t nid)
  assume "transfer_booking c i dto now a d = Inr (r, d')"
  then have run: "transfer_booking c i dto now a d = Inr ((t, nid), d')" by (simp add: Pair)
  then obtain b fee tu ta where "write_transfer c dto now a (b, fee, tu, ta) d = Inr ((t, nid), d')" "bk_companyId b = c"
    using transfer_booking_Inr by metis
  then show ?thesis
    by (auto simp: write_transfer_def allocateForFy_def Let_def split_beta transfer_row_def
        intro!: frame_intros elim!: rel_transfer_units)
qed

lemma rel_release_unit: "release_unit c b a e = Inr e' \<Longrightarrow> rel c d e \<Longrightarrow> rel c d e'"
  by (auto simp: release_unit_def Let_def split: option.splits if_splits elim!: rel_transition [rotated])

lemma rel_cancel_booking: "cancel_booking c i dto now a e = Inr (r, e') \<Longrightarrow> rel c d e \<Longrightarrow> rel c d e'"
  by (auto simp: cancel_booking_def Let_def cancellation_row_def intro!: frame_intros elim!: rel_release_unit)

lemma rel_cancel_with_broker: "cancel_with_broker c i dto now a d = Inr (r, d') \<Longrightarrow> rel c d d'"
  by (auto simp: cancel_with_broker_def Let_def split: option.splits
      dest!: rel_gate elim!: rel_cancel_booking rel_handleBookingCancelled)

lemma rel_assignToBooking: "assignToBooking c i br d = Inr (r, d') \<Longrightarrow> rel c d d'"
  by (auto simp: assignToBooking_def Let_def intro!: frame_intros)

lemmas rel_all_sales = rel_createBooking rel_advance rel_transfer_booking rel_cancel_with_broker
  rel_assignToBooking rel_transition [OF rel_refl]

end

end
