(* ===== verification/Allocations.thy ===== *)
theory Allocations
  imports Frames
begin

text \<open>
  The allocation cache. Every installment row caches what has been allocated to it
  (\<open>allocatedPaise\<close>, kept by \<open>bumpInstallment\<close>), and the ledger holds the entries that say
  so: the allocations of receipts and their reversals. This theory shows that the cache is
  the ledger's sum after every operation of the services, on every path.
\<close>

section \<open>What the ledger says\<close>

definition moves_row :: "ledger_entry \<Rightarrow> bool" where
  "moves_row e \<longleftrightarrow> le_installmentId e \<noteq> None \<and> le_entryType e \<noteq> INTEREST"

definition cash_of :: "id \<Rightarrow> id \<Rightarrow> db \<Rightarrow> int" where
  "cash_of c i d = - sum_list (map le_signedAmountPaise
     (filter (\<lambda>e. moves_row e \<and> le_companyId e = c \<and> le_installmentId e = Some i) (ledger d)))"

definition named :: "id \<Rightarrow> id \<Rightarrow> db \<Rightarrow> bool" where
  "named c i d \<longleftrightarrow> (\<exists>r\<in>set (installments d). in_id r = i \<and> in_companyId r = c)"

text \<open>
  The books agree up to \<open>\<delta>\<close>: what has been posted for an installment but not cached yet.
  The entries that move money name an installment of their own company, and no withheld tax
  names one.
\<close>

definition agree_upto :: "(id \<Rightarrow> int) \<Rightarrow> db \<Rightarrow> bool" where
  "agree_upto \<delta> d \<longleftrightarrow>
     distinct (map in_id (installments d)) \<and>
     (\<forall>r\<in>set (installments d). in_id r < next_id d \<and>
        in_allocatedPaise r + \<delta> (in_id r) = cash_of (in_companyId r) (in_id r) d) \<and>
     (\<forall>e\<in>set (ledger d). \<forall>i. moves_row e \<and> le_installmentId e = Some i \<longrightarrow>
        le_entryType e \<noteq> TDS_RECEIVABLE \<and> named (le_companyId e) i d)"

abbreviation books_agree :: "db \<Rightarrow> bool" where
  "books_agree \<equiv> agree_upto (\<lambda>_. 0)"

lemma agree_upto_same: "agree_upto \<delta> d \<Longrightarrow> (\<And>i. \<delta> i = \<delta>' i) \<Longrightarrow> agree_upto \<delta>' d"
  by (simp add: agree_upto_def)

section \<open>Operations that move no money\<close>

definition money :: "db \<Rightarrow> (id \<times> id \<times> int) list" where
  "money d = map (\<lambda>r. (in_id r, in_companyId r, in_allocatedPaise r)) (installments d)"

definition quiet :: "id \<Rightarrow> db \<Rightarrow> db \<Rightarrow> bool" where
  "quiet c d d' \<longleftrightarrow> money d' = money d \<and> filter moves_row (ledger d') = filter moves_row (ledger d) \<and>
     next_id d \<le> next_id d'"

lemma quiet_refl [simp]: "quiet c d d"
  by (simp add: quiet_def)

lemma quiet_trans: "quiet c d e \<Longrightarrow> quiet c e f \<Longrightarrow> quiet c d f"
  by (simp add: quiet_def)

lemma cash_of_cong:
  "filter moves_row (ledger d') = filter moves_row (ledger d) \<Longrightarrow> cash_of c i d' = cash_of c i d"
  unfolding cash_of_def by (metis (no_types, lifting) filter_filter filter_cong)

lemma named_money: "named c i d \<longleftrightarrow> (\<exists>x. (i, c, x) \<in> set (money d))"
  by (auto simp: named_def money_def)

lemma agree_money:
  "agree_upto \<delta> d \<longleftrightarrow> distinct (map fst (money d)) \<and>
     (\<forall>(i, c, x)\<in>set (money d). i < next_id d \<and> x + \<delta> i = cash_of c i d) \<and>
     (\<forall>e\<in>set (filter moves_row (ledger d)). \<forall>i. le_installmentId e = Some i \<longrightarrow>
        le_entryType e \<noteq> TDS_RECEIVABLE \<and> named (le_companyId e) i d)"
  by (auto simp: agree_upto_def money_def comp_def)

lemma agree_quiet: "quiet c d d' \<Longrightarrow> agree_upto \<delta> d \<Longrightarrow> agree_upto \<delta> d'"
  unfolding agree_money quiet_def named_money using cash_of_cong [of d' d] by (auto split: prod.splits)

lemma moves_row_ledger_row [simp]: "moves_row (ledger_row c n x) \<longleftrightarrow> \<not> moves_no_money x"
  by (auto simp: moves_row_def moves_no_money_def)

lemma money_post [simp]: "money (snd (post c es d)) = money d"
  by (simp add: money_def)

lemma quiet_rows: "installments d' = installments d \<Longrightarrow> ledger d' = ledger d \<Longrightarrow> next_id d \<le> next_id d' \<Longrightarrow> quiet c d d'"
  by (simp add: quiet_def money_def)

lemma money_update_rows:
  "(\<And>r. same_cache (f r) r) \<Longrightarrow> map (\<lambda>r. (in_id r, in_companyId r, in_allocatedPaise r)) (update_rows p f xs) =
     map (\<lambda>r. (in_id r, in_companyId r, in_allocatedPaise r)) xs"
  by (simp add: update_rows_def same_cache_def comp_def if_distrib cong: if_cong)

lemma post_rows_moves: "(\<And>x. x \<in> set es \<Longrightarrow> moves_no_money x) \<Longrightarrow> filter moves_row (post_rows c n es) = []"
  by (induction c n es rule: post_rows.induct) simp_all

lemma quiet_post: "(\<And>x. x \<in> set es \<Longrightarrow> moves_no_money x) \<Longrightarrow> quiet c d (snd (post c es d))"
  by (simp add: quiet_def) (simp add: post_eq post_rows_moves)

lemma quiet_allocate: "quiet c d (snd (allocate_number c k s d))"
  using allocate_number_frame [of c k s d] by (auto simp: quiet_def money_def)

lemma quiet_transition: "transition c u t ac ai r d = Inr (x, d') \<Longrightarrow> quiet c d d'"
  by (auto dest!: transition_db simp: quiet_def money_def)

interpretation quiet: sale_frame quiet
  by (unfold_locales; (rule quiet_refl)?; (erule quiet_trans)?;
      (auto intro: quiet_post quiet_allocate quiet_transition; fail)?;
      (auto simp: quiet_def money_def row_defs money_update_rows add_booking_def upd_booking_def)?)

section \<open>Posting and caching\<close>

lemma cash_of_post:
  "cash_of k i (snd (post c [x] d)) = cash_of k i d -
     (if k = c \<and> \<not> moves_no_money x \<and> li_installmentId x = Some i then li_signedAmountPaise x else 0)"
  by (simp add: cash_of_def) (simp add: post_eq)

text \<open>An entry posted for an installment of the company is owed to the cache.\<close>

lemma agree_post:
  assumes ok: "agree_upto \<delta> d" and x: "li_installmentId x = Some i" "li_entryType x \<noteq> TDS_RECEIVABLE"
    "li_entryType x \<noteq> INTEREST" and r: "named c i d"
  shows "agree_upto (\<delta>(i := \<delta> i - li_signedAmountPaise x)) (snd (post c [x] d))"
proof -
  have own: "in_companyId r' = c" if "r' \<in> set (installments d)" "in_id r' = i" for r'
    using ok r that by (auto simp: agree_upto_def named_def distinct_map inj_on_def)
  have m: "\<not> moves_no_money x" using x by (simp add: moves_no_money_def)
  have "named k j (snd (post c [x] d)) = named k j d" for k j by (simp add: named_def)
  then show ?thesis
    using ok x r own m unfolding agree_upto_def
    by (simp add: cash_of_post) (auto simp: post_eq less_Suc_eq)
qed

lemma named_owners: "named c i d \<longleftrightarrow> (i, c) \<in> set (map (\<lambda>r. (in_id r, in_companyId r)) (installments d))"
  by (auto simp: named_def)

lemma named_bump [simp]: "named k j (bumpInstallment c i x d) = named k j d"
proof -
  have "map (\<lambda>r. (in_id r, in_companyId r)) (installments (bumpInstallment c i x d)) =
      map (\<lambda>r. (in_id r, in_companyId r)) (installments d)"
    by (simp add: bumpInstallment_def upd_installment_def update_rows_def Let_def comp_def if_distrib
        split: option.splits cong: if_cong)
  then show ?thesis unfolding named_owners by simp
qed

lemma agree_bump:
  assumes ok: "agree_upto \<delta> d" and r: "named c i d"
  shows "agree_upto (\<delta>(i := \<delta> i - x)) (bumpInstallment c i x d)"
proof -
  have dist: "distinct (map in_id (installments d))" using ok by (simp add: agree_upto_def)
  have own: "in_companyId r' = c" if "r' \<in> set (installments d)" "in_id r' = i" for r'
    using dist r that by (auto simp: named_def distinct_map inj_on_def)
  have eq: "bumpInstallment c i x d = upd_installment c i (bumped x) d" by (rule bumpInstallment_eq [OF dist])
  have frame: "ledger (bumpInstallment c i x d) = ledger d" "next_id (bumpInstallment c i x d) = next_id d"
    using bumpInstallment_frame [of c i x d] by auto
  have cash: "cash_of k j (bumpInstallment c i x d) = cash_of k j d" for k j
    by (rule cash_of_cong) (simp add: frame)
  have "in_id r < next_id d \<and> in_allocatedPaise r + (\<delta>(i := \<delta> i - x)) (in_id r) = cash_of (in_companyId r) (in_id r) d"
    if r': "r \<in> set (installments (bumpInstallment c i x d))" for r
  proof -
    obtain r0 where r0: "r0 \<in> set (installments d)"
      and "r = (if in_companyId r0 = c \<and> in_id r0 = i then bumped x r0 else r0)"
      using r' by (auto simp: eq upd_installment_def update_rows_def)
    with own [OF r0] ok show ?thesis by (auto simp: agree_upto_def)
  qed
  then show ?thesis
    using ok by (simp add: agree_upto_def frame cash)
qed

text \<open>Creating and deleting installments.\<close>

lemma agree_add_installment:
  assumes ok: "books_agree d" and r: "in_id r = next_id d" "in_allocatedPaise r = 0"
  shows "books_agree (add_installment r d)"
proof -
  have fresh: "\<not> named c (next_id d) d" for c using ok by (auto simp: agree_upto_def named_def)
  have "cash_of c (next_id d) d = 0" for c
    using ok fresh unfolding cash_of_def agree_upto_def
    by (subst filter_False) auto
  moreover have "cash_of c i (add_installment r d) = cash_of c i d" for c i
    by (rule cash_of_cong) (simp add: add_installment_def)
  moreover have "named c i (add_installment r d)" if "named c i d" for c i
    using that by (auto simp: named_def add_installment_def)
  moreover have "in_id r \<notin> in_id ` set (installments d)" using ok r by (auto simp: agree_upto_def)
  ultimately show ?thesis
    using ok r unfolding agree_upto_def by (simp add: add_installment_def) (auto intro: less_SucI)
qed

lemma agree_delm_installment:
  assumes ok: "agree_upto \<delta> d" and del: "delm_installment c p d = Inr d'"
  shows "agree_upto \<delta> d'"
proof -
  have d': "d' = d\<lparr>installments := delete_rows (\<lambda>r. in_companyId r = c \<and> p r) (installments d)\<rparr>"
    and unref: "\<And>r. r \<in> set (installments d) \<Longrightarrow> in_companyId r = c \<Longrightarrow> p r \<Longrightarrow> \<not> installment_referenced d (in_id r)"
    using del by (auto simp: delm_installment_Inr)
  have "named (le_companyId e) i d'"
    if "e \<in> set (ledger d)" "le_installmentId e = Some i" "named (le_companyId e) i d" for e i
    using that unref by (auto simp: named_def d' delete_rows_def installment_referenced_def list_ex_iff)
  moreover have "cash_of k i d' = cash_of k i d" for k i by (rule cash_of_cong) (simp add: d')
  ultimately show ?thesis
    using ok by (auto simp: agree_upto_def d' delete_rows_def intro: distinct_filter simp: distinct_map_filter)
qed

section \<open>Receipts\<close>

lemma agree_post_allocations:
  assumes "agree_upto \<delta> d" and "\<And>a. a \<in> set as \<Longrightarrow> named c (rai_installmentId a) d"
  shows "agree_upto (\<lambda>i. \<delta> i + requested i as) (post_allocations c b rid t actor as d)"
  using assms
proof (induction as arbitrary: \<delta> d)
  case Nil
  then show ?case by (simp add: post_allocations_def requested_def)
next
  case (Cons a as)
  let ?i = "rai_installmentId a" and ?x = "alloc_entry b rid t actor a"
  let ?row = "\<lparr>ra_id = next_id d, ra_companyId = c, ra_receiptId = rid,
    ra_installmentId = ?i, ra_amountPaise = rai_amountPaise a\<rparr>"
  have nm: "named c j (add_allocation ?row d) = named c j d" for j
    by (simp add: named_def add_allocation_def)
  have "agree_upto \<delta> (add_allocation ?row d)"
    by (rule agree_quiet [OF _ Cons.prems(1), of c]) (simp add: quiet.rel_add_allocation)
  then have "agree_upto (\<delta>(?i := \<delta> ?i - li_signedAmountPaise ?x)) (post_allocation c b rid t actor a d)"
    unfolding post_allocation_def by (rule agree_post) (simp_all add: alloc_entry_def nm Cons.prems(2))
  moreover have "named c j (post_allocation c b rid t actor a d) = named c j d" for j
    by (simp add: post_allocation_def named_def add_allocation_def)
  ultimately have "agree_upto (\<lambda>i. (\<delta>(?i := \<delta> ?i - li_signedAmountPaise ?x)) i + requested i as)
      (post_allocations c b rid t actor as (post_allocation c b rid t actor a d))"
    using Cons.prems(2) by - (rule Cons.IH, assumption, simp)
  then show ?case
    by (simp add: post_allocations_def) (erule agree_upto_same, simp add: requested_def alloc_entry_def)
qed

lemma agree_bump_all:
  assumes "agree_upto \<delta> d" and "\<And>p. p \<in> set ps \<Longrightarrow> named c (fst p) d"
  shows "agree_upto (\<lambda>i. \<delta> i - alloc_delta i ps) (bump_all c ps d)"
  using assms
proof (induction ps arbitrary: \<delta> d)
  case (Cons p ps)
  have "agree_upto (\<delta>(fst p := \<delta> (fst p) - snd p)) (bumpInstallment c (fst p) (snd p) d)"
    by (rule agree_bump) (use Cons.prems in auto)
  then have "agree_upto (\<lambda>i. (\<delta>(fst p := \<delta> (fst p) - snd p)) i - alloc_delta i ps)
      (bump_all c ps (bumpInstallment c (fst p) (snd p) d))"
    by (rule Cons.IH) (simp add: Cons.prems(2))
  then show ?case by simp (erule agree_upto_same, simp)
qed simp

lemma agree_createReceipt:
  assumes run: "createReceipt c dto actor d = Inr (r, d')" and ok: "books_agree d"
  shows "books_agree d'"
proof -
  let ?as = "crd_allocations dto"
  have dist: "distinct (map in_id (installments d))" using ok by (simp add: agree_upto_def)
  obtain b where chk: "check_receipt c dto d = Inr b" and wr: "write_receipt c dto actor d = (r, d')"
    using run by (auto simp: createReceipt_def)
  have nm: "named c (rai_installmentId a) d" if "a \<in> set ?as" for a
    using check_receipt_Inr(4) [OF chk dist that] by (auto simp: named_def find_installment_def dest: find_SomeD)
  let ?fy = "financialYearLabel (crd_receiptDate dto) (fy_start_month c d)"
  obtain evs n where n: "next_id d \<le> rc_id r" "rc_id r < n"
    and d': "d' = post_tds c dto (rc_id r) actor (bump_all c (add_by_inst ?as)
        (post_allocations c (crd_bookingId dto) (rc_id r) (crd_receiptDate dto) actor ?as
          (d\<lparr>sequences := sequences (snd (allocate_number c ''RECEIPT'' ?fy d)), receipts := receipts d @ [r],
             chequeEvents := evs, next_id := n\<rparr>)))" (is "d' = post_tds _ _ _ _ (bump_all _ _ (post_allocations _ _ _ _ _ _ ?d3))")
    using write_receipt_steps [OF wr] by blast
  have "books_agree ?d3"
    by (rule agree_quiet [OF _ ok, of c]) (use n in \<open>simp add: quiet_def money_def\<close>)
  then have "agree_upto (\<lambda>i. 0 + requested i ?as)
      (post_allocations c (crd_bookingId dto) (rc_id r) (crd_receiptDate dto) actor ?as ?d3)" (is "agree_upto _ ?d4")
    by (rule agree_post_allocations) (use nm in \<open>simp add: named_def\<close>)
  moreover have "named c (fst p) ?d4" if "p \<in> set (add_by_inst ?as)" for p
  proof -
    have "fst p \<in> rai_installmentId ` set ?as" using that add_by_inst_keys [of ?as] by force
    then show ?thesis using nm by (auto simp: named_def)
  qed
  ultimately have "agree_upto (\<lambda>i. 0 + requested i ?as - alloc_delta i (add_by_inst ?as)) (bump_all c (add_by_inst ?as) ?d4)"
    by (rule agree_bump_all)
  then have "books_agree (bump_all c (add_by_inst ?as) ?d4)"
    by (rule agree_upto_same) (simp add: add_by_inst_delta)
  moreover have "quiet c (bump_all c (add_by_inst ?as) ?d4) d'"
    unfolding d' by (intro quiet.rel_post_tds quiet_refl)
  ultimately show ?thesis by (rule agree_quiet [rotated])
qed

section \<open>Reversals\<close>

lemma agree_reverse_entry:
  assumes ok: "books_agree d" and ty: "ty = ADJUSTMENT \<or> ty = BOUNCE_REVERSAL"
    and e: "\<And>i. le_installmentId e = Some i \<Longrightarrow> le_entryType e = RECEIPT_ALLOC \<and> named c i d"
  shows "books_agree (reverse_entry c r ty rs actor t e d)"
proof (cases "le_installmentId e")
  case None
  then have "quiet c d (reverse_entry c r ty rs actor t e d)"
    by (auto simp: reverse_entry_def reversal_entry_def moves_no_money_def Let_def intro!: quiet_post split: bool.splits)
  then show ?thesis using ok by (rule agree_quiet)
next
  case (Some i)
  let ?x = "reversal_entry r ty rs actor t e"
  have "agree_upto ((\<lambda>_. 0)(i := 0 - li_signedAmountPaise ?x)) (snd (post c [?x] d))" (is "agree_upto ?\<delta> ?d1")
    by (rule agree_post [OF ok]) (use Some e ty in \<open>auto simp: reversal_entry_def\<close>)
  then have "agree_upto (?\<delta>(i := ?\<delta> i - le_signedAmountPaise e)) (bumpInstallment c i (le_signedAmountPaise e) ?d1)"
    by (rule agree_bump) (use Some e in \<open>simp add: named_def\<close>)
  then have "books_agree (bumpInstallment c i (le_signedAmountPaise e) ?d1)"
    by (rule agree_upto_same) (simp add: reversal_entry_def)
  then show ?thesis using Some e by (simp add: reverse_entry_def)
qed

lemma agree_reverse_entries:
  assumes "books_agree d" and "ty = ADJUSTMENT \<or> ty = BOUNCE_REVERSAL"
    and "\<And>e i. e \<in> set es \<Longrightarrow> le_installmentId e = Some i \<Longrightarrow> le_entryType e = RECEIPT_ALLOC \<and> named c i d"
  shows "books_agree (foldl (\<lambda>s e. if done e then s else reverse_entry c r ty rs actor t e s) d es)"
  using assms
proof (induction es arbitrary: d)
  case (Cons e es)
  have k1: "books_agree (reverse_entry c r ty rs actor t e d)"
    by (rule agree_reverse_entry) (use Cons.prems in auto)
  have nm: "named c i (reverse_entry c r ty rs actor t e d) = named c i d" for i
  proof -
    have "named c i (snd (post c [x] d)) = named c i d" for x by (simp add: named_def)
    then show ?thesis by (simp add: reverse_entry_def Let_def split: bool.splits option.splits)
  qed
  have "books_agree (foldl (\<lambda>s e. if done e then s else reverse_entry c r ty rs actor t e s)
      (reverse_entry c r ty rs actor t e d) es)"
    by (rule Cons.IH [OF k1 Cons.prems(2)]) (use nm Cons.prems(3) in auto)
  moreover have "books_agree (foldl (\<lambda>s e. if done e then s else reverse_entry c r ty rs actor t e s) d es)"
    by (rule Cons.IH [OF Cons.prems(1,2)]) (use Cons.prems(3) in auto)
  ultimately show ?case by simp
qed simp

lemma agree_reverseReceiptLedger:
  assumes ok: "books_agree d" and ty: "ty = ADJUSTMENT \<or> ty = BOUNCE_REVERSAL"
  shows "books_agree (reverseReceiptLedger c r ty rs actor t x d)"
proof -
  let ?es = "receipt_entries c (rc_id r) d"
  let ?d1 = "foldl (\<lambda>s e. if already_reversed c d (le_id e) then s else reverse_entry c r ty rs actor t e s) d ?es"
  have "le_entryType e = RECEIPT_ALLOC \<and> named c i d" if "e \<in> set ?es" "le_installmentId e = Some i" for e i
    using that ok by (fastforce simp: receipt_entries_def agree_upto_def moves_row_def)
  then have "books_agree ?d1" by (intro agree_reverse_entries [OF ok ty])
  moreover have "quiet c ?d1 (reverseReceiptLedger c r ty rs actor t x d)"
    by (auto simp: reverseReceiptLedger_def Let_def moves_no_money_def intro!: quiet_post)
  ultimately show ?thesis by (rule agree_quiet [rotated])
qed

lemma agree_rows [intro!]:
  "books_agree d \<Longrightarrow> books_agree (add_cheque_event ce d)"
  "books_agree d \<Longrightarrow> books_agree (add_plan pl d)"
  "books_agree d \<Longrightarrow> books_agree (upd_receipt c i f d)"
  "books_agree d \<Longrightarrow> books_agree (upd_plan c i g d)"
  by (erule agree_quiet [rotated], simp add: quiet_def money_def row_defs)+

lemma agree_recordChequeEvent:
  "recordChequeEvent c i dto actor d = Inr (r, d') \<Longrightarrow> books_agree d \<Longrightarrow> books_agree d'"
  by (auto simp: recordChequeEvent_def Let_def intro!: agree_reverseReceiptLedger)

lemma agree_reverseReceipt:
  "reverseReceipt c i rs actor d = Inr (r, d') \<Longrightarrow> books_agree d \<Longrightarrow> books_agree d'"
  by (auto simp: reverseReceipt_def Let_def intro!: agree_reverseReceiptLedger)

section \<open>Payment plans\<close>

lemma agree_create_template_installments:
  "books_agree d \<Longrightarrow> books_agree (create_template_installments c b p t pl ms d)"
proof (induction c b p t pl ms d rule: create_template_installments.induct)
  case (2 c b p t pl m amount rest d)
  then show ?case by (simp add: agree_add_installment template_installment_def Let_def)
qed simp

lemma agree_create_custom_installments:
  "books_agree d \<Longrightarrow> books_agree (create_custom_installments c b pl s ins d)"
proof (induction c b pl s ins d rule: create_custom_installments.induct)
  case (2 c b pl s i amount rest d)
  then show ?case by (simp add: agree_add_installment custom_installment_def)
qed simp

lemma agree_deactivate_plan:
  "deactivate_plan c is p d = Inr d' \<Longrightarrow> books_agree d \<Longrightarrow> books_agree d'"
  by (auto simp: deactivate_plan_def Let_def split: if_splits elim: agree_delm_installment)

lemma agree_foldE:
  assumes "\<And>x d d'. f x d = Inr d' \<Longrightarrow> books_agree d \<Longrightarrow> books_agree d'"
  shows "foldE f xs d = Inr d' \<Longrightarrow> books_agree d \<Longrightarrow> books_agree d'"
  by (induction xs arbitrary: d) (auto simp: bindE_eq_Inr dest: assms)

lemma agree_deactivateExistingPlans:
  "deactivateExistingPlans c b d = Inr d' \<Longrightarrow> books_agree d \<Longrightarrow> books_agree d'"
  unfolding deactivateExistingPlans_def by (rule agree_foldE) (auto elim: agree_deactivate_plan)

lemma agree_instantiateFromTemplate:
  "instantiateFromTemplate c b t a d = Inr (r, d') \<Longrightarrow> books_agree d \<Longrightarrow> books_agree d'"
  by (auto simp: instantiateFromTemplate_def Let_def intro!: agree_create_template_installments
      elim: agree_deactivateExistingPlans)

lemma agree_createCustomPlan: "createCustomPlan c b dto a d = Inr (r, d') \<Longrightarrow> books_agree d \<Longrightarrow> books_agree d'"
  by (auto simp: createCustomPlan_def Let_def intro!: agree_create_custom_installments
      elim: agree_deactivateExistingPlans)

lemma agree_editPlan: "editPlan c b ins d = Inr (r, d') \<Longrightarrow> books_agree d \<Longrightarrow> books_agree d'"
  by (auto simp: editPlan_def Let_def intro!: agree_create_custom_installments elim: agree_delm_installment)

end
