(* ===== verification/Numbering.thy ===== *)
theory Numbering
  imports Frames
begin

text \<open>
  The receipt numbers. \<open>createReceipt\<close> is the only operation that takes a number of the
  RECEIPT sequence, and it takes it in the transaction that writes the receipt: the
  numbers of a company's financial year are 1, 2, 3 and so on, without a gap and without a
  duplicate, after any operations.
\<close>

definition year_numbers :: "id \<Rightarrow> string \<Rightarrow> db \<Rightarrow> nat list" where
  "year_numbers c fy d = map rc_seqValue (filter (\<lambda>r. rc_companyId r = c \<and> rc_fyLabel r = fy) (receipts d))"

definition numbered :: "db \<Rightarrow> bool" where
  "numbered d \<longleftrightarrow>
     (\<forall>c fy. year_numbers c fy d = [1..<upcoming_number c (''RECEIPT'', fy) d]) \<and>
     (\<forall>c fy. 1 \<le> upcoming_number c (''RECEIPT'', fy) d) \<and>
     (\<forall>r\<in>set (receipts d). rc_receiptNumber r = formatReceiptNumber (rc_fyLabel r) (rc_seqValue r))"

section \<open>Operations that issue no receipt\<close>

definition issued :: "db \<Rightarrow> (id \<times> string \<times> nat \<times> string) list" where
  "issued d = map (\<lambda>r. (rc_companyId r, rc_fyLabel r, rc_seqValue r, rc_receiptNumber r)) (receipts d)"

definition steady :: "id \<Rightarrow> db \<Rightarrow> db \<Rightarrow> bool" where
  "steady c d d' \<longleftrightarrow> issued d' = issued d \<and>
     (\<forall>k fy. upcoming_number k (''RECEIPT'', fy) d' = upcoming_number k (''RECEIPT'', fy) d)"

lemma steady_refl [simp]: "steady c d d"
  by (simp add: steady_def)

lemma steady_trans: "steady c d e \<Longrightarrow> steady c e f \<Longrightarrow> steady c d f"
  by (simp add: steady_def)

lemma year_numbers_issued:
  "year_numbers c fy d = map (\<lambda>(_, _, s, _). s) (filter (\<lambda>(c', fy', _). c' = c \<and> fy' = fy) (issued d))"
  by (simp add: year_numbers_def issued_def filter_map comp_def)

lemma numbered_steady: "steady c d d' \<Longrightarrow> numbered d \<Longrightarrow> numbered d'"
proof -
  assume st: "steady c d d'" and "numbered d"
  moreover have "(\<forall>r\<in>set (receipts e). rc_receiptNumber r = formatReceiptNumber (rc_fyLabel r) (rc_seqValue r)) \<longleftrightarrow>
      (\<forall>(_, fy, s, n)\<in>set (issued e). n = formatReceiptNumber fy s)" for e
    by (auto simp: issued_def)
  ultimately show ?thesis by (simp add: numbered_def steady_def year_numbers_issued)
qed

lemma allocate_other_company:
  assumes "n \<noteq> c"
  shows "upcoming_number n (k', y) (snd (allocate_number c k s d)) = upcoming_number n (k', y) d"
proof -
  have dis: "\<not> is_sequence c k s r" if "is_sequence n k' y r" for r
    using that assms by (auto simp: is_sequence_def)
  show ?thesis
    using assms dis by (auto simp: allocate_number_def upcoming_number_def add_sequence_def find_append is_sequence_def
        find_update_rows Let_def dest!: find_SomeD split: option.split)
qed

lemma steady_allocate:
  assumes "k \<noteq> ''RECEIPT''"
  shows "steady c d (snd (allocate_number c k s d))"
proof -
  have "upcoming_number n (''RECEIPT'', fy) (snd (allocate_number c k s d)) = upcoming_number n (''RECEIPT'', fy) d" for n fy
    using numbers.alloc_other [of "(''RECEIPT'', fy)" "(k, s)" c d] assms allocate_other_company
    by (cases "n = c") simp_all
  then show ?thesis
    using allocate_number_frame [of c k s d] by (auto simp: steady_def issued_def)
qed

lemma steady_rows:
  "receipts d' = receipts d \<Longrightarrow> sequences d' = sequences d \<Longrightarrow> steady c d d'"
  by (simp add: steady_def issued_def upcoming_number_def)

lemma steady_upd_receipt: "(\<And>r. same_number (f r) r) \<Longrightarrow> steady c d (upd_receipt c i f d)"
  by (simp add: steady_def issued_def upcoming_number_def upd_receipt_def update_rows_def same_number_def comp_def
      if_distrib cong: if_cong)

lemma steady_post: "steady c d (snd (post c es d))"
  by (rule steady_rows) (simp_all add: post_eq)

lemma steady_delm: "delm_installment c p d = Inr d' \<Longrightarrow> steady c d d'"
  by (rule steady_rows) (simp_all add: delm_installment_Inr)

lemma steady_transition: "transition c u t ac ai r d = Inr (x, d') \<Longrightarrow> steady c d d'"
  by (rule steady_rows) (auto dest!: transition_db)

interpretation steady: cash_frame steady
  by (unfold_locales; (rule steady_refl)?; (erule steady_trans)?;
      (auto intro: steady_post steady_allocate steady_upd_receipt steady_delm; fail)?;
      (auto intro!: steady_rows simp: row_defs)?)

interpretation steady_sale: sale_frame steady
  by (unfold_locales; (erule steady_trans)?; (auto intro: steady_transition; fail)?;
      (auto intro!: steady_rows simp: add_booking_def upd_booking_def)?)

section \<open>A receipt is issued\<close>

lemma createReceipt_numbers:
  assumes run: "createReceipt c dto actor d = Inr (r, d')"
  defines "fy \<equiv> financialYearLabel (crd_receiptDate dto) (fy_start_month c d)"
  defines "n \<equiv> upcoming_number c (''RECEIPT'', fy) d"
  shows "issued d' = issued d @ [(c, fy, n, formatReceiptNumber fy n)]"
    and "upcoming_number k (''RECEIPT'', y) d' =
      (if k = c \<and> y = fy then n + 1 else upcoming_number k (''RECEIPT'', y) d)"
proof -
  have wr: "write_receipt c dto actor d = (r, d')" using run by (auto simp: createReceipt_Inr)
  obtain evs m d3 where r: "r = new_receipt (rc_id r) c dto actor n fy"
    and d3: "d3 = d\<lparr>sequences := sequences (snd (allocate_number c ''RECEIPT'' fy d)), receipts := receipts d @ [r],
        chequeEvents := evs, next_id := m\<rparr>"
    and d': "d' = post_tds c dto (rc_id r) actor (bump_all c (add_by_inst (crd_allocations dto))
        (post_allocations c (crd_bookingId dto) (rc_id r) (crd_receiptDate dto) actor (crd_allocations dto) d3))"
    using write_receipt_steps [OF wr] unfolding fy_def n_def by blast
  have st: "steady c d3 d'"
    unfolding d' by (intro steady.rel_post_tds steady.rel_bump_all steady.rel_post_allocations steady_refl)
  have "issued d3 = issued d @ [(c, fy, n, formatReceiptNumber fy n)]"
    unfolding d3 issued_def by (simp, subst r, subst r, subst r, subst r, simp add: new_receipt_def)
  with st show "issued d' = issued d @ [(c, fy, n, formatReceiptNumber fy n)]" by (simp add: steady_def)
  have up: "upcoming_number k (''RECEIPT'', y) d3 = upcoming_number k (''RECEIPT'', y) (snd (allocate_number c ''RECEIPT'' fy d))"
    by (simp add: d3 upcoming_number_def)
  have "upcoming_number k (''RECEIPT'', y) (snd (allocate_number c ''RECEIPT'' fy d)) =
      (if k = c \<and> y = fy then n + 1 else upcoming_number k (''RECEIPT'', y) d)"
    using numbers.alloc_next [of c "(''RECEIPT'', fy)" d] numbers.alloc_other [of "(''RECEIPT'', y)" "(''RECEIPT'', fy)" c d]
      allocate_other_company [of k c "''RECEIPT''" y "''RECEIPT''" fy d]
    by (auto simp: n_def)
  with st up show "upcoming_number k (''RECEIPT'', y) d' =
      (if k = c \<and> y = fy then n + 1 else upcoming_number k (''RECEIPT'', y) d)" by (simp add: steady_def)
qed

lemma numbered_issued:
  "numbered d \<longleftrightarrow>
     (\<forall>c fy. year_numbers c fy d = [1..<upcoming_number c (''RECEIPT'', fy) d]) \<and>
     (\<forall>c fy. 1 \<le> upcoming_number c (''RECEIPT'', fy) d) \<and>
     (\<forall>(_, fy, s, n)\<in>set (issued d). n = formatReceiptNumber fy s)"
  by (auto simp: numbered_def issued_def)

lemma numbered_createReceipt:
  assumes run: "createReceipt c dto actor d = Inr (r, d')" and ok: "numbered d"
  shows "numbered d'"
  using ok unfolding numbered_issued year_numbers_issued createReceipt_numbers [OF run]
  by (auto simp: le_Suc_eq)

lemma numbered_unique:
  assumes ok: "numbered d" and r: "r \<in> set (receipts d)" "r' \<in> set (receipts d)"
    and same: "rc_companyId r = rc_companyId r'" "rc_receiptNumber r = rc_receiptNumber r'"
  shows "rc_fyLabel r = rc_fyLabel r' \<and> rc_seqValue r = rc_seqValue r'"
  using ok r same formatReceiptNumber_inject by (auto simp: numbered_def)

lemma distinct_year_numbers: "numbered d \<Longrightarrow> distinct (year_numbers c fy d)"
  by (simp add: numbered_def)

end
