(* ===== verification/Lifecycle.thy ===== *)
theory Lifecycle
  imports Allocations Numbering
begin

declare post.simps [simp del]

text \<open>
  The post-sales core as a transition system. A step is one call of a modelled service
  operation that succeeded; a failing call rolls its transaction back and is no step (the
  commission accrual, whose transactions commit one by one, is a step either way). The
  theory shows what every step keeps, by rule induction over any number of them: the rows
  of other companies, the append-only ledgers, and that no unit is sold twice. The master
  tables are fixed between steps.
\<close>

section \<open>What every step keeps\<close>

text \<open>
  What holds of every step a company takes: no row of another company moves, both ledgers
  only grow, ids are never reused. A step that is not a sale also leaves bookings and units.
\<close>

definition tidy :: "id \<Rightarrow> db \<Rightarrow> db \<Rightarrow> bool" where
  "tidy c d d' \<longleftrightarrow> foreign c d' = foreign c d \<and> (\<exists>new. ledger d' = ledger d @ new) \<and>
     (\<exists>new. commissionLedger d' = commissionLedger d @ new) \<and> next_id d \<le> next_id d'"

definition keeps :: "id \<Rightarrow> db \<Rightarrow> db \<Rightarrow> bool" where
  "keeps c d d' \<longleftrightarrow> tidy c d d' \<and> bookings d' = bookings d \<and> units d' = units d"

lemma tidy_refl [simp, intro]: "tidy c d d"
  by (simp add: tidy_def)

lemma tidy_trans [trans]: "tidy c d e \<Longrightarrow> tidy c e f \<Longrightarrow> tidy c d f"
  unfolding tidy_def by (metis append.assoc le_trans)

lemma keeps_refl [simp, intro]: "keeps c d d"
  by (simp add: keeps_def)

lemma keeps_trans [trans]: "keeps c d e \<Longrightarrow> keeps c e f \<Longrightarrow> keeps c d f"
  unfolding keeps_def by (metis tidy_trans)

lemma keeps_tidy: "keeps c d e \<Longrightarrow> tidy c d e"
  by (simp add: keeps_def)

lemma keeps_delm_installment: "keeps c d e \<Longrightarrow> delm_installment c p e = Inr e' \<Longrightarrow> keeps c d e'"
  by (auto simp: keeps_def tidy_def foreign_delm_installment) (simp_all add: delm_installment_Inr)

lemma keeps_post: "keeps c d e \<Longrightarrow> keeps c d (snd (post c es e))"
  by (auto simp: keeps_def tidy_def) (simp_all add: post_eq)

lemma keeps_allocate: "keeps c d e \<Longrightarrow> keeps c d (snd (allocate_number c k s e))"
  using allocate_number_frame [of c k s e] by (auto simp: keeps_def tidy_def)

lemma keeps_upd_installment:
  "keeps c d e \<Longrightarrow> (\<And>r. in_companyId (f r) = in_companyId r) \<Longrightarrow> keeps c d (updm_installment c p f e)"
  "keeps c d e \<Longrightarrow> (\<And>r. in_companyId (f r) = in_companyId r) \<Longrightarrow> keeps c d (upd_installment c i f e)"
  by (auto simp: keeps_def tidy_def) (simp_all add: updm_installment_def upd_installment_def)

lemmas keeps_special = keeps_post keeps_allocate keeps_trans keeps_refl
  keeps_upd_installment keeps_delm_installment

interpretation keeps: receipt_frame keeps
  by (unfold_locales; (auto simp: same_cache_def intro: keeps_special; fail)?;
      (auto simp: keeps_def tidy_def same_number_def; simp add: row_defs)?)

section \<open>The sales\<close>

lemma tidy_add_booking: "bk_companyId r = c \<Longrightarrow> tidy c d (add_booking r d)"
  by (auto simp: tidy_def) (simp_all add: add_booking_def)

lemma tidy_upd_booking:
  "(\<And>r. bk_companyId (f r) = bk_companyId r) \<Longrightarrow> tidy c d (upd_booking c i f d)"
  by (auto simp: tidy_def) (simp_all add: upd_booking_def)

lemma tidy_transition: "transition c u t ac ai r d = Inr (x, d') \<Longrightarrow> tidy c d d'"
  using foreign_transition transition_db by (fastforce simp: tidy_def)

lemma transition_bookings: "transition c u t ac ai r d = Inr (x, d') \<Longrightarrow> bookings d' = bookings d"
  by (auto dest!: transition_db)

lemma tidy_only_units: "only_units d d' \<Longrightarrow> foreign c d' = foreign c d \<Longrightarrow> tidy c d d'"
  using only_units_simps(1) [of d d'] only_units_commission(1) [of d d'] by (auto simp: tidy_def only_units_def)

interpretation tidy: sale_frame tidy
  by (unfold_locales; (rule tidy_refl)?; (erule tidy_trans)?;
      (auto intro: tidy_add_booking tidy_upd_booking tidy_transition)?;
      (auto simp: same_cache_def same_number_def intro!: keeps_tidy frame_intros)?)

text \<open>What each sale does to the bookings and to the status of the units.\<close>

lemma createBooking_sale:
  assumes "createBooking c dto a d = Inr (b, d')"
  shows "tidy c d d' \<and> bookings d' = bookings d @ [b] \<and> bk_companyId b = c \<and> bk_status b = BOOKING_BOOKED \<and>
    next_id d \<le> bk_id b \<and> bk_id b < next_id d' \<and>
    unit_status_of c (bk_unitId b) d \<in> {Some AVAILABLE, Some HELD} \<and>
    (\<forall>k. unit_status_of c k d' = (if k = bk_unitId b then Some BOOKED else unit_status_of c k d))"
proof -
  obtain pos ls where chk: "check_booking c dto d = Inr (pos, ls)" and wr: "write_booking c dto a pos ls d = Inr (b, d')"
    using assms by (auto simp: createBooking_Inr)
  let ?fy = "financialYearLabel (cb_bookingDate dto) (fy_start_month c d)"
  let ?d1 = "snd (allocate_number c ''BOOKING'' ?fy d)"
  obtain d3 x where b: "b = new_booking (next_id ?d1) c dto a (bk_bookingNumber b) pos ls"
    and co: "foldE (add_co_applicant_checked c (bk_id b)) (List.enumerate 0 (cb_coApplicantIds dto)) (add_booking b ?d1) = Inr d3"
    and tr: "transition c (cb_unitId dto) BOOKED system a (Some (''Booking '' @ bk_bookingNumber b))
        (snd (post c (charge_entries (bk_id b) (cb_bookingDate dto) a ls) (add_cost_lines c (bk_id b) ls d3))) = Inr (x, d')"
    using wr by (auto simp: write_booking_def allocateForFy_def Let_def split_beta new_booking_simps)
  let ?d5 = "snd (post c (charge_entries (bk_id b) (cb_bookingDate dto) a ls) (add_cost_lines c (bk_id b) ls d3))"
  have c: "bk_companyId b = c" "bk_unitId b = cb_unitId dto" "bk_status b = BOOKING_BOOKED" "bk_id b = next_id ?d1"
    by (subst b, simp)+
  have k1: "keeps c d ?d1" by (rule keeps_allocate) simp
  have k2: "keeps c (add_booking b ?d1) ?d5"
    by (intro frame_intros keeps.rel_add_cost_lines keeps.rel_co_applicants [OF co]) simp
  have "tidy c d d'"
    using tidy_trans [OF keeps_tidy [OF k1] tidy_trans [OF tidy_add_booking [OF c(1)] tidy_trans [OF keeps_tidy [OF k2] tidy_transition [OF tr]]]] .
  moreover have "bookings d' = bookings d @ [b]"
    using transition_bookings [OF tr] k1 k2 by (simp add: keeps_def add_booking_def)
  moreover have "units ?d5 = units d" using k1 k2 by (simp add: keeps_def add_booking_def)
  then have "unit_status_of c k ?d5 = unit_status_of c k d" for k by (rule unit_status_cong)
  moreover have "next_id ?d5 \<le> next_id d'" "next_id ?d1 + 1 \<le> next_id ?d5" "next_id d \<le> next_id ?d1"
    using tidy_transition [OF tr] k1 k2 by (auto simp: keeps_def tidy_def add_booking_def)
  moreover have "unit_status_of c (cb_unitId dto) d \<in> {Some AVAILABLE, Some HELD}"
    using check_booking_Inr [OF chk] by (auto simp: unit_status_of_def)
  ultimately show ?thesis using c transition_status [OF tr] by simp
qed

lemma advance_sale:
  assumes "advance c i to date a d = Inr (x, y, d')"
  shows "tidy c d d' \<and>
    bookings d' = update_rows (\<lambda>r. bk_companyId r = c \<and> bk_id r = i) (advanced to date) (bookings d) \<and>
    (\<exists>b. find_booking c i d = Some b \<and> bk_status b = expected_from to \<and>
       (\<forall>k. unit_status_of c k d' = (if k = bk_unitId b then Some (advance_target to) else unit_status_of c k d)))"
proof -
  from assms obtain b t where b: "find_booking c i d = Some b" "bk_status b = expected_from to"
    and tr: "transition c (bk_unitId b) (advance_target to) system a
      (Some (''Booking '' @ bk_bookingNumber b)) (upd_booking c i (advanced to date) d) = Inr (t, d')"
    by (auto simp: advance_def)
  have "tidy c d d'"
    by (rule tidy_trans [OF tidy_upd_booking tidy_transition [OF tr]]) simp
  moreover have "unit_status_of c k (upd_booking c i (advanced to date) d) = unit_status_of c k d" for k
    by (rule unit_status_cong) (simp add: upd_booking_def)
  ultimately show ?thesis
    using b transition_bookings [OF tr] transition_status [OF tr] by (auto simp: upd_booking_def)
qed

lemma transfer_sale:
  assumes "transfer_booking c i dto now a d = Inr ((t, nid), d')"
  shows "tidy c d d' \<and> (\<exists>b nb. find_booking c i d = Some b \<and> bk_status b \<in> {BOOKING_BOOKED, BOOKING_ALLOTTED} \<and>
    bookings d' = update_rows (\<lambda>r. bk_companyId r = c \<and> bk_id r = i) (\<lambda>b. b\<lparr>bk_status := BOOKING_TRANSFERRED_OUT\<rparr>) (bookings d) @ [nb] \<and>
    bk_companyId nb = c \<and> bk_status nb = BOOKING_BOOKED \<and> next_id d \<le> bk_id nb \<and> bk_id nb < next_id d' \<and>
    (bk_unitId nb = bk_unitId b \<and> (\<forall>k. unit_status_of c k d' = unit_status_of c k d) \<or>
     unit_status_of c (bk_unitId nb) d \<in> {Some AVAILABLE, Some HELD} \<and>
     (\<forall>k. unit_status_of c k d' = (if k = bk_unitId nb then Some BOOKED
        else if k = bk_unitId b then Some AVAILABLE else unit_status_of c k d))))"
proof -
  obtain b fee tu ta where chk: "check_transfer c i dto d = Inr (b, fee, tu, ta)"
    and wr: "write_transfer c dto now a (b, fee, tu, ta) d = Inr ((t, nid), d')"
    and b: "find_booking c i d = Some b" "bk_id b = i" "bk_companyId b = c"
    using assms by (rule transfer_booking_Inr)
  let ?d1 = "snd (post c [carry_out_entry b (balanceInTx c i d) now a] d)"
  let ?d2 = "upd_booking c i (\<lambda>b. b\<lparr>bk_status := BOOKING_TRANSFERRED_OUT\<rparr>) ?d1"
  let ?fy = "financialYearLabel now (fy_start_month c d)"
  let ?d3 = "snd (allocate_number c ''BOOKING'' ?fy ?d2)"
  obtain nb d7 num where nb: "nb = transferred_booking (next_id ?d3) b tu ta num now a"
    and tu: "transfer_units c dto b nb a (snd (post c (fee_entries (bk_id nb) fee now a)
        (snd (post c [carry_in_entry nb (balanceInTx c i d) now a] (add_booking nb ?d3))))) = Inr d7"
    and d': "d' = add_transfer t d7" and tc: "tx_companyId t = c"
    using wr b(2,3)
    by (auto simp: write_transfer_def allocateForFy_def Let_def split_beta transfer_row_def)
  let ?d6 = "snd (post c (fee_entries (bk_id nb) fee now a)
        (snd (post c [carry_in_entry nb (balanceInTx c i d) now a] (add_booking nb ?d3))))"
  have n: "bk_companyId nb = c" "bk_unitId nb = tu" "bk_status nb = BOOKING_BOOKED" "bk_id nb = next_id ?d3"
    by (subst nb, simp add: b)+
  note fx = transfer_units_effect [OF tu]
  have ou: "only_units ?d6 d7" and fo: "foreign c d7 = foreign c ?d6" using fx by blast+
  have k1: "keeps c d ?d1" and k3: "keeps c ?d2 ?d3" and k6: "keeps c (add_booking nb ?d3) ?d6"
    and k8: "keeps c d7 d'" using tc by (auto simp: d' intro!: frame_intros)
  have t2: "tidy c ?d1 ?d2" by (rule tidy_upd_booking) simp
  have t: "tidy c d d'"
    using tidy_trans [OF keeps_tidy [OF k1] tidy_trans [OF t2 tidy_trans [OF keeps_tidy [OF k3]
      tidy_trans [OF tidy_add_booking [OF n(1)] tidy_trans [OF keeps_tidy [OF k6]
        tidy_trans [OF tidy_only_units [OF ou fo] keeps_tidy [OF k8]]]]]]] .
  have bks: "bookings d' = update_rows (\<lambda>r. bk_companyId r = c \<and> bk_id r = i)
      (\<lambda>b. b\<lparr>bk_status := BOOKING_TRANSFERRED_OUT\<rparr>) (bookings d) @ [nb]"
    using k1 k3 k6 k8 only_units_simps(2) [OF ou] by (simp add: keeps_def add_booking_def upd_booking_def)
  have "units ?d6 = units d" using k1 k3 k6 by (simp add: keeps_def add_booking_def upd_booking_def)
  then have same: "unit_status_of c k ?d6 = unit_status_of c k d" for k by (rule unit_status_cong)
  have "units d' = units d7" using k8 by (simp add: keeps_def)
  then have after: "unit_status_of c k d' = unit_status_of c k d7" for k by (rule unit_status_cong)
  have ids: "next_id d \<le> bk_id nb \<and> bk_id nb < next_id d'"
  proof -
    have "next_id d \<le> next_id ?d1" "next_id ?d1 \<le> next_id ?d2" "next_id ?d2 \<le> next_id ?d3"
      "next_id (add_booking nb ?d3) \<le> next_id ?d6" "next_id ?d6 \<le> next_id d7" "next_id d7 \<le> next_id d'"
      using k1 t2 k3 k6 k8 tidy_only_units [OF ou fo] by (simp_all add: keeps_def tidy_def)
    moreover have "next_id (add_booking nb ?d3) = bk_id nb + 1" "next_id ?d3 = bk_id nb"
      by (simp_all add: add_booking_def n(4))
    ultimately show ?thesis by linarith
  qed
  have chk2: "bk_status b \<in> {BOOKING_BOOKED, BOOKING_ALLOTTED}" "transfer_destination c dto b d = Inr (tu, ta)"
    using check_transfer_Inr [OF chk] by auto
  show ?thesis
    using t b bks n ids chk2 transfer_destination_Inr [OF chk2(2)] fx same after
    by (cases "xf_transferType dto") (auto simp: n(2))
qed

lemma cancel_sale:
  assumes "cancel_booking c i dto now a d = Inr (r, d')"
  shows "tidy c d d' \<and> (\<exists>b f. find_booking c i d = Some b \<and>
    bookings d' = update_rows (\<lambda>r. bk_companyId r = c \<and> bk_id r = i) f (bookings d) \<and>
    (\<forall>b. bk_id (f b) = bk_id b \<and> bk_companyId (f b) = bk_companyId b \<and> bk_unitId (f b) = bk_unitId b \<and>
       bk_status (f b) = cancelled_status (xc_cancellationType dto)) \<and>
    (\<forall>k. k \<noteq> bk_unitId b \<longrightarrow> unit_status_of c k d' = unit_status_of c k d))"
proof -
  let ?f = "\<lambda>b. b\<lparr>bk_status := cancelled_status (xc_cancellationType dto), bk_cancelledAt := Some now\<rparr>"
  obtain b ty ded where b: "find_booking c i d = Some b" "bk_status b \<in> set CANCELLABLE_FROM"
    and ded: "cancellation_deduction c dto b d = Inr (ty, ded)"
    using assms by (auto simp: cancel_booking_def Let_def)
  let ?ref = "if net_received c i d - ded > 0 then net_received c i d - ded else 0"
  let ?d1 = "snd (post c (cancellation_entries i ty ded (- ?ref - balanceInTx c i d - ded) now a) d)"
  let ?d2 = "upd_booking c i ?f ?d1"
  let ?d3 = "add_cancellation (cancellation_row (next_id ?d2) c i dto ty ded ?ref a) ?d2"
  have rel: "release_unit c b a ?d3 = Inr d'"
    using assms b ded unfolding cancel_booking_def Let_def by auto
  have ou: "only_units ?d3 d'" and fo: "foreign c d' = foreign c ?d3" using release_unit_effect [OF rel] by blast+
  have k1: "keeps c d ?d1" and k3: "keeps c (upd_booking c i ?f ?d1) ?d3"
    by (auto simp: cancellation_row_def intro!: frame_intros)
  have t2: "tidy c ?d1 (upd_booking c i ?f ?d1)" by (rule tidy_upd_booking) simp
  have "tidy c d d'"
    using tidy_trans [OF keeps_tidy [OF k1] tidy_trans [OF t2 tidy_trans [OF keeps_tidy [OF k3] tidy_only_units [OF ou fo]]]] .
  moreover have "bookings d' = update_rows (\<lambda>r. bk_companyId r = c \<and> bk_id r = i) ?f (bookings d)"
    using k1 k3 only_units_simps(2) [OF ou] by (simp add: keeps_def upd_booking_def)
  moreover have "units ?d3 = units d" using k1 k3 by (simp add: keeps_def upd_booking_def)
  then have "unit_status_of c k ?d3 = unit_status_of c k d" for k by (rule unit_status_cong)
  then have "k \<noteq> bk_unitId b \<longrightarrow> unit_status_of c k d' = unit_status_of c k d" for k
    using release_unit_effect [OF rel, of k] by auto
  ultimately show ?thesis using b by (intro conjI exI [of _ b] exI [of _ ?f]) auto
qed

lemma cancel_with_broker_sale:
  assumes "cancel_with_broker c i dto now a d = Inr (r, d')"
  shows "\<exists>d1 d2. keeps c d d1 \<and> cancel_booking c i dto now a d1 = Inr (r, d2) \<and> keeps c d2 d'"
  using assms
  by (auto simp: cancel_with_broker_def Let_def split: option.splits
      dest: keeps.rel_gate keeps.rel_handleBookingCancelled [OF _ keeps_refl])

section \<open>No unit is sold twice\<close>

text \<open>
  A booking is live while it is BOOKED, ALLOTTED or REGISTERED. The invariant: ids are
  distinct and below the next one, the unit of a live booking is in one of the sold
  statuses, and two live bookings never share a unit.
\<close>

definition live :: "booking \<Rightarrow> bool" where
  "live b \<longleftrightarrow> bk_status b \<in> {BOOKING_BOOKED, BOOKING_ALLOTTED, BOOKING_REGISTERED}"

definition sold :: "id \<Rightarrow> id \<Rightarrow> db \<Rightarrow> bool" where
  "sold c u d \<longleftrightarrow> unit_status_of c u d \<in> {Some BOOKED, Some ALLOTTED, Some REGISTERED}"

definition same_unit :: "booking \<Rightarrow> booking \<Rightarrow> bool" where
  "same_unit b b' \<longleftrightarrow> bk_companyId b = bk_companyId b' \<and> bk_unitId b = bk_unitId b'"

definition sold_once :: "db \<Rightarrow> bool" where
  "sold_once d \<longleftrightarrow> booking_ids_ok d \<and> distinct (map bk_id (bookings d)) \<and>
     (\<forall>b\<in>set (bookings d). live b \<longrightarrow> sold (bk_companyId b) (bk_unitId b) d) \<and>
     (\<forall>b\<in>set (bookings d). \<forall>b'\<in>set (bookings d). live b \<and> live b' \<and> same_unit b b' \<longrightarrow> bk_id b = bk_id b')"

lemma sold_cong: "units d' = units d \<Longrightarrow> sold c u d' = sold c u d"
  by (simp add: sold_def unit_status_of_def find_unit_def)

lemma sold_once_keeps: "keeps c d d' \<Longrightarrow> sold_once d \<Longrightarrow> sold_once d'"
  by (auto simp: sold_once_def keeps_def tidy_def booking_ids_ok_def list_all_iff sold_cong [of d' d]
      intro: less_le_trans)

lemma find_filter: "(\<And>x. p x \<Longrightarrow> q x) \<Longrightarrow> List.find p (filter q xs) = List.find p xs"
  by (induction xs) auto

lemma sold_foreign: "foreign c d' = foreign c d \<Longrightarrow> k \<noteq> c \<Longrightarrow> sold k u d' = sold k u d"
proof -
  assume "foreign c d' = foreign c d" and k: "k \<noteq> c"
  then have "filter (\<lambda>r. un_companyId r \<noteq> c) (units d') = filter (\<lambda>r. un_companyId r \<noteq> c) (units d)"
    by (simp add: foreign_def)
  moreover have "find_unit k u e = List.find (\<lambda>r. un_id r = u \<and> un_companyId r = k)
      (filter (\<lambda>r. un_companyId r \<noteq> c) (units e))" for e
    unfolding find_unit_def by (rule find_filter [symmetric]) (use k in auto)
  ultimately show ?thesis by (simp add: sold_def unit_status_of_def)
qed

lemma same_unit_sym: "same_unit b b' \<Longrightarrow> same_unit b' b"
  by (simp add: same_unit_def)

text \<open>
  A sale rewrites one booking and may add one. It keeps the invariant when it revives no
  booking, leaves every live booking's unit sold, and adds a booking only for a unit no
  other live booking holds.
\<close>

lemma sold_once_sale:
  assumes inv: "sold_once d"
    and bks: "bookings d' = update_rows (\<lambda>r. bk_companyId r = c \<and> bk_id r = i) f (bookings d) @ new"
    and f: "\<And>b. bk_id (f b) = bk_id b \<and> bk_companyId (f b) = bk_companyId b \<and> bk_unitId (f b) = bk_unitId b"
    and dead: "\<And>b. b \<in> set (bookings d) \<Longrightarrow> bk_companyId b = c \<Longrightarrow> bk_id b = i \<Longrightarrow> live (f b) \<Longrightarrow> live b"
    and new: "new = [] \<or> (\<exists>n. new = [n] \<and> next_id d \<le> bk_id n \<and> bk_id n < next_id d' \<and>
       (\<forall>b\<in>set (bookings d'). live b \<and> same_unit b n \<longrightarrow> b = n))"
    and sold: "\<And>b. b \<in> set (bookings d') \<Longrightarrow> live b \<Longrightarrow> sold (bk_companyId b) (bk_unitId b) d'"
    and mono: "next_id d \<le> next_id d'"
  shows "sold_once d'"
proof -
  let ?rs = "update_rows (\<lambda>r. bk_companyId r = c \<and> bk_id r = i) f (bookings d)"
  have old: "\<exists>b0\<in>set (bookings d). bk_id b0 = bk_id b \<and> same_unit b0 b \<and> (live b \<longrightarrow> live b0)" if "b \<in> set ?rs" for b
    using that f dead by (fastforce simp: update_rows_def same_unit_def)
  have ids: "map bk_id ?rs = map bk_id (bookings d)" using f by (simp add: update_rows_def comp_def if_distrib cong: if_cong)
  have below: "bk_id b < next_id d" if "b \<in> set ?rs" for b
    using that inv old by (auto simp: sold_once_def booking_ids_ok_def list_all_iff dest!: old)
  have uniq: "bk_id b = bk_id b'" if bb: "b \<in> set ?rs" "b' \<in> set ?rs" "live b" "live b'" "same_unit b b'" for b b'
  proof -
    obtain b0 b0' where "b0 \<in> set (bookings d)" "b0' \<in> set (bookings d)" "bk_id b0 = bk_id b" "bk_id b0' = bk_id b'"
      "live b0" "live b0'" "same_unit b0 b0'"
      using old [OF bb(1)] old [OF bb(2)] bb(3-5) by (auto simp: same_unit_def)
    with inv show ?thesis unfolding sold_once_def by metis
  qed
  have "distinct (map bk_id (bookings d'))"
  proof -
    have "distinct (map bk_id ?rs)" using inv ids by (simp add: sold_once_def)
    moreover have "bk_id n \<notin> bk_id ` set ?rs" if "next_id d \<le> bk_id n" for n :: booking
    proof
      assume "bk_id n \<in> bk_id ` set ?rs"
      then obtain x where "bk_id n = bk_id x" "x \<in> set ?rs" by (rule imageE)
      with below [of x] that show False by simp
    qed
    ultimately show ?thesis
      using new unfolding bks map_append distinct_append by (elim disjE exE conjE) simp_all
  qed
  moreover have "booking_ids_ok d'"
    using new below mono by (fastforce simp: booking_ids_ok_def list_all_iff bks)
  moreover have "bk_id b = bk_id b'"
    if bb: "b \<in> set (bookings d')" "b' \<in> set (bookings d')" "live b" "live b'" "same_unit b b'" for b b'
  proof (cases "b \<in> set ?rs \<and> b' \<in> set ?rs")
    case True
    with uniq bb(3-5) show ?thesis by blast
  next
    case False
    from new show ?thesis
    proof (elim disjE exE conjE)
      assume "new = []"
      with False bb(1,2) show ?thesis by (simp add: bks)
    next
      fix n
      assume n: "new = [n]" "\<forall>b\<in>set (bookings d'). live b \<and> same_unit b n \<longrightarrow> b = n"
      have "b = n \<or> b' = n" using False bb(1,2) n(1) by (simp add: bks) blast
      then have "b = n \<and> b' = n"
        using n(2) bb same_unit_sym by blast
      then show ?thesis by simp
    qed
  qed
  ultimately show ?thesis unfolding sold_once_def using sold by blast
qed

lemma update_rows_none_id: "update_rows p id xs = xs"
  by (induction xs) (auto simp: update_rows_def)

lemma found_booking:
  "find_booking c i d = Some b \<Longrightarrow> b \<in> set (bookings d) \<and> bk_id b = i \<and> bk_companyId b = c"
  by (auto simp: find_booking_def dest!: find_SomeD)

lemma sold_once_unique:
  "sold_once d \<Longrightarrow> b \<in> set (bookings d) \<Longrightarrow> b' \<in> set (bookings d) \<Longrightarrow> bk_id b = bk_id b' \<Longrightarrow> b = b'"
  unfolding sold_once_def by (metis distinct_map inj_onD)

lemma sold_once_live_unique:
  "sold_once d \<Longrightarrow> b \<in> set (bookings d) \<Longrightarrow> b' \<in> set (bookings d) \<Longrightarrow> live b \<Longrightarrow> live b' \<Longrightarrow> same_unit b b' \<Longrightarrow> b = b'"
  using sold_once_unique unfolding sold_once_def by metis

lemma createBooking_sold_once:
  assumes "createBooking c dto a d = Inr (b, d')" and inv: "sold_once d"
  shows "sold_once d'"
proof (rule sold_once_sale [OF inv, where i = 0 and c = c and f = id and new = "[b]"])
  note eff = createBooking_sale [OF assms(1)]
  have t: "foreign c d' = foreign c d" "next_id d \<le> next_id d'" using eff by (auto simp: tidy_def)
  have free: "\<not> sold c (bk_unitId b) d" using eff by (auto simp: sold_def)
  have st: "sold k u d' = (if k = c \<and> u = bk_unitId b then True else sold k u d)" for k u
    using eff sold_foreign [OF t(1)] by (cases "k = c") (auto simp: sold_def)
  show "bookings d' = update_rows (\<lambda>r. bk_companyId r = c \<and> bk_id r = 0) id (bookings d) @ [b]"
    using eff by (simp add: update_rows_none_id)
  have others: "\<not> (live x \<and> same_unit x b)" if "x \<in> set (bookings d)" for x
    using that inv free eff by (auto simp: sold_once_def same_unit_def)
  show "[b] = [] \<or> (\<exists>n. [b] = [n] \<and> next_id d \<le> bk_id n \<and> bk_id n < next_id d' \<and>
       (\<forall>x\<in>set (bookings d'). live x \<and> same_unit x n \<longrightarrow> x = n))"
    using eff others by auto
  show "sold (bk_companyId x) (bk_unitId x) d'" if "x \<in> set (bookings d')" "live x" for x
    using that eff inv by (auto simp: st sold_once_def)
  show "next_id d \<le> next_id d'" by (fact t(2))
qed simp_all

lemma advance_sold_once:
  assumes "advance c i to date a d = Inr (x, y, d')" and inv: "sold_once d"
  shows "sold_once d'"
proof (rule sold_once_sale [OF inv, where i = i and c = c and f = "advanced to date" and new = "[]"])
  from advance_sale [OF assms(1)] obtain b where t: "foreign c d' = foreign c d" "next_id d \<le> next_id d'"
    and bks: "bookings d' = update_rows (\<lambda>r. bk_companyId r = c \<and> bk_id r = i) (advanced to date) (bookings d)"
    and b: "find_booking c i d = Some b" "bk_status b = expected_from to"
    and st: "\<And>k. unit_status_of c k d' = (if k = bk_unitId b then Some (advance_target to) else unit_status_of c k d)"
    by (auto simp: tidy_def)
  show "bookings d' = update_rows (\<lambda>r. bk_companyId r = c \<and> bk_id r = i) (advanced to date) (bookings d) @ []"
    using bks by simp
  have was: "live z" if "z \<in> set (bookings d)" "bk_companyId z = c" "bk_id z = i" for z
    using sold_once_unique [OF inv that(1), of b] found_booking [OF b(1)] that b(2)
    by (cases to) (auto simp: live_def expected_from_def)
  show "live z" if "z \<in> set (bookings d)" "bk_companyId z = c" "bk_id z = i" "live (advanced to date z)" for z
    using was that by blast
  show "sold (bk_companyId z) (bk_unitId z) d'" if z: "z \<in> set (bookings d')" "live z" for z
  proof -
    have "\<exists>z0\<in>set (bookings d). same_unit z0 z \<and> live z0"
      using z was by (auto simp: bks update_rows_def same_unit_def split: if_splits)
    then have "sold (bk_companyId z) (bk_unitId z) d" using inv by (auto simp: sold_once_def same_unit_def)
    then show ?thesis
      using sold_foreign [OF t(1)] st by (cases "bk_companyId z = c"; cases to) (auto simp: sold_def advance_target_def)
  qed
  show "next_id d \<le> next_id d'" by (fact t(2))
qed simp_all

lemma live_kept:
  assumes "x \<in> set (update_rows (\<lambda>r. bk_companyId r = c \<and> bk_id r = i) f rs)" and "live x"
    and "\<And>b. \<not> live (f b)"
  shows "x \<in> set rs \<and> \<not> (bk_companyId x = c \<and> bk_id x = i)"
proof -
  obtain r where "r \<in> set rs" "x = (if bk_companyId r = c \<and> bk_id r = i then f r else r)"
    using assms(1) by (auto simp: update_rows_def)
  with assms(2,3) show ?thesis by (cases "bk_companyId r = c \<and> bk_id r = i") auto
qed

lemma transfer_sold_once:
  assumes "transfer_booking c i dto now a d = Inr ((t, nid), d')" and inv: "sold_once d"
  shows "sold_once d'"
proof -
  let ?f = "\<lambda>b. b\<lparr>bk_status := BOOKING_TRANSFERRED_OUT\<rparr>"
  let ?rs = "update_rows (\<lambda>r. bk_companyId r = c \<and> bk_id r = i) ?f (bookings d)"
  from transfer_sale [OF assms(1)] obtain b nb where t: "foreign c d' = foreign c d" "next_id d \<le> next_id d'"
    and b: "find_booking c i d = Some b" "bk_status b \<in> {BOOKING_BOOKED, BOOKING_ALLOTTED}"
    and bks: "bookings d' = ?rs @ [nb]"
    and nb: "bk_companyId nb = c" "bk_status nb = BOOKING_BOOKED" "next_id d \<le> bk_id nb" "bk_id nb < next_id d'"
    and st: "bk_unitId nb = bk_unitId b \<and> (\<forall>k. unit_status_of c k d' = unit_status_of c k d) \<or>
     unit_status_of c (bk_unitId nb) d \<in> {Some AVAILABLE, Some HELD} \<and>
     (\<forall>k. unit_status_of c k d' = (if k = bk_unitId nb then Some BOOKED
        else if k = bk_unitId b then Some AVAILABLE else unit_status_of c k d))"
    by (auto simp: tidy_def)
  have b': "b \<in> set (bookings d)" "bk_id b = i" "bk_companyId b = c" "live b"
    using found_booking [OF b(1)] b(2) by (auto simp: live_def)
  have kept: "x \<in> set (bookings d) \<and> x \<noteq> b" if x: "x \<in> set ?rs" "live x" for x
    using live_kept [OF x] b'(2,3) by (auto simp: live_def)
  have held: "sold c (bk_unitId b) d" using inv b' unfolding sold_once_def by auto
  have other: "\<not> same_unit x b" if x: "x \<in> set ?rs" "live x" for x
    using kept [OF x] sold_once_live_unique [OF inv _ b'(1) x(2) b'(4)] by blast
  have new: "\<not> same_unit x nb" if x: "x \<in> set ?rs" "live x" for x
  proof
    assume s: "same_unit x nb"
    from st show False
    proof
      assume "bk_unitId nb = bk_unitId b \<and> (\<forall>k. unit_status_of c k d' = unit_status_of c k d)"
      with s other [OF x] b'(3) nb(1) show False by (simp add: same_unit_def)
    next
      assume "unit_status_of c (bk_unitId nb) d \<in> {Some AVAILABLE, Some HELD} \<and>
        (\<forall>k. unit_status_of c k d' = (if k = bk_unitId nb then Some BOOKED
          else if k = bk_unitId b then Some AVAILABLE else unit_status_of c k d))"
      then have free: "unit_status_of c (bk_unitId nb) d \<in> {Some AVAILABLE, Some HELD}" by (rule conjunct1)
      have "sold (bk_companyId x) (bk_unitId x) d"
        using inv kept [OF x] x(2) unfolding sold_once_def by blast
      with s nb(1) free show False by (auto simp: sold_def same_unit_def)
    qed
  qed
  show ?thesis
  proof (rule sold_once_sale [OF inv bks])
    show "[nb] = [] \<or> (\<exists>n. [nb] = [n] \<and> next_id d \<le> bk_id n \<and> bk_id n < next_id d' \<and>
       (\<forall>x\<in>set (bookings d'). live x \<and> same_unit x n \<longrightarrow> x = n))"
    proof (intro disjI2 exI conjI ballI impI)
      show "x = nb" if x: "x \<in> set (bookings d')" "live x \<and> same_unit x nb" for x
        using x new [of x] unfolding bks by (metis Un_iff empty_iff empty_set insert_iff list.simps(15) set_append)
    qed (use nb in simp_all)
    show "sold (bk_companyId x) (bk_unitId x) d'" if x: "x \<in> set (bookings d')" "live x" for x
    proof (cases "x \<in> set ?rs")
      case True
      have s: "sold (bk_companyId x) (bk_unitId x) d"
        using inv kept [OF True x(2)] x(2) by (auto simp: sold_once_def)
      show ?thesis
      proof (cases "bk_companyId x = c")
        case False
        with sold_foreign [OF t(1)] s show ?thesis by simp
      next
        case c: True
        with other [OF True x(2)] b'(3) have ne: "bk_unitId x \<noteq> bk_unitId b" by (simp add: same_unit_def)
        from st show ?thesis
        proof (elim disjE conjE)
          assume "\<forall>k. unit_status_of c k d' = unit_status_of c k d"
          with s c show ?thesis by (simp add: sold_def)
        next
          assume "\<forall>k. unit_status_of c k d' = (if k = bk_unitId nb then Some BOOKED
            else if k = bk_unitId b then Some AVAILABLE else unit_status_of c k d)"
          with s c ne show ?thesis by (simp add: sold_def)
        qed
      qed
    next
      case False
      with x have "x = nb" by (simp add: bks)
      with st held nb(1) show ?thesis by (auto simp: sold_def)
    qed
    show "next_id d \<le> next_id d'" by (fact t(2))
  qed (auto simp: live_def)
qed

lemma cancel_sold_once:
  assumes "cancel_booking c i dto now a d = Inr (r, d')" and inv: "sold_once d"
  shows "sold_once d'"
proof -
  from cancel_sale [OF assms(1)] obtain b f where t: "foreign c d' = foreign c d" "next_id d \<le> next_id d'"
    and b: "find_booking c i d = Some b"
    and bks: "bookings d' = update_rows (\<lambda>r. bk_companyId r = c \<and> bk_id r = i) f (bookings d)"
    and f: "\<And>b. bk_id (f b) = bk_id b \<and> bk_companyId (f b) = bk_companyId b \<and> bk_unitId (f b) = bk_unitId b"
    and ended: "\<And>b. bk_status (f b) = cancelled_status (xc_cancellationType dto)"
    and st: "\<And>k. k \<noteq> bk_unitId b \<Longrightarrow> unit_status_of c k d' = unit_status_of c k d"
    by (fastforce simp: tidy_def)
  have dead: "\<not> live (f x)" for x
    using ended [of x] by (cases "xc_cancellationType dto") (auto simp: live_def cancelled_status_def)
  have b': "b \<in> set (bookings d)" "bk_id b = i" "bk_companyId b = c" using found_booking [OF b] by auto
  have cancellable: "live b"
    using assms(1) b by (auto simp: cancel_booking_def Let_def CANCELLABLE_FROM_def live_def)
  have kept: "x \<in> set (bookings d) \<and> x \<noteq> b" if x: "x \<in> set (bookings d')" "live x" for x
    using live_kept [OF x(1) [unfolded bks] x(2) dead] b'(2,3) by auto
  show ?thesis
  proof (rule sold_once_sale [OF inv, where new = "[]" and f = f and c = c and i = i])
    show "bookings d' = update_rows (\<lambda>r. bk_companyId r = c \<and> bk_id r = i) f (bookings d) @ []" using bks by simp
    show "sold (bk_companyId x) (bk_unitId x) d'" if x: "x \<in> set (bookings d')" "live x" for x
    proof -
      have s: "sold (bk_companyId x) (bk_unitId x) d" using inv kept [OF x] x(2) by (auto simp: sold_once_def)
      have "\<not> same_unit x b"
        using kept [OF x] sold_once_live_unique [OF inv _ b'(1) x(2) cancellable] by blast
      then show ?thesis
        using s st sold_foreign [OF t(1)] b'(3) by (cases "bk_companyId x = c") (auto simp: sold_def same_unit_def)
    qed
    show "next_id d \<le> next_id d'" by (fact t(2))
  qed (use f dead in auto)
qed

lemma assignToBooking_sold_once:
  assumes "assignToBooking c i br d = Inr (b, d')" and inv: "sold_once d"
  shows "sold_once d' \<and> tidy c d d'"
proof -
  let ?f = "\<lambda>b. b\<lparr>bk_brokerId := Some br\<rparr>"
  have d': "d' = upd_booking c i ?f d" using assms(1) by (auto simp: assignToBooking_def Let_def)
  have u: "units d' = units d" by (simp add: d' upd_booking_def)
  have "sold_once d'"
  proof (rule sold_once_sale [OF inv, where new = "[]" and f = ?f and c = c and i = i])
    show "bookings d' = update_rows (\<lambda>r. bk_companyId r = c \<and> bk_id r = i) ?f (bookings d) @ []"
      by (simp add: d' upd_booking_def)
    show "sold (bk_companyId x) (bk_unitId x) d'" if x: "x \<in> set (bookings d')" "live x" for x
    proof -
      have "x \<in> set (update_rows (\<lambda>r. bk_companyId r = c \<and> bk_id r = i) ?f (bookings d))"
        using x(1) by (simp add: d' upd_booking_def)
      then obtain x0 where "x0 \<in> set (bookings d)" "x = x0 \<or> x = ?f x0" by (auto simp: update_rows_def)
      moreover from this have "live x0" "bk_companyId x0 = bk_companyId x" "bk_unitId x0 = bk_unitId x"
        using x(2) by (auto simp: live_def)
      ultimately have "sold (bk_companyId x) (bk_unitId x) d" using inv unfolding sold_once_def by metis
      then show ?thesis by (simp add: sold_cong [OF u])
    qed
  qed (auto simp: live_def d' upd_booking_def)
  then show ?thesis by (auto simp: d' intro: tidy_upd_booking)
qed

lemma user_transition_sold_once:
  assumes "transition c u t user ai r d = Inr (x, d')" and inv: "sold_once d"
  shows "sold_once d'"
proof -
  have tt: "foreign c d' = foreign c d" "next_id d \<le> next_id d'" using tidy_transition [OF assms(1)] by (auto simp: tidy_def)
  have bk: "bookings d' = bookings d" by (rule transition_bookings [OF assms(1)])
  obtain s where "unit_status_of c u d = Some s" "user_edge s t"
    using assms(1) by (auto simp: transition_Inr user_edge_def)
  then have "\<not> sold c u d" using user_edge_sources by (fastforce simp: sold_def)
  then have "sold k v d \<Longrightarrow> sold k v d'" for k v
    using transition_status [OF assms(1), of v] sold_foreign [OF tt(1)] by (cases "k = c") (auto simp: sold_def)
  then show ?thesis
    using inv tt(2) by (auto simp: sold_once_def bk booking_ids_ok_def list_all_iff intro: less_le_trans)
qed

section \<open>The transition system\<close>

text \<open>
  One constructor per operation of the modelled services; a call of a user on a unit's
  status goes through the unit machine as that user. A run of the system is any sequence of
  steps of any companies.
\<close>

inductive sale :: "id \<Rightarrow> db \<Rightarrow> db \<Rightarrow> bool" where
  book: "createBooking c dto a d = Inr (r, d') \<Longrightarrow> sale c d d'"
| advance: "advance c i to date a d = Inr (x, y, d') \<Longrightarrow> sale c d d'"
| transfer: "transfer_booking c i dto now a d = Inr (r, d') \<Longrightarrow> sale c d d'"
| cancel: "cancel_with_broker c i dto now a d = Inr (r, d') \<Longrightarrow> sale c d d'"
| assign: "assignToBooking c i br d = Inr (r, d') \<Longrightarrow> sale c d d'"
| move_unit: "transition c u t user ai rs d = Inr (r, d') \<Longrightarrow> sale c d d'"

inductive step :: "id \<Rightarrow> db \<Rightarrow> db \<Rightarrow> bool" where
  sale: "sale c d d' \<Longrightarrow> step c d d'"
| createReceipt: "createReceipt c dto a d = Inr (r, d') \<Longrightarrow> step c d d'"
| recordChequeEvent: "recordChequeEvent c i dto a d = Inr (r, d') \<Longrightarrow> step c d d'"
| reverseReceipt: "reverseReceipt c i rs a d = Inr (r, d') \<Longrightarrow> step c d d'"
| recordTdsCertificate: "recordTdsCertificate c i dto a d = Inr (r, d') \<Longrightarrow> step c d d'"
| markReprint: "markReprint c i d = Inr (r, d') \<Longrightarrow> step c d d'"
| accrueForBooking: "accrueForBooking c i t d = Inr (r, d') \<Longrightarrow> step c d d'"
| waiveInterest: "waiveInterest c i dto now a d = Inr (r, d') \<Longrightarrow> step c d d'"
| addExtraCharge: "addExtraCharge c i dto now a d = Inr (r, d') \<Longrightarrow> step c d d'"
| request_refund: "request_refund c i dto a d = Inr (r, d') \<Longrightarrow> step c d d'"
| approve_refund: "approve_refund c i now a d = Inr (r, d') \<Longrightarrow> step c d d'"
| pay_refund: "pay_refund c i dto a d = Inr (r, d') \<Longrightarrow> step c d d'"
| voucherBounced: "voucherBounced c i now a d = Inr (r, d') \<Longrightarrow> step c d d'"
| instantiateFromTemplate: "instantiateFromTemplate c b t a d = Inr (r, d') \<Longrightarrow> step c d d'"
| createCustomPlan: "createCustomPlan c b dto a d = Inr (r, d') \<Longrightarrow> step c d d'"
| editPlan: "editPlan c b ins d = Inr (r, d') \<Longrightarrow> step c d d'"
| raiseStage: "raiseStage c p dto a d = Inr (r, d') \<Longrightarrow> step c d d'"
| create_broker: "create_broker enc c dto d = Inr (r, d') \<Longrightarrow> step c d d'"
| update_broker: "update_broker enc c i dto d = Inr (r, d') \<Longrightarrow> step c d d'"
| set_broker_active: "set_broker_active c i act st d = Inr (r, d') \<Longrightarrow> step c d d'"
| addBankDetail: "addBankDetail c b dto d = Inr (r, d') \<Longrightarrow> step c d d'"
| create_rule: "create_rule c dto d = Inr (r, d') \<Longrightarrow> step c d d'"
| update_rule: "update_rule c i dto d = Inr (r, d') \<Longrightarrow> step c d d'"
| deactivate_rule: "deactivate_rule c i d = Inr (r, d') \<Longrightarrow> step c d d'"
| request_payment: "request_payment c dto a d = Inr (r, d') \<Longrightarrow> step c d d'"
| approve_payment: "approve_payment c i now a d = Inr (r, d') \<Longrightarrow> step c d d'"
| reject_payment: "reject_payment c i now a d = Inr (r, d') \<Longrightarrow> step c d d'"
| pay_payment: "pay_payment c i dto a d = Inr (r, d') \<Longrightarrow> step c d d'"
| request_noc: "request_noc c i rs a d = Inr (r, d') \<Longrightarrow> step c d d'"
| approve_noc: "approve_noc c i now a d = Inr (r, d') \<Longrightarrow> step c d d'"
| reject_noc: "reject_noc c i rs now a d = Inr (r, d') \<Longrightarrow> step c d d'"
| accrueCommission: "accrueCommission c i now a d = (r, d') \<Longrightarrow> step c d d'"

inductive_cases saleE: "sale c d d'"

lemma step_sale_or_keeps: "step c d d' \<Longrightarrow> sale c d d' \<or> keeps c d d'"
  by (induction rule: step.induct) (auto intro: frame_ops)

inductive reaches :: "db \<Rightarrow> db \<Rightarrow> bool" where
  start [simp, intro]: "reaches d d"
| next_step: "reaches d e \<Longrightarrow> step c e d' \<Longrightarrow> reaches d d'"

lemma reaches_step: "step c d d' \<Longrightarrow> reaches d d'"
  by (rule next_step [OF start])

lemma reaches_trans: "reaches e f \<Longrightarrow> reaches d e \<Longrightarrow> reaches d f"
  by (induction rule: reaches.induct) (auto intro: next_step)

lemma sale_tidy: "sale c d d' \<Longrightarrow> tidy c d d'"
  by (erule saleE) (auto intro: tidy.rel_all_sales)

lemma sale_sold_once: "sale c d d' \<Longrightarrow> sold_once d \<Longrightarrow> sold_once d'"
proof (erule saleE)
  fix i br r
  assume "assignToBooking c i br d = Inr (r, d')" "sold_once d"
  then show ?thesis using assignToBooking_sold_once by blast
next
  fix i dto now a r
  assume "cancel_with_broker c i dto now a d = Inr (r, d')" "sold_once d"
  then show ?thesis by (meson cancel_with_broker_sale cancel_sold_once sold_once_keeps)
next
  fix i dto now a r
  assume "transfer_booking c i dto now a d = Inr (r, d')" "sold_once d"
  then show ?thesis using transfer_sold_once by (metis surj_pair)
qed (auto dest: createBooking_sold_once advance_sold_once user_transition_sold_once)

lemma step_tidy: "step c d d' \<Longrightarrow> tidy c d d'"
  using step_sale_or_keeps sale_tidy keeps_tidy by blast

lemma step_sold_once: "step c d d' \<Longrightarrow> sold_once d \<Longrightarrow> sold_once d'"
  using step_sale_or_keeps sale_sold_once sold_once_keeps by blast

lemma reaches_sold_once: "reaches d d' \<Longrightarrow> sold_once d \<Longrightarrow> sold_once d'"
  by (induction rule: reaches.induct) (auto intro: step_sold_once)

section \<open>The allocation cache in every run\<close>

lemma sale_quiet: "sale c d d' \<Longrightarrow> quiet c d d'"
  by (erule saleE) (auto intro: quiet.rel_all_sales)

lemma step_books_agree: "step c d d' \<Longrightarrow> books_agree d \<Longrightarrow> books_agree d'"
  by (induction rule: step.induct)
    (auto dest: agree_createReceipt agree_recordChequeEvent agree_reverseReceipt agree_instantiateFromTemplate
      agree_createCustomPlan agree_editPlan agree_quiet [OF sale_quiet] quiet.rel_plain_ops [THEN agree_quiet])

lemma reaches_books_agree: "reaches d d' \<Longrightarrow> books_agree d \<Longrightarrow> books_agree d'"
  by (induction rule: reaches.induct) (auto intro: step_books_agree)

section \<open>The receipt numbers in every run\<close>

lemma sale_steady: "sale c d d' \<Longrightarrow> steady c d d'"
  by (erule saleE) (auto intro: steady_sale.rel_all_sales)

lemma step_numbered: "step c d d' \<Longrightarrow> numbered d \<Longrightarrow> numbered d'"
  by (induction rule: step.induct)
    (auto dest: numbered_createReceipt numbered_steady [OF sale_steady] steady.rel_plain_ops [THEN numbered_steady]
      steady.rel_money_ops [THEN numbered_steady])

lemma reaches_numbered: "reaches d d' \<Longrightarrow> numbered d \<Longrightarrow> numbered d'"
  by (induction rule: reaches.induct) (auto intro: step_numbered)

section \<open>Properties of every run\<close>

text \<open>
  C4: Every operation of a company leaves the rows of every other company as they were,
  and only appends to the customers' ledger and to the commission ledger.
\<close>

theorem step_isolated_append_only:
  "step c d d' \<Longrightarrow> foreign c d' = foreign c d \<and> (\<exists>new. ledger d' = ledger d @ new) \<and>
     (\<exists>new. commissionLedger d' = commissionLedger d @ new)"
  using step_tidy by (simp add: tidy_def)

theorem step_isolated_append_only_witness:
  "\<exists>b d'. createBooking 1 demo_booking_dto (Some 99) demo_db = Inr (b, d') \<and> foreign 1 d' = foreign 1 demo_db \<and>
     (\<exists>new. ledger d' = ledger demo_db @ new)"
proof -
  obtain b d' where r: "createBooking 1 demo_booking_dto (Some 99) demo_db = Inr (b, d')"
    using not_isl_Inr [OF demo_booking_succeeds] by auto
  from step_isolated_append_only [OF step.sale [OF sale.book [OF r]]] r show ?thesis by blast
qed

text \<open>
  C1: No unit is ever sold twice. In every database the services reach, whatever the
  order of bookings, allotments, registrations, transfers, cancellations and status changes
  by users, two live bookings are never for the same unit, and the unit of a live booking
  is in a sold status.
\<close>

theorem never_sold_twice:
  assumes "reaches d d'" and "sold_once d"
    and "b \<in> set (bookings d')" and "live b" and "b' \<in> set (bookings d')" and "live b'"
  shows "sold (bk_companyId b) (bk_unitId b) d' \<and> (same_unit b b' \<longrightarrow> b = b')"
  using reaches_sold_once [OF assms(1,2)] assms(3-6) sold_once_live_unique [of d' b b']
  by (auto simp: sold_once_def)

lemma demo_db_sold_once: "sold_once demo_db"
  by (simp add: sold_once_def demo_db_def empty_db_def booking_ids_ok_def)

theorem never_sold_twice_witness:
  "\<exists>b d'. createBooking 1 demo_booking_dto (Some 99) demo_db = Inr (b, d') \<and> b \<in> set (bookings d') \<and>
     sold 1 (bk_unitId b) d'"
proof -
  obtain b d' where r: "createBooking 1 demo_booking_dto (Some 99) demo_db = Inr (b, d')"
    using not_isl_Inr [OF demo_booking_succeeds] by auto
  have b: "b \<in> set (bookings d')" "live b" "bk_companyId b = 1"
    using createBooking_sale [OF r] by (simp_all add: live_def)
  from never_sold_twice [OF reaches_step [OF step.sale [OF sale.book [OF r]]] demo_db_sold_once b(1,2,1,2)] r b
  show ?thesis by auto
qed

text \<open>
  C2: The allocation cache never drifts from the ledger. After any sequence of operations,
  the paise an installment caches as allocated is what the ledger's allocations and
  reversals for that installment sum to.
\<close>

theorem allocation_cache_is_ledger:
  assumes "reaches d d'" and "books_agree d" and "r \<in> set (installments d')"
  shows "in_allocatedPaise r = cash_of (in_companyId r) (in_id r) d'"
  using reaches_books_agree [OF assms(1,2)] assms(3) by (simp add: agree_upto_def)

lemma demo_sold_books_agree: "books_agree demo_sold"
  by (simp add: agree_upto_def demo_sold_def demo_db_def empty_db_def cash_of_def demo_installment_def
      demo_entry_def moves_row_def)

theorem allocation_cache_is_ledger_witness:
  "\<exists>r d'. createReceipt 1 demo_receipt_dto None demo_sold = Inr (r, d') \<and>
     (\<forall>i\<in>set (installments d'). in_allocatedPaise i = cash_of (in_companyId i) (in_id i) d')"
proof -
  obtain r d' where r: "createReceipt 1 demo_receipt_dto None demo_sold = Inr (r, d')"
    using demo_receipt_succeeds by blast
  from allocation_cache_is_ledger [OF reaches_step [OF step.createReceipt [OF r]] demo_sold_books_agree] r
  show ?thesis by blast
qed

text \<open>
  C3: Receipt numbers are gap-free and unique. After any sequence of operations of any
  companies, failed ones included, the receipts of a company's financial year bear the
  numbers 1, 2, 3 and so on in the order they were created, and no two receipts of a
  company print the same number.
\<close>

theorem receipts_gap_free:
  assumes "reaches d d'" and "numbered d"
  shows "year_numbers c fy d' = [1..<upcoming_number c (''RECEIPT'', fy) d'] \<and>
    (\<forall>r\<in>set (receipts d'). \<forall>r'\<in>set (receipts d').
       rc_companyId r = rc_companyId r' \<and> rc_receiptNumber r = rc_receiptNumber r' \<longrightarrow> r = r')"
proof -
  have ok: "numbered d'" by (rule reaches_numbered [OF assms])
  have "r = r'" if "r \<in> set (receipts d')" "r' \<in> set (receipts d')" "rc_companyId r = rc_companyId r'"
    "rc_receiptNumber r = rc_receiptNumber r'" for r r'
    using numbered_unique [OF ok that] distinct_year_numbers [OF ok, of "rc_companyId r" "rc_fyLabel r"] that
    by (auto simp: year_numbers_def distinct_map inj_on_def)
  with ok show ?thesis by (auto simp: numbered_def)
qed

lemma demo_sold_numbered: "numbered demo_sold"
  by (simp add: numbered_def year_numbers_def upcoming_number_def demo_sold_def demo_db_def empty_db_def)

theorem receipts_gap_free_witness:
  "\<exists>r d'. createReceipt 1 demo_receipt_dto None demo_sold = Inr (r, d') \<and>
     year_numbers 1 (rc_fyLabel r) d' = [1..<upcoming_number 1 (''RECEIPT'', rc_fyLabel r) d']"
proof -
  obtain r d' where r: "createReceipt 1 demo_receipt_dto None demo_sold = Inr (r, d')"
    using demo_receipt_succeeds by blast
  from receipts_gap_free [OF reaches_step [OF step.createReceipt [OF r]] demo_sold_numbered] r
  show ?thesis by blast
qed

end
