(* ===== verification/Tenant.thy ===== *)
theory Tenant
  imports Text "HOL-Library.AList"
begin

text \<open>
  \<open>packages/db/src/tenant-context.ts\<close> and \<open>tenant.extension.ts\<close>: the tenant
  and portal scope of a request (an \<open>AsyncLocalStorage\<close> store), the Prisma extension that
  writes the company and the portal scope into every query, and the transaction wrapper that
  tells PostgreSQL both. The ambient stores are explicit arguments.
\<close>

section \<open>The ambient stores\<close>

record tenant_store =
  ts_companyId :: string
  ts_userId :: "string option"
  ts_ipAddress :: "string option"
  ts_portalApplicantId :: "string option"
  ts_portalBrokerId :: "string option"

text \<open>The session variables a transaction sets, as \<open>set_config\<close> stores them.\<close>

record session_vars =
  sv_company :: string
  sv_portalApplicant :: string
  sv_portalBroker :: string

record tenant_tx_store =
  tt_vars :: session_vars
  tt_companyId :: string

record ambient =
  am_tenant :: "tenant_store option"
  am_tx :: "tenant_tx_store option"

text \<open>A bare \<open>{ companyId }\<close>.\<close>

definition bare_store :: "string \<Rightarrow> tenant_store" where
  "bare_store companyId =
     \<lparr>ts_companyId = companyId, ts_userId = None, ts_ipAddress = None, ts_portalApplicantId = None,
      ts_portalBrokerId = None\<rparr>"

text \<open>JavaScript's truth of an optional string, and \<open>??\<close>.\<close>

definition truthy :: "string option \<Rightarrow> bool" where
  "truthy s \<longleftrightarrow> s \<noteq> None \<and> s \<noteq> Some []"

definition coalesce :: "'a option \<Rightarrow> 'a option \<Rightarrow> 'a option" where
  "coalesce x y = (case x of None \<Rightarrow> y | Some v \<Rightarrow> Some v)"

definition getCurrentCompanyId :: "ambient \<Rightarrow> string option" where
  "getCurrentCompanyId am = map_option ts_companyId (am_tenant am)"

definition getCurrentUserId :: "ambient \<Rightarrow> string option" where
  "getCurrentUserId am = Option.bind (am_tenant am) ts_userId"

definition getCurrentIpAddress :: "ambient \<Rightarrow> string option" where
  "getCurrentIpAddress am = Option.bind (am_tenant am) ts_ipAddress"

definition getCurrentPortalApplicantId :: "ambient \<Rightarrow> string option" where
  "getCurrentPortalApplicantId am = Option.bind (am_tenant am) ts_portalApplicantId"

definition getCurrentPortalBrokerId :: "ambient \<Rightarrow> string option" where
  "getCurrentPortalBrokerId am = Option.bind (am_tenant am) ts_portalBrokerId"

definition widens :: "tenant_store \<Rightarrow> tenant_store \<Rightarrow> bool" where
  "widens existing store \<longleftrightarrow>
     ts_companyId existing = ts_companyId store \<and>
     (truthy (ts_portalApplicantId existing) \<or> truthy (ts_portalBrokerId existing)) \<and>
     (ts_portalApplicantId existing \<noteq> ts_portalApplicantId store \<or>
      ts_portalBrokerId existing \<noteq> ts_portalBrokerId store)"

definition effective_store :: "tenant_store option \<Rightarrow> tenant_store \<Rightarrow> tenant_store" where
  "effective_store existing store =
     (case existing of
        None \<Rightarrow> store
      | Some e \<Rightarrow>
          if ts_companyId e = ts_companyId store
          then store\<lparr>ts_userId := coalesce (ts_userId store) (ts_userId e),
                     ts_ipAddress := coalesce (ts_ipAddress store) (ts_ipAddress e)\<rparr>
          else store)"

definition runWithTenant :: "tenant_store \<Rightarrow> (ambient \<Rightarrow> 'a result) \<Rightarrow> ambient \<Rightarrow> 'a result" where
  "runWithTenant store fn am =
     (case am_tenant am of
        Some existing \<Rightarrow>
          if widens existing store
          then Inl (JsError ''runWithTenant: refusing to widen an active portal scope'')
          else fn (am\<lparr>am_tenant := Some (effective_store (Some existing) store)\<rparr>)
      | None \<Rightarrow> fn (am\<lparr>am_tenant := Some (effective_store None store)\<rparr>))"

definition runScoped :: "string \<Rightarrow> (ambient \<Rightarrow> 'a result) \<Rightarrow> ambient \<Rightarrow> 'a result" where
  "runScoped companyId fn am =
     (if getCurrentCompanyId am = Some companyId then fn am
      else runWithTenant (bare_store companyId) fn am)"

text \<open>\<open>enterWith\<close> replaces the store for the rest of the request, unconditionally.\<close>

definition enterTenantContext :: "tenant_store \<Rightarrow> ambient \<Rightarrow> ambient" where
  "enterTenantContext store am = am\<lparr>am_tenant := Some store\<rparr>"

section \<open>The transaction wrapper\<close>

text \<open>\<open>/^[0-9a-f]{8}-[0-9a-f]{4}-[0-9a-f]{4}-[0-9a-f]{4}-[0-9a-f]{12}$/i\<close>\<close>

definition is_hex :: "char \<Rightarrow> bool" where
  "is_hex c \<longleftrightarrow> is_digit c \<or>
     (let n = of_char c :: nat in (97 \<le> n \<and> n \<le> 102) \<or> (65 \<le> n \<and> n \<le> 70))"

definition UUID_RE :: "string \<Rightarrow> bool" where
  "UUID_RE s \<longleftrightarrow> length s = 36 \<and>
     list_all (\<lambda>(i, c). if i \<in> {8, 13, 18, 23} then c = CHR ''-'' else is_hex c) (List.enumerate 0 s)"

definition or_empty :: "string option \<Rightarrow> string" where
  "or_empty s = (case s of None \<Rightarrow> [] | Some v \<Rightarrow> v)"

definition setTenantOnTx :: "string \<Rightarrow> string option \<Rightarrow> string option \<Rightarrow> session_vars result" where
  "setTenantOnTx companyId portalApplicantId portalBrokerId =
     bindE (ensure (UUID_RE companyId) (JsError ''Invalid company ID format'')) (\<lambda>_.
       Inr \<lparr>sv_company = companyId, sv_portalApplicant = or_empty portalApplicantId,
            sv_portalBroker = or_empty portalBrokerId\<rparr>)"

text \<open>
  The callback runs in the transaction; here it is given the ambient stores, the
  transaction's among them.
\<close>

definition withTenantTx :: "string \<Rightarrow> (ambient \<Rightarrow> 'a result) \<Rightarrow> ambient \<Rightarrow> 'a result" where
  "withTenantTx companyId fn am =
     bindE (ensure (UUID_RE companyId) (JsError ''Invalid company ID format'')) (\<lambda>_.
     case am_tx am of
       Some existing \<Rightarrow>
         if tt_companyId existing \<noteq> companyId
         then Inl (JsError ''Cannot nest withTenantTx with different company IDs'')
         else fn am
     | None \<Rightarrow>
         bindE (setTenantOnTx companyId (getCurrentPortalApplicantId am) (getCurrentPortalBrokerId am)) (\<lambda>vars.
           fn (am\<lparr>am_tx := Some \<lparr>tt_vars = vars, tt_companyId = companyId\<rparr>\<rparr>)))"

section \<open>Queries\<close>

text \<open>
  A row is its columns. A \<open>where\<close> object is a list of properties in which writing a
  property again replaces it, as spreading does. A property is an equality, a nested object
  or a list of them (under \<open>AND\<close>, \<open>OR\<close>, \<open>NOT\<close>), or any other filter
  Prisma offers on a column or a relation, which is a predicate on the row.
\<close>

type_synonym row = "string \<Rightarrow> string option"

datatype cond =
    Is "string option"
  | Filter "row \<Rightarrow> bool"
  | Single "(string \<times> cond) list"
  | Several "(string \<times> cond) list list"

type_synonym where_object = "(string \<times> cond) list"

text \<open>Prisma's documented reading of a \<open>where\<close>.\<close>

fun cond_holds :: "row \<Rightarrow> string \<Rightarrow> cond \<Rightarrow> bool" where
  "cond_holds r k (Is v) \<longleftrightarrow> r k = v"
| "cond_holds r k (Filter p) \<longleftrightarrow> p r"
| "cond_holds r k (Single w) \<longleftrightarrow> (list_all (\<lambda>kc. cond_holds r (fst kc) (snd kc)) w) \<noteq> (k = ''NOT'')"
| "cond_holds r k (Several ws) \<longleftrightarrow>
     (if k = ''OR'' then list_ex (\<lambda>w. list_all (\<lambda>kc. cond_holds r (fst kc) (snd kc)) w) ws
      else if k = ''NOT'' then list_all (\<lambda>w. \<not> list_all (\<lambda>kc. cond_holds r (fst kc) (snd kc)) w) ws
      else list_all (\<lambda>w. list_all (\<lambda>kc. cond_holds r (fst kc) (snd kc)) w) ws)"

definition selects :: "where_object \<Rightarrow> row \<Rightarrow> bool" where
  "selects w r \<longleftrightarrow> list_all (\<lambda>kc. cond_holds r (fst kc) (snd kc)) w"

type_synonym fields = "(string \<times> string option) list"

datatype data = DataOne fields | DataMany "fields list"

record query_args =
  qa_where :: "where_object option"
  qa_data :: "data option"
  qa_create :: "fields option"

text \<open>\<open>{ ...o, k: v }\<close>, where spreading \<open>undefined\<close> adds nothing.\<close>

definition spread :: "(string \<times> 'v) list option \<Rightarrow> string \<Rightarrow> 'v \<Rightarrow> (string \<times> 'v) list" where
  "spread obj k v = AList.update k v (case obj of None \<Rightarrow> [] | Some kvs \<Rightarrow> kvs)"

section \<open>The extension\<close>

definition TENANT_SCOPED_MODELS :: "string list" where
  "TENANT_SCOPED_MODELS =
     [''User'', ''Role'', ''AuditLog'', ''CustomFieldDefinition'', ''CompanyConfig'', ''InquirySource'',
      ''InquiryType'', ''FollowUpType'', ''CommunicationType'', ''AreaLocation'', ''ProjectType'',
      ''DocumentType'', ''LetterTemplate'', ''Bank'', ''ReceiptType'', ''RegistrationType'',
      ''ChargeType'', ''GstRate'', ''TdsRule'', ''InterestRule'', ''TransferFeeRule'',
      ''PaymentPlanTemplate'', ''UnitType'', ''PlcType'', ''Project'', ''Tower'', ''Floor'',
      ''InventoryGroup'', ''StageRaise'', ''Unit'', ''UnitPlc'', ''UnitCharge'', ''UnitRateRevision'',
      ''UnitStatusChange'', ''Applicant'', ''ApplicantConsent'', ''ApplicantMerge'',
      ''ApplicantDistinctPair'', ''InquiryTemperature'', ''Inquiry'', ''InquiryAssignment'',
      ''ProjectAssignmentPool'', ''FollowUp'', ''SmsTemplate'', ''CommunicationLog'',
      ''ApplicantAddress'', ''ApplicantDocument'', ''CancellationRule'', ''Booking'',
      ''BookingCoApplicant'', ''BookingCostLine'', ''PaymentPlan'', ''Installment'', ''LedgerEntry'',
      ''Receipt'', ''ReceiptAllocation'', ''ChequeStatusEvent'', ''NumberSequence'', ''Transfer'',
      ''Cancellation'', ''Refund'', ''PaymentVoucher'', ''ExtraCharge'', ''TdsDeduction'',
      ''TdsCertificate'', ''InterestAccrual'', ''PaymentPlanMilestone'', ''GeneratedDocument'',
      ''DocumentDispatch'', ''BookingDraft'', ''Broker'', ''BrokerBankDetail'',
      ''BrokerCommissionRule'', ''BrokerCommissionSlab'', ''BrokerBookingCommission'',
      ''CommissionLedgerEntry'', ''CommissionPayment'', ''BrokerNoc'', ''PortalInvite'',
      ''PortalPasswordReset'', ''ApplicantChangeRequest'', ''TicketCategory'', ''Ticket'',
      ''TicketMessage'', ''ConstructionUpdate'', ''ConstructionUpdateMedia'', ''ProjectMedia'',
      ''PluginInstallation'', ''WebhookEndpoint'', ''WebhookDelivery'', ''WebhookDeliveryAttempt'',
      ''LeadSourceApiKey'', ''LeadStage'', ''InquiryStageHistory'']"

definition READ_OPS :: "string list" where
  "READ_OPS = [''findMany'', ''findFirst'', ''findUnique'', ''findFirstOrThrow'', ''findUniqueOrThrow'',
     ''count'', ''aggregate'', ''groupBy'']"

definition WRITE_FILTER_OPS :: "string list" where
  "WRITE_FILTER_OPS = [''update'', ''updateMany'', ''delete'', ''deleteMany'']"

definition injectCompanyId :: "string \<Rightarrow> string \<Rightarrow> query_args \<Rightarrow> query_args" where
  "injectCompanyId operation companyId args =
     (let a1 = (if operation \<in> set READ_OPS \<or> operation \<in> set WRITE_FILTER_OPS
                then args\<lparr>qa_where := Some (spread (qa_where args) ''companyId'' (Is (Some companyId)))\<rparr>
                else args);
          a2 = (if operation = ''create''
                then a1\<lparr>qa_data := Some (DataOne (spread
                       (case qa_data a1 of Some (DataOne o1) \<Rightarrow> Some o1 | _ \<Rightarrow> None)
                       ''companyId'' (Some companyId)))\<rparr>
                else a1);
          a3 = (if operation = ''createMany''
                then a2\<lparr>qa_data := Some (case qa_data a2 of
                       Some (DataMany ds) \<Rightarrow> DataMany (map (\<lambda>d. spread (Some d) ''companyId'' (Some companyId)) ds)
                     | Some (DataOne o1) \<Rightarrow> DataOne (spread (Some o1) ''companyId'' (Some companyId))
                     | None \<Rightarrow> DataOne (spread None ''companyId'' (Some companyId)))\<rparr>
                else a2)
      in if operation = ''upsert''
         then a3\<lparr>qa_where := Some (spread (qa_where a3) ''companyId'' (Is (Some companyId))),
                 qa_create := Some (spread (qa_create a3) ''companyId'' (Some companyId))\<rparr>
         else a3)"

record portal_config =
  pc_applicantField :: "string option"
  pc_brokerField :: "string option"
  pc_brokerIsSelf :: bool

definition PORTAL_SCOPED_MODELS :: "string \<Rightarrow> portal_config option" where
  "PORTAL_SCOPED_MODELS = map_of
     [(''CommissionLedgerEntry'', \<lparr>pc_applicantField = None, pc_brokerField = Some ''brokerId'', pc_brokerIsSelf = False\<rparr>),
      (''CommissionPayment'', \<lparr>pc_applicantField = None, pc_brokerField = Some ''brokerId'', pc_brokerIsSelf = False\<rparr>),
      (''BrokerNoc'', \<lparr>pc_applicantField = None, pc_brokerField = Some ''brokerId'', pc_brokerIsSelf = False\<rparr>),
      (''Broker'', \<lparr>pc_applicantField = None, pc_brokerField = None, pc_brokerIsSelf = True\<rparr>),
      (''ApplicantChangeRequest'', \<lparr>pc_applicantField = Some ''applicantId'', pc_brokerField = None, pc_brokerIsSelf = False\<rparr>),
      (''Ticket'', \<lparr>pc_applicantField = Some ''applicantId'', pc_brokerField = Some ''brokerId'', pc_brokerIsSelf = False\<rparr>)]"

definition scope_clauses :: "portal_config \<Rightarrow> string option \<Rightarrow> string option \<Rightarrow> where_object list" where
  "scope_clauses cfg portalApplicantId portalBrokerId =
     (case pc_applicantField cfg of
        Some f \<Rightarrow> if truthy portalApplicantId then [[(f, Is portalApplicantId)]] else []
      | None \<Rightarrow> []) @
     (case pc_brokerField cfg of
        Some f \<Rightarrow> if truthy portalBrokerId then [[(f, Is portalBrokerId)]] else []
      | None \<Rightarrow> []) @
     (if truthy portalBrokerId \<and> pc_brokerIsSelf cfg then [[(''id'', Is portalBrokerId)]] else [])"

text \<open>
  \<open>existingWhere.AND\<close> as a list: a list as it is, any other value in a list of its own.
\<close>

definition existing_and :: "where_object \<Rightarrow> where_object list" where
  "existing_and w =
     (case map_of w ''AND'' of
        None \<Rightarrow> []
      | Some (Several ws) \<Rightarrow> ws
      | Some (Single w') \<Rightarrow> [w']
      | Some c \<Rightarrow> [[(''AND'', c)]])"

definition injectPortalScope :: "string \<Rightarrow> string \<Rightarrow> ambient \<Rightarrow> query_args \<Rightarrow> query_args" where
  "injectPortalScope model operation am args =
     (if \<not> (operation \<in> set READ_OPS \<or> operation \<in> set WRITE_FILTER_OPS) then args
      else case PORTAL_SCOPED_MODELS model of
        None \<Rightarrow> args
      | Some cfg \<Rightarrow>
          let a = getCurrentPortalApplicantId am; b = getCurrentPortalBrokerId am in
          if \<not> truthy a \<and> \<not> truthy b then args
          else let clauses = scope_clauses cfg a b in
            if clauses = [] then args
            else let w = (case qa_where args of None \<Rightarrow> [] | Some w \<Rightarrow> w) in
              args\<lparr>qa_where := Some (spread (Some w) ''AND''
                     (Several (existing_and w @ [[(''OR'', Several clauses)]])))\<rparr>)"

text \<open>What reaches the database: the rewritten arguments, or the error thrown.\<close>

definition tenantExtension :: "string \<Rightarrow> string \<Rightarrow> ambient \<Rightarrow> query_args \<Rightarrow> query_args result" where
  "tenantExtension model operation am args =
     (if model \<notin> set TENANT_SCOPED_MODELS then Inr args
      else case getCurrentCompanyId am of
        None \<Rightarrow> Inl (JsError ''Tenant context required'')
      | Some companyId \<Rightarrow>
          if companyId = [] then Inl (JsError ''Tenant context required'')
          else bindE (ensure (UUID_RE companyId) (JsError ''Invalid company ID format'')) (\<lambda>_.
            Inr (injectPortalScope model operation am (injectCompanyId operation companyId args))))"

lemma tenantExtension_unscoped: "model \<notin> set TENANT_SCOPED_MODELS \<Longrightarrow> tenantExtension model op am args = Inr args"
  by (simp add: tenantExtension_def)

lemma tenantExtension_scoped:
  "model \<in> set TENANT_SCOPED_MODELS \<Longrightarrow> tenantExtension model op am args = Inr args' \<Longrightarrow>
   \<exists>c. getCurrentCompanyId am = Some c \<and> UUID_RE c \<and>
     args' = injectPortalScope model op am (injectCompanyId op c args)"
  by (auto simp: tenantExtension_def split: option.splits if_splits)

section \<open>Writing a property of an object\<close>

lemma update_mem [simp]: "(k, v) \<in> set (AList.update k v al)"
  by (induction al) auto

lemma update_other_mem: "k \<noteq> k' \<Longrightarrow> (k, v) \<in> set al \<Longrightarrow> (k, v) \<in> set (AList.update k' v' al)"
  by (induction al) auto

lemma selects_property: "selects w r \<Longrightarrow> (k, c) \<in> set w \<Longrightarrow> cond_holds r k c"
  by (auto simp: selects_def list_all_iff)

lemma selects_Nil [simp]: "selects [] r"
  by (simp add: selects_def)

lemma selects_Cons [simp]: "selects ((k, c) # w) r \<longleftrightarrow> cond_holds r k c \<and> selects w r"
  by (simp add: selects_def)

lemma selects_update:
  "distinct (map fst w) \<Longrightarrow>
   selects (AList.update k c w) r \<longleftrightarrow> cond_holds r k c \<and> selects (AList.delete k w) r"
proof (induction w)
  case (Cons x w)
  have "AList.delete k w = w" if "fst x = k"
    using Cons.prems that by (auto simp: delete_conv intro!: filter_True)
  with Cons show ?case by (cases x) auto
qed simp

text \<open>A property of an object is a conjunct of what it selects.\<close>

lemma selects_split:
  "distinct (map fst w) \<Longrightarrow> map_of w k = Some c \<Longrightarrow>
   selects w r \<longleftrightarrow> cond_holds r k c \<and> selects (AList.delete k w) r"
proof (induction w)
  case (Cons x w)
  have "AList.delete k w = w" if "fst x = k"
    using Cons.prems that by (auto simp: delete_conv intro!: filter_True)
  with Cons show ?case by (cases x) (auto split: if_splits)
qed simp

lemma delete_absent: "map_of w k = None \<Longrightarrow> AList.delete k w = w"
  by (auto simp: map_of_eq_None_iff delete_conv intro!: filter_True)

lemma cond_holds_OR: "cond_holds r ''OR'' (Several ws) \<longleftrightarrow> (\<exists>w\<in>set ws. selects w r)"
  by (simp add: selects_def list_ex_iff)

lemma cond_holds_AND: "cond_holds r ''AND'' (Several ws) \<longleftrightarrow> (\<forall>w\<in>set ws. selects w r)"
  by (simp add: selects_def list_all_iff)

lemma cond_holds_AND_Single: "cond_holds r ''AND'' (Single w) \<longleftrightarrow> selects w r"
  by (simp add: selects_def)

declare cond_holds.simps(3,4) [simp del]

text \<open>The list a caller's \<open>AND\<close> is read as selects what the \<open>AND\<close> selects.\<close>

lemma existing_and_selects:
  "distinct (map fst w) \<Longrightarrow>
   (\<forall>v\<in>set (existing_and w). selects v r) \<and> selects (AList.delete ''AND'' w) r \<longleftrightarrow> selects w r"
proof (cases "map_of w ''AND''")
  case None
  then show ?thesis by (simp add: existing_and_def delete_absent)
next
  case (Some c)
  assume "distinct (map fst w)"
  from selects_split [OF this Some] show ?thesis
    by (cases c) (auto simp: existing_and_def Some cond_holds_AND cond_holds_AND_Single)
qed

section \<open>Isolation\<close>

definition in_portal_scope :: "string \<Rightarrow> ambient \<Rightarrow> row \<Rightarrow> bool" where
  "in_portal_scope model am r \<longleftrightarrow>
     (case PORTAL_SCOPED_MODELS model of
        None \<Rightarrow> True
      | Some cfg \<Rightarrow>
          let clauses = scope_clauses cfg (getCurrentPortalApplicantId am) (getCurrentPortalBrokerId am)
          in clauses = [] \<or> (\<exists>c\<in>set clauses. selects c r))"

lemma scope_clauses_none:
  "\<not> truthy a \<Longrightarrow> \<not> truthy b \<Longrightarrow> scope_clauses cfg a b = []"
  by (simp add: scope_clauses_def split: option.splits)

lemma injectPortalScope_selects:
  assumes op: "operation \<in> set READ_OPS \<or> operation \<in> set WRITE_FILTER_OPS"
    and w: "qa_where args = Some w" "distinct (map fst w)"
  shows "\<exists>w'. qa_where (injectPortalScope model operation am args) = Some w' \<and>
    (\<forall>r. selects w' r \<longleftrightarrow> selects w r \<and> in_portal_scope model am r)"
proof -
  let ?cl = "\<lambda>cfg. scope_clauses cfg (getCurrentPortalApplicantId am) (getCurrentPortalBrokerId am)"
  have sel: "selects (spread (Some w) ''AND'' (Several (existing_and w @ [[(''OR'', Several cl)]]))) r \<longleftrightarrow>
      selects w r \<and> (\<exists>c\<in>set cl. selects c r)" for r cl
    using existing_and_selects [OF w(2), of r]
    by (auto simp: spread_def selects_update [OF w(2)] cond_holds_AND cond_holds_OR)
  show ?thesis
    using op w(1) scope_clauses_none
    by (cases "PORTAL_SCOPED_MODELS model")
      (auto simp: injectPortalScope_def in_portal_scope_def Let_def sel)
qed

lemma injectCompanyId_where:
  assumes "operation \<in> set READ_OPS \<or> operation \<in> set WRITE_FILTER_OPS \<or> operation = ''upsert''"
  shows "qa_where (injectCompanyId operation c args) = Some (spread (qa_where args) ''companyId'' (Is (Some c)))"
  using assms by (auto simp: injectCompanyId_def Let_def READ_OPS_def WRITE_FILTER_OPS_def)

lemma distinct_spread: "distinct (map fst w) \<Longrightarrow> distinct (map fst (spread (Some w) k v))"
  unfolding spread_def by (simp add: distinct_update)

definition where_of :: "query_args \<Rightarrow> where_object" where
  "where_of args = (case qa_where args of None \<Rightarrow> [] | Some w \<Rightarrow> w)"

text \<open>The rows a query asks to create: its data, or what an upsert inserts.\<close>

definition created :: "string \<Rightarrow> query_args \<Rightarrow> fields list" where
  "created operation args =
     (if operation \<in> {''create'', ''createMany''}
      then (case qa_data args of None \<Rightarrow> [] | Some (DataOne o1) \<Rightarrow> [o1] | Some (DataMany os) \<Rightarrow> os)
      else if operation = ''upsert'' then (case qa_create args of None \<Rightarrow> [] | Some o1 \<Rightarrow> [o1])
      else [])"

definition owned_by :: "string \<Rightarrow> fields \<Rightarrow> fields" where
  "owned_by c o1 = spread (Some o1) ''companyId'' (Some c)"

lemma owned_by_columns:
  "map_of (owned_by c o1) ''companyId'' = Some (Some c)" "k \<noteq> ''companyId'' \<Longrightarrow> map_of (owned_by c o1) k = map_of o1 k"
  by (simp_all add: owned_by_def spread_def update_conv')

lemma injectPortalScope_data:
  "qa_data (injectPortalScope model operation am args) = qa_data args"
  "qa_create (injectPortalScope model operation am args) = qa_create args"
  by (simp_all add: injectPortalScope_def Let_def split: option.split)

lemma created_injected:
  assumes "created operation args \<noteq> []" and "operation = ''create'' \<Longrightarrow> \<exists>o1. qa_data args = Some (DataOne o1)"
  shows "created operation (injectPortalScope model operation am (injectCompanyId operation c args)) =
    map (owned_by c) (created operation args)"
  using assms
  by (auto simp: created_def injectPortalScope_data injectCompanyId_def Let_def READ_OPS_def WRITE_FILTER_OPS_def
      owned_by_def split: option.splits data.splits if_splits)

text \<open>
  C5: the extension isolates tenants and portal sessions. Whatever \<open>where\<close> the caller
  wrote, a read, an update, a delete or the lookup of an upsert on a tenant-scoped model acts
  on exactly the rows of the current company that the rest of the caller's \<open>where\<close> selects
  and that (an upsert apart) lie in the portal session's scope: a company the caller names is
  overridden, an \<open>OR\<close> or an \<open>AND\<close> of his cannot reach past the scope. Every row
  a create, a createMany or an upsert inserts is the row the caller gave, with the current
  company for its company. (The data of an update is passed through: a company in it is not
  overridden.)
\<close>

theorem tenant_query_exact:
  assumes ext: "tenantExtension model operation am args = Inr args'"
    and model: "model \<in> set TENANT_SCOPED_MODELS"
    and w: "distinct (map fst (where_of args))"
    and one: "operation = ''create'' \<Longrightarrow> \<exists>o1. qa_data args = Some (DataOne o1)"
  shows "\<exists>c. getCurrentCompanyId am = Some c \<and> UUID_RE c \<and>
    (operation \<in> set READ_OPS \<union> set WRITE_FILTER_OPS \<union> {''upsert''} \<longrightarrow>
      (\<exists>w'. qa_where args' = Some w' \<and>
        (\<forall>r. selects w' r \<longleftrightarrow> r ''companyId'' = Some c \<and> (operation \<noteq> ''upsert'' \<longrightarrow> in_portal_scope model am r) \<and>
           selects (AList.delete ''companyId'' (where_of args)) r))) \<and>
    (created operation args \<noteq> [] \<longrightarrow>
      length (created operation args') = length (created operation args) \<and>
      (\<forall>i < length (created operation args).
         map_of (created operation args' ! i) ''companyId'' = Some (Some c) \<and>
         (\<forall>k. k \<noteq> ''companyId'' \<longrightarrow> map_of (created operation args' ! i) k = map_of (created operation args ! i) k)))"
proof -
  obtain c where c: "getCurrentCompanyId am = Some c" "UUID_RE c"
    and a: "args' = injectPortalScope model operation am (injectCompanyId operation c args)"
    using tenantExtension_scoped [OF model ext] by blast
  let ?w = "spread (Some (where_of args)) ''companyId'' (Is (Some c))"
  have inj: "qa_where (injectCompanyId operation c args) = Some ?w"
    if "operation \<in> set READ_OPS \<or> operation \<in> set WRITE_FILTER_OPS \<or> operation = ''upsert''"
    using injectCompanyId_where [OF that, of c args] by (simp add: where_of_def spread_def split: option.split)
  have sel: "selects ?w r \<longleftrightarrow> r ''companyId'' = Some c \<and> selects (AList.delete ''companyId'' (where_of args)) r" for r
    by (simp add: spread_def selects_update [OF w])
  have "\<exists>w'. qa_where args' = Some w' \<and>
      (\<forall>r. selects w' r \<longleftrightarrow> r ''companyId'' = Some c \<and> (operation \<noteq> ''upsert'' \<longrightarrow> in_portal_scope model am r) \<and>
         selects (AList.delete ''companyId'' (where_of args)) r)"
    if op: "operation \<in> set READ_OPS \<union> set WRITE_FILTER_OPS \<union> {''upsert''}"
  proof (cases "operation \<in> set READ_OPS \<or> operation \<in> set WRITE_FILTER_OPS")
    case True
    then have "operation \<noteq> ''upsert''" by (auto simp: READ_OPS_def WRITE_FILTER_OPS_def)
    with injectPortalScope_selects [OF True inj distinct_spread [OF w], of model am] True sel show ?thesis
      by (auto simp: a)
  next
    case False
    then have "operation = ''upsert''" using op by auto
    then show ?thesis using inj sel by (simp add: a injectPortalScope_def READ_OPS_def WRITE_FILTER_OPS_def)
  qed
  moreover have "length (created operation args') = length (created operation args) \<and>
      (\<forall>i < length (created operation args).
         map_of (created operation args' ! i) ''companyId'' = Some (Some c) \<and>
         (\<forall>k. k \<noteq> ''companyId'' \<longrightarrow> map_of (created operation args' ! i) k = map_of (created operation args ! i) k))"
    if "created operation args \<noteq> []"
  proof -
    have "created operation args' = map (owned_by c) (created operation args)"
      unfolding a by (rule created_injected [OF that one])
    then show ?thesis by (simp add: owned_by_columns)
  qed
  ultimately show ?thesis using c by blast
qed

definition demo_query :: query_args where
  "demo_query = \<lparr>qa_where = Some [(''companyId'', Is (Some ''other'')), (''OR'', Several [[(''id'', Is (Some ''x''))], []])],
     qa_data = None, qa_create = None\<rparr>"

definition demo_ambient :: ambient where
  "demo_ambient = \<lparr>am_tenant = Some \<lparr>ts_companyId = ''11111111-2222-3333-4444-555555555555'',
     ts_userId = None, ts_ipAddress = None, ts_portalApplicantId = None, ts_portalBrokerId = Some ''b''\<rparr>, am_tx = None\<rparr>"

theorem tenant_query_exact_witness:
  "\<exists>args' w'. tenantExtension ''CommissionPayment'' ''findMany'' demo_ambient demo_query = Inr args' \<and>
     qa_where args' = Some w' \<and>
     (\<forall>r. selects w' r \<longrightarrow> r ''companyId'' = Some ''11111111-2222-3333-4444-555555555555'' \<and> r ''brokerId'' = Some ''b'')"
proof -
  have "UUID_RE ''11111111-2222-3333-4444-555555555555''" by (simp add: UUID_RE_def is_hex_def is_digit_def)
  then have "\<not> isl (tenantExtension ''CommissionPayment'' ''findMany'' demo_ambient demo_query)"
    by (simp add: tenantExtension_def demo_ambient_def getCurrentCompanyId_def)
  then obtain args' where run: "tenantExtension ''CommissionPayment'' ''findMany'' demo_ambient demo_query = Inr args'"
    using not_isl_Inr by blast
  have m: "''CommissionPayment'' \<in> set TENANT_SCOPED_MODELS" "''findMany'' \<in> set READ_OPS"
    by (simp_all add: TENANT_SCOPED_MODELS_def READ_OPS_def)
  have scope: "in_portal_scope ''CommissionPayment'' demo_ambient r \<Longrightarrow> r ''brokerId'' = Some ''b''" for r
    by (simp add: in_portal_scope_def PORTAL_SCOPED_MODELS_def scope_clauses_def demo_ambient_def
        getCurrentPortalApplicantId_def getCurrentPortalBrokerId_def truthy_def)
  have comp: "getCurrentCompanyId demo_ambient = Some ''11111111-2222-3333-4444-555555555555''"
    by (simp add: getCurrentCompanyId_def demo_ambient_def)
  have w: "distinct (map fst (where_of demo_query))" by (simp add: demo_query_def where_of_def)
  obtain c w' where "getCurrentCompanyId demo_ambient = Some c" "qa_where args' = Some w'"
    "\<And>r. selects w' r \<longleftrightarrow> r ''companyId'' = Some c \<and> in_portal_scope ''CommissionPayment'' demo_ambient r \<and>
       selects (AList.delete ''companyId'' (where_of demo_query)) r"
    using tenant_query_exact [OF run m(1) w] m(2) by auto
  with run scope comp show ?thesis by auto
qed

text \<open>An upsert is held to the company too, but not to the portal scope.\<close>

lemma tenant_upsert:
  assumes "tenantExtension model ''upsert'' am args = Inr args'" and "model \<in> set TENANT_SCOPED_MODELS"
  shows "\<exists>c w o1. getCurrentCompanyId am = Some c \<and> qa_where args' = Some w \<and>
    (\<forall>r. selects w r \<longrightarrow> r ''companyId'' = Some c) \<and>
    qa_create args' = Some o1 \<and> map_of o1 ''companyId'' = Some (Some c)"
proof -
  obtain c where c: "getCurrentCompanyId am = Some c"
    and a: "args' = injectPortalScope model ''upsert'' am (injectCompanyId ''upsert'' c args)"
    using tenantExtension_scoped [OF assms(2,1)] by blast
  have a': "args' = injectCompanyId ''upsert'' c args"
    by (simp add: a injectPortalScope_def READ_OPS_def WRITE_FILTER_OPS_def)
  have "selects (spread (qa_where args) ''companyId'' (Is (Some c))) r \<Longrightarrow> r ''companyId'' = Some c" for r
    using selects_property [of _ r "''companyId''" "Is (Some c)"] by (simp add: spread_def)
  then show ?thesis
    using c injectCompanyId_where [of "''upsert''" c args]
    by (simp add: a') (simp add: injectCompanyId_def Let_def READ_OPS_def WRITE_FILTER_OPS_def spread_def update_conv')
qed

lemma tenant_create:
  assumes "tenantExtension model ''create'' am args = Inr args'" and "model \<in> set TENANT_SCOPED_MODELS"
  shows "\<exists>c o1. getCurrentCompanyId am = Some c \<and> qa_data args' = Some (DataOne o1) \<and>
    map_of o1 ''companyId'' = Some (Some c)"
  using tenantExtension_scoped [OF assms(2,1)]
  by (auto simp: injectPortalScope_def injectCompanyId_def Let_def READ_OPS_def
      WRITE_FILTER_OPS_def spread_def update_conv')

lemma tenant_createMany:
  assumes "tenantExtension model ''createMany'' am args = Inr args'" and "model \<in> set TENANT_SCOPED_MODELS"
    and "qa_data args = Some (DataMany ds)"
  shows "\<exists>c ds'. getCurrentCompanyId am = Some c \<and> qa_data args' = Some (DataMany ds') \<and> length ds' = length ds \<and>
    (\<forall>o1\<in>set ds'. map_of o1 ''companyId'' = Some (Some c))"
  using tenantExtension_scoped [OF assms(2,1)] assms(3)
  by (auto simp: injectPortalScope_def injectCompanyId_def Let_def READ_OPS_def
      WRITE_FILTER_OPS_def spread_def update_conv')

section \<open>The portal scope of a request\<close>

text \<open>
  The contexts code of one company can run in, starting from a given one: below any nesting
  of \<open>runWithTenant\<close> and \<open>runScoped\<close> for that company and of transactions. \<open>Inr\<close>
  as the callback returns the context the callback is run in.
\<close>

inductive serves :: "string \<Rightarrow> ambient \<Rightarrow> ambient \<Rightarrow> bool" for c where
  here: "serves c am am"
| with_tenant: "serves c am e \<Longrightarrow> ts_companyId store = c \<Longrightarrow> runWithTenant store Inr e = Inr f \<Longrightarrow> serves c am f"
| scoped: "serves c am e \<Longrightarrow> runScoped c Inr e = Inr f \<Longrightarrow> serves c am f"
| with_tx: "serves c am e \<Longrightarrow> withTenantTx k Inr e = Inr f \<Longrightarrow> serves c am f"

definition holds_scope :: "string \<Rightarrow> string option \<Rightarrow> string option \<Rightarrow> ambient \<Rightarrow> bool" where
  "holds_scope c a b am \<longleftrightarrow>
     (\<exists>s. am_tenant am = Some s \<and> ts_companyId s = c \<and> ts_portalApplicantId s = a \<and> ts_portalBrokerId s = b) \<and>
     (\<forall>t. am_tx am = Some t \<longrightarrow> sv_portalApplicant (tt_vars t) = or_empty a \<and> sv_portalBroker (tt_vars t) = or_empty b)"

lemma effective_store_scope:
  "ts_companyId (effective_store e s) = ts_companyId s"
  "ts_portalApplicantId (effective_store e s) = ts_portalApplicantId s"
  "ts_portalBrokerId (effective_store e s) = ts_portalBrokerId s"
  by (auto simp: effective_store_def split: option.splits)

lemma holds_scope_with_tenant:
  assumes "holds_scope c a b e" and "truthy a \<or> truthy b" and "ts_companyId store = c"
    and "runWithTenant store Inr e = Inr f"
  shows "holds_scope c a b f"
  using assms
  by (auto simp: holds_scope_def runWithTenant_def widens_def effective_store_scope split: if_splits)

lemma holds_scope_with_tx:
  assumes "holds_scope c a b e" and "withTenantTx k Inr e = Inr f"
  shows "holds_scope c a b f"
  using assms
  by (auto simp: holds_scope_def withTenantTx_def setTenantOnTx_def getCurrentPortalApplicantId_def
      getCurrentPortalBrokerId_def split: option.splits if_splits)

text \<open>
  A portal session is never widened. In every context that code of the same company
  runs in below a portal request, however it nests \<open>runWithTenant\<close>, \<open>runScoped\<close> and
  transactions, the portal scope is the one of the request, and every open transaction has
  told PostgreSQL that same scope.
\<close>

theorem portal_scope_kept:
  assumes "serves c am am'" and "holds_scope c a b am" and "truthy a \<or> truthy b"
  shows "holds_scope c a b am'"
  using assms
proof (induction rule: serves.induct)
  case (with_tenant am e store f)
  then show ?case using holds_scope_with_tenant by blast
next
  case (scoped am e f)
  then have "holds_scope c a b e" by blast
  with scoped.hyps(2) show ?case
    by (auto simp: runScoped_def getCurrentCompanyId_def holds_scope_def)
next
  case (with_tx am e k f)
  then show ?case using holds_scope_with_tx by blast
qed

definition demo_company :: string where
  "demo_company = ''11111111-2222-3333-4444-555555555555''"

definition demo_other :: string where
  "demo_other = ''99999999-2222-3333-4444-555555555555''"

definition demo_portal :: ambient where
  "demo_portal = \<lparr>am_tenant = Some \<lparr>ts_companyId = demo_company, ts_userId = Some ''u'', ts_ipAddress = None,
     ts_portalApplicantId = None, ts_portalBrokerId = Some ''b''\<rparr>, am_tx = None\<rparr>"

lemma demo_company_uuid: "UUID_RE demo_company"
  by (simp add: demo_company_def UUID_RE_def is_hex_def is_digit_def)

theorem portal_scope_kept_witness:
  "\<exists>am'. withTenantTx demo_company Inr demo_portal = Inr am' \<and>
     holds_scope demo_company None (Some ''b'') am'"
proof -
  have "\<not> isl (withTenantTx demo_company Inr demo_portal)"
    by (simp add: withTenantTx_def demo_portal_def setTenantOnTx_def demo_company_uuid)
  then obtain am' where am': "withTenantTx demo_company Inr demo_portal = Inr am'" using not_isl_Inr by blast
  have "holds_scope demo_company None (Some ''b'') demo_portal" by (simp add: holds_scope_def demo_portal_def)
  from portal_scope_kept [OF serves.with_tx [OF serves.here am'] this] am' show ?thesis
    by (simp add: truthy_def)
qed

text \<open>
  The guard compares with the innermost store only: a detour through another company ends
  with the first company's full staff scope.
\<close>

lemma portal_scope_lost_through_other_company:
  "runWithTenant (bare_store demo_other) (runWithTenant (bare_store demo_company) Inr) demo_portal =
     Inr (demo_portal\<lparr>am_tenant := Some (bare_store demo_company)\<rparr>)"
  by (simp add: runWithTenant_def demo_portal_def bare_store_def widens_def effective_store_def demo_other_def
      demo_company_def truthy_def)

text \<open>
  What the extension does not cover. An operation outside its lists (Prisma's
  \<open>createManyAndReturn\<close>, \<open>updateManyAndReturn\<close>) and every operation on the
  tenant tables missing from its list (\<open>DumpReason\<close>, \<open>InquiryDispositionHistory\<close>)
  go to the database unchanged, with no company in the filter or in the data.
\<close>

theorem uncovered_queries:
  "(operation \<in> {''createManyAndReturn'', ''updateManyAndReturn''} \<longrightarrow>
     tenantExtension model operation am args = Inr args' \<longrightarrow> args' = args) \<and>
   tenantExtension ''DumpReason'' op am args = Inr args \<and>
   tenantExtension ''InquiryDispositionHistory'' op am args = Inr args"
proof -
  have rest: "tenantExtension ''DumpReason'' op am args = Inr args"
    "tenantExtension ''InquiryDispositionHistory'' op am args = Inr args"
    by (simp_all add: tenantExtension_unscoped TENANT_SCOPED_MODELS_def)
  have "args' = args"
    if op: "operation \<in> {''createManyAndReturn'', ''updateManyAndReturn''}"
      and run: "tenantExtension model operation am args = Inr args'"
  proof -
    have same: "injectPortalScope model operation am (injectCompanyId operation c args) = args" for c
    proof -
      have "operation \<notin> set READ_OPS \<union> set WRITE_FILTER_OPS \<union> {''create'', ''createMany'', ''upsert''}"
        using op by (elim insertE emptyE) (simp_all add: READ_OPS_def WRITE_FILTER_OPS_def)
      then show ?thesis by (simp add: injectPortalScope_def injectCompanyId_def)
    qed
    show ?thesis
      using run same tenantExtension_scoped [OF _ run] by (cases "model \<in> set TENANT_SCOPED_MODELS")
        (blast, simp add: tenantExtension_unscoped)
  qed
  with rest show ?thesis by blast
qed

theorem uncovered_queries_witness:
  "tenantExtension ''Booking'' ''updateManyAndReturn'' demo_portal
     \<lparr>qa_where = Some [], qa_data = Some (DataOne []), qa_create = None\<rparr> =
   Inr \<lparr>qa_where = Some [], qa_data = Some (DataOne []), qa_create = None\<rparr>" (is "?ext = Inr ?args")
proof -
  have "\<not> isl ?ext"
    by (simp add: tenantExtension_def demo_portal_def getCurrentCompanyId_def demo_company_uuid) (simp add: demo_company_def)
  then obtain args' where "?ext = Inr args'" using not_isl_Inr by blast
  with uncovered_queries [of "''updateManyAndReturn''" "''Booking''" demo_portal ?args args'] show ?thesis by simp
qed

end
