(* ===== verification/AuditTrail.thy ===== *)
theory AuditTrail
  imports Tenant
begin

text \<open>
  \<open>packages/db/src/audit.extension.ts\<close>: the Prisma extension that writes an audit row for
  every create, update and delete on an audited model, in the transaction of the write, with
  the secrets of the values struck out.
\<close>

section \<open>Values\<close>

text \<open>
  The JavaScript values a query takes and returns. \<open>JOpaque s t\<close> is an object that is
  neither plain nor an array (a \<open>Date\<close>, a \<open>Prisma.Decimal\<close>): its JSON text and its
  \<open>String(..)\<close>.
\<close>

datatype json =
    JUndefined
  | JNull
  | JBool bool
  | JNum int
  | JBig int
  | JStr string
  | JOpaque string string
  | JArr "json list"
  | JObj "(string \<times> json) list"

definition js_truthy :: "json \<Rightarrow> bool" where
  "js_truthy v \<longleftrightarrow> v \<notin> {JUndefined, JNull, JBool False, JNum 0, JBig 0, JStr []}"

definition AUDITED_MODELS :: "string list" where
  "AUDITED_MODELS =
     [''User'', ''Role'', ''RolePermission'', ''Company'', ''CompanyConfig'', ''CustomFieldDefinition'',
      ''InquirySource'', ''InquiryType'', ''FollowUpType'', ''CommunicationType'', ''AreaLocation'',
      ''ProjectType'', ''DocumentType'', ''LetterTemplate'', ''Bank'', ''ReceiptType'',
      ''RegistrationType'', ''ChargeType'', ''GstRate'', ''TdsRule'', ''InterestRule'',
      ''TransferFeeRule'', ''PaymentPlanTemplate'', ''UnitType'', ''PlcType'', ''Project'', ''Tower'',
      ''Floor'', ''Unit'', ''UnitPlc'', ''UnitCharge'', ''UnitRateRevision'', ''UnitStatusChange'',
      ''Applicant'', ''ApplicantConsent'', ''ApplicantMerge'', ''InquiryTemperature'', ''Inquiry'',
      ''InquiryAssignment'', ''ProjectAssignmentPool'', ''FollowUp'', ''SmsTemplate'',
      ''CommunicationLog'', ''CancellationRule'', ''ApplicantAddress'', ''ApplicantDocument'',
      ''Booking'', ''BookingCoApplicant'', ''PaymentPlan'', ''Receipt'', ''Transfer'',
      ''Cancellation'', ''Refund'', ''PaymentVoucher'', ''ExtraCharge'', ''TdsCertificate'',
      ''PaymentPlanMilestone'', ''GeneratedDocument'', ''DocumentDispatch'', ''Broker'',
      ''BrokerBankDetail'', ''BrokerCommissionRule'', ''BrokerCommissionSlab'',
      ''CommissionPayment'', ''BrokerNoc'', ''ApplicantChangeRequest'', ''TicketCategory'',
      ''Ticket'', ''ConstructionUpdate'', ''ConstructionUpdateMedia'', ''PortalInvite'',
      ''PluginInstallation'', ''WebhookEndpoint'', ''WebhookDelivery'', ''LeadSourceApiKey'']"

definition SENSITIVE_FIELDS :: "string list" where
  "SENSITIVE_FIELDS =
     [''passwordHash'', ''password_hash'', ''totpSecret'', ''totp_secret'', ''recoveryCodes'',
      ''recovery_codes'', ''panCiphertext'', ''pan_ciphertext'', ''tokenHash'', ''token_hash'',
      ''configCiphertext'', ''config_ciphertext'', ''secretCiphertext'', ''secret_ciphertext'',
      ''keyHash'', ''key_hash'']"

definition redacted :: json where
  "redacted = JStr ''[REDACTED]''"

fun sanitize :: "json \<Rightarrow> json" where
  "sanitize (JArr vs) = JArr (map sanitize vs)"
| "sanitize (JObj kvs) =
     JObj (map (\<lambda>kv. (fst kv, if fst kv \<in> set SENSITIVE_FIELDS then redacted else sanitize (snd kv))) kvs)"
| "sanitize v = v"

section \<open>Rows\<close>

text \<open>\<open>String(v)\<close>.\<close>

fun js_string :: "json \<Rightarrow> string" where
  "js_string JUndefined = ''undefined''"
| "js_string JNull = ''null''"
| "js_string (JBool b) = (if b then ''true'' else ''false'')"
| "js_string (JNum n) = show_int n"
| "js_string (JBig n) = show_int n"
| "js_string (JStr s) = s"
| "js_string (JOpaque s t) = t"
| "js_string (JObj kvs) = ''[object Object]''"
| "js_string (JArr vs) =
     (case map (\<lambda>v. if v = JNull \<or> v = JUndefined then [] else js_string v) vs of
        [] \<Rightarrow> []
      | s # ss \<Rightarrow> s @ concat (map (\<lambda>t. CHR '','' # t) ss))"

definition extractId :: "json \<Rightarrow> string" where
  "extractId v =
     (case v of
        JObj kvs \<Rightarrow> (case map_of kvs ''id'' of Some i \<Rightarrow> js_string i | None \<Rightarrow> ''unknown'')
      | _ \<Rightarrow> ''unknown'')"

text \<open>
  \<open>JSON.stringify\<close> with bigints as strings, as the value PostgreSQL reads back: what is
  \<open>undefined\<close> is dropped from an object and is \<open>null\<close> in an array.
\<close>

fun toJson :: "json \<Rightarrow> json" where
  "toJson (JBig n) = JStr (show_int n)"
| "toJson (JOpaque s t) = JStr s"
| "toJson (JArr vs) = JArr (map (\<lambda>v. if v = JUndefined then JNull else toJson v) vs)"
| "toJson (JObj kvs) =
     JObj (map (\<lambda>kv. (fst kv, toJson (snd kv))) (filter (\<lambda>kv. snd kv \<noteq> JUndefined) kvs))"
| "toJson v = v"

datatype action = CREATE | UPDATE | DELETE

record audit_row =
  ar_companyId :: string
  ar_userId :: "string option"
  ar_entityType :: string
  ar_entityId :: string
  ar_action :: action
  ar_before :: "json option"
  ar_after :: "json option"
  ar_ipAddress :: "string option"

definition json_or_null :: "json \<Rightarrow> json option" where
  "json_or_null v = (if js_truthy v then Some (toJson v) else None)"

definition audit_entry ::
  "tenant_tx_store \<Rightarrow> ambient \<Rightarrow> string \<Rightarrow> string \<Rightarrow> action \<Rightarrow> json \<Rightarrow> json \<Rightarrow> audit_row" where
  "audit_entry store am entityType entityId act before after =
     \<lparr>ar_companyId = tt_companyId store, ar_userId = getCurrentUserId am, ar_entityType = entityType,
      ar_entityId = entityId, ar_action = act, ar_before = json_or_null before,
      ar_after = json_or_null after, ar_ipAddress = getCurrentIpAddress am\<rparr>"

section \<open>The hooks\<close>

text \<open>
  A transaction works on the rest of the database, of any type, and on the audit log.
  PostgreSQL may refuse an audit row: \<open>accepts\<close> says which ones it takes.
\<close>

type_synonym 'd audited = "'d \<times> audit_row list"

definition writeAuditRow ::
  "(audit_row \<Rightarrow> bool) \<Rightarrow> string \<Rightarrow> string \<Rightarrow> action \<Rightarrow> json \<Rightarrow> json \<Rightarrow> ambient \<Rightarrow> 'd audited \<Rightarrow> 'd audited result" where
  "writeAuditRow accepts entityType entityId act before after am d =
     (case am_tx am of
        None \<Rightarrow> Inr d
      | Some store \<Rightarrow>
          let row = audit_entry store am entityType entityId act before after
          in bindE (ensure (accepts row) (JsError ''audit_logs'')) (\<lambda>_. Inr (fst d, snd d @ [row])))"

definition auditOrThrow ::
  "(audit_row \<Rightarrow> bool) \<Rightarrow> string \<Rightarrow> action \<Rightarrow> json \<Rightarrow> json \<times> json \<Rightarrow> ambient \<Rightarrow> 'd audited \<Rightarrow> 'd audited result" where
  "auditOrThrow accepts model act res diff am d =
     writeAuditRow accepts model (extractId res) act (fst diff) (snd diff) am d"

text \<open>Prisma's query: it returns a value and the changed rows, or raises.\<close>

type_synonym 'd query = "'d \<Rightarrow> (json \<times> 'd) result"

definition hook ::
  "(audit_row \<Rightarrow> bool) \<Rightarrow> string \<Rightarrow> action \<Rightarrow> (json \<Rightarrow> json \<times> json) \<Rightarrow> 'd query \<Rightarrow> ambient \<Rightarrow>
   'd audited \<Rightarrow> (json \<times> 'd audited) result" where
  "hook accepts model act diff query am d =
     bindE (query (fst d)) (\<lambda>(res, rest).
       if model \<in> set AUDITED_MODELS
       then bindE (auditOrThrow accepts model act res (diff res) am (rest, snd d)) (\<lambda>d'. Inr (res, d'))
       else Inr (res, (rest, snd d)))"

definition audit_create where
  "audit_create accepts model query = hook accepts model CREATE (\<lambda>res. (JNull, sanitize res)) query"

definition audit_update where
  "audit_update accepts model args_data query = hook accepts model UPDATE (\<lambda>res. (JNull, sanitize args_data)) query"

definition audit_delete where
  "audit_delete accepts model query = hook accepts model DELETE (\<lambda>res. (sanitize res, JNull)) query"

section \<open>No secret in the log\<close>

datatype path_step = Key string | Pos nat

fun follow :: "path_step list \<Rightarrow> json \<Rightarrow> json option" where
  "follow [] v = Some v"
| "follow (Key k # p) (JObj kvs) = Option.bind (map_of kvs k) (follow p)"
| "follow (Pos i # p) (JArr vs) = (if i < length vs then follow p (vs ! i) else None)"
| "follow (s # p) v = None"

lemma map_of_map_value:
  "map_of (map (\<lambda>kv. (fst kv, f (fst kv) (snd kv))) kvs) k = map_option (f k) (map_of kvs k)"
  by (induction kvs) auto

definition plain_step :: "path_step \<Rightarrow> bool" where
  "plain_step s \<longleftrightarrow> (\<forall>k\<in>set SENSITIVE_FIELDS. s \<noteq> Key k)"

lemma sanitize_atom [simp]:
  "(\<And>vs. v \<noteq> JArr vs) \<Longrightarrow> (\<And>kvs. v \<noteq> JObj kvs) \<Longrightarrow> sanitize v = v"
  by (cases v) auto

lemma follow_sanitize:
  "follow p (sanitize v) =
     (case dropWhile plain_step p of
        [] \<Rightarrow> map_option sanitize (follow p v)
      | s # rest \<Rightarrow>
          (if follow (takeWhile plain_step p @ [s]) v = None then None else follow rest redacted))"
proof (induction p v rule: follow.induct)
  case (2 k p kvs)
  show ?case
  proof (cases "k \<in> set SENSITIVE_FIELDS")
    case True
    then have ns: "\<not> plain_step (Key k)" by (auto simp: plain_step_def)
    show ?thesis
      using True
      by (cases "map_of kvs k")
        (simp_all add: ns map_of_map_value [where f = "\<lambda>k v. if k \<in> set SENSITIVE_FIELDS then redacted else sanitize v"])
  next
    case False
    then have pl: "plain_step (Key k)" by (auto simp: plain_step_def)
    show ?thesis
    proof (cases "map_of kvs k")
      case None
      then show ?thesis
        by (simp add: pl map_of_map_value [where f = "\<lambda>k v. if k \<in> set SENSITIVE_FIELDS then redacted else sanitize v"]
            split: list.split)
    next
      case (Some v)
      then show ?thesis
        using 2 [of v] False
        by (cases "dropWhile plain_step p")
          (simp_all add: pl map_of_map_value [where f = "\<lambda>k v. if k \<in> set SENSITIVE_FIELDS then redacted else sanitize v"]
            del: dropWhile_eq_Nil_conv)
    qed
  qed
next
  case (3 i p vs)
  have "plain_step (Pos i)" by (simp add: plain_step_def)
  then show ?case using 3 by (cases "dropWhile plain_step p") (simp_all del: dropWhile_eq_Nil_conv)
qed (auto simp: plain_step_def split: list.splits)

text \<open>The same of a value as it is written: every entry under a secret's name is struck out.\<close>

fun clean :: "json \<Rightarrow> bool" where
  "clean (JArr vs) \<longleftrightarrow> list_all clean vs"
| "clean (JObj kvs) \<longleftrightarrow>
     list_all (\<lambda>kv. clean (snd kv) \<and> (fst kv \<in> set SENSITIVE_FIELDS \<longrightarrow> snd kv = redacted)) kvs"
| "clean v \<longleftrightarrow> True"

lemma clean_redacted [simp]: "clean redacted"
  by (simp add: redacted_def)

lemma clean_sanitize: "clean (sanitize v)"
  by (induction v rule: sanitize.induct) (auto simp: list_all_iff)

lemma toJson_redacted [simp]: "toJson redacted = redacted"
  by (simp add: redacted_def)

lemma clean_toJson: "clean v \<Longrightarrow> clean (toJson v)"
  by (induction v rule: toJson.induct) (auto simp: list_all_iff)

lemma clean_follow:
  "clean v \<Longrightarrow> k \<in> set SENSITIVE_FIELDS \<Longrightarrow> follow (p @ [Key k]) v = Some x \<Longrightarrow> x = redacted"
proof (induction p v arbitrary: x rule: follow.induct)
  case (1 v)
  then obtain kvs where "v = JObj kvs" "map_of kvs k = Some x" by (cases v) (auto simp: bind_eq_Some_conv)
  with 1 show ?case by (auto simp: list_all_iff dest!: map_of_SomeD)
next
  case (2 k' p kvs)
  then obtain u where "map_of kvs k' = Some u" "follow (p @ [Key k]) u = Some x"
    by (auto simp: bind_eq_Some_conv)
  moreover from this(1) 2(2) have "clean u" by (auto simp: list_all_iff dest!: map_of_SomeD)
  ultimately show ?case using 2 by blast
next
  case (3 i p vs)
  then have "i < length vs" "clean (vs ! i)" "follow (p @ [Key k]) (vs ! i) = Some x"
    by (auto simp: list_all_iff split: if_splits)
  with 3 show ?case by blast
qed auto

section \<open>Every audited write has its row\<close>

lemma clean_json_or_null: "clean v \<Longrightarrow> json_or_null v = Some j \<Longrightarrow> clean j"
  by (auto simp: json_or_null_def clean_toJson split: if_splits)

lemma hook_row:
  assumes "hook accepts model act diff query am d = Inr (res, d')"
    and "model \<in> set AUDITED_MODELS" and "am_tx am = Some store"
  shows "\<exists>row. row = audit_entry store am model (extractId res) act (fst (diff res)) (snd (diff res)) \<and>
    accepts row \<and> query (fst d) = Inr (res, fst d') \<and> snd d' = snd d @ [row]"
  using assms by (auto simp: hook_def auditOrThrow_def writeAuditRow_def Let_def)

definition audited_write ::
  "(audit_row \<Rightarrow> bool) \<Rightarrow> string \<Rightarrow> action \<Rightarrow> json \<Rightarrow> 'd query \<Rightarrow> ambient \<Rightarrow> 'd audited \<Rightarrow> (json \<times> 'd audited) result" where
  "audited_write accepts model act args_data query =
     (case act of
        CREATE \<Rightarrow> audit_create accepts model query
      | UPDATE \<Rightarrow> audit_update accepts model args_data query
      | DELETE \<Rightarrow> audit_delete accepts model query)"

text \<open>
  C6: an audited write and its audit row are one. A create, update or delete on an audited
  model that succeeds inside a tenant transaction has appended exactly one row to the audit
  log, under the transaction's company and with the request's user and address and the
  written row's id, and nowhere in the values that row holds, at any depth, is there anything
  but the redaction mark under a secret's name.
\<close>

theorem audited_write_has_row:
  assumes "audited_write accepts model act args_data query am d = Inr (res, d')"
    and "model \<in> set AUDITED_MODELS" and "am_tx am = Some store"
  shows "\<exists>row. query (fst d) = Inr (res, fst d') \<and> snd d' = snd d @ [row] \<and> accepts row \<and>
    ar_companyId row = tt_companyId store \<and> ar_userId row = getCurrentUserId am \<and>
    ar_ipAddress row = getCurrentIpAddress am \<and>
    ar_entityType row = model \<and> ar_entityId row = extractId res \<and> ar_action row = act \<and>
    (\<forall>j p k v. (ar_before row = Some j \<or> ar_after row = Some j) \<longrightarrow> k \<in> set SENSITIVE_FIELDS \<longrightarrow>
       follow (p @ [Key k]) j = Some v \<longrightarrow> v = redacted)"
proof -
  obtain diff where run: "hook accepts model act diff query am d = Inr (res, d')"
    and cl: "clean (fst (diff res))" "clean (snd (diff res))"
    using assms(1)
    by (cases act) (auto simp: audited_write_def audit_create_def audit_update_def audit_delete_def clean_sanitize)
  from hook_row [OF run assms(2,3)] obtain row where
    row: "row = audit_entry store am model (extractId res) act (fst (diff res)) (snd (diff res))"
    and rest: "accepts row" "query (fst d) = Inr (res, fst d')" "snd d' = snd d @ [row]" by blast
  have "clean j" if "ar_before row = Some j \<or> ar_after row = Some j" for j
    using that cl clean_json_or_null by (auto simp: row audit_entry_def)
  then show ?thesis
    using rest clean_follow by (intro exI [of _ row]) (simp add: row audit_entry_def, blast)
qed

definition demo_user :: json where
  "demo_user = JObj [(''id'', JStr ''u1''), (''email'', JStr ''a@b''), (''passwordHash'', JStr ''h''),
     (''settings'', JArr [JObj [(''totpSecret'', JStr ''s'')]])]"

definition demo_tx :: ambient where
  "demo_tx = \<lparr>am_tenant = None,
     am_tx = Some \<lparr>tt_vars = \<lparr>sv_company = ''c'', sv_portalApplicant = [], sv_portalBroker = []\<rparr>, tt_companyId = ''c''\<rparr>\<rparr>"

lemma user_audited: "''User'' \<in> set AUDITED_MODELS"
  by (simp add: AUDITED_MODELS_def)

theorem audited_write_has_row_witness:
  "\<exists>d' row. audited_write (\<lambda>_. True) ''User'' CREATE JNull (\<lambda>n. Inr (demo_user, Suc n)) demo_tx (0, []) = Inr (demo_user, d') \<and>
     snd d' = [row] \<and> ar_companyId row = ''c'' \<and> ar_entityId row = ''u1''"
proof -
  obtain d' where run: "audited_write (\<lambda>_. True) ''User'' CREATE JNull (\<lambda>n. Inr (demo_user, Suc n)) demo_tx (0, []) = Inr (demo_user, d')"
    by (simp add: audited_write_def audit_create_def hook_def auditOrThrow_def writeAuditRow_def Let_def user_audited demo_tx_def)
  have id: "extractId demo_user = ''u1''" by (simp add: extractId_def demo_user_def)
  have tx: "am_tx demo_tx = Some \<lparr>tt_vars = \<lparr>sv_company = ''c'', sv_portalApplicant = [], sv_portalBroker = []\<rparr>, tt_companyId = ''c''\<rparr>"
    by (simp add: demo_tx_def)
  from audited_write_has_row [OF run user_audited tx] run id show ?thesis by auto
qed

text \<open>Fail-closed: a refused row fails the write. Outside a transaction nothing is recorded.\<close>

lemma audit_refused:
  assumes "model \<in> set AUDITED_MODELS" and "am_tx am = Some store" and "\<And>row. \<not> accepts row"
  shows "isl (audited_write accepts model act args_data query am d)"
  using assms
  by (cases act; cases "query (fst d)")
    (auto simp: audited_write_def audit_create_def audit_update_def audit_delete_def hook_def auditOrThrow_def
      writeAuditRow_def Let_def split: if_splits)

lemma audit_outside_transaction:
  assumes "audited_write accepts model act args_data query am d = Inr (res, d')" and "am_tx am = None"
  shows "snd d' = snd d"
  using assms
  by (cases act)
    (auto simp: audited_write_def audit_create_def audit_update_def audit_delete_def hook_def auditOrThrow_def
      writeAuditRow_def split: if_splits)

section \<open>What has no hook\<close>

text \<open>
  The extension hooks \<open>create\<close>, \<open>update\<close> and \<open>delete\<close>; every other operation is
  Prisma's own.
\<close>

definition auditExtension ::
  "(audit_row \<Rightarrow> bool) \<Rightarrow> string \<Rightarrow> string \<Rightarrow> json \<Rightarrow> 'd query \<Rightarrow> ambient \<Rightarrow> 'd audited \<Rightarrow> (json \<times> 'd audited) result" where
  "auditExtension accepts model operation args_data query am d =
     (if operation = ''create'' then audited_write accepts model CREATE args_data query am d
      else if operation = ''update'' then audited_write accepts model UPDATE args_data query am d
      else if operation = ''delete'' then audited_write accepts model DELETE args_data query am d
      else bindE (query (fst d)) (\<lambda>(res, rest). Inr (res, (rest, snd d))))"

text \<open>
  The slabs of a commission rule are an audited model, but
  \<open>broker-commission-rule.service.ts\<close> writes them with \<open>createMany\<close> and
  \<open>deleteMany\<close> only, so a change of a slab leaves no row of the log. (The permissions of a
  role are written the same way; there \<open>roles.service.ts\<close> adds a row of its own.)
\<close>

lemma bulk_writes_unaudited:
  assumes "operation \<in> {''createMany'', ''updateMany'', ''deleteMany'', ''upsert''}"
    and "auditExtension accepts model operation args_data query am d = Inr (res, d')"
  shows "snd d' = snd d"
  using assms by (auto simp: auditExtension_def)

end
