(* ===== verification/Permissions.thy ===== *)
theory Permissions
  imports Text "HOL-Library.Sublist"
begin

text \<open>
  \<open>packages/shared/src/permissions.ts\<close> and \<open>roles.ts\<close>: the permission keys, one list
  per module in the order of the source, and what each system role is seeded with.
\<close>

section \<open>Keys\<close>

definition admin_permissions :: "string list" where
  "admin_permissions =
     [''admin.company.read'', ''admin.company.update'', ''admin.user.read'', ''admin.user.create'',
       ''admin.user.update'', ''admin.user.deactivate'', ''admin.role.read'', ''admin.role.create'',
       ''admin.role.update'', ''admin.role.delete'', ''admin.master.read'', ''admin.master.create'',
       ''admin.master.update'', ''admin.master.delete'', ''admin.custom-field.read'',
       ''admin.custom-field.create'', ''admin.custom-field.update'', ''admin.custom-field.delete'',
       ''admin.broker.read'', ''admin.broker.create'', ''admin.broker.update'',
       ''admin.config.read'', ''admin.config.update'', ''admin.audit.read'',
       ''admin.change-request.approve'', ''admin.ticket.respond'', ''admin.portal-invite.send'',
       ''admin.construction-update.manage'', ''admin.plugin.read'', ''admin.plugin.manage'',
       ''admin.webhook.read'', ''admin.webhook.manage'', ''admin.lead-api-key.read'',
       ''admin.lead-api-key.manage'', ''admin.team-scope.all'']"

definition inventory_permissions :: "string list" where
  "inventory_permissions =
     [''inventory.project.read'', ''inventory.project.create'', ''inventory.project.update'',
       ''inventory.project.delete'', ''inventory.tower.read'', ''inventory.tower.create'',
       ''inventory.tower.update'', ''inventory.tower.delete'', ''inventory.inventory-group.manage'',
       ''inventory.unit.read'', ''inventory.unit.create'', ''inventory.unit.update'',
       ''inventory.unit.bulk-generate'', ''inventory.unit.import'', ''inventory.unit.export'',
       ''inventory.unit.hold'', ''inventory.unit.book'', ''inventory.unit.block'',
       ''inventory.unit.allot'', ''inventory.unit.register'', ''inventory.unit.cancel'',
       ''inventory.unit.release'', ''inventory.rate.read'', ''inventory.rate.change'',
       ''inventory.upload.read'', ''inventory.upload.create'', ''inventory.upload.delete'',
       ''inventory.unit.plc-manage'', ''inventory.unit.charge-manage'']"

definition presales_permissions :: "string list" where
  "presales_permissions =
     [''presales.applicant.read'', ''presales.applicant.create'', ''presales.applicant.update'',
       ''presales.applicant.merge'', ''presales.inquiry.read'', ''presales.inquiry.create'',
       ''presales.inquiry.update'', ''presales.inquiry.delete'', ''presales.inquiry.assign'',
       ''presales.inquiry.import'', ''presales.follow-up.read'', ''presales.follow-up.create'',
       ''presales.follow-up.update'', ''presales.site-visit.read'', ''presales.site-visit.create'',
       ''presales.site-visit.update'', ''presales.communication.send'',
       ''presales.assignment-pool.manage'', ''presales.report.view'', ''presales.report.export'',
       ''presales.report.print'']"

definition postsales_permissions :: "string list" where
  "postsales_permissions =
     [''postsales.booking.read'', ''postsales.booking.create'', ''postsales.booking.update'',
       ''postsales.booking.allot'', ''postsales.booking.register'', ''postsales.booking.cancel'',
       ''postsales.plan.read'', ''postsales.plan.edit'', ''postsales.unit.read'',
       ''postsales.unit.update'', ''postsales.demand.read'', ''postsales.demand.generate'',
       ''postsales.demand.raise'', ''postsales.receipt.read'', ''postsales.receipt.create'',
       ''postsales.receipt.cancel'', ''postsales.cheque.verify'', ''postsales.extra-charge.create'',
       ''postsales.interest.waive'', ''postsales.tds.read'', ''postsales.tds.certificate'',
       ''postsales.transfer.read'', ''postsales.transfer.create'', ''postsales.transfer.approve'',
       ''postsales.refund.request'', ''postsales.refund.approve'', ''postsales.refund.pay'',
       ''postsales.document.read'', ''postsales.document.upload'', ''postsales.document.delete'',
       ''postsales.letter.read'', ''postsales.letter.generate'', ''postsales.dispatch.send'',
       ''postsales.dispatch.read'', ''postsales.noc.request'']"

definition accounts_permissions :: "string list" where
  "accounts_permissions =
     [''accounts.receipt.verify'', ''accounts.payment.read'', ''accounts.payment.create'',
       ''accounts.commission.read'', ''accounts.commission.create'', ''accounts.commission.approve'',
       ''accounts.commission.pay'', ''accounts.noc.approve'']"

definition reports_permissions :: "string list" where
  "reports_permissions =
     [''reports.sales.view'', ''reports.collection.view'', ''reports.outstanding.view'',
       ''reports.broker.view'', ''reports.gst.view'', ''reports.custom.create'',
       ''reports.applicant-ledger.view'', ''reports.birthday.view'']"

definition portal_permissions :: "string list" where
  "portal_permissions =
     [''portal.booking.read'', ''portal.receipt.read'', ''portal.document.read'',
       ''portal.document.upload'', ''portal.payment-schedule.read'', ''portal.profile.update'',
       ''portal.change-request.create'', ''portal.ticket.create'', ''portal.ticket.read'',
       ''portal.noc.action'', ''portal.construction-update.read'', ''portal.broker.dashboard.read'']"

text \<open>\<open>Object.values(PERMISSIONS)\<close>.\<close>

definition ALL_PERMISSIONS :: "string list" where
  "ALL_PERMISSIONS = admin_permissions @ inventory_permissions @ presales_permissions @ postsales_permissions @
     accounts_permissions @ reports_permissions @ portal_permissions"

text \<open>\<open>guards/two-factor-pending.guard.ts\<close>: the only key a 2FA-pending token carries.\<close>

definition TWO_FACTOR_PENDING_PERMISSION :: string where
  "TWO_FACTOR_PENDING_PERMISSION = ''auth.totp.verify''"

text \<open>\<open>Object.values(P).filter((p) => p.startsWith(s))\<close>.\<close>

definition starting :: "string \<Rightarrow> string list" where
  "starting s = filter (prefix s) ALL_PERMISSIONS"

section \<open>System roles\<close>

definition role_company_admin_permissions :: "string list" where
  "role_company_admin_permissions =
     starting ''admin.'' @
     starting ''inventory.'' @
     starting ''presales.'' @
     starting ''postsales.'' @
     starting ''accounts.'' @
     starting ''reports.''"

definition role_sales_manager_permissions :: "string list" where
  "role_sales_manager_permissions =
     [''admin.user.read'', ''admin.master.read'', ''admin.broker.read'', ''inventory.project.read'',
       ''inventory.tower.read'', ''inventory.unit.read'', ''inventory.unit.hold'',
       ''inventory.unit.book'', ''inventory.unit.export'', ''inventory.rate.read'',
       ''inventory.upload.read'', ''inventory.inventory-group.manage''] @
     starting ''presales.'' @
     [''postsales.booking.read'', ''postsales.booking.create'', ''postsales.booking.update'',
       ''postsales.booking.allot'', ''postsales.booking.register'', ''postsales.booking.cancel'',
       ''postsales.noc.request'', ''postsales.plan.read'', ''postsales.plan.edit'',
       ''postsales.unit.read'', ''postsales.receipt.read'', ''postsales.transfer.read'',
       ''postsales.transfer.create'', ''postsales.tds.read'', ''postsales.document.read'',
       ''postsales.document.upload'', ''postsales.letter.read'', ''postsales.letter.generate'',
       ''postsales.dispatch.send'', ''postsales.dispatch.read'', ''reports.sales.view'',
       ''reports.collection.view'', ''reports.broker.view'', ''reports.applicant-ledger.view'',
       ''reports.birthday.view'', ''admin.change-request.approve'', ''admin.ticket.respond'',
       ''admin.portal-invite.send'', ''admin.construction-update.manage'']"

definition role_sales_executive_permissions :: "string list" where
  "role_sales_executive_permissions =
     [''admin.master.read'', ''inventory.project.read'', ''inventory.tower.read'',
       ''inventory.unit.read'', ''inventory.unit.hold'', ''inventory.rate.read'',
       ''inventory.upload.read'', ''presales.applicant.read'', ''presales.applicant.create'',
       ''presales.inquiry.read'', ''presales.inquiry.create'', ''presales.inquiry.update'',
       ''presales.follow-up.read'', ''presales.follow-up.create'', ''presales.follow-up.update'',
       ''presales.site-visit.read'', ''presales.site-visit.create'', ''presales.site-visit.update'',
       ''presales.communication.send'', ''presales.report.view'', ''postsales.booking.read'',
       ''postsales.unit.read'', ''postsales.document.read'', ''postsales.document.upload'',
       ''postsales.letter.read'']"

definition role_accounts_permissions :: "string list" where
  "role_accounts_permissions =
     [''admin.master.read'', ''postsales.booking.read'', ''postsales.plan.read'',
       ''postsales.plan.edit'', ''postsales.receipt.read'', ''postsales.receipt.create'',
       ''postsales.receipt.cancel'', ''postsales.cheque.verify'', ''postsales.extra-charge.create'',
       ''postsales.interest.waive'', ''postsales.tds.read'', ''postsales.tds.certificate'',
       ''postsales.refund.request'', ''postsales.refund.approve'', ''postsales.refund.pay'',
       ''postsales.demand.read'', ''postsales.demand.generate'', ''postsales.demand.raise'',
       ''postsales.letter.read'', ''postsales.letter.generate'', ''postsales.dispatch.send'',
       ''postsales.dispatch.read'', ''accounts.receipt.verify'', ''accounts.payment.read'',
       ''accounts.payment.create'', ''accounts.commission.read'', ''accounts.commission.create'',
       ''accounts.commission.approve'', ''accounts.commission.pay'', ''accounts.noc.approve'',
       ''reports.collection.view'', ''reports.outstanding.view'', ''reports.gst.view'',
       ''reports.applicant-ledger.view'']"

definition role_customer_permissions :: "string list" where
  "role_customer_permissions =
     [''portal.booking.read'', ''portal.receipt.read'', ''portal.document.read'',
       ''portal.document.upload'', ''portal.payment-schedule.read'', ''portal.profile.update'',
       ''portal.change-request.create'', ''portal.ticket.create'', ''portal.ticket.read'',
       ''portal.construction-update.read'']"

definition role_broker_permissions :: "string list" where
  "role_broker_permissions =
     [''portal.booking.read'', ''portal.receipt.read'', ''portal.document.read'',
       ''portal.payment-schedule.read'', ''portal.profile.update'', ''portal.ticket.create'',
       ''portal.ticket.read'', ''portal.noc.action'', ''portal.broker.dashboard.read'']"

text \<open>\<open>ROLE_PERMISSIONS\<close>; no entry for a slug that is not a system role.\<close>

definition ROLE_PERMISSIONS :: "string \<Rightarrow> string list option" where
  "ROLE_PERMISSIONS = map_of
     [(''super_admin'', ALL_PERMISSIONS),
      (''company_admin'', role_company_admin_permissions),
      (''sales_manager'', role_sales_manager_permissions),
      (''sales_executive'', role_sales_executive_permissions),
      (''accounts'', role_accounts_permissions),
      (''customer'', role_customer_permissions),
      (''broker'', role_broker_permissions)]"

section \<open>What the system roles hold\<close>

text \<open>
  A role's keys are named by their positions among all keys, so that a key is looked up
  instead of compared with all others; the portal's keys are the last twelve.
\<close>

lemmas all_permissions_unfold = ALL_PERMISSIONS_def admin_permissions_def inventory_permissions_def
  presales_permissions_def postsales_permissions_def accounts_permissions_def reports_permissions_def portal_permissions_def

lemma length_all: "length ALL_PERMISSIONS = 148" by (simp add: all_permissions_unfold)

lemma at_sales_executive: "role_sales_executive_permissions = map ((!) ALL_PERMISSIONS)
  [10, 35, 39, 44, 50, 57, 59, 64, 65, 68, 69, 70, 74, 75, 76, 77, 78, 79, 80, 82, 85, 93, 112, 113, 115]"
  by (simp add: role_sales_executive_permissions_def all_permissions_unfold)

lemma at_accounts: "role_accounts_permissions = map ((!) ALL_PERMISSIONS)
  [10, 85, 91, 92, 98, 99, 100, 101, 102, 103, 104, 105, 109, 110, 111, 95, 96, 97, 115, 116, 117, 118, 120, 121, 122, 123, 124, 125, 126, 127, 129, 130, 132, 134]"
  by (simp add: role_accounts_permissions_def all_permissions_unfold)

lemma at_customer: "role_customer_permissions = map ((!) ALL_PERMISSIONS)
  [136, 137, 138, 139, 140, 141, 142, 143, 144, 146]"
  by (simp add: role_customer_permissions_def all_permissions_unfold)

lemma at_broker: "role_broker_permissions = map ((!) ALL_PERMISSIONS)
  [136, 137, 138, 140, 141, 143, 144, 145, 147]"
  by (simp add: role_broker_permissions_def all_permissions_unfold)

lemma at_sales_manager_1:
  "[''admin.user.read'', ''admin.master.read'', ''admin.broker.read'', ''inventory.project.read'',
       ''inventory.tower.read'', ''inventory.unit.read'', ''inventory.unit.hold'',
       ''inventory.unit.book'', ''inventory.unit.export'', ''inventory.rate.read'',
       ''inventory.upload.read'', ''inventory.inventory-group.manage''] =
   map ((!) ALL_PERMISSIONS) [2, 10, 18, 35, 39, 44, 50, 51, 49, 57, 59, 43]"
  by (simp add: all_permissions_unfold)

lemma at_sales_manager_2:
  "[''postsales.booking.read'', ''postsales.booking.create'', ''postsales.booking.update'',
       ''postsales.booking.allot'', ''postsales.booking.register'', ''postsales.booking.cancel'',
       ''postsales.noc.request'', ''postsales.plan.read'', ''postsales.plan.edit'',
       ''postsales.unit.read'', ''postsales.receipt.read'', ''postsales.transfer.read'',
       ''postsales.transfer.create'', ''postsales.tds.read'', ''postsales.document.read'',
       ''postsales.document.upload'', ''postsales.letter.read'', ''postsales.letter.generate'',
       ''postsales.dispatch.send'', ''postsales.dispatch.read'', ''reports.sales.view'',
       ''reports.collection.view'', ''reports.broker.view'', ''reports.applicant-ledger.view'',
       ''reports.birthday.view'', ''admin.change-request.approve'', ''admin.ticket.respond'',
       ''admin.portal-invite.send'', ''admin.construction-update.manage''] =
   map ((!) ALL_PERMISSIONS)
     [85, 86, 87, 88, 89, 90, 119, 91, 92, 93, 98, 106, 107, 104, 112, 113, 115, 116, 117, 118, 128, 129, 131, 134, 135, 24, 25, 26, 27]"
  by (simp add: all_permissions_unfold)

lemmas at_sales_manager = role_sales_manager_permissions_def [unfolded at_sales_manager_1 at_sales_manager_2]

lemma pending_not_a_permission: "TWO_FACTOR_PENDING_PERMISSION \<notin> set ALL_PERMISSIONS"
  by (simp add: TWO_FACTOR_PENDING_PERMISSION_def all_permissions_unfold)

lemma staff_part: "list_all (\<lambda>p. \<not> prefix ''portal.'' p) (take 136 ALL_PERMISSIONS)"
  by (simp add: all_permissions_unfold)

lemma portal_part: "list_all (prefix ''portal.'') (drop 136 ALL_PERMISSIONS)"
  by (simp add: all_permissions_unfold)

definition role_ok :: "bool \<Rightarrow> string list \<Rightarrow> bool" where
  "role_ok portal ps \<longleftrightarrow> (\<forall>p\<in>set ps. p \<in> set ALL_PERMISSIONS \<and> (prefix ''portal.'' p \<longleftrightarrow> portal))"

lemma key_at:
  assumes "i < 148"
  shows "ALL_PERMISSIONS ! i \<in> set ALL_PERMISSIONS" and "prefix ''portal.'' (ALL_PERMISSIONS ! i) \<longleftrightarrow> 136 \<le> i"
proof -
  show "ALL_PERMISSIONS ! i \<in> set ALL_PERMISSIONS" using assms by (simp add: length_all)
  show "prefix ''portal.'' (ALL_PERMISSIONS ! i) \<longleftrightarrow> 136 \<le> i"
  proof (cases "i < 136")
    case True
    then show ?thesis using staff_part by (auto simp: list_all_length length_all)
  next
    case False
    then have eq: "ALL_PERMISSIONS ! i = drop 136 ALL_PERMISSIONS ! (i - 136)" and "i - 136 < length (drop 136 ALL_PERMISSIONS)"
      using assms by (auto simp: length_all)
    then have "prefix ''portal.'' (drop 136 ALL_PERMISSIONS ! (i - 136))" using portal_part by (simp only: list_all_length)
    with False show ?thesis by (simp only: eq) simp
  qed
qed

lemma role_ok_at: "(\<And>i. i \<in> set is \<Longrightarrow> i < 148 \<and> (136 \<le> i \<longleftrightarrow> portal)) \<Longrightarrow> role_ok portal (map ((!) ALL_PERMISSIONS) is)"
  by (auto simp: role_ok_def key_at)

lemma role_ok_append: "role_ok portal (xs @ ys) \<longleftrightarrow> role_ok portal xs \<and> role_ok portal ys"
  by (auto simp: role_ok_def)

lemma role_ok_starting: "\<not> prefix s ''portal.'' \<Longrightarrow> \<not> prefix ''portal.'' s \<Longrightarrow> role_ok False (starting s)"
  using prefix_same_cases by (auto simp: role_ok_def starting_def)

text \<open>
  C21: what a system role is seeded with fits the role. Every key it holds is one of the
  program's permissions; the customer and broker roles hold portal keys only, the staff roles
  other than \<open>super_admin\<close> hold none of them; and no role holds the key that marks a
  2FA-pending token.
\<close>

theorem system_roles_fit:
  assumes "ROLE_PERMISSIONS slug = Some ps"
  shows "set ps \<subseteq> set ALL_PERMISSIONS \<and> TWO_FACTOR_PENDING_PERMISSION \<notin> set ps \<and>
    (slug \<noteq> ''super_admin'' \<longrightarrow> (\<forall>p\<in>set ps. prefix ''portal.'' p \<longleftrightarrow> slug \<in> {''customer'', ''broker''}))"
proof -
  have admin: "role_ok False role_company_admin_permissions"
    unfolding role_company_admin_permissions_def role_ok_append by (intro conjI role_ok_starting) simp_all
  have manager: "role_ok False role_sales_manager_permissions"
    unfolding at_sales_manager role_ok_append by (intro conjI role_ok_starting role_ok_at) auto
  have staff: "role_ok False role_sales_executive_permissions" "role_ok False role_accounts_permissions"
    unfolding at_sales_executive at_accounts by (rule role_ok_at; auto)+
  have portal: "role_ok True role_customer_permissions" "role_ok True role_broker_permissions"
    unfolding at_customer at_broker by (rule role_ok_at; auto)+
  have "ps = ALL_PERMISSIONS \<and> slug = ''super_admin'' \<or>
      role_ok False ps \<and> slug \<notin> {''customer'', ''broker''} \<or> role_ok True ps \<and> slug \<in> {''customer'', ''broker''}"
    using assms admin manager staff portal by (auto simp: ROLE_PERMISSIONS_def split: if_splits)
  then have "set ps \<subseteq> set ALL_PERMISSIONS \<and>
      (slug \<noteq> ''super_admin'' \<longrightarrow> (\<forall>p\<in>set ps. prefix ''portal.'' p \<longleftrightarrow> slug \<in> {''customer'', ''broker''}))"
    by (auto simp: role_ok_def)
  with pending_not_a_permission show ?thesis by blast
qed

theorem system_roles_fit_witness:
  "\<exists>ps. ROLE_PERMISSIONS ''broker'' = Some ps \<and> ''portal.noc.action'' \<in> set ps \<and> (\<forall>p\<in>set ps. prefix ''portal.'' p)"
proof -
  have r: "ROLE_PERMISSIONS ''broker'' = Some role_broker_permissions" by (simp add: ROLE_PERMISSIONS_def)
  from system_roles_fit [OF r] r show ?thesis by (simp add: role_broker_permissions_def)
qed

text \<open>
  The three keys of a commission payment are meant for three persons; the seeded accounts role
  holds all of them (and the three of a refund), and no service compares the persons.
\<close>

lemma accounts_role_holds_whole_chain:
  "{''accounts.commission.create'', ''accounts.commission.approve'', ''accounts.commission.pay'',
    ''postsales.refund.request'', ''postsales.refund.approve'', ''postsales.refund.pay''} \<subseteq> set role_accounts_permissions"
  by (simp add: role_accounts_permissions_def)

end
