(* ===== verification/AuthRows.thy ===== *)
theory AuthRows
  imports Rows
begin

text \<open>
  The rows behind authentication and authorisation (\<open>packages/db/prisma/schema.prisma\<close>):
  users, roles, permissions, refresh tokens, password reset links and the rows the services
  write to the audit log themselves. A table is the list of its rows in insertion order; ids
  are numbers, times are milliseconds. Display names other than the role's, \<open>updatedAt\<close>
  and the JSON column of an audit row are left out: no modelled code reads them.
\<close>

section \<open>Rows\<close>

record user =
  us_id :: id
  us_companyId :: id
  us_email :: "string option"
  us_passwordHash :: string
  us_name :: string
  us_phone :: "string option"
  us_roleId :: id
  us_isActive :: bool
  us_forcePasswordChange :: bool
  us_managerId :: "id option"
  us_totpSecret :: "string option"
  us_totpEnabled :: bool
  us_recoveryCodes :: "string list"
  us_failedTotpAttempts :: int
  us_totpLockedUntil :: "int option"
  us_authzVersion :: int
  us_failedLoginAttempts :: int
  us_lockedUntil :: "int option"
  us_lastLoginAt :: "int option"
  us_applicantId :: "id option"
  us_brokerId :: "id option"

record role =
  ro_id :: id
  ro_companyId :: id
  ro_name :: string
  ro_slug :: string
  ro_isSystem :: bool
  ro_isPortal :: bool

record permission =
  pm_id :: id
  pm_key :: string

record role_permission =
  rp_roleId :: id
  rp_permissionId :: id

record refresh_token =
  rt_id :: id
  rt_userId :: id
  rt_tokenHash :: string
  rt_family :: id
  rt_isRevoked :: bool
  rt_revokedAt :: "int option"
  rt_expiresAt :: int
  rt_createdAt :: int

text \<open>\<open>PasswordReset\<close> and \<open>PortalPasswordReset\<close> have the same columns.\<close>

record reset_link =
  rl_id :: id
  rl_companyId :: id
  rl_userId :: id
  rl_tokenHash :: string
  rl_expiresAt :: int
  rl_consumedAt :: "int option"
  rl_createdById :: "id option"

record auth_event =
  ae_companyId :: id
  ae_userId :: id
  ae_entityType :: string
  ae_entityId :: id
  ae_action :: string

record auth_db =
  next_auth_id :: id
  users :: "user list"
  roles :: "role list"
  permissions :: "permission list"
  rolePermissions :: "role_permission list"
  refreshTokens :: "refresh_token list"
  passwordResets :: "reset_link list"
  portalPasswordResets :: "reset_link list"
  auditLogs :: "auth_event list"

section \<open>Queries and writes the services share\<close>

definition find_user :: "auth_db \<Rightarrow> id \<Rightarrow> user option" where
  "find_user d i = List.find (\<lambda>u. us_id u = i) (users d)"

definition find_role :: "auth_db \<Rightarrow> id \<Rightarrow> role option" where
  "find_role d i = List.find (\<lambda>r. ro_id r = i) (roles d)"

text \<open>The permission keys a role's rows hold.\<close>

definition stored_keys :: "auth_db \<Rightarrow> id \<Rightarrow> string list" where
  "stored_keys d roleId =
     map pm_key (concat (map (\<lambda>rp. filter (\<lambda>p. pm_id p = rp_permissionId rp) (permissions d))
       (filter (\<lambda>rp. rp_roleId rp = roleId) (rolePermissions d))))"

definition upd_user :: "id \<Rightarrow> (user \<Rightarrow> user) \<Rightarrow> auth_db \<Rightarrow> auth_db" where
  "upd_user i f d = d\<lparr>users := update_rows (\<lambda>u. us_id u = i) f (users d)\<rparr>"

definition log_event :: "auth_event \<Rightarrow> auth_db \<Rightarrow> auth_db" where
  "log_event e d = d\<lparr>auditLogs := auditLogs d @ [e]\<rparr>"

definition user_event :: "id \<Rightarrow> id \<Rightarrow> id \<Rightarrow> string \<Rightarrow> auth_event" where
  "user_event companyId actorId targetUserId act =
     \<lparr>ae_companyId = companyId, ae_userId = actorId, ae_entityType = ''User'', ae_entityId = targetUserId,
      ae_action = act\<rparr>"

text \<open>\<open>where: { consumedAt: null, expiresAt: { gt: now } }\<close>, and its update.\<close>

definition link_live :: "int \<Rightarrow> reset_link \<Rightarrow> bool" where
  "link_live now l \<longleftrightarrow> rl_consumedAt l = None \<and> now < rl_expiresAt l"

definition consume_links :: "int \<Rightarrow> (reset_link \<Rightarrow> bool) \<Rightarrow> reset_link list \<Rightarrow> reset_link list" where
  "consume_links now p ls = update_rows (\<lambda>l. p l \<and> link_live now l) (\<lambda>l. l\<lparr>rl_consumedAt := Some now\<rparr>) ls"

lemma find_user_upd:
  assumes "\<And>u. us_id (f u) = us_id u"
  shows "find_user (upd_user i f d) j = map_option (\<lambda>u. if us_id u = i then f u else u) (find_user d j)"
  using find_update_rows [of "\<lambda>u. us_id u = j" f "\<lambda>u. us_id u = i" "users d"] assms
  by (simp add: find_user_def upd_user_def)

lemma find_user_id: "find_user d i = Some u \<Longrightarrow> us_id u = i \<and> u \<in> set (users d)"
  by (auto simp: find_user_def dest: find_SomeD)

lemma set_stored_keys:
  "set (stored_keys d roleId) =
     {pm_key p | p rp. p \<in> set (permissions d) \<and> rp \<in> set (rolePermissions d) \<and> rp_roleId rp = roleId \<and>
        pm_id p = rp_permissionId rp}"
  by (auto simp: stored_keys_def image_iff)

end
