(* ===== verification/Sessions.thy ===== *)
theory Sessions
  imports AuthRows Text
begin

text \<open>
  \<open>apps/api/src/auth/token.service.ts\<close>: refresh tokens with single-use rotation, reuse
  detection and a grace window, and the end of a user's sessions. Every operation runs under
  a per-user lock in one transaction, so it is one step here. The clock, the SHA-256 hash and
  the random raw tokens are arguments; a generated id is the next unused number.
\<close>

section \<open>Operations\<close>

record token_config =
  tc_refreshExpiresIn :: string
  tc_reuseGraceMs :: int

text \<open>\<open>/^(\d+)([smhd])$/\<close>\<close>

definition computeExpiry :: "int \<Rightarrow> string \<Rightarrow> int" where
  "computeExpiry now duration =
     (let ds = butlast duration; u = last duration in
      if duration = [] \<or> ds = [] \<or> \<not> list_all is_digit ds \<or> u \<notin> set ''smhd'' then now + 7 * 24 * 60 * 60 * 1000
      else now + int (digits_val ds) *
        (if u = CHR ''s'' then 1000
         else if u = CHR ''m'' then 60 * 1000
         else if u = CHR ''h'' then 60 * 60 * 1000
         else 24 * 60 * 60 * 1000))"

definition find_token :: "auth_db \<Rightarrow> string \<Rightarrow> refresh_token option" where
  "find_token d h = List.find (\<lambda>t. rt_tokenHash t = h) (refreshTokens d)"

definition ownerOf :: "auth_db \<Rightarrow> string \<Rightarrow> id option" where
  "ownerOf d h = map_option rt_userId (find_token d h)"

definition insert_token :: "id \<Rightarrow> string \<Rightarrow> id \<Rightarrow> int \<Rightarrow> int \<Rightarrow> auth_db \<Rightarrow> auth_db" where
  "insert_token userId h family expiresAt now d =
     d\<lparr>refreshTokens := refreshTokens d @
          [\<lparr>rt_id = next_auth_id d, rt_userId = userId, rt_tokenHash = h, rt_family = family,
            rt_isRevoked = False, rt_revokedAt = None, rt_expiresAt = expiresAt, rt_createdAt = now\<rparr>],
        next_auth_id := next_auth_id d + 1\<rparr>"

definition revoke_where :: "int \<Rightarrow> (refresh_token \<Rightarrow> bool) \<Rightarrow> auth_db \<Rightarrow> auth_db" where
  "revoke_where now p d =
     d\<lparr>refreshTokens := update_rows p (\<lambda>t. t\<lparr>rt_isRevoked := True, rt_revokedAt := Some now\<rparr>) (refreshTokens d)\<rparr>"

text \<open>A new family is a random id: the next unused number. The user must exist.\<close>

definition createRefreshToken ::
  "token_config \<Rightarrow> (string \<Rightarrow> string) \<Rightarrow> int \<Rightarrow> string \<Rightarrow> id \<Rightarrow> id option \<Rightarrow> string option \<Rightarrow> auth_db \<Rightarrow> (int \<times> auth_db) result" where
  "createRefreshToken cfg hash now raw userId family expiresInOverride d =
     (let tokenFamily = (case family of Some f \<Rightarrow> f | None \<Rightarrow> next_auth_id d);
          d1 = (case family of Some f \<Rightarrow> d | None \<Rightarrow> d\<lparr>next_auth_id := next_auth_id d + 1\<rparr>);
          expiresAt = computeExpiry now (case expiresInOverride of Some e \<Rightarrow> e | None \<Rightarrow> tc_refreshExpiresIn cfg)
      in bindE (ensure (find_user d userId \<noteq> None) ForeignKeyViolation) (\<lambda>_.
           Inr (expiresAt, insert_token userId (hash raw) tokenFamily expiresAt now d1)))"

definition rotateRow ::
  "token_config \<Rightarrow> (string \<Rightarrow> string) \<Rightarrow> int \<Rightarrow> string \<Rightarrow> string option \<Rightarrow> refresh_token \<Rightarrow> auth_db \<Rightarrow> (id \<times> int) \<times> auth_db" where
  "rotateRow cfg hash now newRaw expiresInOverride row d =
     (let d1 = revoke_where now (\<lambda>t. rt_id t = rt_id row) d;
          expiresAt = computeExpiry now (case expiresInOverride of Some e \<Rightarrow> e | None \<Rightarrow> tc_refreshExpiresIn cfg)
      in ((rt_userId row, expiresAt), insert_token (rt_userId row) (hash newRaw) (rt_family row) expiresAt now d1))"

definition revokeFamilyById :: "int \<Rightarrow> id \<Rightarrow> auth_db \<Rightarrow> auth_db" where
  "revokeFamilyById now family d = revoke_where now (\<lambda>t. rt_family t = family \<and> \<not> rt_isRevoked t) d"

text \<open>\<open>orderBy: { createdAt: 'desc' }\<close>, first row.\<close>

fun newest :: "refresh_token list \<Rightarrow> refresh_token option" where
  "newest [] = None"
| "newest (t # ts) =
     (case newest ts of None \<Rightarrow> Some t | Some u \<Rightarrow> Some (if rt_createdAt u < rt_createdAt t then t else u))"

definition live_in_family :: "int \<Rightarrow> id \<Rightarrow> auth_db \<Rightarrow> refresh_token option" where
  "live_in_family now family d =
     newest (filter (\<lambda>t. rt_family t = family \<and> \<not> rt_isRevoked t \<and> now < rt_expiresAt t) (refreshTokens d))"

definition within_grace :: "token_config \<Rightarrow> int \<Rightarrow> refresh_token \<Rightarrow> bool" where
  "within_grace cfg now t \<longleftrightarrow>
     (case rt_revokedAt t of None \<Rightarrow> False | Some t0 \<Rightarrow> now - t0 \<le> tc_reuseGraceMs cfg)"

definition rotateLocked ::
  "token_config \<Rightarrow> (string \<Rightarrow> string) \<Rightarrow> int \<Rightarrow> string \<Rightarrow> string \<Rightarrow> string option \<Rightarrow> auth_db \<Rightarrow> (id \<times> int) option \<times> auth_db" where
  "rotateLocked cfg hash now h newRaw expiresInOverride d =
     (case find_token d h of
        None \<Rightarrow> (None, d)
      | Some existing \<Rightarrow>
          if rt_isRevoked existing
          then (case (if within_grace cfg now existing then live_in_family now (rt_family existing) d else None) of
                  Some live \<Rightarrow> map_prod Some (\<lambda>d. d) (rotateRow cfg hash now newRaw expiresInOverride live d)
                | None \<Rightarrow> (None, revokeFamilyById now (rt_family existing) d))
          else if rt_expiresAt existing < now
          then (None, revoke_where now (\<lambda>t. rt_id t = rt_id existing) d)
          else map_prod Some (\<lambda>d. d) (rotateRow cfg hash now newRaw expiresInOverride existing d))"

record rotated =
  rr_userId :: id
  rr_expiresAt :: int
  rr_authzVersion :: int

definition rotateRefreshToken ::
  "token_config \<Rightarrow> (string \<Rightarrow> string) \<Rightarrow> int \<Rightarrow> string \<Rightarrow> string \<Rightarrow> string option \<Rightarrow> auth_db \<Rightarrow> rotated option \<times> auth_db" where
  "rotateRefreshToken cfg hash now rawToken newRaw expiresInOverride d =
     (case ownerOf d (hash rawToken) of
        None \<Rightarrow> (None, d)
      | Some owner \<Rightarrow>
          (case find_user d owner of
             None \<Rightarrow> (None, d)
           | Some u \<Rightarrow>
               if \<not> us_isActive u then (None, d)
               else (let (r, d') = rotateLocked cfg hash now (hash rawToken) newRaw expiresInOverride d in
                     (map_option (\<lambda>(uid, e). \<lparr>rr_userId = uid, rr_expiresAt = e, rr_authzVersion = us_authzVersion u\<rparr>) r,
                      d'))))"

definition revokeFamily :: "(string \<Rightarrow> string) \<Rightarrow> int \<Rightarrow> string \<Rightarrow> auth_db \<Rightarrow> auth_db" where
  "revokeFamily hash now rawToken d =
     (case find_token d (hash rawToken) of
        None \<Rightarrow> d
      | Some existing \<Rightarrow> revokeFamilyById now (rt_family existing) d)"

definition revokeAllForUser :: "int \<Rightarrow> id \<Rightarrow> auth_db \<Rightarrow> auth_db" where
  "revokeAllForUser now userId d = revoke_where now (\<lambda>t. rt_userId t = userId \<and> \<not> rt_isRevoked t) d"

definition bump_version :: "id \<Rightarrow> auth_db \<Rightarrow> auth_db" where
  "bump_version userId d = upd_user userId (\<lambda>u. u\<lparr>us_authzVersion := us_authzVersion u + 1\<rparr>) d"

definition endSessions ::
  "(string \<Rightarrow> string) \<Rightarrow> int \<Rightarrow> id \<Rightarrow> string option \<Rightarrow> auth_db \<Rightarrow> (int \<times> auth_db) result" where
  "endSessions hash now userId exceptRawToken d =
     bindE (orFail (JsError ''Cannot end sessions for a user that does not exist'') (find_user d userId)) (\<lambda>u.
       let d1 = bump_version userId d;
           current = (case exceptRawToken of
                        None \<Rightarrow> None
                      | Some raw \<Rightarrow> if raw = [] then None else find_token d1 (hash raw))
       in Inr (us_authzVersion u + 1,
               revoke_where now
                 (\<lambda>t. rt_userId t = userId \<and> \<not> rt_isRevoked t \<and>
                    (case current of None \<Rightarrow> True | Some c \<Rightarrow> rt_family t \<noteq> rt_family c)) d1))"

definition currentAuthzVersion :: "id \<Rightarrow> auth_db \<Rightarrow> int result" where
  "currentAuthzVersion userId d =
     bindE (orFail (JsError ''Cannot issue a token for a user that does not exist'') (find_user d userId)) (\<lambda>u.
       Inr (us_authzVersion u))"

section \<open>Runs\<close>

text \<open>
  Any sequence of token operations, interleaved with writes that leave the refresh tokens
  alone (users, roles, reset links). \<open>createRefreshToken\<close> starts a new family: no caller
  passes one.
\<close>

inductive token_step :: "token_config \<Rightarrow> (string \<Rightarrow> string) \<Rightarrow> auth_db \<Rightarrow> auth_db \<Rightarrow> bool" for cfg hash where
  create: "createRefreshToken cfg hash now raw userId None override d = Inr (e, d') \<Longrightarrow> token_step cfg hash d d'"
| rotate: "rotateRefreshToken cfg hash now raw newRaw override d = (r, d') \<Longrightarrow> token_step cfg hash d d'"
| logout: "revokeFamily hash now raw d = d' \<Longrightarrow> token_step cfg hash d d'"
| logout_all: "revokeAllForUser now userId d = d' \<Longrightarrow> token_step cfg hash d d'"
| end_sessions: "endSessions hash now userId exceptRaw d = Inr (v, d') \<Longrightarrow> token_step cfg hash d d'"
| elsewhere: "refreshTokens d' = refreshTokens d \<Longrightarrow> next_auth_id d \<le> next_auth_id d' \<Longrightarrow> token_step cfg hash d d'"

inductive token_run :: "token_config \<Rightarrow> (string \<Rightarrow> string) \<Rightarrow> auth_db \<Rightarrow> auth_db \<Rightarrow> bool" for cfg hash where
  refl: "token_run cfg hash d d"
| step: "token_run cfg hash d e \<Longrightarrow> token_step cfg hash e f \<Longrightarrow> token_run cfg hash d f"

section \<open>What the writes do to the tokens\<close>

lemma revoke_where_tokens:
  "refreshTokens (revoke_where now p d) =
     update_rows p (\<lambda>t. t\<lparr>rt_isRevoked := True, rt_revokedAt := Some now\<rparr>) (refreshTokens d)"
  by (simp add: revoke_where_def)

lemma revoke_where_frame [simp]:
  "next_auth_id (revoke_where now p d) = next_auth_id d"
  "users (revoke_where now p d) = users d"
  "find_user (revoke_where now p d) u = find_user d u"
  by (simp_all add: revoke_where_def find_user_def)

lemma insert_token_frame [simp]:
  "next_auth_id (insert_token u h f e now d) = next_auth_id d + 1"
  "users (insert_token u h f e now d) = users d"
  by (simp_all add: insert_token_def)

lemma upd_user_frame [simp]:
  "refreshTokens (upd_user i f d) = refreshTokens d"
  "next_auth_id (upd_user i f d) = next_auth_id d"
  by (simp_all add: upd_user_def)

lemma bump_version_frame [simp]:
  "refreshTokens (bump_version i d) = refreshTokens d"
  "next_auth_id (bump_version i d) = next_auth_id d"
  by (simp_all add: bump_version_def)

lemma find_token_revoke [simp]:
  "find_token (revoke_where now p d) h =
     map_option (\<lambda>t. if p t then t\<lparr>rt_isRevoked := True, rt_revokedAt := Some now\<rparr> else t) (find_token d h)"
  unfolding find_token_def revoke_where_tokens by (rule find_update_rows) simp

lemma find_token_insert:
  "find_token (insert_token u h f e now d) h' =
     (case find_token d h' of Some t \<Rightarrow> Some t
      | None \<Rightarrow> if h = h' then Some \<lparr>rt_id = next_auth_id d, rt_userId = u, rt_tokenHash = h, rt_family = f,
            rt_isRevoked = False, rt_revokedAt = None, rt_expiresAt = e, rt_createdAt = now\<rparr> else None)"
  by (simp add: find_token_def insert_token_def find_append split: option.split)

lemma find_token_mem: "find_token d h = Some t \<Longrightarrow> t \<in> set (refreshTokens d) \<and> rt_tokenHash t = h"
  by (auto simp: find_token_def dest: find_SomeD)

lemma newest_mem: "newest ts = Some t \<Longrightarrow> t \<in> set ts"
  by (induction ts arbitrary: t) (auto split: option.splits if_splits)

lemma newest_None [simp]: "newest ts = None \<longleftrightarrow> ts = []"
  by (cases ts) (auto split: option.splits)

lemma live_in_familyD:
  "live_in_family now f d = Some t \<Longrightarrow>
   t \<in> set (refreshTokens d) \<and> rt_family t = f \<and> \<not> rt_isRevoked t \<and> now < rt_expiresAt t"
  by (auto simp: live_in_family_def dest: newest_mem)

section \<open>Families\<close>

text \<open>
  The invariant: ids are distinct, a family belongs to one user, and at most one of its
  tokens is not revoked.
\<close>

definition tokens_ok :: "auth_db \<Rightarrow> bool" where
  "tokens_ok d \<longleftrightarrow>
     distinct (map rt_id (refreshTokens d)) \<and>
     (\<forall>t\<in>set (refreshTokens d). rt_id t < next_auth_id d \<and> rt_family t < next_auth_id d) \<and>
     (\<forall>t\<in>set (refreshTokens d). \<forall>t'\<in>set (refreshTokens d). rt_family t = rt_family t' \<longrightarrow>
        rt_userId t = rt_userId t' \<and> (\<not> rt_isRevoked t \<and> \<not> rt_isRevoked t' \<longrightarrow> rt_id t = rt_id t'))"

lemma tokens_okD:
  assumes "tokens_ok d"
  shows "distinct (map rt_id (refreshTokens d))"
    and "t \<in> set (refreshTokens d) \<Longrightarrow> rt_id t < next_auth_id d"
    and "t \<in> set (refreshTokens d) \<Longrightarrow> rt_family t < next_auth_id d"
    and "t \<in> set (refreshTokens d) \<Longrightarrow> t' \<in> set (refreshTokens d) \<Longrightarrow> rt_family t = rt_family t' \<Longrightarrow> rt_userId t = rt_userId t'"
    and "t \<in> set (refreshTokens d) \<Longrightarrow> t' \<in> set (refreshTokens d) \<Longrightarrow> rt_family t = rt_family t' \<Longrightarrow>
           \<not> rt_isRevoked t \<Longrightarrow> \<not> rt_isRevoked t' \<Longrightarrow> rt_id t = rt_id t'"
  using assms unfolding tokens_ok_def by blast+

lemma tokens_okI:
  assumes "distinct (map rt_id (refreshTokens d))"
    and "\<And>t. t \<in> set (refreshTokens d) \<Longrightarrow> rt_id t < next_auth_id d \<and> rt_family t < next_auth_id d"
    and "\<And>t t'. t \<in> set (refreshTokens d) \<Longrightarrow> t' \<in> set (refreshTokens d) \<Longrightarrow> rt_family t = rt_family t' \<Longrightarrow>
           rt_userId t = rt_userId t' \<and> (\<not> rt_isRevoked t \<and> \<not> rt_isRevoked t' \<longrightarrow> rt_id t = rt_id t')"
  shows "tokens_ok d"
  using assms unfolding tokens_ok_def by blast

lemma tokens_ok_image:
  assumes ok: "tokens_ok d" and g: "refreshTokens d' = map g (refreshTokens d)" "next_auth_id d' = next_auth_id d"
    and same: "\<And>t. rt_id (g t) = rt_id t" "\<And>t. rt_family (g t) = rt_family t" "\<And>t. rt_userId (g t) = rt_userId t"
    and rev: "\<And>t. \<not> rt_isRevoked (g t) \<Longrightarrow> \<not> rt_isRevoked t"
  shows "tokens_ok d'"
proof (rule tokens_okI)
  have "map rt_id (refreshTokens d') = map rt_id (refreshTokens d)" by (simp add: g same)
  then show "distinct (map rt_id (refreshTokens d'))" using tokens_okD(1) [OF ok] by simp
next
  fix t assume "t \<in> set (refreshTokens d')"
  then obtain t0 where "t0 \<in> set (refreshTokens d)" "t = g t0" by (auto simp: g)
  then show "rt_id t < next_auth_id d' \<and> rt_family t < next_auth_id d'"
    using tokens_okD(2,3) [OF ok] by (simp add: g same)
next
  fix t t' assume t: "t \<in> set (refreshTokens d')" "t' \<in> set (refreshTokens d')" "rt_family t = rt_family t'"
  then obtain t0 t1 where old: "t0 \<in> set (refreshTokens d)" "t1 \<in> set (refreshTokens d)" "t = g t0" "t' = g t1"
    by (auto simp: g)
  with t(3) have f: "rt_family t0 = rt_family t1" by (simp add: same)
  show "rt_userId t = rt_userId t' \<and> (\<not> rt_isRevoked t \<and> \<not> rt_isRevoked t' \<longrightarrow> rt_id t = rt_id t')"
    using tokens_okD(4,5) [OF ok old(1,2) f] rev by (auto simp: old(3,4) same)
qed

lemma tokens_ok_revoke: "tokens_ok d \<Longrightarrow> tokens_ok (revoke_where now p d)"
  by (rule tokens_ok_image [where g = "\<lambda>t. if p t then t\<lparr>rt_isRevoked := True, rt_revokedAt := Some now\<rparr> else t"])
    (auto simp: revoke_where_tokens update_rows_def split: if_splits)

lemma tokens_ok_elsewhere:
  assumes ok: "tokens_ok d" and same: "refreshTokens d' = refreshTokens d" and le: "next_auth_id d \<le> next_auth_id d'"
  shows "tokens_ok d'"
proof (rule tokens_okI, unfold same)
  show "distinct (map rt_id (refreshTokens d))" by (rule tokens_okD(1) [OF ok])
  show "rt_id t < next_auth_id d' \<and> rt_family t < next_auth_id d'" if "t \<in> set (refreshTokens d)" for t
    using tokens_okD(2,3) [OF ok that] le by simp
qed (use tokens_okD(4,5) [OF ok] in blast)

lemma tokens_ok_insert:
  assumes "tokens_ok d" and "f < next_auth_id d"
    and "\<And>t. t \<in> set (refreshTokens d) \<Longrightarrow> rt_family t = f \<Longrightarrow> rt_isRevoked t \<and> rt_userId t = u"
  shows "tokens_ok (insert_token u h f e now d)"
proof -
  let ?n = "next_auth_id d" and ?T = "set (refreshTokens d)"
  let ?t = "\<lparr>rt_id = ?n, rt_userId = u, rt_tokenHash = h, rt_family = f, rt_isRevoked = False,
    rt_revokedAt = None, rt_expiresAt = e, rt_createdAt = now\<rparr>"
  have set: "set (refreshTokens (insert_token u h f e now d)) = insert ?t ?T"
    and ids: "map rt_id (refreshTokens (insert_token u h f e now d)) = map rt_id (refreshTokens d) @ [?n]"
    by (simp_all add: insert_token_def)
  have fresh: "?n \<notin> rt_id ` ?T" using tokens_okD(2) [OF assms(1)] by fastforce
  show ?thesis
  proof (rule tokens_okI)
    show "distinct (map rt_id (refreshTokens (insert_token u h f e now d)))"
      using tokens_okD(1) [OF assms(1)] fresh by (simp add: ids)
  next
    fix t assume "t \<in> set (refreshTokens (insert_token u h f e now d))"
    then show "rt_id t < next_auth_id (insert_token u h f e now d) \<and> rt_family t < next_auth_id (insert_token u h f e now d)"
      using tokens_okD(2,3) [OF assms(1)] assms(2) by (fastforce simp: set)
  next
    fix t t' assume t: "t \<in> set (refreshTokens (insert_token u h f e now d))"
      "t' \<in> set (refreshTokens (insert_token u h f e now d))" "rt_family t = rt_family t'"
    consider "t = ?t" "t' = ?t" | "t = ?t" "t' \<in> ?T" | "t \<in> ?T" "t' = ?t" | "t \<in> ?T" "t' \<in> ?T"
      using t(1,2) unfolding set by blast
    then show "rt_userId t = rt_userId t' \<and> (\<not> rt_isRevoked t \<and> \<not> rt_isRevoked t' \<longrightarrow> rt_id t = rt_id t')"
    proof cases
      case 4
      then show ?thesis using tokens_okD(4,5) [OF assms(1) _ _ t(3)] by blast
    qed (use t(3) assms(3) in auto)
  qed
qed

lemma tokens_ok_create:
  assumes "tokens_ok d" and "createRefreshToken cfg hash now raw userId None override d = Inr (e, d')"
  shows "tokens_ok d'"
proof -
  let ?d = "d\<lparr>next_auth_id := next_auth_id d + 1\<rparr>"
  have d': "d' = insert_token userId (hash raw) (next_auth_id d) e now ?d"
    using assms(2) by (auto simp: createRefreshToken_def Let_def)
  have "tokens_ok ?d" by (rule tokens_ok_elsewhere [OF assms(1)]) simp_all
  moreover have "rt_family t \<noteq> next_auth_id d" if "t \<in> set (refreshTokens ?d)" for t
    using assms(1) that by (auto simp: tokens_ok_def)
  ultimately show ?thesis unfolding d' by (intro tokens_ok_insert) auto
qed

lemma tokens_ok_rotateRow:
  assumes ok: "tokens_ok d" and row: "row \<in> set (refreshTokens d)" "\<not> rt_isRevoked row"
  shows "tokens_ok (snd (rotateRow cfg hash now newRaw override row d))"
proof -
  have "rt_family row < next_auth_id d" using ok row by (auto simp: tokens_ok_def)
  moreover have "rt_isRevoked t \<and> rt_userId t = rt_userId row"
    if "t \<in> set (refreshTokens (revoke_where now (\<lambda>t. rt_id t = rt_id row) d))" "rt_family t = rt_family row" for t
  proof -
    let ?g = "\<lambda>t. if rt_id t = rt_id row then t\<lparr>rt_isRevoked := True, rt_revokedAt := Some now\<rparr> else t"
    from that obtain t0 where t0: "t0 \<in> set (refreshTokens d)" "t = ?g t0"
      by (auto simp: revoke_where_tokens set_update_rows)
    with that(2) have "rt_family t0 = rt_family row" by (simp split: if_splits)
    with tokens_okD(4,5) [OF ok t0(1) row(1)] row(2) show ?thesis by (auto simp: t0(2))
  qed
  ultimately show ?thesis
    using tokens_ok_revoke [OF ok] by (simp add: rotateRow_def Let_def tokens_ok_insert)
qed

section \<open>What a rotation does\<close>

lemma rotate_cases:
  assumes "rotateRefreshToken cfg hash now raw newRaw override d = (r, d')"
  obtains
    (refused) "r = None" "d' = d"
  | (revoked) t p where "find_token d (hash raw) = Some t" "r = None" "d' = revoke_where now p d"
      "\<And>x. x \<in> set (refreshTokens d) \<Longrightarrow> p x \<Longrightarrow> rt_family x = rt_family t \<or> rt_id x = rt_id t"
  | (rotated) t row u where "find_token d (hash raw) = Some t" "row \<in> set (refreshTokens d)" "\<not> rt_isRevoked row"
      "rt_family row = rt_family t" "find_user d (rt_userId t) = Some u" "us_isActive u"
      "r = Some \<lparr>rr_userId = rt_userId row,
         rr_expiresAt = computeExpiry now (case override of Some e \<Rightarrow> e | None \<Rightarrow> tc_refreshExpiresIn cfg),
         rr_authzVersion = us_authzVersion u\<rparr>"
      "d' = snd (rotateRow cfg hash now newRaw override row d)"
proof (cases "find_token d (hash raw)")
  case None
  with assms show ?thesis by (intro refused) (auto simp: rotateRefreshToken_def ownerOf_def)
next
  case (Some t)
  show ?thesis
  proof (cases "find_user d (rt_userId t)")
    case None
    with assms Some show ?thesis by (intro refused) (auto simp: rotateRefreshToken_def ownerOf_def)
  next
    case u: (Some u)
    have step: "r = map_option (\<lambda>(uid, e). \<lparr>rr_userId = uid, rr_expiresAt = e, rr_authzVersion = us_authzVersion u\<rparr>) r0"
      "d' = d0" if "rotateLocked cfg hash now (hash raw) newRaw override d = (r0, d0)" "us_isActive u" for r0 d0
      using that assms Some u by (auto simp: rotateRefreshToken_def ownerOf_def)
    show ?thesis
    proof (cases "us_isActive u")
      case False
      with assms Some u show ?thesis by (intro refused) (auto simp: rotateRefreshToken_def ownerOf_def)
    next
      case active: True
      let ?live = "if within_grace cfg now t then live_in_family now (rt_family t) d else None"
      consider (dead) "rt_isRevoked t" "?live = None" | (chain) row where "rt_isRevoked t" "?live = Some row"
        | (expired) "\<not> rt_isRevoked t" "rt_expiresAt t < now" | (fresh) "\<not> rt_isRevoked t" "\<not> rt_expiresAt t < now"
        by (cases ?live) auto
      then show ?thesis
      proof cases
        case dead
        then have "rotateLocked cfg hash now (hash raw) newRaw override d = (None, revokeFamilyById now (rt_family t) d)"
          by (simp add: rotateLocked_def Some)
        from step [OF this active] show ?thesis
          by (intro revoked [of t "\<lambda>x. rt_family x = rt_family t \<and> \<not> rt_isRevoked x"])
            (simp_all add: revokeFamilyById_def Some)
      next
        case (chain row)
        then have live: "live_in_family now (rt_family t) d = Some row" by (simp split: if_splits)
        have "rotateLocked cfg hash now (hash raw) newRaw override d =
            map_prod Some (\<lambda>d. d) (rotateRow cfg hash now newRaw override row d)"
          using chain by (simp add: rotateLocked_def Some)
        with step active live_in_familyD [OF live] show ?thesis
          by (intro rotated [OF Some _ _ _ u]) (auto simp: rotateRow_def Let_def)
      next
        case expired
        then have "rotateLocked cfg hash now (hash raw) newRaw override d =
            (None, revoke_where now (\<lambda>x. rt_id x = rt_id t) d)"
          by (simp add: rotateLocked_def Some)
        from step [OF this active] show ?thesis
          by (intro revoked [of t "\<lambda>x. rt_id x = rt_id t"]) (simp_all add: Some)
      next
        case fresh
        then have "rotateLocked cfg hash now (hash raw) newRaw override d =
            map_prod Some (\<lambda>d. d) (rotateRow cfg hash now newRaw override t d)"
          by (simp add: rotateLocked_def Some)
        with step active fresh find_token_mem [OF Some] show ?thesis
          by (intro rotated [OF Some _ _ _ u]) (auto simp: rotateRow_def Let_def)
      qed
    qed
  qed
qed

lemma endSessions_step:
  assumes "endSessions hash now userId exceptRaw d = Inr (v, d')"
  shows "\<exists>p u. d' = revoke_where now p (bump_version userId d) \<and> find_user d userId = Some u \<and>
    v = us_authzVersion u + 1"
  using assms by (auto simp: endSessions_def Let_def)

lemma tokens_ok_step: "token_step cfg hash d d' \<Longrightarrow> tokens_ok d \<Longrightarrow> tokens_ok d'"
proof (induction rule: token_step.induct)
  case (create now raw userId override d e d')
  then show ?case by (blast intro: tokens_ok_create)
next
  case (rotate now raw newRaw override d r d')
  from rotate.hyps show ?case
    by (cases rule: rotate_cases) (simp_all add: rotate.prems tokens_ok_revoke tokens_ok_rotateRow)
next
  case (logout now raw d d')
  then show ?case by (auto simp: revokeFamily_def revokeFamilyById_def tokens_ok_revoke split: option.splits)
next
  case (logout_all now userId d d')
  then show ?case by (auto simp: revokeAllForUser_def tokens_ok_revoke)
next
  case (end_sessions now userId exceptRaw d v d')
  have "tokens_ok (bump_version userId d)" by (rule tokens_ok_elsewhere [OF end_sessions.prems]) simp_all
  with endSessions_step [OF end_sessions.hyps] show ?case by (auto simp: tokens_ok_revoke)
next
  case (elsewhere d' d)
  then show ?case by (blast intro: tokens_ok_elsewhere)
qed

lemma tokens_ok_run: "token_run cfg hash d d' \<Longrightarrow> tokens_ok d \<Longrightarrow> tokens_ok d'"
  by (induction rule: token_run.induct) (auto intro: tokens_ok_step)

lemma next_auth_id_step: "token_step cfg hash d d' \<Longrightarrow> next_auth_id d \<le> next_auth_id d'"
proof (induction rule: token_step.induct)
  case (rotate now raw newRaw override d r d')
  then show ?case by (cases rule: rotate_cases) (simp_all add: rotateRow_def Let_def)
next
  case (end_sessions now userId exceptRaw d v d')
  with endSessions_step show ?case by fastforce
qed (auto simp: createRefreshToken_def Let_def revokeFamily_def revokeFamilyById_def revokeAllForUser_def
    split: option.splits)

section \<open>A dead family stays dead\<close>

definition dead_family :: "auth_db \<Rightarrow> id \<Rightarrow> bool" where
  "dead_family d f \<longleftrightarrow> (\<forall>t\<in>set (refreshTokens d). rt_family t = f \<longrightarrow> rt_isRevoked t)"

lemma dead_family_revoke [intro]: "dead_family d f \<Longrightarrow> dead_family (revoke_where now p d) f"
  by (auto simp: dead_family_def revoke_where_tokens set_update_rows)

lemma revokeFamilyById_dead: "dead_family (revokeFamilyById now f d) f"
  by (simp add: dead_family_def revokeFamilyById_def revoke_where_tokens update_rows_def ball_Un)

lemma dead_family_insert: "dead_family d f \<Longrightarrow> g \<noteq> f \<Longrightarrow> dead_family (insert_token u h g e now d) f"
  by (auto simp: dead_family_def insert_token_def)

lemma dead_family_rotateRow:
  assumes "dead_family d f" and "row \<in> set (refreshTokens d)" and "\<not> rt_isRevoked row"
  shows "dead_family (snd (rotateRow cfg hash now newRaw override row d)) f"
proof -
  have "rt_family row \<noteq> f" using assms by (auto simp: dead_family_def)
  with assms(1) show ?thesis by (simp add: rotateRow_def Let_def dead_family_insert dead_family_revoke)
qed

lemma dead_family_step:
  assumes "token_step cfg hash d d'" and "dead_family d f" and "f < next_auth_id d"
  shows "dead_family d' f"
  using assms
proof (induction rule: token_step.induct)
  case (create now raw userId override d e d')
  then show ?case
    by (auto simp: createRefreshToken_def Let_def dead_family_def insert_token_def)
next
  case (rotate now raw newRaw override d r d')
  from rotate.hyps show ?case
    by (cases rule: rotate_cases) (auto simp: rotate.prems dead_family_rotateRow)
next
  case (logout now raw d d')
  then show ?case by (auto simp: revokeFamily_def revokeFamilyById_def split: option.splits)
next
  case (logout_all now userId d d')
  then show ?case by (auto simp: revokeAllForUser_def)
next
  case (end_sessions now userId exceptRaw d v d')
  then have "dead_family (bump_version userId d) f" by (simp add: dead_family_def)
  with endSessions_step [OF end_sessions.hyps] show ?case by auto
next
  case (elsewhere d' d)
  then show ?case by (simp add: dead_family_def)
qed

text \<open>A stored token is never dropped, and its user and family never change.\<close>

lemma find_token_step:
  assumes "token_step cfg hash d d'" and "find_token d h = Some t"
  shows "\<exists>t'. find_token d' h = Some t' \<and> rt_family t' = rt_family t \<and> rt_userId t' = rt_userId t"
  using assms
proof (induction rule: token_step.induct)
  case (create now raw userId override d e d')
  then show ?case by (auto simp: createRefreshToken_def Let_def find_token_def insert_token_def find_append)
next
  case (rotate now raw newRaw override d r d')
  from rotate.hyps show ?case
    by (cases rule: rotate_cases) (auto simp: rotate.prems rotateRow_def Let_def find_token_insert)
next
  case (logout now raw d d')
  then show ?case by (auto simp: revokeFamily_def revokeFamilyById_def split: option.splits)
next
  case (logout_all now userId d d')
  then show ?case by (auto simp: revokeAllForUser_def)
next
  case (end_sessions now userId exceptRaw d v d')
  then have "find_token (bump_version userId d) h = Some t" by (simp add: find_token_def)
  with endSessions_step [OF end_sessions.hyps] show ?case by auto
next
  case (elsewhere d' d)
  then show ?case by (simp add: find_token_def)
qed

lemma dead_run:
  assumes "token_run cfg hash d d'" and "dead_family d f" and "f < next_auth_id d"
    and "find_token d h = Some t" and "rt_family t = f"
  shows "dead_family d' f \<and> f < next_auth_id d' \<and> (\<exists>t'. find_token d' h = Some t' \<and> rt_family t' = f)"
  using assms
proof (induction rule: token_run.induct)
  case (step d e e')
  then obtain t' where "dead_family e f" "f < next_auth_id e" "find_token e h = Some t'" "rt_family t' = f" by blast
  with step.hyps(2) show ?case
    by (metis dead_family_step find_token_step next_auth_id_step order.strict_trans2)
qed auto

lemma dead_family_refused:
  assumes "dead_family d f" and "find_token d (hash raw) = Some t" and "rt_family t = f"
    and "rotateRefreshToken cfg hash now raw newRaw override d = (r, d')"
  shows "r = None"
  using assms(4)
proof (cases rule: rotate_cases)
  case (rotated x row u)
  with assms(1-3) show ?thesis by (auto simp: dead_family_def)
qed auto

lemma ended_family_dead:
  assumes ok: "tokens_ok d" and run: "endSessions hash now userId None d = Inr (v, d')"
    and t: "t \<in> set (refreshTokens d)" "rt_userId t = userId"
  shows "dead_family d' (rt_family t)"
proof -
  have d': "d' = revoke_where now (\<lambda>t. rt_userId t = userId \<and> \<not> rt_isRevoked t) (bump_version userId d)"
    using run by (auto simp: endSessions_def Let_def)
  let ?g = "\<lambda>x. if rt_userId x = userId \<and> \<not> rt_isRevoked x then x\<lparr>rt_isRevoked := True, rt_revokedAt := Some now\<rparr> else x"
  show ?thesis unfolding dead_family_def
  proof (intro ballI impI)
    fix y assume "y \<in> set (refreshTokens d')" and f: "rt_family y = rt_family t"
    then obtain x where x: "x \<in> set (refreshTokens d)" "y = ?g x"
      by (auto simp: d' revoke_where_tokens set_update_rows)
    with f have "rt_family x = rt_family t" by (simp split: if_splits)
    with tokens_okD(4) [OF ok x(1) t(1)] t(2) have "rt_userId x = userId" by simp
    then show "rt_isRevoked y" by (simp add: x(2))
  qed
qed

lemma ended_for_good:
  assumes ok: "tokens_ok d" and ended: "endSessions hash now userId None d = Inr (v, d1)"
    and held: "find_token d (hash raw) = Some t" "rt_userId t = userId"
    and later: "token_run cfg hash d1 d2"
  shows "map_option us_authzVersion (find_user d1 userId) = Some v \<and>
    map_option us_authzVersion (find_user d userId) = Some (v - 1) \<and>
    fst (rotateRefreshToken cfg hash now' raw newRaw override d2) = None"
proof -
  from held have mem: "t \<in> set (refreshTokens d)" using find_token_mem by blast
  obtain p u where d1: "d1 = revoke_where now p (bump_version userId d)" and u: "find_user d userId = Some u"
    "v = us_authzVersion u + 1" using endSessions_step [OF ended] by blast
  have "find_user (bump_version userId d) userId = Some (u\<lparr>us_authzVersion := us_authzVersion u + 1\<rparr>)"
    using u(1) by (simp add: bump_version_def find_user_upd find_user_id)
  then have ver: "map_option us_authzVersion (find_user d1 userId) = Some v" by (simp add: d1 u(2))
  have step: "token_step cfg hash d d1" using ended by (rule token_step.end_sessions)
  obtain t1 where t1: "find_token d1 (hash raw) = Some t1" "rt_family t1 = rt_family t"
    using find_token_step [OF step held(1)] by blast
  have "dead_family d2 (rt_family t) \<and> (\<exists>t'. find_token d2 (hash raw) = Some t' \<and> rt_family t' = rt_family t)"
    using dead_run [OF later ended_family_dead [OF ok ended mem held(2)] _ t1]
      tokens_okD(3) [OF ok mem] next_auth_id_step [OF step] by fastforce
  then have "fst (rotateRefreshToken cfg hash now' raw newRaw override d2) = None"
    by (metis dead_family_refused prod.collapse)
  with ver u show ?thesis by simp
qed

text \<open>
  C10: the end of a user's sessions is final. Once \<open>endSessions\<close> has run for a user
  without an exception, his authorisation version has moved on, and no refresh token he held
  at that moment is ever accepted again, whatever token operations and other writes follow.
\<close>

theorem endSessions_final:
  assumes ok: "tokens_ok d" and ended: "endSessions hash now userId None d = Inr (v, d1)"
    and held: "find_token d (hash raw) = Some t" "rt_userId t = userId"
    and later: "token_run cfg hash d1 d2"
  shows "map_option us_authzVersion (find_user d1 userId) = Some v \<and>
    map_option us_authzVersion (find_user d userId) = Some (v - 1) \<and>
    fst (rotateRefreshToken cfg hash now' raw newRaw override d2) = None"
  using assms by (rule ended_for_good)

definition demo_auth :: auth_db where
  "demo_auth = \<lparr>next_auth_id = 5,
     users = [\<lparr>us_id = 1, us_companyId = 9, us_email = Some ''a@b'', us_passwordHash = ''h'', us_name = ''A'', us_phone = None,
       us_roleId = 2, us_isActive = True, us_forcePasswordChange = False, us_managerId = None, us_totpSecret = None,
       us_totpEnabled = False, us_recoveryCodes = [], us_failedTotpAttempts = 0, us_totpLockedUntil = None,
       us_authzVersion = 0, us_failedLoginAttempts = 0, us_lockedUntil = None, us_lastLoginAt = None,
       us_applicantId = None, us_brokerId = None\<rparr>],
     roles = [], permissions = [], rolePermissions = [],
     refreshTokens = [\<lparr>rt_id = 4, rt_userId = 1, rt_tokenHash = ''x'', rt_family = 3, rt_isRevoked = False,
       rt_revokedAt = None, rt_expiresAt = 1000, rt_createdAt = 0\<rparr>],
     passwordResets = [], portalPasswordResets = [], auditLogs = []\<rparr>"

definition demo_config :: token_config where
  "demo_config = \<lparr>tc_refreshExpiresIn = ''7d'', tc_reuseGraceMs = 30000\<rparr>"

lemma demo_tokens_ok: "tokens_ok demo_auth"
  by (simp add: tokens_ok_def demo_auth_def)

theorem endSessions_final_witness:
  "\<exists>v d1. endSessions (\<lambda>s. s) 10 1 None demo_auth = Inr (v, d1) \<and>
     fst (rotateRefreshToken demo_config (\<lambda>s. s) 20 ''x'' ''y'' None d1) = None"
proof -
  have "\<not> isl (endSessions (\<lambda>s. s) 10 1 None demo_auth)"
    by (simp add: endSessions_def Let_def find_user_def demo_auth_def)
  then obtain v d1 where run: "endSessions (\<lambda>s. s) 10 1 None demo_auth = Inr (v, d1)" using not_isl_Inr by force
  obtain t where t: "find_token demo_auth ((\<lambda>s. s) ''x'') = Some t" "rt_userId t = 1"
    by (simp add: find_token_def demo_auth_def)
  from endSessions_final [OF demo_tokens_ok run t token_run.refl [of demo_config]] run show ?thesis by blast
qed

section \<open>Rotation, reuse and the grace window\<close>

lemma rotate_live:
  assumes "find_token d (hash raw) = Some t" and "\<not> rt_isRevoked t" and "\<not> rt_expiresAt t < now"
    and "find_user d (rt_userId t) = Some u" and "us_isActive u"
  shows "rotateRefreshToken cfg hash now raw newRaw override d =
    (Some \<lparr>rr_userId = rt_userId t,
       rr_expiresAt = computeExpiry now (case override of Some e \<Rightarrow> e | None \<Rightarrow> tc_refreshExpiresIn cfg),
       rr_authzVersion = us_authzVersion u\<rparr>, snd (rotateRow cfg hash now newRaw override t d))"
  using assms by (simp add: rotateRefreshToken_def ownerOf_def rotateLocked_def rotateRow_def Let_def)

lemma rotate_in_grace:
  assumes "find_token d (hash raw) = Some t" and "rt_isRevoked t" and "within_grace cfg now t"
    and "live_in_family now (rt_family t) d = Some row"
    and "find_user d (rt_userId t) = Some u" and "us_isActive u"
  shows "rotateRefreshToken cfg hash now raw newRaw override d =
    (Some \<lparr>rr_userId = rt_userId row,
       rr_expiresAt = computeExpiry now (case override of Some e \<Rightarrow> e | None \<Rightarrow> tc_refreshExpiresIn cfg),
       rr_authzVersion = us_authzVersion u\<rparr>, snd (rotateRow cfg hash now newRaw override row d))"
  using assms by (simp add: rotateRefreshToken_def ownerOf_def rotateLocked_def rotateRow_def Let_def)

lemma live_in_family_exists:
  "t \<in> set (refreshTokens d) \<Longrightarrow> rt_family t = f \<Longrightarrow> \<not> rt_isRevoked t \<Longrightarrow> now < rt_expiresAt t \<Longrightarrow>
   \<exists>row. live_in_family now f d = Some row"
  unfolding live_in_family_def not_None_eq [symmetric] newest_None filter_empty_conv by blast

text \<open>
  C11: a family is one chain. In every database that token operations lead to from one
  without tokens, the tokens of a family belong to one user and at most one of them is not
  revoked.
\<close>

theorem one_live_token_per_family:
  assumes "token_run cfg hash d d'" and "refreshTokens d = []"
    and "t \<in> set (refreshTokens d')" and "t' \<in> set (refreshTokens d')" and "rt_family t = rt_family t'"
  shows "rt_userId t = rt_userId t' \<and> (\<not> rt_isRevoked t \<and> \<not> rt_isRevoked t' \<longrightarrow> t = t')"
proof -
  have "tokens_ok d" using assms(2) by (simp add: tokens_ok_def)
  with assms(1) have ok: "tokens_ok d'" by (rule tokens_ok_run)
  have "t = t'" if "rt_id t = rt_id t'"
    using tokens_okD(1) [OF ok] assms(3,4) that by (meson distinct_map inj_onD)
  with tokens_okD(4,5) [OF ok assms(3-5)] show ?thesis by blast
qed

theorem one_live_token_per_family_witness:
  "\<exists>d'. token_run demo_config (\<lambda>s. s) (demo_auth\<lparr>refreshTokens := []\<rparr>) d' \<and> refreshTokens d' \<noteq> [] \<and>
     (\<forall>t\<in>set (refreshTokens d'). \<forall>t'\<in>set (refreshTokens d'). rt_family t = rt_family t' \<longrightarrow> rt_userId t = rt_userId t')"
proof -
  let ?d = "demo_auth\<lparr>refreshTokens := []\<rparr>"
  let ?r = "createRefreshToken demo_config (\<lambda>s. s) 5 ''r'' 1 None None ?d"
  have "\<not> isl ?r" by (simp add: createRefreshToken_def Let_def find_user_def demo_auth_def)
  then obtain e d' where run: "?r = Inr (e, d')" using not_isl_Inr by force
  then have "refreshTokens d' \<noteq> []" by (auto simp: createRefreshToken_def Let_def insert_token_def)
  moreover have r: "token_run demo_config (\<lambda>s. s) ?d d'" using run by (blast intro: token_run.intros token_step.create)
  moreover have "rt_userId t = rt_userId t'" if "t \<in> set (refreshTokens d')" "t' \<in> set (refreshTokens d')" "rt_family t = rt_family t'" for t t'
    using one_live_token_per_family [OF r _ that] by simp
  ultimately show ?thesis by blast
qed

text \<open>
  C12: reuse is detected. Presenting a consumed token outside the grace window, or one
  consumed at an unknown time, is refused and revokes its whole family: the token that
  replaced it is refused from then on, too.
\<close>

theorem reuse_revokes_family:
  assumes t: "find_token d (hash raw) = Some t" "rt_isRevoked t" "\<not> within_grace cfg now t"
    and u: "find_user d (rt_userId t) = Some u" "us_isActive u"
    and run: "rotateRefreshToken cfg hash now raw newRaw override d = (r, d')"
    and other: "find_token d (hash raw') = Some t'" "rt_family t' = rt_family t"
  shows "r = None \<and> fst (rotateRefreshToken cfg hash now' raw' newRaw' override' d') = None"
proof -
  have d': "r = None" "d' = revokeFamilyById now (rt_family t) d"
    using run t u by (simp_all add: rotateRefreshToken_def ownerOf_def rotateLocked_def)
  have "dead_family d' (rt_family t)" by (simp add: d'(2) revokeFamilyById_dead)
  moreover obtain t2 where "find_token d' (hash raw') = Some t2" "rt_family t2 = rt_family t"
    using find_token_step [OF token_step.rotate [OF run] other(1)] other(2) by auto
  ultimately have "fst (rotateRefreshToken cfg hash now' raw' newRaw' override' d') = None"
    by (metis dead_family_refused prod.collapse)
  with d' show ?thesis by simp
qed

definition demo_stolen :: auth_db where
  "demo_stolen = snd (rotateRefreshToken demo_config (\<lambda>s. s) 100 ''x'' ''y'' None demo_auth)"

lemmas session_defs = rotateRefreshToken_def ownerOf_def rotateLocked_def rotateRow_def find_token_def
  revoke_where_def update_rows_def insert_token_def find_user_def within_grace_def Let_def demo_auth_def demo_config_def

theorem reuse_revokes_family_witness:
  "fst (rotateRefreshToken demo_config (\<lambda>s. s) 999999 ''x'' ''z'' None demo_stolen) = None \<and>
   fst (rotateRefreshToken demo_config (\<lambda>s. s) 1000000 ''y'' ''w'' None
     (snd (rotateRefreshToken demo_config (\<lambda>s. s) 999999 ''x'' ''z'' None demo_stolen))) = None"
proof -
  obtain t where t: "find_token demo_stolen ((\<lambda>s. s) ''x'') = Some t" "rt_isRevoked t" "\<not> within_grace demo_config 999999 t"
      "rt_userId t = 1" "rt_family t = 3"
    by (simp add: demo_stolen_def session_defs)
  obtain t' where t': "find_token demo_stolen ((\<lambda>s. s) ''y'') = Some t'" "rt_family t' = 3"
    by (simp add: demo_stolen_def session_defs)
  obtain u where u: "find_user demo_stolen (rt_userId t) = Some u" "us_isActive u"
    by (simp add: t(4)) (simp add: demo_stolen_def session_defs)
  have fam: "rt_family t' = rt_family t" by (simp add: t'(2) t(5))
  from reuse_revokes_family [OF t(1-3) u prod.collapse [symmetric] t'(1) fam] show ?thesis by blast
qed

text \<open>
  C13: a lost response costs nobody the session. When a live token has been rotated and the
  answer never reached the browser, presenting the same token again within the grace window
  succeeds for the same user, as long as his account is active and the successor has not
  expired.
\<close>

theorem grace_recovers_lost_response:
  assumes ok: "tokens_ok d" and t: "find_token d (hash raw) = Some t" "\<not> rt_isRevoked t" "\<not> rt_expiresAt t < now"
    and u: "find_user d (rt_userId t) = Some u" "us_isActive u"
    and first: "rotateRefreshToken cfg hash now raw new1 override d = (r1, d1)"
    and again: "now2 - now \<le> tc_reuseGraceMs cfg"
      "now2 < computeExpiry now (case override of Some e \<Rightarrow> e | None \<Rightarrow> tc_refreshExpiresIn cfg)"
  shows "\<exists>r d2. rotateRefreshToken cfg hash now2 raw new2 override d1 = (Some r, d2) \<and> rr_userId r = rt_userId t"
proof -
  let ?t = "t\<lparr>rt_isRevoked := True, rt_revokedAt := Some now\<rparr>"
  let ?e = "computeExpiry now (case override of Some e \<Rightarrow> e | None \<Rightarrow> tc_refreshExpiresIn cfg)"
  have d1: "d1 = insert_token (rt_userId t) (hash new1) (rt_family t) ?e now (revoke_where now (\<lambda>x. rt_id x = rt_id t) d)"
    using first rotate_live [where hash = hash and raw = raw, OF t u, of cfg new1 override] by (simp add: rotateRow_def Let_def)
  have t1: "find_token d1 (hash raw) = Some ?t" by (simp add: d1 find_token_insert t(1))
  have u1: "find_user d1 (rt_userId ?t) = Some u" using u(1) by (simp add: d1 find_user_def)
  have "\<exists>x\<in>set (refreshTokens d1). rt_family x = rt_family ?t \<and> \<not> rt_isRevoked x \<and> now2 < rt_expiresAt x"
    using again(2) by (simp add: d1 insert_token_def)
  then obtain row where row: "live_in_family now2 (rt_family ?t) d1 = Some row"
    using live_in_family_exists by blast
  have "tokens_ok d1" using tokens_ok_step [OF token_step.rotate [OF first] ok] .
  then have "rt_userId row = rt_userId ?t"
    using tokens_okD(4) live_in_familyD [OF row] find_token_mem [OF t1] by metis
  moreover have "within_grace cfg now2 ?t" using again(1) by (simp add: within_grace_def)
  ultimately show ?thesis
    using rotate_in_grace [where hash = hash and raw = raw, OF t1 _ _ row u1 u(2), of cfg new2 override] by simp
qed

theorem grace_recovers_lost_response_witness:
  "\<exists>r d2. rotateRefreshToken demo_config (\<lambda>s. s) 2000 ''x'' ''z'' None demo_stolen = (Some r, d2) \<and> rr_userId r = 1"
proof -
  obtain t where t: "find_token demo_auth ((\<lambda>s. s) ''x'') = Some t" "\<not> rt_isRevoked t" "\<not> rt_expiresAt t < 100" "rt_userId t = 1"
    by (simp add: session_defs)
  obtain u where u: "find_user demo_auth (rt_userId t) = Some u" "us_isActive u"
    by (simp add: t(4)) (simp add: session_defs)
  have first: "rotateRefreshToken demo_config (\<lambda>s. s) 100 ''x'' ''y'' None demo_auth =
      (fst (rotateRefreshToken demo_config (\<lambda>s. s) 100 ''x'' ''y'' None demo_auth), demo_stolen)"
    by (simp add: demo_stolen_def)
  have grace: "2000 - 100 \<le> tc_reuseGraceMs demo_config" by (simp add: demo_config_def)
  have "computeExpiry 100 ''7d'' = 604800100"
    by (simp add: computeExpiry_def Let_def is_digit_def digits_val_def digit_val_def)
  then have e: "2000 < computeExpiry 100 (case None of Some e \<Rightarrow> e | None \<Rightarrow> tc_refreshExpiresIn demo_config)"
    by (simp add: demo_config_def)
  from grace_recovers_lost_response [OF demo_tokens_ok t(1-3) u first grace e] show ?thesis by (simp add: t(4))
qed

end
