(* ===== verification/AuthzCache.thy ===== *)
theory AuthzCache
  imports Sessions
begin

text \<open>
  \<open>apps/api/src/auth/authz-version.service.ts\<close> and
  \<open>guards/session-version.guard.ts\<close>: the authorisation version every access token
  carries, its cache in Redis (one key per user, \<open>None\<close> when missing) and the guard that
  compares the two. A Redis command may fail; which ones do is an argument.
\<close>

section \<open>The cache\<close>

definition SET_MAX :: "int \<Rightarrow> int option \<Rightarrow> int \<times> int option" where
  "SET_MAX n cur =
     (case cur of
        None \<Rightarrow> (n, Some n)
      | Some c \<Rightarrow> if c < n then (n, Some n) else (c, Some c))"

definition readDb :: "id \<Rightarrow> auth_db \<Rightarrow> int option" where
  "readDb userId d = map_option us_authzVersion (find_user d userId)"

definition current_version :: "bool \<Rightarrow> bool \<Rightarrow> id \<Rightarrow> auth_db \<Rightarrow> int option \<Rightarrow> int option \<times> int option" where
  "current_version get_ok set_ok userId d key =
     (if \<not> get_ok then (readDb userId d, key)
      else case key of
        Some c \<Rightarrow> (Some c, key)
      | None \<Rightarrow>
          (case readDb userId d of
             None \<Rightarrow> (None, key)
           | Some v \<Rightarrow> if set_ok then map_prod Some (\<lambda>k. k) (SET_MAX v key) else (Some v, key)))"

definition writeThrough :: "bool \<Rightarrow> bool \<Rightarrow> int \<Rightarrow> int option \<Rightarrow> int option" where
  "writeThrough set_ok del_ok n key =
     (if set_ok then snd (SET_MAX n key) else if del_ok then None else key)"

text \<open>Each returns the versions to write through.\<close>

definition bumpUsers :: "id list \<Rightarrow> auth_db \<Rightarrow> (id \<times> int) list \<times> auth_db" where
  "bumpUsers userIds d =
     (map (\<lambda>u. (us_id u, us_authzVersion u + 1)) (filter (\<lambda>u. us_id u \<in> set userIds) (users d)),
      d\<lparr>users := update_rows (\<lambda>u. us_id u \<in> set userIds) (\<lambda>u. u\<lparr>us_authzVersion := us_authzVersion u + 1\<rparr>) (users d)\<rparr>)"

definition bumpRole :: "id \<Rightarrow> auth_db \<Rightarrow> (id \<times> int) list \<times> auth_db" where
  "bumpRole roleId d =
     (map (\<lambda>u. (us_id u, us_authzVersion u + 1)) (filter (\<lambda>u. us_roleId u = roleId) (users d)),
      d\<lparr>users := update_rows (\<lambda>u. us_roleId u = roleId) (\<lambda>u. u\<lparr>us_authzVersion := us_authzVersion u + 1\<rparr>) (users d)\<rparr>)"

text \<open>The guard, for a request with a token that carries \<open>av\<close>.\<close>

definition sessionVersionGuard :: "int option \<Rightarrow> int option \<Rightarrow> unit result" where
  "sessionVersionGuard av current =
     (case av of
        None \<Rightarrow> Inl (Unauthorized ''session ended'')
      | Some n \<Rightarrow> ensure (current = Some n) (Unauthorized ''session ended''))"

lemma SET_MAX_bounds:
  "fst (SET_MAX n cur) = the (snd (SET_MAX n cur))" "n \<le> fst (SET_MAX n cur)"
  "cur = Some c \<Longrightarrow> c \<le> fst (SET_MAX n cur)" "snd (SET_MAX n cur) = Some (fst (SET_MAX n cur))"
  by (auto simp: SET_MAX_def split: option.splits)

section \<open>Interleavings\<close>

text \<open>
  The key of one user under concurrent requests. A request that finds no key reads the
  database and writes the key later (\<open>vs_fills\<close>); a committed bump is written through
  later (\<open>vs_flushes\<close>).
\<close>

record version_state =
  vs_db :: int
  vs_key :: "int option"
  vs_fills :: "int list"
  vs_flushes :: "int list"

datatype version_event = Bump | Flush int bool bool | Miss | Fill int bool | Expire

inductive version_step :: "version_event \<Rightarrow> version_state \<Rightarrow> version_state \<Rightarrow> bool" where
  bump: "version_step Bump s (s\<lparr>vs_db := vs_db s + 1, vs_flushes := vs_flushes s @ [vs_db s + 1]\<rparr>)"
| flush: "n \<in> set (vs_flushes s) \<Longrightarrow> version_step (Flush n set_ok del_ok) s
    (s\<lparr>vs_key := writeThrough set_ok del_ok n (vs_key s), vs_flushes := remove1 n (vs_flushes s)\<rparr>)"
| miss: "vs_key s = None \<Longrightarrow> version_step Miss s (s\<lparr>vs_fills := vs_fills s @ [vs_db s]\<rparr>)"
| fill: "n \<in> set (vs_fills s) \<Longrightarrow> version_step (Fill n set_ok) s
    (s\<lparr>vs_key := (if set_ok then snd (SET_MAX n (vs_key s)) else vs_key s), vs_fills := remove1 n (vs_fills s)\<rparr>)"
| expire: "version_step Expire s (s\<lparr>vs_key := None\<rparr>)"

inductive version_run :: "version_event list \<Rightarrow> version_state \<Rightarrow> version_state \<Rightarrow> bool" where
  none: "version_run [] s s"
| more: "version_run es s t \<Longrightarrow> version_step e t u \<Longrightarrow> version_run (es @ [e]) s u"


text \<open>What a request is told: the key, or the database's version when there is none.\<close>

definition answer :: "version_state \<Rightarrow> int" where
  "answer s = (case vs_key s of Some c \<Rightarrow> c | None \<Rightarrow> vs_db s)"












text \<open>
  Deleting the key after a failed write does not help against a fill in flight: the request
  that missed before the bump writes its old version into the empty key, and the ended
  session's token passes again until the key expires.
\<close>

lemma deleted_key_refilled_stale:
  "\<exists>s. version_run [Miss, Bump, Flush 1 False True, Fill 0 True]
        \<lparr>vs_db = 0, vs_key = None, vs_fills = [], vs_flushes = []\<rparr> s \<and>
     vs_db s = 1 \<and> vs_flushes s = [] \<and> sessionVersionGuard (Some 0) (Some (answer s)) = Inr ()"
proof -
  let ?s0 = "\<lparr>vs_db = 0, vs_key = None, vs_fills = [], vs_flushes = []\<rparr> :: version_state"
  let ?s1 = "\<lparr>vs_db = 0, vs_key = None, vs_fills = [0], vs_flushes = []\<rparr> :: version_state"
  let ?s2 = "\<lparr>vs_db = 1, vs_key = None, vs_fills = [0], vs_flushes = [1]\<rparr> :: version_state"
  let ?s3 = "\<lparr>vs_db = 1, vs_key = None, vs_fills = [0], vs_flushes = []\<rparr> :: version_state"
  let ?s4 = "\<lparr>vs_db = 1, vs_key = Some 0, vs_fills = [], vs_flushes = []\<rparr> :: version_state"
  have "version_step Miss ?s0 ?s1" using version_step.miss [of ?s0] by simp
  moreover have "version_step Bump ?s1 ?s2" using version_step.bump [of ?s1] by simp
  moreover have "version_step (Flush 1 False True) ?s2 ?s3"
    using version_step.flush [of 1 ?s2 False True] by (simp add: writeThrough_def)
  moreover have "version_step (Fill 0 True) ?s3 ?s4"
    using version_step.fill [of 0 ?s3 True] by (simp add: SET_MAX_def)
  ultimately have "version_run (((([] @ [Miss]) @ [Bump]) @ [Flush 1 False True]) @ [Fill 0 True]) ?s0 ?s4"
    by (blast intro: version_run.intros)
  then show ?thesis by (intro exI [of _ ?s4]) (simp add: sessionVersionGuard_def answer_def)
qed

end
