(* ===== verification/Guards.thy ===== *)
theory Guards
  imports Permissions AuthzCache
begin

text \<open>
  The guards every request passes, in the order \<open>apps/api/src/app.module.ts\<close> registers
  them: \<open>default-throttler.guard.ts\<close>, \<open>jwt-auth.guard.ts\<close>, \<open>two-factor-pending.guard.ts\<close>,
  \<open>session-version.guard.ts\<close>, \<open>session-surface.guard.ts\<close> with \<open>surface.ts\<close>,
  \<open>csrf.guard.ts\<close> and \<open>permissions.guard.ts\<close>. The signature check of a bearer
  token and the counting of a rate limit are a library's: their outcomes are arguments.
\<close>

section \<open>Tokens, routes, requests\<close>

datatype surface = Staff | Portal

record jwt_payload =
  jw_sub :: id
  jw_companyId :: id
  jw_email :: "string option"
  jw_roleSlug :: string
  jw_permissions :: "string list"
  jw_forcePasswordChange :: "bool option"
  jw_surface :: "surface option"
  jw_av :: "int option"
  jw_applicantId :: "id option"
  jw_brokerId :: "id option"

text \<open>What the decorators of a handler and its class say, and what the request brings.\<close>

record route =
  rt_public :: bool
  rt_required :: "string list option"

record request =
  rq_path :: string
  rq_method :: string
  rq_cookies :: "string \<Rightarrow> string option"
  rq_csrfHeader :: "string option"

definition PORTAL_PATH_PREFIX :: string where
  "PORTAL_PATH_PREFIX = ''/api/v1/portal/''"

definition STAFF_CSRF_COOKIE :: string where
  "STAFF_CSRF_COOKIE = ''openestate_csrf''"

definition PORTAL_CSRF_COOKIE :: string where
  "PORTAL_CSRF_COOKIE = ''openestate_portal_csrf''"

definition SAFE_METHODS :: "string list" where
  "SAFE_METHODS = [''GET'', ''HEAD'', ''OPTIONS'']"

section \<open>Surfaces\<close>

definition routeSurface :: "string \<Rightarrow> surface" where
  "routeSurface path = (if prefix PORTAL_PATH_PREFIX path then Portal else Staff)"

definition tokenSurface :: "jwt_payload \<Rightarrow> surface option" where
  "tokenSurface u = jw_surface u"

definition tokenIsConsistent :: "jwt_payload \<Rightarrow> bool" where
  "tokenIsConsistent u \<longleftrightarrow>
     (case tokenSurface u of
        None \<Rightarrow> False
      | Some s \<Rightarrow>
          let hasPortalId = jw_applicantId u \<noteq> None \<or> jw_brokerId u \<noteq> None;
              hasBothIds = jw_applicantId u \<noteq> None \<and> jw_brokerId u \<noteq> None
          in \<not> hasBothIds \<and> (if s = Portal then hasPortalId else \<not> hasPortalId))"

section \<open>The guards\<close>

text \<open>
  The buckets registered anywhere in the application, by name, each with what the library's
  counter says of a request (whether it is within the limit). The global guard keeps the
  unnamed bucket, which the library calls \<open>default\<close>, and drops the others.
\<close>

type_synonym throttlers = "(string \<times> (request \<Rightarrow> bool)) list"

definition defaultThrottlerGuard :: "throttlers \<Rightarrow> request \<Rightarrow> unit result" where
  "defaultThrottlerGuard throttlers req =
     ensure (list_all (\<lambda>t. snd t req) (filter (\<lambda>t. fst t = ''default'') throttlers))
       (TooManyRequests ''ThrottlerException: Too Many Requests'')"

text \<open>The user it leaves on the request: none on a public route.\<close>

definition jwtAuthGuard :: "route \<Rightarrow> jwt_payload option \<Rightarrow> jwt_payload option result" where
  "jwtAuthGuard ro verified =
     (if rt_public ro then Inr None
      else bindE (orFail (Unauthorized ''Unauthorized'') verified) (\<lambda>u. Inr (Some u)))"

definition twoFactorPendingGuard :: "route \<Rightarrow> jwt_payload option \<Rightarrow> unit result" where
  "twoFactorPendingGuard ro usr =
     (case usr of
        None \<Rightarrow> Inr ()
      | Some u \<Rightarrow>
          if TWO_FACTOR_PENDING_PERMISSION \<notin> set (jw_permissions u) then Inr ()
          else (case rt_required ro of
                  Some ks \<Rightarrow> ensure (TWO_FACTOR_PENDING_PERMISSION \<in> set ks) (Forbidden ''Forbidden'')
                | None \<Rightarrow> Inl (Forbidden ''Forbidden'')))"

definition versionGuard :: "(id \<Rightarrow> int option) \<Rightarrow> jwt_payload option \<Rightarrow> unit result" where
  "versionGuard current usr =
     (case usr of None \<Rightarrow> Inr () | Some u \<Rightarrow> sessionVersionGuard (jw_av u) (current (jw_sub u)))"

definition sessionSurfaceGuard :: "route \<Rightarrow> request \<Rightarrow> jwt_payload option \<Rightarrow> unit result" where
  "sessionSurfaceGuard ro req usr =
     (if rt_public ro then Inr ()
      else case usr of
        None \<Rightarrow> Inr ()
      | Some u \<Rightarrow>
          (case tokenSurface u of
             None \<Rightarrow> Inl (Unauthorized ''Your session is out of date. Please sign in again.'')
           | Some held \<Rightarrow>
               bindE (ensure (tokenIsConsistent u)
                 (Forbidden ''Token surface is inconsistent with its account type.'')) (\<lambda>_.
               ensure (routeSurface (rq_path req) = held)
                 (Forbidden ''This session type may not access this route.''))))"

definition csrf_cookie :: "request \<Rightarrow> string" where
  "csrf_cookie req = (if prefix PORTAL_PATH_PREFIX (rq_path req) then PORTAL_CSRF_COOKIE else STAFF_CSRF_COOKIE)"

definition csrfGuard :: "route \<Rightarrow> request \<Rightarrow> unit result" where
  "csrfGuard ro req =
     (if rt_public ro \<or> rq_method req \<in> set SAFE_METHODS then Inr ()
      else let cookieToken = rq_cookies req (csrf_cookie req); headerToken = rq_csrfHeader req in
        ensure (cookieToken \<noteq> None \<and> cookieToken \<noteq> Some [] \<and> headerToken \<noteq> None \<and> headerToken \<noteq> Some [] \<and>
            cookieToken = headerToken)
          (Forbidden ''CSRF token mismatch''))"

definition permissionsGuard :: "route \<Rightarrow> jwt_payload option \<Rightarrow> unit result" where
  "permissionsGuard ro usr =
     (case rt_required ro of
        None \<Rightarrow> Inr ()
      | Some req \<Rightarrow>
          if req = [] then Inr ()
          else (case usr of
                  None \<Rightarrow> Inl (Forbidden ''Forbidden resource'')
                | Some u \<Rightarrow> ensure (list_all (\<lambda>p. p \<in> set (jw_permissions u)) req) (Forbidden ''Insufficient permissions'')))"

definition admit ::
  "throttlers \<Rightarrow> route \<Rightarrow> request \<Rightarrow> jwt_payload option \<Rightarrow> (id \<Rightarrow> int option) \<Rightarrow> jwt_payload option result" where
  "admit throttlers ro req verified current =
     bindE (defaultThrottlerGuard throttlers req) (\<lambda>_.
     bindE (jwtAuthGuard ro verified) (\<lambda>usr.
     bindE (twoFactorPendingGuard ro usr) (\<lambda>_.
     bindE (versionGuard current usr) (\<lambda>_.
     bindE (sessionSurfaceGuard ro req usr) (\<lambda>_.
     bindE (csrfGuard ro req) (\<lambda>_.
     bindE (permissionsGuard ro usr) (\<lambda>_. Inr usr)))))))"

section \<open>Who gets in\<close>

definition required_keys :: "route \<Rightarrow> string set" where
  "required_keys ro = (case rt_required ro of None \<Rightarrow> {} | Some ks \<Rightarrow> set ks)"

definition within_limit :: "throttlers \<Rightarrow> request \<Rightarrow> bool" where
  "within_limit throttlers req \<longleftrightarrow> (\<forall>t\<in>set throttlers. fst t = ''default'' \<longrightarrow> snd t req)"

lemma defaultThrottlerGuard_Inr: "defaultThrottlerGuard throttlers req = Inr () \<longleftrightarrow> within_limit throttlers req"
  by (auto simp: defaultThrottlerGuard_def within_limit_def list_all_iff)

text \<open>What is asked of the token and the cookie of a request on a route that is not public.\<close>

definition entitled :: "route \<Rightarrow> request \<Rightarrow> (id \<Rightarrow> int option) \<Rightarrow> jwt_payload \<Rightarrow> bool" where
  "entitled ro req current u \<longleftrightarrow>
    (\<exists>n. jw_av u = Some n \<and> current (jw_sub u) = Some n) \<and>
    jw_surface u = Some (routeSurface (rq_path req)) \<and>
    (case routeSurface (rq_path req) of
       Staff \<Rightarrow> jw_applicantId u = None \<and> jw_brokerId u = None
     | Portal \<Rightarrow> (jw_applicantId u = None) \<noteq> (jw_brokerId u = None)) \<and>
    required_keys ro \<subseteq> set (jw_permissions u) \<and>
    (TWO_FACTOR_PENDING_PERMISSION \<in> set (jw_permissions u) \<longrightarrow> TWO_FACTOR_PENDING_PERMISSION \<in> required_keys ro) \<and>
    (rq_method req \<notin> set SAFE_METHODS \<longrightarrow>
       (\<exists>tok. tok \<noteq> [] \<and> rq_csrfHeader req = Some tok \<and>
          rq_cookies req (case routeSurface (rq_path req) of Staff \<Rightarrow> STAFF_CSRF_COOKIE | Portal \<Rightarrow> PORTAL_CSRF_COOKIE) = Some tok))"

lemma admit_protected:
  assumes "\<not> rt_public ro"
  shows "admit throttlers ro req verified current = Inr (Some u) \<longleftrightarrow>
    within_limit throttlers req \<and> verified = Some u \<and> entitled ro req current u"
proof -
  have jwt: "jwtAuthGuard ro verified = Inr usr \<longleftrightarrow> (\<exists>v. verified = Some v \<and> usr = Some v)" for usr
    using assms by (auto simp: jwtAuthGuard_def)
  have pending: "twoFactorPendingGuard ro (Some u) = Inr () \<longleftrightarrow>
      (TWO_FACTOR_PENDING_PERMISSION \<in> set (jw_permissions u) \<longrightarrow> TWO_FACTOR_PENDING_PERMISSION \<in> required_keys ro)"
    by (simp add: twoFactorPendingGuard_def required_keys_def split: option.split)
  have version: "versionGuard current (Some u) = Inr () \<longleftrightarrow> (\<exists>n. jw_av u = Some n \<and> current (jw_sub u) = Some n)"
    by (simp add: versionGuard_def sessionVersionGuard_def split: option.split)
  have surf: "sessionSurfaceGuard ro req (Some u) = Inr () \<longleftrightarrow>
      jw_surface u = Some (routeSurface (rq_path req)) \<and>
      (case routeSurface (rq_path req) of
         Staff \<Rightarrow> jw_applicantId u = None \<and> jw_brokerId u = None
       | Portal \<Rightarrow> (jw_applicantId u = None) \<noteq> (jw_brokerId u = None))"
    using assms
    by (cases "jw_surface u"; cases "routeSurface (rq_path req)")
      (auto simp: sessionSurfaceGuard_def tokenSurface_def tokenIsConsistent_def Let_def)
  have cookie: "csrf_cookie req = (case routeSurface (rq_path req) of Staff \<Rightarrow> STAFF_CSRF_COOKIE | Portal \<Rightarrow> PORTAL_CSRF_COOKIE)"
    by (simp add: csrf_cookie_def routeSurface_def)
  have csrf: "csrfGuard ro req = Inr () \<longleftrightarrow> (rq_method req \<notin> set SAFE_METHODS \<longrightarrow>
      (\<exists>tok. tok \<noteq> [] \<and> rq_csrfHeader req = Some tok \<and> rq_cookies req (csrf_cookie req) = Some tok))"
    using assms by (auto simp: csrfGuard_def Let_def)
  have perms: "permissionsGuard ro (Some u) = Inr () \<longleftrightarrow> required_keys ro \<subseteq> set (jw_permissions u)"
    by (auto simp: permissionsGuard_def required_keys_def list_all_iff split: option.splits)
  show ?thesis
    by (simp add: admit_def jwt defaultThrottlerGuard_Inr entitled_def) (use pending version surf csrf perms cookie in auto)
qed

lemma admit_protected_user:
  "\<not> rt_public ro \<Longrightarrow> admit throttlers ro req verified current = Inr usr \<Longrightarrow> usr \<noteq> None"
  by (auto simp: admit_def jwtAuthGuard_def)

lemma admit_public:
  assumes "rt_public ro"
  shows "admit throttlers ro req verified current = Inr usr \<longleftrightarrow>
    within_limit throttlers req \<and> usr = None \<and> required_keys ro = {}"
  using assms
  by (auto simp: admit_def jwtAuthGuard_def twoFactorPendingGuard_def versionGuard_def sessionSurfaceGuard_def csrfGuard_def
      permissionsGuard_def required_keys_def defaultThrottlerGuard_Inr split: option.splits)

text \<open>
  C9: which requests the guards admit, exactly. On every route the request must be within the
  default rate limit. A public route admits it then, without a user, unless the route requires
  permissions as well. Any other route admits it exactly if its token verifies, is still of
  the user's current version, was minted for the surface the path belongs to and carries the
  identities of that surface, holds every permission the route requires, is a 2FA-pending one
  only where the route requires that very key, and, unless the method is safe, the request
  repeats the surface's CSRF cookie in its header.
\<close>

theorem admitted_exactly:
  "admit throttlers ro req verified current = Inr usr \<longleftrightarrow>
    (\<forall>t\<in>set throttlers. fst t = ''default'' \<longrightarrow> snd t req) \<and>
    (if rt_public ro then usr = None \<and> required_keys ro = {}
     else \<exists>u. usr = Some u \<and> verified = Some u \<and>
       (\<exists>n. jw_av u = Some n \<and> current (jw_sub u) = Some n) \<and>
       jw_surface u = Some (routeSurface (rq_path req)) \<and>
       (case routeSurface (rq_path req) of
          Staff \<Rightarrow> jw_applicantId u = None \<and> jw_brokerId u = None
        | Portal \<Rightarrow> (jw_applicantId u = None) \<noteq> (jw_brokerId u = None)) \<and>
       required_keys ro \<subseteq> set (jw_permissions u) \<and>
       (TWO_FACTOR_PENDING_PERMISSION \<in> set (jw_permissions u) \<longrightarrow> TWO_FACTOR_PENDING_PERMISSION \<in> required_keys ro) \<and>
       (rq_method req \<notin> set SAFE_METHODS \<longrightarrow>
          (\<exists>tok. tok \<noteq> [] \<and> rq_csrfHeader req = Some tok \<and>
             rq_cookies req (case routeSurface (rq_path req) of Staff \<Rightarrow> STAFF_CSRF_COOKIE | Portal \<Rightarrow> PORTAL_CSRF_COOKIE) = Some tok)))"
proof (cases "rt_public ro")
  case True
  then show ?thesis by (simp add: admit_public within_limit_def)
next
  case False
  have "admit throttlers ro req verified current = Inr usr \<longleftrightarrow>
      within_limit throttlers req \<and> (\<exists>u. usr = Some u \<and> verified = Some u \<and> entitled ro req current u)"
    using admit_protected [OF False, of throttlers req verified current] admit_protected_user [OF False, of throttlers req verified current usr]
    by (cases usr) auto
  with False show ?thesis by (simp add: within_limit_def entitled_def)
qed

definition demo_staff_token :: jwt_payload where
  "demo_staff_token = \<lparr>jw_sub = 1, jw_companyId = 9, jw_email = None, jw_roleSlug = ''accounts'', jw_permissions = [''p''],
     jw_forcePasswordChange = None, jw_surface = Some Staff, jw_av = Some 4, jw_applicantId = None, jw_brokerId = None\<rparr>"

theorem admitted_exactly_witness:
  "admit [(''default'', \<lambda>_. True), (''portal-auth'', \<lambda>_. False)] \<lparr>rt_public = False, rt_required = Some [''p'']\<rparr>
     \<lparr>rq_path = ''/api/v1/bookings'', rq_method = ''GET'', rq_cookies = (\<lambda>_. None), rq_csrfHeader = None\<rparr>
     (Some demo_staff_token) (\<lambda>_. Some 4) = Inr (Some demo_staff_token)" (is "admit ?ts ?ro ?req _ ?cur = _")
proof -
  have "routeSurface (rq_path ?req) = Staff" by (simp add: routeSurface_def PORTAL_PATH_PREFIX_def)
  then show ?thesis
    unfolding admitted_exactly
    by (simp add: demo_staff_token_def required_keys_def TWO_FACTOR_PENDING_PERMISSION_def SAFE_METHODS_def)
qed

text \<open>A session's token, whose keys come from the permission table, never reaches \<open>totp/verify\<close>.\<close>

lemma session_never_verifies:
  assumes "\<not> rt_public ro" and "TWO_FACTOR_PENDING_PERMISSION \<in> required_keys ro"
    and "set (jw_permissions u) \<subseteq> set ALL_PERMISSIONS"
  shows "admit throttlers ro req verified current \<noteq> Inr (Some u)"
  using admit_protected [OF assms(1)] assms(2,3) pending_not_a_permission by (auto simp: entitled_def)

end
