(* ===== verification/Access.thy ===== *)
theory Access
  imports AuthzCache "HOL-Library.Sublist"
begin

text \<open>
  Who may change whose authority: \<open>apps/api/src/common/permission-subset.util.ts\<close>,
  \<open>roles/roles.service.ts\<close> and \<open>users/users.service.ts\<close>. The caller is loaded fresh
  from the database by every operation. A password arrives as its argon2 hash; random tokens
  and the clock are arguments; the cache write after a bump is left to \<open>AuthzCache\<close>.
\<close>

section \<open>The caller\<close>

record caller_context =
  cx_id :: id
  cx_roleId :: id
  cx_roleSlug :: string
  cx_roleIsSystem :: bool
  cx_isActive :: bool
  cx_permissionKeys :: "string list"

definition SUPER_ADMIN_SLUG :: string where
  "SUPER_ADMIN_SLUG = ''super_admin''"

definition isSuperAdminRole :: "string \<Rightarrow> bool \<Rightarrow> bool" where
  "isSuperAdminRole slug isSystem \<longleftrightarrow> isSystem \<and> slug = SUPER_ADMIN_SLUG"

definition role_keys :: "auth_db \<Rightarrow> role \<Rightarrow> string list" where
  "role_keys d r =
     (if isSuperAdminRole (ro_slug r) (ro_isSystem r) then map pm_key (permissions d) else stored_keys d (ro_id r))"

definition loadCurrentCaller :: "auth_db \<Rightarrow> id \<Rightarrow> caller_context result" where
  "loadCurrentCaller d callerId =
     bindE (orFail (NotFound ''User'') (find_user d callerId)) (\<lambda>u.
     bindE (orFail (NotFound ''Role'') (find_role d (us_roleId u))) (\<lambda>r.
       Inr \<lparr>cx_id = us_id u, cx_roleId = us_roleId u, cx_roleSlug = ro_slug r, cx_roleIsSystem = ro_isSystem r,
            cx_isActive = us_isActive u, cx_permissionKeys = role_keys d r\<rparr>))"

definition assertCallerActive :: "caller_context \<Rightarrow> unit result" where
  "assertCallerActive caller = ensure (cx_isActive caller) (Forbidden ''Your account is no longer active.'')"

definition assertPermissionSubset :: "string list \<Rightarrow> string list \<Rightarrow> unit result" where
  "assertPermissionSubset callerKeys targetKeys =
     ensure (list_all (\<lambda>k. k \<in> set callerKeys) targetKeys)
       (Forbidden ''You do not have all the permissions this action requires.'')"

definition assertActorIsSuperAdminIfTargetIs :: "caller_context \<Rightarrow> role \<Rightarrow> unit result" where
  "assertActorIsSuperAdminIfTargetIs caller target =
     ensure (isSuperAdminRole (ro_slug target) (ro_isSystem target) \<longrightarrow>
         isSuperAdminRole (cx_roleSlug caller) (cx_roleIsSystem caller))
       (Forbidden ''Only a super_admin may act on a super_admin account.'')"

definition assertSuperAdminNotEmptied :: "id \<Rightarrow> id \<Rightarrow> auth_db \<Rightarrow> unit result" where
  "assertSuperAdminNotEmptied companyId excludeUserId d =
     (case List.find (\<lambda>r. ro_companyId r = companyId \<and> ro_slug r = SUPER_ADMIN_SLUG \<and> ro_isSystem r) (roles d) of
        None \<Rightarrow> Inr ()
      | Some r \<Rightarrow>
          ensure (filter (\<lambda>u. us_companyId u = companyId \<and> us_roleId u = ro_id r \<and> us_isActive u \<and>
              us_id u \<noteq> excludeUserId) (users d) \<noteq> [])
            (Forbidden ''This would leave the company with no active super_admin user.''))"

section \<open>Roles\<close>

record role_dto =
  rd_name :: string
  rd_slug :: string
  rd_permissionIds :: "id list"

record role_update_dto =
  ru_name :: "string option"
  ru_permissionIds :: "id list option"

definition find_company_role :: "auth_db \<Rightarrow> id \<Rightarrow> id \<Rightarrow> role option" where
  "find_company_role d companyId roleId = List.find (\<lambda>r. ro_id r = roleId \<and> ro_companyId r = companyId) (roles d)"

definition loadPermissionKeys :: "auth_db \<Rightarrow> id list \<Rightarrow> string list" where
  "loadPermissionKeys d permissionIds = map pm_key (filter (\<lambda>p. pm_id p \<in> set permissionIds) (permissions d))"

text \<open>\<open>rolePermission.createMany\<close>: the pair is the key, both columns are foreign keys.\<close>

definition grant :: "id \<Rightarrow> id list \<Rightarrow> auth_db \<Rightarrow> auth_db result" where
  "grant roleId permissionIds d =
     bindE (ensure (distinct permissionIds) UniqueViolation) (\<lambda>_.
     bindE (ensure (list_all (\<lambda>i. i \<in> set (map pm_id (permissions d))) permissionIds) ForeignKeyViolation) (\<lambda>_.
       Inr (d\<lparr>rolePermissions := rolePermissions d @
              map (\<lambda>i. \<lparr>rp_roleId = roleId, rp_permissionId = i\<rparr>) permissionIds\<rparr>)))"

definition revoke_all :: "id \<Rightarrow> auth_db \<Rightarrow> auth_db" where
  "revoke_all roleId d = d\<lparr>rolePermissions := delete_rows (\<lambda>rp. rp_roleId rp = roleId) (rolePermissions d)\<rparr>"

definition role_create :: "id \<Rightarrow> role_dto \<Rightarrow> id \<Rightarrow> auth_db \<Rightarrow> (id \<times> auth_db) result" where
  "role_create companyId dto callerId d =
     bindE (loadCurrentCaller d callerId) (\<lambda>caller.
     bindE (assertCallerActive caller) (\<lambda>_.
     bindE (ensure (rd_slug dto \<noteq> SUPER_ADMIN_SLUG) (BadRequest ''The slug is reserved.'')) (\<lambda>_.
     bindE (ensure (List.find (\<lambda>r. ro_slug r = rd_slug dto \<and> ro_companyId r = companyId) (roles d) = None)
       (BadRequest ''Role slug already exists'')) (\<lambda>_.
     bindE (assertPermissionSubset (cx_permissionKeys caller) (loadPermissionKeys d (rd_permissionIds dto))) (\<lambda>_.
       let roleId = next_auth_id d;
           d1 = d\<lparr>roles := roles d @ [\<lparr>ro_id = roleId, ro_companyId = companyId, ro_name = rd_name dto,
                    ro_slug = rd_slug dto, ro_isSystem = False, ro_isPortal = False\<rparr>],
                  next_auth_id := roleId + 1\<rparr>
       in bindE (if rd_permissionIds dto = [] then Inr d1 else grant roleId (rd_permissionIds dto) d1) (\<lambda>d2.
            Inr (roleId, d2)))))))"

definition portal_keys_only :: "auth_db \<Rightarrow> role \<Rightarrow> id list option \<Rightarrow> bool" where
  "portal_keys_only d r ids \<longleftrightarrow>
     (case ids of
        None \<Rightarrow> True
      | Some ids \<Rightarrow> ro_isPortal r \<and> ids \<noteq> [] \<longrightarrow> list_all (prefix ''portal.'') (loadPermissionKeys d ids))"

definition role_update :: "id \<Rightarrow> id \<Rightarrow> role_update_dto \<Rightarrow> id \<Rightarrow> auth_db \<Rightarrow> (unit \<times> auth_db) result" where
  "role_update companyId roleId dto callerId d =
     bindE (loadCurrentCaller d callerId) (\<lambda>caller.
     bindE (assertCallerActive caller) (\<lambda>_.
     bindE (orFail (NotFound ''Role not found'') (find_company_role d companyId roleId)) (\<lambda>r.
     bindE (ensure (\<not> (ro_isSystem r \<and> ru_name dto \<noteq> None \<and> ru_name dto \<noteq> Some (ro_name r)))
       (BadRequest ''Cannot rename system roles'')) (\<lambda>_.
     bindE (ensure (\<not> (isSuperAdminRole (ro_slug r) (ro_isSystem r) \<and> ru_permissionIds dto \<noteq> None))
       (BadRequest ''permissions cannot be edited'')) (\<lambda>_.
     bindE (ensure (portal_keys_only d r (ru_permissionIds dto))
       (BadRequest ''Portal roles can only hold portal permissions.'')) (\<lambda>_.
     bindE (assertActorIsSuperAdminIfTargetIs caller r) (\<lambda>_.
     bindE (assertPermissionSubset (cx_permissionKeys caller) (stored_keys d roleId)) (\<lambda>_.
     bindE (case ru_permissionIds dto of
              None \<Rightarrow> Inr ()
            | Some ids \<Rightarrow> assertPermissionSubset (cx_permissionKeys caller) (loadPermissionKeys d ids)) (\<lambda>_.
       let d1 = (case ru_name dto of
                   None \<Rightarrow> d
                 | Some n \<Rightarrow> if n = [] then d
                     else d\<lparr>roles := update_rows (\<lambda>x. ro_id x = roleId \<and> ro_companyId x = companyId)
                                     (\<lambda>x. x\<lparr>ro_name := n\<rparr>) (roles d)\<rparr>)
       in (case ru_permissionIds dto of
             None \<Rightarrow> Inr ((), d1)
           | Some ids \<Rightarrow>
               bindE (if ids = [] then Inr (revoke_all roleId d1) else grant roleId ids (revoke_all roleId d1)) (\<lambda>d2.
                 Inr ((), snd (bumpRole roleId
                   (log_event \<lparr>ae_companyId = companyId, ae_userId = callerId, ae_entityType = ''Role'',
                      ae_entityId = roleId, ae_action = ''ROLE_PERMS_CHANGED''\<rparr> d2))))))))))))))"

definition role_remove :: "id \<Rightarrow> id \<Rightarrow> id \<Rightarrow> auth_db \<Rightarrow> (unit \<times> auth_db) result" where
  "role_remove companyId roleId callerId d =
     bindE (loadCurrentCaller d callerId) (\<lambda>caller.
     bindE (assertCallerActive caller) (\<lambda>_.
     bindE (orFail (NotFound ''Role not found'') (find_company_role d companyId roleId)) (\<lambda>r.
     bindE (ensure (\<not> ro_isSystem r) (BadRequest ''Cannot delete system roles'')) (\<lambda>_.
     bindE (ensure (filter (\<lambda>u. us_roleId u = roleId) (users d) = []) (BadRequest ''Cannot delete role with assigned users'')) (\<lambda>_.
     bindE (assertActorIsSuperAdminIfTargetIs caller r) (\<lambda>_.
     bindE (assertPermissionSubset (cx_permissionKeys caller) (stored_keys d roleId)) (\<lambda>_.
       Inr ((), (revoke_all roleId d)
         \<lparr>roles := delete_rows (\<lambda>x. ro_id x = roleId \<and> ro_companyId x = companyId) (roles d)\<rparr>))))))))"

section \<open>Users\<close>

text \<open>\<open>managerId\<close> may be absent, null or an id.\<close>

record create_user_dto =
  cu_email :: string
  cu_name :: string
  cu_passwordHash :: string
  cu_roleId :: id
  cu_phone :: "string option"
  cu_managerId :: "id option option"

record update_user_dto =
  uu_name :: "string option"
  uu_roleId :: "id option"
  uu_phone :: "string option"
  uu_managerId :: "id option option"

definition find_company_user :: "auth_db \<Rightarrow> id \<Rightarrow> id \<Rightarrow> user option" where
  "find_company_user d companyId userId = List.find (\<lambda>u. us_id u = userId \<and> us_companyId u = companyId) (users d)"

definition loadRoleForSubsetCheck :: "auth_db \<Rightarrow> id \<Rightarrow> id \<Rightarrow> role result" where
  "loadRoleForSubsetCheck d companyId roleId =
     orFail (BadRequest ''Role not found'') (find_company_role d companyId roleId)"

definition is_portal_account :: "user \<Rightarrow> bool" where
  "is_portal_account u \<longleftrightarrow> us_applicantId u \<noteq> None \<or> us_brokerId u \<noteq> None"

definition assertRoleFitsAccount :: "auth_db \<Rightarrow> id \<Rightarrow> id \<Rightarrow> bool \<Rightarrow> unit result" where
  "assertRoleFitsAccount d companyId roleId isPortalAccount =
     bindE (orFail (BadRequest ''Role not found'') (find_company_role d companyId roleId)) (\<lambda>r.
     bindE (ensure (isPortalAccount \<longrightarrow> ro_isPortal r)
       (BadRequest ''A customer or broker portal account can only be given a portal role.'')) (\<lambda>_.
     ensure (\<not> isPortalAccount \<longrightarrow> \<not> ro_isPortal r)
       (BadRequest ''A staff account cannot be given a portal role.'')))"

text \<open>The walk up the manager chain, at most 20 hops; False when it meets the user.\<close>

fun walk_clear :: "nat \<Rightarrow> auth_db \<Rightarrow> id \<Rightarrow> id \<Rightarrow> id option \<Rightarrow> bool" where
  "walk_clear 0 d companyId userId cur \<longleftrightarrow> True"
| "walk_clear (Suc n) d companyId userId cur \<longleftrightarrow>
     (case cur of
        None \<Rightarrow> True
      | Some c \<Rightarrow> c \<noteq> userId \<and>
          walk_clear n d companyId userId (Option.bind (find_company_user d companyId c) us_managerId))"

definition assertValidManager :: "auth_db \<Rightarrow> id \<Rightarrow> id option \<Rightarrow> id option \<Rightarrow> unit result" where
  "assertValidManager d companyId userId candidateManagerId =
     (case candidateManagerId of
        None \<Rightarrow> Inr ()
      | Some m \<Rightarrow>
          bindE (ensure (userId \<noteq> Some m) (BadRequest ''A user cannot be their own manager'')) (\<lambda>_.
          bindE (orFail (BadRequest ''Manager not found in this company'') (find_company_user d companyId m)) (\<lambda>candidate.
            (case userId of
               None \<Rightarrow> Inr ()
             | Some u \<Rightarrow> ensure (walk_clear 20 d companyId u (us_managerId candidate))
                 (BadRequest ''This manager assignment would create a management cycle'')))))"

definition new_staff_user :: "id \<Rightarrow> create_user_dto \<Rightarrow> id \<Rightarrow> user" where
  "new_staff_user companyId dto i =
     \<lparr>us_id = i, us_companyId = companyId, us_email = Some (cu_email dto), us_passwordHash = cu_passwordHash dto,
      us_name = cu_name dto, us_phone = cu_phone dto, us_roleId = cu_roleId dto, us_isActive = True,
      us_forcePasswordChange = True, us_managerId = (case cu_managerId dto of None \<Rightarrow> None | Some m \<Rightarrow> m),
      us_totpSecret = None, us_totpEnabled = False, us_recoveryCodes = [], us_failedTotpAttempts = 0,
      us_totpLockedUntil = None, us_authzVersion = 0, us_failedLoginAttempts = 0, us_lockedUntil = None,
      us_lastLoginAt = None, us_applicantId = None, us_brokerId = None\<rparr>"

definition user_create :: "id \<Rightarrow> create_user_dto \<Rightarrow> id \<Rightarrow> auth_db \<Rightarrow> (id \<times> auth_db) result" where
  "user_create companyId dto callerId d =
     bindE (loadCurrentCaller d callerId) (\<lambda>caller.
     bindE (assertCallerActive caller) (\<lambda>_.
     bindE (ensure (List.find (\<lambda>u. us_email u = Some (cu_email dto) \<and> us_companyId u = companyId) (users d) = None)
       (BadRequest ''Email already in use'')) (\<lambda>_.
     bindE (case cu_managerId dto of None \<Rightarrow> Inr () | Some m \<Rightarrow> assertValidManager d companyId None m) (\<lambda>_.
     bindE (assertRoleFitsAccount d companyId (cu_roleId dto) False) (\<lambda>_.
     bindE (loadRoleForSubsetCheck d companyId (cu_roleId dto)) (\<lambda>newRole.
     bindE (assertActorIsSuperAdminIfTargetIs caller newRole) (\<lambda>_.
     bindE (assertPermissionSubset (cx_permissionKeys caller) (stored_keys d (cu_roleId dto))) (\<lambda>_.
       let i = next_auth_id d in
       Inr (i, d\<lparr>users := users d @ [new_staff_user companyId dto i], next_auth_id := i + 1\<rparr>)))))))))"

text \<open>\<open>data: dto\<close>: an absent property leaves its column alone.\<close>

definition apply_user_dto :: "update_user_dto \<Rightarrow> user \<Rightarrow> user" where
  "apply_user_dto dto u =
     u\<lparr>us_name := (case uu_name dto of None \<Rightarrow> us_name u | Some n \<Rightarrow> n),
       us_roleId := (case uu_roleId dto of None \<Rightarrow> us_roleId u | Some r \<Rightarrow> r),
       us_phone := (case uu_phone dto of None \<Rightarrow> us_phone u | Some p \<Rightarrow> Some p),
       us_managerId := (case uu_managerId dto of None \<Rightarrow> us_managerId u | Some m \<Rightarrow> m)\<rparr>"

definition user_update :: "id \<Rightarrow> id \<Rightarrow> update_user_dto \<Rightarrow> id \<Rightarrow> auth_db \<Rightarrow> (unit \<times> auth_db) result" where
  "user_update companyId userId dto callerId d =
     bindE (loadCurrentCaller d callerId) (\<lambda>caller.
     bindE (assertCallerActive caller) (\<lambda>_.
     bindE (ensure (\<not> (userId = callerId \<and> uu_roleId dto \<noteq> None)) (BadRequest ''You cannot change your own role.'')) (\<lambda>_.
     bindE (orFail (NotFound ''User not found'') (find_company_user d companyId userId)) (\<lambda>u.
     bindE (case uu_managerId dto of None \<Rightarrow> Inr () | Some m \<Rightarrow> assertValidManager d companyId (Some userId) m) (\<lambda>_.
     bindE (loadRoleForSubsetCheck d companyId (us_roleId u)) (\<lambda>currentRole.
     bindE (assertActorIsSuperAdminIfTargetIs caller currentRole) (\<lambda>_.
     bindE (assertPermissionSubset (cx_permissionKeys caller) (stored_keys d (us_roleId u))) (\<lambda>_.
     bindE (case uu_roleId dto of
              None \<Rightarrow> Inr ()
            | Some newId \<Rightarrow>
                bindE (assertRoleFitsAccount d companyId newId (is_portal_account u)) (\<lambda>_.
                bindE (loadRoleForSubsetCheck d companyId newId) (\<lambda>newRole.
                bindE (assertActorIsSuperAdminIfTargetIs caller newRole) (\<lambda>_.
                bindE (assertPermissionSubset (cx_permissionKeys caller) (stored_keys d newId)) (\<lambda>_.
                  if isSuperAdminRole (ro_slug currentRole) (ro_isSystem currentRole) \<and> newId \<noteq> us_roleId u
                  then assertSuperAdminNotEmptied companyId userId d
                  else Inr ()))))) (\<lambda>_.
       let d1 = upd_user userId (apply_user_dto dto) d
       in Inr ((), if uu_roleId dto \<noteq> None \<and> uu_roleId dto \<noteq> Some (us_roleId u)
                   then snd (bumpUsers [userId] d1) else d1))))))))))"

text \<open>What the three operations on another account check first.\<close>

definition check_target :: "id \<Rightarrow> id \<Rightarrow> id \<Rightarrow> auth_db \<Rightarrow> (user \<times> role) result" where
  "check_target companyId userId callerId d =
     bindE (loadCurrentCaller d callerId) (\<lambda>caller.
     bindE (assertCallerActive caller) (\<lambda>_.
     bindE (orFail (NotFound ''User not found'') (find_company_user d companyId userId)) (\<lambda>u.
     bindE (loadRoleForSubsetCheck d companyId (us_roleId u)) (\<lambda>r.
     bindE (assertActorIsSuperAdminIfTargetIs caller r) (\<lambda>_.
     bindE (assertPermissionSubset (cx_permissionKeys caller) (stored_keys d (us_roleId u))) (\<lambda>_.
       Inr (u, r)))))))"

definition user_deactivate :: "(string \<Rightarrow> string) \<Rightarrow> int \<Rightarrow> id \<Rightarrow> id \<Rightarrow> id \<Rightarrow> auth_db \<Rightarrow> (int \<times> auth_db) result" where
  "user_deactivate hash now companyId userId callerId d =
     bindE (check_target companyId userId callerId d) (\<lambda>(u, r).
     bindE (if isSuperAdminRole (ro_slug r) (ro_isSystem r) then assertSuperAdminNotEmptied companyId userId d else Inr ()) (\<lambda>_.
     bindE (endSessions hash now userId None (upd_user userId (\<lambda>u. u\<lparr>us_isActive := False\<rparr>) d)) (\<lambda>(v, d1).
       Inr (v, d1\<lparr>passwordResets := consume_links now (\<lambda>l. rl_userId l = userId) (passwordResets d1),
                  portalPasswordResets := consume_links now (\<lambda>l. rl_userId l = userId) (portalPasswordResets d1)\<rparr>))))"

definition user_reactivate :: "id \<Rightarrow> id \<Rightarrow> id \<Rightarrow> auth_db \<Rightarrow> (unit \<times> auth_db) result" where
  "user_reactivate companyId userId callerId d =
     bindE (check_target companyId userId callerId d) (\<lambda>_.
       Inr ((), snd (bumpUsers [userId] (upd_user userId (\<lambda>u. u\<lparr>us_isActive := True\<rparr>) d))))"

definition RESET_EXPIRY_MS :: int where
  "RESET_EXPIRY_MS = 30 * 60 * 1000"

definition user_forcePasswordReset ::
  "(string \<Rightarrow> string) \<Rightarrow> int \<Rightarrow> string \<Rightarrow> id \<Rightarrow> id \<Rightarrow> id \<Rightarrow> auth_db \<Rightarrow> (int \<times> auth_db) result" where
  "user_forcePasswordReset hash now token companyId userId adminUserId d =
     bindE (loadCurrentCaller d adminUserId) (\<lambda>caller.
     bindE (assertCallerActive caller) (\<lambda>_.
     bindE (orFail (NotFound ''User not found'') (find_company_user d companyId userId)) (\<lambda>u.
     bindE (ensure (us_isActive u) (Conflict ''Cannot reset the password of a deactivated user.'')) (\<lambda>_.
     bindE (ensure (\<not> is_portal_account u) (BadRequest ''This is a portal user'')) (\<lambda>_.
     bindE (loadRoleForSubsetCheck d companyId (us_roleId u)) (\<lambda>r.
     bindE (ensure (\<not> ro_isPortal r) (BadRequest ''This is a portal user'')) (\<lambda>_.
     bindE (assertActorIsSuperAdminIfTargetIs caller r) (\<lambda>_.
     bindE (assertPermissionSubset (cx_permissionKeys caller) (stored_keys d (us_roleId u))) (\<lambda>_.
       let expiresAt = now + RESET_EXPIRY_MS;
           link = \<lparr>rl_id = next_auth_id d, rl_companyId = companyId, rl_userId = userId, rl_tokenHash = hash token,
             rl_expiresAt = expiresAt, rl_consumedAt = None, rl_createdById = Some adminUserId\<rparr>;
           d1 = d\<lparr>passwordResets := consume_links now (\<lambda>l. rl_companyId l = companyId \<and> rl_userId l = userId) (passwordResets d) @ [link],
                 next_auth_id := next_auth_id d + 1\<rparr>
       in Inr (expiresAt, log_event (user_event companyId adminUserId userId ''RESET_LINK_ISSUED'') d1))))))))))"

text \<open>\<open>TOTP_ATTEMPTS_CLEARED\<close> and \<open>TOTP_CLEARED\<close> of \<open>auth/totp-lockout.ts\<close>.\<close>

definition totp_attempts_cleared :: "user \<Rightarrow> user" where
  "totp_attempts_cleared u = u\<lparr>us_failedTotpAttempts := 0, us_totpLockedUntil := None\<rparr>"

definition totp_cleared :: "user \<Rightarrow> user" where
  "totp_cleared u = (totp_attempts_cleared u)\<lparr>us_totpEnabled := False, us_totpSecret := None, us_recoveryCodes := []\<rparr>"

definition user_resetTotp ::
  "(string \<Rightarrow> string) \<Rightarrow> int \<Rightarrow> id \<Rightarrow> id \<Rightarrow> id \<Rightarrow> auth_db \<Rightarrow> (bool \<times> auth_db) result" where
  "user_resetTotp hash now companyId userId adminUserId d =
     bindE (ensure (userId \<noteq> adminUserId) (BadRequest ''You cannot reset your own 2FA here.'')) (\<lambda>_.
     bindE (loadCurrentCaller d adminUserId) (\<lambda>caller.
     bindE (assertCallerActive caller) (\<lambda>_.
     bindE (orFail (NotFound ''User not found'') (find_company_user d companyId userId)) (\<lambda>u.
     bindE (ensure (\<not> is_portal_account u) (BadRequest ''This is a portal user'')) (\<lambda>_.
     bindE (loadRoleForSubsetCheck d companyId (us_roleId u)) (\<lambda>r.
     bindE (ensure (\<not> ro_isPortal r) (BadRequest ''This is a portal user'')) (\<lambda>_.
     bindE (assertActorIsSuperAdminIfTargetIs caller r) (\<lambda>_.
     bindE (assertPermissionSubset (cx_permissionKeys caller) (stored_keys d (us_roleId u))) (\<lambda>_.
     bindE (endSessions hash now userId None
       (log_event (user_event companyId adminUserId userId ''TOTP_RESET_BY_ADMIN'') (upd_user userId totp_cleared d))) (\<lambda>(v, d1).
       Inr (us_totpEnabled u, d1)))))))))))"

end
