(* ===== verification/AccessSafety.thy ===== *)
theory AccessSafety
  imports Access
begin

text \<open>
  What the operations of \<open>Access\<close> keep: no group of callers gains a permission, the last
  active super_admin of a company stays, and every account has a role of its kind. One lemma
  per kind of change, lifted to runs of operations by any callers.
\<close>

section \<open>The authority of a user\<close>

definition authority :: "auth_db \<Rightarrow> id \<Rightarrow> string set" where
  "authority d x =
     (case find_user d x of
        None \<Rightarrow> {}
      | Some u \<Rightarrow> (case find_role d (us_roleId u) of None \<Rightarrow> {} | Some r \<Rightarrow> set (role_keys d r)))"

text \<open>The keys and foreign keys of the tables.\<close>

definition access_wf :: "auth_db \<Rightarrow> bool" where
  "access_wf d \<longleftrightarrow>
     distinct (map us_id (users d)) \<and> distinct (map ro_id (roles d)) \<and>
     (\<forall>u\<in>set (users d). us_id u < next_auth_id d \<and> us_roleId u < next_auth_id d) \<and>
     (\<forall>r\<in>set (roles d). ro_id r < next_auth_id d) \<and>
     (\<forall>rp\<in>set (rolePermissions d). rp_roleId rp < next_auth_id d) \<and>
     (\<forall>r\<in>set (roles d). \<forall>s\<in>set (roles d). ro_companyId r = ro_companyId s \<and> ro_slug r = ro_slug s \<longrightarrow> r = s)"

lemma find_distinct:
  assumes "distinct (map key xs)" and "x \<in> set xs"
  shows "List.find (\<lambda>y. key y = key x) xs = Some x"
  using assms by (induction xs) (auto simp: image_iff)

lemma find_distinct_where:
  assumes "distinct (map key xs)" and "x \<in> set xs" and "q x"
  shows "List.find (\<lambda>y. key y = key x \<and> q y) xs = Some x"
  using assms by (induction xs) (auto simp: image_iff)

lemma find_company_roleI:
  "access_wf d \<Longrightarrow> r \<in> set (roles d) \<Longrightarrow> find_company_role d (ro_companyId r) (ro_id r) = Some r"
  unfolding find_company_role_def by (rule find_distinct_where) (simp_all add: access_wf_def)

lemma find_company_user_D:
  assumes "find_company_user d companyId i = Some u" and "access_wf d"
  shows "find_user d i = Some u \<and> us_companyId u = companyId \<and> us_id u = i \<and> u \<in> set (users d)"
proof -
  have u: "u \<in> set (users d)" "us_id u = i" "us_companyId u = companyId"
    using assms(1) by (auto simp: find_company_user_def dest: find_SomeD)
  with find_distinct [of us_id "users d" u] assms(2) show ?thesis by (simp add: find_user_def access_wf_def)
qed

lemma find_company_role_D:
  assumes "find_company_role d companyId i = Some r" and "access_wf d"
  shows "find_role d i = Some r \<and> ro_companyId r = companyId \<and> ro_id r = i \<and> r \<in> set (roles d)"
proof -
  have r: "r \<in> set (roles d)" "ro_id r = i" "ro_companyId r = companyId"
    using assms(1) by (auto simp: find_company_role_def dest: find_SomeD)
  with find_distinct [of ro_id "roles d" r] assms(2) show ?thesis by (simp add: find_role_def access_wf_def)
qed

lemma loadCurrentCaller_D:
  "loadCurrentCaller d c = Inr caller \<Longrightarrow>
   set (cx_permissionKeys caller) = authority d c \<and>
   (isSuperAdminRole (cx_roleSlug caller) (cx_roleIsSystem caller) \<longrightarrow> authority d c = pm_key ` set (permissions d))"
  by (auto simp: loadCurrentCaller_def authority_def role_keys_def)

lemma assertPermissionSubset_Inr [simp]:
  "assertPermissionSubset ks ts = Inr v \<longleftrightarrow> set ts \<subseteq> set ks"
  by (auto simp: assertPermissionSubset_def list_all_iff)

lemma stored_keys_exist: "set (stored_keys d i) \<subseteq> pm_key ` set (permissions d)"
  by (auto simp: set_stored_keys)

text \<open>The two gates together: a role that passes them holds nothing the caller lacks.\<close>

lemma gates_cover_role:
  assumes "loadCurrentCaller d c = Inr caller" and "assertActorIsSuperAdminIfTargetIs caller r = Inr v"
    and "set (stored_keys d (ro_id r)) \<subseteq> set (cx_permissionKeys caller)"
  shows "set (role_keys d r) \<subseteq> authority d c"
  using assms loadCurrentCaller_D [OF assms(1)]
  by (auto simp: role_keys_def assertActorIsSuperAdminIfTargetIs_def)

lemma authority_le:
  assumes "\<And>u r. find_user d' x = Some u \<Longrightarrow> find_role d' (us_roleId u) = Some r \<Longrightarrow> set (role_keys d' r) \<subseteq> K"
  shows "authority d' x \<subseteq> K"
  using assms by (auto simp: authority_def split: option.splits)

section \<open>What each operation changes\<close>

definition same_roles :: "auth_db \<Rightarrow> auth_db \<Rightarrow> bool" where
  "same_roles d d' \<longleftrightarrow> roles d' = roles d \<and> permissions d' = permissions d \<and> rolePermissions d' = rolePermissions d"

lemma same_roles_cong:
  assumes "same_roles d d'"
  shows "find_role d' i = find_role d i" "stored_keys d' i = stored_keys d i" "role_keys d' r = role_keys d r"
    "find_company_role d' k i = find_company_role d k i"
  using assms by (simp_all add: same_roles_def find_role_def stored_keys_def role_keys_def find_company_role_def)

lemma bump_one: "snd (bumpUsers [i] d) = bump_version i d"
  by (simp add: bumpUsers_def bump_version_def upd_user_def)

text \<open>A change of one user's row: by its function and the row it is for.\<close>

definition changes_user :: "id \<Rightarrow> (user \<Rightarrow> user) \<Rightarrow> auth_db \<Rightarrow> auth_db \<Rightarrow> bool" where
  "changes_user i g d d' \<longleftrightarrow> users d' = users (upd_user i g d) \<and> same_roles d d' \<and> next_auth_id d \<le> next_auth_id d'"

lemma changes_user_find:
  assumes "changes_user i g d d'" and "\<And>u. us_id (g u) = us_id u"
  shows "find_user d' x = map_option (\<lambda>u. if us_id u = i then g u else u) (find_user d x)"
  using assms find_user_upd [of g i d x] by (simp add: changes_user_def find_user_def)

lemma changes_user_wf:
  assumes ch: "changes_user i g d d'" and wf: "access_wf d"
    and g: "\<And>u. us_id (g u) = us_id u"
    and r: "\<And>u. find_user d i = Some u \<Longrightarrow> us_roleId (g u) = us_roleId u \<or> us_roleId (g u) < next_auth_id d"
  shows "access_wf d'"
proof -
  have ids: "map us_id (users d') = map us_id (users d)"
    using ch g by (simp add: changes_user_def upd_user_def map_update_rows)
  have "us_id u < next_auth_id d' \<and> us_roleId u < next_auth_id d'" if "u \<in> set (users d')" for u
  proof -
    from that ch obtain v where v: "v \<in> set (users d)" "u = (if us_id v = i then g v else v)"
      by (auto simp: changes_user_def upd_user_def set_update_rows)
    then have "us_id v < next_auth_id d" "us_roleId v < next_auth_id d" using wf by (auto simp: access_wf_def)
    moreover have "find_user d (us_id v) = Some v"
      using find_distinct [of us_id "users d" v] v(1) wf by (simp add: find_user_def access_wf_def)
    ultimately show ?thesis using v(2) g [of v] r [of v] ch by (auto simp: changes_user_def)
  qed
  with ids ch wf show ?thesis
    by (fastforce simp: access_wf_def changes_user_def same_roles_def)
qed

lemma changes_user_authority:
  assumes ch: "changes_user i g d d'" and g: "\<And>u. us_id (g u) = us_id u"
    and r: "\<And>u. find_user d i = Some u \<Longrightarrow> us_roleId (g u) = us_roleId u \<or>
      (\<forall>r. find_role d (us_roleId (g u)) = Some r \<longrightarrow> set (role_keys d r) \<subseteq> K)"
  shows "authority d' x \<subseteq> authority d x \<union> K"
proof (rule authority_le)
  fix u' r' assume u': "find_user d' x = Some u'" and r': "find_role d' (us_roleId u') = Some r'"
  have same: "same_roles d d'" using ch by (simp add: changes_user_def)
  from u' obtain u where u: "find_user d x = Some u" "u' = (if us_id u = i then g u else u)"
    by (auto simp: changes_user_find [OF ch g])
  have "us_id u = x" using find_user_id [OF u(1)] by simp
  with u r have "us_roleId u' = us_roleId u \<or> (\<forall>r. find_role d (us_roleId u') = Some r \<longrightarrow> set (role_keys d r) \<subseteq> K)" by auto
  with r' u(1) show "set (role_keys d' r') \<subseteq> authority d x \<union> K"
    by (auto simp: same_roles_cong [OF same] authority_def)
qed

lemma endSessions_users:
  assumes "endSessions hash now i None d = Inr (v, d')"
  shows "users d' = users (bump_version i d)" "roles d' = roles d" "permissions d' = permissions d"
    "rolePermissions d' = rolePermissions d" "next_auth_id d' = next_auth_id d"
    "passwordResets d' = passwordResets d" "portalPasswordResets d' = portalPasswordResets d"
  using assms by (auto simp: endSessions_def Let_def revoke_where_def bump_version_def upd_user_def)

text \<open>Two changes of one row in a row.\<close>

lemma upd_user_twice:
  assumes "\<And>u. us_id (g u) = us_id u"
  shows "users (upd_user i h (upd_user i g d)) = users (upd_user i (h \<circ> g) d)"
  using assms by (auto simp: upd_user_def update_rows_def)

definition bump_row :: "user \<Rightarrow> user" where
  "bump_row u = u\<lparr>us_authzVersion := us_authzVersion u + 1\<rparr>"

lemma bump_version_upd: "bump_version i d = upd_user i bump_row d"
  by (simp add: bump_version_def bump_row_def [abs_def])

lemma bump_row_same [simp]:
  "us_id (bump_row u) = us_id u" "us_roleId (bump_row u) = us_roleId u" "us_companyId (bump_row u) = us_companyId u"
  "us_isActive (bump_row u) = us_isActive u" "is_portal_account (bump_row u) = is_portal_account u"
  "us_managerId (bump_row u) = us_managerId u"
  by (simp_all add: bump_row_def is_portal_account_def)

lemma totp_cleared_same [simp]:
  "us_id (totp_cleared u) = us_id u" "us_roleId (totp_cleared u) = us_roleId u"
  "us_companyId (totp_cleared u) = us_companyId u" "us_isActive (totp_cleared u) = us_isActive u"
  "is_portal_account (totp_cleared u) = is_portal_account u" "us_managerId (totp_cleared u) = us_managerId u"
  by (simp_all add: totp_cleared_def totp_attempts_cleared_def is_portal_account_def)

lemma apply_user_dto_same [simp]:
  "us_id (apply_user_dto dto u) = us_id u" "us_companyId (apply_user_dto dto u) = us_companyId u"
  "us_isActive (apply_user_dto dto u) = us_isActive u" "is_portal_account (apply_user_dto dto u) = is_portal_account u"
  "us_roleId (apply_user_dto dto u) = (case uu_roleId dto of None \<Rightarrow> us_roleId u | Some r \<Rightarrow> r)"
  by (simp_all add: apply_user_dto_def is_portal_account_def)

lemma upd_user_same_roles [simp]: "same_roles d (upd_user i g d)"
  by (simp add: same_roles_def upd_user_def)

lemma same_roles_trans: "same_roles d e \<Longrightarrow> same_roles e f \<Longrightarrow> same_roles d f"
  by (simp add: same_roles_def)

lemma bump_version_same_roles [simp]: "same_roles d (bump_version i d)"
  by (simp add: bump_version_upd)

subsection \<open>Users\<close>

lemma user_update_D:
  assumes "user_update companyId userId dto c d = Inr (v, d')"
  obtains caller u cur g where
    "loadCurrentCaller d c = Inr caller" "cx_isActive caller" "find_company_user d companyId userId = Some u"
    "find_company_role d companyId (us_roleId u) = Some cur"
    "uu_roleId dto \<noteq> None \<longrightarrow> userId \<noteq> c"
    "case uu_managerId dto of None \<Rightarrow> True | Some m \<Rightarrow> assertValidManager d companyId (Some userId) m = Inr ()"
    "case uu_roleId dto of None \<Rightarrow> True
     | Some i \<Rightarrow> \<exists>r. find_company_role d companyId i = Some r \<and> ro_isPortal r = is_portal_account u \<and>
         assertActorIsSuperAdminIfTargetIs caller r = Inr () \<and>
         set (stored_keys d i) \<subseteq> set (cx_permissionKeys caller) \<and>
         (isSuperAdminRole (ro_slug cur) (ro_isSystem cur) \<longrightarrow> i \<noteq> us_roleId u \<longrightarrow>
            assertSuperAdminNotEmptied companyId userId d = Inr ())"
    "changes_user userId g d d'" "g = apply_user_dto dto \<or> g = bump_row \<circ> apply_user_dto dto"
    "refreshTokens d' = refreshTokens d" "next_auth_id d' = next_auth_id d"
proof -
  from assms obtain caller u cur where
    f: "loadCurrentCaller d c = Inr caller" "cx_isActive caller" "find_company_user d companyId userId = Some u"
      "find_company_role d companyId (us_roleId u) = Some cur"
      "uu_roleId dto \<noteq> None \<longrightarrow> userId \<noteq> c"
      "case uu_managerId dto of None \<Rightarrow> True | Some m \<Rightarrow> assertValidManager d companyId (Some userId) m = Inr ()"
      "case uu_roleId dto of None \<Rightarrow> True
       | Some i \<Rightarrow> \<exists>r. find_company_role d companyId i = Some r \<and> ro_isPortal r = is_portal_account u \<and>
           assertActorIsSuperAdminIfTargetIs caller r = Inr () \<and>
           set (stored_keys d i) \<subseteq> set (cx_permissionKeys caller) \<and>
           (isSuperAdminRole (ro_slug cur) (ro_isSystem cur) \<longrightarrow> i \<noteq> us_roleId u \<longrightarrow>
              assertSuperAdminNotEmptied companyId userId d = Inr ())"
    and d': "d' = upd_user userId (apply_user_dto dto) d \<or> d' = bump_version userId (upd_user userId (apply_user_dto dto) d)"
    by (auto simp: user_update_def assertCallerActive_def loadRoleForSubsetCheck_def assertRoleFitsAccount_def Let_def
        bump_one split: option.splits if_splits)
  have 1: "changes_user userId (apply_user_dto dto) d (upd_user userId (apply_user_dto dto) d)"
    by (simp add: changes_user_def)
  have 2: "changes_user userId (bump_row \<circ> apply_user_dto dto) d (bump_version userId (upd_user userId (apply_user_dto dto) d))"
    by (simp add: changes_user_def bump_version_upd upd_user_twice)
      (rule same_roles_trans [OF upd_user_same_roles upd_user_same_roles])
  from d' show thesis
  proof
    assume eq: "d' = upd_user userId (apply_user_dto dto) d"
    show thesis by (rule that [OF f 1 [folded eq]]) (simp_all add: eq)
  next
    assume eq: "d' = bump_version userId (upd_user userId (apply_user_dto dto) d)"
    show thesis by (rule that [OF f 2 [folded eq]]) (simp_all add: eq)
  qed
qed

text \<open>
  What every operation on an existing account does: it changes one row, gives it no role the
  caller could not hold, and checks the last super_admin before it takes one away.
\<close>

definition is_super :: "auth_db \<Rightarrow> id \<Rightarrow> id \<Rightarrow> bool" where
  "is_super d companyId roleId \<longleftrightarrow>
     (\<exists>r. find_company_role d companyId roleId = Some r \<and> isSuperAdminRole (ro_slug r) (ro_isSystem r))"

definition careful_change :: "id \<Rightarrow> id \<Rightarrow> (user \<Rightarrow> user) \<Rightarrow> auth_db \<Rightarrow> bool" where
  "careful_change c i g d \<longleftrightarrow>
     (\<forall>u. us_id (g u) = us_id u \<and> us_companyId (g u) = us_companyId u \<and> is_portal_account (g u) = is_portal_account u) \<and>
     (\<forall>u. find_user d i = Some u \<longrightarrow>
        (us_roleId (g u) = us_roleId u \<or>
         (\<exists>r. find_company_role d (us_companyId u) (us_roleId (g u)) = Some r \<and> ro_isPortal r = is_portal_account u \<and>
            set (role_keys d r) \<subseteq> authority d c)) \<and>
        (is_super d (us_companyId u) (us_roleId u) \<longrightarrow> us_isActive u \<longrightarrow>
           us_roleId (g u) = us_roleId u \<and> us_isActive (g u) \<or>
           assertSuperAdminNotEmptied (us_companyId u) i d = Inr ()))"

definition account_change :: "id \<Rightarrow> auth_db \<Rightarrow> auth_db \<Rightarrow> bool" where
  "account_change c d d' \<longleftrightarrow> (\<exists>i g. changes_user i g d d' \<and> careful_change c i g d)"

lemma account_changeI:
  assumes "changes_user i g d d'"
    and "\<And>u. us_id (g u) = us_id u" and "\<And>u. us_companyId (g u) = us_companyId u"
    and "\<And>u. is_portal_account (g u) = is_portal_account u"
    and "\<And>u. us_roleId (g u) = us_roleId u" and "\<And>u. us_isActive u \<Longrightarrow> us_isActive (g u)"
  shows "account_change c d d'"
  using assms unfolding account_change_def careful_change_def by blast

lemma user_update_change:
  assumes run: "user_update companyId userId dto c d = Inr (v, d')" and wf: "access_wf d"
  shows "account_change c d d'"
proof -
  from run obtain caller u cur g where
    f: "loadCurrentCaller d c = Inr caller" "find_company_user d companyId userId = Some u"
      "find_company_role d companyId (us_roleId u) = Some cur"
      "case uu_roleId dto of None \<Rightarrow> True
       | Some i \<Rightarrow> \<exists>r. find_company_role d companyId i = Some r \<and> ro_isPortal r = is_portal_account u \<and>
           assertActorIsSuperAdminIfTargetIs caller r = Inr () \<and>
           set (stored_keys d i) \<subseteq> set (cx_permissionKeys caller) \<and>
           (isSuperAdminRole (ro_slug cur) (ro_isSystem cur) \<longrightarrow> i \<noteq> us_roleId u \<longrightarrow>
              assertSuperAdminNotEmptied companyId userId d = Inr ())"
    and ch: "changes_user userId g d d'" and g: "g = apply_user_dto dto \<or> g = bump_row \<circ> apply_user_dto dto"
    by (rule user_update_D)
  have u: "find_user d userId = Some u" "us_companyId u = companyId"
    using find_company_user_D [OF f(2) wf] by auto
  have same: "us_id (g x) = us_id x" "us_companyId (g x) = us_companyId x" "is_portal_account (g x) = is_portal_account x"
    "us_isActive (g x) = us_isActive x" "us_roleId (g x) = (case uu_roleId dto of None \<Rightarrow> us_roleId x | Some r \<Rightarrow> r)" for x
    using g by auto
  have "us_roleId (g u) = us_roleId u \<or>
         (\<exists>r. find_company_role d companyId (us_roleId (g u)) = Some r \<and> ro_isPortal r = is_portal_account u \<and>
            set (role_keys d r) \<subseteq> authority d c)"
  proof (cases "uu_roleId dto")
    case (Some i)
    with f(4) obtain r where r: "find_company_role d companyId i = Some r" "ro_isPortal r = is_portal_account u"
      "assertActorIsSuperAdminIfTargetIs caller r = Inr ()" "set (stored_keys d i) \<subseteq> set (cx_permissionKeys caller)" by auto
    with find_company_role_D [OF r(1) wf] gates_cover_role [OF f(1) r(3)] show ?thesis by (simp add: same Some)
  qed (simp add: same)
  moreover have "is_super d companyId (us_roleId u) \<longrightarrow> us_roleId (g u) = us_roleId u \<or>
      assertSuperAdminNotEmptied companyId userId d = Inr ()"
    using f(3,4) by (auto simp: is_super_def same split: option.splits)
  ultimately have "careful_change c userId g d"
    using u by (simp add: careful_change_def same(1-4))
  with ch show ?thesis unfolding account_change_def by blast
qed

lemma check_target_D:
  assumes "check_target companyId userId c d = Inr (u, r)" and "access_wf d"
  shows "find_user d userId = Some u \<and> us_companyId u = companyId \<and> find_company_role d companyId (us_roleId u) = Some r"
  using assms find_company_user_D
  by (auto simp: check_target_def loadRoleForSubsetCheck_def)

lemma user_deactivate_change:
  assumes run: "user_deactivate hash now companyId userId c d = Inr (v, d')" and wf: "access_wf d"
  shows "account_change c d d'"
proof -
  let ?g = "bump_row \<circ> (\<lambda>u. u\<lparr>us_isActive := False\<rparr>)"
  from run obtain u r d1 where t: "check_target companyId userId c d = Inr (u, r)"
    and super: "isSuperAdminRole (ro_slug r) (ro_isSystem r) \<longrightarrow> assertSuperAdminNotEmptied companyId userId d = Inr ()"
    and e: "endSessions hash now userId None (upd_user userId (\<lambda>u. u\<lparr>us_isActive := False\<rparr>) d) = Inr (v, d1)"
    and d': "users d' = users d1" "roles d' = roles d1" "permissions d' = permissions d1"
      "rolePermissions d' = rolePermissions d1" "next_auth_id d' = next_auth_id d1"
    by (auto simp: user_deactivate_def split: if_splits)
  have ch: "changes_user userId ?g d d'"
    using endSessions_users [OF e] d'
    by (simp add: changes_user_def same_roles_def bump_version_upd upd_user_twice)
      (simp add: upd_user_def)
  have "careful_change c userId ?g d"
    using check_target_D [OF t wf] super by (auto simp: careful_change_def is_portal_account_def is_super_def bump_row_def)
  with ch show ?thesis unfolding account_change_def by blast
qed

lemma user_reactivate_change:
  assumes run: "user_reactivate companyId userId c d = Inr (v, d')"
  shows "account_change c d d'"
proof -
  have d': "d' = bump_version userId (upd_user userId (\<lambda>u. u\<lparr>us_isActive := True\<rparr>) d)"
    using run by (auto simp: user_reactivate_def bump_one)
  have "changes_user userId (bump_row \<circ> (\<lambda>u. u\<lparr>us_isActive := True\<rparr>)) d d'"
    by (simp add: d' changes_user_def bump_version_upd upd_user_twice)
      (rule same_roles_trans [OF upd_user_same_roles upd_user_same_roles])
  then show ?thesis by (rule account_changeI) (simp_all add: is_portal_account_def bump_row_def)
qed

lemma log_event_frame [simp]:
  "users (log_event e d) = users d" "roles (log_event e d) = roles d" "permissions (log_event e d) = permissions d"
  "rolePermissions (log_event e d) = rolePermissions d" "next_auth_id (log_event e d) = next_auth_id d"
  "passwordResets (log_event e d) = passwordResets d" "refreshTokens (log_event e d) = refreshTokens d"
  "find_user (log_event e d) i = find_user d i"
  by (simp_all add: log_event_def find_user_def)

lemma user_forcePasswordReset_change:
  assumes run: "user_forcePasswordReset hash now token companyId userId c d = Inr (v, d')"
  shows "account_change c d d'"
proof -
  have "users d' = users d \<and> same_roles d d' \<and> next_auth_id d \<le> next_auth_id d'"
    using run by (auto simp: user_forcePasswordReset_def Let_def same_roles_def)
  then have "changes_user userId (\<lambda>u. u) d d'" by (simp add: changes_user_def upd_user_def update_rows_def)
  then show ?thesis by (rule account_changeI) simp_all
qed

lemma user_resetTotp_change:
  assumes run: "user_resetTotp hash now companyId userId c d = Inr (v, d')"
  shows "account_change c d d'"
proof -
  from run obtain w e where e: "endSessions hash now userId None
      (log_event e (upd_user userId totp_cleared d)) = Inr (w, d')"
    by (auto simp: user_resetTotp_def)
  have "users (bump_version userId (log_event e (upd_user userId totp_cleared d))) =
      users (upd_user userId (bump_row \<circ> totp_cleared) d)"
    using upd_user_twice [of totp_cleared userId bump_row d]
    by (simp add: bump_version_upd upd_user_def)
  then have "changes_user userId (bump_row \<circ> totp_cleared) d d'"
    using endSessions_users [OF e] by (simp add: changes_user_def same_roles_def upd_user_def)
  then show ?thesis by (rule account_changeI) simp_all
qed

subsection \<open>Roles\<close>

lemma stored_keys_cong:
  "permissions d' = permissions d \<Longrightarrow>
   filter (\<lambda>rp. rp_roleId rp = i) (rolePermissions d') = filter (\<lambda>rp. rp_roleId rp = i) (rolePermissions d) \<Longrightarrow>
   stored_keys d' i = stored_keys d i"
  by (simp add: stored_keys_def)

text \<open>Freshly granted keys are the keys of the ids granted.\<close>

lemma grant_D:
  assumes "grant roleId ids d = Inr d'"
  shows "d' = d\<lparr>rolePermissions := rolePermissions d @ map (\<lambda>i. \<lparr>rp_roleId = roleId, rp_permissionId = i\<rparr>) ids\<rparr>"
  using assms by (auto simp: grant_def)

lemma granted_keys:
  assumes "permissions d' = permissions d"
    and "filter (\<lambda>rp. rp_roleId rp = roleId) (rolePermissions d') = map (\<lambda>i. \<lparr>rp_roleId = roleId, rp_permissionId = i\<rparr>) ids"
  shows "set (stored_keys d' roleId) \<subseteq> set (loadPermissionKeys d ids)"
  using assms by (auto simp: stored_keys_def loadPermissionKeys_def)

text \<open>The users are the same but for their authorisation versions.\<close>

definition users_alike :: "auth_db \<Rightarrow> auth_db \<Rightarrow> bool" where
  "users_alike d d' \<longleftrightarrow>
     (\<exists>p. users d' = update_rows p bump_row (users d)) \<and> permissions d' = permissions d \<and> next_auth_id d \<le> next_auth_id d'"

lemma users_alike_find:
  assumes "users_alike d d'"
  shows "\<exists>h. (\<forall>u. h u = u \<or> h u = bump_row u) \<and> find_user d' x = map_option h (find_user d x)"
proof -
  obtain p where p: "users d' = update_rows p bump_row (users d)" using assms by (auto simp: users_alike_def)
  have "find_user d' x = map_option (\<lambda>u. if p u then bump_row u else u) (find_user d x)"
    unfolding find_user_def p by (rule find_update_rows) simp
  then show ?thesis by (intro exI [of _ "\<lambda>u. if p u then bump_row u else u"]) auto
qed

lemma users_alike_mem:
  assumes "users_alike d d'" and "u' \<in> set (users d')"
  shows "\<exists>u\<in>set (users d). u' = u \<or> u' = bump_row u"
  using assms by (auto simp: users_alike_def set_update_rows split: if_splits)

lemma users_alike_mem_back:
  assumes "users_alike d d'" and "u \<in> set (users d)"
  shows "\<exists>u'\<in>set (users d'). u' = u \<or> u' = bump_row u"
proof -
  obtain p where "users d' = update_rows p bump_row (users d)" using assms(1) by (auto simp: users_alike_def)
  with assms(2) show ?thesis
    by (intro bexI [of _ "if p u then bump_row u else u"]) (auto simp: update_rows_def)
qed

lemma users_alike_same: "users d' = users d \<Longrightarrow> permissions d' = permissions d \<Longrightarrow> next_auth_id d \<le> next_auth_id d' \<Longrightarrow> users_alike d d'"
  by (auto simp: users_alike_def update_rows_def intro: exI [of _ "\<lambda>_. False"])

text \<open>The roles are the same but for names; one role may have got new grants from the caller.\<close>

definition regrants :: "id \<Rightarrow> auth_db \<Rightarrow> auth_db \<Rightarrow> bool" where
  "regrants c d d' \<longleftrightarrow>
     users_alike d d' \<and>
     (\<exists>p n. roles d' = update_rows p (\<lambda>r. r\<lparr>ro_name := n\<rparr>) (roles d)) \<and>
     (\<forall>rp\<in>set (rolePermissions d'). rp \<in> set (rolePermissions d) \<or> (\<exists>r\<in>set (roles d). ro_id r = rp_roleId rp)) \<and>
     (\<forall>r\<in>set (roles d). set (stored_keys d' (ro_id r)) \<subseteq> set (stored_keys d (ro_id r)) \<or>
        set (stored_keys d' (ro_id r)) \<subseteq> authority d c \<and>
        (ro_isPortal r \<longrightarrow> list_all (prefix ''portal.'') (stored_keys d' (ro_id r))))"

lemma role_update_regrants:
  assumes run: "role_update companyId roleId dto c d = Inr (v, d')" and wf: "access_wf d"
  shows "regrants c d d'"
proof -
  define d1 where "d1 = (case ru_name dto of None \<Rightarrow> d | Some n \<Rightarrow> if n = [] then d
    else d\<lparr>roles := update_rows (\<lambda>x. ro_id x = roleId \<and> ro_companyId x = companyId) (\<lambda>x. x\<lparr>ro_name := n\<rparr>) (roles d)\<rparr>)"
  have d1: "users d1 = users d" "permissions d1 = permissions d" "rolePermissions d1 = rolePermissions d"
    "next_auth_id d1 = next_auth_id d"
    by (simp_all add: d1_def split: option.split)
  have ren: "\<exists>p n. roles d1 = update_rows p (\<lambda>r. r\<lparr>ro_name := n\<rparr>) (roles d)"
  proof -
    have "roles d = update_rows (\<lambda>_. False) (\<lambda>r. r\<lparr>ro_name := []\<rparr>) (roles d)" by (simp add: update_rows_none)
    then have "\<exists>p n. roles d = update_rows p (\<lambda>r. r\<lparr>ro_name := n\<rparr>) (roles d)" by blast
    then show ?thesis by (auto simp: d1_def split: option.split)
  qed
  from run obtain caller r where
    caller: "loadCurrentCaller d c = Inr caller" and r: "find_company_role d companyId roleId = Some r"
    and portal: "portal_keys_only d r (ru_permissionIds dto)"
    and "case ru_permissionIds dto of None \<Rightarrow> d' = d1
      | Some ids \<Rightarrow> set (loadPermissionKeys d ids) \<subseteq> set (cx_permissionKeys caller) \<and>
          (\<exists>d2. (if ids = [] then Inr (revoke_all roleId d1) else grant roleId ids (revoke_all roleId d1)) = Inr d2 \<and>
             d' = snd (bumpRole roleId (log_event \<lparr>ae_companyId = companyId, ae_userId = c, ae_entityType = ''Role'',
                      ae_entityId = roleId, ae_action = ''ROLE_PERMS_CHANGED''\<rparr> d2)))"
    unfolding role_update_def d1_def [symmetric] Let_def
    by (auto split: option.splits)
  note this(4)
  show ?thesis
  proof (cases "ru_permissionIds dto")
    case None
    with \<open>case ru_permissionIds dto of None \<Rightarrow> _ | Some ids \<Rightarrow> _ ids\<close> have "d' = d1" by simp
    then show ?thesis
      using d1 ren stored_keys_cong [of d1 d] by (simp add: regrants_def users_alike_same)
  next
    case (Some ids)
    with \<open>case ru_permissionIds dto of None \<Rightarrow> _ | Some ids \<Rightarrow> _ ids\<close> obtain d2 where
      held: "set (loadPermissionKeys d ids) \<subseteq> set (cx_permissionKeys caller)"
      and g: "(if ids = [] then Inr (revoke_all roleId d1) else grant roleId ids (revoke_all roleId d1)) = Inr d2"
      and d': "d' = snd (bumpRole roleId (log_event \<lparr>ae_companyId = companyId, ae_userId = c, ae_entityType = ''Role'',
                      ae_entityId = roleId, ae_action = ''ROLE_PERMS_CHANGED''\<rparr> d2))"
      by auto
    have d2: "d2 = d1\<lparr>rolePermissions := delete_rows (\<lambda>rp. rp_roleId rp = roleId) (rolePermissions d) @
        map (\<lambda>i. \<lparr>rp_roleId = roleId, rp_permissionId = i\<rparr>) ids\<rparr>"
      using g grant_D by (cases "ids = []") (fastforce simp: revoke_all_def d1)+
    have tabs: "users d' = update_rows (\<lambda>u. us_roleId u = roleId) bump_row (users d)" "permissions d' = permissions d"
      "roles d' = roles d1" "next_auth_id d' = next_auth_id d"
      "rolePermissions d' = delete_rows (\<lambda>rp. rp_roleId rp = roleId) (rolePermissions d) @
        map (\<lambda>i. \<lparr>rp_roleId = roleId, rp_permissionId = i\<rparr>) ids"
      by (simp_all add: d' d2 d1 bumpRole_def log_event_def bump_row_def [abs_def])
    have own: "set (stored_keys d' roleId) \<subseteq> set (loadPermissionKeys d ids)"
      by (rule granted_keys) (simp_all add: tabs delete_rows_def filter_empty_conv o_def)
    have other: "stored_keys d' i = stored_keys d i" if "i \<noteq> roleId" for i
      using that by (intro stored_keys_cong) (auto simp: tabs delete_rows_def filter_empty_conv intro: filter_cong)
    have rD: "find_role d roleId = Some r" "ro_id r = roleId" "r \<in> set (roles d)"
      using find_company_role_D [OF r wf] by auto
    have portal': "list_all (prefix ''portal.'') (stored_keys d' roleId)" if "ro_isPortal r"
    proof (cases "ids = []")
      case True
      then show ?thesis using own by (simp add: loadPermissionKeys_def)
    next
      case False
      then show ?thesis using portal that own by (auto simp: portal_keys_only_def Some list_all_iff)
    qed
    have uniq: "s = r" if "s \<in> set (roles d)" "ro_id s = roleId" for s
      using wf that rD(2,3) by (auto simp: access_wf_def distinct_map inj_on_def)
    show ?thesis
      unfolding regrants_def
    proof (intro conjI ballI)
      show "users_alike d d'" using tabs by (auto simp: users_alike_def)
      show "\<exists>p n. roles d' = update_rows p (\<lambda>r. r\<lparr>ro_name := n\<rparr>) (roles d)" using ren by (simp add: tabs)
      show "rp \<in> set (rolePermissions d) \<or> (\<exists>r\<in>set (roles d). ro_id r = rp_roleId rp)" if "rp \<in> set (rolePermissions d')" for rp
        using that rD(2,3) by (auto simp: tabs)
      fix s assume s: "s \<in> set (roles d)"
      show "set (stored_keys d' (ro_id s)) \<subseteq> set (stored_keys d (ro_id s)) \<or>
        set (stored_keys d' (ro_id s)) \<subseteq> authority d c \<and>
        (ro_isPortal s \<longrightarrow> list_all (prefix ''portal.'') (stored_keys d' (ro_id s)))"
      proof (cases "ro_id s = roleId")
        case True
        with uniq s have "s = r" by blast
        with own held portal' loadCurrentCaller_D [OF caller] rD(2) show ?thesis by blast
      qed (simp add: other)
    qed
  qed
qed

section \<open>The invariants\<close>

text \<open>Every account has a role of its company and of its kind; portal roles hold portal keys only.\<close>

definition accounts_fit :: "auth_db \<Rightarrow> bool" where
  "accounts_fit d \<longleftrightarrow>
     (\<forall>u\<in>set (users d). \<exists>r. find_company_role d (us_companyId u) (us_roleId u) = Some r \<and> ro_isPortal r = is_portal_account u) \<and>
     (\<forall>r\<in>set (roles d). ro_isPortal r \<longrightarrow> \<not> isSuperAdminRole (ro_slug r) (ro_isSystem r) \<and>
        list_all (prefix ''portal.'') (stored_keys d (ro_id r)))"

definition has_super :: "auth_db \<Rightarrow> id \<Rightarrow> bool" where
  "has_super d k \<longleftrightarrow> (\<exists>u\<in>set (users d). us_companyId u = k \<and> us_isActive u \<and> is_super d k (us_roleId u))"

lemma is_super_same: "same_roles d d' \<Longrightarrow> is_super d' k i = is_super d k i"
  by (simp add: is_super_def same_roles_cong)

lemma not_emptied:
  assumes "assertSuperAdminNotEmptied k i d = Inr ()" and "is_super d k j" and wf: "access_wf d"
  shows "\<exists>u\<in>set (users d). us_id u \<noteq> i \<and> us_companyId u = k \<and> us_isActive u \<and> is_super d k (us_roleId u)"
proof -
  let ?p = "\<lambda>r. ro_companyId r = k \<and> ro_slug r = SUPER_ADMIN_SLUG \<and> ro_isSystem r"
  obtain r where r: "List.find ?p (roles d) = Some r"
  proof (cases "List.find ?p (roles d)")
    case None
    from assms(2) obtain s where "find_company_role d k j = Some s" "ro_slug s = SUPER_ADMIN_SLUG" "ro_isSystem s"
      by (auto simp: is_super_def isSuperAdminRole_def)
    with find_company_role_D [OF this(1) wf] find_NoneD [OF None] show ?thesis by blast
  qed blast
  with assms(1) obtain u where u: "u \<in> set (users d)" "us_companyId u = k" "us_roleId u = ro_id r" "us_isActive u" "us_id u \<noteq> i"
    by (auto simp: assertSuperAdminNotEmptied_def filter_empty_conv)
  have "r \<in> set (roles d)" and p: "?p r" using find_SomeD [OF r] by auto
  have "find_company_role d k (ro_id r) = Some r"
    using find_company_roleI [OF wf \<open>r \<in> set (roles d)\<close>] p by simp
  with u p show ?thesis by (auto simp: is_super_def isSuperAdminRole_def)
qed

text \<open>One account changed.\<close>

lemma account_change_keeps:
  assumes ch: "account_change c d d'" and wf: "access_wf d"
  shows "access_wf d'" and "authority d' x \<subseteq> authority d x \<union> authority d c"
    and "accounts_fit d \<Longrightarrow> accounts_fit d'" and "has_super d k \<Longrightarrow> has_super d' k"
proof -
  obtain i g where ch: "changes_user i g d d'" and
    same: "\<And>u. us_id (g u) = us_id u" "\<And>u. us_companyId (g u) = us_companyId u" "\<And>u. is_portal_account (g u) = is_portal_account u"
    and role: "\<And>u. find_user d i = Some u \<Longrightarrow> us_roleId (g u) = us_roleId u \<or>
         (\<exists>r. find_company_role d (us_companyId u) (us_roleId (g u)) = Some r \<and> ro_isPortal r = is_portal_account u \<and>
            set (role_keys d r) \<subseteq> authority d c)"
    and super: "\<And>u. find_user d i = Some u \<Longrightarrow> is_super d (us_companyId u) (us_roleId u) \<Longrightarrow> us_isActive u \<Longrightarrow>
        us_roleId (g u) = us_roleId u \<and> us_isActive (g u) \<or> assertSuperAdminNotEmptied (us_companyId u) i d = Inr ()"
    using ch unfolding account_change_def careful_change_def by blast
  have roles_same: "same_roles d d'" using ch by (simp add: changes_user_def)
  have find: "find_user d (us_id v) = Some v" if "v \<in> set (users d)" for v
    using find_distinct [of us_id "users d" v] that wf by (simp add: find_user_def access_wf_def)
  have users: "\<exists>v\<in>set (users d). u = (if us_id v = i then g v else v)" if "u \<in> set (users d')" for u
    using that ch by (auto simp: changes_user_def upd_user_def set_update_rows)
  have there: "(if us_id v = i then g v else v) \<in> set (users d')" if "v \<in> set (users d)" for v
    using that ch by (auto simp: changes_user_def upd_user_def update_rows_def)
  show "access_wf d'"
  proof (rule changes_user_wf [OF ch wf same(1)])
    fix u assume "find_user d i = Some u"
    from role [OF this] find_company_role_D [OF _ wf] wf
    show "us_roleId (g u) = us_roleId u \<or> us_roleId (g u) < next_auth_id d" by (fastforce simp: access_wf_def)
  qed
  show "authority d' x \<subseteq> authority d x \<union> authority d c"
  proof (rule changes_user_authority [OF ch same(1)])
    fix u assume "find_user d i = Some u"
    from role [OF this] find_company_role_D [OF _ wf]
    show "us_roleId (g u) = us_roleId u \<or> (\<forall>r. find_role d (us_roleId (g u)) = Some r \<longrightarrow> set (role_keys d r) \<subseteq> authority d c)"
      by fastforce
  qed
  show "accounts_fit d'" if fit: "accounts_fit d"
  proof -
    have "\<exists>r. find_company_role d' (us_companyId u) (us_roleId u) = Some r \<and> ro_isPortal r = is_portal_account u"
      if "u \<in> set (users d')" for u
    proof -
      from users [OF that] obtain v where v: "v \<in> set (users d)" "u = (if us_id v = i then g v else v)" by blast
      with fit obtain r where "find_company_role d (us_companyId v) (us_roleId v) = Some r" "ro_isPortal r = is_portal_account v"
        by (auto simp: accounts_fit_def)
      with v role [of v] find [OF v(1)] show ?thesis
        by (cases "us_id v = i") (auto simp: same same_roles_cong [OF roles_same])
    qed
    with fit roles_same show ?thesis by (auto simp: accounts_fit_def same_roles_def stored_keys_def)
  qed
  show "has_super d' k" if "has_super d k"
  proof -
    from that obtain w where w: "w \<in> set (users d)" "us_companyId w = k" "us_isActive w" "is_super d k (us_roleId w)"
      by (auto simp: has_super_def)
    have keep: "has_super d' k" if "v \<in> set (users d)" "us_id v \<noteq> i" "us_companyId v = k" "us_isActive v" "is_super d k (us_roleId v)" for v
      using that there [of v] by (auto simp: has_super_def is_super_same [OF roles_same])
    show ?thesis
    proof (cases "us_id w = i")
      case True
      with super [of w] find [OF w(1)] w
      consider "us_roleId (g w) = us_roleId w" "us_isActive (g w)" | "assertSuperAdminNotEmptied k i d = Inr ()" by auto
      then show ?thesis
      proof cases
        case 1
        with there [OF w(1)] True w same(2) [of w] show ?thesis
          unfolding has_super_def is_super_same [OF roles_same] by (intro bexI [of _ "g w"]) simp_all
      next
        case 2
        from not_emptied [OF this w(4) wf] keep show ?thesis by blast
      qed
    qed (use w keep in blast)
  qed
qed

text \<open>Grants changed.\<close>

lemma find_renamed:
  "List.find (\<lambda>r. ro_id r = i \<and> ro_companyId r = k) (update_rows p (\<lambda>r. r\<lparr>ro_name := n\<rparr>) rs) =
   map_option (\<lambda>r. if p r then r\<lparr>ro_name := n\<rparr> else r) (List.find (\<lambda>r. ro_id r = i \<and> ro_companyId r = k) rs)"
  "List.find (\<lambda>r. ro_id r = i) (update_rows p (\<lambda>r. r\<lparr>ro_name := n\<rparr>) rs) =
   map_option (\<lambda>r. if p r then r\<lparr>ro_name := n\<rparr> else r) (List.find (\<lambda>r. ro_id r = i) rs)"
  by (rule find_update_rows; simp)+

lemma regrants_keeps:
  assumes re: "regrants c d d'" and wf: "access_wf d"
  shows "access_wf d'" and "authority d' x \<subseteq> authority d x \<union> authority d c"
    and "accounts_fit d \<Longrightarrow> accounts_fit d'" and "has_super d k \<Longrightarrow> has_super d' k"
proof -
  obtain p n where roles: "roles d' = update_rows p (\<lambda>r. r\<lparr>ro_name := n\<rparr>) (roles d)" and alike: "users_alike d d'"
    and rps: "\<And>rp. rp \<in> set (rolePermissions d') \<Longrightarrow> rp \<in> set (rolePermissions d) \<or> (\<exists>r\<in>set (roles d). ro_id r = rp_roleId rp)"
    and keys: "\<And>r. r \<in> set (roles d) \<Longrightarrow> set (stored_keys d' (ro_id r)) \<subseteq> set (stored_keys d (ro_id r)) \<or>
        set (stored_keys d' (ro_id r)) \<subseteq> authority d c \<and>
        (ro_isPortal r \<longrightarrow> list_all (prefix ''portal.'') (stored_keys d' (ro_id r)))"
    using re by (auto simp: regrants_def)
  let ?f = "\<lambda>r. if p r then r\<lparr>ro_name := n\<rparr> else r"
  have f: "ro_id (?f r) = ro_id r" "ro_companyId (?f r) = ro_companyId r" "ro_slug (?f r) = ro_slug r"
    "ro_isSystem (?f r) = ro_isSystem r" "ro_isPortal (?f r) = ro_isPortal r" for r by simp_all
  have find_r: "find_role d' i = map_option ?f (find_role d i)"
    "find_company_role d' k i = map_option ?f (find_company_role d k i)" for i k
    by (simp_all add: find_role_def find_company_role_def roles find_renamed)
  have perms: "permissions d' = permissions d" "next_auth_id d \<le> next_auth_id d'" using alike by (auto simp: users_alike_def)
  have super: "is_super d' k i = is_super d k i" for k i
    by (cases "find_company_role d k i") (simp_all add: is_super_def find_r)
  have ids: "map us_id (users d') = map us_id (users d)" "map ro_id (roles d') = map ro_id (roles d)"
    using alike by (auto simp: users_alike_def roles map_update_rows)
  have mem: "\<exists>s\<in>set (roles d). r = ?f s" if "r \<in> set (roles d')" for r
    using that by (auto simp: roles set_update_rows)
  show "access_wf d'"
    unfolding access_wf_def ids
  proof (intro conjI ballI impI)
    show "distinct (map us_id (users d))" "distinct (map ro_id (roles d))" using wf by (auto simp: access_wf_def)
    fix u assume "u \<in> set (users d')"
    from users_alike_mem [OF alike this] obtain v where "v \<in> set (users d)" "u = v \<or> u = bump_row v" by blast
    then show "us_id u < next_auth_id d'" "us_roleId u < next_auth_id d'"
      using wf perms(2) by (fastforce simp: access_wf_def)+
  next
    fix r assume "r \<in> set (roles d')"
    from mem [OF this] obtain s where s: "s \<in> set (roles d)" "r = ?f s" by blast
    then have "ro_id s < next_auth_id d" using wf by (auto simp: access_wf_def)
    with s(2) f(1) [of s] perms(2) show "ro_id r < next_auth_id d'" by simp
  next
    fix rp assume "rp \<in> set (rolePermissions d')"
    from rps [OF this] wf perms(2) show "rp_roleId rp < next_auth_id d'" by (fastforce simp: access_wf_def)
  next
    fix r s assume "r \<in> set (roles d')" "s \<in> set (roles d')" and eq: "ro_companyId r = ro_companyId s \<and> ro_slug r = ro_slug s"
    with mem obtain r0 s0 where rs: "r0 \<in> set (roles d)" "s0 \<in> set (roles d)" "r = ?f r0" "s = ?f s0" by metis
    with eq f have "ro_companyId r0 = ro_companyId s0 \<and> ro_slug r0 = ro_slug s0" by metis
    with wf rs(1,2) have "r0 = s0" by (auto simp: access_wf_def)
    with rs(3,4) show "r = s" by simp
  qed
  show "authority d' x \<subseteq> authority d x \<union> authority d c"
  proof (rule authority_le)
    fix u' r' assume u': "find_user d' x = Some u'" and r': "find_role d' (us_roleId u') = Some r'"
    from users_alike_find [OF alike, of x] u' obtain u where u: "find_user d x = Some u" "us_roleId u' = us_roleId u"
      by (metis bump_row_same(2) map_option_eq_Some)
    with r' obtain r where r: "find_role d (us_roleId u) = Some r" "r' = ?f r" by (auto simp: find_r)
    have "r \<in> set (roles d)" "ro_id r = us_roleId u" using r(1) by (auto simp: find_role_def dest: find_SomeD)
    with keys [of r] have "set (role_keys d' r') \<subseteq> set (role_keys d r) \<union> authority d c"
      using r(2) f(1,3,4) [of r] by (auto simp: role_keys_def perms)
    with u(1) r(1) show "set (role_keys d' r') \<subseteq> authority d x \<union> authority d c" by (auto simp: authority_def)
  qed
  show "accounts_fit d'" if fit: "accounts_fit d"
    unfolding accounts_fit_def
  proof (intro conjI ballI impI)
    fix u assume "u \<in> set (users d')"
    from users_alike_mem [OF alike this] obtain v where v: "v \<in> set (users d)" "u = v \<or> u = bump_row v" by blast
    with fit obtain r where "find_company_role d (us_companyId v) (us_roleId v) = Some r" "ro_isPortal r = is_portal_account v"
      unfolding accounts_fit_def by blast
    moreover from v(2) have "us_companyId u = us_companyId v" "us_roleId u = us_roleId v" "is_portal_account u = is_portal_account v"
      by auto
    ultimately have "find_company_role d' (us_companyId u) (us_roleId u) = Some (?f r) \<and> ro_isPortal (?f r) = is_portal_account u"
      by (simp add: find_r)
    then show "\<exists>r. find_company_role d' (us_companyId u) (us_roleId u) = Some r \<and> ro_isPortal r = is_portal_account u" ..
  next
    fix r assume "r \<in> set (roles d')" and p': "ro_isPortal r"
    from mem [OF this(1)] obtain s where s: "s \<in> set (roles d)" "r = ?f s" by blast
    then have ps: "ro_isPortal s" "ro_id r = ro_id s" "ro_slug r = ro_slug s" "ro_isSystem r = ro_isSystem s"
      using p' f [of s] by auto
    with fit s(1) show "\<not> isSuperAdminRole (ro_slug r) (ro_isSystem r)" by (simp add: accounts_fit_def)
    from fit s(1) ps(1) have "list_all (prefix ''portal.'') (stored_keys d (ro_id s))" by (simp add: accounts_fit_def)
    with keys [OF s(1)] ps(1,2) show "list_all (prefix ''portal.'') (stored_keys d' (ro_id r))" by (auto simp: list_all_iff)
  qed
  show "has_super d' k" if "has_super d k"
  proof -
    from that obtain w where w: "w \<in> set (users d)" "us_companyId w = k" "us_isActive w" "is_super d k (us_roleId w)"
      by (auto simp: has_super_def)
    from users_alike_mem_back [OF alike w(1)] obtain w' where "w' \<in> set (users d')" "w' = w \<or> w' = bump_row w" by blast
    with w show ?thesis unfolding has_super_def super by (intro bexI [of _ w']) auto
  qed
qed

text \<open>A role or an account more, a role less.\<close>

lemma find_role_id: "find_role d i = Some r \<Longrightarrow> ro_id r = i \<and> r \<in> set (roles d)"
  by (auto simp: find_role_def dest: find_SomeD)

lemma find_company_role_append:
  "find_company_role d k i = Some r \<Longrightarrow> roles d' = roles d @ rs \<Longrightarrow> find_company_role d' k i = Some r"
  by (simp add: find_company_role_def find_append)

lemma user_create_keeps:
  assumes run: "user_create companyId dto c d = Inr (i, d')" and wf: "access_wf d"
  shows "access_wf d'" and "authority d' x \<subseteq> authority d x \<union> authority d c"
    and "accounts_fit d \<Longrightarrow> accounts_fit d'" and "has_super d k \<Longrightarrow> has_super d' k"
proof -
  let ?u = "new_staff_user companyId dto (next_auth_id d)"
  from run obtain caller r where caller: "loadCurrentCaller d c = Inr caller"
    and r: "find_company_role d companyId (cu_roleId dto) = Some r" "\<not> ro_isPortal r"
    and gates: "assertActorIsSuperAdminIfTargetIs caller r = Inr ()"
      "set (stored_keys d (cu_roleId dto)) \<subseteq> set (cx_permissionKeys caller)"
    and d': "d' = d\<lparr>users := users d @ [?u], next_auth_id := next_auth_id d + 1\<rparr>"
    by (auto simp: user_create_def assertRoleFitsAccount_def loadRoleForSubsetCheck_def Let_def)
  have u: "us_id ?u = next_auth_id d" "us_roleId ?u = cu_roleId dto" "us_companyId ?u = companyId" "\<not> is_portal_account ?u"
    by (simp_all add: new_staff_user_def is_portal_account_def)
  have rD: "find_role d (cu_roleId dto) = Some r" "ro_id r = cu_roleId dto" "r \<in> set (roles d)"
    using find_company_role_D [OF r(1) wf] by auto
  have same: "same_roles d d'" by (simp add: same_roles_def d')
  have "next_auth_id d \<notin> us_id ` set (users d)" "cu_roleId dto < next_auth_id d"
    using wf rD(2,3) by (auto simp: access_wf_def)
  then show "access_wf d'"
    using wf u(1,2) by (simp add: access_wf_def d' less_Suc_eq)
  show "authority d' x \<subseteq> authority d x \<union> authority d c"
  proof (rule authority_le)
    fix v s assume v: "find_user d' x = Some v" and s: "find_role d' (us_roleId v) = Some s"
    show "set (role_keys d' s) \<subseteq> authority d x \<union> authority d c"
    proof (cases "find_user d x")
      case None
      with v have "v = ?u" by (simp add: find_user_def d' find_append split: if_splits)
      with s u(2) rD(1) have "s = r" by (simp add: same_roles_cong [OF same])
      with gates_cover_role [OF caller gates(1)] gates(2) rD(2) show ?thesis by (auto simp: same_roles_cong [OF same])
    next
      case (Some w)
      with v have "v = w" by (simp add: find_user_def d' find_append)
      with s Some show ?thesis by (auto simp: authority_def same_roles_cong [OF same])
    qed
  qed
  show "accounts_fit d'" if "accounts_fit d"
    using that r u(2-4) same_roles_cong [OF same]
    by (auto simp: accounts_fit_def d' find_company_role_def stored_keys_def)
  show "has_super d' k" if "has_super d k"
    using that unfolding has_super_def is_super_same [OF same] by (auto simp: d')
qed

lemma role_create_keeps:
  assumes run: "role_create companyId dto c d = Inr (i, d')" and wf: "access_wf d"
  shows "access_wf d'" and "authority d' x \<subseteq> authority d x"
    and "accounts_fit d \<Longrightarrow> accounts_fit d'" and "has_super d k \<Longrightarrow> has_super d' k"
proof -
  let ?n = "next_auth_id d"
  let ?r = "\<lparr>ro_id = ?n, ro_companyId = companyId, ro_name = rd_name dto, ro_slug = rd_slug dto,
    ro_isSystem = False, ro_isPortal = False\<rparr>"
  let ?d1 = "d\<lparr>roles := roles d @ [?r], next_auth_id := ?n + 1\<rparr>"
  from run have slug: "\<forall>r\<in>set (roles d). ro_companyId r = companyId \<longrightarrow> ro_slug r \<noteq> rd_slug dto"
    and g: "(if rd_permissionIds dto = [] then Inr ?d1 else grant ?n (rd_permissionIds dto) ?d1) = Inr d'"
    by (auto simp: role_create_def Let_def find_eq_None_iff)
  obtain new where new: "rolePermissions d' = rolePermissions d @ new" "\<forall>rp\<in>set new. rp_roleId rp = ?n"
    and d': "roles d' = roles d @ [?r]" "users d' = users d" "permissions d' = permissions d" "next_auth_id d' = ?n + 1"
  proof (cases "rd_permissionIds dto = []")
    case True
    with g that [of "[]"] show thesis by auto
  next
    case False
    with g grant_D that show thesis by fastforce
  qed
  have old: "ro_id r \<noteq> ?n" if "r \<in> set (roles d)" for r using wf that by (auto simp: access_wf_def)
  have keys: "stored_keys d' j = stored_keys d j" if "j \<noteq> ?n" for j
    using new that by (intro stored_keys_cong) (auto simp: d' filter_empty_conv)
  have frole: "find_role d' j = find_role d j" if "j < ?n" for j
    using that by (simp add: find_role_def d' find_append split: option.split)
  have fco: "find_company_role d' k j = find_company_role d k j" if "j < ?n" for k j
    using that by (simp add: find_company_role_def d' find_append split: option.split)
  have user: "us_roleId u < ?n" if "u \<in> set (users d)" for u using wf that by (auto simp: access_wf_def)
  have "?n \<notin> ro_id ` set (roles d)" using old by (metis imageE)
  then show "access_wf d'"
    using wf new slug by (auto simp: access_wf_def d' less_Suc_eq)
  show "authority d' x \<subseteq> authority d x"
  proof (rule authority_le)
    fix u r assume u: "find_user d' x = Some u" and r: "find_role d' (us_roleId u) = Some r"
    from u have "find_user d x = Some u" by (simp add: find_user_def d')
    moreover from user find_user_id [OF this] have "us_roleId u < ?n" by blast
    ultimately show "set (role_keys d' r) \<subseteq> authority d x"
      using r find_role_id [of d "us_roleId u" r] by (simp add: authority_def frole role_keys_def d' keys)
  qed
  show "accounts_fit d'" if "accounts_fit d"
    using that user old fco keys by (fastforce simp: accounts_fit_def d')
  show "has_super d' k" if "has_super d k"
    using that user fco by (auto simp: has_super_def is_super_def d')
qed

lemma role_remove_keeps:
  assumes run: "role_remove companyId roleId c d = Inr (i, d')" and wf: "access_wf d"
  shows "access_wf d'" and "authority d' x \<subseteq> authority d x"
    and "accounts_fit d \<Longrightarrow> accounts_fit d'" and "has_super d k \<Longrightarrow> has_super d' k"
proof -
  let ?gone = "\<lambda>x. ro_id x = roleId \<and> ro_companyId x = companyId"
  from run have unused: "\<forall>u\<in>set (users d). us_roleId u \<noteq> roleId"
    and d': "roles d' = delete_rows ?gone (roles d)" "users d' = users d" "permissions d' = permissions d"
      "next_auth_id d' = next_auth_id d" "rolePermissions d' = delete_rows (\<lambda>rp. rp_roleId rp = roleId) (rolePermissions d)"
    by (auto simp: role_remove_def revoke_all_def filter_empty_conv)
  have keys: "stored_keys d' j = stored_keys d j" if "j \<noteq> roleId" for j
    using that by (intro stored_keys_cong) (auto simp: d' delete_rows_def intro: filter_cong)
  have find_del: "List.find q (delete_rows ?gone rs) = List.find q rs" if "\<And>r. q r \<Longrightarrow> ro_id r \<noteq> roleId" for q rs
    using that by (induction rs) (auto simp: delete_rows_def)
  have frole: "find_role d' j = find_role d j" if "j \<noteq> roleId" for j
    using that unfolding find_role_def d' by (intro find_del) auto
  have fco: "find_company_role d' k j = find_company_role d k j" if "j \<noteq> roleId" for k j
    using that unfolding find_company_role_def d' by (intro find_del) auto
  show "access_wf d'"
    using wf by (auto simp: access_wf_def d' delete_rows_def distinct_map_filter)
  show "authority d' x \<subseteq> authority d x"
  proof (rule authority_le)
    fix u r assume u: "find_user d' x = Some u" and r: "find_role d' (us_roleId u) = Some r"
    from u have "find_user d x = Some u" by (simp add: find_user_def d')
    moreover from unused find_user_id [OF this] have "us_roleId u \<noteq> roleId" by blast
    ultimately show "set (role_keys d' r) \<subseteq> authority d x"
      using r find_role_id [of d "us_roleId u" r] by (simp add: authority_def frole role_keys_def d' keys)
  qed
  show "accounts_fit d'" if fit: "accounts_fit d"
    unfolding accounts_fit_def
  proof (intro conjI ballI impI)
    fix u assume "u \<in> set (users d')"
    then show "\<exists>r. find_company_role d' (us_companyId u) (us_roleId u) = Some r \<and> ro_isPortal r = is_portal_account u"
      using fit unused by (auto simp: accounts_fit_def d' fco)
  next
    fix r assume "r \<in> set (roles d')" "ro_isPortal r"
    then have r: "r \<in> set (roles d)" "ro_isPortal r" by (auto simp: d')
    with fit show "\<not> isSuperAdminRole (ro_slug r) (ro_isSystem r)" by (simp add: accounts_fit_def)
    have "set (stored_keys d' (ro_id r)) \<subseteq> set (stored_keys d (ro_id r))" by (auto simp: set_stored_keys d')
    with fit r show "list_all (prefix ''portal.'') (stored_keys d' (ro_id r))" by (auto simp: accounts_fit_def list_all_iff)
  qed
  show "has_super d' k" if "has_super d k"
    using that unused by (auto simp: has_super_def is_super_def d' fco)
qed

section \<open>Runs\<close>

text \<open>
  One operation by a caller, or any other write that leaves roles, grants and the columns of
  an account that bear on its authority alone (logins, tokens, passwords, links).
\<close>

definition account_cols :: "user \<Rightarrow> id \<times> id \<times> id \<times> bool \<times> bool" where
  "account_cols u = (us_id u, us_companyId u, us_roleId u, us_isActive u, is_portal_account u)"

inductive access_step :: "id \<Rightarrow> auth_db \<Rightarrow> auth_db \<Rightarrow> bool" where
  create_role: "role_create k rdto c d = Inr (i, d') \<Longrightarrow> access_step c d d'"
| update_role: "role_update k i rudto c d = Inr (v, d') \<Longrightarrow> access_step c d d'"
| remove_role: "role_remove k i c d = Inr (v, d') \<Longrightarrow> access_step c d d'"
| create_user: "user_create k cudto c d = Inr (i, d') \<Longrightarrow> access_step c d d'"
| update_user: "user_update k i uudto c d = Inr (v, d') \<Longrightarrow> access_step c d d'"
| deactivate: "user_deactivate hash now k i c d = Inr (w, d') \<Longrightarrow> access_step c d d'"
| reactivate: "user_reactivate k i c d = Inr (v, d') \<Longrightarrow> access_step c d d'"
| reset_link: "user_forcePasswordReset hash now token k i c d = Inr (e, d') \<Longrightarrow> access_step c d d'"
| reset_totp: "user_resetTotp hash now k i c d = Inr (b, d') \<Longrightarrow> access_step c d d'"
| elsewhere: "same_roles d d' \<Longrightarrow> next_auth_id d \<le> next_auth_id d' \<Longrightarrow>
    map account_cols (users d') = map account_cols (users d) \<Longrightarrow> access_step c d d'"

inductive access_run :: "id set \<Rightarrow> auth_db \<Rightarrow> auth_db \<Rightarrow> bool" for callers where
  start: "access_run callers d d"
| step: "access_run callers d e \<Longrightarrow> c \<in> callers \<Longrightarrow> access_step c e f \<Longrightarrow> access_run callers d f"

lemma cols_find:
  "map account_cols us' = map account_cols us \<Longrightarrow>
   map_option account_cols (List.find (\<lambda>u. us_id u = x) us') = map_option account_cols (List.find (\<lambda>u. us_id u = x) us)"
proof (induction us arbitrary: us')
  case (Cons u us)
  then obtain v vs where us': "us' = v # vs" "account_cols v = account_cols u" "map account_cols vs = map account_cols us"
    by (cases us') auto
  moreover from us'(2) have "us_id v = us_id u" by (simp add: account_cols_def)
  ultimately show ?case using Cons.IH [OF us'(3)] by simp
qed simp

lemma cols_mem: "map account_cols us' = map account_cols us \<Longrightarrow> u' \<in> set us' \<Longrightarrow> \<exists>u\<in>set us. account_cols u = account_cols u'"
proof -
  assume eq: "map account_cols us' = map account_cols us" and "u' \<in> set us'"
  from arg_cong [OF eq, of set] have "account_cols ` set us' = account_cols ` set us" by simp
  with \<open>u' \<in> set us'\<close> have "account_cols u' \<in> account_cols ` set us" by blast
  then show ?thesis by force
qed

lemma elsewhere_keeps:
  assumes same: "same_roles d d'" and le: "next_auth_id d \<le> next_auth_id d'"
    and cols: "map account_cols (users d') = map account_cols (users d)" and wf: "access_wf d"
  shows "access_wf d'" and "authority d' x \<subseteq> authority d x"
    and "accounts_fit d \<Longrightarrow> accounts_fit d'" and "has_super d k \<Longrightarrow> has_super d' k"
proof -
  have "map fst (map account_cols (users d')) = map fst (map account_cols (users d))" by (simp only: cols)
  then have ids: "map us_id (users d') = map us_id (users d)" by (simp add: account_cols_def o_def)
  have mem: "\<exists>u\<in>set (users d). account_cols u = account_cols u'" if "u' \<in> set (users d')" for u'
    using cols_mem [OF cols that] .
  show "access_wf d'"
    unfolding access_wf_def ids
  proof (intro conjI ballI)
    fix u' assume "u' \<in> set (users d')"
    from mem [OF this] obtain u where "u \<in> set (users d)" "us_id u = us_id u'" "us_roleId u = us_roleId u'"
      by (auto simp: account_cols_def)
    then show "us_id u' < next_auth_id d'" "us_roleId u' < next_auth_id d'"
      using wf le by (fastforce simp: access_wf_def)+
  qed (use wf le same in \<open>auto simp: access_wf_def same_roles_def intro: order.strict_trans2\<close>)
  show "authority d' x \<subseteq> authority d x"
  proof (rule authority_le)
    fix u' r assume u': "find_user d' x = Some u'" and r: "find_role d' (us_roleId u') = Some r"
    with cols_find [OF cols, of x] obtain u where "find_user d x = Some u" "us_roleId u' = us_roleId u"
      by (cases "find_user d x") (auto simp: find_user_def account_cols_def)
    with r show "set (role_keys d' r) \<subseteq> authority d x" by (simp add: authority_def same_roles_cong [OF same])
  qed
  show "accounts_fit d'" if fit: "accounts_fit d"
    unfolding accounts_fit_def
  proof (intro conjI ballI)
    fix u' assume "u' \<in> set (users d')"
    from mem [OF this] obtain u where "u \<in> set (users d)" "account_cols u = account_cols u'" by blast
    then show "\<exists>r. find_company_role d' (us_companyId u') (us_roleId u') = Some r \<and> ro_isPortal r = is_portal_account u'"
      using fit by (auto simp: accounts_fit_def account_cols_def same_roles_cong [OF same])
  next
    fix r assume "r \<in> set (roles d')"
    then show "ro_isPortal r \<longrightarrow> \<not> isSuperAdminRole (ro_slug r) (ro_isSystem r) \<and>
        list_all (prefix ''portal.'') (stored_keys d' (ro_id r))"
      using fit same by (simp add: accounts_fit_def same_roles_cong [OF same]) (simp add: same_roles_def)
  qed
  show "has_super d' k" if "has_super d k"
  proof -
    from that obtain u where u: "u \<in> set (users d)" "us_companyId u = k" "us_isActive u" "is_super d k (us_roleId u)"
      by (auto simp: has_super_def)
    from cols_mem [OF cols [symmetric] u(1)] obtain u' where "u' \<in> set (users d')" "account_cols u' = account_cols u" by blast
    with u show ?thesis unfolding has_super_def is_super_same [OF same] by (intro bexI [of _ u']) (auto simp: account_cols_def)
  qed
qed

lemma access_step_keeps:
  assumes "access_step c d d'" and "access_wf d"
  shows "access_wf d'" and "authority d' x \<subseteq> authority d x \<union> authority d c"
    and "accounts_fit d \<Longrightarrow> accounts_fit d'" and "has_super d k \<Longrightarrow> has_super d' k"
proof -
  have "access_wf d' \<and> authority d' x \<subseteq> authority d x \<union> authority d c \<and> (accounts_fit d \<longrightarrow> accounts_fit d') \<and>
      (has_super d k \<longrightarrow> has_super d' k)"
    using assms(1)
  proof (cases rule: access_step.cases)
    case create_role
    from role_create_keeps [OF this assms(2)] show ?thesis by blast
  next
    case update_role
    from regrants_keeps [OF role_update_regrants [OF this assms(2)] assms(2)] show ?thesis by blast
  next
    case remove_role
    from role_remove_keeps [OF this assms(2)] show ?thesis by blast
  next
    case create_user
    from user_create_keeps [OF this assms(2)] show ?thesis by blast
  next
    case update_user
    from account_change_keeps [OF user_update_change [OF this assms(2)] assms(2)] show ?thesis by blast
  next
    case deactivate
    from account_change_keeps [OF user_deactivate_change [OF this assms(2)] assms(2)] show ?thesis by blast
  next
    case reactivate
    from account_change_keeps [OF user_reactivate_change [OF this] assms(2)] show ?thesis by blast
  next
    case reset_link
    from account_change_keeps [OF user_forcePasswordReset_change [OF this] assms(2)] show ?thesis by blast
  next
    case reset_totp
    from account_change_keeps [OF user_resetTotp_change [OF this] assms(2)] show ?thesis by blast
  next
    case elsewhere
    from elsewhere_keeps [OF this assms(2)] show ?thesis by blast
  qed
  then show "access_wf d'" and "authority d' x \<subseteq> authority d x \<union> authority d c"
    and "accounts_fit d \<Longrightarrow> accounts_fit d'" and "has_super d k \<Longrightarrow> has_super d' k" by blast+
qed

text \<open>
  C7: no escalation. However a group of callers creates, edits and removes roles and
  accounts, in any order and for any companies, no account ends with a permission it did not
  have and nobody of the group had: in particular the group as a whole never gains one.
\<close>

theorem no_escalation:
  assumes "access_run callers d d'" and "access_wf d"
  shows "authority d' x \<subseteq> authority d x \<union> (\<Union>c\<in>callers. authority d c)"
proof -
  have "access_wf d' \<and> (\<forall>x. authority d' x \<subseteq> authority d x \<union> (\<Union>c\<in>callers. authority d c))"
    using assms
  proof (induction rule: access_run.induct)
    case (step d e c f)
    then have wf: "access_wf e" and le: "\<And>x. authority e x \<subseteq> authority d x \<union> (\<Union>c\<in>callers. authority d c)" by blast+
    have "authority f x \<subseteq> authority d x \<union> (\<Union>c\<in>callers. authority d c)" for x
      using access_step_keeps(2) [OF step.hyps(3) wf, of x] le [of x] le [of c] step.hyps(2) by blast
    with access_step_keeps(1) [OF step.hyps(3) wf] show ?case by blast
  qed blast
  then show ?thesis by blast
qed

text \<open>
  C8: a company that has an active super_admin keeps one, and every account keeps a role of
  its company and of its kind, through any operations by any callers; so a customer's or a
  broker's account never holds anything but portal permissions.
\<close>

theorem super_admin_kept_accounts_fit:
  assumes "access_run callers d d'" and "access_wf d" and "accounts_fit d" and "has_super d k"
  shows "has_super d' k \<and> accounts_fit d' \<and>
    (\<forall>u\<in>set (users d'). is_portal_account u \<longrightarrow> (\<forall>p\<in>authority d' (us_id u). prefix ''portal.'' p))"
proof -
  have "access_wf d' \<and> accounts_fit d' \<and> has_super d' k"
    using assms
  proof (induction rule: access_run.induct)
    case (step d e c f)
    then have wf: "access_wf e" and fit: "accounts_fit e" and has: "has_super e k" by blast+
    show ?case
      using access_step_keeps(1,3,4) [OF step.hyps(3) wf] fit has by blast
  qed blast
  then have wf: "access_wf d'" and fit: "accounts_fit d'" and has: "has_super d' k" by blast+
  have "prefix ''portal.'' p" if u: "u \<in> set (users d')" "is_portal_account u" and p: "p \<in> authority d' (us_id u)" for u p
  proof -
    have "find_user d' (us_id u) = Some u"
      using find_distinct [of us_id "users d'" u] u(1) wf by (simp add: find_user_def access_wf_def)
    moreover obtain r where "find_company_role d' (us_companyId u) (us_roleId u) = Some r" "ro_isPortal r"
      using fit u by (auto simp: accounts_fit_def)
    moreover from find_company_role_D [OF this(1) wf] have "find_role d' (us_roleId u) = Some r" "r \<in> set (roles d')"
      "ro_id r = us_roleId u" by auto
    ultimately show ?thesis
      using p fit by (auto simp: authority_def role_keys_def accounts_fit_def list_all_iff)
  qed
  with fit has show ?thesis by blast
qed

section \<open>A company at work\<close>

definition demo_account :: "id \<Rightarrow> id \<Rightarrow> id option \<Rightarrow> user" where
  "demo_account i roleId m =
     \<lparr>us_id = i, us_companyId = 9, us_email = None, us_passwordHash = ''h'', us_name = ''U'', us_phone = None,
      us_roleId = roleId, us_isActive = True, us_forcePasswordChange = False, us_managerId = m, us_totpSecret = None,
      us_totpEnabled = False, us_recoveryCodes = [], us_failedTotpAttempts = 0, us_totpLockedUntil = None,
      us_authzVersion = 0, us_failedLoginAttempts = 0, us_lockedUntil = None, us_lastLoginAt = None,
      us_applicantId = None, us_brokerId = None\<rparr>"

definition demo_company :: auth_db where
  "demo_company = \<lparr>next_auth_id = 100,
     users = [demo_account 1 50 None, demo_account 2 51 (Some 1)],
     roles = [\<lparr>ro_id = 50, ro_companyId = 9, ro_name = ''S'', ro_slug = ''super_admin'', ro_isSystem = True, ro_isPortal = False\<rparr>,
       \<lparr>ro_id = 51, ro_companyId = 9, ro_name = ''M'', ro_slug = ''m'', ro_isSystem = False, ro_isPortal = False\<rparr>],
     permissions = [\<lparr>pm_id = 70, pm_key = ''admin.user.create''\<rparr>, \<lparr>pm_id = 71, pm_key = ''admin.user.read''\<rparr>],
     rolePermissions = [\<lparr>rp_roleId = 51, rp_permissionId = 71\<rparr>],
     refreshTokens = [], passwordResets = [], portalPasswordResets = [], auditLogs = []\<rparr>"

definition demo_new_user :: create_user_dto where
  "demo_new_user = \<lparr>cu_email = ''n@x'', cu_name = ''N'', cu_passwordHash = ''h'', cu_roleId = 51, cu_phone = None,
     cu_managerId = Some (Some 1)\<rparr>"

lemmas access_defs = loadCurrentCaller_def assertCallerActive_def assertActorIsSuperAdminIfTargetIs_def
  assertRoleFitsAccount_def loadRoleForSubsetCheck_def find_company_role_def find_company_user_def find_user_def
  find_role_def role_keys_def stored_keys_def isSuperAdminRole_def SUPER_ADMIN_SLUG_def assertValidManager_def

lemma demo_company_wf: "access_wf demo_company"
  by (simp add: access_wf_def demo_company_def demo_account_def)

lemma demo_company_fit: "accounts_fit demo_company"
  by (simp add: accounts_fit_def demo_company_def demo_account_def find_company_role_def is_portal_account_def)

lemma demo_company_super: "has_super demo_company 9"
  by (simp add: has_super_def is_super_def demo_company_def demo_account_def access_defs)

lemma demo_created: "\<exists>i d'. user_create 9 demo_new_user 2 demo_company = Inr (i, d')"
  by (simp add: user_create_def demo_company_def demo_new_user_def demo_account_def access_defs Let_def)

lemma demo_run:
  "user_create 9 demo_new_user 2 demo_company = Inr (i, d') \<Longrightarrow> access_run {2} demo_company d'"
  using access_run.step [OF access_run.start _ access_step.create_user] by blast

theorem no_escalation_witness:
  "\<exists>i d'. user_create 9 demo_new_user 2 demo_company = Inr (i, d') \<and> authority d' i \<subseteq> {''admin.user.read''}"
proof -
  obtain i d' where run: "user_create 9 demo_new_user 2 demo_company = Inr (i, d')" using demo_created by blast
  then have "i = 100" by (auto simp: user_create_def Let_def demo_company_def)
  moreover have "authority demo_company 100 = {}" "authority demo_company 2 \<subseteq> {''admin.user.read''}"
    by (simp_all add: authority_def demo_company_def demo_account_def access_defs)
  ultimately show ?thesis
    using no_escalation [OF demo_run [OF run] demo_company_wf, of i] run by auto
qed

theorem super_admin_kept_accounts_fit_witness:
  "\<exists>i d'. user_create 9 demo_new_user 2 demo_company = Inr (i, d') \<and> has_super d' 9 \<and> accounts_fit d'"
proof -
  obtain i d' where run: "user_create 9 demo_new_user 2 demo_company = Inr (i, d')" using demo_created by blast
  from super_admin_kept_accounts_fit [OF demo_run [OF run] demo_company_wf demo_company_fit demo_company_super] run
  show ?thesis by blast
qed

section \<open>The reporting line\<close>

definition manager_of :: "auth_db \<Rightarrow> id \<Rightarrow> id \<Rightarrow> id option" where
  "manager_of d companyId i = Option.bind (find_company_user d companyId i) us_managerId"

text \<open>The \<open>n\<close>-th superior above a manager.\<close>

definition superior :: "auth_db \<Rightarrow> id \<Rightarrow> nat \<Rightarrow> id option \<Rightarrow> id option" where
  "superior d companyId n m = ((\<lambda>x. Option.bind x (manager_of d companyId)) ^^ n) m"

lemma superior_None [simp]: "superior d k n None = None"
  by (induction n) (simp_all add: superior_def)

lemma superior_Suc: "superior d k (Suc n) m = superior d k n (Option.bind m (manager_of d k))"
  by (simp add: superior_def funpow_Suc_right del: funpow.simps)

lemma walk_clear_iff: "walk_clear n d k u cur \<longleftrightarrow> (\<forall>j<n. superior d k j cur \<noteq> Some u)"
proof (induction n arbitrary: cur)
  case (Suc n)
  have "(\<forall>j<Suc n. superior d k j cur \<noteq> Some u) \<longleftrightarrow>
      cur \<noteq> Some u \<and> (\<forall>j<n. superior d k j (Option.bind cur (manager_of d k)) \<noteq> Some u)"
    by (auto simp: All_less_Suc2 superior_Suc) (simp_all add: superior_def)
  with Suc show ?case by (cases cur) (simp_all add: manager_of_def)
qed simp

text \<open>
  The check stops after twenty hops: an accepted manager has the user nowhere among himself
  and his first twenty superiors, which is all superiors only if the line is that short.
\<close>

lemma valid_manager_exactly:
  "assertValidManager d k (Some u) (Some m) = Inr () \<longleftrightarrow>
   find_company_user d k m \<noteq> None \<and> (\<forall>j\<le>20. superior d k j (Some m) \<noteq> Some u)"
proof -
  have "(\<forall>j\<le>20. superior d k j (Some m) \<noteq> Some u) \<longleftrightarrow> m \<noteq> u \<and> (\<forall>j<20. superior d k j (manager_of d k m) \<noteq> Some u)"
    unfolding less_Suc_eq_le [symmetric] All_less_Suc2 superior_Suc by (simp add: superior_def)
  then show ?thesis
    by (cases "find_company_user d k m") (auto simp: assertValidManager_def walk_clear_iff manager_of_def)
qed

definition demo_line :: auth_db where
  "demo_line = demo_company\<lparr>users := map (\<lambda>i. demo_account i 51 (if i < 22 then Some (i + 1) else None)) [1..<23]\<rparr>"

lemma demo_line_manager: "1 \<le> i \<Longrightarrow> i < 22 \<Longrightarrow> manager_of demo_line 9 i = Some (i + 1)"
proof -
  assume i: "1 \<le> i" "i < 22"
  let ?f = "\<lambda>i. demo_account i 51 (if i < 22 then Some (i + 1) else None)"
  have "List.find (\<lambda>u. us_id u = us_id (?f i) \<and> us_companyId u = 9) (map ?f [1..<23]) = Some (?f i)"
    using i by (intro find_distinct_where) (auto simp: demo_account_def o_def)
  with i show ?thesis by (simp add: manager_of_def find_company_user_def demo_line_def demo_account_def)
qed

lemma demo_line_superior: "n \<le> 21 \<Longrightarrow> superior demo_line 9 n (Some 1) = Some (n + 1)"
  by (induction n) (simp_all add: superior_def demo_line_manager)

text \<open>So a line of twenty-two can be closed into a circle: the top may report to the bottom.\<close>

lemma management_cycle_accepted:
  "assertValidManager demo_line 9 (Some 22) (Some 1) = Inr () \<and> superior demo_line 9 21 (Some 1) = Some 22"
proof -
  have "find_company_user demo_line 9 1 \<noteq> None"
    using demo_line_manager [of 1] by (auto simp: manager_of_def bind_eq_Some_conv)
  moreover have "superior demo_line 9 j (Some 1) \<noteq> Some 22" if "j \<le> 20" for j
    using demo_line_superior [of j] that by simp
  moreover have "superior demo_line 9 21 (Some 1) = Some 22" using demo_line_superior [of 21] by simp
  ultimately show ?thesis using valid_manager_exactly [of demo_line 9 22 1] by blast
qed

end
