(* ===== verification/Login.thy ===== *)
theory Login
  imports AccessSafety Guards
begin

text \<open>
  \<open>apps/api/src/auth/auth.service.ts\<close> and \<open>totp-lockout.ts\<close>: signing in, the second
  factor, passwords and reset links. Password verification (argon2), the check of a TOTP code
  against an encrypted secret and SHA-256 are arguments, as are the clock and random values.
  An operation whose writes are not one transaction keeps them when it throws, so it returns
  its outcome and the database.
\<close>

section \<open>Signing in\<close>

type_synonym 'a outcome = "'a result \<times> auth_db"

datatype login_result = TwoFactor jwt_payload | Session jwt_payload string int

definition MAX_FAILED_ATTEMPTS :: int where
  "MAX_FAILED_ATTEMPTS = 5"

definition LOCKOUT_MINUTES :: int where
  "LOCKOUT_MINUTES = 15"

definition recordFailedAttempt :: "int \<Rightarrow> id \<Rightarrow> int \<Rightarrow> auth_db \<Rightarrow> auth_db" where
  "recordFailedAttempt now userId currentAttempts d =
     (let attempts = currentAttempts + 1;
          locked = (if attempts \<ge> MAX_FAILED_ATTEMPTS then Some (now + LOCKOUT_MINUTES * 60 * 1000) else None)
      in upd_user userId (\<lambda>u. u\<lparr>us_failedLoginAttempts := attempts, us_lockedUntil := locked\<rparr>) d)"

definition staff_payload :: "user \<Rightarrow> role \<Rightarrow> string list \<Rightarrow> int \<Rightarrow> jwt_payload" where
  "staff_payload u r perms av =
     \<lparr>jw_sub = us_id u, jw_companyId = us_companyId u, jw_email = us_email u, jw_roleSlug = ro_slug r,
      jw_permissions = perms, jw_forcePasswordChange = Some (us_forcePasswordChange u), jw_surface = Some Staff,
      jw_av = Some av, jw_applicantId = None, jw_brokerId = None\<rparr>"

text \<open>\<open>signAccessToken\<close> without a version reads the current one.\<close>

definition issueTokens ::
  "token_config \<Rightarrow> (string \<Rightarrow> string) \<Rightarrow> int \<Rightarrow> string \<Rightarrow> user \<Rightarrow> role \<Rightarrow> auth_db \<Rightarrow> login_result outcome" where
  "issueTokens cfg hash now raw u r d =
     (case bindE (currentAuthzVersion (us_id u) d) (\<lambda>av.
             bindE (createRefreshToken cfg hash now raw (us_id u) None None d) (\<lambda>(expiresAt, d').
               Inr (Session (staff_payload u r (stored_keys d (us_roleId u)) av) raw expiresAt, d'))) of
        Inl e \<Rightarrow> (Inl e, d)
      | Inr (s, d') \<Rightarrow> (Inr s, d'))"

definition pending_payload :: "user \<Rightarrow> role \<Rightarrow> int \<Rightarrow> jwt_payload" where
  "pending_payload u r av =
     (staff_payload u r [TWO_FACTOR_PENDING_PERMISSION] av)\<lparr>jw_forcePasswordChange := None\<rparr>"

text \<open>\<open>user.totpEnabled && user.totpSecret\<close>.\<close>

definition has_second_factor :: "user \<Rightarrow> bool" where
  "has_second_factor u \<longleftrightarrow> us_totpEnabled u \<and> us_totpSecret u \<noteq> None \<and> us_totpSecret u \<noteq> Some []"

definition login ::
  "token_config \<Rightarrow> (string \<Rightarrow> string) \<Rightarrow> (string \<Rightarrow> string \<Rightarrow> bool) \<Rightarrow> int \<Rightarrow> string \<Rightarrow> string \<Rightarrow> string \<Rightarrow> auth_db \<Rightarrow>
   login_result outcome" where
  "login cfg hash verify now email password raw d =
     (case List.find (\<lambda>u. us_email u = Some email) (users d) of
        None \<Rightarrow> (Inl (Unauthorized ''Invalid credentials''), d)
      | Some u \<Rightarrow>
          (case find_role d (us_roleId u) of
             None \<Rightarrow> (Inl (JsError ''role''), d)
           | Some r \<Rightarrow>
               if \<not> us_isActive u then (Inl (Unauthorized ''Invalid credentials''), d)
               else if is_portal_account u \<or> ro_isPortal r then (Inl (Unauthorized ''Invalid credentials''), d)
               else if (\<exists>t. us_lockedUntil u = Some t \<and> now < t)
               then (Inl (Unauthorized ''Account locked. Try again later.''), d)
               else if \<not> verify (us_passwordHash u) password
               then (Inl (Unauthorized ''Invalid credentials''), recordFailedAttempt now (us_id u) (us_failedLoginAttempts u) d)
               else let d1 = upd_user (us_id u) (\<lambda>u. u\<lparr>us_failedLoginAttempts := 0, us_lockedUntil := None,
                               us_lastLoginAt := Some now\<rparr>) d
                    in if has_second_factor u
                       then (bindE (currentAuthzVersion (us_id u) d1) (\<lambda>av. Inr (TwoFactor (pending_payload u r av))), d1)
                       else issueTokens cfg hash now raw u r d1))"

section \<open>The second factor\<close>

definition MAX_FAILED_TOTP_ATTEMPTS :: int where
  "MAX_FAILED_TOTP_ATTEMPTS = 5"

definition TOTP_LOCKOUT_MINUTES :: int where
  "TOTP_LOCKOUT_MINUTES = 5"

definition totp_locked :: "int \<Rightarrow> user \<Rightarrow> bool" where
  "totp_locked now u \<longleftrightarrow> (\<exists>t. us_totpLockedUntil u = Some t \<and> now < t)"

definition count_totp_attempt :: "int \<Rightarrow> user \<Rightarrow> user" where
  "count_totp_attempt now u =
     (let attempts = (if us_totpLockedUntil u = None then us_failedTotpAttempts u + 1 else 1)
      in u\<lparr>us_failedTotpAttempts := attempts,
           us_totpLockedUntil :=
             (if attempts \<ge> MAX_FAILED_TOTP_ATTEMPTS then Some (now + TOTP_LOCKOUT_MINUTES * 60 * 1000) else None)\<rparr>)"

text \<open>One UPDATE with the lock in its WHERE.\<close>

definition reserveTotpAttempt :: "int \<Rightarrow> id \<Rightarrow> auth_db \<Rightarrow> auth_db result" where
  "reserveTotpAttempt now userId d =
     (if filter (\<lambda>u. us_id u = userId \<and> \<not> totp_locked now u) (users d) = []
      then Inl (TooManyRequests ''Too many incorrect codes.'')
      else Inr (d\<lparr>users := update_rows (\<lambda>u. us_id u = userId \<and> \<not> totp_locked now u) (count_totp_attempt now) (users d)\<rparr>))"

definition verifyTotp ::
  "token_config \<Rightarrow> (string \<Rightarrow> string) \<Rightarrow> (string \<Rightarrow> string \<Rightarrow> bool) \<Rightarrow> int \<Rightarrow> id \<Rightarrow> string \<Rightarrow> surface option \<Rightarrow> string \<Rightarrow> auth_db \<Rightarrow>
   login_result outcome" where
  "verifyTotp cfg hash totp_ok now userId code pendingSurface raw d =
     (if pendingSurface \<noteq> None \<and> pendingSurface \<noteq> Some Staff
      then (Inl (Forbidden ''This session type may not access this route.''), d)
      else case find_user d userId of
        None \<Rightarrow> (Inl (NotFound ''User''), d)
      | Some u \<Rightarrow>
          (case find_role d (us_roleId u) of
             None \<Rightarrow> (Inl (JsError ''role''), d)
           | Some r \<Rightarrow>
               if is_portal_account u \<or> ro_isPortal r then (Inl (Unauthorized ''Invalid credentials''), d)
               else if \<not> has_second_factor u then (Inl (BadRequest ''2FA not enabled''), d)
               else (case reserveTotpAttempt now userId d of
                 Inl e \<Rightarrow> (Inl e, d)
               | Inr d1 \<Rightarrow>
                   if totp_ok (the (us_totpSecret u)) code
                   then issueTokens cfg hash now raw u r (upd_user userId totp_attempts_cleared d1)
                   else if code \<in> set (us_recoveryCodes u)
                   then issueTokens cfg hash now raw u r
                     (upd_user userId (\<lambda>x. (totp_attempts_cleared x)\<lparr>us_recoveryCodes := remove1 code (us_recoveryCodes u)\<rparr>) d1)
                   else (Inl (Unauthorized ''Invalid TOTP code''), d1))))"

text \<open>The new secret arrives encrypted.\<close>

definition setupTotp :: "string \<Rightarrow> id \<Rightarrow> auth_db \<Rightarrow> (unit \<times> auth_db) result" where
  "setupTotp encrypted userId d =
     bindE (orFail (NotFound ''User'') (find_user d userId)) (\<lambda>u.
       Inr ((), upd_user userId (\<lambda>u. u\<lparr>us_totpSecret := Some encrypted, us_totpEnabled := False\<rparr>) d))"

definition endOtherSessions :: "(string \<Rightarrow> string) \<Rightarrow> int \<Rightarrow> id \<Rightarrow> string option \<Rightarrow> auth_db \<Rightarrow> (unit \<times> auth_db) result" where
  "endOtherSessions hash now userId currentRefreshToken d =
     bindE (endSessions hash now userId currentRefreshToken d) (\<lambda>(v, d'). Inr ((), d'))"

definition confirmTotp ::
  "(string \<Rightarrow> string) \<Rightarrow> (string \<Rightarrow> string \<Rightarrow> bool) \<Rightarrow> int \<Rightarrow> id \<Rightarrow> string \<Rightarrow> string list \<Rightarrow> string option \<Rightarrow> auth_db \<Rightarrow>
   (string list \<times> auth_db) result" where
  "confirmTotp hash totp_ok now userId code newRecoveryCodes currentRefreshToken d =
     bindE (orFail (NotFound ''User'') (find_user d userId)) (\<lambda>u.
     bindE (ensure (us_totpSecret u \<noteq> None \<and> us_totpSecret u \<noteq> Some []) (BadRequest ''TOTP setup not started'')) (\<lambda>_.
     bindE (ensure (totp_ok (the (us_totpSecret u)) code) (BadRequest ''Invalid TOTP code'')) (\<lambda>_.
       let d1 = log_event (user_event (us_companyId u) userId userId ''TOTP_ENABLED'')
                  (upd_user userId (\<lambda>u. u\<lparr>us_totpEnabled := True, us_recoveryCodes := newRecoveryCodes\<rparr>) d)
       in bindE (endOtherSessions hash now userId currentRefreshToken d1) (\<lambda>(_, d2). Inr (newRecoveryCodes, d2)))))"

definition disableTotp :: "(string \<Rightarrow> string) \<Rightarrow> int \<Rightarrow> id \<Rightarrow> id \<Rightarrow> string option \<Rightarrow> auth_db \<Rightarrow> (unit \<times> auth_db) result" where
  "disableTotp hash now userId companyId currentRefreshToken d =
     endOtherSessions hash now userId currentRefreshToken
       (log_event (user_event companyId userId userId ''TOTP_DISABLED'') (upd_user userId totp_cleared d))"

section \<open>Sessions\<close>

definition refreshTokens_of ::
  "token_config \<Rightarrow> (string \<Rightarrow> string) \<Rightarrow> int \<Rightarrow> string \<Rightarrow> string \<Rightarrow> auth_db \<Rightarrow> (jwt_payload \<times> int) option \<times> auth_db" where
  "refreshTokens_of cfg hash now rawToken newRaw d =
     (case rotateRefreshToken cfg hash now rawToken newRaw None d of
        (None, d') \<Rightarrow> (None, d')
      | (Some res, d') \<Rightarrow>
          (case find_user d' (rr_userId res) of
             None \<Rightarrow> (None, d')
           | Some u \<Rightarrow>
               (case find_role d' (us_roleId u) of
                  None \<Rightarrow> (None, d')
                | Some r \<Rightarrow>
                    if \<not> us_isActive u \<or> is_portal_account u \<or> ro_isPortal r then (None, d')
                    else (Some (staff_payload u r (stored_keys d' (us_roleId u)) (rr_authzVersion res), rr_expiresAt res), d'))))"

definition logout :: "(string \<Rightarrow> string) \<Rightarrow> int \<Rightarrow> string \<Rightarrow> auth_db \<Rightarrow> auth_db" where
  "logout hash now rawToken d = revokeFamily hash now rawToken d"

definition logoutAll :: "int \<Rightarrow> id \<Rightarrow> auth_db \<Rightarrow> auth_db" where
  "logoutAll now userId d = revokeAllForUser now userId d"

section \<open>Passwords\<close>

definition consumeResetLinks :: "int \<Rightarrow> id \<Rightarrow> auth_db \<Rightarrow> auth_db" where
  "consumeResetLinks now userId d =
     d\<lparr>passwordResets := consume_links now (\<lambda>l. rl_userId l = userId) (passwordResets d)\<rparr>"

definition set_password :: "string \<Rightarrow> user \<Rightarrow> user" where
  "set_password newHash u = u\<lparr>us_passwordHash := newHash, us_forcePasswordChange := False\<rparr>"

definition changePassword ::
  "(string \<Rightarrow> string) \<Rightarrow> (string \<Rightarrow> string \<Rightarrow> bool) \<Rightarrow> int \<Rightarrow> id \<Rightarrow> string \<Rightarrow> string \<Rightarrow> string option \<Rightarrow> auth_db \<Rightarrow>
   (unit \<times> auth_db) result" where
  "changePassword hash verify now userId currentPassword newHash currentRefreshToken d =
     bindE (orFail (NotFound ''User'') (find_user d userId)) (\<lambda>u.
     bindE (ensure (verify (us_passwordHash u) currentPassword) (Unauthorized ''Current password is incorrect'')) (\<lambda>_.
       endOtherSessions hash now userId currentRefreshToken
         (log_event (user_event (us_companyId u) userId userId ''PASSWORD_CHANGED'')
           (consumeResetLinks now userId (upd_user userId (set_password newHash) d)))))"

definition forceChangePassword ::
  "(string \<Rightarrow> string) \<Rightarrow> int \<Rightarrow> id \<Rightarrow> id \<Rightarrow> string \<Rightarrow> auth_db \<Rightarrow> (unit \<times> auth_db) result" where
  "forceChangePassword hash now userId companyId newHash d =
     endOtherSessions hash now userId None
       (log_event (user_event companyId userId userId ''PASSWORD_CHANGED'')
         (consumeResetLinks now userId (upd_user userId (set_password newHash) d)))"

definition find_link :: "auth_db \<Rightarrow> string \<Rightarrow> reset_link option" where
  "find_link d h = List.find (\<lambda>l. rl_tokenHash l = h) (passwordResets d)"

definition claim_link :: "int \<Rightarrow> reset_link \<Rightarrow> auth_db \<Rightarrow> auth_db" where
  "claim_link now l d =
     d\<lparr>passwordResets := update_rows (\<lambda>x. rl_id x = rl_id l \<and> rl_consumedAt x = None)
          (\<lambda>x. x\<lparr>rl_consumedAt := Some now\<rparr>) (passwordResets d)\<rparr>"

text \<open>The claim commits on its own; the refusal of a deactivated account does not undo it.\<close>

definition confirmPasswordReset :: "(string \<Rightarrow> string) \<Rightarrow> int \<Rightarrow> string \<Rightarrow> string \<Rightarrow> auth_db \<Rightarrow> unit outcome" where
  "confirmPasswordReset hash now token newHash d =
     (case find_link d (hash token) of
        None \<Rightarrow> (Inl (Unauthorized ''Invalid or expired reset token''), d)
      | Some l \<Rightarrow>
          if rl_consumedAt l \<noteq> None \<or> rl_expiresAt l < now
          then (Inl (Unauthorized ''Invalid or expired reset token''), d)
          else let d1 = claim_link now l d in
            if filter (\<lambda>u. us_id u = rl_userId l \<and> us_isActive u) (users d1) = []
            then (Inl (Unauthorized ''Invalid or expired reset token''), d1)
            else let d2 = log_event (user_event (rl_companyId l) (rl_userId l) (rl_userId l) ''PASSWORD_RESET_USED'')
                   (d1\<lparr>users := update_rows (\<lambda>u. us_id u = rl_userId l \<and> us_isActive u)
                      (\<lambda>u. (set_password newHash u)\<lparr>us_failedLoginAttempts := 0, us_lockedUntil := None\<rparr>) (users d1)\<rparr>)
              in (case endOtherSessions hash now (rl_userId l) None d2 of
                    Inl e \<Rightarrow> (Inl e, d2)
                  | Inr (_, d3) \<Rightarrow> (Inr (), d3)))"

section \<open>A login\<close>

text \<open>The account a login is for, when nothing but the second factor is left to ask.\<close>

definition may_sign_in :: "(string \<Rightarrow> string \<Rightarrow> bool) \<Rightarrow> int \<Rightarrow> string \<Rightarrow> string \<Rightarrow> auth_db \<Rightarrow> user \<Rightarrow> role \<Rightarrow> bool" where
  "may_sign_in verify now email password d u r \<longleftrightarrow>
     List.find (\<lambda>u. us_email u = Some email) (users d) = Some u \<and> find_role d (us_roleId u) = Some r \<and>
     us_isActive u \<and> \<not> is_portal_account u \<and> \<not> ro_isPortal r \<and>
     (\<forall>t. us_lockedUntil u = Some t \<longrightarrow> t \<le> now) \<and> verify (us_passwordHash u) password"

definition signed_in :: "int \<Rightarrow> user \<Rightarrow> user" where
  "signed_in now u = u\<lparr>us_failedLoginAttempts := 0, us_lockedUntil := None, us_lastLoginAt := Some now\<rparr>"

lemma login_refused:
  assumes "\<And>u r. \<not> may_sign_in verify now email password d u r"
  shows "isl (fst (login cfg hash verify now email password raw d))"
proof (cases "List.find (\<lambda>u. us_email u = Some email) (users d)")
  case (Some u)
  show ?thesis
  proof (cases "find_role d (us_roleId u)")
    case r: (Some r)
    show ?thesis using assms [of u r] by (auto simp: login_def may_sign_in_def Some r not_le)
  qed (simp add: login_def Some)
qed (simp add: login_def)

lemma login_passed:
  assumes "may_sign_in verify now email password d u r"
  shows "login cfg hash verify now email password raw d =
    (let d1 = upd_user (us_id u) (signed_in now) d
     in if has_second_factor u then (bindE (currentAuthzVersion (us_id u) d1) (\<lambda>av. Inr (TwoFactor (pending_payload u r av))), d1)
        else issueTokens cfg hash now raw u r d1)"
  using assms
  by (cases "us_lockedUntil u") (simp_all add: login_def may_sign_in_def Let_def signed_in_def [abs_def] not_less)

lemma version_after_sign_in:
  assumes "u \<in> set (users d)" and "distinct (map us_id (users d))"
  shows "find_user (upd_user (us_id u) (signed_in now) d) (us_id u) = Some (signed_in now u)"
proof -
  have "find_user d (us_id u) = Some u" unfolding find_user_def by (rule find_distinct [OF assms(2,1)])
  then show ?thesis by (simp add: find_user_upd signed_in_def)
qed

lemma issueTokens_result:
  assumes "find_user d (us_id u) = Some v" and "us_authzVersion v = us_authzVersion u"
  shows "\<exists>e. fst (issueTokens cfg hash now raw u r d) =
    Inr (Session (staff_payload u r (stored_keys d (us_roleId u)) (us_authzVersion u)) raw e)"
  using assms by (simp add: issueTokens_def currentAuthzVersion_def createRefreshToken_def Let_def)

text \<open>
  C15: who gets a session from a login. Without the right password for the first account with
  the email, or with an account that is inactive, locked or a portal account, a login fails. An
  account with a second factor gets a token that carries the 2FA-pending key alone and no
  refresh token; any other gets a session with the stored permissions of its role and the
  current version.
\<close>

theorem login_outcome:
  assumes "distinct (map us_id (users d))"
  shows "((\<nexists>u r. may_sign_in verify now email password d u r) \<longrightarrow>
      isl (fst (login cfg hash verify now email password raw d))) \<and>
    (\<forall>u r. may_sign_in verify now email password d u r \<longrightarrow>
      (if has_second_factor u
       then fst (login cfg hash verify now email password raw d) =
           Inr (TwoFactor (pending_payload u r (us_authzVersion u))) \<and>
         refreshTokens (snd (login cfg hash verify now email password raw d)) = refreshTokens d
       else \<exists>e. fst (login cfg hash verify now email password raw d) =
           Inr (Session (staff_payload u r (stored_keys d (us_roleId u)) (us_authzVersion u)) raw e)))"
    (is "_ \<and> (\<forall>u r. _ \<longrightarrow> ?outcome u r)")
proof (intro conjI allI impI)
  show "isl (fst (login cfg hash verify now email password raw d))"
    if "\<nexists>u r. may_sign_in verify now email password d u r"
    using that login_refused by blast
next
  fix u r assume ok: "may_sign_in verify now email password d u r"
  then have u: "u \<in> set (users d)" by (auto simp: may_sign_in_def dest: find_SomeD)
  note v = version_after_sign_in [OF u assms, of now]
  have same: "us_authzVersion (signed_in now u) = us_authzVersion u" by (simp add: signed_in_def)
  note keys = same_roles_cong(2) [OF upd_user_same_roles]
  from issueTokens_result [OF v same, of cfg hash now raw r] v same show "?outcome u r"
    by (simp add: login_passed [OF ok] Let_def currentAuthzVersion_def keys)
qed

theorem login_outcome_witness:
  "fst (login demo_config (\<lambda>s. s) (\<lambda>h p. h = p) 5 ''a@b'' ''h'' ''r''
      (demo_company\<lparr>users := [(demo_account 1 50 None)\<lparr>us_email := Some ''a@b'', us_totpEnabled := True, us_totpSecret := Some ''k''\<rparr>]\<rparr>))
    = Inr (TwoFactor (pending_payload
        ((demo_account 1 50 None)\<lparr>us_email := Some ''a@b'', us_totpEnabled := True, us_totpSecret := Some ''k''\<rparr>)
        \<lparr>ro_id = 50, ro_companyId = 9, ro_name = ''S'', ro_slug = ''super_admin'', ro_isSystem = True, ro_isPortal = False\<rparr> 0))"
  (is "fst (login _ _ _ _ _ _ _ ?d) = Inr (TwoFactor (pending_payload ?u ?r 0))")
proof -
  have "distinct (map us_id (users ?d))" by simp
  moreover have "may_sign_in (\<lambda>h p. h = p) 5 ''a@b'' ''h'' ?d ?u ?r"
    by (simp add: may_sign_in_def demo_account_def demo_company_def find_role_def is_portal_account_def)
  ultimately show ?thesis
    using login_outcome [of ?d "\<lambda>h p. h = p" 5 "''a@b''" "''h''" demo_config "\<lambda>s. s" "''r''"]
    by (fastforce simp: has_second_factor_def demo_account_def)
qed

section \<open>Guessing codes\<close>

text \<open>
  What happens to the attempt counter of one account: a code is presented at a time, or the
  counter is cleared, by a right code or a recovery code (after it has been reserved like any
  other), by a disabled second factor or by an administrator's reset.
\<close>

datatype totp_event = Presented int | Cleared

text \<open>How many of the presented codes are looked at.\<close>

fun codes_checked :: "totp_event list \<Rightarrow> id \<Rightarrow> auth_db \<Rightarrow> nat" where
  "codes_checked [] userId d = 0"
| "codes_checked (Presented t # es) userId d =
     (case reserveTotpAttempt t userId d of
        Inl e \<Rightarrow> codes_checked es userId d
      | Inr d' \<Rightarrow> Suc (codes_checked es userId d'))"
| "codes_checked (Cleared # es) userId d = codes_checked es userId (upd_user userId totp_attempts_cleared d)"

definition clearings :: "totp_event list \<Rightarrow> nat" where
  "clearings es = length (filter (\<lambda>e. e = Cleared) es)"

fun row_checked :: "totp_event list \<Rightarrow> user \<Rightarrow> nat" where
  "row_checked [] u = 0"
| "row_checked (Presented t # es) u =
     (if totp_locked t u then row_checked es u else Suc (row_checked es (count_totp_attempt t u)))"
| "row_checked (Cleared # es) u = row_checked es (totp_attempts_cleared u)"

lemma codes_checked_row:
  "distinct (map us_id (users d)) \<Longrightarrow> u \<in> set (users d) \<Longrightarrow> codes_checked es (us_id u) d = row_checked es u"
proof (induction es arbitrary: d u)
  case (Cons e es)
  have same: "v = u" if "v \<in> set (users d)" "us_id v = us_id u" for v
    using Cons.prems that by (auto simp: distinct_map inj_on_def)
  show ?case
  proof (cases e)
    case (Presented t)
    show ?thesis
    proof (cases "totp_locked t u")
      case True
      with same have "filter (\<lambda>v. us_id v = us_id u \<and> \<not> totp_locked t v) (users d) = []" by (auto simp: filter_empty_conv)
      with True Cons show ?thesis by (simp add: Presented reserveTotpAttempt_def)
    next
      case False
      let ?d = "d\<lparr>users := update_rows (\<lambda>v. us_id v = us_id u \<and> \<not> totp_locked t v) (count_totp_attempt t) (users d)\<rparr>"
      have id: "us_id (count_totp_attempt t v) = us_id v" for v by (simp add: count_totp_attempt_def Let_def)
      have "distinct (map us_id (users ?d))" using Cons.prems(1) by (simp add: map_update_rows id)
      moreover have "count_totp_attempt t u \<in> set (users ?d)"
        using Cons.prems(2) False by (auto simp: update_rows_def)
      moreover have "filter (\<lambda>v. us_id v = us_id u \<and> \<not> totp_locked t v) (users d) \<noteq> []"
        using Cons.prems(2) False by (auto simp: filter_empty_conv)
      ultimately show ?thesis
        using Cons.IH [of ?d "count_totp_attempt t u"] False by (simp add: Presented reserveTotpAttempt_def id)
    qed
  next
    case Cleared
    let ?d = "upd_user (us_id u) totp_attempts_cleared d"
    have id: "us_id (totp_attempts_cleared v) = us_id v" for v by (simp add: totp_attempts_cleared_def)
    have "distinct (map us_id (users ?d))" using Cons.prems(1) by (simp add: upd_user_def map_update_rows id)
    moreover have "totp_attempts_cleared u \<in> set (users ?d)"
      using Cons.prems(2) by (auto simp: upd_user_def update_rows_def)
    ultimately show ?thesis using Cons.IH [of ?d "totp_attempts_cleared u"] by (simp add: Cleared id)
  qed
qed simp

definition totp_window :: int where
  "totp_window = TOTP_LOCKOUT_MINUTES * 60 * 1000"

definition presented_before :: "int \<Rightarrow> totp_event list \<Rightarrow> bool" where
  "presented_before l es \<longleftrightarrow> (\<forall>t. Presented t \<in> set es \<longrightarrow> t < l)"

text \<open>A locked row, an open row and any row, by simultaneous induction.\<close>

lemma row_checked_bounds:
  assumes "0 \<le> us_failedTotpAttempts u" and "\<forall>t. Presented t \<in> set es \<longrightarrow> a \<le> t \<and> t < a + totp_window"
  shows "(\<forall>l. us_totpLockedUntil u = Some l \<longrightarrow> presented_before l es \<longrightarrow> row_checked es u \<le> 5 * clearings es) \<and>
    (us_totpLockedUntil u = None \<longrightarrow>
       int (row_checked es u) \<le> max 1 (5 - us_failedTotpAttempts u) + 5 * int (clearings es)) \<and>
    row_checked es u \<le> 5 + 5 * clearings es"
  using assms
proof (induction es arbitrary: u)
  case (Cons e es)
  have win: "\<forall>t. Presented t \<in> set es \<longrightarrow> a \<le> t \<and> t < a + totp_window" using Cons.prems(2) by auto
  show ?case
  proof (cases e)
    case (Presented t)
    let ?u = "count_totp_attempt t u"
    have n: "clearings (e # es) = clearings es" by (simp add: Presented clearings_def)
    have later: "presented_before (t + totp_window) es"
      unfolding presented_before_def
    proof (intro allI impI)
      fix s assume "Presented s \<in> set es"
      then have "s < a + totp_window" "a \<le> t" using Cons.prems(2) Presented by auto
      then show "s < t + totp_window" by linarith
    qed
    have "0 \<le> us_failedTotpAttempts ?u"
      using Cons.prems(1) by (simp add: count_totp_attempt_def Let_def)
    note ih = Cons.IH [OF this win] and same = Cons.IH [OF Cons.prems(1) win]
    have open_step: "int (row_checked es ?u) \<le> max 1 (5 - us_failedTotpAttempts u) - 1 + 5 * int (clearings es)"
      if lock: "us_totpLockedUntil u = None"
    proof (cases "us_failedTotpAttempts u + 1 \<ge> 5")
      case True
      then have "us_totpLockedUntil ?u = Some (t + totp_window)"
        using lock by (simp add: count_totp_attempt_def Let_def MAX_FAILED_TOTP_ATTEMPTS_def totp_window_def)
      then have "row_checked es ?u \<le> 5 * clearings es" using ih later by blast
      then show ?thesis by linarith
    next
      case False
      then have "us_totpLockedUntil ?u = None" "us_failedTotpAttempts ?u = us_failedTotpAttempts u + 1"
        using lock by (simp_all add: count_totp_attempt_def Let_def MAX_FAILED_TOTP_ATTEMPTS_def)
      then show ?thesis using ih False by linarith
    qed
    have again: "row_checked es ?u \<le> 4 + 5 * clearings es" if lock: "us_totpLockedUntil u = Some l" for l
    proof -
      have "us_totpLockedUntil ?u = None" "us_failedTotpAttempts ?u = 1"
        using lock by (simp_all add: count_totp_attempt_def Let_def MAX_FAILED_TOTP_ATTEMPTS_def)
      then show ?thesis using ih by linarith
    qed
    have locked: "totp_locked t u" if "us_totpLockedUntil u = Some l" "presented_before l (e # es)" for l
      using that Presented by (simp add: totp_locked_def presented_before_def)
    show ?thesis
    proof (cases "us_totpLockedUntil u")
      case None
      then have "\<not> totp_locked t u" by (simp add: totp_locked_def)
      then show ?thesis using open_step [OF None] Cons.prems(1) None by (auto simp: Presented clearings_def)
    next
      case (Some l)
      have "presented_before l es" if "presented_before l (e # es)" using that by (simp add: presented_before_def)
      then show ?thesis
        using Some same again [OF Some] locked [OF Some] by (auto simp: Presented clearings_def)
    qed
  next
    case Cleared
    let ?u = "totp_attempts_cleared u"
    have "us_totpLockedUntil ?u = None" "us_failedTotpAttempts ?u = 0"
      by (simp_all add: totp_attempts_cleared_def)
    then have "int (row_checked es ?u) \<le> 5 + 5 * int (clearings es)" using Cons.IH [of ?u] win by simp
    moreover have "clearings (e # es) = Suc (clearings es)" "row_checked (e # es) u = row_checked es ?u"
      by (simp_all add: Cleared clearings_def)
    ultimately show ?thesis by linarith
  qed
qed (simp add: clearings_def max_def)

text \<open>
  Codes cannot be guessed fast. Whatever the state of the lock, among any codes presented
  for one account within five minutes at most five are looked at, and at most five more each
  time the counter is cleared in between (by a right code, a disabled second factor or an
  administrator); the rest are refused before the code is read.
\<close>

theorem totp_guess_bound:
  assumes "distinct (map us_id (users d))" and "find_user d userId = Some u" and "0 \<le> us_failedTotpAttempts u"
    and "\<forall>t. Presented t \<in> set es \<longrightarrow> start \<le> t \<and> t < start + 5 * 60 * 1000"
  shows "codes_checked es userId d \<le> 5 + 5 * clearings es"
proof -
  have "u \<in> set (users d)" "us_id u = userId" using find_user_id [OF assms(2)] by auto
  moreover have "row_checked es u \<le> 5 + 5 * clearings es"
    using row_checked_bounds [OF assms(3), of es start] assms(4) by (simp add: totp_window_def TOTP_LOCKOUT_MINUTES_def)
  ultimately show ?thesis using codes_checked_row [OF assms(1), of u es] by simp
qed

theorem totp_guess_bound_witness:
  "codes_checked [Presented 0, Presented 1, Presented 2, Presented 3, Presented 4, Presented 5, Presented 6] 1 demo_company \<le> 5"
proof -
  let ?es = "[Presented 0, Presented 1, Presented 2, Presented 3, Presented 4, Presented 5, Presented 6]"
  have u: "find_user demo_company 1 = Some (demo_account 1 50 None)"
    by (simp add: find_user_def demo_company_def demo_account_def)
  have "distinct (map us_id (users demo_company))" by (simp add: demo_company_def demo_account_def)
  from totp_guess_bound [OF this u, of ?es 0] show ?thesis
    by (auto simp: demo_account_def clearings_def simp del: codes_checked.simps)
qed

section \<open>Reset links\<close>

text \<open>
  The operations that write the staff reset links, at the given time (a confirmation, the two
  changes of a password, an administrator's new link, a deactivation), and any other.
\<close>

inductive link_step :: "(string \<Rightarrow> string) \<Rightarrow> string \<Rightarrow> int \<Rightarrow> auth_db \<Rightarrow> auth_db \<Rightarrow> bool"
  for hash :: "string \<Rightarrow> string" and token :: string
where
  confirm: "confirmPasswordReset hash now raw newHash d = (r, d') \<Longrightarrow> link_step hash token now d d'"
| change: "changePassword hash verify now i cur newHash current d = Inr ((), d') \<Longrightarrow> link_step hash token now d d'"
| force_change: "forceChangePassword hash now i c newHash d = Inr ((), d') \<Longrightarrow> link_step hash token now d d'"
| issue: "user_forcePasswordReset hash now raw c i a d = Inr (e, d') \<Longrightarrow> hash raw \<noteq> hash token \<Longrightarrow>
    link_step hash token now d d'"
| deactivate: "user_deactivate hash now c i a d = Inr (v, d') \<Longrightarrow> link_step hash token now d d'"
| elsewhere: "passwordResets d' = passwordResets d \<Longrightarrow> link_step hash token now d d'"

inductive link_run :: "(string \<Rightarrow> string) \<Rightarrow> string \<Rightarrow> int \<Rightarrow> auth_db \<Rightarrow> auth_db \<Rightarrow> bool"
  for hash :: "string \<Rightarrow> string" and token :: string and start :: int
where
  start: "link_run hash token start d d"
| step: "link_run hash token start d d1 \<Longrightarrow> start \<le> now \<Longrightarrow> link_step hash token now d1 d2 \<Longrightarrow> link_run hash token start d d2"

definition spent :: "int \<Rightarrow> string \<Rightarrow> reset_link list \<Rightarrow> bool" where
  "spent now h ls \<longleftrightarrow> (\<forall>l\<in>set ls. rl_tokenHash l = h \<longrightarrow> rl_consumedAt l \<noteq> None \<or> rl_expiresAt l < now)"

lemma spent_update: "spent now h ls \<Longrightarrow> spent now h (update_rows p (\<lambda>l. l\<lparr>rl_consumedAt := Some t\<rparr>) ls)"
  by (auto simp: spent_def update_rows_def)

lemma endOtherSessions_links [simp]:
  "endOtherSessions hash now i current d = Inr (x, d') \<Longrightarrow> passwordResets d' = passwordResets d"
  by (auto simp: endOtherSessions_def revoke_where_def bump_version_def upd_user_def split: if_splits dest!: endSessions_step)

lemma confirm_links:
  assumes "confirmPasswordReset hash now raw newHash d = (r, d')"
  shows "passwordResets d' = passwordResets d \<or>
    (\<exists>l. find_link d (hash raw) = Some l \<and> passwordResets d' = passwordResets (claim_link now l d))"
  using assms
  by (auto simp: confirmPasswordReset_def Let_def log_event_def split: option.splits if_splits sum.splits)

lemma spent_step: "link_step hash token now d d' \<Longrightarrow> spent s (hash token) (passwordResets d) \<Longrightarrow>
  spent s (hash token) (passwordResets d')"
proof (induction rule: link_step.induct)
  case (confirm now raw newHash d r d')
  from confirm_links [OF this(1)] confirm(2) show ?case
    by (auto simp: claim_link_def spent_update)
next
  case (change verify now i cur newHash current d d')
  then show ?case
    by (auto simp: changePassword_def consumeResetLinks_def consume_links_def log_event_def upd_user_def spent_update
        split: if_splits)
next
  case (force_change now i c newHash d d')
  then show ?case
    by (auto simp: forceChangePassword_def consumeResetLinks_def consume_links_def log_event_def upd_user_def spent_update)
next
  case (issue now raw c i a d e d')
  then have "passwordResets d' = consume_links now (\<lambda>l. rl_companyId l = c \<and> rl_userId l = i) (passwordResets d) @
      [\<lparr>rl_id = next_auth_id d, rl_companyId = c, rl_userId = i, rl_tokenHash = hash raw,
        rl_expiresAt = now + RESET_EXPIRY_MS, rl_consumedAt = None, rl_createdById = Some a\<rparr>]"
    by (auto simp: user_forcePasswordReset_def Let_def log_event_def)
  with issue(2) spent_update [OF issue.prems] show ?case by (auto simp: spent_def consume_links_def)
next
  case (deactivate now c i a d v d')
  then obtain d1 where e: "endSessions hash now i None (upd_user i (\<lambda>u. u\<lparr>us_isActive := False\<rparr>) d) = Inr (v, d1)"
    and l: "passwordResets d' = consume_links now (\<lambda>l. rl_userId l = i) (passwordResets d1)"
    unfolding user_deactivate_def by (elim returnedE) auto
  from e have "endOtherSessions hash now i None (upd_user i (\<lambda>u. u\<lparr>us_isActive := False\<rparr>) d) = Inr ((), d1)"
    by (simp add: endOtherSessions_def)
  then have "passwordResets d1 = passwordResets d" using endOtherSessions_links by (fastforce simp: upd_user_def)
  with l spent_update [OF deactivate.prems] show ?case by (simp add: consume_links_def)
qed simp

lemma spent_run: "link_run hash token start d d' \<Longrightarrow> spent s (hash token) (passwordResets d) \<Longrightarrow>
  spent s (hash token) (passwordResets d')"
  by (induction rule: link_run.induct) (auto intro: spent_step)

lemma spent_confirm:
  assumes "spent now (hash token) (passwordResets d)" and "now \<le> later"
  shows "confirmPasswordReset hash later token newHash d = (Inl (Unauthorized ''Invalid or expired reset token''), d)"
  using assms
  by (cases "find_link d (hash token)")
    (fastforce simp: confirmPasswordReset_def spent_def find_link_def dest: find_SomeD)+

lemma confirmed_spent:
  assumes distinct: "distinct (map rl_tokenHash (passwordResets d))"
    and first: "confirmPasswordReset hash now token newHash d = (r, d1)"
  shows "spent now (hash token) (passwordResets d1)"
proof -
  have uniq: "l = m" if "l \<in> set (passwordResets d)" "m \<in> set (passwordResets d)" "rl_tokenHash l = rl_tokenHash m" for l m
    using distinct that by (auto simp: distinct_map inj_on_def)
  show ?thesis
  proof (cases "find_link d (hash token)")
    case None
    with first have "d1 = d" by (simp add: confirmPasswordReset_def)
    with None show ?thesis by (auto simp: spent_def find_link_def find_None_iff)
  next
    case (Some l)
    then have l: "l \<in> set (passwordResets d)" "rl_tokenHash l = hash token" by (auto simp: find_link_def dest: find_SomeD)
    show ?thesis
    proof (cases "rl_consumedAt l \<noteq> None \<or> rl_expiresAt l < now")
      case True
      with first Some have "d1 = d" by (auto simp: confirmPasswordReset_def)
      with True l show ?thesis by (auto simp: spent_def dest: uniq [OF l(1)])
    next
      case False
      with first Some have "passwordResets d1 = passwordResets (claim_link now l d)"
        by (auto simp: confirmPasswordReset_def Let_def log_event_def split: if_splits sum.splits)
      with l show ?thesis
        by (auto simp: spent_def claim_link_def update_rows_def dest: uniq [OF l(1)])
    qed
  qed
qed

text \<open>
  C16: a reset link works at most once. After a confirmation with a link, whatever it answered
  (a deactivated account refuses it), and after any later password changes, confirmations, new
  links, deactivations and operations that do not write the links (the clock not running
  backwards, no new token with the same hash), confirming with the same token is refused and
  changes nothing.
\<close>

theorem reset_link_single_use:
  assumes "distinct (map rl_tokenHash (passwordResets d))"
    and "confirmPasswordReset hash now token newHash d = (r, d1)"
    and "link_run hash token now d1 d2" and "now \<le> later"
  shows "confirmPasswordReset hash later token otherHash d2 = (Inl (Unauthorized ''Invalid or expired reset token''), d2)"
proof -
  from spent_run [OF assms(3) confirmed_spent [OF assms(1,2)]]
  show ?thesis by (rule spent_confirm) (rule assms(4))
qed

definition demo_links :: auth_db where
  "demo_links = demo_company\<lparr>passwordResets := [\<lparr>rl_id = 80, rl_companyId = 9, rl_userId = 2, rl_tokenHash = ''t'',
     rl_expiresAt = 100, rl_consumedAt = None, rl_createdById = Some 1\<rparr>]\<rparr>"

theorem reset_link_single_use_witness:
  "fst (confirmPasswordReset (\<lambda>s. s) 10 ''t'' ''n'' demo_links) = Inr () \<and>
   fst (confirmPasswordReset (\<lambda>s. s) 20 ''t'' ''m'' (snd (confirmPasswordReset (\<lambda>s. s) 10 ''t'' ''n'' demo_links)))
     = Inl (Unauthorized ''Invalid or expired reset token'')"
proof
  show "fst (confirmPasswordReset (\<lambda>s. s) 10 ''t'' ''n'' demo_links) = Inr ()"
    by (simp add: confirmPasswordReset_def demo_links_def demo_company_def demo_account_def find_link_def claim_link_def
        Let_def update_rows_def endOtherSessions_def endSessions_def find_user_def log_event_def set_password_def)
  have "distinct (map rl_tokenHash (passwordResets demo_links))" by (simp add: demo_links_def)
  from reset_link_single_use [OF this prod.collapse [symmetric] link_run.start, where now = 10 and later = 20]
  show "fst (confirmPasswordReset (\<lambda>s. s) 20 ''t'' ''m'' (snd (confirmPasswordReset (\<lambda>s. s) 10 ''t'' ''n'' demo_links)))
     = Inl (Unauthorized ''Invalid or expired reset token'')" by simp
qed

lemma confirm_ends:
  assumes "confirmPasswordReset hash now token newHash d = (Inr (), d1)"
  shows "\<exists>l d0 v. find_link d (hash token) = Some l \<and> refreshTokens d0 = refreshTokens d \<and>
    next_auth_id d0 = next_auth_id d \<and>
    users d0 = update_rows (\<lambda>u. us_id u = rl_userId l \<and> us_isActive u)
      (\<lambda>u. (set_password newHash u)\<lparr>us_failedLoginAttempts := 0, us_lockedUntil := None\<rparr>) (users d) \<and>
    endSessions hash now (rl_userId l) None d0 = Inr (v, d1)"
proof -
  from assms obtain l where l: "find_link d (hash token) = Some l"
    by (auto simp: confirmPasswordReset_def split: option.splits)
  let ?d0 = "log_event (user_event (rl_companyId l) (rl_userId l) (rl_userId l) ''PASSWORD_RESET_USED'')
    ((claim_link now l d)\<lparr>users := update_rows (\<lambda>u. us_id u = rl_userId l \<and> us_isActive u)
      (\<lambda>u. (set_password newHash u)\<lparr>us_failedLoginAttempts := 0, us_lockedUntil := None\<rparr>) (users (claim_link now l d))\<rparr>)"
  from assms l obtain v where "endSessions hash now (rl_userId l) None ?d0 = Inr (v, d1)"
    by (auto simp: confirmPasswordReset_def endOtherSessions_def Let_def bindE_eq_Inl split: if_splits sum.splits)
  moreover have "refreshTokens ?d0 = refreshTokens d" "next_auth_id ?d0 = next_auth_id d"
    by (simp_all add: log_event_def claim_link_def)
  moreover have "users ?d0 = update_rows (\<lambda>u. us_id u = rl_userId l \<and> us_isActive u)
      (\<lambda>u. (set_password newHash u)\<lparr>us_failedLoginAttempts := 0, us_lockedUntil := None\<rparr>) (users d)"
    by (simp add: log_event_def claim_link_def)
  ultimately show ?thesis using l by blast
qed

text \<open>
  A password reset shuts everyone else out. After a confirmation through a link, every
  refresh token its user held before is refused for ever, and the version his access tokens
  must carry has moved on.
\<close>

theorem password_reset_ends_sessions:
  assumes ok: "tokens_ok d" and reset: "confirmPasswordReset hash now token newHash d = (Inr (), d1)"
    and link: "find_link d (hash token) = Some l"
    and held: "find_token d (hash raw) = Some t" "rt_userId t = rl_userId l"
    and later: "token_run cfg hash d1 d2"
  shows "fst (rotateRefreshToken cfg hash now' raw newRaw override d2) = None \<and>
    map_option us_authzVersion (find_user d1 (rl_userId l)) =
      map_option (\<lambda>u. us_authzVersion u + 1) (find_user d (rl_userId l))"
proof -
  from confirm_ends [OF reset] link obtain d0 v where
    same: "refreshTokens d0 = refreshTokens d" "next_auth_id d0 = next_auth_id d" and
    users: "users d0 = update_rows (\<lambda>u. us_id u = rl_userId l \<and> us_isActive u)
      (\<lambda>u. (set_password newHash u)\<lparr>us_failedLoginAttempts := 0, us_lockedUntil := None\<rparr>) (users d)" and
    ended: "endSessions hash now (rl_userId l) None d0 = Inr (v, d1)" by auto
  have ok0: "tokens_ok d0" by (rule tokens_ok_elsewhere [OF ok same(1)]) (simp add: same(2))
  have held0: "find_token d0 (hash raw) = Some t" using held(1) same(1) by (simp add: find_token_def)
  have "map_option us_authzVersion (find_user d0 (rl_userId l)) = map_option us_authzVersion (find_user d (rl_userId l))"
    unfolding find_user_def users by (subst find_update_rows) (simp_all add: set_password_def option.map_comp comp_def if_distrib cong: if_cong)
  with ended_for_good [OF ok0 ended held0 held(2) later, of now' newRaw override] show ?thesis
    by (cases "find_user d (rl_userId l)") auto
qed

definition demo_reset :: auth_db where
  "demo_reset = demo_auth\<lparr>passwordResets := [\<lparr>rl_id = 80, rl_companyId = 9, rl_userId = 1, rl_tokenHash = ''t'',
     rl_expiresAt = 100, rl_consumedAt = None, rl_createdById = None\<rparr>]\<rparr>"

theorem password_reset_ends_sessions_witness:
  "fst (rotateRefreshToken demo_config (\<lambda>s. s) 20 ''x'' ''y'' None
     (snd (confirmPasswordReset (\<lambda>s. s) 10 ''t'' ''n'' demo_reset))) = None"
proof -
  have ok: "tokens_ok demo_reset" by (rule tokens_ok_elsewhere [OF demo_tokens_ok]) (simp_all add: demo_reset_def)
  have "fst (confirmPasswordReset (\<lambda>s. s) 10 ''t'' ''n'' demo_reset) = Inr ()"
    by (simp add: confirmPasswordReset_def demo_reset_def demo_auth_def find_link_def claim_link_def
        Let_def update_rows_def endOtherSessions_def endSessions_def find_user_def log_event_def set_password_def)
  then have reset: "confirmPasswordReset (\<lambda>s. s) 10 ''t'' ''n'' demo_reset =
      (Inr (), snd (confirmPasswordReset (\<lambda>s. s) 10 ''t'' ''n'' demo_reset))" by (metis prod.collapse)
  obtain l where l: "find_link demo_reset ((\<lambda>s. s) ''t'') = Some l" "rl_userId l = 1"
    by (simp add: find_link_def demo_reset_def)
  obtain t where t: "find_token demo_reset ((\<lambda>s. s) ''x'') = Some t" "rt_userId t = 1"
    by (simp add: find_token_def demo_reset_def demo_auth_def)
  from password_reset_ends_sessions [OF ok reset l(1) t(1) _ token_run.refl] l(2) t(2) show ?thesis by simp
qed

section \<open>Setting up the second factor\<close>

text \<open>
  Starting the setup of a second factor takes away the one in force. \<open>setupTotp\<close> asks
  for no code and no password, writes no audit row and ends no session; after it, the password
  alone signs the account in.
\<close>

theorem setup_drops_2fa:
  assumes distinct: "distinct (map us_id (users d))" and u: "may_sign_in verify now email password d u r"
  shows "\<exists>d1 e payload. setupTotp encrypted (us_id u) d = Inr ((), d1) \<and> auditLogs d1 = auditLogs d \<and>
    refreshTokens d1 = refreshTokens d \<and>
    map_option us_authzVersion (find_user d1 (us_id u)) = Some (us_authzVersion u) \<and>
    fst (login cfg hash verify now email password raw d1) = Inr (Session payload raw e)"
proof -
  let ?f = "\<lambda>u. u\<lparr>us_totpSecret := Some encrypted, us_totpEnabled := False\<rparr>"
  let ?d1 = "upd_user (us_id u) ?f d"
  have first: "List.find (\<lambda>u. us_email u = Some email) (users d) = Some u" using u by (simp add: may_sign_in_def)
  then have mem: "u \<in> set (users d)" by (auto dest: find_SomeD)
  then have found: "find_user d (us_id u) = Some u" unfolding find_user_def by (rule find_distinct [OF distinct])
  have "List.find (\<lambda>u. us_email u = Some email) (users ?d1) = Some (?f u)"
    unfolding upd_user_def by (simp add: find_update_rows first)
  then have "may_sign_in verify now email password ?d1 (?f u) r"
    using u by (simp add: may_sign_in_def is_portal_account_def find_role_def upd_user_def)
  from login_passed [OF this, of cfg hash raw]
  have log: "login cfg hash verify now email password raw ?d1 =
      issueTokens cfg hash now raw (?f u) r (upd_user (us_id u) (signed_in now) ?d1)"
    by (simp add: has_second_factor_def Let_def)
  have fu: "find_user ?d1 (us_id u) = Some (?f u)" by (simp add: find_user_upd found)
  have "find_user (upd_user (us_id u) (signed_in now) ?d1) (us_id (?f u)) = Some (signed_in now (?f u))"
    by (simp add: find_user_upd found signed_in_def)
  from issueTokens_result [OF this, of cfg hash now raw r] obtain e p where
    "fst (login cfg hash verify now email password raw ?d1) = Inr (Session p raw e)"
    by (auto simp: log signed_in_def)
  moreover have "setupTotp encrypted (us_id u) d = Inr ((), ?d1)" by (simp add: setupTotp_def found)
  ultimately show ?thesis using fu by (auto simp: upd_user_def)
qed

definition demo_2fa :: auth_db where
  "demo_2fa = demo_company\<lparr>users := [(demo_account 1 50 None)\<lparr>us_email := Some ''a@b'', us_totpEnabled := True,
     us_totpSecret := Some ''k''\<rparr>]\<rparr>"

theorem setup_drops_2fa_witness:
  "\<exists>d1 e payload. setupTotp ''new'' 1 demo_2fa = Inr ((), d1) \<and> auditLogs d1 = [] \<and>
    fst (login demo_config (\<lambda>s. s) (\<lambda>h p. h = p) 5 ''a@b'' ''h'' ''r'' d1) = Inr (Session payload ''r'' e)"
proof -
  have "distinct (map us_id (users demo_2fa))" by (simp add: demo_2fa_def)
  moreover obtain u r where "may_sign_in (\<lambda>h p. h = p) 5 ''a@b'' ''h'' demo_2fa u r" "us_id u = 1"
    by (simp add: may_sign_in_def demo_2fa_def demo_account_def demo_company_def find_role_def is_portal_account_def)
  ultimately show ?thesis
    using setup_drops_2fa [of demo_2fa "\<lambda>h p. h = p" 5 "''a@b''" "''h''" u r "''new''" demo_config "\<lambda>s. s" "''r''"]
    by (auto simp: demo_2fa_def demo_company_def)
qed

section \<open>Boundaries\<close>

text \<open>After a lock has run out the counter still stands at its limit: one failure locks again.\<close>

lemma relocked_at_once:
  assumes "find_user d i = Some u" and "us_failedLoginAttempts u = MAX_FAILED_ATTEMPTS"
  shows "map_option us_lockedUntil (find_user (recordFailedAttempt now i (us_failedLoginAttempts u) d) i) =
    Some (Some (now + 15 * 60 * 1000))"
  using assms
  by (auto simp: recordFailedAttempt_def find_user_upd MAX_FAILED_ATTEMPTS_def LOCKOUT_MINUTES_def Let_def dest: find_user_id)

text \<open>
  The email alone picks the account, though emails are unique only within a company: the
  second holder of an email cannot sign in with his own password.
\<close>

lemma second_holder_locked_out:
  assumes "List.find (\<lambda>u. us_email u = Some email) (users d) = Some u" and "\<not> verify (us_passwordHash u) password"
  shows "isl (fst (login cfg hash verify now email password raw d))"
  using assms by (simp add: login_def Let_def split: option.split)

text \<open>The forced change asks neither for the old password nor whether a change was forced.\<close>

lemma forced_change_unasked:
  assumes "find_user d i = Some u"
  shows "\<exists>d'. forceChangePassword hash now i c newHash d = Inr ((), d') \<and>
    map_option us_passwordHash (find_user d' i) = Some newHash"
  using assms find_user_id [OF assms]
  by (auto simp: forceChangePassword_def endOtherSessions_def endSessions_def find_user_def log_event_def consumeResetLinks_def
      upd_user_def bump_version_def revoke_where_def set_password_def find_update_rows Let_def)

end
