(* ===== verification/PluginHttp.thy ===== *)
theory PluginHttp
  imports Text "HOL-Library.Word"
begin

text \<open>
  \<open>apps/api/src/plugins/plugin-http-client.ts\<close>: the HTTP client a plugin gets. The
  network is an argument: what a name resolves to and what a server answers may differ at
  every hop, so a name that resolves to a public address first and to a private one later is
  among the cases. The URL parser, \<open>JSON.stringify\<close> and \<open>JSON.parse\<close> are arguments
  too. The deadline is one of the ways a hop can fail. A promise may also never settle.
\<close>

section \<open>Addresses\<close>

fun split_on :: "char \<Rightarrow> string \<Rightarrow> string list" where
  "split_on c [] = [[]]"
| "split_on c (x # xs) =
     (if x = c then [] # split_on c xs
      else case split_on c xs of [] \<Rightarrow> [[x]] | w # ws \<Rightarrow> (x # w) # ws)"

text \<open>
  \<open>Number\<close> on the texts that occur between the dots of an address (decimal digits; the
  empty text is 0). Anything else is \<open>NaN\<close> here.
\<close>

definition octet :: "string \<Rightarrow> nat option" where
  "octet s = (if list_all is_digit s then Some (digits_val s) else None)"

definition isPublicIpv4 :: "string \<Rightarrow> bool" where
  "isPublicIpv4 ip =
     (let octets = map octet (split_on (CHR ''.'') ip)
      in if length octets \<noteq> 4 \<or> list_ex (\<lambda>o1. o1 = None \<or> 255 < the o1) octets then False
         else let a = the (octets ! 0); b = the (octets ! 1)
         in if a = 10 then False
            else if a = 127 then False
            else if a = 0 then False
            else if a = 172 \<and> b \<ge> 16 \<and> b \<le> 31 then False
            else if a = 192 \<and> b = 168 then False
            else if a = 169 \<and> b = 254 then False
            else if a = 100 \<and> b \<ge> 64 \<and> b \<le> 127 then False
            else if a \<ge> 224 then False
            else True)"

definition to_lower :: "char \<Rightarrow> char" where
  "to_lower c = (if 65 \<le> (of_char c :: nat) \<and> (of_char c :: nat) \<le> 90 then char_of (of_char c + 32 :: nat) else c)"

definition startsWith :: "string \<Rightarrow> string \<Rightarrow> bool" where
  "startsWith s p \<longleftrightarrow> take (length p) s = p"

text \<open>\<open>/^::ffff:(\d+\.\d+\.\d+\.\d+)$/\<close>.\<close>

definition mapped :: "string \<Rightarrow> string option" where
  "mapped s =
     (if startsWith s ''::ffff:'' \<and> length (split_on (CHR ''.'') (drop 7 s)) = 4 \<and>
         list_all (\<lambda>w. w \<noteq> [] \<and> list_all is_digit w) (split_on (CHR ''.'') (drop 7 s))
      then Some (drop 7 s) else None)"

definition isPublicIpv6 :: "string \<Rightarrow> bool" where
  "isPublicIpv6 ip =
     (let normalized = map to_lower ip
      in if normalized = ''::1'' then False
         else if normalized = ''::'' then False
         else if startsWith normalized ''fc'' \<or> startsWith normalized ''fd'' then False
         else if startsWith normalized ''fe8'' \<or> startsWith normalized ''fe9'' \<or> startsWith normalized ''fea'' \<or>
           startsWith normalized ''feb'' then False
         else if startsWith normalized ''ff'' then False
         else case mapped normalized of Some v4 \<Rightarrow> isPublicIpv4 v4 | None \<Rightarrow> True)"

definition isPublicIp :: "string \<Rightarrow> bool" where
  "isPublicIp ip = (if CHR '':'' \<in> set ip then isPublicIpv6 ip else isPublicIpv4 ip)"

definition assertPublicAddress :: "string \<Rightarrow> string \<Rightarrow> unit result" where
  "assertPublicAddress hostname ip = ensure (isPublicIp ip) (JsError ''not a public address'')"

section \<open>Headers\<close>

datatype header_value = Plain string | SecretHeader string "string \<Rightarrow> string" | OtherValue

fun resolveSecretHeaders :: "(string \<times> header_value) list \<Rightarrow> (string \<rightharpoonup> string) \<Rightarrow> (string \<times> string) list result" where
  "resolveSecretHeaders [] realSecrets = Inr []"
| "resolveSecretHeaders ((key, value) # hs) realSecrets =
     bindE (case value of
              Plain s \<Rightarrow> Inr s
            | OtherValue \<Rightarrow> Inl (JsError ''header is not a string or a secretHeader'')
            | SecretHeader fieldKey f \<Rightarrow>
                (case realSecrets fieldKey of
                   None \<Rightarrow> Inl (JsError ''no secret configured'')
                 | Some plaintext \<Rightarrow> Inr (f plaintext))) (\<lambda>s.
     bindE (resolveSecretHeaders hs realSecrets) (\<lambda>r. Inr ((key, s) # r)))"

section \<open>One hop\<close>

record url =
  ur_protocol :: string
  ur_hostname :: string
  ur_port :: string
  ur_pathname :: string
  ur_search :: string

text \<open>What is sent, and to which address the connection is pinned.\<close>

record hop =
  ho_url :: url
  ho_address :: string
  ho_port :: string
  ho_path :: string
  ho_method :: string
  ho_headers :: "(string \<times> string) list"
  ho_body :: "string option"

datatype raw_header = One string | Many "string list"

text \<open>
  An answer: its body in chunks, and whether the server then ended it (the response's
  \<open>end\<close> event) or closed the connection in the middle of it, which the response reports
  (\<open>aborted\<close>, \<open>close\<close>) and the request does not.
\<close>

record wire =
  wi_status :: nat
  wi_headers :: "(string \<times> raw_header) list"
  wi_chunks :: "string list"
  wi_complete :: bool
  wi_location :: "string option"

record answer =
  an_status :: nat
  an_headers :: "(string \<times> string) list"
  an_body :: string
  an_location :: "string option"

text \<open>The n-th lookup and the n-th connection.\<close>

record network =
  nw_lookup :: "nat \<Rightarrow> string \<Rightarrow> string result"
  nw_connect :: "nat \<Rightarrow> hop \<Rightarrow> wire result"

definition MAX_RESPONSE_BYTES :: nat where
  "MAX_RESPONSE_BYTES = 1000000"

definition MAX_REDIRECTS :: nat where
  "MAX_REDIRECTS = 1"

fun read_chunks :: "nat \<Rightarrow> string list \<Rightarrow> string result" where
  "read_chunks so_far [] = Inr []"
| "read_chunks so_far (c # cs) =
     (if so_far + length c > MAX_RESPONSE_BYTES then Inl (JsError ''response exceeded 1MB cap'')
      else bindE (read_chunks (so_far + length c) cs) (\<lambda>r. Inr (c @ r)))"

definition header_text :: "raw_header \<Rightarrow> string" where
  "header_text h = (case h of One s \<Rightarrow> s | Many vs \<Rightarrow> join '', '' vs)"

text \<open>
  A hop and the connections made by it. The promise resolves on the response's \<open>end\<close> and
  rejects on the request's \<open>error\<close>; \<open>None\<close> is neither.
\<close>

definition dispatchOnce ::
  "network \<Rightarrow> nat \<Rightarrow> url \<Rightarrow> string \<Rightarrow> (string \<times> string) list \<Rightarrow> string option \<Rightarrow> answer result option \<times> hop list" where
  "dispatchOnce net n target methd headers body =
     (if ur_protocol target \<noteq> ''http:'' \<and> ur_protocol target \<noteq> ''https:''
      then (Some (Inl (JsError ''unsupported scheme'')), [])
      else case bindE (nw_lookup net n (ur_hostname target)) (\<lambda>address.
                  bindE (assertPublicAddress (ur_hostname target) address) (\<lambda>_. Inr address)) of
        Inl e \<Rightarrow> (Some (Inl e), [])
      | Inr address \<Rightarrow>
          let h = \<lparr>ho_url = target, ho_address = address,
                ho_port = (if ur_port target \<noteq> [] then ur_port target else if ur_protocol target = ''https:'' then ''443'' else ''80''),
                ho_path = ur_pathname target @ ur_search target, ho_method = methd, ho_headers = headers,
                ho_body = (case body of Some b \<Rightarrow> if b = [] then None else Some b | None \<Rightarrow> None)\<rparr>
          in (case nw_connect net n h of
                Inl e \<Rightarrow> Some (Inl e)
              | Inr res \<Rightarrow>
                  (case read_chunks 0 (wi_chunks res) of
                     Inl e \<Rightarrow> Some (Inl e)
                   | Inr b \<Rightarrow>
                       if wi_complete res
                       then Some (Inr \<lparr>an_status = wi_status res, an_headers = map (\<lambda>(k, v). (k, header_text v)) (wi_headers res),
                              an_body = b, an_location = wi_location res\<rparr>)
                       else None), [h]))"

section \<open>The request\<close>

text \<open>The URL parser, with the base a relative reference is resolved against.\<close>

type_synonym url_parser = "string \<Rightarrow> url option \<Rightarrow> url option"

definition is_redirect :: "answer \<Rightarrow> bool" where
  "is_redirect r \<longleftrightarrow> an_status r \<ge> 300 \<and> an_status r < 400 \<and> an_location r \<noteq> None \<and> an_location r \<noteq> Some []"

text \<open>
  \<open>for (;;)\<close>: nothing but its own \<open>return\<close> and exceptions ends it. The outer
  \<open>None\<close> would be a loop that goes round for ever, the inner one is an \<open>await\<close> of a
  promise that never settles.
\<close>

partial_function (option) request_loop ::
  "network \<Rightarrow> url_parser \<Rightarrow> string \<Rightarrow> (string \<times> string) list \<Rightarrow> string option \<Rightarrow> nat \<Rightarrow> url \<Rightarrow>
     (answer result option \<times> hop list) option" where
  [code]: "request_loop net parse methd headers body redirects target =
     (case dispatchOnce net redirects target methd headers body of
        (None, hops) \<Rightarrow> Some (None, hops)
      | (Some (Inl e), hops) \<Rightarrow> Some (Some (Inl e), hops)
      | (Some (Inr r), hops) \<Rightarrow>
          if \<not> is_redirect r \<or> redirects \<ge> MAX_REDIRECTS then Some (Some (Inr r), hops)
          else (case parse (the (an_location r)) (Some target) of
                  None \<Rightarrow> Some (Some (Inl (JsError ''Invalid URL'')), hops)
                | Some u \<Rightarrow>
                    Option.bind (request_loop net parse methd headers body (redirects + 1) u)
                      (\<lambda>(r', rest). Some (r', hops @ rest))))"

datatype 'j request_body = NoBody | TextBody string | JsonBody 'j

record 'j request_options =
  rq_url :: string
  rq_method :: "string option"
  rq_headers :: "(string \<times> header_value) list"
  rq_body :: "'j request_body"

definition with_content_type :: "string option \<Rightarrow> (string \<times> string) list \<Rightarrow> (string \<times> string) list" where
  "with_content_type body headers =
     (if body \<noteq> None \<and> ''content-type'' \<notin> set (map (map to_lower \<circ> fst) headers)
      then headers @ [(''Content-Type'', ''application/json'')] else headers)"

datatype 'j parsed_body = Parsed 'j | Raw string

record 'j http_response =
  hr_status :: nat
  hr_headers :: "(string \<times> string) list"
  hr_body :: "'j parsed_body"

definition parse_body :: "(string \<Rightarrow> 'j option) \<Rightarrow> string \<Rightarrow> 'j parsed_body" where
  "parse_body from_json b = (case from_json b of Some j \<Rightarrow> Parsed j | None \<Rightarrow> Raw b)"

definition http_request ::
  "network \<Rightarrow> url_parser \<Rightarrow> ('j \<Rightarrow> string) \<Rightarrow> (string \<Rightarrow> 'j option) \<Rightarrow> (string \<rightharpoonup> string) \<Rightarrow> 'j request_options \<Rightarrow>
   ('j http_response result option \<times> hop list) option" where
  "http_request net parse to_json from_json realSecrets options =
     (case resolveSecretHeaders (rq_headers options) realSecrets of
        Inl e \<Rightarrow> Some (Some (Inl e), [])
      | Inr hs \<Rightarrow>
          let methd = (case rq_method options of None \<Rightarrow> ''GET'' | Some m \<Rightarrow> m);
              body = (case rq_body options of NoBody \<Rightarrow> None | TextBody s \<Rightarrow> Some s | JsonBody j \<Rightarrow> Some (to_json j));
              headers = with_content_type body hs
          in case parse (rq_url options) None of
               None \<Rightarrow> Some (Some (Inl (JsError ''Invalid URL'')), [])
             | Some target \<Rightarrow>
                 map_option (\<lambda>(r, hops). (map_option (\<lambda>r. bindE r (\<lambda>a.
                     Inr \<lparr>hr_status = an_status a, hr_headers = an_headers a, hr_body = parse_body from_json (an_body a)\<rparr>)) r, hops))
                   (request_loop net parse methd headers body 0 target))"

section \<open>The request returns\<close>

lemma request_loop_last:
  "MAX_REDIRECTS \<le> n \<Longrightarrow> request_loop net parse methd headers body n target =
     Some (dispatchOnce net n target methd headers body)"
  by (subst request_loop.simps) (simp split: prod.split sum.split option.split)

lemma request_loop_first:
  "request_loop net parse methd headers body 0 target =
     (case dispatchOnce net 0 target methd headers body of
        (None, hops) \<Rightarrow> Some (None, hops)
      | (Some (Inl e), hops) \<Rightarrow> Some (Some (Inl e), hops)
      | (Some (Inr r), hops) \<Rightarrow>
          if \<not> is_redirect r then Some (Some (Inr r), hops)
          else (case parse (the (an_location r)) (Some target) of
                  None \<Rightarrow> Some (Some (Inl (JsError ''Invalid URL'')), hops)
                | Some u \<Rightarrow> (case dispatchOnce net 1 u methd headers body of (r', rest) \<Rightarrow> Some (r', hops @ rest))))"
  by (subst request_loop.simps)
    (simp add: request_loop_last MAX_REDIRECTS_def split: prod.split sum.split option.split)

text \<open>What may be said of a connection: made once per hop, to the address that hop looked up.\<close>

definition checked_hop :: "network \<Rightarrow> nat \<Rightarrow> string \<Rightarrow> (string \<times> string) list \<Rightarrow> hop \<Rightarrow> bool" where
  "checked_hop net n methd headers h \<longleftrightarrow>
     ur_protocol (ho_url h) \<in> {''http:'', ''https:''} \<and> nw_lookup net n (ur_hostname (ho_url h)) = Inr (ho_address h) \<and>
     isPublicIp (ho_address h) \<and> ho_method h = methd \<and> ho_headers h = headers"

text \<open>The server of the n-th connection closes it in the middle of a body that is within the cap.\<close>

definition breaks_off :: "network \<Rightarrow> nat \<Rightarrow> hop \<Rightarrow> bool" where
  "breaks_off net n h \<longleftrightarrow>
     (case nw_connect net n h of
        Inl e \<Rightarrow> False
      | Inr res \<Rightarrow> \<not> isl (read_chunks 0 (wi_chunks res)) \<and> \<not> wi_complete res)"

lemma dispatchOnce_settles:
  "dispatchOnce net n target methd headers body = (r, [h]) \<Longrightarrow> r = None \<longleftrightarrow> breaks_off net n h"
  "dispatchOnce net n target methd headers body = (r, []) \<Longrightarrow> r \<noteq> None"
  unfolding dispatchOnce_def Let_def breaks_off_def by (auto split: if_splits sum.splits)

lemma dispatchOnce_checked:
  "dispatchOnce net n target methd headers body = (r, hops) \<Longrightarrow>
     hops = [] \<or> (\<exists>h. hops = [h] \<and> ho_url h = target \<and> checked_hop net n methd headers h)"
  by (auto simp: dispatchOnce_def checked_hop_def assertPublicAddress_def Let_def split: if_splits sum.splits)

lemma dispatchOnce_hops:
  "dispatchOnce net n target methd headers body = (r, hops) \<Longrightarrow>
     hops = [] \<and> r \<noteq> None \<or>
     (\<exists>h. hops = [h] \<and> ho_url h = target \<and> checked_hop net n methd headers h \<and> (r = None \<longleftrightarrow> breaks_off net n h))"
  using dispatchOnce_checked dispatchOnce_settles by metis

lemma request_loop_hops:
  obtains r hops where "request_loop net parse methd headers body 0 target = Some (r, hops)" and "length hops \<le> 2"
    and "\<forall>i<length hops. checked_hop net i methd headers (hops ! i)"
    and "r = None \<longleftrightarrow> (\<exists>i<length hops. breaks_off net i (hops ! i))"
proof -
  let ?R = "request_loop net parse methd headers body 0 target"
  obtain r0 h0 where d0: "dispatchOnce net 0 target methd headers body = (r0, h0)" by fastforce
  from dispatchOnce_hops [OF d0] have one: "length h0 \<le> 1" "\<forall>i<length h0. checked_hop net i methd headers (h0 ! i)"
    "r0 = None \<longleftrightarrow> (\<exists>i<length h0. breaks_off net i (h0 ! i))"
    by auto
  show ?thesis
  proof (cases "\<exists>r u. r0 = Some (Inr r) \<and> is_redirect r \<and> parse (the (an_location r)) (Some target) = Some u")
    case True
    then obtain r u where r: "r0 = Some (Inr r)" "is_redirect r" "parse (the (an_location r)) (Some target) = Some u" by blast
    obtain r1 h1 where d1: "dispatchOnce net 1 u methd headers body = (r1, h1)" by fastforce
    from r(1) d0 have "\<exists>h. h0 = [h]" by (auto simp: dispatchOnce_def Let_def split: if_splits sum.splits)
    then obtain h where h: "h0 = [h]" ..
    have "?R = Some (r1, h0 @ h1)" using d1 by (simp add: request_loop_first d0 r)
    moreover have "length (h0 @ h1) \<le> 2" using dispatchOnce_hops [OF d1] h by auto
    moreover have "\<forall>i<length (h0 @ h1). checked_hop net i methd headers ((h0 @ h1) ! i)"
      using dispatchOnce_hops [OF d1] one(2) h by (auto simp: less_Suc_eq)
    moreover have "r1 = None \<longleftrightarrow> (\<exists>i<length (h0 @ h1). breaks_off net i ((h0 @ h1) ! i))"
      using dispatchOnce_hops [OF d1] one(3) r(1) h by (auto simp: less_Suc_eq)
    ultimately show ?thesis by (rule that)
  next
    case False
    then have "?R = Some (r0, h0) \<or> (\<exists>e. ?R = Some (Some e, h0)) \<and> r0 \<noteq> None"
      by (auto simp: request_loop_first d0 split: sum.split option.split)
    then obtain r where "?R = Some (r, h0)" "r = None \<longleftrightarrow> r0 = None" by auto
    with one that show ?thesis by fastforce
  qed
qed


text \<open>
  C18: a plugin reaches public addresses only. Every connection of a request is made over http
  or https to an address that was looked up for this very hop and is public, redirects
  included, and whatever a name resolves to at another time.
\<close>

theorem plugin_connects_publicly:
  assumes "http_request net parse to_json from_json realSecrets options = Some (r, hops)" and "i < length hops"
  shows "isPublicIp (ho_address (hops ! i)) \<and> ur_protocol (ho_url (hops ! i)) \<in> {''http:'', ''https:''} \<and>
    nw_lookup net i (ur_hostname (ho_url (hops ! i))) = Inr (ho_address (hops ! i))"
proof (cases "resolveSecretHeaders (rq_headers options) realSecrets")
  case (Inr hs)
  let ?body = "case rq_body options of NoBody \<Rightarrow> None | TextBody s \<Rightarrow> Some s | JsonBody j \<Rightarrow> Some (to_json j)"
  show ?thesis
  proof (cases "parse (rq_url options) None")
    case (Some target)
    obtain r' hops' where "request_loop net parse (case rq_method options of None \<Rightarrow> ''GET'' | Some m \<Rightarrow> m)
        (with_content_type ?body hs) ?body 0 target = Some (r', hops')"
      and "\<forall>i<length hops'. checked_hop net i (case rq_method options of None \<Rightarrow> ''GET'' | Some m \<Rightarrow> m)
        (with_content_type ?body hs) (hops' ! i)"
      by (rule request_loop_hops)
    with assms show ?thesis by (auto simp: http_request_def Inr Some Let_def checked_hop_def)
  qed (use assms in \<open>simp add: http_request_def Inr Let_def\<close>)
qed (use assms in \<open>simp add: http_request_def\<close>)

definition demo_url :: "string \<Rightarrow> url" where
  "demo_url h = \<lparr>ur_protocol = ''https:'', ur_hostname = h, ur_port = [], ur_pathname = ''/'', ur_search = []\<rparr>"

text \<open>A server that redirects to another one; the second name resolves as given.\<close>

definition demo_net :: "string \<Rightarrow> network" where
  "demo_net second = \<lparr>nw_lookup = (\<lambda>n h. Inr (if n = 0 then ''93.184.216.34'' else second)),
     nw_connect = (\<lambda>n h. Inr \<lparr>wi_status = (if n = 0 then 302 else 200), wi_headers = [], wi_chunks = [''ok''],
       wi_complete = True, wi_location = (if n = 0 then Some ''b'' else None)\<rparr>)\<rparr>"

definition demo_options :: "string request_options" where
  "demo_options = \<lparr>rq_url = ''a'', rq_method = None, rq_headers = [(''X-Key'', SecretHeader ''k'' (\<lambda>s. s))], rq_body = NoBody\<rparr>"

lemmas plugin_defs = http_request_def dispatchOnce_def assertPublicAddress_def isPublicIp_def isPublicIpv4_def octet_def
  digits_val_def digit_val_def is_digit_def is_redirect_def request_loop_first demo_net_def demo_options_def
  with_content_type_def Let_def MAX_RESPONSE_BYTES_def demo_url_def

lemma secret_follows_redirect:
  "\<exists>r h1 h2. http_request (demo_net ''8.8.8.8'') (\<lambda>s _. Some (demo_url s)) (\<lambda>s. s) (\<lambda>s. None) [''k'' \<mapsto> ''top secret''] demo_options
     = Some (r, [h1, h2]) \<and> ur_hostname (ho_url h1) = ''a'' \<and> ur_hostname (ho_url h2) = ''b'' \<and>
     ho_headers h1 = [(''X-Key'', ''top secret'')] \<and> ho_headers h2 = ho_headers h1"
  by (simp add: plugin_defs)

theorem plugin_connects_publicly_witness:
  "\<exists>r hops. http_request (demo_net ''8.8.8.8'') (\<lambda>s _. Some (demo_url s)) (\<lambda>s. s) (\<lambda>s. None) [''k'' \<mapsto> ''top secret''] demo_options
     = Some (r, hops) \<and> length hops = 2 \<and> isPublicIp (ho_address (hops ! 1))"
proof -
  obtain r h1 h2 where run: "http_request (demo_net ''8.8.8.8'') (\<lambda>s _. Some (demo_url s)) (\<lambda>s. s) (\<lambda>s. None)
      [''k'' \<mapsto> ''top secret''] demo_options = Some (r, [h1, h2])"
    using secret_follows_redirect by blast
  from plugin_connects_publicly [OF run, of 1] run show ?thesis by auto
qed

text \<open>A server that closes the connection in the middle of its body keeps the plugin waiting for ever.\<close>

lemma broken_body_hangs:
  "\<exists>h. http_request ((demo_net ''8.8.8.8'')\<lparr>nw_connect := \<lambda>n h. Inr \<lparr>wi_status = 200, wi_headers = [], wi_chunks = [''{''],
       wi_complete = False, wi_location = None\<rparr>\<rparr>) (\<lambda>s _. Some (demo_url s)) (\<lambda>s. s) (\<lambda>s. None) [''k'' \<mapsto> ''top secret''] demo_options
     = Some (None, [h])"
  by (simp add: plugin_defs)

text \<open>A name that rebinds to the metadata service's address between two hops is refused.\<close>

lemma rebinding_refused:
  "\<exists>h. http_request (demo_net ''169.254.169.254'') (\<lambda>s _. Some (demo_url s)) (\<lambda>s. s) (\<lambda>s. None) [''k'' \<mapsto> ''top secret''] demo_options
     = Some (Some (Inl (JsError ''not a public address'')), [h])"
  by (simp add: plugin_defs)

section \<open>The reserved ranges\<close>

lemma split_on_last: "c \<notin> set s \<Longrightarrow> split_on c s = [s]"
  by (induction s) auto

lemma split_on_append: "c \<notin> set s \<Longrightarrow> split_on c (s @ c # t) = s # split_on c t"
  by (induction s) auto

lemma dot_not_in_number: "CHR ''.'' \<notin> set (show_nat n)"
proof
  assume "CHR ''.'' \<in> set (show_nat n)"
  moreover have "list_all is_digit (show_nat n)" by simp
  ultimately have "is_digit (CHR ''.'')" unfolding list_all_iff by blast
  then show False by simp
qed

lemma octet_show_nat [simp]: "octet (show_nat n) = Some n"
  by (simp add: octet_def)

text \<open>Dotted decimal, as \<open>dns.lookup\<close> returns it.\<close>

definition byte_at :: "nat \<Rightarrow> 32 word \<Rightarrow> nat" where
  "byte_at k w = unat w div 2 ^ k mod 256"

definition dotted :: "32 word \<Rightarrow> string" where
  "dotted w = show_nat (byte_at 24 w) @ ''.'' @ show_nat (byte_at 16 w) @ ''.'' @ show_nat (byte_at 8 w) @ ''.'' @
     show_nat (byte_at 0 w)"

lemma split_dotted:
  "split_on (CHR ''.'') (dotted w) =
     [show_nat (byte_at 24 w), show_nat (byte_at 16 w), show_nat (byte_at 8 w), show_nat (byte_at 0 w)]"
  by (simp add: dotted_def split_on_append split_on_last dot_not_in_number)

text \<open>A block in CIDR notation, and the blocks the comments of the code name.\<close>

definition in_block :: "32 word \<times> nat \<Rightarrow> 32 word \<Rightarrow> bool" where
  "in_block b w \<longleftrightarrow> drop_bit (32 - snd b) w = drop_bit (32 - snd b) (fst b)"

definition reserved_blocks :: "(32 word \<times> nat) list" where
  "reserved_blocks =
     [(0x0A000000, 8), (0x7F000000, 8), (0x00000000, 8), (0xAC100000, 12), (0xC0A80000, 16), (0xA9FE0000, 16),
      (0x64400000, 10), (0xE0000000, 4), (0xF0000000, 4)]"

lemma in_block_nat: "in_block (b, l) w \<longleftrightarrow> unat w div 2 ^ (32 - l) = unat b div 2 ^ (32 - l)"
  unfolding in_block_def word_unat_eq_iff unat_drop_bit_eq by (simp add: drop_bit_eq_div)

lemma regroup: "(x * 256 + y) div 16 = x * 16 + y div 16" "(x * 256 + y) div 64 = x * 4 + y div 64" for x y :: nat
  using div_mult_self1 [of 16 y "x * 16"] div_mult_self1 [of 64 y "x * 4"] by (simp_all add: ac_simps)

lemma two_digits: "q < m \<Longrightarrow> x * m + q = c \<longleftrightarrow> x = c div m \<and> q = c mod m" for x q m c :: nat
  by (metis add.commute add_cancel_right_left div_less div_mult_self3 less_nat_zero_code mod_less mod_mult_self3
      mult.commute mult_div_mod_eq)

lemma bytes_of:
  fixes n :: nat
  assumes "n < 2 ^ 32"
  defines "a \<equiv> n div 16777216" and "b \<equiv> n div 65536 mod 256"
  shows "n div 16777216 mod 256 = a" "a \<le> 255" "b \<le> 255" "n div 65536 = a * 256 + b"
    "n div 1048576 = a * 16 + b div 16" "n div 4194304 = a * 4 + b div 64" "n div 268435456 = a div 16"
proof -
  show "n div 16777216 mod 256 = a" "a \<le> 255" using assms by simp_all
  show "b \<le> 255" by (simp add: b_def)
  have "n div 16777216 = n div 65536 div 256" by (simp add: div_mult2_eq [symmetric])
  then show c: "n div 65536 = a * 256 + b" by (simp add: a_def b_def)
  have "n div 1048576 = n div 65536 div 16" "n div 4194304 = n div 65536 div 64" "n div 268435456 = n div 16777216 div 16"
    by (simp_all add: div_mult2_eq [symmetric])
  then show "n div 1048576 = a * 16 + b div 16" "n div 4194304 = a * 4 + b div 64" "n div 268435456 = a div 16"
    using regroup [of a b] by (simp_all only: c) (simp_all only: a_def)
qed

text \<open>
  C20: the address filter is the CIDR filter. For every 32-bit address, its dotted decimal form
  counts as public exactly when the address lies in none of the nine reserved blocks, compared
  bit by bit.
\<close>

theorem ipv4_filter_is_cidr:
  "isPublicIp (dotted w) \<longleftrightarrow> \<not> list_ex (\<lambda>b. in_block b w) reserved_blocks"
proof -
  define n where "n = unat w"
  define a where "a = n div 16777216"
  define b where "b = n div 65536 mod 256"
  have n: "n < 2 ^ 32" using unsigned_less [of w] by (simp add: n_def)
  note bytes = bytes_of [OF n, folded a_def b_def]
  have ab: "byte_at 24 w = a" "byte_at 16 w = b" "byte_at 8 w \<le> 255" "byte_at 0 w \<le> 255"
    using bytes(1) by (simp_all add: byte_at_def n_def [symmetric] a_def [symmetric] b_def)
  have "CHR '':'' \<notin> set (dotted w)"
  proof -
    have "\<not> is_digit (CHR '':'')" by (simp add: is_digit_def)
    then have "CHR '':'' \<notin> set (show_nat k)" for k using list_all_digit_show_nat [of k] unfolding list_all_iff by blast
    then show ?thesis by (simp add: dotted_def)
  qed
  then have "isPublicIp (dotted w) \<longleftrightarrow>
      \<not> (a = 10 \<or> a = 127 \<or> a = 0 \<or> a = 172 \<and> 16 \<le> b \<and> b \<le> 31 \<or> a = 192 \<and> b = 168 \<or> a = 169 \<and> b = 254 \<or>
         a = 100 \<and> 64 \<le> b \<and> b \<le> 127 \<or> 224 \<le> a)"
    using ab bytes(2,3) by (auto simp: isPublicIp_def isPublicIpv4_def split_dotted Let_def)
  also have "\<dots> \<longleftrightarrow> \<not> list_ex (\<lambda>b. in_block b w) reserved_blocks"
  proof -
    have 1: "n div 65536 = 49320 \<longleftrightarrow> a = 192 \<and> b = 168" "n div 65536 = 43518 \<longleftrightarrow> a = 169 \<and> b = 254"
      unfolding bytes(4) using two_digits [of b 256 a] bytes(3) by simp_all
    have 2: "n div 1048576 = 2753 \<longleftrightarrow> a = 172 \<and> 16 \<le> b \<and> b \<le> 31" "n div 4194304 = 401 \<longleftrightarrow> a = 100 \<and> 64 \<le> b \<and> b \<le> 127"
    proof -
      have "b div 16 < 16" "b div 64 < 4" using bytes(3) by simp_all
      moreover have "b div 16 = 1 \<longleftrightarrow> 16 \<le> b \<and> b \<le> 31" "b div 64 = 1 \<longleftrightarrow> 64 \<le> b \<and> b \<le> 127"
        by (intro iffI; linarith)+
      ultimately show "n div 1048576 = 2753 \<longleftrightarrow> a = 172 \<and> 16 \<le> b \<and> b \<le> 31"
        "n div 4194304 = 401 \<longleftrightarrow> a = 100 \<and> 64 \<le> b \<and> b \<le> 127"
        unfolding bytes(5,6) using two_digits [of "b div 16" 16 a 2753] two_digits [of "b div 64" 4 a 401] by simp_all
    qed
    have 3: "(n div 268435456 = 14 \<or> n div 268435456 = 15) \<longleftrightarrow> 224 \<le> a"
    proof -
      have "224 \<le> a \<longleftrightarrow> 14 \<le> a div 16" by (intro iffI; linarith)
      moreover have "a div 16 \<le> 15" using bytes(2) by linarith
      ultimately show ?thesis unfolding bytes(7) by linarith
    qed
    have "list_ex (\<lambda>b. in_block b w) reserved_blocks \<longleftrightarrow>
        a = 10 \<or> a = 127 \<or> a = 0 \<or> n div 1048576 = 2753 \<or> n div 65536 = 49320 \<or> n div 65536 = 43518 \<or>
        n div 4194304 = 401 \<or> n div 268435456 = 14 \<or> n div 268435456 = 15"
      by (simp add: reserved_blocks_def in_block_nat n_def [symmetric] a_def)
    then show ?thesis using 1 2 3 by blast
  qed
  finally show ?thesis .
qed

end
