(* ===== verification/Webhooks.thy ===== *)
theory Webhooks
  imports Text
begin

text \<open>
  Outgoing webhooks: \<open>apps/api/src/webhooks/webhook-endpoint.service.ts\<close>,
  \<open>webhook-delivery.service.ts\<close>, \<open>webhook-delivery.processor.ts\<close> and
  \<open>common/webhook-signing.ts\<close>. The job queue is BullMQ's as documented: a job that throws
  is run again until its attempts are used up. What the receiving server answers, the cipher
  of the secret, HMAC and the clock are arguments. A payload is its JSON text, in bytes.
\<close>

type_synonym id = nat

section \<open>Rows\<close>

record endpoint =
  ep_id :: id
  ep_companyId :: id
  ep_name :: string
  ep_url :: string
  ep_secretCiphertext :: string
  ep_secretKeyVersion :: int
  ep_eventTypes :: "string list"
  ep_isActive :: bool
  ep_consecutiveFailures :: int
  ep_disabledAt :: "int option"
  ep_disabledReason :: "string option"
  ep_createdById :: "id option"

datatype delivery_status = PENDING | SUCCESS | EXHAUSTED

record delivery =
  dl_id :: id
  dl_companyId :: id
  dl_webhookEndpointId :: id
  dl_eventType :: string
  dl_payload :: string
  dl_status :: delivery_status
  dl_attemptCount :: int
  dl_createdAt :: int
  dl_completedAt :: "int option"

record attempt =
  am_companyId :: id
  am_webhookDeliveryId :: id
  am_attemptNumber :: int
  am_responseStatus :: "int option"
  am_responseSnippet :: "string option"
  am_errorMessage :: "string option"
  am_latencyMs :: int

record job =
  jb_companyId :: id
  jb_webhookDeliveryId :: id
  jb_attemptsMade :: int

text \<open>A job that a worker has taken, with the endpoint it has read and posts to.\<close>

record posting =
  po_job :: job
  po_endpointId :: id

text \<open>What the server answers: a status and a body, or why there was no answer.\<close>

type_synonym response = "string + int \<times> string"

text \<open>
  A worker that has its answer and writes it down. Each write is an \<open>await\<close> of its own, and
  other workers and requests run in between; the phase is the write that comes next.
\<close>

datatype write_phase = LogAttempt | CountAttempt | WriteEndpoint | WriteStatus

record writing =
  wr_job :: job
  wr_endpointId :: id
  wr_response :: response
  wr_latency :: int
  wr_phase :: write_phase

record webhook_db =
  next_webhook_id :: id
  endpoints :: "endpoint list"
  deliveries :: "delivery list"
  attempts :: "attempt list"
  jobs :: "job list"
  postings :: "posting list"
  writings :: "writing list"

definition find_endpoint :: "id \<Rightarrow> id \<Rightarrow> webhook_db \<Rightarrow> endpoint option" where
  "find_endpoint companyId i d = List.find (\<lambda>e. ep_id e = i \<and> ep_companyId e = companyId) (endpoints d)"

definition find_delivery :: "id \<Rightarrow> id \<Rightarrow> webhook_db \<Rightarrow> delivery option" where
  "find_delivery companyId i d = List.find (\<lambda>x. dl_id x = i \<and> dl_companyId x = companyId) (deliveries d)"

definition upd_endpoint :: "id \<Rightarrow> (endpoint \<Rightarrow> endpoint) \<Rightarrow> webhook_db \<Rightarrow> webhook_db" where
  "upd_endpoint i f d = d\<lparr>endpoints := update_rows (\<lambda>e. ep_id e = i) f (endpoints d)\<rparr>"

definition upd_delivery :: "id \<Rightarrow> (delivery \<Rightarrow> delivery) \<Rightarrow> webhook_db \<Rightarrow> webhook_db" where
  "upd_delivery i f d = d\<lparr>deliveries := update_rows (\<lambda>x. dl_id x = i) f (deliveries d)\<rparr>"

section \<open>Signatures\<close>

definition signWebhookPayload :: "(string \<Rightarrow> string \<Rightarrow> string) \<Rightarrow> string \<Rightarrow> int \<Rightarrow> string \<Rightarrow> string" where
  "signWebhookPayload hmac secret timestampMs rawBody = hmac secret (show_int timestampMs @ ''.'' @ rawBody)"

definition DEFAULT_MAX_AGE_MS :: int where
  "DEFAULT_MAX_AGE_MS = 5 * 60000"

text \<open>\<open>timingSafeEqual\<close> on buffers of one length is equality.\<close>

definition verifyWebhookSignature ::
  "(string \<Rightarrow> string \<Rightarrow> string) \<Rightarrow> int \<Rightarrow> string \<Rightarrow> int \<Rightarrow> string \<Rightarrow> string \<Rightarrow> int \<Rightarrow> bool" where
  "verifyWebhookSignature hmac now secret timestampMs rawBody signature maxAgeMs =
     (if \<bar>now - timestampMs\<bar> > maxAgeMs then False
      else let expected = signWebhookPayload hmac secret timestampMs rawBody
           in if length expected \<noteq> length signature then False else expected = signature)"

section \<open>Endpoints\<close>

record create_endpoint_dto =
  ce_name :: string
  ce_url :: string
  ce_secret :: string
  ce_eventTypes :: "string list"

record update_endpoint_dto =
  ue_name :: "string option"
  ue_url :: "string option"
  ue_secret :: "string option"
  ue_eventTypes :: "string list option"

definition requireOwned :: "id \<Rightarrow> id \<Rightarrow> webhook_db \<Rightarrow> endpoint result" where
  "requireOwned companyId i d = orFail (NotFound ''Webhook endpoint not found'') (find_endpoint companyId i d)"

definition endpoint_create ::
  "(string \<Rightarrow> string \<times> int) \<Rightarrow> id \<Rightarrow> create_endpoint_dto \<Rightarrow> id option \<Rightarrow> webhook_db \<Rightarrow> id \<times> webhook_db" where
  "endpoint_create enc companyId dto actorId d =
     (let (ciphertext, keyVersion) = enc (ce_secret dto); i = next_webhook_id d
      in (i, d\<lparr>next_webhook_id := i + 1,
               endpoints := endpoints d @ [\<lparr>ep_id = i, ep_companyId = companyId, ep_name = ce_name dto, ep_url = ce_url dto,
                 ep_secretCiphertext = ciphertext, ep_secretKeyVersion = keyVersion, ep_eventTypes = ce_eventTypes dto,
                 ep_isActive = True, ep_consecutiveFailures = 0, ep_disabledAt = None, ep_disabledReason = None,
                 ep_createdById = actorId\<rparr>]\<rparr>))"

definition apply_endpoint_dto :: "(string \<Rightarrow> string \<times> int) \<Rightarrow> update_endpoint_dto \<Rightarrow> endpoint \<Rightarrow> endpoint" where
  "apply_endpoint_dto enc dto e =
     (let e1 = e\<lparr>ep_name := (case ue_name dto of None \<Rightarrow> ep_name e | Some n \<Rightarrow> n),
                 ep_url := (case ue_url dto of None \<Rightarrow> ep_url e | Some u \<Rightarrow> u),
                 ep_eventTypes := (case ue_eventTypes dto of None \<Rightarrow> ep_eventTypes e | Some ts \<Rightarrow> ts)\<rparr>
      in case ue_secret dto of
           None \<Rightarrow> e1
         | Some s \<Rightarrow> (case enc s of (ciphertext, keyVersion) \<Rightarrow>
             e1\<lparr>ep_secretCiphertext := ciphertext, ep_secretKeyVersion := keyVersion\<rparr>))"

definition endpoint_update ::
  "(string \<Rightarrow> string \<times> int) \<Rightarrow> id \<Rightarrow> id \<Rightarrow> update_endpoint_dto \<Rightarrow> webhook_db \<Rightarrow> (unit \<times> webhook_db) result" where
  "endpoint_update enc companyId i dto d =
     bindE (requireOwned companyId i d) (\<lambda>_. Inr ((), upd_endpoint i (apply_endpoint_dto enc dto) d))"

definition endpoint_enable :: "id \<Rightarrow> id \<Rightarrow> webhook_db \<Rightarrow> (unit \<times> webhook_db) result" where
  "endpoint_enable companyId i d =
     bindE (requireOwned companyId i d) (\<lambda>_.
       Inr ((), upd_endpoint i (\<lambda>e. e\<lparr>ep_isActive := True, ep_consecutiveFailures := 0, ep_disabledAt := None,
                  ep_disabledReason := None\<rparr>) d))"

definition endpoint_disable :: "int \<Rightarrow> id \<Rightarrow> id \<Rightarrow> webhook_db \<Rightarrow> (unit \<times> webhook_db) result" where
  "endpoint_disable now companyId i d =
     bindE (requireOwned companyId i d) (\<lambda>_.
       Inr ((), upd_endpoint i (\<lambda>e. e\<lparr>ep_isActive := False, ep_disabledAt := Some now,
                  ep_disabledReason := Some ''Manually disabled by admin''\<rparr>) d))"

text \<open>A delivery holds a foreign key to its endpoint, with Prisma's default, Restrict.\<close>

definition endpoint_remove :: "id \<Rightarrow> id \<Rightarrow> webhook_db \<Rightarrow> (unit \<times> webhook_db) result" where
  "endpoint_remove companyId i d =
     bindE (requireOwned companyId i d) (\<lambda>_.
     bindE (ensure (\<not> list_ex (\<lambda>x. dl_webhookEndpointId x = i) (deliveries d)) ForeignKeyViolation) (\<lambda>_.
       Inr ((), d\<lparr>endpoints := delete_rows (\<lambda>e. ep_id e = i) (endpoints d)\<rparr>)))"

section \<open>Deliveries\<close>

definition MAX_PAYLOAD_BYTES :: nat where
  "MAX_PAYLOAD_BYTES = 256 * 1024"

definition RETRY_ATTEMPTS :: int where
  "RETRY_ATTEMPTS = 6"

definition add_job :: "id \<Rightarrow> id \<Rightarrow> webhook_db \<Rightarrow> webhook_db" where
  "add_job companyId deliveryId d =
     d\<lparr>jobs := jobs d @ [\<lparr>jb_companyId = companyId, jb_webhookDeliveryId = deliveryId, jb_attemptsMade = 0\<rparr>]\<rparr>"

definition create_delivery :: "int \<Rightarrow> id \<Rightarrow> string \<Rightarrow> string \<Rightarrow> endpoint \<Rightarrow> webhook_db \<Rightarrow> id \<times> webhook_db" where
  "create_delivery now companyId eventType payload e d =
     (let i = next_webhook_id d
      in (i, add_job companyId i (d\<lparr>next_webhook_id := i + 1,
            deliveries := deliveries d @ [\<lparr>dl_id = i, dl_companyId = companyId, dl_webhookEndpointId = ep_id e,
              dl_eventType = eventType, dl_payload = payload, dl_status = PENDING, dl_attemptCount = 0,
              dl_createdAt = now, dl_completedAt = None\<rparr>]\<rparr>)))"

definition dispatchEvent :: "int \<Rightarrow> id \<Rightarrow> string \<Rightarrow> string \<Rightarrow> webhook_db \<Rightarrow> (nat \<times> webhook_db) result" where
  "dispatchEvent now companyId eventType payload d =
     bindE (ensure (length payload \<le> MAX_PAYLOAD_BYTES) (BadRequest ''payload too large'')) (\<lambda>_.
       let subscribed = filter (\<lambda>e. ep_companyId e = companyId \<and> ep_isActive e \<and> eventType \<in> set (ep_eventTypes e)) (endpoints d)
       in Inr (length subscribed, fold (\<lambda>e d. snd (create_delivery now companyId eventType payload e d)) subscribed d))"

definition sendTestEvent :: "int \<Rightarrow> id \<Rightarrow> id \<Rightarrow> string \<Rightarrow> webhook_db \<Rightarrow> (id \<times> webhook_db) result" where
  "sendTestEvent now companyId endpointId payload d =
     bindE (requireOwned companyId endpointId d) (\<lambda>e. Inr (create_delivery now companyId ''test.ping'' payload e d))"

definition requeue :: "delivery \<Rightarrow> delivery" where
  "requeue x = x\<lparr>dl_status := PENDING, dl_completedAt := None\<rparr>"

definition retry :: "id \<Rightarrow> id \<Rightarrow> webhook_db \<Rightarrow> (unit \<times> webhook_db) result" where
  "retry companyId deliveryId d =
     bindE (orFail (NotFound ''Webhook delivery not found'') (find_delivery companyId deliveryId d)) (\<lambda>x.
     bindE (ensure (dl_status x = EXHAUSTED) (BadRequest ''Only an EXHAUSTED delivery can be retried'')) (\<lambda>_.
       Inr ((), add_job companyId deliveryId (upd_delivery deliveryId requeue d))))"

record bulk_filter =
  bf_webhookEndpointId :: "id option"
  bf_from :: "int option"
  bf_to :: "int option"

definition bulk_matches :: "id \<Rightarrow> bulk_filter \<Rightarrow> delivery \<Rightarrow> bool" where
  "bulk_matches companyId flt x \<longleftrightarrow>
     dl_companyId x = companyId \<and> dl_status x = EXHAUSTED \<and>
     (case bf_webhookEndpointId flt of None \<Rightarrow> True | Some e \<Rightarrow> dl_webhookEndpointId x = e) \<and>
     (case bf_from flt of None \<Rightarrow> True | Some t \<Rightarrow> t \<le> dl_createdAt x) \<and>
     (case bf_to flt of None \<Rightarrow> True | Some t \<Rightarrow> dl_createdAt x \<le> t)"

definition bulkRetry :: "id \<Rightarrow> bulk_filter \<Rightarrow> webhook_db \<Rightarrow> nat \<times> webhook_db" where
  "bulkRetry companyId flt d =
     (let ids = map dl_id (filter (bulk_matches companyId flt) (deliveries d))
      in (length ids, fold (\<lambda>i d. add_job companyId i (upd_delivery i requeue d)) ids d))"

section \<open>The worker\<close>

definition WEBHOOK_DISABLE_THRESHOLD :: int where
  "WEBHOOK_DISABLE_THRESHOLD = 10"

text \<open>
  The first half of \<open>process\<close>, up to the POST: nothing to do, an exception (the secret
  cannot be decrypted), or the endpoint to post to.
\<close>

definition process_load :: "(string \<Rightarrow> int \<Rightarrow> string option) \<Rightarrow> job \<Rightarrow> webhook_db \<Rightarrow> endpoint option result" where
  "process_load dec j d =
     (case find_delivery (jb_companyId j) (jb_webhookDeliveryId j) d of
        None \<Rightarrow> Inr None
      | Some x \<Rightarrow>
          (case find_endpoint (jb_companyId j) (dl_webhookEndpointId x) d of
             None \<Rightarrow> Inr None
           | Some e \<Rightarrow>
               if \<not> ep_isActive e then Inr None
               else if dec (ep_secretCiphertext e) (ep_secretKeyVersion e) = None
               then Inl (JsError ''No encryption key configured'')
               else Inr (Some e)))"

text \<open>What is posted: headers and body.\<close>

definition posted_request ::
  "(string \<Rightarrow> string \<Rightarrow> string) \<Rightarrow> string \<Rightarrow> int \<Rightarrow> delivery \<Rightarrow> (string \<times> string) list \<times> string" where
  "posted_request hmac secret timestampMs x =
     ([(''Content-Type'', ''application/json''),
       (''X-OpenEstate-Signature'', ''sha256='' @ signWebhookPayload hmac secret timestampMs (dl_payload x)),
       (''X-OpenEstate-Timestamp'', show_int timestampMs)], dl_payload x)"

definition delivered :: "response \<Rightarrow> bool" where
  "delivered resp \<longleftrightarrow> (case resp of Inl e \<Rightarrow> False | Inr (status, body) \<Rightarrow> 200 \<le> status \<and> status < 300)"

definition attempt_row :: "job \<Rightarrow> response \<Rightarrow> int \<Rightarrow> attempt" where
  "attempt_row j resp latency =
     \<lparr>am_companyId = jb_companyId j, am_webhookDeliveryId = jb_webhookDeliveryId j,
      am_attemptNumber = jb_attemptsMade j + 1,
      am_responseStatus = (case resp of Inl e \<Rightarrow> None | Inr (status, body) \<Rightarrow> Some status),
      am_responseSnippet = (case resp of Inl e \<Rightarrow> None | Inr (status, body) \<Rightarrow> Some (take 1000 body)),
      am_errorMessage = (case resp of Inl e \<Rightarrow> Some e
        | Inr (status, body) \<Rightarrow> if delivered resp then None else Some (''HTTP '' @ show_int status)),
      am_latencyMs = latency\<rparr>"

text \<open>PostgreSQL refuses a text longer than its column or with a NUL character.\<close>

definition storable :: "nat \<Rightarrow> string option \<Rightarrow> bool" where
  "storable n s \<longleftrightarrow> (case s of None \<Rightarrow> True | Some t \<Rightarrow> length t \<le> n \<and> CHR 0x00 \<notin> set t)"

definition recordable :: "attempt \<Rightarrow> bool" where
  "recordable a \<longleftrightarrow> storable 1000 (am_responseSnippet a) \<and> storable 500 (am_errorMessage a)"

definition reset_failures :: "endpoint \<Rightarrow> endpoint" where
  "reset_failures e = (if ep_isActive e then e\<lparr>ep_consecutiveFailures := 0\<rparr> else e)"

definition count_failure :: "int \<Rightarrow> endpoint \<Rightarrow> endpoint" where
  "count_failure now e =
     (let over = ep_consecutiveFailures e + 1 \<ge> WEBHOOK_DISABLE_THRESHOLD
      in e\<lparr>ep_consecutiveFailures := ep_consecutiveFailures e + 1,
           ep_isActive := (if over then False else ep_isActive e),
           ep_disabledAt := (if over \<and> ep_isActive e then Some now else ep_disabledAt e),
           ep_disabledReason := (if over \<and> ep_isActive e then Some ''Auto-disabled after 10 consecutive exhausted deliveries'' else ep_disabledReason e)\<rparr>)"

definition complete :: "int \<Rightarrow> delivery_status \<Rightarrow> delivery \<Rightarrow> delivery" where
  "complete now s x = x\<lparr>dl_status := s, dl_completedAt := Some now\<rparr>"

text \<open>The next write: what comes after it, the end, or an exception.\<close>

definition process_record :: "int \<Rightarrow> writing \<Rightarrow> webhook_db \<Rightarrow> writing option result \<times> webhook_db" where
  "process_record now w d =
     (let j = wr_job w; i = jb_webhookDeliveryId j; success = delivered (wr_response w)
      in case wr_phase w of
           LogAttempt \<Rightarrow>
             let a = attempt_row j (wr_response w) (wr_latency w)
             in if \<not> recordable a then (Inl (JsError ''value not accepted by the column''), d)
                else (Inr (Some (w\<lparr>wr_phase := CountAttempt\<rparr>)), d\<lparr>attempts := attempts d @ [a]\<rparr>)
         | CountAttempt \<Rightarrow>
             let d1 = upd_delivery i (\<lambda>x. x\<lparr>dl_attemptCount := dl_attemptCount x + 1\<rparr>) d
             in if \<not> success \<and> \<not> (jb_attemptsMade j + 1 \<ge> RETRY_ATTEMPTS)
                then (Inl (JsError ''Webhook delivery failed''), d1)
                else (Inr (Some (w\<lparr>wr_phase := WriteEndpoint\<rparr>)), d1)
         | WriteEndpoint \<Rightarrow>
             (Inr (Some (w\<lparr>wr_phase := WriteStatus\<rparr>)),
              upd_endpoint (wr_endpointId w) (if success then reset_failures else count_failure now) d)
         | WriteStatus \<Rightarrow>
             (Inr None, upd_delivery i (complete now (if success then SUCCESS else EXHAUSTED)) d))"

text \<open>BullMQ: a job that threw goes back to the queue unless its attempts are used up.\<close>

definition settle_job :: "job \<Rightarrow> webhook_db \<Rightarrow> webhook_db" where
  "settle_job j d =
     (if jb_attemptsMade j + 1 < RETRY_ATTEMPTS
      then d\<lparr>jobs := jobs d @ [j\<lparr>jb_attemptsMade := jb_attemptsMade j + 1\<rparr>]\<rparr> else d)"

definition start_job :: "(string \<Rightarrow> int \<Rightarrow> string option) \<Rightarrow> job \<Rightarrow> webhook_db \<Rightarrow> webhook_db" where
  "start_job dec j d =
     (let d0 = d\<lparr>jobs := remove1 j (jobs d)\<rparr>
      in case process_load dec j d0 of
           Inl e \<Rightarrow> settle_job j d0
         | Inr None \<Rightarrow> d0
         | Inr (Some e) \<Rightarrow> d0\<lparr>postings := postings d0 @ [\<lparr>po_job = j, po_endpointId = ep_id e\<rparr>]\<rparr>)"

definition answer_job :: "response \<Rightarrow> int \<Rightarrow> posting \<Rightarrow> webhook_db \<Rightarrow> webhook_db" where
  "answer_job resp latency po d =
     d\<lparr>postings := remove1 po (postings d),
       writings := writings d @ [\<lparr>wr_job = po_job po, wr_endpointId = po_endpointId po, wr_response = resp,
         wr_latency = latency, wr_phase = LogAttempt\<rparr>]\<rparr>"

definition write_job :: "int \<Rightarrow> writing \<Rightarrow> webhook_db \<Rightarrow> webhook_db" where
  "write_job now w d =
     (case process_record now w (d\<lparr>writings := remove1 w (writings d)\<rparr>) of
        (Inl e, d1) \<Rightarrow> settle_job (wr_job w) d1
      | (Inr None, d1) \<Rightarrow> d1
      | (Inr (Some w'), d1) \<Rightarrow> d1\<lparr>writings := writings d1 @ [w']\<rparr>)"

text \<open>A write the database fails to make: the job throws.\<close>

definition fail_write :: "writing \<Rightarrow> webhook_db \<Rightarrow> webhook_db" where
  "fail_write w d = settle_job (wr_job w) (d\<lparr>writings := remove1 w (writings d)\<rparr>)"

section \<open>Runs\<close>

text \<open>Every operation and every single write of every worker, interleaved in any order.\<close>

inductive webhook_step :: "webhook_db \<Rightarrow> webhook_db \<Rightarrow> bool" where
  create: "endpoint_create enc c dto a d = (i, d') \<Longrightarrow> webhook_step d d'"
| edit: "endpoint_update enc c i dto d = Inr ((), d') \<Longrightarrow> webhook_step d d'"
| enable: "endpoint_enable c i d = Inr ((), d') \<Longrightarrow> webhook_step d d'"
| disable: "endpoint_disable now c i d = Inr ((), d') \<Longrightarrow> webhook_step d d'"
| remove: "endpoint_remove c i d = Inr ((), d') \<Longrightarrow> webhook_step d d'"
| dispatch: "dispatchEvent now c ev payload d = Inr (n, d') \<Longrightarrow> webhook_step d d'"
| test: "sendTestEvent now c i payload d = Inr (n, d') \<Longrightarrow> webhook_step d d'"
| retry: "retry c i d = Inr ((), d') \<Longrightarrow> webhook_step d d'"
| bulk: "bulkRetry c flt d = (n, d') \<Longrightarrow> webhook_step d d'"
| start: "j \<in> set (jobs d) \<Longrightarrow> webhook_step d (start_job dec j d)"
| answer: "po \<in> set (postings d) \<Longrightarrow> webhook_step d (answer_job resp latency po d)"
| write_one: "w \<in> set (writings d) \<Longrightarrow> webhook_step d (write_job now w d)"
| fail: "w \<in> set (writings d) \<Longrightarrow> webhook_step d (fail_write w d)"

inductive webhook_run :: "webhook_db \<Rightarrow> webhook_db \<Rightarrow> bool" where
  refl: "webhook_run d d"
| step: "webhook_run d e \<Longrightarrow> webhook_step e f \<Longrightarrow> webhook_run d f"

inductive_cases webhook_stepE: "webhook_step d d'"

section \<open>The invariant\<close>

definition endpoint_ok :: "endpoint \<Rightarrow> bool" where
  "endpoint_ok e \<longleftrightarrow> 0 \<le> ep_consecutiveFailures e \<and>
     (ep_isActive e \<longrightarrow> ep_consecutiveFailures e < WEBHOOK_DISABLE_THRESHOLD)"

definition attempts_of :: "attempt list \<Rightarrow> id \<Rightarrow> attempt list" where
  "attempts_of ats i = filter (\<lambda>a. am_webhookDeliveryId a = i) ats"

definition uncounted :: "writing list \<Rightarrow> id \<Rightarrow> nat" where
  "uncounted ws i = length (filter (\<lambda>w. jb_webhookDeliveryId (wr_job w) = i \<and> wr_phase w = CountAttempt) ws)"

text \<open>An attempt with a 2xx answer; a last attempt without.\<close>

definition good_attempt :: "attempt \<Rightarrow> bool" where
  "good_attempt a \<longleftrightarrow> (\<exists>s. am_responseStatus a = Some s \<and> 200 \<le> s \<and> s < 300)"

definition last_failure :: "attempt \<Rightarrow> bool" where
  "last_failure a \<longleftrightarrow> am_attemptNumber a = RETRY_ATTEMPTS \<and> am_errorMessage a \<noteq> None"

definition delivery_ok :: "id \<Rightarrow> attempt list \<Rightarrow> writing list \<Rightarrow> delivery \<Rightarrow> bool" where
  "delivery_ok n ats ws x \<longleftrightarrow> dl_id x < n \<and>
     dl_attemptCount x + int (uncounted ws (dl_id x)) \<le> int (length (attempts_of ats (dl_id x))) \<and>
     (dl_status x = PENDING \<longleftrightarrow> dl_completedAt x = None) \<and>
     (dl_status x = SUCCESS \<longrightarrow> (\<exists>a\<in>set (attempts_of ats (dl_id x)). good_attempt a)) \<and>
     (dl_status x = EXHAUSTED \<longrightarrow> (\<exists>a\<in>set (attempts_of ats (dl_id x)). last_failure a))"

definition job_ok :: "id \<Rightarrow> job \<Rightarrow> bool" where
  "job_ok n j \<longleftrightarrow> jb_webhookDeliveryId j < n \<and> 0 \<le> jb_attemptsMade j \<and> jb_attemptsMade j < RETRY_ATTEMPTS"

definition attempt_ok :: "id \<Rightarrow> attempt \<Rightarrow> bool" where
  "attempt_ok n a \<longleftrightarrow> am_webhookDeliveryId a < n \<and> 1 \<le> am_attemptNumber a \<and> am_attemptNumber a \<le> RETRY_ATTEMPTS"

definition writing_ok :: "id \<Rightarrow> attempt list \<Rightarrow> writing \<Rightarrow> bool" where
  "writing_ok n ats w \<longleftrightarrow> job_ok n (wr_job w) \<and>
     (wr_phase w \<noteq> LogAttempt \<longrightarrow> attempt_row (wr_job w) (wr_response w) (wr_latency w) \<in> set ats) \<and>
     (wr_phase w \<in> {WriteEndpoint, WriteStatus} \<longrightarrow>
        delivered (wr_response w) \<or> jb_attemptsMade (wr_job w) + 1 = RETRY_ATTEMPTS)"

definition webhooks_ok :: "webhook_db \<Rightarrow> bool" where
  "webhooks_ok d \<longleftrightarrow> (\<forall>e\<in>set (endpoints d). endpoint_ok e) \<and>
     (\<forall>x\<in>set (deliveries d). delivery_ok (next_webhook_id d) (attempts d) (writings d) x) \<and>
     (\<forall>j\<in>set (jobs d). job_ok (next_webhook_id d) j) \<and>
     (\<forall>po\<in>set (postings d). job_ok (next_webhook_id d) (po_job po)) \<and>
     (\<forall>w\<in>set (writings d). writing_ok (next_webhook_id d) (attempts d) w) \<and>
     (\<forall>a\<in>set (attempts d). attempt_ok (next_webhook_id d) a)"

lemmas webhook_ok_defs = webhooks_ok_def endpoint_ok_def delivery_ok_def job_ok_def attempt_ok_def attempts_of_def
  writing_ok_def uncounted_def

lemma upd_endpoint_ok:
  assumes "webhooks_ok d" and "\<And>e. endpoint_ok e \<Longrightarrow> endpoint_ok (f e)"
  shows "webhooks_ok (upd_endpoint i f d)"
  using assms by (auto simp: webhooks_ok_def upd_endpoint_def set_update_rows)

lemma upd_delivery_ok:
  assumes "webhooks_ok d"
    and "\<And>x. dl_id x = i \<Longrightarrow> delivery_ok (next_webhook_id d) (attempts d) (writings d) x \<Longrightarrow>
      delivery_ok (next_webhook_id d) (attempts d) (writings d) (f x)"
  shows "webhooks_ok (upd_delivery i f d)"
  using assms by (auto simp: webhooks_ok_def upd_delivery_def set_update_rows)

lemma add_job_ok: "webhooks_ok d \<Longrightarrow> i < next_webhook_id d \<Longrightarrow> webhooks_ok (add_job c i d)"
  by (auto simp: webhooks_ok_def add_job_def job_ok_def RETRY_ATTEMPTS_def)

lemma larger_id_ok:
  "delivery_ok n ats ws x \<Longrightarrow> delivery_ok (Suc n) ats ws x" "job_ok n j \<Longrightarrow> job_ok (Suc n) j" "attempt_ok n a \<Longrightarrow> attempt_ok (Suc n) a"
  "writing_ok n ats w \<Longrightarrow> writing_ok (Suc n) ats w"
  by (simp_all add: delivery_ok_def job_ok_def attempt_ok_def writing_ok_def)

lemma next_id_simps [simp]:
  "next_webhook_id (upd_endpoint i f d) = next_webhook_id d" "next_webhook_id (upd_delivery i g d) = next_webhook_id d"
  "next_webhook_id (add_job c i d) = next_webhook_id d"
  by (simp_all add: upd_endpoint_def upd_delivery_def add_job_def)

lemma create_delivery_ok:
  assumes "webhooks_ok d"
  shows "webhooks_ok (snd (create_delivery now c ev p e d))"
proof -
  let ?n = "next_webhook_id d"
  have "uncounted (writings d) ?n = 0"
    using assms by (auto simp: webhooks_ok_def uncounted_def writing_ok_def job_ok_def filter_empty_conv)
  then have "delivery_ok (Suc ?n) (attempts d) (writings d)
      \<lparr>dl_id = ?n, dl_companyId = c, dl_webhookEndpointId = ep_id e, dl_eventType = ev, dl_payload = p,
       dl_status = PENDING, dl_attemptCount = 0, dl_createdAt = now, dl_completedAt = None\<rparr>"
    by (simp add: delivery_ok_def)
  moreover have "job_ok (Suc ?n) \<lparr>jb_companyId = c, jb_webhookDeliveryId = ?n, jb_attemptsMade = 0\<rparr>"
    by (simp add: job_ok_def RETRY_ATTEMPTS_def)
  ultimately show ?thesis
    using assms by (auto simp: create_delivery_def Let_def add_job_def webhooks_ok_def larger_id_ok)
qed

lemma requeue_ok: "delivery_ok n ats ws x \<Longrightarrow> delivery_ok n ats ws (requeue x)"
  by (simp add: delivery_ok_def requeue_def)

lemma fold_ok: "(\<And>x d. x \<in> set xs \<Longrightarrow> P d \<Longrightarrow> P (f x d)) \<Longrightarrow> P d \<Longrightarrow> P (fold f xs d)"
  by (induction xs arbitrary: d) auto

lemma apply_endpoint_dto_keeps:
  "ep_isActive (apply_endpoint_dto enc dto e) = ep_isActive e"
  "ep_consecutiveFailures (apply_endpoint_dto enc dto e) = ep_consecutiveFailures e"
  by (simp_all add: apply_endpoint_dto_def Let_def split: option.split prod.split)

lemma settle_job_ok: "webhooks_ok d \<Longrightarrow> job_ok (next_webhook_id d) j \<Longrightarrow> webhooks_ok (settle_job j d)"
  by (auto simp: settle_job_def webhooks_ok_def job_ok_def)

text \<open>Removing a writing, and adding one that is not about to count.\<close>

lemma uncounted_simps [simp]:
  "uncounted (ws @ [w]) i = uncounted ws i + (if jb_webhookDeliveryId (wr_job w) = i \<and> wr_phase w = CountAttempt then 1 else 0)"
  "w \<in> set ws \<Longrightarrow> uncounted (remove1 w ws) i =
     uncounted ws i - (if jb_webhookDeliveryId (wr_job w) = i \<and> wr_phase w = CountAttempt then 1 else 0)"
  by (auto simp: uncounted_def filter_remove1 length_remove1)

lemma uncounted_member:
  "w \<in> set ws \<Longrightarrow> jb_webhookDeliveryId (wr_job w) = i \<Longrightarrow> wr_phase w = CountAttempt \<Longrightarrow> 1 \<le> uncounted ws i"
  by (auto simp: uncounted_def Suc_le_eq filter_empty_conv)

lemma writing_gone:
  assumes "webhooks_ok d" and "w \<in> set (writings d)"
  shows "webhooks_ok (d\<lparr>writings := remove1 w (writings d)\<rparr>)"
  using assms
  by (auto simp: webhooks_ok_def delivery_ok_def dest: notin_set_remove1)

lemma attempts_of_snoc:
  "attempts_of (ats @ [a]) i = attempts_of ats i @ (if am_webhookDeliveryId a = i then [a] else [])"
  by (simp add: attempts_of_def)

lemma attempt_row_ids [simp]: "am_webhookDeliveryId (attempt_row j r l) = jb_webhookDeliveryId j"
  by (simp add: attempt_row_def)

lemma attempt_row_verdict:
  "delivered r \<Longrightarrow> good_attempt (attempt_row j r l)"
  "\<not> delivered r \<Longrightarrow> jb_attemptsMade j + 1 = RETRY_ATTEMPTS \<Longrightarrow> last_failure (attempt_row j r l)"
  by (auto simp: good_attempt_def last_failure_def attempt_row_def delivered_def split: sum.splits prod.splits)

lemma logged_ok:
  assumes "webhooks_ok d" and "w \<in> set (writings d)" and "wr_phase w = LogAttempt"
  shows "webhooks_ok (d\<lparr>attempts := attempts d @ [attempt_row (wr_job w) (wr_response w) (wr_latency w)],
     writings := remove1 w (writings d) @ [w\<lparr>wr_phase := CountAttempt\<rparr>]\<rparr>)"
proof -
  let ?n = "next_webhook_id d" and ?a = "attempt_row (wr_job w) (wr_response w) (wr_latency w)"
  let ?ws = "remove1 w (writings d) @ [w\<lparr>wr_phase := CountAttempt\<rparr>]"
  have w: "writing_ok ?n (attempts d) w" using assms(1,2) by (simp add: webhooks_ok_def)
  have "delivery_ok ?n (attempts d @ [?a]) ?ws x" if "delivery_ok ?n (attempts d) (writings d) x" for x
    using that assms(2,3) by (auto simp: delivery_ok_def attempts_of_snoc)
  moreover have "writing_ok ?n (attempts d @ [?a]) v" if "v \<in> set ?ws" for v
    using that w assms(1) by (auto simp: webhooks_ok_def writing_ok_def dest: notin_set_remove1)
  moreover have "attempt_ok ?n ?a" using w by (simp add: writing_ok_def job_ok_def attempt_ok_def attempt_row_def)
  ultimately show ?thesis using assms(1) by (auto simp: webhooks_ok_def)
qed

lemma counted_ok:
  assumes "webhooks_ok d" and "w \<in> set (writings d)" and "wr_phase w = CountAttempt"
  shows "webhooks_ok (upd_delivery (jb_webhookDeliveryId (wr_job w)) (\<lambda>x. x\<lparr>dl_attemptCount := dl_attemptCount x + 1\<rparr>)
     (d\<lparr>writings := remove1 w (writings d)\<rparr>))"
proof -
  let ?n = "next_webhook_id d" and ?i = "jb_webhookDeliveryId (wr_job w)"
  have "delivery_ok ?n (attempts d) (remove1 w (writings d)) (if dl_id x = ?i then x\<lparr>dl_attemptCount := dl_attemptCount x + 1\<rparr> else x)"
    if "delivery_ok ?n (attempts d) (writings d) x" for x
  proof -
    have "1 \<le> uncounted (writings d) ?i" by (rule uncounted_member [OF assms(2) _ assms(3)]) simp
    then show ?thesis using that assms(2,3) by (auto simp: delivery_ok_def of_nat_diff)
  qed
  then have "\<forall>y\<in>set (update_rows (\<lambda>x. dl_id x = ?i) (\<lambda>x. x\<lparr>dl_attemptCount := dl_attemptCount x + 1\<rparr>) (deliveries d)).
      delivery_ok ?n (attempts d) (remove1 w (writings d)) y"
    using assms(1) unfolding set_update_rows webhooks_ok_def by blast
  with assms(1) show ?thesis by (auto simp: webhooks_ok_def upd_delivery_def dest: notin_set_remove1)
qed

lemma add_writing_ok:
  assumes "webhooks_ok d" and "writing_ok (next_webhook_id d) (attempts d) w" and "wr_phase w \<noteq> CountAttempt"
  shows "webhooks_ok (d\<lparr>writings := writings d @ [w]\<rparr>)"
  using assms by (auto simp: webhooks_ok_def delivery_ok_def)

lemma write_job_ok:
  assumes "webhooks_ok d" and "w \<in> set (writings d)"
  shows "webhooks_ok (write_job now w d)"
proof -
  let ?d0 = "d\<lparr>writings := remove1 w (writings d)\<rparr>" and ?n = "next_webhook_id d"
  have w: "writing_ok ?n (attempts d) w" using assms by (simp add: webhooks_ok_def)
  then have j: "job_ok ?n (wr_job w)" by (simp add: writing_ok_def)
  have d0: "webhooks_ok ?d0" by (rule writing_gone [OF assms])
  show ?thesis
  proof (cases "wr_phase w")
    case LogAttempt
    then show ?thesis
      using logged_ok [OF assms LogAttempt] settle_job_ok [OF d0] j by (auto simp: write_job_def process_record_def Let_def)
  next
    case CountAttempt
    let ?d1 = "upd_delivery (jb_webhookDeliveryId (wr_job w)) (\<lambda>x. x\<lparr>dl_attemptCount := dl_attemptCount x + 1\<rparr>) ?d0"
    have d1: "webhooks_ok ?d1" by (rule counted_ok [OF assms CountAttempt])
    have "webhooks_ok (settle_job (wr_job w) ?d1)" by (rule settle_job_ok [OF d1]) (simp add: j)
    moreover have "webhooks_ok (?d1\<lparr>writings := writings ?d1 @ [w\<lparr>wr_phase := WriteEndpoint\<rparr>]\<rparr>)"
      if "delivered (wr_response w) \<or> jb_attemptsMade (wr_job w) + 1 \<ge> RETRY_ATTEMPTS"
    proof -
      have "writing_ok ?n (attempts d) (w\<lparr>wr_phase := WriteEndpoint\<rparr>)"
        using w that CountAttempt by (auto simp: writing_ok_def job_ok_def)
      then show ?thesis by (intro add_writing_ok [OF d1]) (simp_all add: upd_delivery_def)
    qed
    ultimately show ?thesis by (auto simp: write_job_def process_record_def CountAttempt Let_def)
  next
    case WriteEndpoint
    have "endpoint_ok e \<Longrightarrow> endpoint_ok (reset_failures e)" "endpoint_ok e \<Longrightarrow> endpoint_ok (count_failure now e)" for e
      by (auto simp: endpoint_ok_def reset_failures_def count_failure_def Let_def WEBHOOK_DISABLE_THRESHOLD_def)
    then have d1: "webhooks_ok (upd_endpoint (wr_endpointId w) (if delivered (wr_response w) then reset_failures else count_failure now) ?d0)"
      by (intro upd_endpoint_ok [OF d0]) auto
    have "writing_ok ?n (attempts d) (w\<lparr>wr_phase := WriteStatus\<rparr>)" using w WriteEndpoint by (simp add: writing_ok_def)
    with add_writing_ok [OF d1] show ?thesis
      by (simp add: write_job_def process_record_def WriteEndpoint Let_def upd_endpoint_def)
  next
    case WriteStatus
    let ?i = "jb_webhookDeliveryId (wr_job w)" and ?s = "if delivered (wr_response w) then SUCCESS else EXHAUSTED"
    let ?a = "attempt_row (wr_job w) (wr_response w) (wr_latency w)"
    have a: "?a \<in> set (attempts_of (attempts d) ?i)" using w WriteStatus by (simp add: writing_ok_def attempts_of_def)
    have v: "if delivered (wr_response w) then good_attempt ?a else last_failure ?a"
      using w WriteStatus attempt_row_verdict by (auto simp: writing_ok_def)
    have "webhooks_ok (upd_delivery ?i (complete now ?s) ?d0)"
      by (rule upd_delivery_ok [OF d0]) (use a v in \<open>auto simp: delivery_ok_def complete_def split: if_splits\<close>)
    then show ?thesis by (simp add: write_job_def process_record_def WriteStatus Let_def)
  qed
qed

lemma webhook_step_ok: "webhook_step d d' \<Longrightarrow> webhooks_ok d \<Longrightarrow> webhooks_ok d'"
proof (induction rule: webhook_step.induct)
  case (create enc c dto a d i d')
  then show ?case by (auto simp: endpoint_create_def Let_def webhooks_ok_def endpoint_ok_def WEBHOOK_DISABLE_THRESHOLD_def larger_id_ok split: prod.splits)
next
  case (edit enc c i dto d d')
  then show ?case
    by (auto simp: endpoint_update_def endpoint_ok_def apply_endpoint_dto_keeps intro!: upd_endpoint_ok)
next
  case (enable c i d d')
  then show ?case by (auto simp: endpoint_enable_def endpoint_ok_def WEBHOOK_DISABLE_THRESHOLD_def intro!: upd_endpoint_ok)
next
  case (disable now c i d d')
  then show ?case by (auto simp: endpoint_disable_def endpoint_ok_def intro!: upd_endpoint_ok)
next
  case (remove c i d d')
  then show ?case by (auto simp: endpoint_remove_def webhooks_ok_def)
next
  case (dispatch now c ev payload d n d')
  then show ?case by (auto simp: dispatchEvent_def Let_def intro!: fold_ok create_delivery_ok)
next
  case (test now c i payload d n d')
  then obtain e where "create_delivery now c ''test.ping'' payload e d = (n, d')" by (auto simp: sendTestEvent_def)
  with create_delivery_ok [OF test.prems] show ?case by (metis snd_conv)
next
  case (retry c i d d')
  then obtain x where "find_delivery c i d = Some x" "d' = add_job c i (upd_delivery i requeue d)"
    by (auto simp: retry_def)
  moreover from this have "i < next_webhook_id d"
    using retry.prems by (auto simp: find_delivery_def webhooks_ok_def delivery_ok_def dest!: find_SomeD)
  ultimately show ?case using retry.prems by (auto intro!: add_job_ok upd_delivery_ok requeue_ok)
next
  case (bulk c flt d n d')
  have "webhooks_ok (fold (\<lambda>i d. add_job c i (upd_delivery i requeue d)) is e) \<and> next_webhook_id (fold (\<lambda>i d. add_job c i (upd_delivery i requeue d)) is e) = next_webhook_id e"
    if "webhooks_ok e" "\<forall>i\<in>set is. i < next_webhook_id e" for "is" e
    using that
  proof (induction "is" arbitrary: e)
    case (Cons i "is")
    have "webhooks_ok (add_job c i (upd_delivery i requeue e))"
      using Cons.prems by (intro add_job_ok upd_delivery_ok requeue_ok) simp_all
    from Cons.IH [OF this] Cons.prems show ?case by simp
  qed simp
  from this [OF bulk.prems, of "map dl_id (filter (bulk_matches c flt) (deliveries d))"] bulk show ?case
    by (auto simp: bulkRetry_def Let_def webhooks_ok_def delivery_ok_def)
next
  case (start j d dec)
  let ?d0 = "d\<lparr>jobs := remove1 j (jobs d)\<rparr>"
  have "webhooks_ok ?d0" "job_ok (next_webhook_id ?d0) j"
    using start by (auto simp: webhooks_ok_def dest: set_remove1_subset [THEN subsetD])
  moreover from this have "webhooks_ok (?d0\<lparr>postings := postings ?d0 @ [\<lparr>po_job = j, po_endpointId = k\<rparr>]\<rparr>)" for k
    by (auto simp: webhooks_ok_def)
  ultimately show ?case by (auto simp: start_job_def Let_def intro: settle_job_ok split: sum.split option.split)
next
  case (answer po d resp latency)
  let ?w = "\<lparr>wr_job = po_job po, wr_endpointId = po_endpointId po, wr_response = resp, wr_latency = latency, wr_phase = LogAttempt\<rparr>"
  have "webhooks_ok (d\<lparr>postings := remove1 po (postings d)\<rparr>)" "writing_ok (next_webhook_id d) (attempts d) ?w"
    using answer by (auto simp: webhooks_ok_def writing_ok_def dest: notin_set_remove1)
  from add_writing_ok [OF this(1)] this(2) show ?case by (simp add: answer_job_def)
next
  case (write_one w d now)
  then show ?case by (simp add: write_job_ok)
next
  case (fail w d)
  then have "job_ok (next_webhook_id d) (wr_job w)" by (simp add: webhooks_ok_def writing_ok_def)
  with settle_job_ok [OF writing_gone] fail show ?case by (simp add: fail_write_def)
qed

text \<open>
  C19: what the delivery log says is true. In every database that the webhook operations and
  the workers reach from one where the invariant of this theory holds (such as one without
  deliveries), every single write of a worker interleaved with everything else and any
  write allowed to fail: a delivery is marked SUCCESS only if an attempt with a 2xx answer is
  logged for it, EXHAUSTED only if a failed sixth attempt is; its attempt counter is never
  above the number of its logged attempts; no attempt is beyond the sixth; and an endpoint
  whose stored run of failures has come to ten is off.
\<close>

theorem webhook_log_true:
  assumes "webhook_run d d'" and "webhooks_ok d"
  shows "webhooks_ok d' \<and>
    (\<forall>x\<in>set (deliveries d').
       (dl_status x = SUCCESS \<longrightarrow> (\<exists>a\<in>set (attempts d'). am_webhookDeliveryId a = dl_id x \<and>
          (\<exists>s. am_responseStatus a = Some s \<and> 200 \<le> s \<and> s < 300))) \<and>
       (dl_status x = EXHAUSTED \<longrightarrow> (\<exists>a\<in>set (attempts d'). am_webhookDeliveryId a = dl_id x \<and>
          am_attemptNumber a = 6 \<and> am_errorMessage a \<noteq> None)) \<and>
       dl_attemptCount x \<le> int (length (attempts_of (attempts d') (dl_id x)))) \<and>
    (\<forall>a\<in>set (attempts d'). am_attemptNumber a \<le> 6) \<and>
    (\<forall>e\<in>set (endpoints d'). ep_consecutiveFailures e \<ge> 10 \<longrightarrow> \<not> ep_isActive e)"
proof -
  have ok: "webhooks_ok d'" using assms by (induction rule: webhook_run.induct) (auto intro: webhook_step_ok)
  have "(dl_status x = SUCCESS \<longrightarrow> (\<exists>a\<in>set (attempts d'). am_webhookDeliveryId a = dl_id x \<and>
          (\<exists>s. am_responseStatus a = Some s \<and> 200 \<le> s \<and> s < 300))) \<and>
       (dl_status x = EXHAUSTED \<longrightarrow> (\<exists>a\<in>set (attempts d'). am_webhookDeliveryId a = dl_id x \<and>
          am_attemptNumber a = 6 \<and> am_errorMessage a \<noteq> None)) \<and>
       dl_attemptCount x \<le> int (length (attempts_of (attempts d') (dl_id x)))"
    if "x \<in> set (deliveries d')" for x
  proof -
    have "delivery_ok (next_webhook_id d') (attempts d') (writings d') x" using ok that by (simp add: webhooks_ok_def)
    then show ?thesis
      unfolding delivery_ok_def good_attempt_def last_failure_def RETRY_ATTEMPTS_def by (auto simp: attempts_of_def)
  qed
  moreover have "\<forall>a\<in>set (attempts d'). am_attemptNumber a \<le> 6"
    using ok by (auto simp: webhooks_ok_def attempt_ok_def RETRY_ATTEMPTS_def)
  moreover have "\<forall>e\<in>set (endpoints d'). ep_consecutiveFailures e \<ge> 10 \<longrightarrow> \<not> ep_isActive e"
    using ok by (force simp: webhooks_ok_def endpoint_ok_def WEBHOOK_DISABLE_THRESHOLD_def)
  ultimately show ?thesis using ok by blast
qed

definition demo_hook :: webhook_db where
  "demo_hook = \<lparr>next_webhook_id = 3,
     endpoints = [\<lparr>ep_id = 1, ep_companyId = 9, ep_name = ''CRM'', ep_url = ''https://x'', ep_secretCiphertext = ''s'',
       ep_secretKeyVersion = 1, ep_eventTypes = [''booking.created''], ep_isActive = True, ep_consecutiveFailures = 9,
       ep_disabledAt = None, ep_disabledReason = None, ep_createdById = None\<rparr>],
     deliveries = [\<lparr>dl_id = 2, dl_companyId = 9, dl_webhookEndpointId = 1, dl_eventType = ''booking.created'', dl_payload = ''{}'',
       dl_status = PENDING, dl_attemptCount = 0, dl_createdAt = 0, dl_completedAt = None\<rparr>],
     attempts = [], jobs = [\<lparr>jb_companyId = 9, jb_webhookDeliveryId = 2, jb_attemptsMade = 0\<rparr>], postings = [], writings = []\<rparr>"

lemma demo_hook_ok: "webhooks_ok demo_hook"
  by (simp add: demo_hook_def webhook_ok_defs WEBHOOK_DISABLE_THRESHOLD_def RETRY_ATTEMPTS_def)

theorem webhook_log_true_witness:
  "webhooks_ok (start_job (\<lambda>c v. Some c) \<lparr>jb_companyId = 9, jb_webhookDeliveryId = 2, jb_attemptsMade = 0\<rparr> demo_hook)"
proof -
  have "\<lparr>jb_companyId = 9, jb_webhookDeliveryId = 2, jb_attemptsMade = 0\<rparr> \<in> set (jobs demo_hook)" by (simp add: demo_hook_def)
  from webhook_log_true [OF webhook_run.step [OF webhook_run.refl webhook_step.start [OF this]] demo_hook_ok]
  show ?thesis by blast
qed

section \<open>A job comes to an end\<close>

text \<open>One worker on an otherwise idle queue, with the answers it will get.\<close>

fun write_out :: "nat \<Rightarrow> int \<Rightarrow> webhook_db \<Rightarrow> webhook_db" where
  "write_out 0 now d = d"
| "write_out (Suc n) now d = (case writings d of [] \<Rightarrow> d | w # _ \<Rightarrow> write_out n now (write_job now w d))"

fun work :: "(string \<Rightarrow> int \<Rightarrow> string option) \<Rightarrow> int \<Rightarrow> response list \<Rightarrow> webhook_db \<Rightarrow> webhook_db" where
  "work dec now [] d = d"
| "work dec now (r # rs) d =
     (case jobs d of
        [] \<Rightarrow> d
      | j # _ \<Rightarrow>
          let d1 = start_job dec j d
          in case postings d1 of
               [] \<Rightarrow> work dec now rs d1
             | po # _ \<Rightarrow> work dec now rs (write_out 4 now (answer_job r 0 po d1)))"

declare work.simps(2) [simp del]

lemma find_delivery_upd:
  assumes "\<And>x. dl_id (f x) = dl_id x \<and> dl_companyId (f x) = dl_companyId x"
  shows "find_delivery c i (upd_delivery k f d) = map_option (\<lambda>x. if dl_id x = k then f x else x) (find_delivery c i d)"
  using find_update_rows [of "\<lambda>x. dl_id x = i \<and> dl_companyId x = c" f "\<lambda>x. dl_id x = k" "deliveries d"] assms
  by (simp add: find_delivery_def upd_delivery_def)

lemma find_endpoint_upd:
  assumes "\<And>e. ep_id (f e) = ep_id e \<and> ep_companyId (f e) = ep_companyId e"
  shows "find_endpoint c i (upd_endpoint k f d) = map_option (\<lambda>e. if ep_id e = k then f e else e) (find_endpoint c i d)"
  using find_update_rows [of "\<lambda>e. ep_id e = i \<and> ep_companyId e = c" f "\<lambda>e. ep_id e = k" "endpoints d"] assms
  by (simp add: find_endpoint_def upd_endpoint_def)

lemma upd_elsewhere [simp]:
  "writings (upd_delivery i f d) = writings d" "writings (upd_endpoint i g d) = writings d"
  "jobs (upd_delivery i f d) = jobs d" "postings (upd_delivery i f d) = postings d" "endpoints (upd_delivery i f d) = endpoints d"
  "jobs (upd_endpoint i g d) = jobs d" "postings (upd_endpoint i g d) = postings d" "deliveries (upd_endpoint i g d) = deliveries d"
  by (simp_all add: upd_delivery_def upd_endpoint_def)

lemma find_elsewhere:
  "find_delivery c i (upd_endpoint k g d) = find_delivery c i d" "find_endpoint c i (upd_delivery k f d) = find_endpoint c i d"
  by (simp_all add: find_delivery_def find_endpoint_def)

lemma find_delivery_id: "find_delivery c i d = Some x \<Longrightarrow> dl_id x = i"
  by (auto simp: find_delivery_def dest: find_SomeD)

definition deliverable :: "(string \<Rightarrow> int \<Rightarrow> string option) \<Rightarrow> job \<Rightarrow> delivery \<Rightarrow> endpoint \<Rightarrow> webhook_db \<Rightarrow> bool" where
  "deliverable dec j x e d \<longleftrightarrow>
     jobs d = [j] \<and> postings d = [] \<and> writings d = [] \<and> find_delivery (jb_companyId j) (jb_webhookDeliveryId j) d = Some x \<and>
     find_endpoint (jb_companyId j) (dl_webhookEndpointId x) d = Some e \<and> ep_isActive e \<and>
     dec (ep_secretCiphertext e) (ep_secretKeyVersion e) \<noteq> None"

lemma start_deliverable:
  assumes "deliverable dec j x e d"
  shows "start_job dec j d = d\<lparr>jobs := [], postings := [\<lparr>po_job = j, po_endpointId = ep_id e\<rparr>]\<rparr>"
proof -
  have "process_load dec j (d\<lparr>jobs := []\<rparr>) = Inr (Some e)"
    using assms by (auto simp: deliverable_def process_load_def find_delivery_def find_endpoint_def)
  with assms show ?thesis by (simp add: deliverable_def start_job_def)
qed

definition one_attempt :: "job \<Rightarrow> response \<Rightarrow> webhook_db \<Rightarrow> webhook_db" where
  "one_attempt j r d = upd_delivery (jb_webhookDeliveryId j) (\<lambda>x. x\<lparr>dl_attemptCount := dl_attemptCount x + 1\<rparr>)
     (d\<lparr>jobs := [], postings := [], writings := [], attempts := attempts d @ [attempt_row j r 0]\<rparr>)"

lemma write_out_all:
  assumes "writings d = [w]" and "wr_phase w = LogAttempt"
    and "recordable (attempt_row (wr_job w) (wr_response w) (wr_latency w))"
  defines "i \<equiv> jb_webhookDeliveryId (wr_job w)"
    and "d1 \<equiv> upd_delivery (jb_webhookDeliveryId (wr_job w)) (\<lambda>x. x\<lparr>dl_attemptCount := dl_attemptCount x + 1\<rparr>)
      (d\<lparr>writings := [], attempts := attempts d @ [attempt_row (wr_job w) (wr_response w) (wr_latency w)]\<rparr>)"
  shows "write_out 4 now d =
    (if delivered (wr_response w)
     then upd_delivery i (complete now SUCCESS) (upd_endpoint (wr_endpointId w) reset_failures d1)
     else if jb_attemptsMade (wr_job w) + 1 < RETRY_ATTEMPTS then settle_job (wr_job w) d1
     else upd_delivery i (complete now EXHAUSTED) (upd_endpoint (wr_endpointId w) (count_failure now) d1))"
proof -
  have four: "write_out 4 now d = write_out (Suc (Suc (Suc (Suc 0)))) now d" by (simp add: numeral_eq_Suc)
  show ?thesis
    unfolding four
    using assms(1-3) by (auto simp: write_job_def process_record_def Let_def i_def d1_def settle_job_def upd_delivery_def upd_endpoint_def)
qed

lemma work_deliverable:
  assumes "deliverable dec j x e d" and "recordable (attempt_row j r 0)"
  shows "work dec now (r # rs) d = work dec now rs
    (if delivered r
     then upd_delivery (jb_webhookDeliveryId j) (complete now SUCCESS) (upd_endpoint (ep_id e) reset_failures (one_attempt j r d))
     else if jb_attemptsMade j + 1 < RETRY_ATTEMPTS
     then (one_attempt j r d)\<lparr>jobs := [j\<lparr>jb_attemptsMade := jb_attemptsMade j + 1\<rparr>]\<rparr>
     else upd_delivery (jb_webhookDeliveryId j) (complete now EXHAUSTED) (upd_endpoint (ep_id e) (count_failure now) (one_attempt j r d)))"
proof -
  let ?po = "\<lparr>po_job = j, po_endpointId = ep_id e\<rparr>"
  let ?w = "\<lparr>wr_job = j, wr_endpointId = ep_id e, wr_response = r, wr_latency = 0, wr_phase = LogAttempt\<rparr>"
  let ?d = "d\<lparr>jobs := [], postings := [], writings := [?w]\<rparr>"
  have d: "jobs d = [j]" "writings d = []" using assms(1) by (simp_all add: deliverable_def)
  have "answer_job r 0 ?po (d\<lparr>jobs := [], postings := [?po]\<rparr>) = ?d" by (simp add: answer_job_def d)
  then have "work dec now (r # rs) d = work dec now rs (write_out 4 now ?d)"
    by (simp add: work.simps(2) start_deliverable [OF assms(1)] d)
  then show ?thesis
    using write_out_all [of ?d ?w now] assms(2) d
    by (simp add: one_attempt_def settle_job_def)
qed

lemma found_after_attempt:
  assumes "deliverable dec j x e d"
  shows "find_delivery (jb_companyId j) (jb_webhookDeliveryId j) (one_attempt j r d) = Some (x\<lparr>dl_attemptCount := dl_attemptCount x + 1\<rparr>)"
    and "find_endpoint (jb_companyId j) (dl_webhookEndpointId x) (one_attempt j r d) = Some e"
    and "jobs (one_attempt j r d) = []" and "postings (one_attempt j r d) = []" and "writings (one_attempt j r d) = []"
proof -
  have "find_delivery c i (d\<lparr>jobs := [], postings := [], writings := [], attempts := a\<rparr>) = find_delivery c i d"
    "find_endpoint c i (d\<lparr>jobs := [], postings := [], writings := [], attempts := a\<rparr>) = find_endpoint c i d" for c i a
    by (simp_all add: find_delivery_def find_endpoint_def)
  with assms find_delivery_id [of "jb_companyId j" "jb_webhookDeliveryId j" d x]
  show "find_delivery (jb_companyId j) (jb_webhookDeliveryId j) (one_attempt j r d) = Some (x\<lparr>dl_attemptCount := dl_attemptCount x + 1\<rparr>)"
    and "find_endpoint (jb_companyId j) (dl_webhookEndpointId x) (one_attempt j r d) = Some e"
    by (simp_all add: deliverable_def one_attempt_def find_delivery_upd find_elsewhere)
qed (simp_all add: one_attempt_def)

lemma work_idle: "jobs d = [] \<Longrightarrow> work dec now rs d = d"
  by (cases rs) (simp_all add: work.simps(2))

lemma work_settles:
  assumes "deliverable dec j x e d" and "0 \<le> jb_attemptsMade j" and "jb_attemptsMade j < RETRY_ATTEMPTS"
    and "int (length rs) = RETRY_ATTEMPTS - jb_attemptsMade j" and "\<forall>r\<in>set rs. recordable (attempt_row j r 0)"
  shows "jobs (work dec now rs d) = [] \<and> postings (work dec now rs d) = [] \<and>
    (\<exists>y. find_delivery (jb_companyId j) (jb_webhookDeliveryId j) (work dec now rs d) = Some y \<and> dl_completedAt y = Some now \<and>
       dl_status y = (if list_ex delivered rs then SUCCESS else EXHAUSTED) \<and>
       dl_attemptCount y = dl_attemptCount x + int (length (takeWhile (\<lambda>r. \<not> delivered r) rs)) + (if list_ex delivered rs then 1 else 0)) \<and>
    find_endpoint (jb_companyId j) (dl_webhookEndpointId x) (work dec now rs d) =
      Some (if list_ex delivered rs then reset_failures e else count_failure now e)"
  using assms
proof (induction rs arbitrary: j x d)
  case (Cons r rs)
  note found = found_after_attempt [OF Cons.prems(1), of r]
  have ids: "dl_id x = jb_webhookDeliveryId j" "ep_id e = dl_webhookEndpointId x"
    using Cons.prems(1) by (auto simp: deliverable_def find_delivery_def find_endpoint_def dest!: find_SomeD)
  have rec: "recordable (attempt_row j r 0)" using Cons.prems(5) by simp
  have keep: "ep_id (reset_failures f) = ep_id f \<and> ep_companyId (reset_failures f) = ep_companyId f"
    "ep_id (count_failure now f) = ep_id f \<and> ep_companyId (count_failure now f) = ep_companyId f" for f
    by (simp_all add: reset_failures_def count_failure_def Let_def)
  show ?case
  proof (cases "delivered r")
    case True
    then show ?thesis
      by (simp add: work_deliverable [OF Cons.prems(1) rec] work_idle found find_delivery_upd find_elsewhere find_endpoint_upd
          complete_def ids keep)
  next
    case False
    show ?thesis
    proof (cases "jb_attemptsMade j + 1 < RETRY_ATTEMPTS")
      case True
      let ?j = "j\<lparr>jb_attemptsMade := jb_attemptsMade j + 1\<rparr>" and ?d = "(one_attempt j r d)\<lparr>jobs := [j\<lparr>jb_attemptsMade := jb_attemptsMade j + 1\<rparr>]\<rparr>"
      have "deliverable dec ?j (x\<lparr>dl_attemptCount := dl_attemptCount x + 1\<rparr>) e ?d"
        using Cons.prems(1) found by (simp add: deliverable_def find_delivery_def find_endpoint_def)
      moreover have "recordable (attempt_row ?j s 0)" if "s \<in> set rs" for s
        using Cons.prems(5) that by (simp add: recordable_def attempt_row_def)
      ultimately show ?thesis
        using Cons.IH [of ?j "x\<lparr>dl_attemptCount := dl_attemptCount x + 1\<rparr>" ?d] Cons.prems(2-4) True False
        by (auto simp: work_deliverable [OF Cons.prems(1) rec])
    next
      case last: False
      have "int (Suc (length rs)) = RETRY_ATTEMPTS - jb_attemptsMade j" using Cons.prems(4) by simp
      with last have "length rs = 0" by linarith
      then have "rs = []" by simp
      with False last show ?thesis
        by (simp add: work_deliverable [OF Cons.prems(1) rec] work_idle found find_delivery_upd find_elsewhere find_endpoint_upd
            complete_def ids keep)
    qed
  qed
qed simp

text \<open>
  A delivery settles. With one worker on an otherwise idle queue, whose writes all succeed,
  and answers the attempt log can store, a fresh job whose endpoint is active ends within six attempts: the
  delivery is a SUCCESS with the attempts up to the first 2xx answer, which resets the
  endpoint's failures, or it is EXHAUSTED after six, which counts one failure and switches
  the endpoint off at the tenth.
\<close>

theorem delivery_settles:
  assumes "deliverable dec j x e d" and "jb_attemptsMade j = 0" and "length rs = 6"
    and "\<forall>r\<in>set rs. recordable (attempt_row j r 0)"
  shows "jobs (work dec now rs d) = [] \<and> postings (work dec now rs d) = [] \<and>
    (\<exists>y. find_delivery (jb_companyId j) (jb_webhookDeliveryId j) (work dec now rs d) = Some y \<and>
       dl_status y = (if list_ex delivered rs then SUCCESS else EXHAUSTED) \<and>
       dl_attemptCount y = dl_attemptCount x + (if list_ex delivered rs then int (length (takeWhile (\<lambda>r. \<not> delivered r) rs)) + 1 else 6)) \<and>
    (\<exists>f. find_endpoint (jb_companyId j) (dl_webhookEndpointId x) (work dec now rs d) = Some f \<and>
       (if list_ex delivered rs then ep_isActive f \<and> ep_consecutiveFailures f = 0
        else ep_consecutiveFailures f = ep_consecutiveFailures e + 1 \<and>
          (ep_isActive f \<longleftrightarrow> ep_consecutiveFailures e + 1 < 10)))"
proof -
  have active: "ep_isActive e" using assms(1) by (simp add: deliverable_def)
  have all: "\<not> list_ex delivered rs \<Longrightarrow> length (takeWhile (\<lambda>r. \<not> delivered r) rs) = 6"
    using assms(3) by (metis list_ex_iff takeWhile_eq_all_conv)
  from work_settles [OF assms(1), of rs now] assms(2-4) show ?thesis
    by (auto simp: RETRY_ATTEMPTS_def reset_failures_def count_failure_def Let_def WEBHOOK_DISABLE_THRESHOLD_def active all)
qed

theorem delivery_settles_witness:
  "\<exists>y f. find_delivery 9 2 (work (\<lambda>c v. Some c) 7 (replicate 6 (Inl ''timeout'')) demo_hook) = Some y \<and>
     dl_status y = EXHAUSTED \<and>
     find_endpoint 9 1 (work (\<lambda>c v. Some c) 7 (replicate 6 (Inl ''timeout'')) demo_hook) = Some f \<and> \<not> ep_isActive f"
proof -
  let ?j = "\<lparr>jb_companyId = 9, jb_webhookDeliveryId = 2, jb_attemptsMade = 0\<rparr>"
  have "deliverable (\<lambda>c v. Some c) ?j (hd (deliveries demo_hook)) (hd (endpoints demo_hook)) demo_hook"
    by (simp add: deliverable_def demo_hook_def find_delivery_def find_endpoint_def)
  moreover have "\<forall>r\<in>set (replicate 6 (Inl ''timeout'')). recordable (attempt_row ?j r 0)"
    by (simp add: recordable_def attempt_row_def storable_def delivered_def)
  moreover have "\<not> list_ex delivered (replicate 6 (Inl ''timeout''))" by (simp add: list_ex_iff delivered_def)
  ultimately show ?thesis
    using delivery_settles [of "\<lambda>c v. Some c" ?j "hd (deliveries demo_hook)" "hd (endpoints demo_hook)" demo_hook
        "replicate 6 (Inl ''timeout'')" 7]
    by (auto simp: demo_hook_def simp del: replicate.simps)
qed

section \<open>Deliveries nobody works on\<close>

text \<open>A pending delivery without a job, queued or being posted.\<close>

definition orphaned :: "id \<Rightarrow> webhook_db \<Rightarrow> bool" where
  "orphaned i d \<longleftrightarrow> i < next_webhook_id d \<and> (\<forall>j\<in>set (jobs d). jb_webhookDeliveryId j \<noteq> i) \<and>
     (\<forall>w\<in>set (writings d). jb_webhookDeliveryId (wr_job w) \<noteq> i) \<and>
     (\<forall>po\<in>set (postings d). jb_webhookDeliveryId (po_job po) \<noteq> i) \<and>
     (\<forall>x\<in>set (deliveries d). dl_id x = i \<longrightarrow> dl_status x = PENDING)"

lemma orphaned_upd_endpoint: "orphaned i (upd_endpoint k f d) \<longleftrightarrow> orphaned i d"
  by (simp add: orphaned_def)

lemma orphaned_other_delivery:
  assumes "orphaned i d" and "k \<noteq> i" and "\<And>x. dl_id (f x) = dl_id x"
  shows "orphaned i (upd_delivery k f d)"
  using assms by (auto simp: orphaned_def upd_delivery_def set_update_rows)

lemma orphaned_add_job: "orphaned i d \<Longrightarrow> k \<noteq> i \<Longrightarrow> orphaned i (add_job c k d)"
  by (auto simp: orphaned_def add_job_def)

lemma orphaned_create_delivery: "orphaned i d \<Longrightarrow> orphaned i (snd (create_delivery now c ev p e d))"
  by (auto simp: orphaned_def create_delivery_def add_job_def Let_def)

lemma orphaned_settle: "orphaned i d \<Longrightarrow> jb_webhookDeliveryId j \<noteq> i \<Longrightarrow> orphaned i (settle_job j d)"
  by (auto simp: settle_job_def orphaned_def)

lemma orphaned_write:
  assumes "orphaned i d" and "w \<in> set (writings d)"
  shows "orphaned i (write_job now w d)"
proof -
  let ?d0 = "d\<lparr>writings := remove1 w (writings d)\<rparr>" and ?k = "jb_webhookDeliveryId (wr_job w)"
  have k: "?k \<noteq> i" using assms by (simp add: orphaned_def)
  have d0: "orphaned i ?d0" using assms by (auto simp: orphaned_def dest: notin_set_remove1)
  then show ?thesis
    using k
    by (cases "wr_phase w")
      (auto simp: write_job_def process_record_def Let_def settle_job_def orphaned_def upd_delivery_def upd_endpoint_def
        set_update_rows complete_def)
qed

lemma orphaned_step: "webhook_step d d' \<Longrightarrow> orphaned i d \<Longrightarrow> orphaned i d'"
proof (induction rule: webhook_step.induct)
  case (create enc c dto a d k d')
  then show ?case by (auto simp: endpoint_create_def Let_def orphaned_def split: prod.splits)
next
  case (edit enc c k dto d d')
  then show ?case by (auto simp: endpoint_update_def orphaned_upd_endpoint)
next
  case (enable c k d d')
  then show ?case by (auto simp: endpoint_enable_def orphaned_upd_endpoint)
next
  case (disable now c k d d')
  then show ?case by (auto simp: endpoint_disable_def orphaned_upd_endpoint)
next
  case (remove c k d d')
  then show ?case by (auto simp: endpoint_remove_def orphaned_def)
next
  case (dispatch now c ev payload d n d')
  then show ?case by (auto simp: dispatchEvent_def Let_def intro!: fold_ok [where P = "orphaned i"] orphaned_create_delivery)
next
  case (test now c k payload d n d')
  then obtain e where "create_delivery now c ''test.ping'' payload e d = (n, d')" by (auto simp: sendTestEvent_def)
  with orphaned_create_delivery [OF test.prems] show ?case by (metis snd_conv)
next
  case (retry c k d d')
  then have "k \<noteq> i" by (auto simp: retry_def orphaned_def find_delivery_def dest!: find_SomeD)
  with retry show ?case by (auto simp: retry_def requeue_def intro!: orphaned_add_job orphaned_other_delivery)
next
  case (bulk c flt d n d')
  have "i \<notin> set (map dl_id (filter (bulk_matches c flt) (deliveries d)))"
    using bulk.prems by (auto simp: orphaned_def bulk_matches_def)
  then have "orphaned i (fold (\<lambda>k d. add_job c k (upd_delivery k requeue d)) (map dl_id (filter (bulk_matches c flt) (deliveries d))) d)"
    using bulk.prems
    by (intro fold_ok [where P = "orphaned i"] orphaned_add_job orphaned_other_delivery) (auto simp: requeue_def)
  with bulk.hyps show ?case by (simp add: bulkRetry_def)
next
  case (start j d dec)
  then have "orphaned i (d\<lparr>jobs := remove1 j (jobs d)\<rparr>)" "jb_webhookDeliveryId j \<noteq> i"
    by (auto simp: orphaned_def dest: set_remove1_subset [THEN subsetD])
  moreover from this have "orphaned i (d\<lparr>jobs := remove1 j (jobs d), postings := postings d @ [\<lparr>po_job = j, po_endpointId = k\<rparr>]\<rparr>)" for k
    by (auto simp: orphaned_def)
  ultimately show ?case by (auto simp: start_job_def Let_def intro: orphaned_settle split: sum.split option.split)
next
  case (answer po d resp latency)
  then show ?case by (auto simp: answer_job_def orphaned_def dest: notin_set_remove1)
next
  case (write_one w d now)
  then show ?case by (simp add: orphaned_write)
next
  case (fail w d)
  then have "orphaned i (d\<lparr>writings := remove1 w (writings d)\<rparr>)" "jb_webhookDeliveryId (wr_job w) \<noteq> i"
    by (auto simp: orphaned_def dest: notin_set_remove1)
  then show ?case by (simp add: fail_write_def orphaned_settle)
qed

lemma orphaned_run: "webhook_run d d' \<Longrightarrow> orphaned i d \<Longrightarrow> orphaned i d'"
  by (induction rule: webhook_run.induct) (auto intro: orphaned_step)

lemma dropped_job_orphans:
  assumes "webhooks_ok d" and "jobs d = [j]" and "postings d = []" and "writings d = []" and "process_load dec j (d\<lparr>jobs := []\<rparr>) = Inr None"
    and "\<forall>x\<in>set (deliveries d). dl_id x = jb_webhookDeliveryId j \<longrightarrow> dl_status x = PENDING"
  shows "orphaned (jb_webhookDeliveryId j) (start_job dec j d)"
  using assms by (simp add: start_job_def orphaned_def webhooks_ok_def job_ok_def)

text \<open>
  A delivery whose endpoint was off is never made. When a worker takes the only job of a
  pending delivery while its endpoint is disabled, it drops the job; from then on, whatever
  administrators and workers do, the endpoint enabled again included, the delivery stays
  pending and a retry is refused.
\<close>

theorem dropped_delivery_stuck:
  assumes "webhooks_ok d" and "jobs d = [j]" and "postings d = []" and idle: "writings d = []"
    and x: "find_delivery (jb_companyId j) (jb_webhookDeliveryId j) d = Some x" and "dl_status x = PENDING"
    and "distinct (map dl_id (deliveries d))"
    and "find_endpoint (jb_companyId j) (dl_webhookEndpointId x) d = Some e" and "\<not> ep_isActive e"
    and run: "webhook_run (start_job dec j d) d'"
  shows "isl (retry c (jb_webhookDeliveryId j) d') \<and>
    (\<forall>y\<in>set (deliveries d'). dl_id y = jb_webhookDeliveryId j \<longrightarrow> dl_status y = PENDING)"
proof -
  have mem: "x \<in> set (deliveries d)" "dl_id x = jb_webhookDeliveryId j" using x by (auto simp: find_delivery_def dest: find_SomeD)
  have "process_load dec j (d\<lparr>jobs := []\<rparr>) = Inr None"
    using x assms(8,9) by (simp add: process_load_def find_delivery_def find_endpoint_def)
  moreover have "\<forall>y\<in>set (deliveries d). dl_id y = jb_webhookDeliveryId j \<longrightarrow> dl_status y = PENDING"
  proof (intro ballI impI)
    fix y assume "y \<in> set (deliveries d)" "dl_id y = jb_webhookDeliveryId j"
    with mem assms(7) have "y = x" by (auto simp: distinct_map inj_on_def)
    with assms(6) show "dl_status y = PENDING" by simp
  qed
  ultimately have "orphaned (jb_webhookDeliveryId j) d'"
    using orphaned_run [OF run] dropped_job_orphans assms(1-3) idle by blast
  then have pending: "dl_status y = PENDING" if "y \<in> set (deliveries d')" "dl_id y = jb_webhookDeliveryId j" for y
    using that by (simp add: orphaned_def)
  moreover have "isl (retry c (jb_webhookDeliveryId j) d')"
  proof (cases "find_delivery c (jb_webhookDeliveryId j) d'")
    case (Some y)
    then have "dl_status y = PENDING" using pending by (auto simp: find_delivery_def dest: find_SomeD)
    with Some show ?thesis by (simp add: retry_def ensure_def)
  qed (simp add: retry_def)
  ultimately show ?thesis by blast
qed

theorem dropped_delivery_stuck_witness:
  "isl (retry 9 2 (start_job (\<lambda>c v. Some c) \<lparr>jb_companyId = 9, jb_webhookDeliveryId = 2, jb_attemptsMade = 0\<rparr>
     (upd_endpoint 1 (\<lambda>e. e\<lparr>ep_isActive := False\<rparr>) demo_hook)))"
proof -
  let ?j = "\<lparr>jb_companyId = 9, jb_webhookDeliveryId = 2, jb_attemptsMade = 0\<rparr>"
  let ?d = "upd_endpoint 1 (\<lambda>e. e\<lparr>ep_isActive := False\<rparr>) demo_hook"
  have ok: "webhooks_ok ?d" by (rule upd_endpoint_ok [OF demo_hook_ok]) (simp add: endpoint_ok_def)
  have jobs: "jobs ?d = [?j]" "postings ?d = []" "writings ?d = []" by (simp_all add: demo_hook_def)
  obtain x where x: "find_delivery (jb_companyId ?j) (jb_webhookDeliveryId ?j) ?d = Some x" "dl_status x = PENDING"
    "dl_webhookEndpointId x = 1"
    by (simp add: find_delivery_def demo_hook_def)
  have distinct: "distinct (map dl_id (deliveries ?d))" by (simp add: demo_hook_def)
  obtain e where e: "find_endpoint (jb_companyId ?j) (dl_webhookEndpointId x) ?d = Some e" "\<not> ep_isActive e"
    by (simp add: x(3) find_endpoint_upd) (simp add: find_endpoint_def demo_hook_def)
  from dropped_delivery_stuck [OF ok jobs x(1,2) distinct e webhook_run.refl] show ?thesis by simp
qed

text \<open>An answer with a NUL byte cannot be logged: six attempts leave no trace and no verdict.\<close>

lemma nul_answer_unrecorded:
  "wr_response w = Inr (200, [CHR 0x00]) \<Longrightarrow> wr_phase w = LogAttempt \<Longrightarrow>
     process_record now w d = (Inl (JsError ''value not accepted by the column''), d)"
  by (simp add: process_record_def recordable_def attempt_row_def storable_def Let_def)

text \<open>The receiver's check accepts what the worker signed, for five minutes.\<close>

lemma signature_accepted:
  "\<bar>now - sent\<bar> \<le> DEFAULT_MAX_AGE_MS \<Longrightarrow>
     verifyWebhookSignature hmac now secret sent body (signWebhookPayload hmac secret sent body) DEFAULT_MAX_AGE_MS"
  by (simp add: verifyWebhookSignature_def)

text \<open>An endpoint that has ever had a delivery cannot be deleted.\<close>

lemma used_endpoint_not_removed:
  "x \<in> set (deliveries d) \<Longrightarrow> dl_webhookEndpointId x = i \<Longrightarrow> isl (endpoint_remove c i d)"
  by (cases "find_endpoint c i d") (auto simp: endpoint_remove_def requireOwned_def list_ex_iff ensure_def)

end
