(* ===== verification/CustomFields.thy ===== *)
theory CustomFields
  imports Text Aadhaar
begin

text \<open>
  Custom fields: \<open>apps/api/src/custom-fields/custom-fields.service.ts\<close>,
  \<open>packages/shared/src/custom-field.dto.ts\<close> and the keyword layer of
  \<open>packages/shared/src/aadhaar-guard.ts\<close>. A company defines typed fields per kind of record;
  the values are a JSON object on the record. The Unicode tables (normalisation, lower case,
  the Devanagari script) and the engine's \<open>Date\<close> parser are arguments.
\<close>

type_synonym id = nat

section \<open>The keyword layer of the Aadhaar guard\<close>

text \<open>A text as its code points; \<open>fold\<close> is \<open>normalize('NFKC').toLowerCase()\<close>.\<close>

type_synonym unicode = "(nat list \<Rightarrow> nat list) \<times> (nat \<Rightarrow> bool)"

definition code_points :: "string \<Rightarrow> nat list" where
  "code_points s = map of_char s"

definition DEVANAGARI_AADHAAR :: "nat list" where
  "DEVANAGARI_AADHAAR = [0x0906, 0x0927, 0x093E, 0x0930]"

definition SUBSTRING_WORDS :: "nat list list" where
  "SUBSTRING_WORDS = [code_points ''aadhaar'', code_points ''aadhar'', DEVANAGARI_AADHAAR]"

definition WHOLE_WORD_WORDS :: "nat list list" where
  "WHOLE_WORD_WORDS = [code_points ''adhaar'', code_points ''adhar'']"

definition word_char :: "(nat \<Rightarrow> bool) \<Rightarrow> nat \<Rightarrow> bool" where
  "word_char devanagari c \<longleftrightarrow> 97 \<le> c \<and> c \<le> 122 \<or> 48 \<le> c \<and> c \<le> 57 \<or> devanagari c"

fun foldDevanagari :: "nat list \<Rightarrow> nat list" where
  "foldDevanagari [] = []"
| "foldDevanagari [c] = (if c = 0x093C then [] else [c])"
| "foldDevanagari (c # c' # s) =
     (if c = 0x0905 \<and> c' = 0x093E then 0x0906 # foldDevanagari s
      else if c = 0x093C then foldDevanagari (c' # s)
      else c # foldDevanagari (c' # s))"

text \<open>\<open>split\<close> at the runs of other characters.\<close>

function split_words :: "(nat \<Rightarrow> bool) \<Rightarrow> nat list \<Rightarrow> nat list list" where
  "split_words p s =
     (let (w, r) = (takeWhile p s, dropWhile p s)
      in if r = [] then [w] else w # split_words p (dropWhile (\<lambda>c. \<not> p c) r))"
  by pat_completeness auto

lemma length_dropWhile_less: "dropWhile p s \<noteq> [] \<Longrightarrow>
    length (dropWhile (\<lambda>c. \<not> p c) (dropWhile p s)) < length s"
proof (induction s)
  case (Cons a s)
  then show ?case
    using length_dropWhile_le [of "\<lambda>c. \<not> p c" s] by (auto simp: less_Suc_eq_le)
qed simp

termination split_words
  by (relation "measure (\<lambda>(p, s). length s)") (auto simp: length_dropWhile_less)

declare split_words.simps [simp del]

fun is_infix :: "nat list \<Rightarrow> nat list \<Rightarrow> bool" where
  "is_infix w [] = (w = [])"
| "is_infix w (c # s) = (take (length w) (c # s) = w \<or> is_infix w s)"

definition containsAadhaarKeyword :: "unicode \<Rightarrow> string \<Rightarrow> nat list option" where
  "containsAadhaarKeyword u text =
     (let lowered = fst u (code_points text);
          stripped = foldDevanagari (filter (word_char (snd u)) lowered)
      in case List.find (\<lambda>w. is_infix w stripped) SUBSTRING_WORDS of
           Some w \<Rightarrow> Some w
         | None \<Rightarrow> List.find (\<lambda>w. w \<in> set (split_words (word_char (snd u)) lowered)) WHOLE_WORD_WORDS)"

text \<open>The tables on plain ASCII text.\<close>

definition ascii_lower :: "nat \<Rightarrow> nat" where
  "ascii_lower c = (if 65 \<le> c \<and> c \<le> 90 then c + 32 else c)"

definition ascii_unicode :: unicode where
  "ascii_unicode = (map ascii_lower, \<lambda>c. False)"

section \<open>Definitions and values\<close>

datatype field_type = TEXT | NUMBER | DATE | BOOLEAN | SELECT | MULTI_SELECT

datatype field_entity = INQUIRY | BOOKING | UNIT | PROJECT | APPLICANT

text \<open>\<open>CFunction\<close> is the member every object inherits under the name \<open>constructor\<close>.\<close>

datatype cf_value =
    CNull
  | CBool bool
  | CNum number
  | CStr string
  | CArr "cf_value list"
  | CObj "(string \<times> cf_value) list"
  | CFunction

type_synonym cf_values = "(string \<times> cf_value) list"

record field_definition =
  fd_id :: id
  fd_companyId :: id
  fd_entityType :: field_entity
  fd_key :: string
  fd_label :: string
  fd_fieldType :: field_type
  fd_options :: "string list option"
  fd_defaultValue :: "string option"
  fd_isRequired :: bool
  fd_allowsTwelveDigitValues :: bool
  fd_sortOrder :: int
  fd_isActive :: bool

text \<open>\<open>k in obj ? obj[k] : undefined\<close>.\<close>

definition js_member :: "string \<Rightarrow> cf_values \<Rightarrow> cf_value option" where
  "js_member k vs =
     (case map_of vs k of Some v \<Rightarrow> Some v | None \<Rightarrow> if k = ''constructor'' then Some CFunction else None)"

definition field_of :: "cf_value \<Rightarrow> field_value" where
  "field_of v = (case v of CNum x \<Rightarrow> NumberValue x | CStr s \<Rightarrow> StringValue s | _ \<Rightarrow> OtherValue)"

definition CUSTOM_FIELD_VALUE_ENTITIES :: "field_entity list" where
  "CUSTOM_FIELD_VALUE_ENTITIES = [INQUIRY, UNIT, PROJECT, APPLICANT]"

definition supportsCustomFieldValues :: "field_entity \<Rightarrow> bool" where
  "supportsCustomFieldValues e \<longleftrightarrow> e \<in> set CUSTOM_FIELD_VALUE_ENTITIES"

section \<open>Validation of values\<close>

text \<open>\<open>/^\d{4}-\d{2}-\d{2}(T.*)?$/\<close>\<close>

definition iso_shaped :: "string \<Rightarrow> bool" where
  "iso_shaped s \<longleftrightarrow>
     10 \<le> length s \<and> (\<forall>i\<in>{0, 1, 2, 3, 5, 6, 8, 9}. is_digit (s ! i)) \<and> s ! 4 = CHR ''-'' \<and> s ! 7 = CHR ''-'' \<and>
     (length s = 10 \<or> s ! 10 = CHR ''T'' \<and> (\<forall>c\<in>set (drop 11 s). c \<noteq> CHR 0x0A \<and> c \<noteq> CHR 0x0D))"

text \<open>
  \<open>isoDateValue\<close>. \<open>iso_day s\<close> is what \<open>new Date(s).toISOString().slice(0, 10)\<close> gives,
  \<open>None\<close> for an invalid date.
\<close>

definition isoDateValue :: "(string \<Rightarrow> string option) \<Rightarrow> cf_value \<Rightarrow> cf_value option" where
  "isoDateValue iso_day v =
     (case v of CStr s \<Rightarrow> if iso_shaped s then map_option CStr (iso_day s) else None | _ \<Rightarrow> None)"

definition one_of :: "string list \<Rightarrow> cf_value \<Rightarrow> bool" where
  "one_of opts v = (case v of CStr s \<Rightarrow> s \<in> set opts | _ \<Rightarrow> False)"

text \<open>The value a schema's \<open>parse\<close> returns; \<open>None\<close> where it reports an issue.\<close>

definition schemaForType :: "(string \<Rightarrow> string option) \<Rightarrow> field_definition \<Rightarrow> cf_value \<Rightarrow> cf_value option" where
  "schemaForType iso_day def v =
     (let opts = (case fd_options def of None \<Rightarrow> [] | Some os \<Rightarrow> os)
      in case fd_fieldType def of
           TEXT \<Rightarrow> (case v of CStr s \<Rightarrow> if 1 \<le> length s \<and> length s \<le> 1000 then Some v else None | _ \<Rightarrow> None)
         | NUMBER \<Rightarrow> (case v of CNum x \<Rightarrow> Some v | _ \<Rightarrow> None)
         | DATE \<Rightarrow> isoDateValue iso_day v
         | BOOLEAN \<Rightarrow> (case v of CBool b \<Rightarrow> Some v | _ \<Rightarrow> None)
         | SELECT \<Rightarrow> if opts \<noteq> [] \<and> one_of opts v then Some v else None
         | MULTI_SELECT \<Rightarrow>
             (case v of CArr vs \<Rightarrow> if opts \<noteq> [] \<and> list_all (one_of opts) vs then Some v else None | _ \<Rightarrow> None))"

definition parse_field :: "(string \<Rightarrow> string option) \<Rightarrow> cf_values \<Rightarrow> field_definition \<Rightarrow> cf_values result" where
  "parse_field iso_day values def =
     (case js_member (fd_key def) values of
        None \<Rightarrow> if fd_isRequired def then Inl (BadRequest ''customFields'') else Inr []
      | Some v \<Rightarrow>
          (case schemaForType iso_day def v of
             None \<Rightarrow> Inl (BadRequest ''customFields'')
           | Some v' \<Rightarrow> Inr [(fd_key def, v')]))"

text \<open>The strict object schema: one entry per definition, no other key.\<close>

definition validateCustomFieldValues ::
  "(string \<Rightarrow> string option) \<Rightarrow> field_definition list \<Rightarrow> cf_values \<Rightarrow> cf_values result" where
  "validateCustomFieldValues iso_day definitions values =
     bindE (traverse (parse_field iso_day values) definitions) (\<lambda>parts.
     bindE (ensure (\<forall>k\<in>set (map fst values). k \<in> set (map fd_key definitions)) (BadRequest ''customFields'')) (\<lambda>_.
     Inr (concat parts)))"

section \<open>The values to persist\<close>

definition findActiveByEntity :: "field_definition list \<Rightarrow> id \<Rightarrow> field_entity \<Rightarrow> field_definition list" where
  "findActiveByEntity defs companyId entityType =
     (if \<not> supportsCustomFieldValues entityType then []
      else sort_key fd_sortOrder
        (filter (\<lambda>f. fd_companyId f = companyId \<and> fd_entityType f = entityType \<and> fd_isActive f) defs))"

text \<open>Layer (b): a new or changed value of a text or number field.\<close>

definition value_allowed :: "cf_values \<Rightarrow> cf_values \<Rightarrow> field_definition \<Rightarrow> bool" where
  "value_allowed incoming storedValues def \<longleftrightarrow>
     fd_allowsTwelveDigitValues def \<or> fd_fieldType def \<notin> {TEXT, NUMBER} \<or>
     (case js_member (fd_key def) incoming of
        None \<Rightarrow> True
      | Some v \<Rightarrow> js_member (fd_key def) storedValues = Some v \<or> \<not> isAadhaarLikeValue (field_of v))"

definition merged_entry :: "cf_values option \<Rightarrow> cf_values \<Rightarrow> string \<Rightarrow> cf_values" where
  "merged_entry incoming storedValues k =
     (case Option.bind incoming (js_member k) of
        Some v \<Rightarrow> [(k, v)]
      | None \<Rightarrow> (case js_member k storedValues of Some v \<Rightarrow> [(k, v)] | None \<Rightarrow> []))"

text \<open>\<open>stored ?? {}\<close>\<close>

definition stored_values :: "cf_values option \<Rightarrow> cf_values" where
  "stored_values stored = (case stored of None \<Rightarrow> [] | Some vs \<Rightarrow> vs)"

definition resolveValuesForWrite ::
  "(string \<Rightarrow> string option) \<Rightarrow> field_definition list \<Rightarrow> id \<Rightarrow> field_entity \<Rightarrow> cf_values option \<Rightarrow>
     cf_values option \<Rightarrow> cf_values option result" where
  "resolveValuesForWrite iso_day defs companyId entityType incoming stored =
     (let definitions = findActiveByEntity defs companyId entityType;
          definedKeys = map fd_key definitions;
          storedValues = stored_values stored;
          preserved = filter (\<lambda>e. fst e \<notin> set definedKeys) storedValues
      in bindE (ensure (case incoming of None \<Rightarrow> True | Some vs \<Rightarrow> \<forall>k\<in>set (map fst vs). k \<in> set definedKeys)
           (BadRequest ''Unrecognized custom field'')) (\<lambda>_.
         bindE (ensure (case incoming of None \<Rightarrow> True | Some vs \<Rightarrow> \<forall>def\<in>set definitions. value_allowed vs storedValues def)
           (BadRequest ''looks like an Aadhaar number'')) (\<lambda>_.
         if definitions = [] then Inr (if preserved \<noteq> [] then Some preserved else None)
         else let mergedDefined = concat (map (merged_entry incoming storedValues) definedKeys)
              in if mergedDefined = [] \<and> preserved = [] \<and> \<not> (\<exists>def\<in>set definitions. fd_isRequired def) then Inr None
                 else bindE (validateCustomFieldValues iso_day definitions mergedDefined) (\<lambda>validated.
                      Inr (Some (preserved @ validated))))))"

section \<open>What is persisted\<close>

text \<open>The unique key of the definitions table.\<close>

definition unique_definitions :: "field_definition list \<Rightarrow> bool" where
  "unique_definitions defs \<longleftrightarrow> distinct (map (\<lambda>f. (fd_companyId f, fd_entityType f, fd_key f)) defs)"

lemma mem_findActiveByEntity:
  "d \<in> set (findActiveByEntity defs c e) \<longleftrightarrow>
     supportsCustomFieldValues e \<and> d \<in> set defs \<and> fd_companyId d = c \<and> fd_entityType d = e \<and> fd_isActive d"
  by (auto simp: findActiveByEntity_def)

lemma active_keys_distinct:
  assumes "unique_definitions defs"
  shows "distinct (map fd_key (findActiveByEntity defs c e))"
proof -
  have "inj_on (\<lambda>f. (fd_companyId f, fd_entityType f, fd_key f)) (set defs)" and "distinct defs"
    using assms by (auto simp: unique_definitions_def distinct_map)
  then show ?thesis
    by (auto simp: findActiveByEntity_def distinct_map inj_on_def)
qed

lemma map_of_filter_out:
  "map_of (filter (\<lambda>x. fst x \<notin> K) vs) k = (if k \<in> K then None else map_of vs k)"
  by (induction vs) auto

lemma merged_keys: "\<forall>k\<in>set (map fst (concat (map (merged_entry inc st) ks))). k \<in> set ks"
  by (auto simp: merged_entry_def split: option.splits)

lemma map_of_merged_other:
  "k \<notin> set ks \<Longrightarrow> map_of (concat (map (merged_entry inc st) ks)) k = None"
  by (induction ks) (auto simp: merged_entry_def map_add_def split: option.splits)

lemma map_of_merged:
  "k \<in> set ks \<Longrightarrow> map_of (concat (map (merged_entry inc st) ks)) k =
     (case Option.bind inc (js_member k) of Some v \<Rightarrow> Some v | None \<Rightarrow> js_member k st)"
proof (induction ks)
  case (Cons a ks)
  show ?case
  proof (cases "k \<in> set ks")
    case True
    then show ?thesis using Cons.IH by (auto simp: merged_entry_def map_add_def split: option.split)
  next
    case False
    then have "k = a" and "map_of (concat (map (merged_entry inc st) ks)) a = None"
      using Cons.prems map_of_merged_other [OF False] by auto
    moreover have "map_of (merged_entry inc st a) a =
        (case Option.bind inc (js_member a) of Some v \<Rightarrow> Some v | None \<Rightarrow> js_member a st)"
      by (simp add: merged_entry_def split: option.split)
    ultimately show ?thesis by (simp add: map_add_def split: option.split)
  qed
qed simp

lemma js_member_None: "js_member k vs = None \<longleftrightarrow> map_of vs k = None \<and> k \<noteq> ''constructor''"
  by (simp add: js_member_def split: option.split)

lemma js_member_Some: "map_of vs k = Some v \<Longrightarrow> js_member k vs = Some v"
  by (simp add: js_member_def)

lemma js_member_eqI: "map_of vs k = r \<Longrightarrow> (r = None \<Longrightarrow> k \<noteq> ''constructor'') \<Longrightarrow> js_member k vs = r"
  by (auto simp: js_member_def split: option.split)

lemma js_member_merged:
  assumes "k \<in> set ks"
  shows "js_member k (concat (map (merged_entry inc st) ks)) =
     (case Option.bind inc (js_member k) of Some v \<Rightarrow> Some v | None \<Rightarrow> js_member k st)"
proof (cases "map_of (concat (map (merged_entry inc st) ks)) k")
  case None
  then have "js_member k st = None" "Option.bind inc (js_member k) = None"
    using map_of_merged [OF assms, of inc st] by (auto split: option.splits)
  moreover from this None have "js_member k (concat (map (merged_entry inc st) ks)) = None"
    by (simp add: js_member_None)
  ultimately show ?thesis by simp
next
  case (Some v)
  then show ?thesis using map_of_merged [OF assms, of inc st] by (simp add: js_member_Some)
qed

lemma parse_field_entry:
  "parse_field dy vals d = Inr part \<Longrightarrow> set (map fst part) \<subseteq> {fd_key d}"
  "parse_field dy vals d = Inr part \<Longrightarrow> map_of part (fd_key d) = Option.bind (js_member (fd_key d) vals) (schemaForType dy d)"
  by (cases "js_member (fd_key d) vals"; auto simp: parse_field_def split: option.splits if_splits)+

lemma parsed_keys:
  "traverse (parse_field dy vals) ds = Inr parts \<Longrightarrow> set (map fst (concat parts)) \<subseteq> fd_key ` set ds"
proof (induction ds arbitrary: parts)
  case (Cons d ds)
  then obtain part rest where "parse_field dy vals d = Inr part"
    "traverse (parse_field dy vals) ds = Inr rest" "parts = part # rest" by auto
  moreover from this have "set (map fst part) \<subseteq> {fd_key d}" "set (map fst (concat rest)) \<subseteq> fd_key ` set ds"
    using parse_field_entry(1) Cons.IH by blast+
  moreover have "set (map fst (concat parts)) = set (map fst part) \<union> set (map fst (concat rest))"
    using \<open>parts = part # rest\<close> by auto
  ultimately show ?case by (simp only: list.set(2) image_insert) blast
qed simp

lemma parsed_lookup:
  "traverse (parse_field dy vals) ds = Inr parts \<Longrightarrow> distinct (map fd_key ds) \<Longrightarrow> d \<in> set ds \<Longrightarrow>
     map_of (concat parts) (fd_key d) = Option.bind (js_member (fd_key d) vals) (schemaForType dy d)"
proof (induction ds arbitrary: parts)
  case (Cons a ds)
  then obtain part rest where p: "parse_field dy vals a = Inr part"
    "traverse (parse_field dy vals) ds = Inr rest" "parts = part # rest" by auto
  show ?case
  proof (cases "d = a")
    case True
    then have "fd_key d \<notin> set (map fst (concat rest))"
      using parsed_keys [OF p(2)] Cons.prems(2) by auto
    then have "map_of (concat rest) (fd_key d) = None" by (simp add: map_of_eq_None_iff)
    then show ?thesis using True parse_field_entry(2) [OF p(1)] p(3)
      by (simp add: map_add_def split: option.split)
  next
    case False
    then have "d \<in> set ds" using Cons.prems(3) by simp
    moreover have "fd_key d \<noteq> fd_key a" using Cons.prems(2) \<open>d \<in> set ds\<close> by (auto simp: rev_image_eqI)
    then have "map_of part (fd_key d) = None"
      using parse_field_entry(1) [OF p(1)] by (auto simp: map_of_eq_None_iff)
    ultimately show ?thesis using Cons.IH [OF p(2)] Cons.prems(2) p(3) by (simp add: map_add_def split: option.split)
  qed
qed simp

lemma parsed_present:
  "traverse (parse_field dy vals) ds = Inr parts \<Longrightarrow> d \<in> set ds \<Longrightarrow>
     (case js_member (fd_key d) vals of None \<Rightarrow> \<not> fd_isRequired d | Some v \<Rightarrow> schemaForType dy d v \<noteq> None)"
  by (induction ds arbitrary: parts) (auto simp: parse_field_def split: option.splits if_splits)

text \<open>One call that returned an object, taken apart.\<close>

lemma resolve_returned:
  assumes "resolveValuesForWrite dy defs c e inc st = Inr (Some out)"
  defines "ds \<equiv> findActiveByEntity defs c e"
  defines "sv \<equiv> stored_values st"
  defines "kept \<equiv> filter (\<lambda>x. fst x \<notin> set (map fd_key ds)) sv"
  defines "merged \<equiv> concat (map (merged_entry inc sv) (map fd_key ds))"
  obtains parts where
    "\<And>vs k. inc = Some vs \<Longrightarrow> k \<in> fst ` set vs \<Longrightarrow> k \<in> fd_key ` set ds"
    "\<And>vs d. inc = Some vs \<Longrightarrow> d \<in> set ds \<Longrightarrow> value_allowed vs sv d"
    "traverse (parse_field dy merged) ds = Inr parts" "out = kept @ concat parts"
proof -
  note r = assms(1) [unfolded resolveValuesForWrite_def Let_def, folded ds_def sv_def, folded kept_def merged_def]
  have "\<exists>parts. traverse (parse_field dy merged) ds = Inr parts \<and> out = kept @ concat parts"
  proof (cases "ds = []")
    case True
    then show ?thesis using r by (auto split: option.splits if_splits)
  next
    case False
    then show ?thesis using r by (auto simp: validateCustomFieldValues_def split: option.splits if_splits)
  qed
  moreover have "k \<in> fst ` set vs \<Longrightarrow> k \<in> fd_key ` set ds" if "inc = Some vs" for vs k
    using r that by auto
  moreover have "d \<in> set ds \<Longrightarrow> value_allowed vs sv d" if "inc = Some vs" for vs d
    using r that by auto
  ultimately show ?thesis using that by metis
qed

text \<open>
  C22: What a write of custom fields persists. Every stored value without an active definition
  is kept as it was; a value under an active definition is one its schema produced (for a
  selection, one of its options), and a required definition has one; and in a text or number
  field that is not exempt a value that looks like an Aadhaar number is there only if it was
  stored before. (A selection's values are not looked at: its options are, when it is defined.)
\<close>

theorem custom_values_checked:
  assumes "unique_definitions defs"
    and "resolveValuesForWrite iso_day defs companyId entityType incoming stored = Inr (Some out)"
  shows "(\<forall>k. k \<notin> fd_key ` set (findActiveByEntity defs companyId entityType) \<longrightarrow>
            map_of out k = map_of (stored_values stored) k) \<and>
         (\<forall>def\<in>set (findActiveByEntity defs companyId entityType).
            (case map_of out (fd_key def) of
               None \<Rightarrow> \<not> fd_isRequired def
             | Some v \<Rightarrow>
                 (\<exists>w. schemaForType iso_day def w = Some v) \<and>
                 (fd_allowsTwelveDigitValues def \<or> fd_fieldType def \<notin> {TEXT, NUMBER} \<or>
                  js_member (fd_key def) (stored_values stored) = Some v \<or> \<not> isAadhaarLikeValue (field_of v))))"
proof (intro conjI allI ballI impI)
  let ?ds = "findActiveByEntity defs companyId entityType"
  let ?kept = "filter (\<lambda>x. fst x \<notin> set (map fd_key ?ds)) (stored_values stored)"
  let ?merged = "concat (map (merged_entry incoming (stored_values stored)) (map fd_key ?ds))"
  obtain parts where allowed: "\<And>vs d. incoming = Some vs \<Longrightarrow> d \<in> set ?ds \<Longrightarrow> value_allowed vs (stored_values stored) d"
    and t: "traverse (parse_field iso_day ?merged) ?ds = Inr parts" and out: "out = ?kept @ concat parts"
    using resolve_returned [OF assms(2)] by metis
  note dist = active_keys_distinct [OF assms(1), of companyId entityType]
  note kept = map_of_filter_out [of "set (map fd_key ?ds)" "stored_values stored", unfolded list.set_map]
  show "map_of out k = map_of (stored_values stored) k" if "k \<notin> fd_key ` set ?ds" for k
  proof -
    have "map_of (concat parts) k = None" using parsed_keys [OF t] that by (auto simp: map_of_eq_None_iff)
    then show ?thesis using that kept [of k] out by (simp add: map_add_def split: option.split)
  qed
  fix def assume d: "def \<in> set ?ds"
  then have defined: "map_of out (fd_key def) = Option.bind (js_member (fd_key def) ?merged) (schemaForType iso_day def)"
    using parsed_lookup [OF t dist d] kept [of "fd_key def"] out by (simp add: map_add_def split: option.split)
  show "case map_of out (fd_key def) of
          None \<Rightarrow> \<not> fd_isRequired def
        | Some v \<Rightarrow> (\<exists>w. schemaForType iso_day def w = Some v) \<and>
            (fd_allowsTwelveDigitValues def \<or> fd_fieldType def \<notin> {TEXT, NUMBER} \<or>
             js_member (fd_key def) (stored_values stored) = Some v \<or> \<not> isAadhaarLikeValue (field_of v))"
  proof (cases "js_member (fd_key def) ?merged")
    case None
    then show ?thesis using defined parsed_present [OF t d] by simp
  next
    case (Some w)
    then obtain v where v: "schemaForType iso_day def w = Some v" using parsed_present [OF t d] by auto
    have same: "fd_fieldType def \<in> {TEXT, NUMBER} \<Longrightarrow> w = v"
      using v by (auto simp: schemaForType_def split: cf_value.splits if_splits)
    have "(case Option.bind incoming (js_member (fd_key def)) of Some x \<Rightarrow> Some x
           | None \<Rightarrow> js_member (fd_key def) (stored_values stored)) = Some w"
      using js_member_merged [of "fd_key def" "map fd_key ?ds" incoming "stored_values stored"] d Some by simp
    then have "fd_allowsTwelveDigitValues def \<or> fd_fieldType def \<notin> {TEXT, NUMBER} \<or>
        js_member (fd_key def) (stored_values stored) = Some v \<or> \<not> isAadhaarLikeValue (field_of v)"
      using same allowed [OF _ d] by (cases incoming) (auto simp: value_allowed_def split: option.splits)
    then show ?thesis using v defined Some by auto
  qed
qed

theorem custom_values_checked_witness:
  "let f = \<lparr>fd_id = 1, fd_companyId = 7, fd_entityType = APPLICANT, fd_key = ''bank_ac'', fd_label = ''Account'',
              fd_fieldType = TEXT, fd_options = None, fd_defaultValue = None, fd_isRequired = True,
              fd_allowsTwelveDigitValues = False, fd_sortOrder = 0, fd_isActive = True\<rparr>
   in resolveValuesForWrite (\<lambda>s. None) [f] 7 APPLICANT (Some [(''bank_ac'', CStr ''12'')]) (Some [(''leadNote'', CStr ''x'')]) =
        Inr (Some [(''leadNote'', CStr ''x''), (''bank_ac'', CStr ''12'')]) \<and>
      map_of [(''leadNote'', CStr ''x''), (''bank_ac'', CStr ''12'')] ''leadNote'' = Some (CStr ''x'')"
proof -
  let ?f = "\<lparr>fd_id = 1, fd_companyId = 7, fd_entityType = APPLICANT, fd_key = ''bank_ac'', fd_label = ''Account'',
              fd_fieldType = TEXT, fd_options = None, fd_defaultValue = None, fd_isRequired = True,
              fd_allowsTwelveDigitValues = False, fd_sortOrder = 0, fd_isActive = True\<rparr>"
  have u: "unique_definitions [?f]" by (simp add: unique_definitions_def)
  have r: "resolveValuesForWrite (\<lambda>s. None) [?f] 7 APPLICANT (Some [(''bank_ac'', CStr ''12'')]) (Some [(''leadNote'', CStr ''x'')]) =
        Inr (Some [(''leadNote'', CStr ''x''), (''bank_ac'', CStr ''12'')])" by code_simp
  have "''leadNote'' \<notin> fd_key ` set (findActiveByEntity [?f] 7 APPLICANT)" by code_simp
  then show ?thesis using r custom_values_checked [OF u r] by (simp add: stored_values_def)
qed

text \<open>
  An option that was allowed while the field was exempt can still be chosen when it is not:
  an update that ends the exemption checks the options only if it brings new ones.
\<close>

lemma exempt_option_stays:
  assumes "fd_fieldType def = SELECT" and "fd_options def = Some [digits]" and "fd_key def = k" and "k \<noteq> ''constructor''"
    and "findActiveByEntity defs c e = [def]" and "isAadhaarLikeValue (StringValue digits)"
  shows "resolveValuesForWrite dy defs c e (Some [(k, CStr digits)]) None = Inr (Some [(k, CStr digits)])"
  using assms
  by (simp add: resolveValuesForWrite_def stored_values_def value_allowed_def merged_entry_def js_member_def
      validateCustomFieldValues_def parse_field_def schemaForType_def one_of_def Let_def)

text \<open>
  A record that was saved can be saved again as it is, whether the form sends its values back or not.
  The date parser reads a day it has written as that day, when it is a plain day at all: of a
  year beyond 9999 it writes six digits and a sign, and the first ten characters of that are none.
\<close>

definition day_fixed :: "(string \<Rightarrow> string option) \<Rightarrow> bool" where
  "day_fixed iso_day \<longleftrightarrow> (\<forall>s t. iso_day s = Some t \<longrightarrow> iso_shaped t \<longrightarrow> iso_day t = Some t)"

definition plain_days :: "field_definition list \<Rightarrow> cf_values \<Rightarrow> bool" where
  "plain_days ds vs \<longleftrightarrow>
     (\<forall>d\<in>set ds. fd_fieldType d = DATE \<longrightarrow> (\<forall>t. map_of vs (fd_key d) = Some (CStr t) \<longrightarrow> iso_shaped t))"

lemma schema_idempotent:
  assumes "day_fixed dy" and "schemaForType dy d w = Some v"
    and "fd_fieldType d = DATE \<Longrightarrow> \<forall>t. v = CStr t \<longrightarrow> iso_shaped t"
  shows "schemaForType dy d v = Some v"
  using assms
  by (cases "fd_fieldType d"; cases w; auto simp: schemaForType_def isoDateValue_def day_fixed_def Let_def split: if_splits)

lemma traverse_again:
  assumes "traverse f xs = Inr ys" and "\<And>x y. x \<in> set xs \<Longrightarrow> f x = Inr y \<Longrightarrow> g x = Inr y"
  shows "traverse g xs = Inr ys"
  using assms by (induction xs arbitrary: ys) auto

lemma js_member_filter:
  assumes "k \<in> K"
  shows "js_member k (filter (\<lambda>e. fst e \<in> K) vs) = js_member k vs"
proof -
  have "map_of (filter (\<lambda>e. fst e \<in> K) vs) k = map_of vs k"
    using assms by (induction vs) auto
  then show ?thesis by (simp add: js_member_def)
qed

lemma filter_keys_out:
  "set (map fst vs) \<subseteq> K \<Longrightarrow> filter (\<lambda>x. fst x \<notin> K) vs = []"
  by (auto simp: filter_empty_conv)

text \<open>What is stored reads back as what was validated.\<close>

lemma resolve_reads_back:
  assumes "unique_definitions defs"
    and "resolveValuesForWrite dy defs c e inc st = Inr (Some out)"
  obtains parts kept merged where
    "traverse (parse_field dy merged) (findActiveByEntity defs c e) = Inr parts" "out = kept @ concat parts"
    "kept = filter (\<lambda>x. fst x \<notin> set (map fd_key (findActiveByEntity defs c e))) out"
    "\<And>d. d \<in> set (findActiveByEntity defs c e) \<Longrightarrow>
       js_member (fd_key d) out = Option.bind (js_member (fd_key d) merged) (schemaForType dy d)"
    "\<And>d. d \<in> set (findActiveByEntity defs c e) \<Longrightarrow>
       map_of out (fd_key d) = Option.bind (js_member (fd_key d) merged) (schemaForType dy d)"
    "out \<noteq> []"
proof -
  let ?ds = "findActiveByEntity defs c e"
  let ?kept = "filter (\<lambda>x. fst x \<notin> set (map fd_key ?ds)) (stored_values st)"
  let ?merged = "concat (map (merged_entry inc (stored_values st)) (map fd_key ?ds))"
  obtain parts where t: "traverse (parse_field dy ?merged) ?ds = Inr parts" and out: "out = ?kept @ concat parts"
    using resolve_returned [OF assms(2)] by metis
  have kept: "?kept = filter (\<lambda>x. fst x \<notin> set (map fd_key ?ds)) out"
    using parsed_keys [OF t] by (simp add: out filter_keys_out)
  have found: "map_of out (fd_key d) = Option.bind (js_member (fd_key d) ?merged) (schemaForType dy d)"
    if d: "d \<in> set ?ds" for d
    using parsed_lookup [OF t active_keys_distinct [OF assms(1)] d]
      map_of_filter_out [of "set (map fd_key ?ds)" "stored_values st" "fd_key d"] d
    by (simp add: out map_add_def split: option.split)
  have reads: "js_member (fd_key d) out = Option.bind (js_member (fd_key d) ?merged) (schemaForType dy d)"
    if d: "d \<in> set ?ds" for d
  proof -
    note found [OF d]
    moreover have "js_member (fd_key d) ?merged \<noteq> None \<Longrightarrow>
        Option.bind (js_member (fd_key d) ?merged) (schemaForType dy d) \<noteq> None"
      using parsed_present [OF t d] by (auto split: option.splits)
    ultimately show ?thesis by (intro js_member_eqI) (use js_member_None in blast)+
  qed
  have "out \<noteq> []"
  proof
    assume empty: "out = []"
    have none: "js_member (fd_key d) ?merged = None" if "d \<in> set ?ds" for d
    proof -
      have "concat parts = []" using empty out by simp
      then have "Option.bind (js_member (fd_key d) ?merged) (schemaForType dy d) = None"
        using parsed_lookup [OF t active_keys_distinct [OF assms(1)] that] by (metis map_of.simps(1))
      then show ?thesis using parsed_present [OF t that] by (auto split: option.splits)
    qed
    have "?merged = []"
    proof (rule ccontr)
      assume "?merged \<noteq> []"
      then obtain x where "x \<in> set ?merged" by (metis list.set_intros(1) neq_Nil_conv)
      then have k: "fst x \<in> set (map fst ?merged)" by (simp only: list.set_map imageI)
      then have "map_of ?merged (fst x) \<noteq> None" by (simp only: map_of_eq_None_iff list.set_map not_not)
      moreover obtain d where "d \<in> set ?ds" "fst x = fd_key d" using merged_keys k by fastforce
      ultimately show False using none by (metis js_member_None)
    qed
    moreover have "\<not> fd_isRequired d" if "d \<in> set ?ds" for d
      using parsed_present [OF t that] none [OF that] by simp
    moreover have "?kept = []" using empty out by simp
    ultimately show False using assms(2) by (auto simp: resolveValuesForWrite_def Let_def split: if_splits option.splits)
  qed
  then show ?thesis using that t out kept reads found by metis
qed

text \<open>
  A saved record can be saved again. The values an update stored, whether the form leaves
  them out or sends all of them back, are accepted and stored unchanged, when every stored date
  is of a year from 0 to 9999, which the date parser reads as that day.
\<close>

theorem saved_values_save_again:
  assumes "unique_definitions defs" and "day_fixed iso_day"
    and "resolveValuesForWrite iso_day defs companyId entityType incoming stored = Inr (Some out)"
    and days: "plain_days (findActiveByEntity defs companyId entityType) out"
    and resent: "resent = None \<or>
      resent = Some (filter (\<lambda>x. fst x \<in> set (map fd_key (findActiveByEntity defs companyId entityType))) out)"
  shows "resolveValuesForWrite iso_day defs companyId entityType resent (Some out) = Inr (Some out)"
proof -
  let ?ds = "findActiveByEntity defs companyId entityType"
  obtain parts kept merged where t: "traverse (parse_field iso_day merged) ?ds = Inr parts"
    and out: "out = kept @ concat parts" and kept: "kept = filter (\<lambda>x. fst x \<notin> set (map fd_key ?ds)) out"
    and reads: "\<And>d. d \<in> set ?ds \<Longrightarrow> js_member (fd_key d) out = Option.bind (js_member (fd_key d) merged) (schemaForType iso_day d)"
    and found: "\<And>d. d \<in> set ?ds \<Longrightarrow> map_of out (fd_key d) = Option.bind (js_member (fd_key d) merged) (schemaForType iso_day d)"
    and nonempty: "out \<noteq> []"
    using resolve_reads_back [OF assms(1,3)] by metis
  let ?again = "concat (map (merged_entry resent out) (map fd_key ?ds))"
  have again: "js_member (fd_key d) ?again = js_member (fd_key d) out" if "d \<in> set ?ds" for d
    using js_member_merged [of "fd_key d" "map fd_key ?ds" resent out] that resent
    by (auto simp: js_member_filter split: option.splits)
  have t': "traverse (parse_field iso_day ?again) ?ds = Inr parts"
    using t
  proof (rule traverse_again)
    fix d y assume d: "d \<in> set ?ds" and y: "parse_field iso_day merged d = Inr y"
    show "parse_field iso_day ?again d = Inr y"
    proof (cases "js_member (fd_key d) merged")
      case None
      then show ?thesis using y reads [OF d] again [OF d] by (simp add: parse_field_def)
    next
      case (Some w)
      then obtain v where v: "schemaForType iso_day d w = Some v" "y = [(fd_key d, v)]"
        using y by (auto simp: parse_field_def split: option.splits)
      have "\<forall>t. v = CStr t \<longrightarrow> iso_shaped t" if "fd_fieldType d = DATE"
        using days d that found [OF d] Some v by (auto simp: plain_days_def)
      from schema_idempotent [OF assms(2) v(1) this] show ?thesis
        using reads [OF d] again [OF d] Some v by (simp add: parse_field_def)
    qed
  qed
  have some_value: "?again \<noteq> [] \<or> kept \<noteq> []"
  proof (rule ccontr)
    assume "\<not> (?again \<noteq> [] \<or> kept \<noteq> [])"
    then have "?again = []" and "concat parts \<noteq> []" using nonempty out by auto
    then obtain x where x: "x \<in> set (concat parts)" by (metis list.set_intros(1) neq_Nil_conv)
    then have "fst x \<in> set (map fst (concat parts))" by (simp only: list.set_map imageI)
    then obtain d where d: "d \<in> set ?ds" "fd_key d \<in> set (map fst (concat parts))"
      using parsed_keys [OF t'] by (metis (no_types) imageE subsetD)
    then have "map_of out (fd_key d) \<noteq> None" by (auto simp: out map_of_eq_None_iff)
    moreover have "map_of ?again (fd_key d) \<noteq> None"
      using map_of_merged [of "fd_key d" "map fd_key ?ds" resent out] d(1) calculation
      by (auto simp: js_member_Some split: option.splits)
    moreover have "map_of ?again (fd_key d) = None" by (simp only: \<open>?again = []\<close> map_of.simps)
    ultimately show False by simp
  qed
  have valid: "validateCustomFieldValues iso_day ?ds ?again = Inr (concat parts)"
    unfolding validateCustomFieldValues_def t' bindE_Inr ensure_def if_P [OF merged_keys] by (rule refl)
  have unknown: "case resent of None \<Rightarrow> True | Some vs \<Rightarrow> \<forall>k\<in>set (map fst vs). k \<in> set (map fd_key ?ds)"
    using resent by auto
  have allowed: "case resent of None \<Rightarrow> True | Some vs \<Rightarrow> \<forall>def\<in>set ?ds. value_allowed vs out def"
    using resent js_member_filter [of _ "set (map fd_key ?ds)" out]
    by (auto simp: value_allowed_def split: option.split)
  show ?thesis
  proof (cases "?ds = []")
    case True
    then have "kept = out" using kept by simp
    then show ?thesis using True nonempty resent
      by (auto simp: resolveValuesForWrite_def stored_values_def Let_def)
  next
    case False
    have "resolveValuesForWrite iso_day defs companyId entityType resent (Some out) =
      (if ?again = [] \<and> kept = [] \<and> \<not> (\<exists>def\<in>set ?ds. fd_isRequired def) then Inr None
       else bindE (validateCustomFieldValues iso_day ?ds ?again) (\<lambda>v. Inr (Some (kept @ v))))"
      by (simp only: resolveValuesForWrite_def Let_def stored_values_def option.case kept [symmetric] False if_False
          ensure_def if_P [OF unknown] if_P [OF allowed] bindE_Inr)
    then show ?thesis using some_value valid out by (metis bindE_Inr)
  qed
qed

definition day_only :: "string \<Rightarrow> string option" where
  "day_only s = (if s = ''2024-02-29T10:00:00Z'' then Some ''2024-02-29'' else if iso_shaped s \<and> length s = 10 then Some s else None)"

lemma day_only_fixed: "day_fixed day_only"
proof -
  have "iso_shaped ''2024-02-29''" by code_simp
  then show ?thesis by (auto simp: day_fixed_def day_only_def split: if_splits)
qed

theorem saved_values_save_again_witness:
  "let f = \<lparr>fd_id = 1, fd_companyId = 7, fd_entityType = UNIT, fd_key = ''handover'', fd_label = ''Handover'',
              fd_fieldType = DATE, fd_options = None, fd_defaultValue = None, fd_isRequired = True,
              fd_allowsTwelveDigitValues = False, fd_sortOrder = 0, fd_isActive = True\<rparr>
   in resolveValuesForWrite day_only [f] 7 UNIT None (Some [(''handover'', CStr ''2024-02-29'')]) =
        Inr (Some [(''handover'', CStr ''2024-02-29'')])"
proof -
  let ?f = "\<lparr>fd_id = 1, fd_companyId = 7, fd_entityType = UNIT, fd_key = ''handover'', fd_label = ''Handover'',
              fd_fieldType = DATE, fd_options = None, fd_defaultValue = None, fd_isRequired = True,
              fd_allowsTwelveDigitValues = False, fd_sortOrder = 0, fd_isActive = True\<rparr>"
  have u: "unique_definitions [?f]" by (simp add: unique_definitions_def)
  have r: "resolveValuesForWrite day_only [?f] 7 UNIT (Some [(''handover'', CStr ''2024-02-29T10:00:00Z'')]) None =
        Inr (Some [(''handover'', CStr ''2024-02-29'')])" by code_simp
  have "iso_shaped ''2024-02-29''" by code_simp
  then have p: "plain_days (findActiveByEntity [?f] 7 UNIT) [(''handover'', CStr ''2024-02-29'')]"
    by (auto simp: plain_days_def)
  show ?thesis using saved_values_save_again [OF u day_only_fixed r p, of None] by simp
qed

text \<open>
  A date whose UTC year is beyond 9999 passes the check of its shape, is cut off after ten
  characters of \<open>+010000-01-01\<close> and locks the record: the stored value is refused ever after.
\<close>

lemma expanded_year_locks:
  "let f = \<lparr>fd_id = 1, fd_companyId = 7, fd_entityType = UNIT, fd_key = ''handover'', fd_label = ''Handover'',
              fd_fieldType = DATE, fd_options = None, fd_defaultValue = None, fd_isRequired = True,
              fd_allowsTwelveDigitValues = False, fd_sortOrder = 0, fd_isActive = True\<rparr>;
       day = (\<lambda>s. if s = ''9999-12-31T23:00:00-02:00'' then Some ''+010000-01'' else None)
   in resolveValuesForWrite day [f] 7 UNIT (Some [(''handover'', CStr ''9999-12-31T23:00:00-02:00'')]) None =
        Inr (Some [(''handover'', CStr ''+010000-01'')]) \<and>
      isl (resolveValuesForWrite day [f] 7 UNIT None (Some [(''handover'', CStr ''+010000-01'')]))"
  by code_simp

text \<open>
  A field named \<open>constructor\<close> is a legal key, and every object inherits a member of that name:
  a record that has no such value of its own can then not be written at all, even when the
  field is optional.
\<close>

lemma constructor_field_blocks_writes:
  assumes "def \<in> set (findActiveByEntity defs c e)" and "fd_key def = ''constructor''"
    and "map_of (stored_values stored) ''constructor'' = None"
    and "\<And>vs. incoming = Some vs \<Longrightarrow> map_of vs ''constructor'' = None"
  shows "isl (resolveValuesForWrite dy defs c e incoming stored)"
proof (rule ccontr)
  let ?ds = "findActiveByEntity defs c e"
  let ?merged = "concat (map (merged_entry incoming (stored_values stored)) (map fd_key ?ds))"
  assume "\<not> ?thesis"
  then obtain r where r: "resolveValuesForWrite dy defs c e incoming stored = Inr r" by (auto dest: not_isl_Inr)
  have "''constructor'' \<in> set (map fd_key ?ds)" using assms(1,2) by (metis imageI list.set_map)
  moreover have "js_member ''constructor'' (stored_values stored) = Some CFunction"
    and "Option.bind incoming (js_member ''constructor'') \<in> {None, Some CFunction}"
    using assms(3,4) by (cases incoming; simp add: js_member_def)+
  ultimately have mm: "map_of ?merged ''constructor'' = Some CFunction"
    using map_of_merged [of "''constructor''" "map fd_key ?ds" incoming "stored_values stored"] by auto
  then have m: "js_member ''constructor'' ?merged = Some CFunction" by (rule js_member_Some)
  from mm have "map_of ?merged ''constructor'' \<noteq> None" by simp
  then have "?merged \<noteq> []" by (metis map_of.simps(1))
  moreover have "?ds \<noteq> []" using assms(1) by auto
  ultimately obtain v where "validateCustomFieldValues dy ?ds ?merged = Inr v"
    using r by (auto simp: resolveValuesForWrite_def Let_def simp del: map_map split: if_splits)
  then obtain parts where "traverse (parse_field dy ?merged) ?ds = Inr parts"
    by (auto simp: validateCustomFieldValues_def)
  then have "schemaForType dy def CFunction \<noteq> None"
    using parsed_present [OF _ assms(1)] m assms(2) by fastforce
  then show False
    by (cases "fd_fieldType def") (simp_all add: schemaForType_def isoDateValue_def one_of_def Let_def split: if_splits)
qed

section \<open>Administration of the definitions\<close>

record create_field_dto =
  cfd_entityType :: field_entity
  cfd_key :: string
  cfd_label :: string
  cfd_fieldType :: field_type
  cfd_isRequired :: bool
  cfd_options :: "string list option"
  cfd_defaultValue :: "string option"
  cfd_allowsTwelveDigitValues :: bool
  cfd_sortOrder :: int

record update_field_dto =
  ufd_label :: "string option"
  ufd_isRequired :: "bool option"
  ufd_options :: "string list option"
  ufd_defaultValue :: "string option"
  ufd_allowsTwelveDigitValues :: "bool option"
  ufd_sortOrder :: "int option"

text \<open>A row of a table with a \<open>custom_fields\<close> column, and the audit entry of a purge.\<close>

record value_row =
  vr_entityType :: field_entity
  vr_id :: id
  vr_companyId :: id
  vr_customFields :: "cf_values option"

record purge_entry =
  pg_companyId :: id
  pg_userId :: id
  pg_entityId :: id
  pg_key :: string
  pg_entityType :: field_entity
  pg_label :: string
  pg_purgedValueRows :: nat

record field_db =
  next_field_id :: id
  field_definitions :: "field_definition list"
  value_rows :: "value_row list"
  purges :: "purge_entry list"

definition assertNoAadhaarKeyword :: "unicode \<Rightarrow> string \<Rightarrow> unit result" where
  "assertNoAadhaarKeyword u text =
     ensure (containsAadhaarKeyword u text = None) (BadRequest ''Custom field names and labels cannot refer to Aadhaar'')"

definition assertNoAadhaarLikeDefinitionValues :: "string list \<Rightarrow> string option \<Rightarrow> unit result" where
  "assertNoAadhaarLikeDefinitionValues options defaultValue =
     ensure (\<not> ((\<exists>s\<in>set options. isAadhaarLikeValue (StringValue s)) \<or>
                (case defaultValue of None \<Rightarrow> False | Some s \<Rightarrow> isAadhaarLikeValue (StringValue s))))
       (BadRequest ''an option or the default value looks like an Aadhaar number'')"

definition field_findOne :: "id \<Rightarrow> id \<Rightarrow> field_db \<Rightarrow> field_definition result" where
  "field_findOne companyId i d =
     orFail (NotFound ''Custom field not found'')
       (List.find (\<lambda>f. fd_id f = i \<and> fd_companyId f = companyId) (field_definitions d))"

definition field_create :: "unicode \<Rightarrow> id \<Rightarrow> create_field_dto \<Rightarrow> field_db \<Rightarrow> (field_definition \<times> field_db) result" where
  "field_create u companyId dto d =
     bindE (ensure (supportsCustomFieldValues (cfd_entityType dto)) (BadRequest ''Custom fields are not supported yet'')) (\<lambda>_.
     bindE (assertNoAadhaarKeyword u (cfd_key dto)) (\<lambda>_.
     bindE (assertNoAadhaarKeyword u (cfd_label dto)) (\<lambda>_.
     bindE (if cfd_allowsTwelveDigitValues dto then Inr ()
            else assertNoAadhaarLikeDefinitionValues
              (case cfd_options dto of None \<Rightarrow> [] | Some os \<Rightarrow> os) (cfd_defaultValue dto)) (\<lambda>_.
     bindE (ensure (\<not> (\<exists>f\<in>set (field_definitions d). fd_companyId f = companyId \<and>
              fd_entityType f = cfd_entityType dto \<and> fd_key f = cfd_key dto)) (BadRequest ''already exists'')) (\<lambda>_.
     bindE (ensure (\<not> (cfd_fieldType dto \<in> {SELECT, MULTI_SELECT} \<and> cfd_options dto \<in> {None, Some []}))
       (BadRequest ''SELECT/MULTI_SELECT fields require at least one option'')) (\<lambda>_.
     let f = \<lparr>fd_id = next_field_id d, fd_companyId = companyId, fd_entityType = cfd_entityType dto,
              fd_key = cfd_key dto, fd_label = cfd_label dto, fd_fieldType = cfd_fieldType dto,
              fd_options = cfd_options dto, fd_defaultValue = cfd_defaultValue dto,
              fd_isRequired = cfd_isRequired dto, fd_allowsTwelveDigitValues = cfd_allowsTwelveDigitValues dto,
              fd_sortOrder = cfd_sortOrder dto, fd_isActive = True\<rparr>
     in Inr (f, d\<lparr>next_field_id := next_field_id d + 1, field_definitions := field_definitions d @ [f]\<rparr>)))))))"

definition upd_field :: "id \<Rightarrow> (field_definition \<Rightarrow> field_definition) \<Rightarrow> field_db \<Rightarrow> field_db" where
  "upd_field i g d = d\<lparr>field_definitions := update_rows (\<lambda>f. fd_id f = i) g (field_definitions d)\<rparr>"

definition orKeep :: "'a option \<Rightarrow> 'a \<Rightarrow> 'a" where
  "orKeep v old = (case v of None \<Rightarrow> old | Some x \<Rightarrow> x)"

definition apply_field_dto :: "update_field_dto \<Rightarrow> field_definition \<Rightarrow> field_definition" where
  "apply_field_dto dto f =
     f\<lparr>fd_label := orKeep (ufd_label dto) (fd_label f),
       fd_isRequired := orKeep (ufd_isRequired dto) (fd_isRequired f),
       fd_options := (case ufd_options dto of None \<Rightarrow> fd_options f | Some os \<Rightarrow> Some os),
       fd_defaultValue := (case ufd_defaultValue dto of None \<Rightarrow> fd_defaultValue f | Some s \<Rightarrow> Some s),
       fd_allowsTwelveDigitValues := orKeep (ufd_allowsTwelveDigitValues dto) (fd_allowsTwelveDigitValues f),
       fd_sortOrder := orKeep (ufd_sortOrder dto) (fd_sortOrder f)\<rparr>"

definition field_update :: "unicode \<Rightarrow> id \<Rightarrow> id \<Rightarrow> update_field_dto \<Rightarrow> field_db \<Rightarrow> field_db result" where
  "field_update u companyId i dto d =
     bindE (field_findOne companyId i d) (\<lambda>existing.
     bindE (ensure (\<not> (ufd_options dto = Some [] \<and> fd_fieldType existing \<in> {SELECT, MULTI_SELECT}))
       (BadRequest ''SELECT/MULTI_SELECT fields require at least one option'')) (\<lambda>_.
     let label = orKeep (ufd_label dto) (fd_label existing)
     in bindE (if ufd_label dto \<noteq> None \<and> ufd_label dto \<noteq> Some (fd_label existing)
               then assertNoAadhaarKeyword u label else Inr ()) (\<lambda>_.
        bindE (if ufd_allowsTwelveDigitValues dto = Some True \<and> \<not> fd_allowsTwelveDigitValues existing
               then ensure (containsAadhaarKeyword u (fd_key existing) = None \<and> containsAadhaarKeyword u label = None)
                 (BadRequest ''A field that refers to Aadhaar cannot allow 12-digit values'') else Inr ()) (\<lambda>_.
        bindE (if \<not> orKeep (ufd_allowsTwelveDigitValues dto) (fd_allowsTwelveDigitValues existing)
               then assertNoAadhaarLikeDefinitionValues
                 (filter (\<lambda>os. os \<notin> set (case fd_options existing of None \<Rightarrow> [] | Some old \<Rightarrow> old))
                   (case ufd_options dto of None \<Rightarrow> [] | Some os \<Rightarrow> os))
                 (if ufd_defaultValue dto \<noteq> fd_defaultValue existing then ufd_defaultValue dto else None)
               else Inr ()) (\<lambda>_.
        Inr (upd_field i (apply_field_dto dto) d))))))"

definition field_remove :: "id \<Rightarrow> id \<Rightarrow> field_db \<Rightarrow> field_db result" where
  "field_remove companyId i d =
     bindE (field_findOne companyId i d) (\<lambda>_. Inr (upd_field i (\<lambda>f. f\<lparr>fd_isActive := False\<rparr>) d))"

text \<open>\<open>custom_fields ? key\<close> in the table of the entity.\<close>

definition holds_value :: "id \<Rightarrow> field_definition \<Rightarrow> value_row \<Rightarrow> bool" where
  "holds_value companyId def r \<longleftrightarrow>
     vr_companyId r = companyId \<and> vr_entityType r = fd_entityType def \<and>
     (case vr_customFields r of None \<Rightarrow> False | Some vs \<Rightarrow> fd_key def \<in> fst ` set vs)"

definition countValues :: "id \<Rightarrow> id \<Rightarrow> field_db \<Rightarrow> nat result" where
  "countValues companyId i d =
     bindE (field_findOne companyId i d) (\<lambda>def.
     Inr (if supportsCustomFieldValues (fd_entityType def) then length (filter (holds_value companyId def) (value_rows d)) else 0))"

definition strip_key :: "string \<Rightarrow> value_row \<Rightarrow> value_row" where
  "strip_key k r = r\<lparr>vr_customFields := map_option (filter (\<lambda>e. fst e \<noteq> k)) (vr_customFields r)\<rparr>"

definition purge :: "id \<Rightarrow> id \<Rightarrow> string \<Rightarrow> id \<Rightarrow> field_db \<Rightarrow> (nat \<times> field_db) result" where
  "purge companyId i confirmKey userId d =
     bindE (field_findOne companyId i d) (\<lambda>def.
     bindE (ensure (confirmKey = fd_key def) (BadRequest ''Confirmation does not match'')) (\<lambda>_.
     let table = supportsCustomFieldValues (fd_entityType def);
         affectedRows = (if table then length (filter (holds_value companyId def) (value_rows d)) else 0);
         rows = (if table then update_rows (holds_value companyId def) (strip_key (fd_key def)) (value_rows d) else value_rows d)
     in Inr (affectedRows,
          d\<lparr>value_rows := rows,
            field_definitions := filter (\<lambda>f. fd_id f \<noteq> i) (field_definitions d),
            purges := purges d @ [\<lparr>pg_companyId = companyId, pg_userId = userId, pg_entityId = i, pg_key = fd_key def,
              pg_entityType = fd_entityType def, pg_label = fd_label def, pg_purgedValueRows = affectedRows\<rparr>]\<rparr>)))"

inductive field_step :: "unicode \<Rightarrow> field_db \<Rightarrow> field_db \<Rightarrow> bool" for u where
  create: "field_create u c dto d = Inr (f, d') \<Longrightarrow> field_step u d d'"
| update: "field_update u c i udto d = Inr d' \<Longrightarrow> field_step u d d'"
| remove: "field_remove c i d = Inr d' \<Longrightarrow> field_step u d d'"
| purge: "purge c i k usr d = Inr (n, d') \<Longrightarrow> field_step u d d'"

definition usable :: "field_definition \<Rightarrow> bool" where
  "usable f \<longleftrightarrow> supportsCustomFieldValues (fd_entityType f) \<and>
     (fd_fieldType f \<in> {SELECT, MULTI_SELECT} \<longrightarrow> (\<exists>os. fd_options f = Some os \<and> os \<noteq> []))"

definition fields_ok :: "field_definition list \<Rightarrow> bool" where
  "fields_ok fs \<longleftrightarrow> unique_definitions fs \<and> (\<forall>f\<in>set fs. usable f)"

lemma update_rows_keys:
  assumes "\<And>f. k (g f) = k f"
  shows "map k (update_rows p g fs) = map k fs"
  by (induction fs) (auto simp: update_rows_def assms)

lemma update_rows_all:
  assumes "\<forall>f\<in>set fs. Q f" and "\<And>f. f \<in> set fs \<Longrightarrow> p f \<Longrightarrow> Q f \<Longrightarrow> Q (g f)"
  shows "\<forall>f\<in>set (update_rows p g fs). Q f"
  using assms by (auto simp: update_rows_def)

lemma unique_keys_same:
  "map (\<lambda>f. (fd_companyId f, fd_entityType f, fd_key f)) fs = map (\<lambda>f. (fd_companyId f, fd_entityType f, fd_key f)) gs \<Longrightarrow>
     unique_definitions fs = unique_definitions gs"
  by (simp add: unique_definitions_def)

lemma field_findOne_found:
  "field_findOne c i d = Inr f \<Longrightarrow> f \<in> set (field_definitions d) \<and> fd_id f = i \<and> fd_companyId f = c"
  by (auto simp: field_findOne_def find_Some_iff)

text \<open>
  The definitions of custom fields stay usable whatever the administrators do: no two of
  a company and entity share a key, each belongs to an entity that stores values, and a
  selection always has an option to select.
\<close>

lemma definitions_stay_usable:
  assumes "field_step u d d'" and "fields_ok (field_definitions d)"
    and "distinct (map fd_id (field_definitions d))"
  shows "fields_ok (field_definitions d')"
  using assms
proof (induction rule: field_step.induct)
  case (create c dto d f d')
  then have f: "field_definitions d' = field_definitions d @ [f]" "usable f"
    "\<forall>g\<in>set (field_definitions d). (fd_companyId g, fd_entityType g, fd_key g) \<noteq> (fd_companyId f, fd_entityType f, fd_key f)"
    by (auto simp: field_create_def usable_def Let_def)
  then have "unique_definitions (field_definitions d')"
    using create.prems(1) by (fastforce simp: fields_ok_def unique_definitions_def)
  then show ?case using f create.prems(1) by (auto simp: fields_ok_def)
next
  case (update c i dto d d')
  then obtain f where f: "field_findOne c i d = Inr f"
    "\<not> (ufd_options dto = Some [] \<and> fd_fieldType f \<in> {SELECT, MULTI_SELECT})"
    "d' = upd_field i (apply_field_dto dto) d"
    by (auto simp: field_update_def Let_def)
  have keys: "unique_definitions (field_definitions d') = unique_definitions (field_definitions d)"
    by (rule unique_keys_same) (simp add: f(3) upd_field_def update_rows_keys apply_field_dto_def)
  have only: "x = f" if "x \<in> set (field_definitions d)" "fd_id x = i" for x
    using that field_findOne_found [OF f(1)] update.prems(2) by (auto simp: distinct_map dest: inj_onD)
  have "\<forall>x\<in>set (field_definitions d'). usable x"
    unfolding f(3) upd_field_def
    using update.prems(1) only f(2)
    by (simp, intro update_rows_all) (auto simp: fields_ok_def usable_def apply_field_dto_def split: option.splits)
  then show ?case using keys update.prems(1) by (simp add: fields_ok_def)
next
  case (remove c i d d')
  have d': "field_definitions d' = update_rows (\<lambda>f. fd_id f = i) (\<lambda>f. f\<lparr>fd_isActive := False\<rparr>) (field_definitions d)"
    using remove.hyps by (auto simp: field_remove_def upd_field_def)
  have "unique_definitions (field_definitions d') = unique_definitions (field_definitions d)"
    by (rule unique_keys_same) (simp add: d' update_rows_keys)
  moreover have "\<forall>x\<in>set (field_definitions d'). usable x"
    unfolding d' using remove.prems(1) by (intro update_rows_all) (auto simp: fields_ok_def usable_def)
  ultimately show ?case using remove.prems(1) by (simp add: fields_ok_def)
next
  case (purge c i k usr d n d')
  then show ?case
    by (auto simp: purge_def fields_ok_def unique_definitions_def Let_def distinct_map inj_on_def)
qed

text \<open>A purge removes the key from exactly the rows it counts, and nothing else from any row.\<close>

lemma strip_key_lookup:
  "map_option (\<lambda>vs. map_of vs k') (vr_customFields (strip_key k r)) =
     map_option (\<lambda>vs. if k' = k then None else map_of vs k') (vr_customFields r)"
  by (cases "vr_customFields r") (simp_all add: strip_key_def map_of_filter_out [of "{k}", simplified])

lemma purge_leaves_none:
  assumes "purge c i k usr d = Inr (n, d')"
  obtains def where "field_findOne c i d = Inr def" "countValues c i d = Inr n"
    "supportsCustomFieldValues (fd_entityType def) \<Longrightarrow> \<forall>r\<in>set (value_rows d'). \<not> holds_value c def r"
    "filter (\<lambda>r. vr_companyId r \<noteq> c) (value_rows d') = filter (\<lambda>r. vr_companyId r \<noteq> c) (value_rows d)"
proof -
  obtain def where def: "field_findOne c i d = Inr def" "countValues c i d = Inr n"
    and rows: "value_rows d' = (if supportsCustomFieldValues (fd_entityType def)
       then update_rows (holds_value c def) (strip_key (fd_key def)) (value_rows d) else value_rows d)"
    using assms by (auto simp: purge_def countValues_def Let_def)
  have "filter (\<lambda>r. vr_companyId r \<noteq> c) (update_rows (holds_value c def) (strip_key (fd_key def)) rs) =
      filter (\<lambda>r. vr_companyId r \<noteq> c) rs" for rs
    by (induction rs) (auto simp: update_rows_def holds_value_def strip_key_def)
  moreover have "\<not> holds_value c def (strip_key (fd_key def) r)" for r
    by (cases "vr_customFields r") (auto simp: holds_value_def strip_key_def)
  ultimately have "filter (\<lambda>r. vr_companyId r \<noteq> c) (value_rows d') = filter (\<lambda>r. vr_companyId r \<noteq> c) (value_rows d)"
    and "supportsCustomFieldValues (fd_entityType def) \<Longrightarrow> \<forall>r\<in>set (value_rows d'). \<not> holds_value c def r"
    by (auto simp: rows update_rows_def)
  then show ?thesis using that def by blast
qed

text \<open>A field that was removed cannot be brought back: no update activates it and its key stays taken.\<close>

lemma removed_field_stays:
  assumes "field_findOne c i d = Inr f" and "field_remove c i d = Inr d'"
    and "cfd_key dto = fd_key f" and "cfd_entityType dto = fd_entityType f"
  shows "isl (field_create u c dto d')"
proof -
  have "f \<in> set (field_definitions d)" "fd_id f = i" "fd_companyId f = c"
    using field_findOne_found [OF assms(1)] by auto
  then have "f\<lparr>fd_isActive := False\<rparr> \<in> set (field_definitions d')"
    using assms(2) by (force simp: field_remove_def upd_field_def update_rows_def)
  then have "\<exists>g\<in>set (field_definitions d'). fd_companyId g = c \<and> fd_entityType g = cfd_entityType dto \<and> fd_key g = cfd_key dto"
    using assms(3,4) \<open>fd_companyId f = c\<close> by (intro bexI [of _ "f\<lparr>fd_isActive := False\<rparr>"]) simp_all
  then have "\<not> (\<exists>x. field_create u c dto d' = Inr x)" by (auto simp: field_create_def)
  then show ?thesis by (metis not_isl_Inr)
qed

end
