(* ===== verification/PresalesRows.thy ===== *)
theory PresalesRows
  imports CustomFields AuthRows "HOL-Library.Sublist"
begin

text \<open>
  The tables of presales (\<open>packages/db/prisma/schema.prisma\<close>) and the pure functions of
  \<open>packages/shared/src/presales.ts\<close>: normalised phone numbers, the ageing of a lead, and when
  an overdue follow-up is escalated. Times are integers; \<open>createdAt\<close> columns whose only use is
  an ordering are the order of the list.
\<close>

section \<open>Rows\<close>

datatype inquiry_status = OPEN | CONTINUED | DUMPED | SUCCESSFUL

datatype channel = EMAIL | SMS

datatype send_status = QUEUED | SENT | FAILED

datatype follow_up_outcome = COMPLETED | NO_RESPONSE | RESCHEDULED | NOT_INTERESTED | CONVERTED

record lead_applicant =
  lap_id :: id
  lap_companyId :: id
  lap_name :: string
  lap_primaryPhone :: string
  lap_primaryPhoneNormalized :: string
  lap_alternatePhones :: "string list"
  lap_email :: "string option"
  lap_emailNormalized :: "string option"
  lap_addressLine1 :: "string option"
  lap_city :: "string option"
  lap_state :: "string option"
  lap_pincode :: "string option"
  lap_customFields :: "cf_values option"
  lap_panCiphertext :: "string option"
  lap_panMasked :: "string option"
  lap_mergedIntoId :: "id option"

record consent =
  cns_companyId :: id
  cns_applicantId :: id
  cns_given :: bool
  cns_source :: "string option"
  cns_actorId :: "id option"
  cns_createdAt :: int

record applicant_merge =
  mrg_companyId :: id
  mrg_survivorId :: id
  mrg_mergedId :: id
  mrg_mergedById :: "id option"

record distinct_pair =
  dst_companyId :: id
  dst_applicantAId :: id
  dst_applicantBId :: id
  dst_decidedById :: "id option"

record lead_stage =
  stg_id :: id
  stg_companyId :: id
  stg_name :: string
  stg_sortOrder :: int
  stg_isActive :: bool
  stg_isDefault :: bool

record inquiry =
  inq_id :: id
  inq_companyId :: id
  inq_applicantId :: id
  inq_projectId :: "id option"
  inq_sourceId :: "id option"
  inq_inquiryTypeId :: "id option"
  inq_budgetMinPaise :: "int option"
  inq_budgetMaxPaise :: "int option"
  inq_preferredUnitTypeId :: "id option"
  inq_temperatureId :: "id option"
  inq_stageId :: "id option"
  inq_assignedToId :: "id option"
  inq_createdById :: "id option"
  inq_status :: inquiry_status
  inq_convertedAt :: "int option"
  inq_nextFollowupAt :: "int option"
  inq_lastEscalatedAt :: "int option"
  inq_customFields :: "cf_values option"

record inquiry_assignment =
  asg_companyId :: id
  asg_inquiryId :: id
  asg_fromUserId :: "id option"
  asg_toUserId :: id
  asg_assignmentType :: string
  asg_actorId :: "id option"
  asg_reason :: "string option"

record stage_history =
  sth_companyId :: id
  sth_inquiryId :: id
  sth_fromStageId :: "id option"
  sth_toStageId :: id
  sth_changedById :: "id option"
  sth_isAdministrative :: bool

record dump_reason =
  drs_id :: id
  drs_companyId :: id
  drs_name :: string

record disposition_history =
  dsp_companyId :: id
  dsp_inquiryId :: id
  dsp_fromStatus :: "inquiry_status option"
  dsp_toStatus :: inquiry_status
  dsp_reasonId :: "id option"
  dsp_remarks :: "string option"
  dsp_changedById :: "id option"

record pool_member =
  pol_id :: id
  pol_companyId :: id
  pol_projectId :: id
  pol_userId :: id
  pol_isActive :: bool
  pol_pausedReason :: "string option"
  pol_lastAssignedAt :: "int option"
  pol_sortOrder :: int

record follow_up =
  fup_id :: id
  fup_companyId :: id
  fup_inquiryId :: id
  fup_typeId :: "id option"
  fup_notes :: "string option"
  fup_outcome :: "follow_up_outcome option"
  fup_interactionAt :: int
  fup_nextActionAt :: "int option"
  fup_scheduledAt :: "int option"
  fup_venue :: "string option"
  fup_createdById :: "id option"

record communication =
  com_id :: id
  com_companyId :: id
  com_inquiryId :: "id option"
  com_applicantId :: id
  com_channel :: channel
  com_toAddress :: string
  com_subject :: "string option"
  com_body :: string
  com_status :: send_status
  com_providerMessageId :: "string option"
  com_errorMessage :: "string option"
  com_sentAt :: "int option"
  com_createdById :: "id option"

text \<open>The columns presales reads of the company's settings, of a booking and of the master tables.\<close>

record presales_config =
  pcf_companyId :: id
  pcf_creatorRetainsLead :: bool
  pcf_phoneDedupAutoLink :: bool

record linked_booking =
  lbk_id :: id
  lbk_companyId :: id
  lbk_bookingNumber :: string
  lbk_sourceInquiryId :: "id option"

datatype master_table = Projects | InquirySources | InquiryTypes | UnitTypes | Temperatures | FollowUpTypes

text \<open>\<open>mst_name\<close> is the name, for a project its code.\<close>

record master_row =
  mst_table :: master_table
  mst_id :: id
  mst_companyId :: id
  mst_name :: string

record presales_db =
  next_presales_id :: id
  accounts :: auth_db
  configs :: "presales_config list"
  masterRows :: "master_row list"
  fieldDefs :: "field_definition list"
  dumpReasons :: "dump_reason list"
  people :: "lead_applicant list"
  consents :: "consent list"
  merges :: "applicant_merge list"
  distinctPairs :: "distinct_pair list"
  stages :: "lead_stage list"
  inquiries :: "inquiry list"
  inquiryAssignments :: "inquiry_assignment list"
  stageHistory :: "stage_history list"
  dispositionHistory :: "disposition_history list"
  pool :: "pool_member list"
  followUps :: "follow_up list"
  communications :: "communication list"
  linkedBookings :: "linked_booking list"
  sendJobs :: "(id \<times> id) list"

definition find_person :: "id \<Rightarrow> id \<Rightarrow> presales_db \<Rightarrow> lead_applicant option" where
  "find_person companyId i d = List.find (\<lambda>a. lap_id a = i \<and> lap_companyId a = companyId) (people d)"

definition find_inquiry :: "id \<Rightarrow> id \<Rightarrow> presales_db \<Rightarrow> inquiry option" where
  "find_inquiry companyId i d = List.find (\<lambda>q. inq_id q = i \<and> inq_companyId q = companyId) (inquiries d)"

definition find_stage :: "id \<Rightarrow> id \<Rightarrow> presales_db \<Rightarrow> lead_stage option" where
  "find_stage companyId i d = List.find (\<lambda>s. stg_id s = i \<and> stg_companyId s = companyId) (stages d)"

definition upd_inquiry :: "id \<Rightarrow> (inquiry \<Rightarrow> inquiry) \<Rightarrow> presales_db \<Rightarrow> presales_db" where
  "upd_inquiry i f d = d\<lparr>inquiries := update_rows (\<lambda>q. inq_id q = i) f (inquiries d)\<rparr>"

definition upd_person :: "id \<Rightarrow> (lead_applicant \<Rightarrow> lead_applicant) \<Rightarrow> presales_db \<Rightarrow> presales_db" where
  "upd_person i f d = d\<lparr>people := update_rows (\<lambda>a. lap_id a = i) f (people d)\<rparr>"

text \<open>A foreign key column: null, or the id of a row of the table, whatever its company.\<close>

definition ref_ok :: "master_table \<Rightarrow> id option \<Rightarrow> presales_db \<Rightarrow> bool" where
  "ref_ok t v d \<longleftrightarrow> (case v of None \<Rightarrow> True | Some i \<Rightarrow> \<exists>m\<in>set (masterRows d). mst_table m = t \<and> mst_id m = i)"

section \<open>Phones and email addresses\<close>

definition normalizePhone :: "string \<Rightarrow> string" where
  "normalizePhone raw =
     (let trimmed = trim raw;
          digits = filter is_digit trimmed;
          digits = (if length digits = 12 \<and> take 2 digits = ''91'' then drop 2 digits
                    else if length digits = 11 \<and> take 1 digits = ''0'' then drop 1 digits
                    else digits)
      in if length digits = 10 \<and> hd digits \<in> {CHR ''6'', CHR ''7'', CHR ''8'', CHR ''9''} then digits else trimmed)"

definition lower_char :: "char \<Rightarrow> char" where
  "lower_char c = (if 65 \<le> (of_char c :: nat) \<and> (of_char c :: nat) \<le> 90 then char_of (of_char c + 32 :: nat) else c)"

definition normalizeEmail :: "string \<Rightarrow> string" where
  "normalizeEmail raw = map lower_char (trim raw)"

text \<open>\<open>email ? normalizeEmail(email) : null\<close>\<close>

definition email_key :: "string option \<Rightarrow> string option" where
  "email_key v = (case v of None \<Rightarrow> None | Some t \<Rightarrow> if t = [] then None else Some (normalizeEmail t))"

definition orderApplicantPair :: "id \<Rightarrow> id \<Rightarrow> id \<times> id" where
  "orderApplicantPair x y = (if x < y then (x, y) else (y, x))"

section \<open>Ageing and escalation\<close>

datatype ageing_bucket = Days0to7 | Days8to30 | Days31to90 | Over90

definition computeAgeingBucket :: "int \<Rightarrow> int \<Rightarrow> ageing_bucket" where
  "computeAgeingBucket createdAt now =
     (let ageDays = (now - createdAt) div 86400000
      in if ageDays \<le> 7 then Days0to7 else if ageDays \<le> 30 then Days8to30
         else if ageDays \<le> 90 then Days31to90 else Over90)"

definition isFollowUpOverdue :: "int option \<Rightarrow> int \<Rightarrow> bool" where
  "isFollowUpOverdue nextFollowupAt now \<longleftrightarrow> (case nextFollowupAt of None \<Rightarrow> False | Some t \<Rightarrow> t < now)"

definition isEscalationEligible :: "int option \<Rightarrow> int option \<Rightarrow> int \<Rightarrow> bool" where
  "isEscalationEligible nextFollowupAt lastEscalatedAt now \<longleftrightarrow>
     isFollowUpOverdue nextFollowupAt now \<and>
     (case lastEscalatedAt of None \<Rightarrow> True | Some e \<Rightarrow> e < the nextFollowupAt)"

definition ACTIVE_INQUIRY_STATUSES :: "inquiry_status list" where
  "ACTIVE_INQUIRY_STATUSES = [OPEN, CONTINUED]"

text \<open>The buckets in the order of age.\<close>

instantiation ageing_bucket :: linorder
begin

definition bucket_rank :: "ageing_bucket \<Rightarrow> nat" where
  "bucket_rank b = (case b of Days0to7 \<Rightarrow> 0 | Days8to30 \<Rightarrow> 1 | Days31to90 \<Rightarrow> 2 | Over90 \<Rightarrow> 3)"

definition less_eq_ageing_bucket :: "ageing_bucket \<Rightarrow> ageing_bucket \<Rightarrow> bool" where
  "less_eq_ageing_bucket a b \<longleftrightarrow> bucket_rank a \<le> bucket_rank b"

definition less_ageing_bucket :: "ageing_bucket \<Rightarrow> ageing_bucket \<Rightarrow> bool" where
  "less_ageing_bucket a b \<longleftrightarrow> bucket_rank a < bucket_rank b"

instance
  by standard (auto simp: less_eq_ageing_bucket_def less_ageing_bucket_def bucket_rank_def split: ageing_bucket.splits)

end

text \<open>A lead only moves on to older buckets.\<close>

lemma ageing_monotone:
  assumes "now \<le> now'"
  shows "computeAgeingBucket createdAt now \<le> computeAgeingBucket createdAt now'"
proof -
  have "(now - createdAt) div 86400000 \<le> (now' - createdAt) div 86400000"
    using assms by (intro zdiv_mono1) simp_all
  then show ?thesis
    by (auto simp: computeAgeingBucket_def Let_def less_eq_ageing_bucket_def bucket_rank_def)
qed

text \<open>Once escalated at \<open>now\<close>, a follow-up date is not escalated again, at any later time.\<close>

lemma escalated_once:
  "isEscalationEligible f e now \<Longrightarrow> now \<le> now' \<Longrightarrow> \<not> isEscalationEligible f (Some now) now'"
  by (auto simp: isEscalationEligible_def isFollowUpOverdue_def split: option.splits)

text \<open>Spellings of one Indian mobile number.\<close>

definition mobile :: "string \<Rightarrow> bool" where
  "mobile n \<longleftrightarrow> length n = 10 \<and> list_all is_digit n \<and> hd n \<in> {CHR ''6'', CHR ''7'', CHR ''8'', CHR ''9''}"

lemma is_space_not_digit: "is_space c \<Longrightarrow> \<not> is_digit c"
  by (auto simp: is_space_def is_digit_def)

lemma filter_digit_trim: "filter is_digit (trim s) = filter is_digit s"
proof -
  have drop: "filter is_digit (dropWhile is_space t) = filter is_digit t" for t
    by (induction t) (auto simp: is_space_not_digit)
  show ?thesis by (simp add: trim_def rev_filter [symmetric] drop)
qed

text \<open>However a mobile number is punctuated and prefixed, it is stored as its ten digits.\<close>

lemma normalizePhone_spellings:
  assumes "mobile n" and "filter is_digit raw \<in> {n, ''0'' @ n, ''91'' @ n}"
  shows "normalizePhone raw = n"
  using assms by (auto simp: normalizePhone_def filter_digit_trim mobile_def Let_def)

lemma normalizePhone_cases: "normalizePhone raw = trim raw \<or> mobile (normalizePhone raw)"
proof -
  let ?ds = "filter is_digit (trim raw)"
  have "list_all is_digit (drop k ?ds)" for k
    by (auto simp: list_all_iff dest: in_set_dropD)
  then have "list_all is_digit (drop 2 ?ds)" "list_all is_digit (drop 1 ?ds)" "list_all is_digit ?ds"
    using drop_0 [of ?ds] by metis+
  then show ?thesis unfolding normalizePhone_def mobile_def Let_def by auto
qed

lemma dropWhile_idem: "dropWhile p (dropWhile p s) = dropWhile p s"
  by (induction s) auto

lemma trim_trim: "trim (trim s) = trim s"
proof -
  let ?a = "dropWhile is_space s"
  let ?b = "rev (dropWhile is_space (rev ?a))"
  have "dropWhile is_space ?b = ?b"
  proof (cases ?b)
    case (Cons c cs)
    have "prefix ?b ?a"
      by (metis append_take_drop_id dropWhile_eq_drop rev_append rev_rev_ident prefixI)
    then have "hd ?a = c" using Cons by (metis hd_append2 list.sel(1) prefix_def list.distinct(1))
    moreover have "?a \<noteq> []" using Cons by (metis dropWhile.simps(1) list.distinct(1) rev.simps(1))
    ultimately have "\<not> is_space c" by (metis hd_dropWhile)
    then show ?thesis using Cons by simp
  next
    case Nil
    then show ?thesis by (simp only: dropWhile.simps)
  qed
  then show ?thesis by (simp add: trim_def dropWhile_idem)
qed

lemma normalizePhone_idempotent: "normalizePhone (normalizePhone raw) = normalizePhone raw"
proof (cases "normalizePhone raw = trim raw")
  case True
  then have "normalizePhone (trim raw) = normalizePhone raw"
    by (simp add: normalizePhone_def trim_trim)
  then show ?thesis using True by simp
next
  case False
  then have m: "mobile (normalizePhone raw)" using normalizePhone_cases by blast
  then show ?thesis by (intro normalizePhone_spellings) (auto simp: mobile_def list_all_iff)
qed

end
