(* ===== verification/Assignment.thy ===== *)
theory Assignment
  imports PresalesRows Permissions "HOL-Library.Option_ord" "HOL-Library.Product_Lexorder"
    "HOL-Library.Multiset"
begin

text \<open>
  Who gets a lead and who sees it: the round-robin pools of
  \<open>apps/api/src/presales/assignment.service.ts\<close> and the reporting subtrees of
  \<open>apps/api/src/team-scope/team-scope.service.ts\<close>.
\<close>

section \<open>The assignment pool\<close>

definition AUTO_ASSIGN_MAX_RETRIES :: nat where
  "AUTO_ASSIGN_MAX_RETRIES = 3"

text \<open>\<open>ORDER BY last_assigned_at ASC NULLS FIRST, sort_order ASC\<close>; ties in the order of the rows.\<close>

definition pool_turn :: "pool_member \<Rightarrow> int option \<times> int" where
  "pool_turn r = (pol_lastAssignedAt r, pol_sortOrder r)"

definition active_pool :: "id \<Rightarrow> id \<Rightarrow> presales_db \<Rightarrow> pool_member list" where
  "active_pool companyId projectId d =
     filter (\<lambda>r. pol_companyId r = companyId \<and> pol_projectId r = projectId \<and> pol_isActive r) (pool d)"

definition upd_pool :: "id \<Rightarrow> (pool_member \<Rightarrow> pool_member) \<Rightarrow> presales_db \<Rightarrow> presales_db" where
  "upd_pool i f d = d\<lparr>pool := update_rows (\<lambda>r. pol_id r = i) f (pool d)\<rparr>"

text \<open>
  The attempts; \<open>locked k\<close> are the rows another transaction holds while \<open>k\<close> retries are left,
  and \<open>now\<close> is the database's clock.
\<close>

fun claim_loop :: "(nat \<Rightarrow> id list) \<Rightarrow> int \<Rightarrow> id \<Rightarrow> id \<Rightarrow> nat \<Rightarrow> presales_db \<Rightarrow> id option \<times> presales_db" where
  "claim_loop locked now companyId projectId retries d =
     (case sort_key pool_turn (filter (\<lambda>r. pol_id r \<notin> set (locked retries)) (active_pool companyId projectId d)) of
        picked # _ \<Rightarrow>
          (Some (pol_userId picked), upd_pool (pol_id picked) (\<lambda>r. r\<lparr>pol_lastAssignedAt := Some now\<rparr>) d)
      | [] \<Rightarrow> (case retries of 0 \<Rightarrow> (None, d) | Suc k \<Rightarrow> claim_loop locked now companyId projectId k d))"

declare claim_loop.simps [simp del]

definition autoAssign :: "(nat \<Rightarrow> id list) \<Rightarrow> int \<Rightarrow> id \<Rightarrow> id \<Rightarrow> presales_db \<Rightarrow> id option \<times> presales_db" where
  "autoAssign locked now companyId projectId d =
     (if length (active_pool companyId projectId d) = 0 then (None, d)
      else claim_loop locked now companyId projectId AUTO_ASSIGN_MAX_RETRIES d)"

record pool_dto =
  pld_isActive :: bool
  pld_pausedReason :: "string option"

definition setMembership ::
  "int \<Rightarrow> id \<Rightarrow> id \<Rightarrow> id \<Rightarrow> pool_dto \<Rightarrow> presales_db \<Rightarrow> presales_db result" where
  "setMembership now companyId projectId userId dto d =
     (case List.find (\<lambda>r. pol_companyId r = companyId \<and> pol_projectId r = projectId \<and> pol_userId r = userId) (pool d) of
        Some existing \<Rightarrow>
          let reactivating = (\<not> pol_isActive existing \<and> pld_isActive dto)
          in Inr (upd_pool (pol_id existing) (\<lambda>r. r\<lparr>pol_isActive := pld_isActive dto,
               pol_pausedReason := (if pld_isActive dto then None else pld_pausedReason dto),
               pol_lastAssignedAt := (if reactivating then Some now else pol_lastAssignedAt existing)\<rparr>) d)
      | None \<Rightarrow>
          bindE (ensure (\<not> (\<exists>r\<in>set (pool d). pol_projectId r = projectId \<and> pol_userId r = userId)) UniqueViolation) (\<lambda>_.
          bindE (ensure (ref_ok Projects (Some projectId) d \<and> find_user (accounts d) userId \<noteq> None) ForeignKeyViolation) (\<lambda>_.
          Inr (d\<lparr>next_presales_id := next_presales_id d + 1,
                 pool := pool d @ [\<lparr>pol_id = next_presales_id d, pol_companyId = companyId, pol_projectId = projectId,
                   pol_userId = userId, pol_isActive = pld_isActive dto,
                   pol_pausedReason = (if pld_isActive dto then None else pld_pausedReason dto),
                   pol_lastAssignedAt = None, pol_sortOrder = 0\<rparr>]\<rparr>))))"

section \<open>Round robin\<close>

text \<open>
  The pool of a project as a queue of users. Without contention a claim takes the head and
  puts it at the back, so the leads go round.
\<close>

definition pool_queue :: "id \<Rightarrow> id \<Rightarrow> presales_db \<Rightarrow> id list" where
  "pool_queue companyId projectId d = map pol_userId (sort_key pool_turn (active_pool companyId projectId d))"

text \<open>The clock is past every assignment that is recorded, and ids are keys.\<close>

definition pool_before :: "int \<Rightarrow> presales_db \<Rightarrow> bool" where
  "pool_before now d \<longleftrightarrow> distinct (map pol_id (pool d)) \<and> (\<forall>r\<in>set (pool d). pol_lastAssignedAt r < Some now)"

text \<open>When the first of a stable sort gets the largest key, it moves to the end.\<close>

lemma sort_key_turn:
  assumes first: "sort_key f (a @ p # b) = p # rest" and "p \<notin> set a"
    and last: "\<And>y. y \<in> set (a @ b) \<Longrightarrow> f y < f p'"
  shows "sort_key f (a @ p' # b) = rest @ [p']"
proof (rule properties_for_sort_key)
  have m: "mset rest = mset (a @ b)"
    using arg_cong [OF first, of mset] by simp
  then show "mset (rest @ [p']) = mset (a @ p' # b)" by simp
  have rest: "set rest = set (a @ b)" using m by (metis mset_eq_setD)
  have "sorted (map f (p # rest))" using sorted_sort_key [of f "a @ p # b"] first by simp
  then show "sorted (map f (rest @ [p']))"
    using last rest by (auto simp: sorted_append intro: less_imp_le)
  fix k assume k: "k \<in> set (rest @ [p'])"
  have stable: "filter (\<lambda>x. f k = f x) (p # rest) = filter (\<lambda>x. f k = f x) (a @ p # b)"
    using sort_key_stable [of f "f k" "a @ p # b"] by (simp add: first eq_commute [of "f k"])
  show "filter (\<lambda>x. f k = f x) (rest @ [p']) = filter (\<lambda>x. f k = f x) (a @ p' # b)"
  proof (cases "f k = f p'")
    case True
    moreover have "\<forall>y\<in>set (a @ b). f y \<noteq> f p'" using last by (metis less_irrefl)
    ultimately have "filter (\<lambda>x. f k = f x) a = []" "filter (\<lambda>x. f k = f x) b = []" "filter (\<lambda>x. f k = f x) rest = []"
      using rest by (auto simp: filter_empty_conv)
    then show ?thesis using True by simp
  next
    case False
    have "filter (\<lambda>x. f k = f x) rest = filter (\<lambda>x. f k = f x) (a @ b)"
    proof (cases "f k = f p")
      case True
      then have "p # filter (\<lambda>x. f k = f x) rest = filter (\<lambda>x. f k = f x) a @ p # filter (\<lambda>x. f k = f x) b"
        using stable by simp
      moreover from this have "filter (\<lambda>x. f k = f x) a = []"
        using \<open>p \<notin> set a\<close> by (cases "filter (\<lambda>x. f k = f x) a") (auto simp: filter_eq_Cons_iff)
      ultimately show ?thesis by simp
    qed (use stable in simp)
    then show ?thesis using False by simp
  qed
qed

lemma active_pool_upd:
  assumes "distinct (map pol_id (pool d))" and "active_pool c p d = a @ r # b"
  shows "active_pool c p (upd_pool (pol_id r) (\<lambda>r. r\<lparr>pol_lastAssignedAt := v\<rparr>) d) = a @ r\<lparr>pol_lastAssignedAt := v\<rparr> # b"
proof -
  let ?f = "\<lambda>x. if pol_id x = pol_id r then x\<lparr>pol_lastAssignedAt := v\<rparr> else x"
  have "active_pool c p (upd_pool (pol_id r) (\<lambda>r. r\<lparr>pol_lastAssignedAt := v\<rparr>) d) = map ?f (active_pool c p d)"
    by (simp add: active_pool_def upd_pool_def update_rows_def filter_map o_def if_distrib if_distribR cong: if_cong)
  moreover have "distinct (map pol_id (a @ r # b))"
    using assms distinct_map_filter unfolding active_pool_def by metis
  then have "\<And>x. x \<in> set (a @ b) \<Longrightarrow> pol_id x \<noteq> pol_id r" by (auto simp: rev_image_eqI)
  then have "map ?f a = a" "map ?f b = b" by (auto intro!: map_idI)
  ultimately show ?thesis using assms(2) by simp
qed

lemma active_pool_subset: "set (active_pool c p d) \<subseteq> set (pool d)"
  by (auto simp: active_pool_def)

lemma claim_uncontended:
  assumes "pool_before now d" and "active_pool c p d \<noteq> []"
  obtains r rest where "sort_key pool_turn (active_pool c p d) = r # rest"
    "autoAssign (\<lambda>k. []) now c p d =
       (Some (pol_userId r), upd_pool (pol_id r) (\<lambda>x. x\<lparr>pol_lastAssignedAt := Some now\<rparr>) d)"
    "r \<in> set (active_pool c p d)"
    "sort_key pool_turn (active_pool c p (upd_pool (pol_id r) (\<lambda>x. x\<lparr>pol_lastAssignedAt := Some now\<rparr>) d)) =
       rest @ [r\<lparr>pol_lastAssignedAt := Some now\<rparr>]"
proof -
  let ?as = "active_pool c p d"
  obtain r rest where s: "sort_key pool_turn ?as = r # rest"
    using assms(2) by (metis list.exhaust list.size(3) length_0_conv length_sort)
  then have r: "r \<in> set ?as" by (metis list.set_intros(1) set_sort)
  then obtain a b where ab: "?as = a @ r # b" by (meson split_list)
  have dist: "distinct (map pol_id (pool d))" using assms(1) by (simp add: pool_before_def)
  then have "distinct (map pol_id ?as)" unfolding active_pool_def by (rule distinct_map_filter)
  then have "r \<notin> set a" using ab by auto
  have "pool_turn y < pool_turn (r\<lparr>pol_lastAssignedAt := Some now\<rparr>)" if "y \<in> set (a @ b)" for y
  proof -
    have "y \<in> set (pool d)" using that ab active_pool_subset [of c p d] by auto
    then show ?thesis using assms(1) by (simp add: pool_before_def pool_turn_def)
  qed
  then have "sort_key pool_turn (a @ r\<lparr>pol_lastAssignedAt := Some now\<rparr> # b) = rest @ [r\<lparr>pol_lastAssignedAt := Some now\<rparr>]"
    by (intro sort_key_turn [of _ a r b]) (use s ab \<open>r \<notin> set a\<close> in auto)
  then show ?thesis
    using that [OF s _ r] s assms(2) active_pool_upd [OF dist ab]
    by (simp add: autoAssign_def claim_loop.simps)
qed

lemma queue_rotates:
  assumes "pool_before now d" and "active_pool c p d \<noteq> []"
  shows "fst (autoAssign (\<lambda>k. []) now c p d) = Some (hd (pool_queue c p d)) \<and>
    pool_queue c p (snd (autoAssign (\<lambda>k. []) now c p d)) = rotate1 (pool_queue c p d)"
proof -
  obtain r rest where "sort_key pool_turn (active_pool c p d) = r # rest"
    and a: "autoAssign (\<lambda>k. []) now c p d =
       (Some (pol_userId r), upd_pool (pol_id r) (\<lambda>x. x\<lparr>pol_lastAssignedAt := Some now\<rparr>) d)"
    and "sort_key pool_turn (active_pool c p (upd_pool (pol_id r) (\<lambda>x. x\<lparr>pol_lastAssignedAt := Some now\<rparr>) d)) =
       rest @ [r\<lparr>pol_lastAssignedAt := Some now\<rparr>]"
    using claim_uncontended [OF assms] by metis
  then show ?thesis by (simp add: a pool_queue_def)
qed

text \<open>A sequence of leads for one project, at the given times.\<close>

fun assign_leads :: "id \<Rightarrow> id \<Rightarrow> int list \<Rightarrow> presales_db \<Rightarrow> id option list \<times> presales_db" where
  "assign_leads c p [] d = ([], d)"
| "assign_leads c p (now # nows) d =
     (case autoAssign (\<lambda>k. []) now c p d of (u, d1) \<Rightarrow>
        case assign_leads c p nows d1 of (us, d2) \<Rightarrow> (u # us, d2))"

lemma assign_leads_Cons: "fst (assign_leads c p (now # nows) d) =
    fst (autoAssign (\<lambda>k. []) now c p d) # fst (assign_leads c p nows (snd (autoAssign (\<lambda>k. []) now c p d)))"
  by (simp add: split_beta)

lemma queue_empty_iff: "pool_queue c p d = [] \<longleftrightarrow> active_pool c p d = []"
  by (metis length_0_conv length_map length_sort pool_queue_def)

lemma pool_before_after_claim:
  assumes "pool_before now d" and "now < now'" and "active_pool c p d \<noteq> []"
  shows "pool_before now' (snd (autoAssign (\<lambda>k. []) now c p d))"
proof -
  obtain r rest where "autoAssign (\<lambda>k. []) now c p d =
      (Some (pol_userId r), upd_pool (pol_id r) (\<lambda>x. x\<lparr>pol_lastAssignedAt := Some now\<rparr>) d)"
    and "sort_key pool_turn (active_pool c p d) = r # rest"
    using claim_uncontended [OF assms(1,3)] by metis
  then have "snd (autoAssign (\<lambda>k. []) now c p d) = upd_pool (pol_id r) (\<lambda>x. x\<lparr>pol_lastAssignedAt := Some now\<rparr>) d"
    by simp
  moreover have "map pol_id (pool (upd_pool i (\<lambda>x. x\<lparr>pol_lastAssignedAt := Some now\<rparr>) d)) = map pol_id (pool d)" for i
    by (simp add: upd_pool_def map_update_rows)
  moreover have "pol_lastAssignedAt x < Some now'" if "x \<in> set (pool d)" for x
  proof -
    have "pol_lastAssignedAt x < Some now" using assms(1) that by (simp add: pool_before_def)
    also have "Some now < Some now'" using assms(2) by simp
    finally show ?thesis .
  qed
  ultimately show ?thesis using assms(1,2) by (auto simp: pool_before_def upd_pool_def set_update_rows)
qed

text \<open>
  C24: leads go round. The active members of a project's pool, in the order of their last turn,
  are a queue. Take any number of leads of the project that arrive one after the other, at
  later and later times and later than any turn so far, with no other transaction holding a
  member: if the queue is not empty, lead \<open>i\<close> goes to the member at place \<open>i\<close> modulo its
  length.
\<close>

theorem leads_go_round:
  assumes "sorted_wrt (<) nows" and "nows \<noteq> [] \<longrightarrow> pool_before (hd nows) d" and "active_pool c p d \<noteq> []"
  shows "fst (assign_leads c p nows d) =
    map (\<lambda>i. Some (pool_queue c p d ! (i mod length (pool_queue c p d)))) [0..<length nows]"
  using assms
proof (induction nows arbitrary: d)
  case (Cons now nows)
  let ?d1 = "snd (autoAssign (\<lambda>k. []) now c p d)"
  let ?q = "pool_queue c p d"
  have before: "pool_before now d" using Cons.prems(2) by simp
  have q: "?q \<noteq> []" using Cons.prems(3) by (simp add: queue_empty_iff)
  have turn: "fst (autoAssign (\<lambda>k. []) now c p d) = Some (hd ?q)" "pool_queue c p ?d1 = rotate1 ?q"
    using queue_rotates [OF before Cons.prems(3)] by auto
  have "nows \<noteq> [] \<longrightarrow> pool_before (hd nows) ?d1"
    using pool_before_after_claim [OF before _ Cons.prems(3)] Cons.prems(1) by (cases nows) auto
  moreover have "active_pool c p ?d1 \<noteq> []"
    using turn(2) q queue_empty_iff by (metis rotate1_is_Nil_conv)
  ultimately have "fst (assign_leads c p nows ?d1) =
      map (\<lambda>i. Some (rotate1 ?q ! (i mod length ?q))) [0..<length nows]"
    using Cons.IH [of ?d1] Cons.prems(1) turn(2) by simp
  also have "\<dots> = map (\<lambda>i. Some (?q ! (Suc i mod length ?q))) [0..<length nows]"
    using q by (intro map_cong refl) (simp add: nth_rotate1 mod_Suc_eq)
  finally have "fst (assign_leads c p (now # nows) d) =
      Some (?q ! 0) # map (\<lambda>i. Some (?q ! (Suc i mod length ?q))) [0..<length nows]"
    using turn(1) hd_conv_nth [OF q] by (simp only: assign_leads_Cons)
  then show ?case by (simp add: upt_conv_Cons map_Suc_upt [symmetric] del: upt_Suc)
qed simp

definition demo_member :: "id \<Rightarrow> id \<Rightarrow> int option \<Rightarrow> pool_member" where
  "demo_member i u turn = \<lparr>pol_id = i, pol_companyId = 7, pol_projectId = 3, pol_userId = u, pol_isActive = True,
     pol_pausedReason = None, pol_lastAssignedAt = turn, pol_sortOrder = 0\<rparr>"

definition empty_auth :: auth_db where
  "empty_auth = \<lparr>next_auth_id = 100, users = [], roles = [], permissions = [], rolePermissions = [],
     refreshTokens = [], passwordResets = [], portalPasswordResets = [], auditLogs = []\<rparr>"

definition empty_presales :: presales_db where
  "empty_presales = \<lparr>next_presales_id = 100, accounts = empty_auth, configs = [], masterRows = [], fieldDefs = [],
     dumpReasons = [], people = [], consents = [], merges = [], distinctPairs = [], stages = [], inquiries = [],
     inquiryAssignments = [], stageHistory = [], dispositionHistory = [], pool = [], followUps = [],
     communications = [], linkedBookings = [], sendJobs = []\<rparr>"

definition demo_pool :: presales_db where
  "demo_pool = empty_presales\<lparr>pool := [demo_member 1 11 (Some 5), demo_member 2 12 None, demo_member 3 13 (Some 2)]\<rparr>"

theorem leads_go_round_witness:
  "fst (assign_leads 7 3 [10, 20, 30, 40] demo_pool) = [Some 12, Some 13, Some 11, Some 12]"
proof -
  have q: "pool_queue 7 3 demo_pool = [12, 13, 11]" by code_simp
  have "pool_before 10 demo_pool" by (simp add: pool_before_def demo_pool_def demo_member_def)
  moreover have "active_pool 7 3 demo_pool \<noteq> []" by (simp add: active_pool_def demo_pool_def demo_member_def)
  ultimately show ?thesis
    using leads_go_round [of "[10, 20, 30, 40]" demo_pool 7 3] by (simp add: q upt_rec)
qed

text \<open>Under contention a claim still takes an active member that no other transaction holds, or nobody.\<close>

lemma sort_key_head: "sort_key f xs = r # rest \<Longrightarrow> r \<in> set xs"
  by (metis list.set_intros(1) set_sort)

lemma claim_loop_member:
  "claim_loop locked now c p n d = (Some u, d') \<Longrightarrow>
     \<exists>r k. r \<in> set (active_pool c p d) \<and> pol_userId r = u \<and> k \<le> n \<and> pol_id r \<notin> set (locked k)"
proof (induction n)
  case 0
  then show ?case
    by (auto simp: claim_loop.simps [of _ _ _ _ 0] split: list.splits dest!: sort_key_head)
next
  case (Suc n)
  show ?case
  proof (cases "sort_key pool_turn (filter (\<lambda>r. pol_id r \<notin> set (locked (Suc n))) (active_pool c p d))")
    case Nil
    then show ?thesis using Suc by (auto simp: claim_loop.simps [of _ _ _ _ "Suc n"] intro: le_SucI)
  next
    case (Cons r rest)
    then show ?thesis
      using Suc.prems sort_key_head [OF Cons] by (auto simp: claim_loop.simps [of _ _ _ _ "Suc n"])
  qed
qed

lemma autoAssign_member:
  assumes "autoAssign locked now c p d = (Some u, d')"
  shows "\<exists>r\<in>set (pool d). pol_companyId r = c \<and> pol_projectId r = p \<and> pol_isActive r \<and> pol_userId r = u"
  using assms claim_loop_member [of locked now c p AUTO_ASSIGN_MAX_RETRIES d u d']
  by (auto simp: autoAssign_def active_pool_def split: if_splits)

lemma autoAssign_pool_only:
  "\<exists>ps. snd (autoAssign locked now c p d) = d\<lparr>pool := ps\<rparr>"
proof -
  have "\<exists>ps. snd (claim_loop locked now c p n d) = d\<lparr>pool := ps\<rparr>" for n
    by (induction n) (subst claim_loop.simps; auto simp: upd_pool_def split: list.split intro: exI [of _ "pool d"])+
  then show ?thesis by (auto simp: autoAssign_def intro: exI [of _ "pool d"])
qed

section \<open>Reporting subtrees\<close>

definition ADMIN_TEAM_SCOPE_ALL :: string where
  "ADMIN_TEAM_SCOPE_ALL = ''admin.team-scope.all''"

text \<open>The recursive query: each level joins the users who report to it, to depth 50.\<close>

definition reports_of :: "auth_db \<Rightarrow> id \<Rightarrow> id list \<Rightarrow> id list" where
  "reports_of d companyId level =
     concat (map (\<lambda>s. map us_id (filter (\<lambda>u. us_managerId u = Some s \<and> us_companyId u = companyId) (users d))) level)"

fun subtree :: "auth_db \<Rightarrow> id \<Rightarrow> nat \<Rightarrow> id list \<Rightarrow> id list" where
  "subtree d companyId 0 level = level"
| "subtree d companyId (Suc n) level = level @ subtree d companyId n (reports_of d companyId level)"

definition getVisibleUserIds :: "auth_db \<Rightarrow> id \<Rightarrow> id \<Rightarrow> string list \<Rightarrow> id list option" where
  "getVisibleUserIds d companyId userId perms =
     (if ADMIN_TEAM_SCOPE_ALL \<in> set perms then None
      else Some (subtree d companyId 49
        (map us_id (filter (\<lambda>u. us_id u = userId \<and> us_companyId u = companyId) (users d)))))"

text \<open>\<open>(v, m)\<close>: user \<open>v\<close> of the company reports to \<open>m\<close>.\<close>

definition reports_to :: "auth_db \<Rightarrow> id \<Rightarrow> (id \<times> id) set" where
  "reports_to d c = {(us_id u, m) | u m. u \<in> set (users d) \<and> us_companyId u = c \<and> us_managerId u = Some m}"

lemma reports_to_list:
  "reports_to d c = set (concat (map (\<lambda>u. case us_managerId u of None \<Rightarrow> [] | Some m \<Rightarrow> [(us_id u, m)])
     (filter (\<lambda>u. us_companyId u = c) (users d))))"
  by (fastforce simp: reports_to_def split: option.splits)

lemma set_reports_of: "set (reports_of d c level) = {v. \<exists>m\<in>set level. (v, m) \<in> reports_to d c}"
  by (auto simp: reports_of_def reports_to_def)

lemma ex_le_Suc: "(\<exists>k\<le>Suc n. Q k) \<longleftrightarrow> Q 0 \<or> (\<exists>k\<le>n. Q (Suc k))"
  by (metis Suc_le_mono le0 nat.exhaust)

lemma bex_or_self: "(\<exists>m\<in>S. v = m \<or> Q m) \<longleftrightarrow> v \<in> S \<or> (\<exists>m\<in>S. Q m)"
  by blast

lemma set_subtree: "set (subtree d c n level) = {v. \<exists>m\<in>set level. \<exists>k\<le>n. (v, m) \<in> reports_to d c ^^ k}"
proof (induction n arbitrary: level)
  case (Suc n)
  have a: "(\<exists>m\<in>set (reports_of d c level). \<exists>k\<le>n. (v, m) \<in> reports_to d c ^^ k) \<longleftrightarrow>
      (\<exists>m\<in>set level. \<exists>k\<le>n. (v, m) \<in> reports_to d c ^^ Suc k)" for v
    by (auto simp: set_reports_of relcomp_unfold)
  have b: "v \<in> set (subtree d c (Suc n) level) \<longleftrightarrow>
      v \<in> set level \<or> (\<exists>m\<in>set (reports_of d c level). \<exists>k\<le>n. (v, m) \<in> reports_to d c ^^ k)" for v
    by (simp add: Suc)
  have e: "(\<exists>m\<in>set level. \<exists>k\<le>Suc n. (v, m) \<in> reports_to d c ^^ k) \<longleftrightarrow>
      v \<in> set level \<or> (\<exists>m\<in>set level. \<exists>k\<le>n. (v, m) \<in> reports_to d c ^^ Suc k)" for v
  proof -
    have "(\<exists>k\<le>Suc n. (v, m) \<in> reports_to d c ^^ k) \<longleftrightarrow> v = m \<or> (\<exists>k\<le>n. (v, m) \<in> reports_to d c ^^ Suc k)" for m
      using ex_le_Suc [of n "\<lambda>k. (v, m) \<in> reports_to d c ^^ k"] unfolding relpow.simps(1) pair_in_Id_conv .
    then show ?thesis by (simp only: bex_or_self)
  qed
  show ?case by (simp only: set_eq_iff mem_Collect_eq a b e) simp
qed auto

text \<open>
  C25: a caller without the company-wide permission sees exactly his reporting subtree: himself
  and every user of the company below him by any number of manager links, when no line of
  managers is fifty links long (the bound of the recursive query). A caller with the permission
  is not restricted.
\<close>

theorem visible_users_are_subtree:
  assumes "reports_to d c ^^ 50 = {}"
  shows "case getVisibleUserIds d c u perms of
      None \<Rightarrow> ADMIN_TEAM_SCOPE_ALL \<in> set perms
    | Some ids \<Rightarrow> ADMIN_TEAM_SCOPE_ALL \<notin> set perms \<and>
        set ids = {v. (v, u) \<in> (reports_to d c)\<^sup>* \<and> (\<exists>x\<in>set (users d). us_id x = u \<and> us_companyId x = c)}"
proof -
  have long: "reports_to d c ^^ k = {}" if "50 \<le> k" for k
    using assms relpow_add [of 50 "k - 50" "reports_to d c"] that by simp
  have "\<exists>k\<le>49. (v, u) \<in> reports_to d c ^^ k" if "(v, u) \<in> reports_to d c ^^ n" for v n
  proof -
    have "n \<le> 49" using long [of n] that by fastforce
    then show ?thesis using that by blast
  qed
  then have star: "(v, u) \<in> (reports_to d c)\<^sup>* \<longleftrightarrow> (\<exists>k\<le>49. (v, u) \<in> reports_to d c ^^ k)" for v
    by (auto simp: rtrancl_power)
  show ?thesis
    unfolding star getVisibleUserIds_def by (auto simp: set_subtree)
qed

definition demo_staff :: "id \<Rightarrow> id option \<Rightarrow> user" where
  "demo_staff i m = \<lparr>us_id = i, us_companyId = 7, us_email = None, us_passwordHash = [], us_name = [], us_phone = None,
     us_roleId = 1, us_isActive = True, us_forcePasswordChange = False, us_managerId = m, us_totpSecret = None,
     us_totpEnabled = False, us_recoveryCodes = [], us_failedTotpAttempts = 0, us_totpLockedUntil = None,
     us_authzVersion = 0, us_failedLoginAttempts = 0, us_lockedUntil = None, us_lastLoginAt = None,
     us_applicantId = None, us_brokerId = None\<rparr>"

definition demo_hierarchy :: auth_db where
  "demo_hierarchy = empty_auth\<lparr>users := [demo_staff 1 None, demo_staff 2 (Some 1), demo_staff 3 (Some 2), demo_staff 4 (Some 1)]\<rparr>"

theorem visible_users_are_subtree_witness:
  "getVisibleUserIds demo_hierarchy 7 2 [] = Some [2, 3] \<and> (3, 2) \<in> (reports_to demo_hierarchy 7)\<^sup>*"
proof -
  have r: "reports_to demo_hierarchy 7 = {(2, 1), (3, 2), (4, 1)}"
    by (simp add: reports_to_list demo_hierarchy_def demo_staff_def)
  have "{(2, 1), (3, 2), (4, 1)} ^^ 3 = ({} :: (nat \<times> nat) set)" by (auto simp: numeral_3_eq_3)
  then have "reports_to demo_hierarchy 7 ^^ 3 = {}" by (simp only: r)
  then have empty: "reports_to demo_hierarchy 7 ^^ 50 = {}"
    using relpow_add [of 3 47 "reports_to demo_hierarchy 7"] by simp
  have v: "getVisibleUserIds demo_hierarchy 7 2 [] = Some [2, 3]" by code_simp
  show ?thesis using visible_users_are_subtree [OF empty, where u = 2 and perms = "[]"] v by simp blast
qed

end
