(* ===== verification/Inquiries.thy ===== *)
theory Inquiries
  imports Assignment
begin

text \<open>
  Inquiries (leads) and their pipeline: \<open>apps/api/src/presales/inquiry.service.ts\<close>,
  \<open>lead-stage-transition.service.ts\<close>, \<open>inquiry-disposition-transition.service.ts\<close>,
  \<open>follow-up.service.ts\<close>, \<open>escalation.service.ts\<close>, \<open>inquiry-import.service.ts\<close> (the import
  of parsed rows) and \<open>apps/api/src/masters/lead-stage/lead-stage.service.ts\<close>. The clocks, the
  date parser and the locks of other transactions are arguments.
\<close>

section \<open>Transitions and their history\<close>

definition assertStageBelongsToCompany :: "id \<Rightarrow> id \<Rightarrow> presales_db \<Rightarrow> unit result" where
  "assertStageBelongsToCompany companyId stageId d =
     bindE (orFail (NotFound ''Lead stage not found'') (find_stage companyId stageId d)) (\<lambda>_. Inr ())"

definition resolveInitialStage :: "id \<Rightarrow> id option \<Rightarrow> presales_db \<Rightarrow> id option result" where
  "resolveInitialStage companyId requestedStageId d =
     (case requestedStageId of
        Some s \<Rightarrow> bindE (assertStageBelongsToCompany companyId s d) (\<lambda>_. Inr (Some s))
      | None \<Rightarrow> Inr (map_option stg_id (List.find (\<lambda>s. stg_companyId s = companyId \<and> stg_isDefault s) (stages d))))"

definition writeStageTransition ::
  "id \<Rightarrow> id \<Rightarrow> id option \<Rightarrow> id option \<Rightarrow> id option \<Rightarrow> presales_db \<Rightarrow> presales_db" where
  "writeStageTransition companyId inquiryId fromStageId toStageId changedById d =
     (case toStageId of
        None \<Rightarrow> d
      | Some s \<Rightarrow> d\<lparr>stageHistory := stageHistory d @ [\<lparr>sth_companyId = companyId, sth_inquiryId = inquiryId,
          sth_fromStageId = fromStageId, sth_toStageId = s, sth_changedById = changedById,
          sth_isAdministrative = False\<rparr>]\<rparr>)"

definition writeDispositionTransition ::
  "id \<Rightarrow> id \<Rightarrow> inquiry_status option \<Rightarrow> inquiry_status \<Rightarrow> id option \<Rightarrow> id option \<Rightarrow> string option \<Rightarrow>
     presales_db \<Rightarrow> presales_db" where
  "writeDispositionTransition companyId inquiryId fromStatus toStatus changedById reasonId remarks d =
     d\<lparr>dispositionHistory := dispositionHistory d @ [\<lparr>dsp_companyId = companyId, dsp_inquiryId = inquiryId,
       dsp_fromStatus = fromStatus, dsp_toStatus = toStatus, dsp_reasonId = reasonId, dsp_remarks = remarks,
       dsp_changedById = changedById\<rparr>]\<rparr>"

definition assertReasonBelongsToCompany :: "id \<Rightarrow> id \<Rightarrow> presales_db \<Rightarrow> unit result" where
  "assertReasonBelongsToCompany companyId reasonId d =
     ensure (\<exists>r\<in>set (dumpReasons d). drs_id r = reasonId \<and> drs_companyId r = companyId)
       (NotFound ''Dump reason not found'')"

section \<open>Lead stages\<close>

record create_stage_dto =
  cst_name :: string
  cst_sortOrder :: int
  cst_isActive :: bool
  cst_isDefault :: bool

record update_stage_dto =
  ust_name :: "string option"
  ust_sortOrder :: "int option"
  ust_isActive :: "bool option"
  ust_isDefault :: "bool option"
  ust_reassignToStageId :: "id option"

definition stage_findOne :: "id \<Rightarrow> id \<Rightarrow> presales_db \<Rightarrow> lead_stage result" where
  "stage_findOne companyId i d = orFail (NotFound ''Lead stage not found'') (find_stage companyId i d)"

definition occupies :: "id \<Rightarrow> id \<Rightarrow> inquiry \<Rightarrow> bool" where
  "occupies companyId stageId q \<longleftrightarrow>
     inq_companyId q = companyId \<and> inq_stageId q = Some stageId \<and> inq_status q \<in> set ACTIVE_INQUIRY_STATUSES"

definition occupancy :: "id \<Rightarrow> id \<Rightarrow> presales_db \<Rightarrow> nat result" where
  "occupancy companyId i d =
     bindE (stage_findOne companyId i d) (\<lambda>_. Inr (length (filter (occupies companyId i) (inquiries d))))"

definition clear_defaults :: "(lead_stage \<Rightarrow> bool) \<Rightarrow> presales_db \<Rightarrow> presales_db" where
  "clear_defaults p d =
     d\<lparr>stages := update_rows (\<lambda>s. p s \<and> stg_isDefault s) (\<lambda>s. s\<lparr>stg_isDefault := False\<rparr>) (stages d)\<rparr>"

definition stage_create :: "id \<Rightarrow> create_stage_dto \<Rightarrow> presales_db \<Rightarrow> (id \<times> presales_db) result" where
  "stage_create companyId dto d =
     (let d1 = (if cst_isDefault dto then clear_defaults (\<lambda>s. stg_companyId s = companyId) d else d)
      in bindE (ensure (\<not> (\<exists>s\<in>set (stages d). stg_companyId s = companyId \<and> stg_name s = cst_name dto))
           (BadRequest ''Lead stage with this name already exists'')) (\<lambda>_.
         Inr (next_presales_id d1,
           d1\<lparr>next_presales_id := next_presales_id d1 + 1,
              stages := stages d1 @ [\<lparr>stg_id = next_presales_id d1, stg_companyId = companyId, stg_name = cst_name dto,
                stg_sortOrder = cst_sortOrder dto, stg_isActive = cst_isActive dto, stg_isDefault = cst_isDefault dto\<rparr>]\<rparr>)))"

definition reassignOccupants ::
  "id \<Rightarrow> id \<Rightarrow> id option \<Rightarrow> id \<Rightarrow> presales_db \<Rightarrow> presales_db result" where
  "reassignOccupants companyId stageId reassignToStageId actorId d =
     (let affected = filter (occupies companyId stageId) (inquiries d)
      in if affected = [] then Inr d
         else bindE (orFail (BadRequest ''Provide reassignToStageId'') reassignToStageId) (\<lambda>target.
              bindE (ensure (target \<noteq> stageId) (BadRequest ''reassignToStageId must be a different stage'')) (\<lambda>_.
              bindE (orFail (NotFound ''Target stage not found'') (find_stage companyId target d)) (\<lambda>_.
              let ids = map inq_id affected
              in Inr (d\<lparr>inquiries := update_rows (\<lambda>q. inq_id q \<in> set ids) (\<lambda>q. q\<lparr>inq_stageId := Some target\<rparr>) (inquiries d),
                       stageHistory := stageHistory d @ map (\<lambda>i. \<lparr>sth_companyId = companyId, sth_inquiryId = i,
                         sth_fromStageId = Some stageId, sth_toStageId = target, sth_changedById = Some actorId,
                         sth_isAdministrative = True\<rparr>) ids\<rparr>)))))"

definition apply_stage_dto :: "update_stage_dto \<Rightarrow> lead_stage \<Rightarrow> lead_stage" where
  "apply_stage_dto dto s =
     s\<lparr>stg_name := orKeep (ust_name dto) (stg_name s), stg_sortOrder := orKeep (ust_sortOrder dto) (stg_sortOrder s),
       stg_isActive := orKeep (ust_isActive dto) (stg_isActive s),
       stg_isDefault := orKeep (ust_isDefault dto) (stg_isDefault s)\<rparr>"

definition stage_update ::
  "id \<Rightarrow> id \<Rightarrow> update_stage_dto \<Rightarrow> id \<Rightarrow> presales_db \<Rightarrow> presales_db result" where
  "stage_update companyId i dto actorId d =
     bindE (stage_findOne companyId i d) (\<lambda>existing.
     let isDeactivating = (ust_isActive dto = Some False \<and> stg_isActive existing)
     in bindE (ensure (\<not> (isDeactivating \<and> stg_isDefault existing))
          (BadRequest ''Cannot deactivate the default lead stage'')) (\<lambda>_.
        bindE (if isDeactivating then reassignOccupants companyId i (ust_reassignToStageId dto) actorId d else Inr d) (\<lambda>d1.
        let d2 = (if ust_isDefault dto = Some True
                  then clear_defaults (\<lambda>s. stg_companyId s = companyId \<and> stg_id s \<noteq> i) d1 else d1)
        in bindE (ensure (\<not> (\<exists>s\<in>set (stages d2). stg_id s \<noteq> i \<and> stg_companyId s = companyId \<and>
                 ust_name dto = Some (stg_name s))) (BadRequest ''Lead stage with this name already exists'')) (\<lambda>_.
           Inr (d2\<lparr>stages := update_rows (\<lambda>s. stg_id s = i) (apply_stage_dto dto) (stages d2)\<rparr>)))))"

section \<open>Scope\<close>

text \<open>\<open>scope.visibleUserIds\<close>: \<open>None\<close> is no restriction.\<close>

definition in_scope :: "id list option \<Rightarrow> inquiry \<Rightarrow> bool" where
  "in_scope scope q \<longleftrightarrow>
     (case scope of None \<Rightarrow> True | Some ids \<Rightarrow> \<exists>u\<in>set ids. inq_assignedToId q = Some u)"

definition scoped_inquiry :: "id \<Rightarrow> id \<Rightarrow> id list option \<Rightarrow> presales_db \<Rightarrow> inquiry result" where
  "scoped_inquiry companyId i scope d =
     orFail (NotFound ''Inquiry not found'')
       (List.find (\<lambda>q. inq_id q = i \<and> inq_companyId q = companyId \<and> in_scope scope q) (inquiries d))"

definition assertInScope :: "id \<Rightarrow> id \<Rightarrow> id list option \<Rightarrow> presales_db \<Rightarrow> unit result" where
  "assertInScope companyId i scope d = bindE (scoped_inquiry companyId i scope d) (\<lambda>_. Inr ())"

definition inquiry_findAll :: "id \<Rightarrow> id list option \<Rightarrow> presales_db \<Rightarrow> inquiry list" where
  "inquiry_findAll companyId scope d = filter (\<lambda>q. inq_companyId q = companyId \<and> in_scope scope q) (inquiries d)"

text \<open>\<open>endOfToday\<close> is the end of the clock's day.\<close>

definition myDay :: "int \<Rightarrow> id \<Rightarrow> id \<Rightarrow> presales_db \<Rightarrow> inquiry list" where
  "myDay endOfToday companyId userId d =
     sort_key inq_nextFollowupAt
       (filter (\<lambda>q. inq_companyId q = companyId \<and> inq_assignedToId q = Some userId \<and>
          inq_status q \<in> {OPEN, CONTINUED} \<and>
          (case inq_nextFollowupAt q of None \<Rightarrow> False | Some t \<Rightarrow> t \<le> endOfToday)) (inquiries d))"

section \<open>Taking in a lead\<close>

record create_applicant_dto =
  cap_name :: string
  cap_primaryPhone :: string
  cap_alternatePhones :: "string list"
  cap_email :: "string option"
  cap_addressLine1 :: "string option"
  cap_city :: "string option"
  cap_state :: "string option"
  cap_pincode :: "string option"
  cap_pan :: "string option"
  cap_customFields :: "cf_values option"

record create_inquiry_dto =
  ciq_applicantId :: "id option"
  ciq_applicant :: "create_applicant_dto option"
  ciq_projectId :: "id option"
  ciq_sourceId :: "id option"
  ciq_inquiryTypeId :: "id option"
  ciq_budgetMinPaise :: "int option"
  ciq_budgetMaxPaise :: "int option"
  ciq_preferredUnitTypeId :: "id option"
  ciq_temperatureId :: "id option"
  ciq_stageId :: "id option"
  ciq_nextFollowupAt :: "int option"
  ciq_customFields :: "cf_values option"

text \<open>Live applicants with the same normalised phone or email.\<close>

definition same_contact :: "id \<Rightarrow> string \<Rightarrow> string option \<Rightarrow> lead_applicant \<Rightarrow> bool" where
  "same_contact companyId phone email a \<longleftrightarrow>
     lap_companyId a = companyId \<and> lap_mergedIntoId a = None \<and>
     (lap_primaryPhoneNormalized a = phone \<or> email \<notin> {None, Some []} \<and> lap_emailNormalized a = email)"

definition insert_person :: "(id \<Rightarrow> lead_applicant) \<Rightarrow> presales_db \<Rightarrow> id \<times> presales_db" where
  "insert_person mk d =
     (next_presales_id d, d\<lparr>next_presales_id := next_presales_id d + 1, people := people d @ [mk (next_presales_id d)]\<rparr>)"

definition config_flag :: "(presales_config \<Rightarrow> bool) \<Rightarrow> id \<Rightarrow> presales_db \<Rightarrow> bool" where
  "config_flag f companyId d =
     (case List.find (\<lambda>c. pcf_companyId c = companyId) (configs d) of None \<Rightarrow> True | Some c \<Rightarrow> f c)"

text \<open>\<open>tx.inquiry.create\<close>: the references must exist, in whatever company.\<close>

definition insert_inquiry :: "(id \<Rightarrow> inquiry) \<Rightarrow> presales_db \<Rightarrow> (inquiry \<times> presales_db) result" where
  "insert_inquiry mk d =
     (let q = mk (next_presales_id d)
      in bindE (ensure (ref_ok Projects (inq_projectId q) d \<and> ref_ok InquirySources (inq_sourceId q) d \<and>
             ref_ok InquiryTypes (inq_inquiryTypeId q) d \<and> ref_ok UnitTypes (inq_preferredUnitTypeId q) d \<and>
             ref_ok Temperatures (inq_temperatureId q) d) ForeignKeyViolation) (\<lambda>_.
         Inr (q, d\<lparr>next_presales_id := next_presales_id d + 1, inquiries := inquiries d @ [q]\<rparr>)))"

text \<open>The inquiry and the two first rows of its histories; the block every way in has.\<close>

definition open_inquiry ::
  "id \<Rightarrow> id option \<Rightarrow> id option \<Rightarrow> (id \<Rightarrow> inquiry) \<Rightarrow> presales_db \<Rightarrow> (inquiry \<times> presales_db) result" where
  "open_inquiry companyId stageId changedById mk d =
     bindE (insert_inquiry mk d) (\<lambda>(q, d1).
     Inr (q, writeDispositionTransition companyId (inq_id q) None (inq_status q) changedById None None
            (writeStageTransition companyId (inq_id q) None stageId changedById d1)))"

definition record_assignment ::
  "id \<Rightarrow> id \<Rightarrow> id option \<Rightarrow> id \<Rightarrow> string \<Rightarrow> id option \<Rightarrow> string option \<Rightarrow> presales_db \<Rightarrow> presales_db" where
  "record_assignment companyId inquiryId fromUserId toUserId assignmentType actorId reason d =
     (upd_inquiry inquiryId (\<lambda>q. q\<lparr>inq_assignedToId := Some toUserId\<rparr>) d)
       \<lparr>inquiryAssignments := inquiryAssignments d @ [\<lparr>asg_companyId = companyId, asg_inquiryId = inquiryId,
          asg_fromUserId = fromUserId, asg_toUserId = toUserId, asg_assignmentType = assignmentType,
          asg_actorId = actorId, asg_reason = reason\<rparr>]\<rparr>"

text \<open>The round-robin step machine-driven intake ends with.\<close>

definition assign_from_pool ::
  "(nat \<Rightarrow> id list) \<Rightarrow> int \<Rightarrow> id \<Rightarrow> id option \<Rightarrow> id \<Rightarrow> presales_db \<Rightarrow> presales_db" where
  "assign_from_pool locked dbNow companyId projectId inquiryId d =
     (case projectId of
        None \<Rightarrow> d
      | Some p \<Rightarrow>
          (case autoAssign locked dbNow companyId p d of
             (None, d1) \<Rightarrow> d1
           | (Some u, d1) \<Rightarrow> record_assignment companyId inquiryId None u ''auto'' None None d1))"

definition new_inquiry :: "create_inquiry_dto \<Rightarrow> id \<Rightarrow> id \<Rightarrow> id option \<Rightarrow> id \<Rightarrow> cf_values option \<Rightarrow> id \<Rightarrow> inquiry" where
  "new_inquiry dto companyId applicantId stageId createdById fvs i =
     \<lparr>inq_id = i, inq_companyId = companyId, inq_applicantId = applicantId, inq_projectId = ciq_projectId dto,
      inq_sourceId = ciq_sourceId dto, inq_inquiryTypeId = ciq_inquiryTypeId dto,
      inq_budgetMinPaise = ciq_budgetMinPaise dto, inq_budgetMaxPaise = ciq_budgetMaxPaise dto,
      inq_preferredUnitTypeId = ciq_preferredUnitTypeId dto, inq_temperatureId = ciq_temperatureId dto,
      inq_stageId = stageId, inq_assignedToId = None, inq_createdById = Some createdById, inq_status = OPEN,
      inq_convertedAt = None, inq_nextFollowupAt = ciq_nextFollowupAt dto, inq_lastEscalatedAt = None,
      inq_customFields = fvs\<rparr>"

definition inline_applicant :: "id \<Rightarrow> create_applicant_dto \<Rightarrow> cf_values option \<Rightarrow> id \<Rightarrow> lead_applicant" where
  "inline_applicant companyId a fvs i =
     \<lparr>lap_id = i, lap_companyId = companyId, lap_name = cap_name a, lap_primaryPhone = trim (cap_primaryPhone a),
      lap_primaryPhoneNormalized = normalizePhone (cap_primaryPhone a), lap_alternatePhones = cap_alternatePhones a,
      lap_email = cap_email a, lap_emailNormalized = email_key (cap_email a),
      lap_addressLine1 = cap_addressLine1 a, lap_city = cap_city a, lap_state = cap_state a,
      lap_pincode = cap_pincode a, lap_customFields = fvs, lap_panCiphertext = None, lap_panMasked = None,
      lap_mergedIntoId = None\<rparr>"

record intake_result =
  itk_inquiryId :: id
  itk_applicantId :: id
  itk_assignedToId :: "id option"
  itk_duplicates :: "id list"

text \<open>The applicant of a new inquiry: created, with the possible duplicates, or the one named.\<close>

definition choose_applicant ::
  "id \<Rightarrow> create_inquiry_dto \<Rightarrow> cf_values option \<Rightarrow> presales_db \<Rightarrow> (id \<times> id list \<times> presales_db) result" where
  "choose_applicant companyId dto applicantFields d =
     (case (ciq_applicantId dto, ciq_applicant dto) of
        (Some i, _) \<Rightarrow>
          bindE (orFail (NotFound ''Applicant not found'') (find_person companyId i d)) (\<lambda>existing.
          bindE (ensure (lap_mergedIntoId existing = None) (Conflict ''Applicant has been merged'')) (\<lambda>_.
          Inr (i, [], d)))
      | (None, Some a) \<Rightarrow>
          let dups = filter (same_contact companyId (normalizePhone (cap_primaryPhone a)) (email_key (cap_email a)))
                       (people d)
          in (case insert_person (inline_applicant companyId a applicantFields) d of
                (i, d1) \<Rightarrow> Inr (i, map lap_id dups, d1))
      | (None, None) \<Rightarrow> Inl (BadRequest ''Either applicantId or applicant must be provided''))"

text \<open>The creator keeps the lead, unless the company gives all leads to the pool.\<close>

definition assign_created ::
  "(nat \<Rightarrow> id list) \<Rightarrow> int \<Rightarrow> id \<Rightarrow> id option \<Rightarrow> id \<Rightarrow> id \<Rightarrow> presales_db \<Rightarrow> id option \<times> presales_db" where
  "assign_created locked dbNow companyId projectId createdById inquiryId d =
     (if config_flag pcf_creatorRetainsLead companyId d
      then (Some createdById, record_assignment companyId inquiryId None createdById ''creator'' (Some createdById) None d)
      else case projectId of
             None \<Rightarrow> (None, d)
           | Some p \<Rightarrow>
               (case autoAssign locked dbNow companyId p d of
                  (None, d1) \<Rightarrow> (None, d1)
                | (Some u, d1) \<Rightarrow> (Some u, record_assignment companyId inquiryId None u ''auto'' None None d1)))"

definition inquiry_create ::
  "(string \<Rightarrow> string option) \<Rightarrow> (nat \<Rightarrow> id list) \<Rightarrow> int \<Rightarrow> id \<Rightarrow> create_inquiry_dto \<Rightarrow> id \<Rightarrow> presales_db \<Rightarrow>
     (intake_result \<times> presales_db) result" where
  "inquiry_create iso_day locked dbNow companyId dto createdById d =
     bindE (resolveValuesForWrite iso_day (fieldDefs d) companyId INQUIRY (ciq_customFields dto) None) (\<lambda>inquiryFields.
     bindE (case ciq_applicant dto of
              None \<Rightarrow> Inr None
            | Some a \<Rightarrow> resolveValuesForWrite iso_day (fieldDefs d) companyId APPLICANT (cap_customFields a) None) (\<lambda>applicantFields.
     bindE (choose_applicant companyId dto applicantFields d) (\<lambda>(applicantId, dups, d1).
     bindE (resolveInitialStage companyId (ciq_stageId dto) d1) (\<lambda>stageId.
     bindE (open_inquiry companyId stageId (Some createdById)
              (new_inquiry dto companyId applicantId stageId createdById inquiryFields) d1) (\<lambda>(q, d2).
     case assign_created locked dbNow companyId (ciq_projectId dto) createdById (inq_id q) d2 of (assigned, d3) \<Rightarrow>
       Inr (\<lparr>itk_inquiryId = inq_id q, itk_applicantId = applicantId, itk_assignedToId = assigned,
              itk_duplicates = dups\<rparr>, d3))))))"

record lead_input =
  led_name :: string
  led_phone :: string
  led_email :: "string option"
  led_projectId :: "id option"
  led_note :: "string option"

definition bare_applicant :: "id \<Rightarrow> string \<Rightarrow> string \<Rightarrow> string option \<Rightarrow> id \<Rightarrow> lead_applicant" where
  "bare_applicant companyId name phone email i =
     \<lparr>lap_id = i, lap_companyId = companyId, lap_name = name, lap_primaryPhone = trim phone,
      lap_primaryPhoneNormalized = normalizePhone phone, lap_alternatePhones = [], lap_email = email,
      lap_emailNormalized = email_key email, lap_addressLine1 = None, lap_city = None,
      lap_state = None, lap_pincode = None, lap_customFields = None, lap_panCiphertext = None,
      lap_panMasked = None, lap_mergedIntoId = None\<rparr>"

definition machine_inquiry :: "id \<Rightarrow> id \<Rightarrow> id option \<Rightarrow> id option \<Rightarrow> cf_values option \<Rightarrow> id \<Rightarrow> inquiry" where
  "machine_inquiry companyId applicantId projectId stageId fvs i =
     \<lparr>inq_id = i, inq_companyId = companyId, inq_applicantId = applicantId, inq_projectId = projectId,
      inq_sourceId = None, inq_inquiryTypeId = None, inq_budgetMinPaise = None, inq_budgetMaxPaise = None,
      inq_preferredUnitTypeId = None, inq_temperatureId = None, inq_stageId = stageId, inq_assignedToId = None,
      inq_createdById = None, inq_status = OPEN, inq_convertedAt = None, inq_nextFollowupAt = None,
      inq_lastEscalatedAt = None, inq_customFields = fvs\<rparr>"

text \<open>An empty note is falsy.\<close>

definition note_field :: "string \<Rightarrow> string option \<Rightarrow> cf_values option" where
  "note_field key note =
     (case note of None \<Rightarrow> None | Some t \<Rightarrow> if t = [] then None else Some [(key, CStr (redactAadhaarLike t))])"

record lead_result =
  ldr_inquiryId :: id
  ldr_applicantId :: id
  ldr_duplicateApplicantIds :: "id list"

definition createFromLead ::
  "(nat \<Rightarrow> id list) \<Rightarrow> int \<Rightarrow> id \<Rightarrow> lead_input \<Rightarrow> presales_db \<Rightarrow> (lead_result \<times> presales_db) result" where
  "createFromLead locked dbNow companyId lead d =
     (let duplicates = filter (same_contact companyId (normalizePhone (led_phone lead)) (email_key (led_email lead)))
            (people d);
          autoLink = config_flag pcf_phoneDedupAutoLink companyId d;
          (applicantId, d1) =
            (if duplicates \<noteq> [] \<and> autoLink then (lap_id (hd duplicates), d)
             else insert_person (bare_applicant companyId (led_name lead) (led_phone lead) (led_email lead)) d)
      in bindE (resolveInitialStage companyId None d1) (\<lambda>stageId.
         bindE (open_inquiry companyId stageId None
                  (machine_inquiry companyId applicantId (led_projectId lead) stageId (note_field ''leadNote'' (led_note lead))) d1)
           (\<lambda>(q, d2).
         Inr (\<lparr>ldr_inquiryId = inq_id q, ldr_applicantId = applicantId,
                ldr_duplicateApplicantIds = map lap_id duplicates\<rparr>,
              assign_from_pool locked dbNow companyId (led_projectId lead) (inq_id q) d2))))"

text \<open>
  The import of the rows a worksheet parsed to. The lookups the source caches are repeated
  here: nothing in the transaction changes what they find.
\<close>

record import_row =
  imp_rowNum :: nat
  imp_applicantName :: string
  imp_primaryPhone :: string
  imp_email :: "string option"
  imp_projectCode :: "string option"
  imp_sourceName :: "string option"
  imp_inquiryTypeName :: "string option"
  imp_budgetMinPaise :: "int option"
  imp_budgetMaxPaise :: "int option"
  imp_notes :: "string option"

record import_result =
  imr_createdCount :: nat
  imr_linked :: "(nat \<times> id) list"
  imr_flagged :: "(nat \<times> id \<times> id) list"

text \<open>An empty name or code is falsy.\<close>

definition find_master :: "master_table \<Rightarrow> id \<Rightarrow> string option \<Rightarrow> presales_db \<Rightarrow> id option" where
  "find_master t companyId name d =
     (case name of
        None \<Rightarrow> None
      | Some n \<Rightarrow> if n = [] then None
          else map_option mst_id (List.find (\<lambda>m. mst_table m = t \<and> mst_companyId m = companyId \<and> mst_name m = n) (masterRows d)))"

definition import_one ::
  "(nat \<Rightarrow> id list) \<Rightarrow> int \<Rightarrow> id \<Rightarrow> bool \<Rightarrow> id option \<Rightarrow> import_row \<Rightarrow> import_result \<times> presales_db \<Rightarrow>
     (import_result \<times> presales_db) result" where
  "import_one locked dbNow companyId autoLink stageId row s =
     (let (res, d) = s;
          existing = List.find (same_contact companyId (normalizePhone (imp_primaryPhone row)) (email_key (imp_email row)))
            (people d);
          (applicantId, res1, d1) =
            (case existing of
               Some a \<Rightarrow>
                 if autoLink then (lap_id a, res\<lparr>imr_linked := imr_linked res @ [(imp_rowNum row, lap_id a)]\<rparr>, d)
                 else (case insert_person (bare_applicant companyId (imp_applicantName row) (imp_primaryPhone row) (imp_email row)) d of
                         (i, d') \<Rightarrow> (i, res\<lparr>imr_flagged := imr_flagged res @ [(imp_rowNum row, i, lap_id a)]\<rparr>, d'))
             | None \<Rightarrow>
                 (case insert_person (bare_applicant companyId (imp_applicantName row) (imp_primaryPhone row) (imp_email row)) d of
                    (i, d') \<Rightarrow> (i, res, d')));
          projectId = find_master Projects companyId (imp_projectCode row) d1
      in bindE (open_inquiry companyId stageId None
             (\<lambda>i. (machine_inquiry companyId applicantId projectId stageId (note_field ''importNotes'' (imp_notes row)) i)
                \<lparr>inq_sourceId := find_master InquirySources companyId (imp_sourceName row) d1,
                 inq_inquiryTypeId := find_master InquiryTypes companyId (imp_inquiryTypeName row) d1,
                 inq_budgetMinPaise := imp_budgetMinPaise row, inq_budgetMaxPaise := imp_budgetMaxPaise row\<rparr>) d1) (\<lambda>(q, d2).
         Inr (res1\<lparr>imr_createdCount := imr_createdCount res1 + 1\<rparr>,
              assign_from_pool locked dbNow companyId projectId (inq_id q) d2)))"

definition importInquiries ::
  "(nat \<Rightarrow> id list) \<Rightarrow> int \<Rightarrow> id \<Rightarrow> import_row list \<Rightarrow> presales_db \<Rightarrow> (import_result \<times> presales_db) result" where
  "importInquiries locked dbNow companyId rows d =
     bindE (ensure (rows \<noteq> []) (BadRequest ''No data rows found in the worksheet'')) (\<lambda>_.
     bindE (resolveInitialStage companyId None d) (\<lambda>stageId.
     foldE (import_one locked dbNow companyId (config_flag pcf_phoneDedupAutoLink companyId d) stageId) rows
       (\<lparr>imr_createdCount = 0, imr_linked = [], imr_flagged = []\<rparr>, d)))"

section \<open>Working a lead\<close>

text \<open>\<open>nextFollowupAt\<close> may be sent as null, which clears it.\<close>

record update_inquiry_dto =
  uiq_projectId :: "id option"
  uiq_sourceId :: "id option"
  uiq_inquiryTypeId :: "id option"
  uiq_budgetMinPaise :: "int option"
  uiq_budgetMaxPaise :: "int option"
  uiq_preferredUnitTypeId :: "id option"
  uiq_temperatureId :: "id option"
  uiq_stageId :: "id option"
  uiq_status :: "inquiry_status option"
  uiq_dumpReasonId :: "id option"
  uiq_dumpRemarks :: "string option"
  uiq_nextFollowupAt :: "int option option"
  uiq_customFields :: "cf_values option"

definition orElse :: "'a option \<Rightarrow> 'a option \<Rightarrow> 'a option" where
  "orElse v old = (case v of None \<Rightarrow> old | Some x \<Rightarrow> Some x)"

definition blank :: "string option \<Rightarrow> bool" where
  "blank t = (case t of None \<Rightarrow> True | Some s \<Rightarrow> trim s = [])"

definition apply_inquiry_dto :: "update_inquiry_dto \<Rightarrow> int \<Rightarrow> cf_values option \<Rightarrow> inquiry \<Rightarrow> inquiry" where
  "apply_inquiry_dto dto now newFields q =
     (let newStatus = orKeep (uiq_status dto) (inq_status q);
          statusChanged = (newStatus \<noteq> inq_status q)
      in q\<lparr>inq_projectId := orElse (uiq_projectId dto) (inq_projectId q),
           inq_sourceId := orElse (uiq_sourceId dto) (inq_sourceId q),
           inq_inquiryTypeId := orElse (uiq_inquiryTypeId dto) (inq_inquiryTypeId q),
           inq_budgetMinPaise := orElse (uiq_budgetMinPaise dto) (inq_budgetMinPaise q),
           inq_budgetMaxPaise := orElse (uiq_budgetMaxPaise dto) (inq_budgetMaxPaise q),
           inq_preferredUnitTypeId := orElse (uiq_preferredUnitTypeId dto) (inq_preferredUnitTypeId q),
           inq_temperatureId := orElse (uiq_temperatureId dto) (inq_temperatureId q),
           inq_stageId := orElse (uiq_stageId dto) (inq_stageId q),
           inq_status := newStatus,
           inq_convertedAt := (if \<not> statusChanged then inq_convertedAt q
                               else if newStatus = SUCCESSFUL then Some now
                               else if inq_status q = SUCCESSFUL then None
                               else inq_convertedAt q),
           inq_nextFollowupAt := orKeep (uiq_nextFollowupAt dto) (inq_nextFollowupAt q),
           inq_customFields := orElse newFields (inq_customFields q)\<rparr>)"

definition inquiry_update ::
  "(string \<Rightarrow> string option) \<Rightarrow> int \<Rightarrow> id \<Rightarrow> id \<Rightarrow> update_inquiry_dto \<Rightarrow> id list option \<Rightarrow> id \<Rightarrow>
     presales_db \<Rightarrow> presales_db result" where
  "inquiry_update iso_day now companyId i dto scope actorId d =
     bindE (scoped_inquiry companyId i scope d) (\<lambda>existing.
     let statusChanged = (uiq_status dto \<noteq> None \<and> uiq_status dto \<noteq> Some (inq_status existing));
         dumping = (statusChanged \<and> uiq_status dto = Some DUMPED);
         stageChanged = (uiq_stageId dto \<noteq> None \<and> uiq_stageId dto \<noteq> inq_stageId existing)
     in bindE (ensure (\<not> (dumping \<and> (uiq_dumpReasonId dto = None \<or> blank (uiq_dumpRemarks dto))))
          (BadRequest ''Dumping a lead requires both a reason and remarks'')) (\<lambda>_.
        bindE (case uiq_customFields dto of
                 None \<Rightarrow> Inr None
               | Some vs \<Rightarrow> resolveValuesForWrite iso_day (fieldDefs d) companyId INQUIRY (Some vs) (inq_customFields existing)) (\<lambda>newFields.
        bindE (if stageChanged then assertStageBelongsToCompany companyId (the (uiq_stageId dto)) d else Inr ()) (\<lambda>_.
        bindE (if dumping then assertReasonBelongsToCompany companyId (the (uiq_dumpReasonId dto)) d else Inr ()) (\<lambda>_.
        bindE (ensure (ref_ok Projects (uiq_projectId dto) d \<and> ref_ok InquirySources (uiq_sourceId dto) d \<and>
                 ref_ok InquiryTypes (uiq_inquiryTypeId dto) d \<and> ref_ok UnitTypes (uiq_preferredUnitTypeId dto) d \<and>
                 ref_ok Temperatures (uiq_temperatureId dto) d) ForeignKeyViolation) (\<lambda>_.
        let d1 = upd_inquiry i (apply_inquiry_dto dto now newFields) d;
            d2 = (if stageChanged then writeStageTransition companyId i (inq_stageId existing) (uiq_stageId dto) (Some actorId) d1
                  else d1)
        in Inr (if statusChanged
                then writeDispositionTransition companyId i (Some (inq_status existing)) (the (uiq_status dto)) (Some actorId)
                  (if dumping then uiq_dumpReasonId dto else None) (if dumping then uiq_dumpRemarks dto else None) d2
                else d2)))))))"

definition attachBooking :: "int \<Rightarrow> id \<Rightarrow> id \<Rightarrow> id \<Rightarrow> id \<Rightarrow> presales_db \<Rightarrow> presales_db result" where
  "attachBooking now companyId inquiryId bookingId actorId d =
     bindE (orFail (NotFound ''Inquiry not found'') (find_inquiry companyId inquiryId d)) (\<lambda>q.
     bindE (orFail (NotFound ''Booking not found'')
       (List.find (\<lambda>b. lbk_id b = bookingId \<and> lbk_companyId b = companyId) (linkedBookings d))) (\<lambda>b.
     bindE (ensure (inq_status q \<noteq> DUMPED) (BadRequest ''Cannot link a booking to a dumped lead'')) (\<lambda>_.
     bindE (ensure (lbk_sourceInquiryId b = None) (BadRequest ''This booking is already linked'')) (\<lambda>_.
     bindE (ensure (\<not> (\<exists>b\<in>set (linkedBookings d). lbk_companyId b = companyId \<and> lbk_sourceInquiryId b = Some inquiryId))
       (BadRequest ''This inquiry is already linked'')) (\<lambda>_.
     bindE (ensure (\<not> (\<exists>b\<in>set (linkedBookings d). lbk_sourceInquiryId b = Some inquiryId))
       (BadRequest ''This inquiry is already linked to a booking.'')) (\<lambda>_.
     let d1 = d\<lparr>linkedBookings := update_rows (\<lambda>b. lbk_id b = bookingId) (\<lambda>b. b\<lparr>lbk_sourceInquiryId := Some inquiryId\<rparr>) (linkedBookings d)\<rparr>
     in Inr (if inq_status q \<noteq> SUCCESSFUL
             then writeDispositionTransition companyId inquiryId (Some (inq_status q)) SUCCESSFUL (Some actorId) None
                    (Some (''Linked to booking '' @ lbk_bookingNumber b))
                    (upd_inquiry inquiryId (\<lambda>q. q\<lparr>inq_status := SUCCESSFUL, inq_convertedAt := Some now\<rparr>) d1)
             else d1)))))))"

definition inquiry_assign ::
  "id \<Rightarrow> id \<Rightarrow> id \<Rightarrow> id \<Rightarrow> string option \<Rightarrow> id list option \<Rightarrow> presales_db \<Rightarrow> presales_db result" where
  "inquiry_assign companyId inquiryId toUserId actorId reason scope d =
     bindE (scoped_inquiry companyId inquiryId scope d) (\<lambda>q.
     bindE (ensure (case scope of None \<Rightarrow> True | Some ids \<Rightarrow> toUserId \<in> set ids) (NotFound ''Target user not found'')) (\<lambda>_.
     bindE (ensure (\<exists>u\<in>set (users (accounts d)). us_id u = toUserId \<and> us_companyId u = companyId)
       (NotFound ''Target user not found'')) (\<lambda>_.
     Inr (record_assignment companyId inquiryId (inq_assignedToId q) toUserId ''manual'' (Some actorId) reason d))))"

section \<open>Follow-ups\<close>

record follow_up_dto =
  fud_typeId :: "id option"
  fud_notes :: "string option"
  fud_outcome :: "follow_up_outcome option"
  fud_interactionAt :: "int option"
  fud_nextActionAt :: "int option"
  fud_scheduledAt :: "int option"
  fud_venue :: "string option"

definition follow_up_create ::
  "int \<Rightarrow> id \<Rightarrow> id \<Rightarrow> follow_up_dto \<Rightarrow> id option \<Rightarrow> id list option \<Rightarrow> presales_db \<Rightarrow> (id \<times> presales_db) result" where
  "follow_up_create now companyId inquiryId dto createdById scope d =
     bindE (scoped_inquiry companyId inquiryId scope d) (\<lambda>q.
     bindE (ensure (\<not> (inq_status q \<in> set ACTIVE_INQUIRY_STATUSES \<and> fud_nextActionAt dto = None))
       (BadRequest ''A next follow-up time is required while this lead is active'')) (\<lambda>_.
     bindE (ensure (ref_ok FollowUpTypes (fud_typeId dto) d) ForeignKeyViolation) (\<lambda>_.
     let f = \<lparr>fup_id = next_presales_id d, fup_companyId = companyId, fup_inquiryId = inquiryId, fup_typeId = fud_typeId dto,
              fup_notes = fud_notes dto, fup_outcome = fud_outcome dto, fup_interactionAt = orKeep (fud_interactionAt dto) now,
              fup_nextActionAt = fud_nextActionAt dto, fup_scheduledAt = fud_scheduledAt dto, fup_venue = fud_venue dto,
              fup_createdById = createdById\<rparr>;
         d1 = d\<lparr>next_presales_id := next_presales_id d + 1, followUps := followUps d @ [f]\<rparr>
     in Inr (fup_id f,
          case fud_nextActionAt dto of
            None \<Rightarrow> d1
          | Some t \<Rightarrow> upd_inquiry inquiryId (\<lambda>x. x\<lparr>inq_nextFollowupAt := Some t,
              inq_status := (if inq_status q = OPEN then CONTINUED else inq_status q)\<rparr>) d1))))"

definition apply_follow_up_dto :: "follow_up_dto \<Rightarrow> follow_up \<Rightarrow> follow_up" where
  "apply_follow_up_dto dto f =
     f\<lparr>fup_typeId := orElse (fud_typeId dto) (fup_typeId f), fup_notes := orElse (fud_notes dto) (fup_notes f),
       fup_outcome := orElse (fud_outcome dto) (fup_outcome f),
       fup_interactionAt := orKeep (fud_interactionAt dto) (fup_interactionAt f),
       fup_nextActionAt := orElse (fud_nextActionAt dto) (fup_nextActionAt f),
       fup_scheduledAt := orElse (fud_scheduledAt dto) (fup_scheduledAt f), fup_venue := orElse (fud_venue dto) (fup_venue f)\<rparr>"

definition follow_up_update ::
  "id \<Rightarrow> id \<Rightarrow> follow_up_dto \<Rightarrow> id list option \<Rightarrow> presales_db \<Rightarrow> presales_db result" where
  "follow_up_update companyId i dto scope d =
     bindE (orFail (NotFound ''Follow-up not found'')
       (List.find (\<lambda>f. fup_id f = i \<and> fup_companyId f = companyId) (followUps d))) (\<lambda>existing.
     bindE (assertInScope companyId (fup_inquiryId existing) scope d) (\<lambda>_.
     bindE (ensure (ref_ok FollowUpTypes (fud_typeId dto) d) ForeignKeyViolation) (\<lambda>_.
     Inr (d\<lparr>followUps := update_rows (\<lambda>f. fup_id f = i) (apply_follow_up_dto dto) (followUps d)\<rparr>))))"

definition follow_up_findAll :: "id \<Rightarrow> id \<Rightarrow> id list option \<Rightarrow> presales_db \<Rightarrow> follow_up list result" where
  "follow_up_findAll companyId inquiryId scope d =
     bindE (assertInScope companyId inquiryId scope d) (\<lambda>_.
     Inr (rev (filter (\<lambda>f. fup_companyId f = companyId \<and> fup_inquiryId f = inquiryId) (followUps d))))"

section \<open>Escalation\<close>

definition escalation_candidate :: "int \<Rightarrow> id \<Rightarrow> inquiry \<Rightarrow> bool" where
  "escalation_candidate now companyId q \<longleftrightarrow>
     inq_companyId q = companyId \<and> inq_status q \<in> {OPEN, CONTINUED} \<and>
     (case inq_nextFollowupAt q of None \<Rightarrow> False | Some t \<Rightarrow> t < now)"

definition escalation_eligible :: "int \<Rightarrow> id \<Rightarrow> inquiry \<Rightarrow> bool" where
  "escalation_eligible now companyId q \<longleftrightarrow>
     escalation_candidate now companyId q \<and> isEscalationEligible (inq_nextFollowupAt q) (inq_lastEscalatedAt q) now"

text \<open>Active users of the company whose role has the slug \<open>sales_manager\<close>.\<close>

definition sales_managers :: "id \<Rightarrow> auth_db \<Rightarrow> user list" where
  "sales_managers companyId a =
     filter (\<lambda>u. us_companyId u = companyId \<and> us_isActive u \<and>
       (case find_role a (us_roleId u) of None \<Rightarrow> False | Some r \<Rightarrow> ro_slug r = ''sales_manager'')) (users a)"

text \<open>The escalated inquiries, the managers to notify (those with an address get the mail) and the database.\<close>

definition runForCompany :: "int \<Rightarrow> id \<Rightarrow> presales_db \<Rightarrow> id list \<times> id list \<times> presales_db" where
  "runForCompany now companyId d =
     (let eligible = filter (escalation_eligible now companyId) (inquiries d)
      in if eligible = [] then ([], [], d)
         else (map inq_id eligible, map us_id (sales_managers companyId (accounts d)),
               fold (\<lambda>q. upd_inquiry (inq_id q) (\<lambda>x. x\<lparr>inq_lastEscalatedAt := Some now\<rparr>)) eligible d))"

end
