(* ===== verification/Applicants.thy ===== *)
theory Applicants
  imports Inquiries PanEncryption
begin

text \<open>
  Applicants: \<open>apps/api/src/presales/applicant.service.ts\<close> (duplicates, consent, merging) and
  the messages sent to them (\<open>communication.service.ts\<close>, \<open>queues/communication.processor.ts\<close>).
  The encryption of a PAN (with its key and iv) and the mail or SMS provider are arguments.
\<close>

section \<open>Duplicates\<close>

definition person_findOne :: "id \<Rightarrow> id \<Rightarrow> presales_db \<Rightarrow> lead_applicant result" where
  "person_findOne companyId i d = orFail (NotFound ''Applicant not found'') (find_person companyId i d)"

definition decided_distinct :: "id \<Rightarrow> id \<Rightarrow> id \<Rightarrow> presales_db \<Rightarrow> bool" where
  "decided_distinct companyId x y d \<longleftrightarrow>
     (\<exists>p\<in>set (distinctPairs d). dst_companyId p = companyId \<and> (dst_applicantAId p, dst_applicantBId p) = orderApplicantPair x y)"

definition findDuplicates ::
  "id \<Rightarrow> string \<Rightarrow> string option \<Rightarrow> id option \<Rightarrow> presales_db \<Rightarrow> lead_applicant list" where
  "findDuplicates companyId phone email excludeConfirmedAgainstId d =
     (let candidates = filter (same_contact companyId phone email) (people d)
      in case excludeConfirmedAgainstId of
           None \<Rightarrow> candidates
         | Some x \<Rightarrow>
             let confirmedPairs = filter (\<lambda>p. dst_companyId p = companyId \<and>
                     (\<exists>c\<in>set candidates. (dst_applicantAId p, dst_applicantBId p) = orderApplicantPair x (lap_id c))) (distinctPairs d);
                 confirmedOtherIds = map (\<lambda>p. if dst_applicantAId p = x then dst_applicantBId p else dst_applicantAId p) confirmedPairs
             in filter (\<lambda>c. lap_id c \<notin> set confirmedOtherIds) candidates)"

definition findDuplicatesForApplicant :: "id \<Rightarrow> id \<Rightarrow> presales_db \<Rightarrow> lead_applicant list result" where
  "findDuplicatesForApplicant companyId applicantId d =
     bindE (person_findOne companyId applicantId d) (\<lambda>a.
     Inr (filter (\<lambda>x. lap_id x \<noteq> applicantId)
       (findDuplicates companyId (lap_primaryPhoneNormalized a) (lap_emailNormalized a) (Some applicantId) d)))"

definition confirmDistinct :: "id \<Rightarrow> id \<Rightarrow> id \<Rightarrow> id option \<Rightarrow> presales_db \<Rightarrow> presales_db result" where
  "confirmDistinct companyId applicantId otherApplicantId actorId d =
     bindE (ensure (applicantId \<noteq> otherApplicantId) (BadRequest ''Cannot confirm an applicant as distinct from itself'')) (\<lambda>_.
     bindE (person_findOne companyId applicantId d) (\<lambda>_.
     bindE (person_findOne companyId otherApplicantId d) (\<lambda>_.
     Inr (if decided_distinct companyId applicantId otherApplicantId d then d
          else d\<lparr>distinctPairs := distinctPairs d @ [\<lparr>dst_companyId = companyId,
            dst_applicantAId = fst (orderApplicantPair applicantId otherApplicantId),
            dst_applicantBId = snd (orderApplicantPair applicantId otherApplicantId),
            dst_decidedById = actorId\<rparr>]\<rparr>))))"

section \<open>Applicants\<close>

definition person_create ::
  "(string \<Rightarrow> string option) \<Rightarrow> (string \<Rightarrow> string) \<Rightarrow> id \<Rightarrow> create_applicant_dto \<Rightarrow> presales_db \<Rightarrow>
     (id \<times> id list \<times> presales_db) result" where
  "person_create iso_day encrypt_pan companyId dto d =
     (let dups = findDuplicates companyId (normalizePhone (cap_primaryPhone dto)) (email_key (cap_email dto)) None d
      in bindE (resolveValuesForWrite iso_day (fieldDefs d) companyId APPLICANT (cap_customFields dto) None) (\<lambda>fvs.
         case insert_person (\<lambda>i. (inline_applicant companyId dto fvs i)
                \<lparr>lap_panCiphertext := map_option encrypt_pan (cap_pan dto), lap_panMasked := map_option mask_pan (cap_pan dto)\<rparr>) d of
           (i, d1) \<Rightarrow> Inr (i, map lap_id dups, d1)))"

record update_applicant_dto =
  uap_name :: "string option"
  uap_primaryPhone :: "string option"
  uap_alternatePhones :: "string list option"
  uap_email :: "string option"
  uap_addressLine1 :: "string option"
  uap_city :: "string option"
  uap_state :: "string option"
  uap_pincode :: "string option"
  uap_pan :: "string option"
  uap_customFields :: "cf_values option"

definition apply_applicant_dto ::
  "(string \<Rightarrow> string) \<Rightarrow> update_applicant_dto \<Rightarrow> cf_values option \<Rightarrow> lead_applicant \<Rightarrow> lead_applicant" where
  "apply_applicant_dto encrypt_pan dto newFields a =
     a\<lparr>lap_name := orKeep (uap_name dto) (lap_name a),
       lap_primaryPhone := orKeep (map_option trim (uap_primaryPhone dto)) (lap_primaryPhone a),
       lap_primaryPhoneNormalized := orKeep (map_option normalizePhone (uap_primaryPhone dto)) (lap_primaryPhoneNormalized a),
       lap_alternatePhones := orKeep (uap_alternatePhones dto) (lap_alternatePhones a),
       lap_email := orElse (uap_email dto) (lap_email a),
       lap_emailNormalized := (if uap_email dto = None then lap_emailNormalized a else email_key (uap_email dto)),
       lap_addressLine1 := orElse (uap_addressLine1 dto) (lap_addressLine1 a),
       lap_city := orElse (uap_city dto) (lap_city a), lap_state := orElse (uap_state dto) (lap_state a),
       lap_pincode := orElse (uap_pincode dto) (lap_pincode a),
       lap_panCiphertext := orElse (map_option encrypt_pan (uap_pan dto)) (lap_panCiphertext a),
       lap_panMasked := orElse (map_option mask_pan (uap_pan dto)) (lap_panMasked a),
       lap_customFields := orElse newFields (lap_customFields a)\<rparr>"

definition person_update ::
  "(string \<Rightarrow> string option) \<Rightarrow> (string \<Rightarrow> string) \<Rightarrow> id \<Rightarrow> id \<Rightarrow> update_applicant_dto \<Rightarrow>
     presales_db \<Rightarrow> presales_db result" where
  "person_update iso_day encrypt_pan companyId i dto d =
     bindE (person_findOne companyId i d) (\<lambda>existing.
     bindE (ensure (lap_mergedIntoId existing = None) (Conflict ''Applicant has been merged'')) (\<lambda>_.
     bindE (case uap_customFields dto of
              None \<Rightarrow> Inr None
            | Some vs \<Rightarrow> resolveValuesForWrite iso_day (fieldDefs d) companyId APPLICANT (Some vs) (lap_customFields existing)) (\<lambda>newFields.
     Inr (upd_person i (apply_applicant_dto encrypt_pan dto newFields) d))))"

definition recordConsent ::
  "int \<Rightarrow> id \<Rightarrow> id \<Rightarrow> id option \<Rightarrow> bool \<Rightarrow> string option \<Rightarrow> presales_db \<Rightarrow> presales_db result" where
  "recordConsent now companyId applicantId actorId given src d =
     bindE (person_findOne companyId applicantId d) (\<lambda>a.
     bindE (ensure (lap_mergedIntoId a = None) (Conflict ''Applicant has been merged'')) (\<lambda>_.
     Inr (d\<lparr>consents := consents d @ [\<lparr>cns_companyId = companyId, cns_applicantId = applicantId, cns_given = given,
            cns_source = src, cns_actorId = actorId, cns_createdAt = now\<rparr>]\<rparr>)))"

definition getConsentHistory :: "id \<Rightarrow> id \<Rightarrow> presales_db \<Rightarrow> consent list result" where
  "getConsentHistory companyId applicantId d =
     bindE (person_findOne companyId applicantId d) (\<lambda>_.
     Inr (rev (filter (\<lambda>c. cns_companyId c = companyId \<and> cns_applicantId c = applicantId) (consents d))))"

definition getCurrentConsent :: "id \<Rightarrow> id \<Rightarrow> presales_db \<Rightarrow> (bool \<times> int option) result" where
  "getCurrentConsent companyId applicantId d =
     bindE (getConsentHistory companyId applicantId d) (\<lambda>h.
     Inr (case h of [] \<Rightarrow> (False, None) | latest # _ \<Rightarrow> (cns_given latest, Some (cns_createdAt latest))))"

section \<open>Messages\<close>

definition getCommunicationTimeline :: "id \<Rightarrow> id \<Rightarrow> presales_db \<Rightarrow> communication list result" where
  "getCommunicationTimeline companyId applicantId d =
     bindE (person_findOne companyId applicantId d) (\<lambda>_.
     let mergedFrom = filter (\<lambda>a. lap_companyId a = companyId \<and> lap_mergedIntoId a = Some applicantId) (people d);
         applicantIds = applicantId # map lap_id mergedFrom
     in Inr (rev (filter (\<lambda>m. com_companyId m = companyId \<and> com_applicantId m \<in> set applicantIds) (communications d))))"

record send_dto =
  snd_channel :: channel
  snd_subject :: "string option"
  snd_body :: string

definition send_message ::
  "id \<Rightarrow> id \<Rightarrow> id option \<Rightarrow> send_dto \<Rightarrow> id option \<Rightarrow> presales_db \<Rightarrow> (id \<times> presales_db) result" where
  "send_message companyId applicantId inquiryId dto actorId d =
     bindE (person_findOne companyId applicantId d) (\<lambda>a.
     bindE (ensure (lap_mergedIntoId a = None) (BadRequest ''Applicant has been merged; send to that applicant instead'')) (\<lambda>_.
     bindE (orFail (BadRequest ''Applicant has no address on file'')
              (case snd_channel dto of
                 EMAIL \<Rightarrow> (case lap_email a of Some t \<Rightarrow> if t = [] then None else Some t | None \<Rightarrow> None)
               | SMS \<Rightarrow> if lap_primaryPhone a = [] then None else Some (lap_primaryPhone a))) (\<lambda>toAddress.
     bindE (ensure (case inquiryId of None \<Rightarrow> True | Some q \<Rightarrow> q \<in> inq_id ` set (inquiries d)) ForeignKeyViolation) (\<lambda>_.
     let i = next_presales_id d
     in Inr (i, d\<lparr>next_presales_id := i + 1,
          communications := communications d @ [\<lparr>com_id = i, com_companyId = companyId, com_inquiryId = inquiryId,
            com_applicantId = applicantId, com_channel = snd_channel dto, com_toAddress = toAddress,
            com_subject = snd_subject dto, com_body = snd_body dto, com_status = QUEUED, com_providerMessageId = None,
            com_errorMessage = None, com_sentAt = None, com_createdById = actorId\<rparr>],
          sendJobs := sendJobs d @ [(companyId, i)]\<rparr>)))))"

text \<open>The provider answers with a message id or an error.\<close>

definition process_send ::
  "(channel \<Rightarrow> string \<Rightarrow> string \<Rightarrow> string option + string) \<Rightarrow> int \<Rightarrow> id \<times> id \<Rightarrow> presales_db \<Rightarrow> presales_db" where
  "process_send provider now job d =
     (case List.find (\<lambda>m. com_id m = snd job \<and> com_companyId m = fst job) (communications d) of
        None \<Rightarrow> d
      | Some m \<Rightarrow>
          d\<lparr>communications := update_rows (\<lambda>x. com_id x = snd job)
             (\<lambda>x. case provider (com_channel m) (com_toAddress m) (com_body m) of
                    Inr mid \<Rightarrow> x\<lparr>com_status := SENT, com_providerMessageId := Some mid, com_sentAt := Some now\<rparr>
                  | Inl err \<Rightarrow> x\<lparr>com_status := FAILED, com_errorMessage := Some (orKeep err ''Unknown error'')\<rparr>)
             (communications d)\<rparr>)"

section \<open>Merging\<close>

definition merge_applicants :: "id \<Rightarrow> id \<Rightarrow> id \<Rightarrow> id option \<Rightarrow> presales_db \<Rightarrow> presales_db result" where
  "merge_applicants companyId survivorId mergedId actorId d =
     bindE (ensure (survivorId \<noteq> mergedId) (BadRequest ''Cannot merge an applicant into itself'')) (\<lambda>_.
     bindE (orFail (NotFound ''Survivor applicant not found'') (find_person companyId survivorId d)) (\<lambda>survivor.
     bindE (orFail (NotFound ''Applicant to merge not found'') (find_person companyId mergedId d)) (\<lambda>merged.
     bindE (ensure (lap_mergedIntoId survivor = None) (Conflict ''Survivor has itself been merged'')) (\<lambda>_.
     bindE (ensure (lap_mergedIntoId merged = None) (Conflict ''Applicant has already been merged'')) (\<lambda>_.
     bindE (ensure (mergedId \<notin> mrg_mergedId ` set (merges d)) UniqueViolation) (\<lambda>_.
     let d1 = d\<lparr>inquiries := update_rows (\<lambda>q. inq_applicantId q = mergedId \<and> inq_companyId q = companyId)
                  (\<lambda>q. q\<lparr>inq_applicantId := survivorId\<rparr>) (inquiries d)\<rparr>;
         d2 = upd_person mergedId (\<lambda>a. a\<lparr>lap_mergedIntoId := Some survivorId\<rparr>) d1
     in Inr (d2\<lparr>merges := merges d2 @ [\<lparr>mrg_companyId = companyId, mrg_survivorId = survivorId, mrg_mergedId = mergedId,
            mrg_mergedById = actorId\<rparr>]\<rparr>)))))))"

section \<open>What they do\<close>

text \<open>A decision is found under either order of the two applicants.\<close>

lemma orderApplicantPair_sym: "orderApplicantPair x y = orderApplicantPair y x"
  by (auto simp: orderApplicantPair_def)

lemma decided_sym: "decided_distinct c x y d = decided_distinct c y x d"
  by (simp add: decided_distinct_def orderApplicantPair_sym [of x])

lemma other_of_pair:
  "(a, b) = orderApplicantPair x y \<Longrightarrow> (if a = x then b else a) = y"
  by (auto simp: orderApplicantPair_def split: if_splits)

lemma confirmDistinct_decides:
  "confirmDistinct c x y actor d = Inr d' \<Longrightarrow> decided_distinct c x y d'"
  by (auto simp: confirmDistinct_def decided_distinct_def)

text \<open>
  The duplicates offered for an applicant are exactly the other live applicants of the
  company with the same normalised phone or email about whom nobody has decided that they are
  different people, whichever of the two the decision was made from.
\<close>

theorem duplicates_exactly:
  assumes "findDuplicatesForApplicant companyId x d = Inr dups" and "find_person companyId x d = Some a"
  shows "set dups = {b \<in> set (people d). lap_companyId b = companyId \<and> lap_mergedIntoId b = None \<and> lap_id b \<noteq> x \<and>
    (lap_primaryPhoneNormalized b = lap_primaryPhoneNormalized a \<or>
     lap_emailNormalized a \<notin> {None, Some []} \<and> lap_emailNormalized b = lap_emailNormalized a) \<and>
    \<not> decided_distinct companyId x (lap_id b) d}"
proof -
  let ?cs = "filter (same_contact companyId (lap_primaryPhoneNormalized a) (lap_emailNormalized a)) (people d)"
  let ?pairs = "filter (\<lambda>p. dst_companyId p = companyId \<and>
      (\<exists>c\<in>set ?cs. (dst_applicantAId p, dst_applicantBId p) = orderApplicantPair x (lap_id c))) (distinctPairs d)"
  let ?others = "map (\<lambda>p. if dst_applicantAId p = x then dst_applicantBId p else dst_applicantAId p) ?pairs"
  have decided: "lap_id b \<in> set ?others \<longleftrightarrow> decided_distinct companyId x (lap_id b) d" if "b \<in> set ?cs" for b
  proof
    assume "lap_id b \<in> set ?others"
    then obtain p c where p: "p \<in> set (distinctPairs d)" "dst_companyId p = companyId" "c \<in> set ?cs"
      "(dst_applicantAId p, dst_applicantBId p) = orderApplicantPair x (lap_id c)"
      "lap_id b = (if dst_applicantAId p = x then dst_applicantBId p else dst_applicantAId p)"
      by auto
    then have "lap_id b = lap_id c" using other_of_pair by metis
    then show "decided_distinct companyId x (lap_id b) d" using p by (auto simp: decided_distinct_def)
  next
    assume "decided_distinct companyId x (lap_id b) d"
    then obtain p where p: "p \<in> set (distinctPairs d)" "dst_companyId p = companyId"
      "(dst_applicantAId p, dst_applicantBId p) = orderApplicantPair x (lap_id b)"
      by (auto simp: decided_distinct_def)
    then have "p \<in> set ?pairs" using that by auto
    moreover have "lap_id b = (if dst_applicantAId p = x then dst_applicantBId p else dst_applicantAId p)"
      using other_of_pair [OF p(3)] by simp
    ultimately show "lap_id b \<in> set ?others" unfolding list.set_map by - (rule image_eqI [where x = p], assumption+)
  qed
  have "dups = filter (\<lambda>b. lap_id b \<noteq> x) (filter (\<lambda>b. lap_id b \<notin> set ?others) ?cs)"
    using assms(1) unfolding findDuplicatesForApplicant_def person_findOne_def findDuplicates_def Let_def assms(2)
      orFail_Some bindE_Inr option.case sum.inject by (rule sym)
  then have "set dups = {b \<in> set ?cs. lap_id b \<noteq> x \<and> lap_id b \<notin> set ?others}"
    by (simp only: set_filter) blast
  also have "\<dots> = {b \<in> set ?cs. lap_id b \<noteq> x \<and> \<not> decided_distinct companyId x (lap_id b) d}"
    using decided by blast
  finally show ?thesis by (auto simp: same_contact_def)
qed

definition demo_person :: "id \<Rightarrow> lead_applicant" where
  "demo_person i = bare_applicant 7 ''Asha'' ''+91 98765-43210'' None i"

definition demo_people :: presales_db where
  "demo_people = empty_presales\<lparr>people := map demo_person [1, 2, 3],
     distinctPairs := [\<lparr>dst_companyId = 7, dst_applicantAId = 1, dst_applicantBId = 2, dst_decidedById = None\<rparr>]\<rparr>"

theorem duplicates_exactly_witness:
  "\<exists>dups. findDuplicatesForApplicant 7 2 demo_people = Inr dups \<and> lap_id ` set dups = {3}"
proof -
  have n: "normalizePhone ''+91 98765-43210'' = ''9876543210''" by code_simp
  have f: "find_person 7 2 demo_people = Some (demo_person 2)"
    by (simp add: find_person_def demo_people_def demo_person_def bare_applicant_def)
  then obtain dups where r: "findDuplicatesForApplicant 7 2 demo_people = Inr dups"
    by (simp add: findDuplicatesForApplicant_def person_findOne_def)
  have "set dups = {demo_person 3}"
    unfolding duplicates_exactly [OF r f]
    by (auto simp: demo_people_def demo_person_def bare_applicant_def decided_distinct_def orderApplicantPair_def n)
  then show ?thesis using r by (simp add: demo_person_def bare_applicant_def)
qed

text \<open>The last recorded consent is the current one.\<close>

lemma recorded_consent_current:
  assumes "recordConsent now c a actor given src d = Inr d'"
  shows "getCurrentConsent c a d' = Inr (given, Some now)"
proof -
  have "find_person c a d' = find_person c a d" using assms by (auto simp: recordConsent_def find_person_def)
  then show ?thesis
    using assms by (auto simp: recordConsent_def getCurrentConsent_def getConsentHistory_def person_findOne_def)
qed

text \<open>
  Messages of an applicant merged into one that is merged in turn are in nobody's timeline but
  the tombstones': a chain of merges loses them from the survivor's view.
\<close>

lemma timeline_two_merges:
  assumes "find_person c s d = Some a" and "getCommunicationTimeline c s d = Inr ms"
    and "m \<in> set (communications d)" and "com_applicantId m \<noteq> s"
    and "\<And>p. p \<in> set (people d) \<Longrightarrow> lap_id p = com_applicantId m \<Longrightarrow> lap_mergedIntoId p \<noteq> Some s"
  shows "m \<notin> set ms"
  using assms by (auto simp: getCommunicationTimeline_def person_findOne_def Let_def)

text \<open>The PAN of an applicant who comes in with an inquiry is not stored, whatever the request says.\<close>

lemma inline_pan_dropped:
  "choose_applicant c dto fvs d = Inr (i, dups, d') \<Longrightarrow> ciq_applicantId dto = None \<Longrightarrow>
     \<exists>p. people d' = people d @ [p] \<and> lap_id p = i \<and> lap_panCiphertext p = None \<and> lap_panMasked p = None"
  by (auto simp: choose_applicant_def insert_person_def inline_applicant_def Let_def split: option.splits)

end
