(* ===== verification/PresalesSafety.thy ===== *)
theory PresalesSafety
  imports Applicants
begin

text \<open>
  Presales as a transition system: a step is one call of a modelled operation that succeeded.
  By rule induction over any number of them: the stage history of every lead is a gap-free
  chain that ends at its stage, its disposition history at its status, a lead is converted
  exactly while it is successful, no lead hangs on a merged applicant, and a company has at
  most one default stage.
\<close>

section \<open>Histories as chains\<close>

fun gap_free :: "'a option \<Rightarrow> ('a option \<times> 'a) list \<Rightarrow> 'a option \<Rightarrow> bool" where
  "gap_free s [] e \<longleftrightarrow> s = e"
| "gap_free s ((f, t) # r) e \<longleftrightarrow> f = s \<and> gap_free (Some t) r e"

lemma gap_free_snoc: "gap_free s (xs @ [(f, t)]) e \<longleftrightarrow> gap_free s xs f \<and> e = Some t"
  by (induction s xs f rule: gap_free.induct) auto

text \<open>The one move the disposition history does not record is from \<open>OPEN\<close> to \<open>CONTINUED\<close>.\<close>

definition silently :: "inquiry_status option \<Rightarrow> inquiry_status option \<Rightarrow> bool" where
  "silently a b \<longleftrightarrow> b = a \<or> a = Some OPEN \<and> b = Some CONTINUED"

fun settled :: "inquiry_status option \<Rightarrow> (inquiry_status option \<times> inquiry_status) list \<Rightarrow> inquiry_status option \<Rightarrow> bool" where
  "settled s [] e \<longleftrightarrow> silently s e"
| "settled s ((f, t) # r) e \<longleftrightarrow> silently s f \<and> settled (Some t) r e"

lemma settled_snoc: "settled s (xs @ [(f, t)]) e \<longleftrightarrow> settled s xs f \<and> silently (Some t) e"
  by (induction s xs f rule: settled.induct) auto

lemma settled_continues: "settled s xs (Some OPEN) \<Longrightarrow> settled s xs (Some CONTINUED)"
proof (induction s xs "Some OPEN" rule: settled.induct)
  case (1 s)
  then show ?case by (auto simp: silently_def)
qed auto

definition stage_path :: "stage_history list \<Rightarrow> id \<Rightarrow> (id option \<times> id) list" where
  "stage_path hs i = map (\<lambda>h. (sth_fromStageId h, sth_toStageId h)) (filter (\<lambda>h. sth_inquiryId h = i) hs)"

definition status_path :: "disposition_history list \<Rightarrow> id \<Rightarrow> (inquiry_status option \<times> inquiry_status) list" where
  "status_path hs i = map (\<lambda>h. (dsp_fromStatus h, dsp_toStatus h)) (filter (\<lambda>h. dsp_inquiryId h = i) hs)"

text \<open>A row that dumps a lead says why.\<close>

definition documented :: "disposition_history \<Rightarrow> bool" where
  "documented h \<longleftrightarrow> (dsp_toStatus h = DUMPED \<longrightarrow> dsp_reasonId h \<noteq> None \<and> \<not> blank (dsp_remarks h))"

definition lead_ok :: "stage_history list \<Rightarrow> disposition_history list \<Rightarrow> inquiry \<Rightarrow> bool" where
  "lead_ok hs ds q \<longleftrightarrow>
     gap_free None (stage_path hs (inq_id q)) (inq_stageId q) \<and>
     settled None (status_path ds (inq_id q)) (Some (inq_status q)) \<and>
     (inq_convertedAt q \<noteq> None \<longleftrightarrow> inq_status q = SUCCESSFUL)"

definition books_ok :: "id \<Rightarrow> inquiry list \<Rightarrow> stage_history list \<Rightarrow> disposition_history list \<Rightarrow> bool" where
  "books_ok n qs hs ds \<longleftrightarrow>
     distinct (map inq_id qs) \<and> (\<forall>q\<in>set qs. inq_id q < n \<and> lead_ok hs ds q) \<and>
     (\<forall>h\<in>set hs. sth_inquiryId h < n) \<and> (\<forall>h\<in>set ds. dsp_inquiryId h < n \<and> documented h)"

text \<open>The applicant of every lead is a live one of its company.\<close>

definition live :: "lead_applicant list \<Rightarrow> id \<Rightarrow> id \<Rightarrow> bool" where
  "live ps c i \<longleftrightarrow> (\<exists>a\<in>set ps. lap_id a = i \<and> lap_companyId a = c \<and> lap_mergedIntoId a = None)"

definition people_ok :: "id \<Rightarrow> lead_applicant list \<Rightarrow> inquiry list \<Rightarrow> bool" where
  "people_ok n ps qs \<longleftrightarrow>
     distinct (map lap_id ps) \<and> (\<forall>a\<in>set ps. lap_id a < n) \<and> (\<forall>q\<in>set qs. live ps (inq_companyId q) (inq_applicantId q))"

definition stages_ok :: "id \<Rightarrow> lead_stage list \<Rightarrow> bool" where
  "stages_ok n ss \<longleftrightarrow>
     distinct (map stg_id ss) \<and> (\<forall>s\<in>set ss. stg_id s < n) \<and> distinct (map stg_companyId (filter stg_isDefault ss))"

definition presales_ok :: "presales_db \<Rightarrow> bool" where
  "presales_ok d \<longleftrightarrow>
     books_ok (next_presales_id d) (inquiries d) (stageHistory d) (dispositionHistory d) \<and>
     people_ok (next_presales_id d) (people d) (inquiries d) \<and> stages_ok (next_presales_id d) (stages d)"

section \<open>What single writes keep\<close>

lemma books_more: "books_ok n qs hs ds \<Longrightarrow> n \<le> n' \<Longrightarrow> books_ok n' qs hs ds"
  by (auto simp: books_ok_def intro: less_le_trans)

lemma people_more: "people_ok n ps qs \<Longrightarrow> n \<le> n' \<Longrightarrow> people_ok n' ps qs"
  by (auto simp: people_ok_def intro: less_le_trans)

lemma stages_more: "stages_ok n ss \<Longrightarrow> n \<le> n' \<Longrightarrow> stages_ok n' ss"
  unfolding stages_ok_def by (meson less_le_trans)

lemma presales_ok_other_tables:
  assumes "presales_ok d" and "inquiries d' = inquiries d" and "stageHistory d' = stageHistory d"
    and "dispositionHistory d' = dispositionHistory d" and "people d' = people d" and "stages d' = stages d"
    and "next_presales_id d \<le> next_presales_id d'"
  shows "presales_ok d'"
  using assms by (auto simp: presales_ok_def intro: books_more people_more stages_more)

text \<open>A change of one lead with the rows that belong to it.\<close>

lemma stage_path_append: "stage_path (hs @ hs') i = stage_path hs i @ stage_path hs' i"
  by (simp add: stage_path_def)

lemma status_path_append: "status_path (ds @ ds') i = status_path ds i @ status_path ds' i"
  by (simp add: status_path_def)

lemma path_of_other:
  "(\<And>h. h \<in> set hs \<Longrightarrow> sth_inquiryId h \<noteq> i) \<Longrightarrow> stage_path hs i = []"
  "(\<And>h. h \<in> set ds \<Longrightarrow> dsp_inquiryId h \<noteq> i) \<Longrightarrow> status_path ds i = []"
  by (auto simp: stage_path_def status_path_def filter_empty_conv)

lemma books_update:
  assumes ok: "books_ok n qs hs ds" and q: "q \<in> set qs" "inq_id q = i" and ids: "\<And>x. inq_id (f x) = inq_id x"
    and new: "lead_ok (hs @ hs1) (ds @ ds1) (f q)"
    and rows: "\<And>h. h \<in> set hs1 \<Longrightarrow> sth_inquiryId h = i" "\<And>h. h \<in> set ds1 \<Longrightarrow> dsp_inquiryId h = i \<and> documented h"
  shows "books_ok n (update_rows (\<lambda>x. inq_id x = i) f qs) (hs @ hs1) (ds @ ds1)"
proof -
  have i: "i < n" using ok q by (auto simp: books_ok_def)
  have dist: "distinct (map inq_id qs)" using ok by (simp add: books_ok_def)
  have other: "lead_ok (hs @ hs1) (ds @ ds1) x" if "x \<in> set qs" "inq_id x \<noteq> i" for x
  proof -
    have "stage_path hs1 (inq_id x) = []" "status_path ds1 (inq_id x) = []"
      using rows that(2) by (metis path_of_other)+
    then show ?thesis using ok that(1) by (simp add: books_ok_def lead_ok_def stage_path_append status_path_append)
  qed
  have "x = q" if "x \<in> set qs" "inq_id x = i" for x
    using dist q that by (auto simp: distinct_map dest: inj_onD)
  then have "\<forall>x\<in>set (update_rows (\<lambda>x. inq_id x = i) f qs). inq_id x < n \<and> lead_ok (hs @ hs1) (ds @ ds1) x"
    using ok other new ids i by (auto simp: update_rows_def books_ok_def)
  moreover have "map inq_id (update_rows (\<lambda>x. inq_id x = i) f qs) = map inq_id qs"
    by (rule map_update_rows) (rule ids)
  ultimately show ?thesis using ok rows i by (auto simp: books_ok_def)
qed

text \<open>Columns of a lead outside its histories.\<close>

definition same_standing :: "inquiry \<Rightarrow> inquiry \<Rightarrow> bool" where
  "same_standing q x \<longleftrightarrow> inq_id x = inq_id q \<and> inq_companyId x = inq_companyId q \<and> inq_stageId x = inq_stageId q \<and>
     inq_status x = inq_status q \<and> inq_convertedAt x = inq_convertedAt q"

lemma books_same_standing:
  assumes "books_ok n qs hs ds" and "\<And>x. same_standing x (f x)"
  shows "books_ok n (update_rows p f qs) hs ds"
proof -
  have ids: "map inq_id (update_rows p f qs) = map inq_id qs"
    using assms(2) by (intro map_update_rows) (simp add: same_standing_def)
  have "lead_ok hs ds (f x) = lead_ok hs ds x" for x
    using assms(2) [of x] by (simp add: lead_ok_def same_standing_def)
  moreover have "inq_id (f x) = inq_id x" for x using assms(2) [of x] by (simp add: same_standing_def)
  ultimately have "\<forall>x\<in>set (update_rows p f qs). inq_id x < n \<and> lead_ok hs ds x"
    using assms(1) by (auto simp: books_ok_def update_rows_def)
  then show ?thesis using assms(1) ids by (simp add: books_ok_def)
qed

lemma people_update:
  assumes "people_ok n ps qs" and "\<And>x. inq_companyId (f x) = inq_companyId x" and "\<And>x. inq_applicantId (f x) = inq_applicantId x"
  shows "people_ok n ps (update_rows p f qs)"
  using assms by (auto simp: people_ok_def update_rows_def)

lemma upd_inquiry_ok:
  assumes "presales_ok d" and "\<And>x. same_standing x (f x)" and "\<And>x. inq_applicantId (f x) = inq_applicantId x"
  shows "presales_ok (upd_inquiry i f d)"
  using assms books_same_standing [of _ _ _ _ f] people_update [of _ _ _ f]
  by (auto simp: presales_ok_def upd_inquiry_def same_standing_def)

lemma record_assignment_ok: "presales_ok d \<Longrightarrow> presales_ok (record_assignment c i v u t a r d)"
proof -
  assume "presales_ok d"
  then have "presales_ok (upd_inquiry i (\<lambda>q. q\<lparr>inq_assignedToId := Some u\<rparr>) d)"
    by (rule upd_inquiry_ok) (simp_all add: same_standing_def)
  then show ?thesis by (rule presales_ok_other_tables) (simp_all add: record_assignment_def)
qed

lemma autoAssign_ok:
  assumes "presales_ok d" and "autoAssign locked now c p d = (u, d')"
  shows "presales_ok d'"
  using assms(1) autoAssign_pool_only [of locked now c p d] assms(2)
  by (auto intro: presales_ok_other_tables)

lemma assign_from_pool_ok: "presales_ok d \<Longrightarrow> presales_ok (assign_from_pool locked now c p i d)"
  by (auto simp: assign_from_pool_def split: option.split prod.split
      intro: autoAssign_ok record_assignment_ok)

section \<open>Taking in leads\<close>

lemma insert_person_ok:
  assumes "presales_ok d" and "insert_person mk d = (i, d')" and "lap_id (mk (next_presales_id d)) = next_presales_id d"
    and "lap_companyId (mk (next_presales_id d)) = c" and "lap_mergedIntoId (mk (next_presales_id d)) = None"
  shows "presales_ok d' \<and> live (people d') c i"
proof -
  let ?n = "next_presales_id d"
  have d': "d' = d\<lparr>next_presales_id := ?n + 1, people := people d @ [mk ?n]\<rparr>" and i: "i = ?n"
    using assms(2) by (auto simp: insert_person_def)
  have p: "people_ok ?n (people d) (inquiries d)" using assms(1) by (simp add: presales_ok_def)
  have "live (people d @ [mk ?n]) c' j" if "live (people d) c' j" for c' j using that by (auto simp: live_def)
  then have "people_ok (?n + 1) (people d @ [mk ?n]) (inquiries d)"
    using p assms(3) by (auto simp: people_ok_def less_Suc_eq)
  then show ?thesis using assms(1,3-5) i books_more stages_more [of ?n _ "?n + 1"]
    by (auto simp: d' presales_ok_def live_def intro: books_more)
qed

lemma find_person_live: "find_person c i d = Some a \<Longrightarrow> lap_mergedIntoId a = None \<Longrightarrow> live (people d) c i"
  by (auto simp: find_person_def live_def dest!: find_SomeD)

lemma choose_applicant_ok:
  assumes "presales_ok d" and "choose_applicant c dto fvs d = Inr (a, dups, d1)"
  shows "presales_ok d1 \<and> live (people d1) c a"
proof (cases "ciq_applicantId dto")
  case (Some i)
  then show ?thesis using assms by (auto simp: choose_applicant_def intro: find_person_live)
next
  case None
  then obtain ap where ap: "ciq_applicant dto = Some ap"
    "insert_person (inline_applicant c ap fvs) d = (a, d1)"
    using assms(2) by (auto simp: choose_applicant_def Let_def split: option.splits prod.splits)
  show ?thesis by (rule insert_person_ok [OF assms(1) ap(2)]) (simp_all add: inline_applicant_def)
qed

text \<open>A lead that has just come in.\<close>

definition fresh_lead :: "id \<Rightarrow> id \<Rightarrow> id option \<Rightarrow> (id \<Rightarrow> inquiry) \<Rightarrow> bool" where
  "fresh_lead c a stageId mk \<longleftrightarrow> (\<forall>i. inq_id (mk i) = i \<and> inq_companyId (mk i) = c \<and> inq_applicantId (mk i) = a \<and>
     inq_stageId (mk i) = stageId \<and> inq_status (mk i) = OPEN \<and> inq_convertedAt (mk i) = None)"

lemma books_open:
  fixes u :: "id option"
  assumes "books_ok n qs hs ds" and "fresh_lead c a stageId mk"
  defines "hs1 \<equiv> (case stageId of None \<Rightarrow> [] | Some s \<Rightarrow> [\<lparr>sth_companyId = c, sth_inquiryId = n, sth_fromStageId = None,
      sth_toStageId = s, sth_changedById = u, sth_isAdministrative = False\<rparr>])"
  shows "books_ok (n + 1) (qs @ [mk n]) (hs @ hs1) (ds @ [\<lparr>dsp_companyId = c, dsp_inquiryId = n, dsp_fromStatus = None,
      dsp_toStatus = OPEN, dsp_reasonId = None, dsp_remarks = None, dsp_changedById = u\<rparr>])"
proof -
  let ?row = "\<lparr>dsp_companyId = c, dsp_inquiryId = n, dsp_fromStatus = None, dsp_toStatus = OPEN,
      dsp_reasonId = None, dsp_remarks = None, dsp_changedById = u\<rparr>"
  have mk: "inq_id (mk n) = n" "inq_stageId (mk n) = stageId" "inq_status (mk n) = OPEN" "inq_convertedAt (mk n) = None"
    using assms(2) by (auto simp: fresh_lead_def)
  have "stage_path hs n = []" "status_path ds n = []"
    using assms(1) by (intro path_of_other; force simp: books_ok_def)+
  moreover have "stage_path hs1 n = (case stageId of None \<Rightarrow> [] | Some s \<Rightarrow> [(None, s)])" "status_path [?row] n = [(None, OPEN)]"
    by (auto simp: hs1_def stage_path_def status_path_def split: option.split)
  ultimately have "lead_ok (hs @ hs1) (ds @ [?row]) (mk n)"
    by (auto simp: lead_ok_def mk stage_path_append status_path_append silently_def split: option.split)
  moreover have "lead_ok (hs @ hs1) (ds @ [?row]) q" if "q \<in> set qs" for q
  proof -
    have "inq_id q \<noteq> n" using assms(1) that by (auto simp: books_ok_def)
    then have "stage_path hs1 (inq_id q) = []" "status_path [?row] (inq_id q) = []"
      by (auto simp: hs1_def stage_path_def status_path_def split: option.split)
    then show ?thesis using assms(1) that by (simp add: books_ok_def lead_ok_def stage_path_append status_path_append)
  qed
  moreover have "\<forall>h\<in>set (hs @ hs1). sth_inquiryId h < n + 1"
    using assms(1) by (auto simp: books_ok_def hs1_def less_Suc_eq split: option.splits)
  moreover have "\<forall>h\<in>set (ds @ [?row]). dsp_inquiryId h < n + 1 \<and> documented h"
    using assms(1) by (auto simp: books_ok_def documented_def less_Suc_eq)
  moreover have "distinct (map inq_id (qs @ [mk n]))"
    using assms(1) by (auto simp: books_ok_def mk)
  ultimately show ?thesis using assms(1) by (auto simp: books_ok_def mk less_Suc_eq)
qed

lemma open_inquiry_ok:
  assumes "presales_ok d" and "live (people d) c a" and "fresh_lead c a stageId mk"
    and "open_inquiry c stageId u mk d = Inr (q, d')"
  shows "presales_ok d'"
proof -
  let ?n = "next_presales_id d"
  have mk: "inq_id (mk ?n) = ?n" "inq_status (mk ?n) = OPEN" "inq_companyId (mk ?n) = c" "inq_applicantId (mk ?n) = a"
    using assms(3) by (auto simp: fresh_lead_def)
  have books: "books_ok ?n (inquiries d) (stageHistory d) (dispositionHistory d)" using assms(1) by (simp add: presales_ok_def)
  have "books_ok (?n + 1) (inquiries d') (stageHistory d') (dispositionHistory d')"
    using books_open [OF books assms(3), of u] assms(4)
    by (auto simp: open_inquiry_def insert_inquiry_def writeDispositionTransition_def writeStageTransition_def Let_def mk
        split: option.splits)
  moreover have "next_presales_id d' = ?n + 1" "people d' = people d" "stages d' = stages d" "inquiries d' = inquiries d @ [mk ?n]"
    using assms(4) by (auto simp: open_inquiry_def insert_inquiry_def writeDispositionTransition_def writeStageTransition_def Let_def
        split: option.splits)
  moreover have "people_ok (?n + 1) (people d) (inquiries d @ [mk ?n])"
    using assms(1,2) by (auto simp: presales_ok_def people_ok_def mk less_SucI)
  ultimately show ?thesis using assms(1) stages_more [of ?n "stages d" "?n + 1"] by (simp add: presales_ok_def)
qed

lemma assign_created_ok: "presales_ok d \<Longrightarrow> assign_created locked now c p u i d = (v, d') \<Longrightarrow> presales_ok d'"
  by (auto simp: assign_created_def split: if_splits option.splits prod.splits
      intro: record_assignment_ok autoAssign_ok)

lemma inquiry_create_ok:
  assumes "presales_ok d" and "inquiry_create dy locked now c dto u d = Inr (r, d')"
  shows "presales_ok d'"
proof -
  obtain fvs afvs a dups d1 stageId q d2 assigned where
    choose: "choose_applicant c dto afvs d = Inr (a, dups, d1)" and
    opened: "open_inquiry c stageId (Some u) (new_inquiry dto c a stageId u fvs) d1 = Inr (q, d2)" and
    last: "assign_created locked now c (ciq_projectId dto) u (inq_id q) d2 = (assigned, d')"
    using assms(2) unfolding inquiry_create_def by (elim returnedE) simp
  note c1 = choose_applicant_ok [OF assms(1) choose]
  have "presales_ok d2"
    by (rule open_inquiry_ok [OF _ _ _ opened]) (use c1 in \<open>auto simp: fresh_lead_def new_inquiry_def\<close>)
  then show ?thesis using last by (rule assign_created_ok)
qed

lemma filter_same_contact_live:
  "a \<in> set (filter (same_contact c ph em) (people d)) \<Longrightarrow> live (people d) c (lap_id a)"
  by (auto simp: same_contact_def live_def)

lemma createFromLead_ok:
  assumes "presales_ok d" and "createFromLead locked now c lead d = Inr (r, d')"
  shows "presales_ok d'"
proof -
  let ?dups = "filter (same_contact c (normalizePhone (led_phone lead)) (email_key (led_email lead))) (people d)"
  let ?pick = "if ?dups \<noteq> [] \<and> config_flag pcf_phoneDedupAutoLink c d then (lap_id (hd ?dups), d)
      else insert_person (bare_applicant c (led_name lead) (led_phone lead) (led_email lead)) d"
  obtain a d1 stageId q d2 fvs where pick: "?pick = (a, d1)"
    and opened: "open_inquiry c stageId None (machine_inquiry c a (led_projectId lead) stageId fvs) d1 = Inr (q, d2)"
    and d': "d' = assign_from_pool locked now c (led_projectId lead) (inq_id q) d2"
    using assms(2) by (cases ?pick) (auto simp: createFromLead_def Let_def)
  have "presales_ok d1 \<and> live (people d1) c a"
  proof (cases "?dups \<noteq> [] \<and> config_flag pcf_phoneDedupAutoLink c d")
    case True
    then have "hd ?dups \<in> set ?dups" by (intro hd_in_set) simp
    then have "live (people d) c (lap_id (hd ?dups))" by (rule filter_same_contact_live)
    moreover have "a = lap_id (hd ?dups)" "d1 = d" using True pick by (metis prod.inject)+
    ultimately show ?thesis using assms(1) by blast
  next
    case False
    then have "insert_person (bare_applicant c (led_name lead) (led_phone lead) (led_email lead)) d = (a, d1)"
      using pick by presburger
    then show ?thesis by (rule insert_person_ok [OF assms(1)]) (simp_all add: bare_applicant_def)
  qed
  then have "presales_ok d2"
    by (intro open_inquiry_ok [OF _ _ _ opened]) (auto simp: fresh_lead_def machine_inquiry_def)
  then show ?thesis unfolding d' by (rule assign_from_pool_ok)
qed

lemma import_one_ok:
  assumes "presales_ok (snd s)" and "import_one locked now c autoLink stageId row s = Inr s'"
  shows "presales_ok (snd s')"
proof -
  obtain res d where s: "s = (res, d)" by (cases s)
  let ?ex = "List.find (same_contact c (normalizePhone (imp_primaryPhone row)) (email_key (imp_email row))) (people d)"
  let ?new = "insert_person (bare_applicant c (imp_applicantName row) (imp_primaryPhone row) (imp_email row)) d"
  let ?pick = "case ?ex of
      Some a \<Rightarrow> if autoLink then (lap_id a, res\<lparr>imr_linked := imr_linked res @ [(imp_rowNum row, lap_id a)]\<rparr>, d)
         else (case ?new of (i, d') \<Rightarrow> (i, res\<lparr>imr_flagged := imr_flagged res @ [(imp_rowNum row, i, lap_id a)]\<rparr>, d'))
    | None \<Rightarrow> (case ?new of (i, d') \<Rightarrow> (i, res, d'))"
  obtain a res1 d1 where pick: "?pick = (a, res1, d1)" by (cases ?pick)
  obtain projectId mk q d2 where opened: "open_inquiry c stageId None mk d1 = Inr (q, d2)" and mk: "fresh_lead c a stageId mk"
    and s': "snd s' = assign_from_pool locked now c projectId (inq_id q) d2"
    using assms(2) unfolding s import_one_def Let_def case_prod_conv pick
    by (elim returnedE) (auto simp: fresh_lead_def machine_inquiry_def intro!: that)
  have new: "presales_ok (snd ?new) \<and> live (people (snd ?new)) c (fst ?new)"
    by (rule insert_person_ok) (use assms(1) s in \<open>auto simp: bare_applicant_def\<close>)
  have "presales_ok d1 \<and> live (people d1) c a"
  proof (cases "\<exists>x. ?ex = Some x \<and> autoLink")
    case True
    then obtain x where x: "?ex = Some x" "a = lap_id x" "d1 = d" using pick by auto
    then have "live (people d) c a" using find_SomeD [OF x(1)] by (auto simp: same_contact_def live_def)
    then show ?thesis using x assms(1) s by simp
  next
    case False
    then have "a = fst ?new \<and> d1 = snd ?new" using pick by (cases ?new) (auto split: option.splits if_splits)
    then show ?thesis using new by simp
  qed
  then have "presales_ok d2" using open_inquiry_ok [OF _ _ mk opened] by blast
  then show ?thesis unfolding s' by (rule assign_from_pool_ok)
qed

lemma importInquiries_ok:
  assumes "presales_ok d" and "importInquiries locked now c rows d = Inr (r, d')"
  shows "presales_ok d'"
proof -
  obtain stageId autoLink where "foldE (import_one locked now c autoLink stageId) rows
      (\<lparr>imr_createdCount = 0, imr_linked = [], imr_flagged = []\<rparr>, d) = Inr (r, d')"
    using assms(2) by (auto simp: importInquiries_def)
  then have "presales_ok (snd (r, d'))"
    by (rule foldE_invariant) (use assms(1) import_one_ok in auto)
  then show ?thesis by simp
qed

section \<open>Working leads\<close>

lemma scoped_inquiryD:
  "scoped_inquiry c i scope d = Inr q \<Longrightarrow> q \<in> set (inquiries d) \<and> inq_id q = i \<and> inq_companyId q = c \<and> in_scope scope q"
  by (auto simp: scoped_inquiry_def dest: find_SomeD)

lemma presales_ok_lead:
  assumes "presales_ok d" and "q \<in> set (inquiries d)" "inq_id q = i"
    and "\<And>x. inq_id (f x) = inq_id x" "\<And>x. inq_companyId (f x) = inq_companyId x" "\<And>x. inq_applicantId (f x) = inq_applicantId x"
    and "lead_ok (stageHistory d @ hs1) (dispositionHistory d @ ds1) (f q)"
    and "\<And>h. h \<in> set hs1 \<Longrightarrow> sth_inquiryId h = i" "\<And>h. h \<in> set ds1 \<Longrightarrow> dsp_inquiryId h = i \<and> documented h"
    and "inquiries d' = update_rows (\<lambda>x. inq_id x = i) f (inquiries d)" "stageHistory d' = stageHistory d @ hs1"
    and "dispositionHistory d' = dispositionHistory d @ ds1" "people d' = people d" "stages d' = stages d"
    and "next_presales_id d \<le> next_presales_id d'"
  shows "presales_ok d'"
proof -
  have "books_ok (next_presales_id d) (update_rows (\<lambda>x. inq_id x = i) f (inquiries d)) (stageHistory d @ hs1) (dispositionHistory d @ ds1)"
    by (rule books_update) (use assms in \<open>auto simp: presales_ok_def\<close>)
  moreover have "people_ok (next_presales_id d) (people d) (update_rows (\<lambda>x. inq_id x = i) f (inquiries d))"
    by (rule people_update) (use assms in \<open>auto simp: presales_ok_def\<close>)
  ultimately show ?thesis using assms
    by (auto simp: presales_ok_def intro: books_more people_more stages_more)
qed

lemma lead_of:
  "presales_ok d \<Longrightarrow> q \<in> set (inquiries d) \<Longrightarrow> lead_ok (stageHistory d) (dispositionHistory d) q"
  by (simp add: presales_ok_def books_ok_def)

lemma inquiry_update_ok:
  assumes "presales_ok d" and "inquiry_update dy now c i dto scope actor d = Inr d'"
  shows "presales_ok d'"
proof -
  obtain q newFields where q: "scoped_inquiry c i scope d = Inr q"
    and dump: "\<not> ((uiq_status dto \<noteq> None \<and> uiq_status dto \<noteq> Some (inq_status q)) \<and> uiq_status dto = Some DUMPED \<and>
        (uiq_dumpReasonId dto = None \<or> blank (uiq_dumpRemarks dto)))"
    and d': "d' =
      (let statusChanged = (uiq_status dto \<noteq> None \<and> uiq_status dto \<noteq> Some (inq_status q));
           dumping = (statusChanged \<and> uiq_status dto = Some DUMPED);
           stageChanged = (uiq_stageId dto \<noteq> None \<and> uiq_stageId dto \<noteq> inq_stageId q);
           d1 = upd_inquiry i (apply_inquiry_dto dto now newFields) d;
           d2 = (if stageChanged then writeStageTransition c i (inq_stageId q) (uiq_stageId dto) (Some actor) d1 else d1)
       in if statusChanged
          then writeDispositionTransition c i (Some (inq_status q)) (the (uiq_status dto)) (Some actor)
                 (if dumping then uiq_dumpReasonId dto else None) (if dumping then uiq_dumpRemarks dto else None) d2
          else d2)"
    using assms(2) unfolding inquiry_update_def Let_def by (elim returnedE) (auto simp: Let_def)
  define statusChanged where "statusChanged \<longleftrightarrow> uiq_status dto \<noteq> None \<and> uiq_status dto \<noteq> Some (inq_status q)"
  define stageChanged where "stageChanged \<longleftrightarrow> uiq_stageId dto \<noteq> None \<and> uiq_stageId dto \<noteq> inq_stageId q"
  define hs1 where "hs1 = (if stageChanged then [\<lparr>sth_companyId = c, sth_inquiryId = i, sth_fromStageId = inq_stageId q,
      sth_toStageId = the (uiq_stageId dto), sth_changedById = Some actor, sth_isAdministrative = False\<rparr>] else [])"
  define ds1 where "ds1 = (if statusChanged then [\<lparr>dsp_companyId = c, dsp_inquiryId = i, dsp_fromStatus = Some (inq_status q),
      dsp_toStatus = the (uiq_status dto), dsp_reasonId = (if uiq_status dto = Some DUMPED then uiq_dumpReasonId dto else None),
      dsp_remarks = (if uiq_status dto = Some DUMPED then uiq_dumpRemarks dto else None), dsp_changedById = Some actor\<rparr>] else [])"
  let ?f = "apply_inquiry_dto dto now newFields"
  have lead: "q \<in> set (inquiries d)" "inq_id q = i" "inq_companyId q = c" using scoped_inquiryD [OF q] by auto
  have ok: "lead_ok (stageHistory d) (dispositionHistory d) q" by (rule lead_of [OF assms(1) lead(1)])
  have "lead_ok (stageHistory d @ hs1) (dispositionHistory d @ ds1) (?f q)"
    using ok lead(2)
    by (auto simp: lead_ok_def hs1_def ds1_def stage_path_append status_path_append gap_free_snoc settled_snoc
        stage_path_def [of "[_]"] status_path_def [of "[_]"] stage_path_def [of "[]"] status_path_def [of "[]"]
        statusChanged_def stageChanged_def apply_inquiry_dto_def Let_def orKeep_def orElse_def silently_def
        split: option.splits)
  moreover have "documented h" if "h \<in> set ds1" for h
    using that dump by (auto simp: ds1_def documented_def statusChanged_def split: if_splits)
  ultimately show ?thesis
    using lead
    by (intro presales_ok_lead [OF assms(1) lead(1,2), of ?f hs1 ds1])
      (auto simp: d' hs1_def ds1_def stageChanged_def statusChanged_def Let_def upd_inquiry_def writeStageTransition_def
        writeDispositionTransition_def apply_inquiry_dto_def split: option.splits if_splits)
qed

lemma find_inquiryD: "find_inquiry c i d = Some q \<Longrightarrow> q \<in> set (inquiries d) \<and> inq_id q = i \<and> inq_companyId q = c"
  by (auto simp: find_inquiry_def dest: find_SomeD)

lemma attachBooking_ok:
  assumes "presales_ok d" and "attachBooking now c i b actor d = Inr d'"
  shows "presales_ok d'"
proof -
  obtain q and bk :: linked_booking where q: "find_inquiry c i d = Some q" and "inq_status q \<noteq> DUMPED"
    and d': "d' = (if inq_status q \<noteq> SUCCESSFUL
         then writeDispositionTransition c i (Some (inq_status q)) SUCCESSFUL (Some actor) None
                (Some (''Linked to booking '' @ lbk_bookingNumber bk))
                (upd_inquiry i (\<lambda>x. x\<lparr>inq_status := SUCCESSFUL, inq_convertedAt := Some now\<rparr>)
                  (d\<lparr>linkedBookings := update_rows (\<lambda>x. lbk_id x = b) (\<lambda>x. x\<lparr>lbk_sourceInquiryId := Some i\<rparr>) (linkedBookings d)\<rparr>))
         else d\<lparr>linkedBookings := update_rows (\<lambda>x. lbk_id x = b) (\<lambda>x. x\<lparr>lbk_sourceInquiryId := Some i\<rparr>) (linkedBookings d)\<rparr>)"
    using assms(2) unfolding attachBooking_def Let_def by (elim returnedE) (rule that [OF _ _ sym], assumption+)
  note lead = find_inquiryD [OF q]
  show ?thesis
  proof (cases "inq_status q = SUCCESSFUL")
    case True
    then show ?thesis using d' by (auto simp: Let_def intro: presales_ok_other_tables [OF assms(1)])
  next
    case False
    define row where "row = \<lparr>dsp_companyId = c, dsp_inquiryId = i, dsp_fromStatus = Some (inq_status q), dsp_toStatus = SUCCESSFUL,
        dsp_reasonId = None, dsp_remarks = Some (''Linked to booking '' @ lbk_bookingNumber bk), dsp_changedById = Some actor\<rparr>"
    have "lead_ok (stageHistory d @ []) (dispositionHistory d @ [row]) (q\<lparr>inq_status := SUCCESSFUL, inq_convertedAt := Some now\<rparr>)"
      using lead_of [OF assms(1), of q] lead
      by (auto simp: lead_ok_def status_path_append status_path_def [of "[_]"] settled_snoc silently_def row_def)
    then show ?thesis
      using lead False d'
      by (intro presales_ok_lead [OF assms(1), of q i "\<lambda>x. x\<lparr>inq_status := SUCCESSFUL, inq_convertedAt := Some now\<rparr>" "[]" "[row]"])
        (auto simp: Let_def writeDispositionTransition_def upd_inquiry_def row_def documented_def)
  qed
qed

lemma inquiry_assign_ok: "presales_ok d \<Longrightarrow> inquiry_assign c i u actor r scope d = Inr d' \<Longrightarrow> presales_ok d'"
  by (auto simp: inquiry_assign_def intro: record_assignment_ok)

lemma follow_up_create_ok:
  assumes "presales_ok d" and "follow_up_create now c i dto u scope d = Inr (f, d')"
  shows "presales_ok d'"
proof -
  let ?n = "next_presales_id d"
  obtain q fup where q: "scoped_inquiry c i scope d = Inr q"
    and d': "d' = (let d1 = d\<lparr>next_presales_id := ?n + 1, followUps := followUps d @ [fup]\<rparr>
      in case fud_nextActionAt dto of None \<Rightarrow> d1
         | Some t \<Rightarrow> upd_inquiry i (\<lambda>x. x\<lparr>inq_nextFollowupAt := Some t,
             inq_status := (if inq_status q = OPEN then CONTINUED else inq_status q)\<rparr>) d1)"
    using assms(2) unfolding follow_up_create_def by (elim returnedE) (auto simp: Let_def)
  note lead = scoped_inquiryD [OF q]
  show ?thesis
  proof (cases "fud_nextActionAt dto")
    case None
    then show ?thesis using d' by (auto simp: Let_def intro: presales_ok_other_tables [OF assms(1)])
  next
    case (Some t)
    let ?g = "\<lambda>x. x\<lparr>inq_nextFollowupAt := Some t, inq_status := (if inq_status q = OPEN then CONTINUED else inq_status q)\<rparr>"
    have "lead_ok (stageHistory d @ []) (dispositionHistory d @ []) (?g q)"
      using lead_of [OF assms(1), of q] lead
      by (cases "inq_status q") (auto simp: lead_ok_def intro: settled_continues)
    then show ?thesis
      using lead d' Some
      by (intro presales_ok_lead [OF assms(1), of q i ?g "[]" "[]"]) (auto simp: Let_def upd_inquiry_def)
  qed
qed

lemma runForCompany_ok:
  assumes "presales_ok d" and "runForCompany now c d = (es, ms, d')"
  shows "presales_ok d'"
proof -
  have "presales_ok (fold (\<lambda>q. upd_inquiry (inq_id q) (\<lambda>x. x\<lparr>inq_lastEscalatedAt := Some now\<rparr>)) qs e)"
    if "presales_ok e" for qs e
    using that
  proof (induction qs arbitrary: e)
    case (Cons q qs)
    have "presales_ok (upd_inquiry (inq_id q) (\<lambda>x. x\<lparr>inq_lastEscalatedAt := Some now\<rparr>) e)"
      by (rule upd_inquiry_ok [OF Cons.prems]) (simp_all add: same_standing_def)
    then show ?case using Cons.IH by simp
  qed simp
  then show ?thesis using assms by (auto simp: runForCompany_def Let_def split: if_splits)
qed

section \<open>Stages\<close>

lemma cleared_defaults:
  "filter stg_isDefault (update_rows (\<lambda>s. p s \<and> stg_isDefault s) (\<lambda>s. s\<lparr>stg_isDefault := False\<rparr>) ss) =
     filter (\<lambda>s. \<not> p s) (filter stg_isDefault ss)"
  by (induction ss) (simp_all add: update_rows_def)

lemma clear_defaults_ok:
  assumes "presales_ok d"
  shows "presales_ok (clear_defaults p d)"
proof -
  let ?ss = "update_rows (\<lambda>s. p s \<and> stg_isDefault s) (\<lambda>s. s\<lparr>stg_isDefault := False\<rparr>) (stages d)"
  have ok: "stages_ok (next_presales_id d) (stages d)" using assms by (simp add: presales_ok_def)
  have "map stg_id ?ss = map stg_id (stages d)" by (rule map_update_rows) simp
  moreover have "\<forall>s\<in>set ?ss. stg_id s < next_presales_id d" using ok by (auto simp: stages_ok_def update_rows_def)
  moreover have "distinct (map stg_companyId (filter stg_isDefault ?ss))"
    unfolding cleared_defaults using ok
    by (intro distinct_map_filter [of stg_companyId "filter stg_isDefault (stages d)"]) (simp add: stages_ok_def)
  ultimately have "stages_ok (next_presales_id d) ?ss" using ok by (simp add: stages_ok_def)
  then show ?thesis using assms by (simp add: presales_ok_def clear_defaults_def)
qed

lemma clear_defaults_none:
  "s \<in> set (stages (clear_defaults p d)) \<Longrightarrow> p s \<Longrightarrow> (\<And>x. p (x\<lparr>stg_isDefault := False\<rparr>) = p x) \<Longrightarrow> \<not> stg_isDefault s"
  by (auto simp: clear_defaults_def update_rows_def split: if_splits)

lemma stages_ok_snoc:
  assumes "stages_ok n ss" and "stg_id s = n"
    and "stg_isDefault s \<Longrightarrow> \<forall>t\<in>set ss. stg_companyId t = stg_companyId s \<longrightarrow> \<not> stg_isDefault t"
  shows "stages_ok (n + 1) (ss @ [s])"
  using assms by (auto simp: stages_ok_def)

lemma stage_create_ok:
  assumes "presales_ok d" and "stage_create c dto d = Inr (i, d')"
  shows "presales_ok d'"
proof -
  define d1 where "d1 = (if cst_isDefault dto then clear_defaults (\<lambda>s. stg_companyId s = c) d else d)"
  let ?s = "\<lparr>stg_id = next_presales_id d1, stg_companyId = c, stg_name = cst_name dto, stg_sortOrder = cst_sortOrder dto,
      stg_isActive = cst_isActive dto, stg_isDefault = cst_isDefault dto\<rparr>"
  have ok: "presales_ok d1" using assms(1) clear_defaults_ok by (simp add: d1_def)
  have d': "d' = d1\<lparr>next_presales_id := next_presales_id d1 + 1, stages := stages d1 @ [?s]\<rparr>"
    using assms(2) unfolding stage_create_def Let_def d1_def [symmetric] by (elim returnedE) simp
  have "\<not> stg_isDefault t" if "cst_isDefault dto" "t \<in> set (stages d1)" "stg_companyId t = c" for t
    by (rule clear_defaults_none [of t "\<lambda>s. stg_companyId s = c" d]) (use that in \<open>simp_all add: d1_def\<close>)
  then have "stages_ok (next_presales_id d1 + 1) (stages d1 @ [?s])"
    by (intro stages_ok_snoc) (use ok in \<open>simp_all add: presales_ok_def\<close>)
  moreover have "books_ok (next_presales_id d1 + 1) (inquiries d1) (stageHistory d1) (dispositionHistory d1)"
    "people_ok (next_presales_id d1 + 1) (people d1) (inquiries d1)"
    using ok books_more [of "next_presales_id d1"] people_more [of "next_presales_id d1"] by (simp_all add: presales_ok_def)
  ultimately show ?thesis by (simp add: d' presales_ok_def)
qed

lemma filter_eq_distinct: "distinct xs \<Longrightarrow> filter (\<lambda>j. j = i) xs = (if i \<in> set xs then [i] else [])"
  by (induction xs) auto

lemma reassign_books:
  fixes actor t :: id
  assumes ok: "books_ok n qs hs ds" and affected: "affected = filter (occupies c s) qs"
  defines "hs1 \<equiv> map (\<lambda>i. \<lparr>sth_companyId = c, sth_inquiryId = i, sth_fromStageId = Some s, sth_toStageId = t,
      sth_changedById = Some actor, sth_isAdministrative = True\<rparr>) (map inq_id affected)"
  shows "books_ok n (update_rows (\<lambda>q. inq_id q \<in> set (map inq_id affected)) (\<lambda>q. q\<lparr>inq_stageId := Some t\<rparr>) qs) (hs @ hs1) ds"
proof -
  have dist: "distinct (map inq_id qs)" using ok by (simp add: books_ok_def)
  have path: "stage_path hs1 i = (if i \<in> set (map inq_id affected) then [(Some s, t)] else [])" for i
  proof -
    have "distinct (map inq_id affected)" using dist unfolding affected by (rule distinct_map_filter)
    moreover have "stage_path hs1 i = map (\<lambda>i. (Some s, t)) (filter (\<lambda>j. j = i) (map inq_id affected))"
      by (simp add: stage_path_def hs1_def filter_map o_def)
    ultimately show ?thesis by (simp add: filter_eq_distinct del: list.set_map)
  qed
  have occ: "inq_stageId q = Some s" if "q \<in> set qs" "inq_id q \<in> set (map inq_id affected)" for q
  proof -
    have "\<exists>x. x \<in> set qs \<and> occupies c s x \<and> inq_id x = inq_id q" using that(2) by (auto simp: affected)
    then obtain x where "x \<in> set qs" "occupies c s x" "inq_id x = inq_id q" by blast
    then have "x = q" using dist that(1) by (auto simp: distinct_map dest: inj_onD)
    then show ?thesis using \<open>occupies c s x\<close> by (simp add: occupies_def)
  qed
  let ?upd = "update_rows (\<lambda>q. inq_id q \<in> set (map inq_id affected)) (\<lambda>q. q\<lparr>inq_stageId := Some t\<rparr>) qs"
  have "lead_ok (hs @ hs1) ds (if inq_id q \<in> set (map inq_id affected) then q\<lparr>inq_stageId := Some t\<rparr> else q)"
    if "q \<in> set qs" for q
    using ok that occ [OF that] by (auto simp: books_ok_def lead_ok_def stage_path_append path gap_free_snoc simp del: list.set_map)
  moreover have "inq_id q < n" if "q \<in> set qs" for q using ok that by (simp add: books_ok_def)
  ultimately have leads: "\<forall>q\<in>set ?upd. inq_id q < n \<and> lead_ok (hs @ hs1) ds q"
    by (fastforce simp: update_rows_def simp del: list.set_map)
  have "map inq_id ?upd = map inq_id qs" by (rule map_update_rows) simp
  then have "distinct (map inq_id ?upd)" using dist by (rule subst [OF sym])
  moreover have "\<forall>h\<in>set (hs @ hs1). sth_inquiryId h < n"
    using ok by (auto simp: books_ok_def hs1_def affected)
  moreover have "\<forall>h\<in>set ds. dsp_inquiryId h < n \<and> documented h" using ok by (simp add: books_ok_def)
  ultimately show ?thesis using leads unfolding books_ok_def by (intro conjI)
qed

lemma reassignOccupants_ok:
  assumes "presales_ok d" and "reassignOccupants c i r actor d = Inr d'"
  shows "presales_ok d'"
proof -
  let ?as = "filter (occupies c i) (inquiries d)"
  show ?thesis
  proof (cases "?as = []")
    case True
    then show ?thesis using assms by (simp add: reassignOccupants_def Let_def)
  next
    case False
    then obtain t where d': "d' = d\<lparr>inquiries := update_rows (\<lambda>q. inq_id q \<in> set (map inq_id ?as)) (\<lambda>q. q\<lparr>inq_stageId := Some t\<rparr>) (inquiries d),
        stageHistory := stageHistory d @ map (\<lambda>i'. \<lparr>sth_companyId = c, sth_inquiryId = i', sth_fromStageId = Some i,
          sth_toStageId = t, sth_changedById = Some actor, sth_isAdministrative = True\<rparr>) (map inq_id ?as)\<rparr>"
      using assms(2) by (auto simp: reassignOccupants_def Let_def)
    have b: "books_ok (next_presales_id d) (inquiries d) (stageHistory d) (dispositionHistory d)"
      using assms(1) by (simp add: presales_ok_def)
    have "people_ok (next_presales_id d) (people d) (inquiries d')"
      unfolding d' using assms(1) by (auto simp: presales_ok_def intro: people_update)
    then show ?thesis
      using assms(1) reassign_books [OF b refl, of c i t actor] by (simp add: presales_ok_def d' del: list.set_map)
  qed
qed

lemma reassignOccupants_stages: "reassignOccupants c i r actor d = Inr d' \<Longrightarrow> stages d' = stages d"
  unfolding reassignOccupants_def Let_def by (auto split: if_splits elim!: returnedE)

lemma update_rows_absent: "i \<notin> stg_id ` set ss \<Longrightarrow> update_rows (\<lambda>s. stg_id s = i) f ss = ss"
  by (induction ss) (auto simp: update_rows_def)

lemma update_rows_append: "update_rows p f (xs @ ys) = update_rows p f xs @ update_rows p f ys"
  "update_rows p f (x # xs) = (if p x then f x else x) # update_rows p f xs"
  by (simp_all add: update_rows_def)

lemma stages_ok_dto:
  assumes ok: "stages_ok n ss" and "ex \<in> set ss" "stg_id ex = i" "stg_companyId ex = c"
    and clear: "ust_isDefault dto = Some True \<Longrightarrow> \<forall>s\<in>set ss. stg_companyId s = c \<and> stg_id s \<noteq> i \<longrightarrow> \<not> stg_isDefault s"
  shows "stages_ok n (update_rows (\<lambda>s. stg_id s = i) (apply_stage_dto dto) ss)"
proof -
  obtain a b where ss: "ss = a @ ex # b" using assms(2) by (auto simp: in_set_conv_decomp)
  then have "i \<notin> stg_id ` set a" "i \<notin> stg_id ` set b" using ok assms(3) by (auto simp: stages_ok_def)
  then have new: "update_rows (\<lambda>s. stg_id s = i) (apply_stage_dto dto) ss = a @ apply_stage_dto dto ex # b"
    using assms(3) by (simp add: ss update_rows_append update_rows_absent)
  have same: "stg_id (apply_stage_dto dto ex) = stg_id ex" "stg_companyId (apply_stage_dto dto ex) = stg_companyId ex"
    by (simp_all add: apply_stage_dto_def)
  have "distinct (map stg_companyId (filter stg_isDefault (a @ apply_stage_dto dto ex # b)))"
  proof (cases "ust_isDefault dto = Some True")
    case True
    have "\<not> stg_isDefault s" if "s \<in> set a \<union> set b" "stg_companyId s = c" for s
    proof -
      have "stg_id s \<noteq> i" using that(1) \<open>i \<notin> stg_id ` set a\<close> \<open>i \<notin> stg_id ` set b\<close> by auto
      then show ?thesis using clear [OF True] that by (auto simp: ss)
    qed
    then show ?thesis using ok assms(4) by (auto simp: stages_ok_def ss same split: if_splits)
  next
    case False
    then have "stg_isDefault (apply_stage_dto dto ex) \<Longrightarrow> stg_isDefault ex"
      by (cases "ust_isDefault dto") (auto simp: apply_stage_dto_def orKeep_def)
    then show ?thesis using ok by (auto simp: stages_ok_def ss same split: if_splits)
  qed
  then show ?thesis using ok unfolding new by (auto simp: stages_ok_def ss same)
qed

lemma stage_update_ok:
  assumes "presales_ok d" and "stage_update c i dto actor d = Inr d'"
  shows "presales_ok d'"
proof -
  obtain ex d1 where ex: "find_stage c i d = Some ex"
    and r: "(if ust_isActive dto = Some False \<and> stg_isActive ex then reassignOccupants c i (ust_reassignToStageId dto) actor d else Inr d) = Inr d1"
    and d': "d' = (if ust_isDefault dto = Some True then clear_defaults (\<lambda>s. stg_companyId s = c \<and> stg_id s \<noteq> i) d1 else d1)
      \<lparr>stages := update_rows (\<lambda>s. stg_id s = i) (apply_stage_dto dto)
        (stages (if ust_isDefault dto = Some True then clear_defaults (\<lambda>s. stg_companyId s = c \<and> stg_id s \<noteq> i) d1 else d1))\<rparr>"
    using assms(2) unfolding stage_update_def stage_findOne_def Let_def
    by (elim returnedE) (rule that, assumption, assumption, (assumption | erule sym))
  define d2 where "d2 = (if ust_isDefault dto = Some True then clear_defaults (\<lambda>s. stg_companyId s = c \<and> stg_id s \<noteq> i) d1 else d1)"
  have d1: "presales_ok d1" "stages d1 = stages d"
    using r assms(1) reassignOccupants_ok reassignOccupants_stages by (auto split: if_splits)
  have ok: "presales_ok d2" using d1 clear_defaults_ok by (simp add: d2_def)
  have m: "ex \<in> set (stages d1)" "stg_id ex = i" "stg_companyId ex = c"
    using ex d1(2) by (auto simp: find_stage_def dest: find_SomeD)
  have mem: "ex \<in> set (stages d2)"
    using m by (auto simp: d2_def clear_defaults_def update_rows_def intro!: rev_image_eqI)
  have "stages_ok (next_presales_id d2) (update_rows (\<lambda>s. stg_id s = i) (apply_stage_dto dto) (stages d2))"
  proof (rule stages_ok_dto [OF _ mem m(2,3)])
    show "stages_ok (next_presales_id d2) (stages d2)" using ok by (simp add: presales_ok_def)
    assume "ust_isDefault dto = Some True"
    then show "\<forall>s\<in>set (stages d2). stg_companyId s = c \<and> stg_id s \<noteq> i \<longrightarrow> \<not> stg_isDefault s"
      using clear_defaults_none [of _ "\<lambda>s. stg_companyId s = c \<and> stg_id s \<noteq> i" d1] by (simp add: d2_def)
  qed
  then show ?thesis using ok by (simp add: d' d2_def [symmetric] presales_ok_def)
qed

section \<open>Applicants\<close>

lemma presales_ok_people:
  assumes "presales_ok d" and "inquiries d' = inquiries d" "stageHistory d' = stageHistory d"
    and "dispositionHistory d' = dispositionHistory d" "stages d' = stages d" "next_presales_id d' = next_presales_id d"
    and "people d' = update_rows p f (people d)" and "\<And>a. lap_id (f a) = lap_id a"
    and "\<And>a. lap_companyId (f a) = lap_companyId a" "\<And>a. lap_mergedIntoId (f a) = lap_mergedIntoId a"
  shows "presales_ok d'"
proof -
  have "live (people d') c i" if "live (people d) c i" for c i
  proof -
    from that obtain a where a: "a \<in> set (people d)" "lap_id a = i" "lap_companyId a = c" "lap_mergedIntoId a = None"
      unfolding live_def by blast
    then have "(if p a then f a else a) \<in> set (people d')" using assms(7) by (auto simp: update_rows_def)
    then show ?thesis using a assms(8-10) unfolding live_def by (metis (full_types))
  qed
  moreover have "map lap_id (people d') = map lap_id (people d)" using assms(7,8) by (simp add: map_update_rows)
  moreover have "\<forall>a\<in>set (people d'). \<exists>b\<in>set (people d). lap_id a = lap_id b"
    using assms(7,8) by (auto simp: update_rows_def)
  ultimately have "people_ok (next_presales_id d) (people d') (inquiries d)"
    using assms(1) by (auto simp: presales_ok_def people_ok_def)
  then show ?thesis using assms by (simp add: presales_ok_def)
qed

lemma person_create_ok:
  assumes "presales_ok d" and "person_create dy enc c dto d = Inr (i, dups, d')"
  shows "presales_ok d'"
proof -
  obtain fvs where "insert_person (\<lambda>i. (inline_applicant c dto fvs i)
      \<lparr>lap_panCiphertext := map_option enc (cap_pan dto), lap_panMasked := map_option mask_pan (cap_pan dto)\<rparr>) d = (i, d')"
    using assms(2) unfolding person_create_def Let_def by (elim returnedE) simp
  then show ?thesis
    using insert_person_ok [OF assms(1), of _ i d' c] by (simp add: inline_applicant_def)
qed

lemma person_update_ok:
  assumes "presales_ok d" and "person_update dy enc c i dto d = Inr d'"
  shows "presales_ok d'"
proof -
  obtain fvs where "d' = upd_person i (apply_applicant_dto enc dto fvs) d"
    using assms(2) unfolding person_update_def by (elim returnedE) auto
  then show ?thesis
    by (intro presales_ok_people [OF assms(1), of d' _ "apply_applicant_dto enc dto fvs"])
      (auto simp: upd_person_def apply_applicant_dto_def)
qed

lemma find_personD: "find_person c i d = Some a \<Longrightarrow> a \<in> set (people d) \<and> lap_id a = i \<and> lap_companyId a = c"
  by (auto simp: find_person_def dest: find_SomeD)

lemma merge_applicants_ok:
  assumes "presales_ok d" and "merge_applicants c s m actor d = Inr d'"
  shows "presales_ok d'"
proof -
  obtain sv mg where diff: "s \<noteq> m" and sv: "find_person c s d = Some sv" "lap_mergedIntoId sv = None"
    and mg: "find_person c m d = Some mg"
    and d': "inquiries d' = update_rows (\<lambda>q. inq_applicantId q = m \<and> inq_companyId q = c) (\<lambda>q. q\<lparr>inq_applicantId := s\<rparr>) (inquiries d)"
      "people d' = update_rows (\<lambda>a. lap_id a = m) (\<lambda>a. a\<lparr>lap_mergedIntoId := Some s\<rparr>) (people d)"
      "stageHistory d' = stageHistory d" "dispositionHistory d' = dispositionHistory d" "stages d' = stages d"
      "next_presales_id d' = next_presales_id d"
    using assms(2) unfolding merge_applicants_def by (elim returnedE) (auto simp: Let_def upd_person_def)
  have p: "people_ok (next_presales_id d) (people d) (inquiries d)" using assms(1) by (simp add: presales_ok_def)
  have mc: "lap_companyId a = c" if "a \<in> set (people d)" "lap_id a = m" for a
    using find_personD [OF mg] that p by (auto simp: people_ok_def distinct_map dest: inj_onD)
  have keep: "live (people d') k i" if "live (people d) k i" "\<not> (i = m \<and> k = c)" for k i
    using that mc by (auto simp: live_def d'(2) update_rows_def)
  have "live (people d) c s" using sv by (rule find_person_live)
  then have surv: "live (people d') c s" using keep diff by blast
  have "live (people d') (inq_companyId q) (inq_applicantId q)" if "q \<in> set (inquiries d')" for q
  proof -
    obtain x where "x \<in> set (inquiries d)" "q = (if inq_applicantId x = m \<and> inq_companyId x = c then x\<lparr>inq_applicantId := s\<rparr> else x)"
      using \<open>q \<in> set (inquiries d')\<close> by (auto simp: d'(1) update_rows_def)
    then show ?thesis using p surv keep by (auto simp: people_ok_def)
  qed
  moreover have "map lap_id (people d') = map lap_id (people d)" by (simp add: d'(2) map_update_rows)
  moreover have "\<forall>a\<in>set (people d'). lap_id a < next_presales_id d" using p by (auto simp: d'(2) update_rows_def people_ok_def)
  ultimately have "people_ok (next_presales_id d) (people d') (inquiries d')" using p by (simp add: people_ok_def)
  moreover have "books_ok (next_presales_id d) (inquiries d') (stageHistory d) (dispositionHistory d)"
    unfolding d'(1) using assms(1) by (intro books_same_standing) (auto simp: presales_ok_def same_standing_def)
  ultimately show ?thesis using assms(1) by (simp add: presales_ok_def d'(3-6))
qed

section \<open>Tables beside the leads\<close>

lemma follow_up_update_ok: "presales_ok d \<Longrightarrow> follow_up_update c i dto scope d = Inr d' \<Longrightarrow> presales_ok d'"
  unfolding follow_up_update_def by (elim returnedE) (auto intro: presales_ok_other_tables)

lemma confirmDistinct_ok: "presales_ok d \<Longrightarrow> confirmDistinct c x y actor d = Inr d' \<Longrightarrow> presales_ok d'"
  unfolding confirmDistinct_def by (elim returnedE) (auto intro: presales_ok_other_tables split: if_splits)

lemma recordConsent_ok: "presales_ok d \<Longrightarrow> recordConsent now c i actor given src d = Inr d' \<Longrightarrow> presales_ok d'"
  unfolding recordConsent_def by (elim returnedE) (auto intro: presales_ok_other_tables)

lemma send_message_ok: "presales_ok d \<Longrightarrow> send_message c i q dto actor d = Inr (m, d') \<Longrightarrow> presales_ok d'"
  unfolding send_message_def Let_def by (elim returnedE) (auto intro: presales_ok_other_tables)

lemma process_send_ok: "presales_ok d \<Longrightarrow> presales_ok (process_send provider now job d)"
  by (auto simp: process_send_def intro: presales_ok_other_tables split: option.split)

lemma setMembership_ok: "presales_ok d \<Longrightarrow> setMembership now c p u dto d = Inr d' \<Longrightarrow> presales_ok d'"
  by (auto simp: setMembership_def upd_pool_def Let_def intro: presales_ok_other_tables split: option.splits elim!: returnedE)

section \<open>Runs\<close>

inductive presales_step :: "presales_db \<Rightarrow> presales_db \<Rightarrow> bool" where
  stage_created: "stage_create c dto d = Inr (i, d') \<Longrightarrow> presales_step d d'"
| stage_updated: "stage_update c i dto actor d = Inr d' \<Longrightarrow> presales_step d d'"
| lead_created: "inquiry_create dy locked now c dto u d = Inr (r, d') \<Longrightarrow> presales_step d d'"
| lead_received: "createFromLead locked now c lead d = Inr (r, d') \<Longrightarrow> presales_step d d'"
| leads_imported: "importInquiries locked now c rows d = Inr (r, d') \<Longrightarrow> presales_step d d'"
| lead_updated: "inquiry_update dy now c i dto scope actor d = Inr d' \<Longrightarrow> presales_step d d'"
| booking_attached: "attachBooking now c i b actor d = Inr d' \<Longrightarrow> presales_step d d'"
| lead_assigned: "inquiry_assign c i u actor r scope d = Inr d' \<Longrightarrow> presales_step d d'"
| followed_up: "follow_up_create now c i dto u scope d = Inr (f, d') \<Longrightarrow> presales_step d d'"
| follow_up_edited: "follow_up_update c i dto scope d = Inr d' \<Longrightarrow> presales_step d d'"
| escalated: "runForCompany now c d = (es, ms, d') \<Longrightarrow> presales_step d d'"
| pool_set: "setMembership now c p u dto d = Inr d' \<Longrightarrow> presales_step d d'"
| person_added: "person_create dy enc c dto d = Inr (i, dups, d') \<Longrightarrow> presales_step d d'"
| person_edited: "person_update dy enc c i dto d = Inr d' \<Longrightarrow> presales_step d d'"
| told_apart: "confirmDistinct c x y actor d = Inr d' \<Longrightarrow> presales_step d d'"
| merged: "merge_applicants c s m actor d = Inr d' \<Longrightarrow> presales_step d d'"
| consented: "recordConsent now c i actor given src d = Inr d' \<Longrightarrow> presales_step d d'"
| message_queued: "send_message c i q dto actor d = Inr (m, d') \<Longrightarrow> presales_step d d'"
| message_sent: "presales_step d (process_send provider now job d)"

inductive presales_run :: "presales_db \<Rightarrow> presales_db \<Rightarrow> bool" where
  start: "presales_run d d"
| one_more: "presales_run d d' \<Longrightarrow> presales_step d' d'' \<Longrightarrow> presales_run d d''"

lemma presales_step_ok: "presales_step d d' \<Longrightarrow> presales_ok d \<Longrightarrow> presales_ok d'"
  by (induction rule: presales_step.induct)
    (fact stage_create_ok stage_update_ok inquiry_create_ok createFromLead_ok importInquiries_ok inquiry_update_ok
      attachBooking_ok inquiry_assign_ok follow_up_create_ok follow_up_update_ok runForCompany_ok setMembership_ok
      person_create_ok person_update_ok confirmDistinct_ok merge_applicants_ok recordConsent_ok send_message_ok
      process_send_ok
    | blast intro: stage_create_ok stage_update_ok inquiry_create_ok createFromLead_ok importInquiries_ok inquiry_update_ok
      attachBooking_ok inquiry_assign_ok follow_up_create_ok follow_up_update_ok runForCompany_ok setMembership_ok
      person_create_ok person_update_ok confirmDistinct_ok merge_applicants_ok recordConsent_ok send_message_ok
      process_send_ok)+

lemma presales_run_ok: "presales_run d d' \<Longrightarrow> presales_ok d \<Longrightarrow> presales_ok d'"
  by (induction rule: presales_run.induct) (auto intro: presales_step_ok)

text \<open>
  A company's presales begin with no lead and no applicant; the stages it was set up with have
  at most one default.
\<close>

definition presales_start :: "presales_db \<Rightarrow> bool" where
  "presales_start d \<longleftrightarrow> inquiries d = [] \<and> stageHistory d = [] \<and> dispositionHistory d = [] \<and> people d = [] \<and>
     stages_ok (next_presales_id d) (stages d)"

lemma presales_start_ok: "presales_start d \<Longrightarrow> presales_ok d"
  by (simp add: presales_start_def presales_ok_def books_ok_def people_ok_def)

text \<open>
  C23: after any number of presales operations, one after the other, from a database without
  leads and applicants: the stage history of every lead is a chain without gaps from no stage to
  the stage the lead is in; its disposition history is one from no status to its status, but for
  moves from \<open>OPEN\<close> to \<open>CONTINUED\<close>, which need not be recorded; the lead has a conversion time
  exactly while it is \<open>SUCCESSFUL\<close>; its applicant is one of its own company that has not been
  merged away. Every recorded move to \<open>DUMPED\<close> has a reason and remarks, and no company has two
  default stages.
\<close>

theorem presales_records_true:
  assumes "presales_run d d'" and "presales_start d"
  shows "(\<forall>q\<in>set (inquiries d').
            gap_free None (stage_path (stageHistory d') (inq_id q)) (inq_stageId q) \<and>
            settled None (status_path (dispositionHistory d') (inq_id q)) (Some (inq_status q)) \<and>
            (inq_convertedAt q \<noteq> None \<longleftrightarrow> inq_status q = SUCCESSFUL) \<and>
            (\<exists>a\<in>set (people d'). lap_id a = inq_applicantId q \<and> lap_companyId a = inq_companyId q \<and>
               lap_mergedIntoId a = None)) \<and>
         (\<forall>h\<in>set (dispositionHistory d'). dsp_toStatus h = DUMPED \<longrightarrow> dsp_reasonId h \<noteq> None \<and> \<not> blank (dsp_remarks h)) \<and>
         distinct (map stg_companyId (filter stg_isDefault (stages d')))"
proof -
  have ok: "presales_ok d'" using assms presales_run_ok presales_start_ok by blast
  then have "\<forall>q\<in>set (inquiries d'). lead_ok (stageHistory d') (dispositionHistory d') q \<and>
      live (people d') (inq_companyId q) (inq_applicantId q)"
    by (simp add: presales_ok_def books_ok_def people_ok_def)
  then show ?thesis
    using ok by (auto simp: presales_ok_def books_ok_def stages_ok_def lead_ok_def live_def documented_def)
qed

definition demo_start :: presales_db where
  "demo_start = empty_presales\<lparr>stages := [\<lparr>stg_id = 5, stg_companyId = 7, stg_name = ''New'', stg_sortOrder = 0,
     stg_isActive = True, stg_isDefault = True\<rparr>]\<rparr>"

definition demo_lead_input :: lead_input where
  "demo_lead_input = \<lparr>led_name = ''Asha'', led_phone = ''9876543210'', led_email = None, led_projectId = None, led_note = None\<rparr>"

definition demo_call :: follow_up_dto where
  "demo_call = \<lparr>fud_typeId = None, fud_notes = None, fud_outcome = None, fud_interactionAt = None,
     fud_nextActionAt = Some 50, fud_scheduledAt = None, fud_venue = None\<rparr>"

definition demo_taken :: presales_db where
  "demo_taken = (case createFromLead (\<lambda>_. []) 10 7 demo_lead_input demo_start of Inr (_, d) \<Rightarrow> d | Inl _ \<Rightarrow> demo_start)"

definition demo_called :: presales_db where
  "demo_called = (case follow_up_create 20 7 101 demo_call None None demo_taken of Inr (_, d) \<Rightarrow> d | Inl _ \<Rightarrow> demo_taken)"

lemma demo_presales_run: "presales_run demo_start demo_called"
proof -
  have "\<not> isl (createFromLead (\<lambda>_. []) 10 7 demo_lead_input demo_start)" by code_simp
  then have "presales_step demo_start demo_taken"
    unfolding demo_taken_def by (auto simp: isl_def intro: lead_received split: sum.splits)
  moreover have "\<not> isl (follow_up_create 20 7 101 demo_call None None demo_taken)" by code_simp
  then have "presales_step demo_taken demo_called"
    unfolding demo_called_def by (auto simp: isl_def intro: followed_up split: sum.splits)
  ultimately show ?thesis by (blast intro: presales_run.intros)
qed

theorem presales_records_true_witness:
  "map (\<lambda>q. (inq_id q, inq_status q)) (inquiries demo_called) = [(101, CONTINUED)] \<and>
     settled None (status_path (dispositionHistory demo_called) 101) (Some CONTINUED)"
proof -
  have "presales_start demo_start" by (simp add: presales_start_def demo_start_def empty_presales_def stages_ok_def)
  then have all: "\<forall>q\<in>set (inquiries demo_called).
        settled None (status_path (dispositionHistory demo_called) (inq_id q)) (Some (inq_status q))"
    using presales_records_true [OF demo_presales_run] by blast
  have one: "map (\<lambda>q. (inq_id q, inq_status q)) (inquiries demo_called) = [(101, CONTINUED)]" by code_simp
  then obtain q where "inquiries demo_called = [q]" "inq_id q = 101" "inq_status q = CONTINUED" by auto
  with all have "settled None (status_path (dispositionHistory demo_called) 101) (Some CONTINUED)" by simp
  with one show ?thesis ..
qed

end
