(* ===== verification/Spec2Isabelle.thy ===== *)
theory Spec2Isabelle
  imports Money Gst Finance Area Aadhaar CommissionMath Inventory Rows Store Ledger NumberSeq
    UnitMachine Samples Booking PaymentPlan Receipt Interest Refund ExtraCharge
    BookingTransfer BookingCancel PanEncryption Brokers
    Commission CommissionPayment Noc Lifecycle
    Tenant AuditTrail Permissions Guards AuthRows Sessions AuthzCache Access AccessSafety Login PluginHttp Webhooks CustomFields
    PresalesRows Assignment Inquiries Applicants PresalesSafety
begin

text \<open>
  A verification development for OpenEstate, a multi-tenant real-estate back office
  (TypeScript). The shared package (\<open>packages/shared/src\<close>) holds pure arithmetic and
  the request schemas, the database package (\<open>packages/db/src\<close>) the tenant and audit
  extensions of the ORM, and the API (\<open>apps/api/src\<close>) the services. A request passes the
  guards, enters its company's context and runs in one database transaction: a call that
  throws leaves the database as it was. The services read and write rows only.

  How the code is translated. A row of a Prisma model is a record, a table a list of rows in
  insertion order, a Prisma enum a datatype. A service method is a function from the database
  to \<open>'a result\<close>: \<open>Inl\<close> the exception it throws, \<open>Inr\<close> its value and the database
  after it. Every guard, early return and throw is a branch, in the order of the source.
  Amounts are \<open>int\<close> (the code's \<open>bigint\<close> paise), JavaScript numbers are rationals where the
  code does arithmetic on them, dates are day numbers or milliseconds, identifiers are \<open>nat\<close>.
  What the code gets from outside (the clock, random bytes, ciphers, HMAC and hash functions,
  DNS and the answers of servers) is an argument of the definitions that use it.

  Foundations.
  \<^item> \<open>Prelude\<close>: exceptions and results, loops over rows, row updates, JavaScript numbers.
    \<open>Text\<close>: decimal numerals, padding, trimming. \<open>Rounding\<close>: the locale of rounding
    functions that are within half a unit, used by \<open>Money\<close> and \<open>Area\<close>.
  \<^item> \<open>Rows\<close> and \<open>Store\<close>: the tables of the financial core (\<open>schema.prisma\<close>), their
    primitive writes with the tenant filter, and what a write to one company leaves alone.
    \<open>Samples\<close>: a small concrete database for the instances of the theorems.
  \<^item> \<open>Frames\<close>: the contract of a relation that all primitive writes respect (locales
    \<open>frame\<close>, \<open>cash_frame\<close>, \<open>receipt_frame\<close>, \<open>sale_frame\<close>), lifted once to every service
    operation; interpreted in \<open>Allocations\<close>, \<open>Numbering\<close> and \<open>Lifecycle\<close>.

  Arithmetic (\<open>packages/shared/src\<close>).
  \<^item> \<open>Money\<close> (\<open>money.ts\<close>), \<open>Gst\<close> (\<open>gst.util.ts\<close>), \<open>Area\<close> (\<open>area.ts\<close>), \<open>Finance\<close>
    (\<open>finance.ts\<close>), \<open>CommissionMath\<close> (\<open>commission.ts\<close>), \<open>Aadhaar\<close> (\<open>aadhaar-guard.ts\<close>),
    \<open>Inventory\<close> (\<open>inventory.ts\<close>): sums are kept exactly, errors are bounded by one paisa,
    check digits catch every single error and transposition.

  The financial core (\<open>postsales\<close>, \<open>brokers\<close>, \<open>commission\<close>, \<open>inventory\<close>, \<open>common\<close>).
  \<^item> \<open>Ledger\<close>, \<open>NumberSeq\<close>, \<open>UnitMachine\<close>: the three services the others call. Their
    contracts are the locales \<open>ledger_contract\<close>, \<open>allocator\<close> and \<open>status_machine\<close>, which
    the broker ledgers, refunds, payments and certificates instantiate too.
  \<^item> \<open>Booking\<close>, \<open>PaymentPlan\<close>, \<open>Receipt\<close>, \<open>Interest\<close>, \<open>Refund\<close>, \<open>ExtraCharge\<close>,
    \<open>BookingTransfer\<close>, \<open>BookingCancel\<close>: one theory per service, each with the effect of
    every operation on the booking's balance and on the tables, and its refusals.
  \<^item> \<open>Brokers\<close>, \<open>Commission\<close>, \<open>CommissionPayment\<close>, \<open>Noc\<close>, \<open>PanEncryption\<close>: brokers and
    their rules, accrual and clawback, payments, the certificate that gates a cancellation.
  \<^item> \<open>Allocations\<close>, \<open>Numbering\<close>, \<open>Lifecycle\<close>: the operations together as a transition
    system. By rule induction: no unit is sold twice, the cached allocations equal the
    ledger, receipt numbers have no gap, ledgers are append-only and companies are isolated.

  Tenancy and access (\<open>packages/db/src\<close>, \<open>auth\<close>, \<open>roles\<close>, \<open>users\<close>).
  \<^item> \<open>Tenant\<close>: the context store and the query extension; which rows a query can touch.
    \<open>AuditTrail\<close>: the audit extension; every hooked write leaves a faithful audit row.
  \<^item> \<open>Permissions\<close>, \<open>Guards\<close>: the permission keys and system roles; the chain of guards and
    exactly which requests it admits, the verdicts of the rate limit buckets being given.
  \<^item> \<open>AuthRows\<close>, \<open>Sessions\<close>, \<open>AuthzCache\<close>, \<open>Login\<close>: accounts, refresh tokens and their
    families, the version cache with its interleavings, signing in with a second factor and
    the lockouts, password reset links. A bound on second-factor guesses counts the
    clearings of the counter.
  \<^item> \<open>Access\<close>, \<open>AccessSafety\<close>: who may change whose authority; no group of callers gains a
    permission and the last super administrator stays.

  The edges.
  \<^item> \<open>PluginHttp\<close>: the HTTP client of a plugin (\<open>plugins/plugin-http-client.ts\<close>): it connects
    to public addresses only, at most twice, and comes back unless a server breaks a body off.
    Its redirect loop is a \<open>partial_function\<close>, with totality proved from the bound on
    redirects; a promise that never settles is the value \<open>None\<close> of a hop.
  \<^item> \<open>Webhooks\<close>: deliveries, attempts, retries and the automatic switch-off as a step
    relation over jobs, each write of a worker a step of its own that may fail; the log is
    true, and a delivery of one undisturbed worker settles within six attempts.
  \<^item> \<open>CustomFields\<close> (\<open>custom-fields.service.ts\<close>, \<open>custom-field.dto.ts\<close>): the fields a company
    defines and what a write of their values checks, keeps and stores.

  Presales (\<open>presales\<close>, \<open>masters/lead-stage\<close>, \<open>team-scope\<close>, \<open>presales.ts\<close>).
  \<^item> \<open>PresalesRows\<close>: the tables, the normal forms of phones and emails, ageing and escalation.
    \<open>Assignment\<close>: the round robin of a project's pool and the subtree of users a caller sees.
  \<^item> \<open>Inquiries\<close>: lead stages, the three ways a lead comes in, its updates, follow-ups and
    escalation. \<open>Applicants\<close>: duplicates, merging, consent, messages.
  \<^item> \<open>PresalesSafety\<close>: these operations as a transition system; by rule induction the
    histories of a lead are chains that end at its stage and status, and no lead hangs on an
    applicant that has been merged away.

  Bounds. No operation of the model needs fuel except where the code has a bound of its own:
  the cycle check of a manager assignment follows 20 links as in the source
  (\<open>walk_clear\<close>), the query for a caller's subtree goes 50 levels deep as in the source
  (\<open>subtree\<close>), a claim of a pool member is tried four times (\<open>claim_loop\<close>), the redirect loop follows at most the client's limit, the retries of a
  job are at most its attempts. All other recursion is structural or has a proved measure.

  Not modelled. Controllers and modules only parse a request and call a service (the guards
  they name are in \<open>Guards\<close>). Reports, dashboards, exports and PDF documents format query
  results. The front ends (\<open>apps/web\<close>, \<open>apps/portal\<close>, \<open>apps/website\<close>) are user interfaces
  over the API. Queues, mail, file storage and the counting of the rate limiter are libraries;
  a worker that dies between two writes and is restarted by the queue is not modelled.
  Concurrency within one table is modelled where the code handles it (number sequences,
  token rotation, the version cache, webhook jobs); elsewhere a transaction is one step.
\<close>

end
